(* ===== verification/Prelude.thy ===== *)
theory Prelude
  imports Main "HOL-Library.List_Lexorder" "HOL-Library.Char_ord" "HOL-Library.Product_Lexorder"
begin

text \<open>
  What the components share: the time units of Python's \<^verbatim>\<open>datetime\<close>, the table
  operations that stand for the SQL statements of the repositories (a table is the list of
  its rows, an UPDATE maps over the rows its WHERE clause selects), the generic lemmas on
  them, and the two interfaces every state column of the program is used through: a
  compare-and-set on one row, and an edge relation that only moves forward.
\<close>

section \<open>Collections of facts\<close>

named_theorems table_simps \<open>what an UPDATE or INSERT leaves in a table\<close>
named_theorems cas_simps \<open>the outcome of a compare-and-set\<close>
named_theorems inv_intros \<open>operations that preserve a component's invariant\<close>

section \<open>Time\<close>

text \<open>
  A \<^verbatim>\<open>datetime\<close> is the number of microseconds since the epoch in UTC, a
  \<^verbatim>\<open>timedelta\<close> a number of microseconds, a \<^verbatim>\<open>date\<close> a day number. Python
  refuses dates outside the years 1 to 9999; that overflow is not modelled.
\<close>

type_synonym datetime = int
type_synonym timedelta = int
type_synonym date = int

abbreviation seconds :: "int \<Rightarrow> timedelta" where
  "seconds n \<equiv> n * 1000000"

abbreviation hours :: "int \<Rightarrow> timedelta" where
  "hours n \<equiv> n * 3600000000"

abbreviation days :: "int \<Rightarrow> timedelta" where
  "days n \<equiv> n * 86400000000"

section \<open>Lists\<close>

text \<open>\<^verbatim>\<open>tuple(dict.fromkeys(xs))\<close>: the first occurrence of each stays.\<close>

definition dedup :: "'a list \<Rightarrow> 'a list" where
  "dedup xs = rev (remdups (rev xs))"

lemma found_in: "find P xs = Some x \<Longrightarrow> x \<in> set xs \<and> P x"
  by (auto simp: find_Some_iff)

section \<open>Tables\<close>

text \<open>UPDATE ... SET f WHERE p, and the row count its status line reports.\<close>

definition update_where :: "('r \<Rightarrow> bool) \<Rightarrow> ('r \<Rightarrow> 'r) \<Rightarrow> 'r list \<Rightarrow> 'r list" where
  "update_where p f rs = map (\<lambda>r. if p r then f r else r) rs"

definition count_where :: "('r \<Rightarrow> bool) \<Rightarrow> 'r list \<Rightarrow> nat" where
  "count_where p rs = length (filter p rs)"

text \<open>SELECT * ... WHERE key = k, for a key that is unique in the table.\<close>

definition row_of :: "('r \<Rightarrow> 'k) \<Rightarrow> 'k \<Rightarrow> 'r list \<Rightarrow> 'r option" where
  "row_of key k rs = find (\<lambda>r. key r = k) rs"

text \<open>The primary key constraint.\<close>

definition unique_key :: "('r \<Rightarrow> 'k) \<Rightarrow> 'r list \<Rightarrow> bool" where
  "unique_key key rs \<longleftrightarrow> distinct (map key rs)"

lemma row_of_Nil [simp]: "row_of key k [] = None"
  by (simp add: row_of_def)

lemma row_of_Cons: "row_of key k (r # rs) = (if key r = k then Some r else row_of key k rs)"
  by (simp add: row_of_def)

lemma row_of_Some: "row_of key k rs = Some r \<Longrightarrow> r \<in> set rs \<and> key r = k"
  by (auto simp: row_of_def find_Some_iff in_set_conv_nth)

lemma row_of_None_iff: "row_of key k rs = None \<longleftrightarrow> k \<notin> key ` set rs"
  by (auto simp: row_of_def find_None_iff)

lemma row_of_in: "unique_key key rs \<Longrightarrow> r \<in> set rs \<Longrightarrow> row_of key (key r) rs = Some r"
  by (induction rs) (auto simp: row_of_Cons unique_key_def rev_image_eqI)

lemma row_of_append:
  "row_of key k (rs @ ss) = (case row_of key k rs of Some r \<Rightarrow> Some r | None \<Rightarrow> row_of key k ss)"
  by (induction rs) (auto simp: row_of_Cons)

lemma unique_key_snoc [simp]:
  "unique_key key (rs @ [r]) \<longleftrightarrow> unique_key key rs \<and> row_of key (key r) rs = None"
  by (auto simp: unique_key_def row_of_None_iff)

lemma unique_key_eqD:
  "unique_key key rs \<Longrightarrow> r \<in> set rs \<Longrightarrow> r' \<in> set rs \<Longrightarrow> key r = key r' \<Longrightarrow> r = r'"
  using row_of_in by (metis option.inject)

lemma map_key_update_where [table_simps]:
  "(\<And>r. key (f r) = key r) \<Longrightarrow> map key (update_where p f rs) = map key rs"
  by (simp add: update_where_def)

lemma unique_key_update_where [table_simps]:
  "(\<And>r. key (f r) = key r) \<Longrightarrow> unique_key key (update_where p f rs) = unique_key key rs"
  by (simp add: unique_key_def map_key_update_where)

lemma set_update_where:
  "set (update_where p f rs) = {r \<in> set rs. \<not> p r} \<union> f ` {r \<in> set rs. p r}"
  by (auto simp: update_where_def)

lemma in_update_whereE:
  assumes "r \<in> set (update_where p f rs)"
  obtains "r \<in> set rs" "\<not> p r" | r0 where "r0 \<in> set rs" "p r0" "r = f r0"
  using assms by (auto simp: set_update_where)

lemma length_update_where [simp]: "length (update_where p f rs) = length rs"
  by (simp add: update_where_def)

lemma update_where_none: "count_where p rs = 0 \<Longrightarrow> update_where p f rs = rs"
  by (auto simp: update_where_def count_where_def filter_empty_conv map_idI)

text \<open>A row after an UPDATE by a predicate on its own key.\<close>

lemma row_of_update_where:
  assumes "\<And>r. key (f r) = key r"
  shows "row_of key k (update_where p f rs) = map_option (\<lambda>r. if p r then f r else r) (row_of key k rs)"
  using assms by (induction rs) (auto simp: row_of_Cons update_where_def)

lemma count_where_key:
  assumes "unique_key key rs"
  shows "count_where (\<lambda>r. key r = k \<and> q r) rs
         = (case row_of key k rs of Some r \<Rightarrow> if q r then 1 else 0 | None \<Rightarrow> 0)"
  using assms
proof (induction rs)
  case Nil
  then show ?case by (simp add: count_where_def)
next
  case (Cons a rs)
  then have nin: "key a \<notin> key ` set rs" and uniq: "unique_key key rs"
    by (auto simp: unique_key_def)
  have "key a = k \<Longrightarrow> filter (\<lambda>r. key r = k \<and> q r) rs = []"
    using nin by (auto simp: filter_empty_conv image_iff)
  moreover have "key a = k \<Longrightarrow> row_of key k rs = None"
    using nin by (simp add: row_of_None_iff)
  ultimately show ?case
    using Cons.IH [OF uniq] by (auto simp: count_where_def row_of_Cons split: option.splits)
qed

lemma count_where_key_cases:
  assumes "unique_key key rs"
  shows "count_where (\<lambda>r. key r = k \<and> q r) rs = 1
           \<longleftrightarrow> (\<exists>r. row_of key k rs = Some r \<and> q r)"
  using count_where_key [OF assms, of k q] by (auto split: option.splits if_splits)

text \<open>Sums over a table, for the measures and counters of the components.\<close>

lemma sum_list_map_update_where_le:
  "(\<And>r. r \<in> set rs \<Longrightarrow> p r \<Longrightarrow> (m (f r) :: nat) \<le> m r)
     \<Longrightarrow> sum_list (map m (update_where p f rs)) \<le> sum_list (map m rs)"
  by (induction rs) (auto simp: update_where_def intro: add_mono)

lemma count_where_mono:
  "(\<And>r. r \<in> set rs \<Longrightarrow> p r \<Longrightarrow> q r) \<Longrightarrow> count_where p rs \<le> count_where q rs"
  by (induction rs) (auto simp: count_where_def)

lemma count_where_append [simp]: "count_where p (xs @ ys) = count_where p xs + count_where p ys"
  by (simp add: count_where_def)

lemma count_where_zero_iff: "count_where p rs = 0 \<longleftrightarrow> (\<forall>r \<in> set rs. \<not> p r)"
  by (simp add: count_where_def filter_empty_conv)

section \<open>Compare-and-set on one row\<close>

text \<open>
  The interface the services use a state column through: \<open>cas s k e t\<close> moves the row of
  key \<open>k\<close> from state \<open>e\<close> to state \<open>t\<close> and answers whether it did. The laws are the ones
  the repositories promise: it succeeds exactly where the row is in the expected state, a
  success leaves the target, a failure changes nothing, and no other row moves.
\<close>

locale cas_store =
  fixes state_at :: "'s \<Rightarrow> 'k \<Rightarrow> 'st option"
    and legal :: "'st \<Rightarrow> 'st \<Rightarrow> bool"
    and cas :: "'s \<Rightarrow> 'k \<Rightarrow> 'st \<Rightarrow> 'st \<Rightarrow> bool \<times> 's"
    and valid :: "'s \<Rightarrow> bool"
  assumes cas_iff: "valid s \<Longrightarrow> fst (cas s k e t) \<longleftrightarrow> legal e t \<and> state_at s k = Some e"
    and cas_target: "valid s \<Longrightarrow> fst (cas s k e t) \<Longrightarrow> state_at (snd (cas s k e t)) k = Some t"
    and cas_failed: "valid s \<Longrightarrow> \<not> fst (cas s k e t) \<Longrightarrow> snd (cas s k e t) = s"
    and cas_other: "valid s \<Longrightarrow> k' \<noteq> k \<Longrightarrow> state_at (snd (cas s k e t)) k' = state_at s k'"
    and cas_valid: "valid s \<Longrightarrow> valid (snd (cas s k e t))"
begin

lemma cas_state_at:
  "valid s \<Longrightarrow> state_at (snd (cas s k e t)) k'
     = (if k' = k \<and> legal e t \<and> state_at s k = Some e then Some t else state_at s k')"
  by (metis cas_failed cas_iff cas_other cas_target)

text \<open>Two replicas that expect the same state cannot both win, whoever goes first.\<close>

lemma first_wins:
  assumes "valid s" and "e \<noteq> t" and "legal e t" and "state_at s k = Some e"
  shows "fst (cas s k e t) \<and> \<not> fst (cas (snd (cas s k e t)) k e t')"
  using assms by (simp add: cas_iff cas_valid cas_state_at)

text \<open>A sequence of claims of the same row: at most one succeeds.\<close>

primrec race :: "'s \<Rightarrow> 'k \<Rightarrow> 'st \<Rightarrow> 'st list \<Rightarrow> bool list" where
  "race s k e [] = []"
| "race s k e (t # ts) = fst (cas s k e t) # race (snd (cas s k e t)) k e ts"

lemma race_lost: "valid s \<Longrightarrow> state_at s k \<noteq> Some e \<Longrightarrow> filter id (race s k e ts) = []"
proof (induction ts arbitrary: s)
  case Nil
  then show ?case by simp
next
  case (Cons t ts)
  then have lost: "\<not> fst (cas s k e t)" by (simp add: cas_iff)
  then have "snd (cas s k e t) = s" using Cons.prems(1) by (rule cas_failed [rotated])
  then show ?case using lost Cons by simp
qed

lemma race_one_winner:
  "valid s \<Longrightarrow> e \<notin> set ts \<Longrightarrow> length (filter id (race s k e ts)) \<le> 1"
proof (induction ts arbitrary: s)
  case Nil
  then show ?case by simp
next
  case (Cons t us)
  show ?case
  proof (cases "fst (cas s k e t)")
    case True
    then have "state_at (snd (cas s k e t)) k \<noteq> Some e"
      using Cons.prems by (auto simp: cas_target)
    with Cons.prems(1) have "filter id (race (snd (cas s k e t)) k e us) = []"
      by (intro race_lost cas_valid)
    then show ?thesis by (simp add: id_def)
  next
    case False
    then show ?thesis using Cons by (simp add: cas_failed)
  qed
qed

end

section \<open>Edge relations that only move forward\<close>

text \<open>
  A journal of an operation with side effects may be rewritten in place but never moved
  back: every edge keeps or raises a rank. Along any history of accepted writes the rank is
  then monotone, a final state is never left, and the number of proper moves is bounded.
\<close>

locale forward_machine =
  fixes edge :: "'st \<Rightarrow> 'st \<Rightarrow> bool"
    and rank :: "'st \<Rightarrow> nat"
    and top :: nat
  assumes edge_rank: "edge s t \<Longrightarrow> s = t \<or> rank s < rank t"
    and rank_top: "rank s \<le> top"
begin

fun history :: "'st list \<Rightarrow> bool" where
  "history (s # t # us) = (edge s t \<and> history (t # us))"
| "history _ = True"

lemma edge_mono: "edge s t \<Longrightarrow> rank s \<le> rank t"
  using edge_rank by fastforce

lemma history_rank: "history (s # us) \<Longrightarrow> u \<in> set us \<Longrightarrow> rank s \<le> rank u"
proof (induction us arbitrary: s)
  case Nil
  then show ?case by simp
next
  case (Cons t us)
  then have "rank s \<le> rank t" by (auto intro: edge_mono)
  with Cons show ?case by fastforce
qed

text \<open>Once a history has left a state it never holds it again.\<close>

lemma no_return:
  assumes "history (s # t # us)" and "s \<noteq> t"
  shows "s \<notin> set (t # us)"
proof
  assume mem: "s \<in> set (t # us)"
  from assms have less: "rank s < rank t" using edge_rank by fastforce
  from assms(1) have "history (t # us)" by simp
  then have "rank t \<le> rank s" using mem history_rank by (cases "s = t") auto
  with less show False by simp
qed

lemma final_forever:
  assumes "history (s # us)" and "rank s = top"
  shows "set us \<subseteq> {s}"
  using assms
proof (induction us)
  case Nil
  then show ?case by simp
next
  case (Cons t us)
  then have "edge s t" by simp
  with Cons.prems(2) have "t = s" using edge_rank rank_top by (metis leD)
  with Cons show ?case by (cases us) auto
qed

fun moves :: "'st list \<Rightarrow> nat" where
  "moves (s # t # us) = (if s = t then 0 else 1) + moves (t # us)"
| "moves _ = 0"

lemma moves_bound: "history (s # us) \<Longrightarrow> moves (s # us) + rank s \<le> top"
proof (induction us arbitrary: s)
  case Nil
  then show ?case by (simp add: rank_top)
next
  case (Cons t us)
  then have "edge s t" and rest: "moves (t # us) + rank t \<le> top" by auto
  then have "s = t \<or> rank s < rank t" using edge_rank by blast
  with rest show ?case by auto
qed

end

end
