(* ===== verification/Cadence.thy ===== *)
theory Cadence
  imports Prelude
begin

text \<open>
  \<^verbatim>\<open>monitor/cadence.py\<close>: when to look for magnets again after a pass came up
  empty. The constants are the module's; \<open>next_resolve_at\<close> is its one function, with the
  loop over the long-tail bands as \<open>long_tail_at\<close>.
\<close>

definition PREHEAT_INTERVAL :: timedelta where "PREHEAT_INTERVAL = days 7"

definition WINDOW_BEFORE :: timedelta where "WINDOW_BEFORE = days 7"

definition WINDOW_AFTER :: timedelta where "WINDOW_AFTER = days 14"

definition WINDOW_INTERVAL :: timedelta where "WINDOW_INTERVAL = hours 4"

definition LONG_TAIL :: "(timedelta \<times> timedelta) list" where
  "LONG_TAIL = [(days 21, days 1), (days 42, days 3), (days 90, days 7)]"

definition LONG_TAIL_FLOOR :: timedelta where "LONG_TAIL_FLOOR = days 30"

text \<open>\<^verbatim>\<open>datetime.combine(release_date, time.min, tzinfo=UTC)\<close>.\<close>

definition utc_midnight :: "date \<Rightarrow> datetime" where
  "utc_midnight d = days d"

fun long_tail_at :: "datetime \<Rightarrow> timedelta \<Rightarrow> (timedelta \<times> timedelta) list \<Rightarrow> datetime" where
  "long_tail_at now age [] = now + LONG_TAIL_FLOOR"
| "long_tail_at now age ((band_end, interval) # bands) =
     (if age < band_end then now + interval else long_tail_at now age bands)"

definition next_resolve_at :: "datetime \<Rightarrow> date option \<Rightarrow> timedelta \<Rightarrow> datetime" where
  "next_resolve_at now release_date fallback =
     (case release_date of
        None \<Rightarrow> now + fallback
      | Some d \<Rightarrow>
          (let release = utc_midnight d; window_start = release - WINDOW_BEFORE
           in if now < window_start then min (now + PREHEAT_INTERVAL) window_start
              else if now < release + WINDOW_AFTER then now + WINDOW_INTERVAL
              else long_tail_at now (now - release) LONG_TAIL))"

lemmas cadence_defs =
  PREHEAT_INTERVAL_def WINDOW_BEFORE_def WINDOW_AFTER_def WINDOW_INTERVAL_def
  LONG_TAIL_def LONG_TAIL_FLOOR_def utc_midnight_def

lemma next_resolve_at_undated [simp]: "next_resolve_at now None fallback = now + fallback"
  by (simp add: next_resolve_at_def)

lemma next_resolve_at_dated:
  "next_resolve_at now (Some d) fallback =
     (if now < days d - days 7 then min (now + days 7) (days d - days 7)
      else if now < days d + days 14 then now + hours 4
      else if now < days d + days 21 then now + days 1
      else if now < days d + days 42 then now + days 3
      else if now < days d + days 90 then now + days 7
      else now + days 30)"
  by (simp add: next_resolve_at_def cadence_defs Let_def)

lemma next_resolve_at_later: "0 < fallback \<Longrightarrow> now < next_resolve_at now rd fallback"
  by (cases rd) (auto simp: next_resolve_at_dated)

text \<open>
  C23: The schedule always moves forward and never too far: the next pass is strictly later,
  at most thirty days away once a release date is known, never past the first day of the
  release window while that is ahead, and four hours away inside the window.
\<close>

theorem schedule_bounds:
  assumes "0 < fallback"
  shows "now < next_resolve_at now rd fallback
    \<and> (\<forall>d. rd = Some d \<longrightarrow>
         next_resolve_at now rd fallback \<le> now + LONG_TAIL_FLOOR
         \<and> (now < utc_midnight d - WINDOW_BEFORE
              \<longrightarrow> next_resolve_at now rd fallback \<le> utc_midnight d - WINDOW_BEFORE)
         \<and> (utc_midnight d - WINDOW_BEFORE \<le> now \<and> now < utc_midnight d + WINDOW_AFTER
              \<longrightarrow> next_resolve_at now rd fallback = now + WINDOW_INTERVAL))"
  using next_resolve_at_later [OF assms]
  by (auto simp: next_resolve_at_dated cadence_defs)

theorem schedule_bounds_witness:
  "(0::int) < hours 24
   \<and> days 100 < next_resolve_at (days 100) (Some 110) (hours 24)
   \<and> next_resolve_at (days 100) (Some 110) (hours 24) \<le> days 103"
  using schedule_bounds [of "hours 24" "days 100" "Some 110"]
  by (simp add: cadence_defs)

text \<open>The passes that come up empty one after the other, each at the time the last one set.\<close>

fun resolve_times :: "nat \<Rightarrow> datetime \<Rightarrow> date option \<Rightarrow> timedelta \<Rightarrow> datetime" where
  "resolve_times 0 now rd fallback = now"
| "resolve_times (Suc n) now rd fallback = resolve_times n (next_resolve_at now rd fallback) rd fallback"

lemma preheat_steps:
  "now \<le> days d - days 7 \<Longrightarrow> days d - days 7 - now \<le> days (int n) \<Longrightarrow>
     \<exists>k\<le>n. resolve_times k now (Some d) fallback = days d - days 7"
proof (induction n arbitrary: now)
  case 0
  then have "now = days d - days 7" by simp
  then show ?case by (intro exI [of _ 0]) simp
next
  case (Suc n)
  show ?case
  proof (cases "now = days d - days 7")
    case True
    then show ?thesis by (intro exI [of _ 0]) simp
  next
    case False
    let ?next = "next_resolve_at now (Some d) fallback"
    from False Suc.prems have "?next = min (now + days 7) (days d - days 7)"
      by (simp add: next_resolve_at_dated)
    with Suc.prems have "?next \<le> days d - days 7" "days d - days 7 - ?next \<le> days (int n)"
      by (auto simp: min_def)
    then obtain k where "k \<le> n" "resolve_times k ?next (Some d) fallback = days d - days 7"
      using Suc.IH by blast
    then show ?thesis by (intro exI [of _ "Suc k"]) simp
  qed
qed

text \<open>
  C22: However early a work is registered, the weekly probes that come up empty reach the
  first instant of the release window exactly: some pass, after at most as many passes as
  there are days to wait, is scheduled at the window's start and not after it.
\<close>

theorem preheat_lands_on_window:
  assumes "now \<le> utc_midnight d - WINDOW_BEFORE"
  shows "\<exists>n. n \<le> nat ((utc_midnight d - WINDOW_BEFORE - now) div days 1 + 1)
             \<and> resolve_times n now (Some d) fallback = utc_midnight d - WINDOW_BEFORE"
proof -
  let ?gap = "days d - days 7 - now"
  let ?n = "nat (?gap div days 1 + 1)"
  have nonneg: "0 \<le> ?gap" using assms by (simp add: cadence_defs)
  have "?gap \<le> days (?gap div days 1 + 1)"
    using pos_mod_bound [of "days 1" ?gap] div_mult_mod_eq [of ?gap "days 1"] by simp
  also have "\<dots> = days (int ?n)" using nonneg by (simp add: pos_imp_zdiv_nonneg_iff)
  finally have "?gap \<le> days (int ?n)" .
  with assms show ?thesis
    using preheat_steps [of now d ?n fallback] by (simp add: cadence_defs)
qed

theorem preheat_lands_on_window_witness:
  "days 80 \<le> utc_midnight 100 - WINDOW_BEFORE
   \<and> (\<exists>n\<le>14. resolve_times n (days 80) (Some 100) 0 = days 93)"
  using preheat_lands_on_window [of "days 80" 100 0] by (simp add: cadence_defs)

end
