(* ===== verification/Magnet.thy ===== *)
theory Magnet
  imports Texts
begin

text \<open>
  \<^verbatim>\<open>core/magnet.py\<close>: the info hash a magnet link is tracked by. Strings are lists of
  characters 0 to 255; the regular expression is
  \<^verbatim>\<open>urn:btih:([A-Za-z0-9]+)\<close> with IGNORECASE, searched leftmost with a greedy group.
  Python's IGNORECASE also lets three letters beyond U+00FF match \<^verbatim>\<open>i\<close>, \<^verbatim>\<open>k\<close>
  and \<^verbatim>\<open>s\<close>; those are outside the strings modelled here.
\<close>

section \<open>ASCII classes\<close>

section \<open>The pattern\<close>

definition BTIH :: string where
  "BTIH = ''URN:BTIH:''"

text \<open>What follows the literal at the head of the text, if it stands there in any case.\<close>

definition after_btih :: "string \<Rightarrow> string option" where
  "after_btih s = (if upper (take 9 s) = BTIH then Some (drop 9 s) else None)"

fun btih_search :: "string \<Rightarrow> string option" where
  "btih_search [] = None"
| "btih_search (c # s) =
     (case after_btih (c # s) of
        Some rest \<Rightarrow>
          (if takeWhile is_alnum_char rest = [] then btih_search s
           else Some (takeWhile is_alnum_char rest))
      | None \<Rightarrow> btih_search s)"

section \<open>The two spellings of a hash\<close>

definition hex_digit :: "char \<Rightarrow> nat option" where
  "hex_digit c =
     (let n = code_of (upper_char c)
      in if 48 \<le> n \<and> n \<le> 57 then Some (n - 48)
         else if 65 \<le> n \<and> n \<le> 70 then Some (n - 55) else None)"

text \<open>
  \<^verbatim>\<open>int(value, 16)\<close> on an alphanumeric text: hexadecimal digits, with one optional
  \<^verbatim>\<open>0x\<close> in front of at least one digit, as Python's \<^verbatim>\<open>int\<close> accepts it.
\<close>

definition all_hex :: "string \<Rightarrow> bool" where
  "all_hex s \<longleftrightarrow> s \<noteq> [] \<and> list_all (\<lambda>c. hex_digit c \<noteq> None) s"

definition int16_ok :: "string \<Rightarrow> bool" where
  "int16_ok s \<longleftrightarrow> all_hex s \<or> (upper (take 2 s) = ''0X'' \<and> all_hex (drop 2 s))"

text \<open>The base32 alphabet: A to Z are 0 to 25, 2 to 7 are 26 to 31.\<close>

definition b32_digit :: "char \<Rightarrow> nat option" where
  "b32_digit c =
     (let n = code_of c
      in if 65 \<le> n \<and> n \<le> 90 then Some (n - 65)
         else if 50 \<le> n \<and> n \<le> 55 then Some (n - 24) else None)"

definition hex_char :: "nat \<Rightarrow> char" where
  "hex_char n = (if n < 10 then char_of (48 + n) else char_of (55 + n))"

text \<open>\<open>n\<close> hexadecimal digits of a number, most significant first.\<close>

fun hex_digits :: "nat \<Rightarrow> nat \<Rightarrow> string" where
  "hex_digits 0 v = []"
| "hex_digits (Suc n) v = hex_digits n (v div 16) @ [hex_char (v mod 16)]"

text \<open>One quantum of eight base32 characters, accumulated five bits at a time.\<close>

fun b32_acc :: "nat \<Rightarrow> string \<Rightarrow> nat option" where
  "b32_acc acc [] = Some acc"
| "b32_acc acc (c # s) =
     (case b32_digit c of None \<Rightarrow> None | Some d \<Rightarrow> b32_acc (acc * 32 + d) s)"

text \<open>
  \<^verbatim>\<open>base64.b32decode(value).hex().upper()\<close> on 32 characters without padding: four
  quanta of eight characters, each the ten hexadecimal digits of its five bytes.
\<close>

fun b32_hex :: "nat \<Rightarrow> string \<Rightarrow> string option" where
  "b32_hex 0 s = Some []"
| "b32_hex (Suc q) s =
     (case b32_acc 0 (take 8 s) of
        None \<Rightarrow> None
      | Some v \<Rightarrow>
          (case b32_hex q (drop 8 s) of
             None \<Rightarrow> None
           | Some rest \<Rightarrow> Some (hex_digits 10 v @ rest)))"

definition extract_info_hash :: "string \<Rightarrow> string option" where
  "extract_info_hash magnet =
     (case btih_search magnet of
        None \<Rightarrow> None
      | Some value \<Rightarrow>
          (if length value = 40 then (if int16_ok value then Some (upper value) else None)
           else if length value = 32 then b32_hex 4 (upper value)
           else None))"

section \<open>Lemmas\<close>

declare b32_hex.simps(2) [simp del] hex_digits.simps(2) [simp del]

lemma char_cases_256: "(\<And>n. n < 256 \<Longrightarrow> P (char_of (n::nat))) \<Longrightarrow> P c"
  by (metis char_of_char nat_of_char_less_256)

lemma code_of_char_of [simp]: "n < 256 \<Longrightarrow> code_of (char_of n) = n"
  by (simp add: code_of_def)

lemma code_of_less: "code_of c < 256"
  by (simp add: code_of_def)

lemma code_of_upper_char:
  "code_of (upper_char c) = (if is_lower_char c then code_of c - 32 else code_of c)"
  using code_of_less [of c] by (auto simp: upper_char_def is_lower_char_def)

lemma upper_char_not_lower: "\<not> is_lower_char (upper_char c)"
  by (auto simp: is_lower_char_def code_of_upper_char)

lemma upper_char_idem [simp]: "upper_char (upper_char c) = upper_char c"
  using upper_char_not_lower by (simp add: upper_char_def)

lemma length_upper [simp]: "length (upper s) = length s"
  by (simp add: upper_def)

lemma is_alnum_upper_char [simp]: "is_alnum_char (upper_char c) = is_alnum_char c"
  by (auto simp: is_alnum_char_def is_digit_char_def is_upper_char_def is_lower_char_def
      code_of_upper_char)

lemma hex_digit_upper_char [simp]: "hex_digit (upper_char c) = hex_digit c"
  by (simp add: hex_digit_def)

lemma upper_takeWhile: "upper (takeWhile is_alnum_char s) = takeWhile is_alnum_char (upper s)"
  by (induction s) (auto simp: upper_def)

lemma take_upper: "take n (upper s) = upper (take n s)"
  and drop_upper: "drop n (upper s) = upper (drop n s)"
  by (simp_all add: upper_def take_map drop_map)

lemma after_btih_upper: "after_btih (upper s) = map_option upper (after_btih s)"
  by (simp add: after_btih_def take_upper drop_upper)

lemma takeWhile_Nil_upper:
  "takeWhile is_alnum_char (upper s) = [] \<longleftrightarrow> takeWhile is_alnum_char s = []"
  by (cases s) (auto simp: upper_def)

lemma btih_search_upper: "btih_search (upper s) = map_option upper (btih_search s)"
proof (induction s)
  case Nil
  then show ?case by (simp add: upper_def)
next
  case (Cons c s)
  have up: "upper (c # s) = upper_char c # upper s" by (simp add: upper_def)
  have "after_btih (upper_char c # upper s) = map_option upper (after_btih (c # s))"
    using after_btih_upper [of "c # s"] up by simp
  then show ?case using Cons
    by (auto simp: up takeWhile_Nil_upper upper_takeWhile split: option.splits)
qed

lemma all_hex_upper [simp]: "all_hex (upper s) = all_hex s"
  by (auto simp: all_hex_def upper_def list_all_iff)

lemma int16_ok_upper [simp]: "int16_ok (upper s) = int16_ok s"
  by (simp add: int16_ok_def take_upper drop_upper)

text \<open>
  Two links that differ only in the case of their letters are tracked under the same
  hash, so a source that lower-cases its links cannot have a torrent submitted twice.
\<close>

lemma extract_info_hash_case:
  "extract_info_hash (upper magnet) = extract_info_hash magnet"
  by (simp add: extract_info_hash_def btih_search_upper split: option.splits)

section \<open>What the result looks like\<close>

definition is_hash_char :: "char \<Rightarrow> bool" where
  "is_hash_char c \<longleftrightarrow> is_alnum_char c \<and> \<not> is_lower_char c"

lemma code_of_hex_char: "n < 16 \<Longrightarrow> code_of (hex_char n) = (if n < 10 then 48 + n else 55 + n)"
  by (simp add: hex_char_def)

lemma hex_digit_hex_char [simp]: "n < 16 \<Longrightarrow> hex_digit (hex_char n) = Some n"
  by (auto simp: hex_digit_def code_of_hex_char code_of_upper_char is_lower_char_def Let_def)

lemma is_hash_hex_char: "n < 16 \<Longrightarrow> is_hash_char (hex_char n)"
  by (auto simp: is_hash_char_def is_alnum_char_def is_digit_char_def is_upper_char_def
      is_lower_char_def code_of_hex_char)

lemma length_hex_digits [simp]: "length (hex_digits n v) = n"
  by (induction n arbitrary: v) (auto simp: hex_digits.simps)

lemma hex_digits_hash: "c \<in> set (hex_digits n v) \<Longrightarrow> is_hash_char c"
  by (induction n arbitrary: v) (auto simp: hex_digits.simps is_hash_hex_char)

lemma b32_hex_shape: "b32_hex q s = Some r \<Longrightarrow> length r = 10 * q \<and> list_all is_hash_char r"
proof (induction q arbitrary: s r)
  case 0
  then show ?case by simp
next
  case (Suc q)
  then obtain v rest where "b32_hex q (drop 8 s) = Some rest" and r: "r = hex_digits 10 v @ rest"
    by (auto simp: b32_hex.simps(2) split: option.splits)
  then have "length rest = 10 * q \<and> list_all is_hash_char rest" using Suc.IH by blast
  moreover have "list_all is_hash_char (hex_digits 10 v)"
    using hex_digits_hash by (auto simp: list_all_iff)
  ultimately show ?case by (simp add: r)
qed

lemma btih_search_alnum: "btih_search s = Some v \<Longrightarrow> list_all is_alnum_char v \<and> v \<noteq> []"
  by (induction s) (auto simp: list_all_iff dest: set_takeWhileD split: option.splits if_splits)

lemma upper_alnum_hash: "list_all is_alnum_char v \<Longrightarrow> list_all is_hash_char (upper v)"
  by (auto simp: list_all_iff upper_def is_hash_char_def upper_char_not_lower)

text \<open>
  A hash the ledger keys an attempt on is always forty upper-case alphanumeric
  characters, from whichever spelling the link carried.
\<close>

lemma extract_info_hash_shape:
  assumes "extract_info_hash magnet = Some h"
  shows "length h = 40 \<and> list_all is_hash_char h"
proof -
  from assms obtain v where v: "btih_search magnet = Some v"
    by (auto simp: extract_info_hash_def split: option.splits)
  then have alnum: "list_all is_hash_char (upper v)"
    using btih_search_alnum upper_alnum_hash by blast
  from assms v have "length v = 40 \<and> h = upper v \<or> b32_hex 4 (upper v) = Some h"
    by (simp add: extract_info_hash_def split: if_splits)
  then show ?thesis
  proof
    assume "length v = 40 \<and> h = upper v"
    with alnum show ?thesis by simp
  next
    assume "b32_hex 4 (upper v) = Some h"
    from b32_hex_shape [OF this] show ?thesis by simp
  qed
qed

section \<open>Base32 and hex name the same number\<close>

text \<open>The number a text of digits spells, most significant first.\<close>

fun value_in :: "nat \<Rightarrow> (char \<Rightarrow> nat option) \<Rightarrow> nat \<Rightarrow> string \<Rightarrow> nat option" where
  "value_in base digit acc [] = Some acc"
| "value_in base digit acc (c # s) =
     (case digit c of None \<Rightarrow> None | Some d \<Rightarrow> value_in base digit (acc * base + d) s)"

definition b32_value :: "string \<Rightarrow> nat option" where
  "b32_value s = value_in 32 b32_digit 0 s"

definition hex_value :: "string \<Rightarrow> nat option" where
  "hex_value s = value_in 16 hex_digit 0 s"

lemma value_in_append:
  "value_in b d acc (s @ t) = (case value_in b d acc s of None \<Rightarrow> None | Some v \<Rightarrow> value_in b d v t)"
  by (induction s arbitrary: acc) (auto split: option.splits)

lemma value_in_shift:
  "value_in b d acc s = map_option (\<lambda>v. acc * b ^ length s + v) (value_in b d 0 s)"
proof (induction s arbitrary: acc)
  case Nil
  then show ?case by simp
next
  case (Cons c s)
  show ?case
  proof (cases "d c")
    case None
    then show ?thesis by simp
  next
    case (Some x)
    have "value_in b d (acc * b + x) s = map_option (\<lambda>v. (acc * b + x) * b ^ length s + v) (value_in b d 0 s)"
      and "value_in b d x s = map_option (\<lambda>v. x * b ^ length s + v) (value_in b d 0 s)"
      by (rule Cons)+
    then show ?thesis using Some
      by (cases "value_in b d 0 s") (auto simp: algebra_simps)
  qed
qed

lemma hex_value_hex_digits: "v < 16 ^ n \<Longrightarrow> value_in 16 hex_digit 0 (hex_digits n v) = Some v"
proof (induction n arbitrary: v)
  case 0
  then show ?case by simp
next
  case (Suc n)
  then have "v div 16 < 16 ^ n" by (simp add: less_mult_imp_div_less mult.commute)
  then show ?case using Suc.IH by (simp add: value_in_append hex_digits.simps)
qed

lemma b32_acc_value: "b32_acc acc s = value_in 32 b32_digit acc s"
  by (induction s arbitrary: acc) (auto split: option.splits)

lemma b32_digit_less: "b32_digit c = Some d \<Longrightarrow> d < 32"
  by (auto simp: b32_digit_def Let_def split: if_splits)

lemma value_in_less:
  "(\<And>c x. d c = Some x \<Longrightarrow> x < b) \<Longrightarrow> value_in b d 0 s = Some v \<Longrightarrow> v < b ^ length s"
proof (induction s arbitrary: v rule: rev_induct)
  case Nil
  then show ?case by simp
next
  case (snoc c s)
  then obtain u x where "value_in b d 0 s = Some u" "d c = Some x" "v = u * b + x"
    by (auto simp: value_in_append split: option.splits)
  moreover from this snoc have "u < b ^ length s" "x < b" by auto
  ultimately have "v < u * b + b" "u * b + b \<le> b ^ length s * b"
    using mult_le_mono1 [of "Suc u" "b ^ length s" b] by auto
  then show ?case by (simp add: mult.commute)
qed

lemma b32_hex_value:
  "length s = 8 * q \<Longrightarrow> b32_hex q s = Some r
     \<Longrightarrow> value_in 16 hex_digit 0 r = value_in 32 b32_digit 0 s \<and> value_in 32 b32_digit 0 s \<noteq> None"
proof (induction q arbitrary: s r)
  case 0
  then show ?case by simp
next
  case (Suc q)
  then obtain v rest where v: "b32_acc 0 (take 8 s) = Some v"
    and rest: "b32_hex q (drop 8 s) = Some rest" and r: "r = hex_digits 10 v @ rest"
    by (auto simp: b32_hex.simps(2) split: option.splits)
  have len: "length (take 8 s) = 8" "length (drop 8 s) = 8 * q" using Suc.prems(1) by auto
  have "value_in 32 b32_digit 0 (take 8 s) = Some v" using v by (simp only: b32_acc_value)
  from value_in_less [OF b32_digit_less this] have "v < 32 ^ length (take 8 s)" by simp
  then have "v < 16 ^ 10" using len by simp
  then have head: "value_in 16 hex_digit 0 (hex_digits 10 v) = Some v"
    by (rule hex_value_hex_digits)
  from Suc.IH [OF len(2) rest] obtain u where
    u: "value_in 16 hex_digit 0 rest = Some u" "value_in 32 b32_digit 0 (drop 8 s) = Some u" by auto
  have "length rest = 10 * q" using b32_hex_shape [OF rest] by simp
  then have "value_in 16 hex_digit 0 r = Some (v * 16 ^ (10 * q) + u)"
    using head u(1) by (simp add: r value_in_append value_in_shift [of 16 hex_digit v])
  moreover have "value_in 32 b32_digit 0 (take 8 s @ drop 8 s) = Some (v * 32 ^ (8 * q) + u)"
    using v u(2) len(2)
    by (simp add: value_in_append b32_acc_value value_in_shift [of 32 b32_digit v] del: append_take_drop_id)
  moreover have "(16::nat) ^ (10 * q) = 32 ^ (8 * q)"
    by (simp add: power_mult)
  ultimately show ?case by simp
qed


text \<open>A concrete base32 link: thirty-two times the character A, the all-zero hash.\<close>

definition zero_link :: string where
  "zero_link = ''magnet:?xt=urn:btih:'' @ replicate 32 (CHR ''a'')"

lemma zero_link_search: "btih_search zero_link = Some (replicate 32 (CHR ''a''))"
  by code_simp

lemma zero_link_b32: "b32_hex 4 (upper (replicate 32 (CHR ''a''))) = Some (replicate 40 (CHR ''0''))"
  by code_simp

lemma zero_link_hash: "extract_info_hash zero_link = Some (replicate 40 (CHR ''0''))"
  by (simp add: extract_info_hash_def zero_link_search zero_link_b32)


text \<open>A link whose hash starts with \<^verbatim>\<open>0x\<close>.\<close>

definition prefixed_link :: string where
  "prefixed_link = ''magnet:?xt=urn:btih:0x'' @ replicate 38 (CHR ''a'')"

definition prefixed_hash :: string where
  "prefixed_hash = ''0X'' @ replicate 38 (CHR ''A'')"

lemma prefixed_link_search: "btih_search prefixed_link = Some (''0x'' @ replicate 38 (CHR ''a''))"
  by code_simp

text \<open>
  A link whose forty-character hash starts with \<^verbatim>\<open>0x\<close> is accepted, because
  Python's \<^verbatim>\<open>int(value, 16)\<close> takes that prefix: the recorded hash is then not forty
  hex digits, although the function promises upper-case hex or nothing.
\<close>

lemma prefixed_hash_is_not_hex:
  "extract_info_hash prefixed_link = Some prefixed_hash
   \<and> length prefixed_hash = 40 \<and> hex_value prefixed_hash = None"
proof -
  have "upper ''0x'' = ''0X''" by code_simp
  moreover have "hex_digit (CHR ''a'') = Some 10" by code_simp
  ultimately have "int16_ok (''0x'' @ replicate 38 (CHR ''a''))"
    by (simp add: int16_ok_def all_hex_def list_all_iff)
  moreover have "upper (''0x'' @ replicate 38 (CHR ''a'')) = prefixed_hash"
  proof -
    have "upper_char (CHR ''0'') = CHR ''0''" "upper_char (CHR ''x'') = CHR ''X''"
      "upper_char (CHR ''a'') = CHR ''A''"
      by code_simp+
    then show ?thesis by (simp add: prefixed_hash_def upper_def)
  qed
  moreover have "hex_value prefixed_hash = None" by code_simp
  moreover have "length prefixed_hash = 40" by (simp add: prefixed_hash_def)
  moreover have "length (''0x'' @ replicate 38 (CHR ''a'')) = 40" by simp
  ultimately show ?thesis
    by (simp only: extract_info_hash_def prefixed_link_search option.case if_True simp_thms)
qed

end
