(* ===== verification/Acquisitions.thy ===== *)
theory Acquisitions
  imports Prelude
begin

text \<open>
  \<^verbatim>\<open>monitor/acquisitions.py\<close>: the acquisition ledger. Its two PostgreSQL tables are
  lists of rows, its repository methods functions on them; each SQL statement is one
  operation on a table, with the constraints \<^verbatim>\<open>db.py\<close> declares (the primary keys,
  the foreign key of the attempts, the unique index on live hashes) as the error values a
  violation raises. Text columns are ordered by code point. A JSON column is the list it
  encodes. Download progress, a double, is only stored and compared: it is an integer.
\<close>

section \<open>States\<close>

datatype acq_state =
  Discovered | Downloading | Archived | Resolve_Failed | Exhausted | Needs_Attention | Ignored

datatype attempt_state =
  APending | ASubmitted | ADownloading | AFinished | AArchiving | AArchived | AJunk | AError
  | AStalled | ALost

datatype acq_source = Manual | Reconcile | Fill_Actor

fun source_text :: "acq_source \<Rightarrow> string" where
  "source_text Manual = ''manual''"
| "source_text Reconcile = ''reconcile''"
| "source_text Fill_Actor = ''fill_actor''"

definition rss_source :: "string \<Rightarrow> string" where
  "rss_source label = ''rss:'' @ label"

definition playlist_source :: "string \<Rightarrow> string" where
  "playlist_source key = ''playlist:'' @ key"

definition ACTIVE_STATES :: "acq_state list" where
  "ACTIVE_STATES = [Discovered, Downloading]"

definition REPLACEABLE_STATES :: "acq_state list" where
  "REPLACEABLE_STATES = [Archived, Ignored, Resolve_Failed, Exhausted]"

definition RETRYABLE_STATES :: "acq_state list" where
  "RETRYABLE_STATES = [Resolve_Failed, Exhausted]"

definition DUE_STATES :: "acq_state list" where
  "DUE_STATES = RETRYABLE_STATES @ [Discovered]"

definition IN_FLIGHT_ATTEMPT_STATES :: "attempt_state list" where
  "IN_FLIGHT_ATTEMPT_STATES = [ASubmitted, ADownloading]"

definition LIVE_ATTEMPT_STATES :: "attempt_state list" where
  "LIVE_ATTEMPT_STATES = IN_FLIGHT_ATTEMPT_STATES @ [AFinished, AArchiving]"

definition CLAIM_RETRIES :: nat where
  "CLAIM_RETRIES = 3"

text \<open>The tables of edges, in the source's order.\<close>

fun acq_edges :: "acq_state \<Rightarrow> acq_state list" where
  "acq_edges Discovered = [Downloading, Resolve_Failed, Needs_Attention, Archived, Ignored]"
| "acq_edges Downloading = [Downloading, Archived, Exhausted, Needs_Attention, Ignored]"
| "acq_edges Resolve_Failed =
     [Downloading, Resolve_Failed, Exhausted, Needs_Attention, Archived, Ignored]"
| "acq_edges Exhausted = [Downloading, Resolve_Failed, Needs_Attention, Archived, Ignored]"
| "acq_edges Needs_Attention = [Downloading, Archived, Exhausted, Ignored]"
| "acq_edges Archived = []"
| "acq_edges Ignored = [Discovered]"

fun attempt_edges :: "attempt_state \<Rightarrow> attempt_state list" where
  "attempt_edges APending = [ASubmitted, AError]"
| "attempt_edges ASubmitted = [ADownloading, AFinished, AError, AStalled, ALost]"
| "attempt_edges ADownloading = [ADownloading, AFinished, AError, AStalled, ALost]"
| "attempt_edges AFinished = [AArchiving, ALost]"
| "attempt_edges AArchiving = [AArchived, AJunk, AFinished]"
| "attempt_edges AArchived = []"
| "attempt_edges AJunk = []"
| "attempt_edges AError = []"
| "attempt_edges AStalled = []"
| "attempt_edges ALost = []"

definition is_live :: "attempt_state \<Rightarrow> bool" where
  "is_live s \<longleftrightarrow> s \<in> set LIVE_ATTEMPT_STATES"

definition is_in_flight :: "attempt_state \<Rightarrow> bool" where
  "is_in_flight s \<longleftrightarrow> s \<in> set IN_FLIGHT_ATTEMPT_STATES"

lemma is_live_simps [simp]:
  "\<not> is_live APending" "is_live ASubmitted" "is_live ADownloading" "is_live AFinished"
  "is_live AArchiving" "\<not> is_live AArchived" "\<not> is_live AJunk" "\<not> is_live AError"
  "\<not> is_live AStalled" "\<not> is_live ALost"
  by (simp_all add: is_live_def LIVE_ATTEMPT_STATES_def IN_FLIGHT_ATTEMPT_STATES_def)

lemma is_in_flight_iff: "is_in_flight s \<longleftrightarrow> s = ASubmitted \<or> s = ADownloading"
  by (auto simp: is_in_flight_def IN_FLIGHT_ATTEMPT_STATES_def)

section \<open>Rows\<close>

record candidate =
  cd_magnet :: string
  cd_info_hash :: "string option"
  cd_source :: string
  cd_size_hint :: "int option"

record acquisition =
  aq_avid :: string
  aq_state :: acq_state
  aq_source :: string
  aq_note :: "string option"
  aq_archived_paths :: "string list"
  aq_next_action_at :: "datetime option"
  aq_created_at :: datetime
  aq_updated_at :: datetime
  aq_task_dir_path :: "string option"
  aq_release_date :: "date option"
  aq_replace_paths_json :: "string list option"
  aq_replace_after_attempt :: "nat option"

record attempt =
  at_avid :: string
  at_no :: nat
  at_magnet :: string
  at_info_hash :: "string option"
  at_magnet_source :: string
  at_size_hint :: "int option"
  at_state :: attempt_state
  at_progress :: "int option"
  at_error :: "string option"
  at_submitted_at :: "datetime option"
  at_updated_at :: datetime

record ledger =
  acquisitions :: "acquisition list"
  attempts :: "attempt list"

text \<open>\<^verbatim>\<open>_acquisition_from_row\<close> reads an absent replacement as the empty tuple.\<close>

definition replace_paths :: "acquisition \<Rightarrow> string list" where
  "replace_paths r = (case aq_replace_paths_json r of Some ps \<Rightarrow> ps | None \<Rightarrow> [])"

datatype ledger_error =
  IllegalTransition acq_state acq_state
  | IllegalAttemptTransition attempt_state attempt_state
  | MagnetInUse string nat
  | UniqueViolation
  | ForeignKeyViolation
  | NotInFlight attempt_state

abbreviation attempt_key :: "attempt \<Rightarrow> string \<times> nat" where
  "attempt_key r \<equiv> (at_avid r, at_no r)"

text \<open>The unique index \<^verbatim>\<open>archive_magnet_attempts_live_hash_idx\<close>.\<close>

definition live_hashes :: "attempt list \<Rightarrow> string list" where
  "live_hashes rs =
     map (\<lambda>r. the (at_info_hash r))
       (filter (\<lambda>r. is_live (at_state r) \<and> at_info_hash r \<noteq> None) rs)"

definition live_index_ok :: "attempt list \<Rightarrow> bool" where
  "live_index_ok rs \<longleftrightarrow> distinct (live_hashes rs)"

section \<open>Discovery\<close>

definition get_acq :: "ledger \<Rightarrow> string \<Rightarrow> acquisition option" where
  "get_acq l avid = row_of aq_avid avid (acquisitions l)"

definition update_acq :: "ledger \<Rightarrow> string \<Rightarrow> (acquisition \<Rightarrow> acquisition) \<Rightarrow> ledger" where
  "update_acq l avid f = l\<lparr>acquisitions := update_where (\<lambda>r. aq_avid r = avid) f (acquisitions l)\<rparr>"

text \<open>The state an accepted sighting is judged on: is the wait of a parked row over?\<close>

definition sighting_accepted :: "acquisition \<Rightarrow> datetime \<Rightarrow> bool \<Rightarrow> bool" where
  "sighting_accepted existing now wake =
     (if aq_state existing = Discovered then True
      else if aq_state existing \<in> set RETRYABLE_STATES then
        wake \<or> (case aq_next_action_at existing of None \<Rightarrow> True | Some t \<Rightarrow> t \<le> now)
      else False)"

definition discover ::
  "ledger \<Rightarrow> string \<Rightarrow> string \<Rightarrow> datetime \<Rightarrow> string option \<Rightarrow> datetime option \<Rightarrow> date option
     \<Rightarrow> bool \<Rightarrow> string list \<Rightarrow> bool \<times> ledger" where
  "discover l avid source now task_dir_path next_action_at release_date wake yields_to =
     (case get_acq l avid of
        None \<Rightarrow>
          (True, l\<lparr>acquisitions := acquisitions l @
             [\<lparr>aq_avid = avid, aq_state = Discovered, aq_source = source, aq_note = None,
               aq_archived_paths = [], aq_next_action_at = next_action_at, aq_created_at = now,
               aq_updated_at = now, aq_task_dir_path = task_dir_path,
               aq_release_date = release_date, aq_replace_paths_json = None,
               aq_replace_after_attempt = None\<rparr>]\<rparr>)
      | Some existing \<Rightarrow>
          (let accepted = sighting_accepted existing now wake;
               l1 = (if accepted \<and> release_date \<noteq> None \<and> aq_release_date existing = None
                     then update_acq l avid (\<lambda>r. r\<lparr>aq_release_date := release_date\<rparr>) else l);
               owned_elsewhere = (aq_source existing \<noteq> source \<and> aq_source existing \<in> set yields_to);
               l2 = (if accepted \<and> task_dir_path \<noteq> None \<and> aq_task_dir_path existing \<noteq> task_dir_path
                        \<and> \<not> owned_elsewhere
                     then update_acq l1 avid
                            (\<lambda>r. r\<lparr>aq_task_dir_path := task_dir_path, aq_source := source\<rparr>)
                     else l1);
               l3 = (if accepted \<and> next_action_at \<noteq> None
                     then update_acq l2 avid (\<lambda>r. r\<lparr>aq_next_action_at := next_action_at\<rparr>) else l2)
           in (accepted, l3)))"

definition states_for :: "ledger \<Rightarrow> string list \<Rightarrow> (string \<times> acq_state) list" where
  "states_for l avids =
     (if avids = [] then []
      else map (\<lambda>r. (aq_avid r, aq_state r)) (filter (\<lambda>r. aq_avid r \<in> set avids) (acquisitions l)))"

definition task_dirs_for :: "ledger \<Rightarrow> string list \<Rightarrow> (string \<times> string) list" where
  "task_dirs_for l avids =
     (if avids = [] then []
      else map (\<lambda>r. (aq_avid r, the (aq_task_dir_path r)))
             (filter (\<lambda>r. aq_avid r \<in> set avids \<and> aq_task_dir_path r \<noteq> None) (acquisitions l)))"

definition set_release_date :: "ledger \<Rightarrow> string \<Rightarrow> date \<Rightarrow> bool \<times> ledger" where
  "set_release_date l avid release_date =
     (let p = (\<lambda>r. aq_avid r = avid \<and> aq_release_date r = None)
      in (count_where p (acquisitions l) = 1,
          l\<lparr>acquisitions := update_where p (\<lambda>r. r\<lparr>aq_release_date := Some release_date\<rparr>)
              (acquisitions l)\<rparr>))"

definition max_attempt_no :: "ledger \<Rightarrow> string \<Rightarrow> nat" where
  "max_attempt_no l avid =
     fold max (map at_no (filter (\<lambda>r. at_avid r = avid) (attempts l))) 0"

definition begin_replacement ::
  "ledger \<Rightarrow> string \<Rightarrow> string \<Rightarrow> string \<Rightarrow> string list \<Rightarrow> datetime \<Rightarrow> acquisition option \<times> ledger" where
  "begin_replacement l avid source task_dir_path paths now =
     (case get_acq l avid of
        None \<Rightarrow>
          (let l' = l\<lparr>acquisitions := acquisitions l @
             [\<lparr>aq_avid = avid, aq_state = Discovered, aq_source = source, aq_note = None,
               aq_archived_paths = [], aq_next_action_at = None, aq_created_at = now,
               aq_updated_at = now, aq_task_dir_path = Some task_dir_path,
               aq_release_date = None, aq_replace_paths_json = Some paths,
               aq_replace_after_attempt = Some 0\<rparr>]\<rparr>
           in (get_acq l' avid, l'))
      | Some row \<Rightarrow>
          (if aq_state row \<in> set REPLACEABLE_STATES then
             (let l' = update_acq l avid
                (\<lambda>r. r\<lparr>aq_state := Discovered, aq_note := None, aq_next_action_at := None,
                       aq_task_dir_path := Some task_dir_path,
                       aq_replace_paths_json := Some paths, aq_updated_at := now,
                       aq_replace_after_attempt := Some (max_attempt_no l avid)\<rparr>)
              in (get_acq l' avid, l'))
           else (None, l)))"

section \<open>Acquisition transitions and queries\<close>

text \<open>The SET clause: what a transition writes together with the state.\<close>

definition moved_row ::
  "acq_state \<Rightarrow> datetime \<Rightarrow> string option \<Rightarrow> datetime option \<Rightarrow> string list option
     \<Rightarrow> acquisition \<Rightarrow> acquisition" where
  "moved_row target now note next_action_at archived_paths r =
     r\<lparr>aq_state := target, aq_note := note, aq_next_action_at := next_action_at,
       aq_archived_paths := (case archived_paths of Some ps \<Rightarrow> ps | None \<Rightarrow> aq_archived_paths r),
       aq_updated_at := now,
       aq_replace_paths_json := (if target = Archived then None else aq_replace_paths_json r),
       aq_replace_after_attempt := (if target = Archived then None else aq_replace_after_attempt r)\<rparr>"

definition transition ::
  "ledger \<Rightarrow> string \<Rightarrow> acq_state \<Rightarrow> acq_state \<Rightarrow> datetime \<Rightarrow> string option \<Rightarrow> datetime option
     \<Rightarrow> string list option \<Rightarrow> ledger_error + bool \<times> ledger" where
  "transition l avid expected target now note next_action_at archived_paths =
     (if target \<notin> set (acq_edges expected) then Inl (IllegalTransition expected target)
      else
        (let p = (\<lambda>r. aq_avid r = avid \<and> aq_state r = expected)
         in Inr (count_where p (acquisitions l) = 1,
                 l\<lparr>acquisitions :=
                     update_where p (moved_row target now note next_action_at archived_paths)
                       (acquisitions l)\<rparr>)))"

definition timer :: "acquisition \<Rightarrow> datetime" where
  "timer r = (case aq_next_action_at r of Some t \<Rightarrow> t | None \<Rightarrow> 0)"

definition due_for_retry :: "ledger \<Rightarrow> datetime \<Rightarrow> nat \<Rightarrow> acquisition list" where
  "due_for_retry l now limit =
     take limit
       (sort_key (\<lambda>r. (timer r, aq_avid r))
          (filter (\<lambda>r. aq_state r \<in> set DUE_STATES \<and> aq_next_action_at r \<noteq> None \<and> timer r \<le> now)
             (acquisitions l)))"

definition active_avids :: "ledger \<Rightarrow> string list" where
  "active_avids l = map aq_avid (filter (\<lambda>r. aq_state r \<in> set ACTIVE_STATES) (acquisitions l))"

definition active_task_dirs :: "ledger \<Rightarrow> string list" where
  "active_task_dirs l =
     sort (remdups (map (\<lambda>r. the (aq_task_dir_path r))
        (filter (\<lambda>r. aq_state r \<in> set ACTIVE_STATES \<and> aq_task_dir_path r \<noteq> None) (acquisitions l))))"

definition latest_task_dir :: "ledger \<Rightarrow> string \<Rightarrow> string option" where
  "latest_task_dir l source =
     (case rev (sort_key (\<lambda>r. (aq_created_at r, aq_avid r))
              (filter (\<lambda>r. aq_source r = source \<and> aq_task_dir_path r \<noteq> None) (acquisitions l))) of
        [] \<Rightarrow> None
      | r # _ \<Rightarrow> aq_task_dir_path r)"

definition list_acquisitions :: "ledger \<Rightarrow> acq_state list option \<Rightarrow> nat \<Rightarrow> nat \<Rightarrow> acquisition list" where
  "list_acquisitions l states limit offset =
     take limit (drop offset
       (sort_key (\<lambda>r. (- aq_updated_at r, aq_avid r))
          (filter (\<lambda>r. case states of None \<Rightarrow> True | Some ss \<Rightarrow> aq_state r \<in> set ss)
             (acquisitions l))))"

definition count_by_state :: "ledger \<Rightarrow> acq_state \<Rightarrow> nat" where
  "count_by_state l s = count_where (\<lambda>r. aq_state r = s) (acquisitions l)"

section \<open>Attempts\<close>

text \<open>
  The loop of \<^verbatim>\<open>add_attempts\<close> over the candidates: the hashes seen so far, the next
  free number, and the rows to insert.
\<close>

definition pending_row :: "string \<Rightarrow> nat \<Rightarrow> candidate \<Rightarrow> datetime \<Rightarrow> attempt" where
  "pending_row avid no c now =
     \<lparr>at_avid = avid, at_no = no, at_magnet = cd_magnet c, at_info_hash = cd_info_hash c,
      at_magnet_source = cd_source c, at_size_hint = cd_size_hint c, at_state = APending,
      at_progress = None, at_error = None, at_submitted_at = None, at_updated_at = now\<rparr>"

fun pending_rows :: "string \<Rightarrow> datetime \<Rightarrow> string list \<Rightarrow> nat \<Rightarrow> candidate list \<Rightarrow> attempt list" where
  "pending_rows avid now seen no [] = []"
| "pending_rows avid now seen no (c # cs) =
     (case cd_info_hash c of
        None \<Rightarrow> pending_row avid no c now # pending_rows avid now seen (Suc no) cs
      | Some h \<Rightarrow>
          (if h \<in> set seen then pending_rows avid now seen no cs
           else pending_row avid no c now # pending_rows avid now (h # seen) (Suc no) cs))"

definition tried_hashes :: "ledger \<Rightarrow> string \<Rightarrow> string list" where
  "tried_hashes l avid =
     map (\<lambda>r. the (at_info_hash r))
       (filter (\<lambda>r. at_avid r = avid \<and> at_info_hash r \<noteq> None) (attempts l))"

definition add_attempts ::
  "ledger \<Rightarrow> string \<Rightarrow> candidate list \<Rightarrow> datetime \<Rightarrow> ledger_error + nat \<times> ledger" where
  "add_attempts l avid candidates now =
     (if candidates = [] then Inr (0, l)
      else
        (let rows = pending_rows avid now (tried_hashes l avid) (Suc (max_attempt_no l avid)) candidates
         in if rows = [] then Inr (0, l)
            else if get_acq l avid = None then Inl ForeignKeyViolation
            else Inr (length rows, l\<lparr>attempts := attempts l @ rows\<rparr>)))"

definition set_attempt :: "attempt list \<Rightarrow> string \<Rightarrow> nat \<Rightarrow> attempt_state \<Rightarrow> (attempt \<Rightarrow> attempt) \<Rightarrow> attempt list" where
  "set_attempt rs avid no expected f =
     update_where (\<lambda>r. at_avid r = avid \<and> at_no r = no \<and> at_state r = expected) f rs"

definition get_attempt :: "attempt list \<Rightarrow> string \<Rightarrow> nat \<Rightarrow> attempt option" where
  "get_attempt rs avid no = row_of attempt_key (avid, no) rs"

definition submit_row :: "datetime \<Rightarrow> attempt \<Rightarrow> attempt" where
  "submit_row now r = r\<lparr>at_state := ASubmitted, at_submitted_at := Some now, at_updated_at := now\<rparr>"

text \<open>
  The subselect of \<^verbatim>\<open>claim_next_pending\<close>: the lowest pending attempt of the AVID
  whose hash is live on no attempt. A row without a hash compares with nothing, so it
  always qualifies.
\<close>

definition claimable :: "attempt list \<Rightarrow> string \<Rightarrow> attempt \<Rightarrow> bool" where
  "claimable view avid r \<longleftrightarrow>
     at_avid r = avid \<and> at_state r = APending
     \<and> \<not> list_ex (\<lambda>q. at_info_hash r \<noteq> None \<and> at_info_hash q = at_info_hash r
                       \<and> is_live (at_state q)) view"

definition claim_target :: "attempt list \<Rightarrow> string \<Rightarrow> nat option" where
  "claim_target view avid =
     (case sort_key at_no (filter (claimable view avid) view) of [] \<Rightarrow> None | r # _ \<Rightarrow> Some (at_no r))"

text \<open>
  One execution of the UPDATE: the subselect reads the snapshot \<open>view\<close>, the write is checked
  against the table as it is, where another replica may have moved on.
\<close>

definition claim_statement ::
  "attempt list \<Rightarrow> attempt list \<Rightarrow> string \<Rightarrow> datetime \<Rightarrow> ledger_error + attempt option \<times> attempt list" where
  "claim_statement view rs avid now =
     (case claim_target view avid of
        None \<Rightarrow> Inr (None, rs)
      | Some no \<Rightarrow>
          (case get_attempt rs avid no of
             None \<Rightarrow> Inr (None, rs)
           | Some r \<Rightarrow>
               (if at_state r \<noteq> APending then Inr (None, rs)
                else
                  (let rs' = set_attempt rs avid no APending (submit_row now)
                   in if live_index_ok rs' then Inr (Some (submit_row now r), rs')
                      else Inl UniqueViolation))))"

text \<open>The retry loop: a unique violation runs the statement again, on the next snapshot.\<close>

fun claim_rounds ::
  "attempt list list \<Rightarrow> attempt list \<Rightarrow> string \<Rightarrow> datetime \<Rightarrow> attempt option \<times> attempt list" where
  "claim_rounds [] rs avid now = (None, rs)"
| "claim_rounds (view # views) rs avid now =
     (case claim_statement view rs avid now of
        Inl _ \<Rightarrow> claim_rounds views rs avid now
      | Inr x \<Rightarrow> x)"

definition claim_next_pending :: "ledger \<Rightarrow> string \<Rightarrow> datetime \<Rightarrow> attempt option \<times> ledger" where
  "claim_next_pending l avid now =
     (case claim_rounds (replicate CLAIM_RETRIES (attempts l)) (attempts l) avid now of
        (a, rs) \<Rightarrow> (a, l\<lparr>attempts := rs\<rparr>))"

definition claim_attempt ::
  "ledger \<Rightarrow> string \<Rightarrow> nat \<Rightarrow> datetime \<Rightarrow> ledger_error + attempt option \<times> ledger" where
  "claim_attempt l avid no now =
     (case get_attempt (attempts l) avid no of
        None \<Rightarrow> Inr (None, l)
      | Some r \<Rightarrow>
          (if at_state r \<noteq> APending then Inr (None, l)
           else
             (let rs = set_attempt (attempts l) avid no APending (submit_row now)
              in if live_index_ok rs then Inr (Some (submit_row now r), l\<lparr>attempts := rs\<rparr>)
                 else Inl (MagnetInUse avid no))))"

definition transition_attempt ::
  "ledger \<Rightarrow> string \<Rightarrow> nat \<Rightarrow> attempt_state \<Rightarrow> attempt_state \<Rightarrow> datetime \<Rightarrow> string option
     \<Rightarrow> ledger_error + bool \<times> ledger" where
  "transition_attempt l avid no expected target now err =
     (if target \<notin> set (attempt_edges expected) then Inl (IllegalAttemptTransition expected target)
      else
        (let p = (\<lambda>r. at_avid r = avid \<and> at_no r = no \<and> at_state r = expected);
             rs = set_attempt (attempts l) avid no expected
                    (\<lambda>r. r\<lparr>at_state := target, at_error := err, at_updated_at := now\<rparr>)
         in if live_index_ok rs
            then Inr (count_where p (attempts l) = 1, l\<lparr>attempts := rs\<rparr>)
            else Inl UniqueViolation))"

definition record_progress ::
  "ledger \<Rightarrow> string \<Rightarrow> nat \<Rightarrow> attempt_state \<Rightarrow> int option \<Rightarrow> datetime \<Rightarrow> ledger_error + bool \<times> ledger" where
  "record_progress l avid no s pr now =
     (if \<not> is_in_flight s then Inl (NotInFlight s)
      else
        (let p = (\<lambda>r. at_avid r = avid \<and> at_no r = no \<and> is_in_flight (at_state r)
                      \<and> (at_state r \<noteq> s \<or> at_progress r \<noteq> pr))
         in Inr (count_where p (attempts l) = 1,
                 l\<lparr>attempts := update_where p
                    (\<lambda>r. r\<lparr>at_state := s, at_progress := pr, at_updated_at := now\<rparr>) (attempts l)\<rparr>)))"

definition nonempty_hashes :: "string list \<Rightarrow> string list" where
  "nonempty_hashes hs = sort (remdups (filter (\<lambda>h. h \<noteq> []) hs))"

definition attempts_by_info_hash :: "ledger \<Rightarrow> string list \<Rightarrow> (string \<times> attempt) list" where
  "attempts_by_info_hash l hs =
     map (\<lambda>r. (the (at_info_hash r), r))
       (filter (\<lambda>r. is_live (at_state r)
                    \<and> (case at_info_hash r of Some h \<Rightarrow> h \<in> set (nonempty_hashes hs) | None \<Rightarrow> False))
          (attempts l))"

definition archived_info_hashes :: "ledger \<Rightarrow> string list \<Rightarrow> string list" where
  "archived_info_hashes l hs =
     filter (\<lambda>h. list_ex (\<lambda>r. at_info_hash r = Some h \<and> at_state r = AArchived) (attempts l)
                 \<and> \<not> list_ex (\<lambda>r. at_info_hash r = Some h \<and> is_live (at_state r)) (attempts l))
       (nonempty_hashes hs)"

definition in_flight_attempts :: "ledger \<Rightarrow> attempt list" where
  "in_flight_attempts l =
     sort_key (\<lambda>r. (at_updated_at r, at_avid r, at_no r))
       (filter (\<lambda>r. is_in_flight (at_state r)) (attempts l))"

definition attempts_for :: "ledger \<Rightarrow> string \<Rightarrow> attempt list" where
  "attempts_for l avid = sort_key at_no (filter (\<lambda>r. at_avid r = avid) (attempts l))"

end
