(* ===== verification/Acquisition_Laws.thy ===== *)
theory Acquisition_Laws
  imports Acquisitions
begin

text \<open>
  What the ledger of \<^verbatim>\<open>Acquisitions\<close> guarantees: the invariant of its tables and its
  preservation by every operation, the compare-and-set contract of both state columns, the
  functional behaviour of discovery, of the candidates' bookkeeping and of the claim, and
  the invariant over every interleaving of operations by any number of replicas.
\<close>

section \<open>The invariant\<close>

definition hash_once :: "attempt list \<Rightarrow> bool" where
  "hash_once rs \<longleftrightarrow>
     (\<forall>r\<in>set rs. \<forall>q\<in>set rs. at_avid r = at_avid q \<longrightarrow> at_info_hash r = at_info_hash q
        \<longrightarrow> at_info_hash r \<noteq> None \<longrightarrow> at_no r = at_no q)"

definition replacement_ok :: "acquisition \<Rightarrow> bool" where
  "replacement_ok r \<longleftrightarrow>
     (aq_replace_paths_json r = None \<longleftrightarrow> aq_replace_after_attempt r = None)
     \<and> (aq_state r = Archived \<longrightarrow> aq_replace_paths_json r = None)"

definition ledger_ok :: "ledger \<Rightarrow> bool" where
  "ledger_ok l \<longleftrightarrow>
     unique_key aq_avid (acquisitions l) \<and> unique_key attempt_key (attempts l)
     \<and> live_index_ok (attempts l) \<and> hash_once (attempts l)
     \<and> (\<forall>r\<in>set (attempts l). get_acq l (at_avid r) \<noteq> None \<and> 0 < at_no r)
     \<and> list_all replacement_ok (acquisitions l)"

definition empty_ledger :: ledger where
  "empty_ledger = \<lparr>acquisitions = [], attempts = []\<rparr>"

lemma ledger_ok_empty: "ledger_ok empty_ledger"
  by (simp add: ledger_ok_def empty_ledger_def unique_key_def live_index_ok_def live_hashes_def
      hash_once_def)

section \<open>Updates of the acquisitions\<close>

lemma get_acq_Some: "get_acq l k = Some r \<Longrightarrow> r \<in> set (acquisitions l) \<and> aq_avid r = k"
  unfolding get_acq_def by (rule row_of_Some)

lemma get_acq_update_acq:
  assumes "\<And>r. aq_avid (f r) = aq_avid r"
  shows "get_acq (update_acq l avid f) k
           = map_option (\<lambda>r. if k = avid then f r else r) (get_acq l k)"
proof -
  have "row_of aq_avid k (update_where (\<lambda>r. aq_avid r = avid) f (acquisitions l))
        = map_option (\<lambda>r. if aq_avid r = avid then f r else r) (row_of aq_avid k (acquisitions l))"
    by (rule row_of_update_where) (rule assms)
  then have upd: "get_acq (update_acq l avid f) k
               = map_option (\<lambda>r. if aq_avid r = avid then f r else r) (get_acq l k)"
    by (simp add: get_acq_def update_acq_def)
  show ?thesis
  proof (cases "get_acq l k")
    case None
    with upd show ?thesis by simp
  next
    case (Some r)
    then have "aq_avid r = k" using get_acq_Some by blast
    with upd Some show ?thesis by simp
  qed
qed

lemma attempts_update_acq [simp]: "attempts (update_acq l avid f) = attempts l"
  by (simp add: update_acq_def)

lemma get_acq_attempts [simp]: "get_acq (l\<lparr>attempts := rs\<rparr>) k = get_acq l k"
  by (simp add: get_acq_def)

lemma ledger_ok_acquisitions:
  assumes "ledger_ok l"
    and "\<And>r. aq_avid (f r) = aq_avid r"
    and "\<And>r. r \<in> set (acquisitions l) \<Longrightarrow> p r \<Longrightarrow> replacement_ok (f r)"
  shows "ledger_ok (l\<lparr>acquisitions := update_where p f (acquisitions l)\<rparr>)"
proof -
  have "get_acq (l\<lparr>acquisitions := update_where p f (acquisitions l)\<rparr>) k = None \<longleftrightarrow> get_acq l k = None" for k
    by (simp add: get_acq_def row_of_update_where [where key = aq_avid, OF assms(2)])
  then show ?thesis
    using assms by (auto simp: ledger_ok_def unique_key_update_where list_all_iff set_update_where)
qed

lemma ledger_ok_update_acq:
  "ledger_ok l \<Longrightarrow> (\<And>r. aq_avid (f r) = aq_avid r)
     \<Longrightarrow> (\<And>r. replacement_ok r \<Longrightarrow> replacement_ok (f r)) \<Longrightarrow> ledger_ok (update_acq l avid f)"
  unfolding update_acq_def
  by (rule ledger_ok_acquisitions) (auto simp: ledger_ok_def list_all_iff)

lemma ledger_ok_insert:
  assumes "ledger_ok l" and "get_acq l (aq_avid r) = None" and "replacement_ok r"
  shows "ledger_ok (l\<lparr>acquisitions := acquisitions l @ [r]\<rparr>)"
proof -
  have "get_acq (l\<lparr>acquisitions := acquisitions l @ [r]\<rparr>) k
          = (case get_acq l k of Some q \<Rightarrow> Some q | None \<Rightarrow> if aq_avid r = k then Some r else None)" for k
    by (cases "row_of aq_avid k (acquisitions l)") (simp_all add: get_acq_def row_of_append row_of_Cons)
  then show ?thesis
    using assms by (fastforce simp: ledger_ok_def get_acq_def split: option.splits)
qed

lemma ledger_ok_discover [inv_intros]:
  assumes "ledger_ok l"
  shows "ledger_ok (snd (discover l avid source now dir next rd wake yields))"
proof (cases "get_acq l avid")
  case None
  then show ?thesis
    using assms by (auto simp: discover_def replacement_ok_def intro!: ledger_ok_insert)
next
  case (Some e)
  have step: "ledger_ok m \<Longrightarrow> ledger_ok (if c then update_acq m avid f else m)"
    if "\<And>r. aq_avid (f r) = aq_avid r" "\<And>r. replacement_ok r \<Longrightarrow> replacement_ok (f r)" for m c f
    using that by (auto intro: ledger_ok_update_acq)
  show ?thesis
    unfolding discover_def Some Let_def option.case snd_conv
    by (intro step assms) (auto simp: replacement_ok_def)
qed

lemma ledger_ok_set_release_date [inv_intros]:
  "ledger_ok l \<Longrightarrow> ledger_ok (snd (set_release_date l avid d))"
  by (simp add: set_release_date_def Let_def)
     (rule ledger_ok_acquisitions, auto simp: ledger_ok_def list_all_iff replacement_ok_def)

lemma ledger_ok_begin_replacement [inv_intros]:
  assumes "ledger_ok l"
  shows "ledger_ok (snd (begin_replacement l avid source dir paths now))"
proof (cases "get_acq l avid")
  case None
  then show ?thesis
    using assms by (auto simp: begin_replacement_def Let_def replacement_ok_def intro!: ledger_ok_insert)
next
  case (Some r)
  then show ?thesis
    using assms
    by (auto simp: begin_replacement_def Let_def replacement_ok_def intro!: ledger_ok_update_acq)
qed

lemma moved_row_simps [simp]:
  "aq_avid (moved_row t now note nxt paths r) = aq_avid r"
  "aq_state (moved_row t now note nxt paths r) = t"
  "aq_note (moved_row t now note nxt paths r) = note"
  "aq_next_action_at (moved_row t now note nxt paths r) = nxt"
  "aq_updated_at (moved_row t now note nxt paths r) = now"
  "aq_source (moved_row t now note nxt paths r) = aq_source r"
  "aq_task_dir_path (moved_row t now note nxt paths r) = aq_task_dir_path r"
  "aq_release_date (moved_row t now note nxt paths r) = aq_release_date r"
  by (simp_all add: moved_row_def)

lemma replacement_ok_moved_row [simp]:
  "replacement_ok r \<Longrightarrow> replacement_ok (moved_row t now note nxt paths r)"
  by (auto simp: replacement_ok_def moved_row_def)

lemma transition_legal:
  "t \<in> set (acq_edges e) \<Longrightarrow> transition l avid e t now note nxt paths =
     (let p = (\<lambda>r. aq_avid r = avid \<and> aq_state r = e)
      in Inr (count_where p (acquisitions l) = 1,
              l\<lparr>acquisitions := update_where p (moved_row t now note nxt paths) (acquisitions l)\<rparr>))"
  by (simp add: transition_def)

lemma transition_InrD:
  "transition l avid e t now note nxt paths = Inr (b, l') \<Longrightarrow>
     t \<in> set (acq_edges e)
     \<and> b = (count_where (\<lambda>r. aq_avid r = avid \<and> aq_state r = e) (acquisitions l) = 1)
     \<and> l' = l\<lparr>acquisitions := update_where (\<lambda>r. aq_avid r = avid \<and> aq_state r = e)
                 (moved_row t now note nxt paths) (acquisitions l)\<rparr>"
  by (auto simp: transition_def Let_def split: if_splits)

lemma ledger_ok_transition [inv_intros]:
  assumes "ledger_ok l" and "transition l avid e t now note nxt paths = Inr (b, l')"
  shows "ledger_ok l'"
proof -
  have "list_all replacement_ok (acquisitions l)" using assms(1) by (simp add: ledger_ok_def)
  then have "ledger_ok (l\<lparr>acquisitions := update_where (\<lambda>r. aq_avid r = avid \<and> aq_state r = e)
                 (moved_row t now note nxt paths) (acquisitions l)\<rparr>)"
    by (intro ledger_ok_acquisitions assms(1)) (auto simp: list_all_iff)
  then show ?thesis using transition_InrD [OF assms(2)] by simp
qed

section \<open>Updates of the attempts\<close>

lemma unique_attempts: "ledger_ok l \<Longrightarrow> unique_key attempt_key (attempts l)"
  by (simp add: ledger_ok_def)

lemma unique_acqs: "ledger_ok l \<Longrightarrow> unique_key aq_avid (acquisitions l)"
  by (simp add: ledger_ok_def)

lemma ledger_ok_attempts_update:
  assumes "ledger_ok l"
    and "\<And>r. attempt_key (f r) = attempt_key r" and "\<And>r. at_info_hash (f r) = at_info_hash r"
    and "live_index_ok (update_where p f (attempts l))"
  shows "ledger_ok (l\<lparr>attempts := update_where p f (attempts l)\<rparr>)"
proof -
  have "hash_once (update_where p f (attempts l))"
    unfolding hash_once_def
  proof (intro ballI impI)
    fix r q
    assume r: "r \<in> set (update_where p f (attempts l))" and q: "q \<in> set (update_where p f (attempts l))"
      and eq: "at_avid r = at_avid q" "at_info_hash r = at_info_hash q" "at_info_hash r \<noteq> None"
    have orig: "\<exists>y\<in>set (attempts l). at_avid y = at_avid x \<and> at_no y = at_no x
        \<and> at_info_hash y = at_info_hash x" if "x \<in> set (update_where p f (attempts l))" for x
      using that assms(2,3) by (auto simp: set_update_where)
    obtain r0 where r0: "r0 \<in> set (attempts l)" "at_avid r0 = at_avid r" "at_no r0 = at_no r"
      "at_info_hash r0 = at_info_hash r" using orig [OF r] by blast
    obtain q0 where q0: "q0 \<in> set (attempts l)" "at_avid q0 = at_avid q" "at_no q0 = at_no q"
      "at_info_hash q0 = at_info_hash q" using orig [OF q] by blast
    have "hash_once (attempts l)" using assms(1) by (simp add: ledger_ok_def)
    then have "at_no r0 = at_no q0"
      using r0(1,2,4) q0(1,2,4) eq unfolding hash_once_def by metis
    then show "at_no r = at_no q" using r0 q0 by simp
  qed
  then show ?thesis
    using assms unique_key_update_where [where key = attempt_key and f = f and p = p and rs = "attempts l"]
    by (fastforce simp: ledger_ok_def set_update_where)
qed

lemma live_hashes_update_same:
  assumes "\<And>r. r \<in> set rs \<Longrightarrow> p r \<Longrightarrow> is_live (at_state (f r)) = is_live (at_state r)
              \<and> at_info_hash (f r) = at_info_hash r"
  shows "live_hashes (update_where p f rs) = live_hashes rs"
  using assms by (induction rs) (auto simp: live_hashes_def update_where_def)

lemma live_index_ok_Cons:
  "live_index_ok (r # rs) \<longleftrightarrow>
     (is_live (at_state r) \<and> at_info_hash r \<noteq> None \<longrightarrow> the (at_info_hash r) \<notin> set (live_hashes rs))
     \<and> live_index_ok rs"
  by (auto simp: live_index_ok_def live_hashes_def)

lemma set_live_hashes:
  "h \<in> set (live_hashes rs) \<longleftrightarrow> (\<exists>r\<in>set rs. is_live (at_state r) \<and> at_info_hash r = Some h)"
  by (force simp: live_hashes_def)

lemma live_hashes_update_less:
  assumes "\<And>r. p r \<Longrightarrow> at_info_hash (f r) = at_info_hash r"
    and "\<And>r. r \<in> set rs \<Longrightarrow> p r \<Longrightarrow> is_live (at_state (f r)) \<Longrightarrow> is_live (at_state r)"
  shows "set (live_hashes (update_where p f rs)) \<subseteq> set (live_hashes rs)"
  using assms by (auto simp: set_live_hashes set_update_where) blast+

lemma live_index_ok_update_less:
  assumes "live_index_ok rs"
    and "\<And>r. p r \<Longrightarrow> at_info_hash (f r) = at_info_hash r"
    and "\<And>r. r \<in> set rs \<Longrightarrow> p r \<Longrightarrow> is_live (at_state (f r)) \<Longrightarrow> is_live (at_state r)"
  shows "live_index_ok (update_where p f rs)"
  using assms
proof (induction rs)
  case Nil
  then show ?case by (simp add: update_where_def)
next
  case (Cons r rs)
  have cons: "update_where p f (r # rs) = (if p r then f r else r) # update_where p f rs"
    by (simp add: update_where_def)
  from Cons have IH: "live_index_ok (update_where p f rs)"
    by (auto simp: live_index_ok_Cons)
  have "set (live_hashes (update_where p f rs)) \<subseteq> set (live_hashes rs)"
    using Cons.prems(2,3) by (intro live_hashes_update_less) auto
  with IH Cons.prems show ?case
    by (auto simp: cons live_index_ok_Cons)
qed

lemma live_index_unique:
  assumes "live_index_ok rs" and "unique_key attempt_key rs" and "r \<in> set rs" and "q \<in> set rs"
    and "is_live (at_state r)" and "is_live (at_state q)"
    and "at_info_hash r = Some h" and "at_info_hash q = Some h"
  shows "r = q"
  using assms
proof (induction rs)
  case Nil
  then show ?case by simp
next
  case (Cons a rs)
  have nin: "is_live (at_state a) \<Longrightarrow> at_info_hash a = Some h \<Longrightarrow> h \<notin> set (live_hashes rs)"
    using Cons.prems(1) by (auto simp: live_index_ok_Cons)
  show ?case
    using Cons nin by (auto simp: live_index_ok_Cons unique_key_def set_live_hashes)
qed

lemma attempt_edge_live:
  "t \<in> set (attempt_edges e) \<Longrightarrow> is_live t \<Longrightarrow> is_live e \<or> (e = APending \<and> t = ASubmitted)"
  by (cases e) auto

lemma ledger_ok_transition_attempt [inv_intros]:
  assumes "ledger_ok l" and "transition_attempt l avid no e t now err = Inr (b, l')"
  shows "ledger_ok l'"
  using assms
  by (auto simp: transition_attempt_def Let_def set_attempt_def split: if_splits
      intro!: ledger_ok_attempts_update)

lemma ledger_ok_record_progress [inv_intros]:
  assumes "ledger_ok l" and "record_progress l avid no s pr now = Inr (b, l')"
  shows "ledger_ok l'"
proof -
  let ?p = "\<lambda>r. at_avid r = avid \<and> at_no r = no \<and> is_in_flight (at_state r)
                 \<and> (at_state r \<noteq> s \<or> at_progress r \<noteq> pr)"
  let ?f = "\<lambda>r. r\<lparr>at_state := s, at_progress := pr, at_updated_at := now\<rparr>"
  from assms(2) have fl: "is_in_flight s" and l': "l' = l\<lparr>attempts := update_where ?p ?f (attempts l)\<rparr>"
    by (auto simp: record_progress_def Let_def split: if_splits)
  have "live_index_ok (update_where ?p ?f (attempts l))"
    by (rule live_index_ok_update_less)
       (use assms(1) fl in \<open>auto simp: ledger_ok_def is_in_flight_iff\<close>)
  then show ?thesis
    unfolding l' by (intro ledger_ok_attempts_update assms(1)) auto
qed

lemma claim_statement_result:
  assumes "claim_statement view rs avid now = Inr (a, rs')"
  shows "(a = None \<and> rs' = rs)
    \<or> (\<exists>no r. get_attempt rs avid no = Some r \<and> at_state r = APending
         \<and> claim_target view avid = Some no \<and> a = Some (submit_row now r)
         \<and> rs' = set_attempt rs avid no APending (submit_row now) \<and> live_index_ok rs')"
proof (cases "claim_target view avid")
  case None
  with assms show ?thesis by (simp add: claim_statement_def)
next
  case (Some no)
  show ?thesis
  proof (cases "get_attempt rs avid no")
    case None
    with assms Some show ?thesis by (simp add: claim_statement_def)
  next
    case (Some r)
    with assms \<open>claim_target view avid = Some no\<close> show ?thesis
      by (simp add: claim_statement_def Let_def split: if_splits)
  qed
qed

lemma ledger_self [simp]: "l\<lparr>attempts := attempts l\<rparr> = l"
  by simp

lemma ledger_ok_claim_statement:
  assumes "ledger_ok l" and "claim_statement view (attempts l) avid now = Inr (a, rs)"
  shows "ledger_ok (l\<lparr>attempts := rs\<rparr>)"
proof -
  from claim_statement_result [OF assms(2)] show ?thesis
  proof (elim disjE exE conjE)
    assume "rs = attempts l"
    then show ?thesis using assms(1) by (simp only: ledger_self)
  next
    fix no r
    assume rs: "rs = set_attempt (attempts l) avid no APending (submit_row now)" "live_index_ok rs"
    then show ?thesis
      unfolding set_attempt_def
      by (auto intro!: ledger_ok_attempts_update [OF assms(1)] simp: submit_row_def)
  qed
qed

lemma ledger_ok_claim_rounds:
  "ledger_ok l \<Longrightarrow> claim_rounds views (attempts l) avid now = (a, rs) \<Longrightarrow> ledger_ok (l\<lparr>attempts := rs\<rparr>)"
proof (induction views)
  case Nil
  then have "rs = attempts l" by simp
  then show ?case using Nil(1) by (simp only: ledger_self)
next
  case (Cons v vs)
  then show ?case
    by (auto split: sum.splits dest: ledger_ok_claim_statement)
qed

lemma ledger_ok_claim_next_pending [inv_intros]:
  "ledger_ok l \<Longrightarrow> ledger_ok (snd (claim_next_pending l avid now))"
  by (auto simp: claim_next_pending_def split: prod.splits intro: ledger_ok_claim_rounds)

lemma ledger_ok_claim_attempt [inv_intros]:
  assumes "ledger_ok l" and "claim_attempt l avid no now = Inr (a, l')"
  shows "ledger_ok l'"
  using assms
  by (auto simp: claim_attempt_def Let_def set_attempt_def submit_row_def
      split: option.splits if_splits intro!: ledger_ok_attempts_update)

section \<open>The compare-and-set contract\<close>

definition acq_state_at :: "ledger \<Rightarrow> string \<Rightarrow> acq_state option" where
  "acq_state_at l avid = map_option aq_state (get_acq l avid)"

definition attempt_state_at :: "ledger \<Rightarrow> string \<times> nat \<Rightarrow> attempt_state option" where
  "attempt_state_at l k = map_option at_state (get_attempt (attempts l) (fst k) (snd k))"

text \<open>The answer of a transition with an illegal edge, or a violated index, is an exception.\<close>

definition outcome_of :: "'s \<Rightarrow> 'e + bool \<times> 's \<Rightarrow> bool \<times> 's" where
  "outcome_of s x = (case x of Inl _ \<Rightarrow> (False, s) | Inr y \<Rightarrow> y)"

definition acq_edge :: "acq_state \<Rightarrow> acq_state \<Rightarrow> bool" where
  "acq_edge s t \<longleftrightarrow> t \<in> set (acq_edges s)"

definition attempt_edge :: "attempt_state \<Rightarrow> attempt_state \<Rightarrow> bool" where
  "attempt_edge s t \<longleftrightarrow> t \<in> set (attempt_edges s) \<and> s \<noteq> APending"

lemma transition_Inr:
  "acq_edge e t \<Longrightarrow> \<exists>b l'. transition l avid e t now note nxt paths = Inr (b, l')"
  by (simp add: transition_legal acq_edge_def Let_def)

lemma transition_illegal:
  "\<not> acq_edge e t \<Longrightarrow> transition l avid e t now note nxt paths = Inl (IllegalTransition e t)"
  by (simp add: transition_def acq_edge_def)

lemma get_acq_transition:
  assumes "transition l avid e t now note nxt paths = Inr (b, l')"
  shows "get_acq l' k =
    map_option (\<lambda>r. if k = avid \<and> aq_state r = e then moved_row t now note nxt paths r else r)
      (get_acq l k)"
proof -
  let ?p = "\<lambda>r. aq_avid r = avid \<and> aq_state r = e"
  have "get_acq l' k = map_option (\<lambda>r. if ?p r then moved_row t now note nxt paths r else r) (get_acq l k)"
    using transition_InrD [OF assms] row_of_update_where [of aq_avid "moved_row t now note nxt paths"]
    by (simp add: get_acq_def)
  then show ?thesis
    using get_acq_Some [of l k] by (cases "get_acq l k") auto
qed

lemma transition_true_iff:
  assumes "unique_key aq_avid (acquisitions l)"
    and "transition l avid e t now note nxt paths = Inr (b, l')"
  shows "b \<longleftrightarrow> acq_state_at l avid = Some e"
  using transition_InrD [OF assms(2)] count_where_key_cases [OF assms(1), of avid "\<lambda>r. aq_state r = e"]
  by (auto simp: acq_state_at_def get_acq_def)

lemma transition_false_same:
  assumes "unique_key aq_avid (acquisitions l)"
    and "transition l avid e t now note nxt paths = Inr (False, l')"
  shows "l' = l"
proof -
  let ?p = "\<lambda>r. aq_avid r = avid \<and> aq_state r = e"
  have "count_where ?p (acquisitions l) \<noteq> 1"
    using transition_InrD [OF assms(2)] by simp
  then have "count_where ?p (acquisitions l) = 0"
    using count_where_key [OF assms(1), of avid "\<lambda>r. aq_state r = e"] by (auto split: option.splits if_splits)
  then show ?thesis
    using transition_InrD [OF assms(2)] by (simp add: update_where_none)
qed

text \<open>The acquisition transition, whatever it writes beside the state, is a compare-and-set.\<close>

interpretation acq_cas: cas_store
  acq_state_at acq_edge
  "\<lambda>l avid e t. outcome_of l (transition l avid e t now nt nxt paths)" ledger_ok
  for now nt nxt paths
proof
  fix l avid e t k'
  assume ok: "ledger_ok l"
  let ?x = "transition l avid e t now nt nxt paths"
  let ?o = "outcome_of l ?x"
  have uniq: "unique_key aq_avid (acquisitions l)" using ok by (rule unique_acqs)
  show iff: "fst ?o \<longleftrightarrow> acq_edge e t \<and> acq_state_at l avid = Some e"
  proof (cases "acq_edge e t")
    case True
    then obtain b l' where x: "?x = Inr (b, l')" using transition_Inr by blast
    with True transition_true_iff [OF uniq x] show ?thesis by (simp add: outcome_of_def)
  next
    case False
    then show ?thesis by (simp add: transition_illegal outcome_of_def)
  qed
  have Inr: "?x = Inr (fst ?o, snd ?o)" if "acq_edge e t"
    using transition_Inr [OF that, of l avid now nt nxt paths] by (auto simp: outcome_of_def)
  show "acq_state_at (snd ?o) avid = Some t" if "fst ?o"
    using that iff get_acq_transition [OF Inr] by (auto simp: acq_state_at_def)
  show "snd ?o = l" if "\<not> fst ?o"
  proof (cases "acq_edge e t")
    case True
    then have "?x = Inr (False, snd ?o)" using Inr that by simp
    then show ?thesis by (rule transition_false_same [OF uniq])
  next
    case False
    then show ?thesis by (simp add: transition_illegal outcome_of_def)
  qed
  show "acq_state_at (snd ?o) k' = acq_state_at l k'" if "k' \<noteq> avid"
  proof (cases "acq_edge e t")
    case True
    then show ?thesis
      using that get_acq_transition [OF Inr [OF True], of k']
      by (cases "get_acq l k'") (simp_all add: acq_state_at_def)
  next
    case False
    then show ?thesis by (simp add: transition_illegal outcome_of_def)
  qed
  show "ledger_ok (snd ?o)"
    using ledger_ok_transition [OF ok Inr] ok
    by (cases "acq_edge e t") (simp_all add: transition_illegal outcome_of_def)
qed

lemma get_attempt_update:
  assumes "\<And>r. attempt_key (f r) = attempt_key r"
  shows "get_attempt (set_attempt rs avid no e f) a n =
    map_option (\<lambda>r. if a = avid \<and> n = no \<and> at_state r = e then f r else r) (get_attempt rs a n)"
proof -
  have upd: "get_attempt (set_attempt rs avid no e f) a n =
      map_option (\<lambda>r. if at_avid r = avid \<and> at_no r = no \<and> at_state r = e then f r else r)
        (get_attempt rs a n)"
    unfolding get_attempt_def set_attempt_def by (rule row_of_update_where) (rule assms)
  show ?thesis
  proof (cases "get_attempt rs a n")
    case None
    with upd show ?thesis by simp
  next
    case (Some r)
    then have "at_avid r = a" "at_no r = n" unfolding get_attempt_def by (auto dest: row_of_Some)
    with upd Some show ?thesis by simp
  qed
qed

lemma attempt_count:
  assumes "unique_key attempt_key rs"
  shows "count_where (\<lambda>r. at_avid r = avid \<and> at_no r = no \<and> q r) rs
    = (case get_attempt rs avid no of Some r \<Rightarrow> if q r then 1 else 0 | None \<Rightarrow> 0)"
proof -
  have "(\<lambda>r. at_avid r = avid \<and> at_no r = no \<and> q r) = (\<lambda>r. attempt_key r = (avid, no) \<and> q r)"
    by auto
  then show ?thesis using count_where_key [OF assms, of "(avid, no)" q] by (simp add: get_attempt_def)
qed

text \<open>Only the first submission of an attempt can meet the unique index.\<close>

lemma transition_attempt_Inr:
  assumes "ledger_ok l" and "attempt_edge e t"
  shows "transition_attempt l avid no e t now err =
    Inr (attempt_state_at l (avid, no) = Some e,
         l\<lparr>attempts := set_attempt (attempts l) avid no e
             (\<lambda>r. r\<lparr>at_state := t, at_error := err, at_updated_at := now\<rparr>)\<rparr>)"
proof -
  let ?f = "\<lambda>r. r\<lparr>at_state := t, at_error := err, at_updated_at := now\<rparr>"
  let ?rs = "set_attempt (attempts l) avid no e ?f"
  have mem: "t \<in> set (attempt_edges e)" using assms(2) by (simp add: attempt_edge_def)
  have "live_index_ok ?rs"
    unfolding set_attempt_def
    by (rule live_index_ok_update_less)
       (use assms attempt_edge_live [OF mem] in \<open>auto simp: ledger_ok_def attempt_edge_def\<close>)
  moreover have "(count_where (\<lambda>r. at_avid r = avid \<and> at_no r = no \<and> at_state r = e) (attempts l) = 1)
      = (attempt_state_at l (avid, no) = Some e)"
    using attempt_count [OF unique_attempts [OF assms(1)], of avid no "\<lambda>r. at_state r = e"]
    by (auto simp: attempt_state_at_def split: option.splits)
  ultimately show ?thesis
    using mem by (simp add: transition_attempt_def Let_def)
qed

lemma set_attempt_same:
  assumes "unique_key attempt_key (attempts l)" and "attempt_state_at l (avid, no) \<noteq> Some e"
  shows "set_attempt (attempts l) avid no e f = attempts l"
proof -
  have "count_where (\<lambda>r. at_avid r = avid \<and> at_no r = no \<and> at_state r = e) (attempts l) = 0"
    using assms(2) attempt_count [OF assms(1), of avid no "\<lambda>r. at_state r = e"]
    by (auto simp: attempt_state_at_def split: option.splits)
  then show ?thesis by (simp add: set_attempt_def update_where_none)
qed

definition attempt_transition_outcome ::
  "ledger \<Rightarrow> string \<times> nat \<Rightarrow> attempt_state \<Rightarrow> attempt_state \<Rightarrow> datetime \<Rightarrow> string option \<Rightarrow> bool \<times> ledger" where
  "attempt_transition_outcome l k e t now err =
     (if e = APending then (False, l)
      else outcome_of l (transition_attempt l (fst k) (snd k) e t now err))"

interpretation attempt_cas: cas_store
  attempt_state_at attempt_edge
  "\<lambda>l k e t. attempt_transition_outcome l k e t now err" ledger_ok
  for now err
proof
  fix l and k :: "string \<times> nat" and e t k'
  assume ok: "ledger_ok l"
  let ?f = "\<lambda>r. r\<lparr>at_state := t, at_error := err, at_updated_at := now\<rparr>"
  let ?o = "attempt_transition_outcome l k e t now err"
  have yes: "?o = (attempt_state_at l k = Some e,
      l\<lparr>attempts := set_attempt (attempts l) (fst k) (snd k) e ?f\<rparr>)" if "attempt_edge e t"
    using transition_attempt_Inr [OF ok that, of "fst k" "snd k"] that
    by (simp add: attempt_transition_outcome_def outcome_of_def attempt_edge_def)
  have no: "?o = (False, l)" if "\<not> attempt_edge e t"
    using that by (auto simp: attempt_transition_outcome_def transition_attempt_def attempt_edge_def outcome_of_def)
  have after: "attempt_state_at (l\<lparr>attempts := set_attempt (attempts l) (fst k) (snd k) e ?f\<rparr>) k''
      = (if k'' = k \<and> attempt_state_at l k = Some e then Some t else attempt_state_at l k'')" for k''
    by (cases k; cases k''; cases "get_attempt (attempts l) (fst k'') (snd k'')")
       (auto simp: attempt_state_at_def get_attempt_update)
  show "fst ?o \<longleftrightarrow> attempt_edge e t \<and> attempt_state_at l k = Some e"
    using yes no by (cases "attempt_edge e t") simp_all
  show "attempt_state_at (snd ?o) k = Some t" if "fst ?o"
    using that yes no after [of k] by (cases "attempt_edge e t") simp_all
  show "snd ?o = l" if "\<not> fst ?o"
    using that yes no set_attempt_same [OF unique_attempts [OF ok], of "fst k" "snd k" e ?f]
    by (cases "attempt_edge e t") simp_all
  show "attempt_state_at (snd ?o) k' = attempt_state_at l k'" if "k' \<noteq> k"
    using that yes no after [of k'] by (cases "attempt_edge e t") simp_all
  show "ledger_ok (snd ?o)"
    using ledger_ok_transition_attempt [OF ok, of "fst k" "snd k" e t now err]
      transition_attempt_Inr [OF ok, of e t "fst k" "snd k" now err] yes no ok
    by (cases "attempt_edge e t") auto
qed

text \<open>A small ledger: one title with an attempt of each of two states.\<close>

definition demo_row :: "acq_state \<Rightarrow> acquisition" where
  "demo_row s = \<lparr>aq_avid = ''ABC-123'', aq_state = s, aq_source = ''manual'', aq_note = None,
     aq_archived_paths = [], aq_next_action_at = None, aq_created_at = 0, aq_updated_at = 0,
     aq_task_dir_path = Some ''/in'', aq_release_date = None, aq_replace_paths_json = None,
     aq_replace_after_attempt = None\<rparr>"

definition demo_attempt :: "nat \<Rightarrow> attempt_state \<Rightarrow> attempt" where
  "demo_attempt n s = \<lparr>at_avid = ''ABC-123'', at_no = n, at_magnet = ''magnet:'',
     at_info_hash = (if n = 1 then Some ''A'' else Some ''B''), at_magnet_source = ''sukebei'',
     at_size_hint = None, at_state = s, at_progress = None, at_error = None, at_submitted_at = None,
     at_updated_at = 0\<rparr>"

definition demo_ledger :: "acq_state \<Rightarrow> attempt_state \<Rightarrow> attempt_state \<Rightarrow> ledger" where
  "demo_ledger s t u = \<lparr>acquisitions = [demo_row s], attempts = [demo_attempt 1 t, demo_attempt 2 u]\<rparr>"

lemmas demo_defs = demo_row_def demo_attempt_def demo_ledger_def

lemma ledger_ok_demo: "ledger_ok (demo_ledger s t u)"
  by (simp add: demo_defs ledger_ok_def unique_key_def live_index_ok_def live_hashes_def hash_once_def
      get_acq_def row_of_Cons replacement_ok_def)

lemma get_acq_demo [simp]: "get_acq (demo_ledger s t u) ''ABC-123'' = Some (demo_row s)"
  by (simp add: demo_defs get_acq_def row_of_Cons)

lemma get_attempt_demo [simp]:
  "get_attempt (attempts (demo_ledger s t u)) ''ABC-123'' (Suc 0) = Some (demo_attempt 1 t)"
  "get_attempt (attempts (demo_ledger s t u)) ''ABC-123'' 2 = Some (demo_attempt 2 u)"
  by (simp_all add: demo_defs get_attempt_def row_of_Cons)

lemma demo_fields [simp]:
  "aq_avid (demo_row s) = ''ABC-123''" "aq_state (demo_row s) = s"
  "at_avid (demo_attempt n t) = ''ABC-123''" "at_no (demo_attempt n t) = n"
  "at_state (demo_attempt n t) = t"
  by (simp_all add: demo_defs)

text \<open>
  C17: However many replicas ask at once to move one acquisition out of the same state, to
  whatever other states, at most one of them is told it succeeded.
\<close>

theorem acquisition_race_one_winner:
  assumes "ledger_ok l" and "e \<notin> set ts"
  shows "length (filter id (acq_cas.race now note nxt paths l avid e ts)) \<le> 1"
  using assms by (rule acq_cas.race_one_winner)

theorem acquisition_race_one_winner_witness:
  "length (filter id (acq_cas.race 7 None None None (demo_ledger Discovered APending APending)
     ''ABC-123'' Discovered [Downloading, Archived, Ignored])) \<le> 1"
  using acquisition_race_one_winner
    [of "demo_ledger Discovered APending APending" Discovered "[Downloading, Archived, Ignored]"
        7 None None None "''ABC-123''"]
  by (simp add: ledger_ok_demo)

text \<open>
  The claim of a finished download is won exactly once: of two replicas that both move
  the attempt from finished to archiving, the first succeeds and the second is refused.
\<close>

lemma archive_claim_won_once:
  assumes "ledger_ok l" and "attempt_state_at l (avid, no) = Some AFinished"
  shows "\<exists>l'. transition_attempt l avid no AFinished AArchiving now err = Inr (True, l')
          \<and> (\<exists>l''. transition_attempt l' avid no AFinished AArchiving now' err' = Inr (False, l''))"
proof -
  let ?f = "\<lambda>r. r\<lparr>at_state := AArchiving, at_error := err, at_updated_at := now\<rparr>"
  let ?l' = "l\<lparr>attempts := set_attempt (attempts l) avid no AFinished ?f\<rparr>"
  have edge: "attempt_edge AFinished AArchiving" by (simp add: attempt_edge_def)
  have one: "transition_attempt l avid no AFinished AArchiving now err = Inr (True, ?l')"
    using transition_attempt_Inr [OF assms(1) edge] assms(2) by simp
  then have ok': "ledger_ok ?l'" by (rule ledger_ok_transition_attempt [OF assms(1)])
  have "attempt_state_at ?l' (avid, no) \<noteq> Some AFinished"
    by (cases "get_attempt (attempts l) avid no") (auto simp: attempt_state_at_def get_attempt_update)
  then have "transition_attempt ?l' avid no AFinished AArchiving now' err' = Inr (False, ?l'\<lparr>attempts :=
      set_attempt (attempts ?l') avid no AFinished
        (\<lambda>r. r\<lparr>at_state := AArchiving, at_error := err', at_updated_at := now'\<rparr>)\<rparr>)"
    using transition_attempt_Inr [OF ok' edge, of avid no now' err'] by simp
  with one show ?thesis by (intro exI conjI)
qed

end
