(* ===== verification/Ledger_System.thy ===== *)
theory Ledger_System
  imports Acquisition_Laws
begin

text \<open>
  The behaviour of the ledger's operations beyond one transition: discovery, the
  candidates' bookkeeping, the claim of the next magnet under stale snapshots, the action
  timer, and the system of any number of replicas calling the repository in any order.
\<close>

section \<open>Discovery\<close>

lemma discover_new:
  "get_acq l avid = None \<Longrightarrow> fst (discover l avid source now dir nxt rd wake yields)
   \<and> get_acq (snd (discover l avid source now dir nxt rd wake yields)) avid
      = Some \<lparr>aq_avid = avid, aq_state = Discovered, aq_source = source, aq_note = None,
              aq_archived_paths = [], aq_next_action_at = nxt, aq_created_at = now,
              aq_updated_at = now, aq_task_dir_path = dir, aq_release_date = rd,
              aq_replace_paths_json = None, aq_replace_after_attempt = None\<rparr>"
  by (simp add: discover_def get_acq_def row_of_append row_of_Cons)

lemma discover_attempts [simp]:
  "attempts (snd (discover l avid source now dir nxt rd wake yields)) = attempts l"
  by (simp add: discover_def Let_def split: option.splits)

text \<open>What a re-discovery leaves in the row it accepted.\<close>

definition sighted_row ::
  "acquisition \<Rightarrow> string \<Rightarrow> string option \<Rightarrow> datetime option \<Rightarrow> date option \<Rightarrow> string list \<Rightarrow> acquisition" where
  "sighted_row e source dir nxt rd yields =
     (let r1 = (if rd \<noteq> None \<and> aq_release_date e = None then e\<lparr>aq_release_date := rd\<rparr> else e);
          moves = (dir \<noteq> None \<and> aq_task_dir_path e \<noteq> dir
                   \<and> \<not> (aq_source e \<noteq> source \<and> aq_source e \<in> set yields));
          r2 = (if moves then r1\<lparr>aq_task_dir_path := dir, aq_source := source\<rparr> else r1)
      in if nxt \<noteq> None then r2\<lparr>aq_next_action_at := nxt\<rparr> else r2)"

lemma discover_known:
  assumes "get_acq l avid = Some e"
  shows "fst (discover l avid source now dir nxt rd wake yields) = sighting_accepted e now wake"
    and "get_acq (snd (discover l avid source now dir nxt rd wake yields)) k
      = (if k = avid \<and> sighting_accepted e now wake
         then Some (sighted_row e source dir nxt rd yields) else get_acq l k)"
proof -
  show "fst (discover l avid source now dir nxt rd wake yields) = sighting_accepted e now wake"
    using assms by (simp add: discover_def Let_def)
  show "get_acq (snd (discover l avid source now dir nxt rd wake yields)) k
      = (if k = avid \<and> sighting_accepted e now wake
         then Some (sighted_row e source dir nxt rd yields) else get_acq l k)"
    using assms
    by (cases "get_acq l k")
       (auto simp: discover_def Let_def sighted_row_def get_acq_update_acq if_distrib cong: if_cong)
qed

lemma sighted_row_state [simp]: "aq_state (sighted_row e source dir nxt rd yields) = aq_state e"
  by (simp add: sighted_row_def Let_def)

text \<open>
  A sighting is told whether the title still needs magnets, and nothing else moves: the
  answer is yes for a title not yet tracked, still only discovered, or cooled down (or woken
  by a magnet of its own); when the answer is no the ledger is unchanged; and a sighting
  never changes the state of a row, never another row, and never an attempt.
\<close>

lemma discover_behaviour:
  "fst (discover l avid source now dir nxt rd wake yields)
     = (case get_acq l avid of None \<Rightarrow> True | Some e \<Rightarrow> sighting_accepted e now wake)
   \<and> (\<not> fst (discover l avid source now dir nxt rd wake yields)
        \<longrightarrow> (\<forall>k. get_acq (snd (discover l avid source now dir nxt rd wake yields)) k = get_acq l k))
   \<and> (\<forall>k. k \<noteq> avid
        \<longrightarrow> get_acq (snd (discover l avid source now dir nxt rd wake yields)) k = get_acq l k)
   \<and> acq_state_at (snd (discover l avid source now dir nxt rd wake yields)) avid
        = (case acq_state_at l avid of None \<Rightarrow> Some Discovered | Some s \<Rightarrow> Some s)
   \<and> attempts (snd (discover l avid source now dir nxt rd wake yields)) = attempts l"
proof (cases "get_acq l avid")
  case None
  then have "k \<noteq> avid \<Longrightarrow> get_acq (snd (discover l avid source now dir nxt rd wake yields)) k = get_acq l k" for k
    by (cases "row_of aq_avid k (acquisitions l)")
       (simp_all add: discover_def get_acq_def row_of_append row_of_Cons)
  with None discover_new [OF None, of source now dir nxt rd wake yields]
  show ?thesis by (simp add: acq_state_at_def)
next
  case (Some e)
  with discover_known [OF Some] show ?thesis
    by (simp add: acq_state_at_def)
qed

text \<open>
  Ownership: a sighting never takes a row from a source it yields to (directory and
  source stay), and an accepted sighting that takes a row over takes directory and source
  together; a release date once known is never overwritten.
\<close>

lemma discover_ownership:
  assumes "get_acq l avid = Some e"
    and "get_acq (snd (discover l avid source now dir nxt rd wake yields)) avid = Some r"
  shows "(aq_source e \<noteq> source \<and> aq_source e \<in> set yields
            \<longrightarrow> aq_source r = aq_source e \<and> aq_task_dir_path r = aq_task_dir_path e)
    \<and> (aq_source r \<noteq> aq_source e \<longrightarrow> aq_source r = source \<and> aq_task_dir_path r = dir)
    \<and> (aq_release_date e \<noteq> None \<longrightarrow> aq_release_date r = aq_release_date e)"
  using assms discover_known(2) [OF assms(1), of source now dir nxt rd wake yields avid]
  by (auto simp: sighted_row_def Let_def split: if_splits)

lemma discover_ownership_witness:
  "aq_source (the (get_acq (snd (discover (demo_ledger Discovered APending APending) ''ABC-123''
     ''fill_actor'' 5 (Some ''/other'') None None False [''manual''])) ''ABC-123'')) = ''manual''"
proof -
  let ?l = "snd (discover (demo_ledger Discovered APending APending) ''ABC-123''
     ''fill_actor'' 5 (Some ''/other'') None None False [''manual''])"
  have "sighting_accepted (demo_row Discovered) 5 False" by (simp add: sighting_accepted_def)
  then obtain r where r: "get_acq ?l ''ABC-123'' = Some r"
    using discover_known(2) [OF get_acq_demo, of Discovered APending APending "''fill_actor''" 5
        "Some ''/other''" None None False "[''manual'']" "''ABC-123''"] by simp
  from discover_ownership [OF get_acq_demo this] r show ?thesis by (simp add: demo_row_def)
qed

section \<open>Candidates\<close>

lemma fold_max_ge: "(a::nat) \<le> fold max xs a"
  by (induction xs arbitrary: a) (auto intro: order_trans [OF max.cobounded2])

lemma fold_max_mem: "x \<in> set xs \<Longrightarrow> x \<le> fold max xs (a::nat)"
proof (induction xs arbitrary: a)
  case (Cons y xs)
  then show ?case using fold_max_ge [of "max y a" xs] by auto
qed simp

lemma max_attempt_no_ge: "r \<in> set (attempts l) \<Longrightarrow> at_avid r = avid \<Longrightarrow> at_no r \<le> max_attempt_no l avid"
  unfolding max_attempt_no_def by (rule fold_max_mem) auto

lemma pending_rows_props:
  "r \<in> set (pending_rows avid now seen no cs) \<Longrightarrow>
     at_avid r = avid \<and> no \<le> at_no r \<and> at_state r = APending
     \<and> (case at_info_hash r of Some h \<Rightarrow> h \<notin> set seen | None \<Rightarrow> True)"
  by (induction avid now seen no cs rule: pending_rows.induct)
     (fastforce simp: pending_row_def split: option.splits if_splits)+

lemma pending_rows_numbers:
  "map at_no (pending_rows avid now seen no cs) = [no..<no + length (pending_rows avid now seen no cs)]"
proof (induction avid now seen no cs rule: pending_rows.induct)
  case (1 avid now seen no)
  then show ?case by simp
next
  case (2 avid now seen no c cs)
  have step: "no # [Suc no..<Suc (no + n)] = [no..<Suc (no + n)]" for n
    by (simp add: upt_conv_Cons del: upt_Suc)
  show ?case
    using 2 step by (auto simp: pending_row_def simp del: upt_Suc split: option.splits)
qed

lemma hash_once_Cons:
  "(\<And>q. q \<in> set rs \<Longrightarrow> at_info_hash r \<noteq> None \<Longrightarrow> at_info_hash q \<noteq> at_info_hash r)
     \<Longrightarrow> hash_once rs \<Longrightarrow> hash_once (r # rs)"
  unfolding hash_once_def by (metis set_ConsD)

lemma pending_rows_hash_once: "hash_once (pending_rows avid now seen no cs)"
proof (induction avid now seen no cs rule: pending_rows.induct)
  case (1 avid now seen no)
  then show ?case by (simp add: hash_once_def)
next
  case (2 avid now seen no c cs)
  show ?case
  proof (cases "cd_info_hash c")
    case None
    have "hash_once (pending_row avid no c now # pending_rows avid now seen (Suc no) cs)"
      by (rule hash_once_Cons [OF _ 2(1) [OF None]]) (simp add: pending_row_def None)
    with None show ?thesis by simp
  next
    case (Some h)
    show ?thesis
    proof (cases "h \<in> set seen")
      case True
      with Some 2(2) show ?thesis by simp
    next
      case False
      have other: "at_info_hash q \<noteq> Some h"
        if "q \<in> set (pending_rows avid now (h # seen) (Suc no) cs)" for q
        using pending_rows_props [OF that] by auto
      have "hash_once (pending_row avid no c now # pending_rows avid now (h # seen) (Suc no) cs)"
        by (rule hash_once_Cons [OF _ 2(3) [OF Some False]]) (use other in \<open>simp add: pending_row_def Some\<close>)
      with Some False show ?thesis by simp
    qed
  qed
qed

lemma hash_once_append:
  assumes "hash_once rs" and "hash_once qs"
    and "\<And>r q. r \<in> set rs \<Longrightarrow> q \<in> set qs \<Longrightarrow> at_avid r = at_avid q \<Longrightarrow> at_info_hash r \<noteq> None
          \<Longrightarrow> at_info_hash r \<noteq> at_info_hash q"
  shows "hash_once (rs @ qs)"
  unfolding hash_once_def
proof (intro ballI impI)
  fix r q
  assume "r \<in> set (rs @ qs)" "q \<in> set (rs @ qs)" and eq: "at_avid r = at_avid q"
    "at_info_hash r = at_info_hash q" "at_info_hash r \<noteq> None"
  then consider "r \<in> set rs" "q \<in> set rs" | "r \<in> set qs" "q \<in> set qs"
    | "r \<in> set rs" "q \<in> set qs" | "q \<in> set rs" "r \<in> set qs" by auto
  then show "at_no r = at_no q"
    using assms eq unfolding hash_once_def by cases metis+
qed

lemma live_hashes_append [simp]: "live_hashes (xs @ ys) = live_hashes xs @ live_hashes ys"
  by (simp add: live_hashes_def)

lemma live_hashes_pending: "live_hashes (pending_rows avid now seen no cs) = []"
  using pending_rows_props by (fastforce simp: live_hashes_def filter_empty_conv)

lemma tried_hashes_mem:
  "h \<in> set (tried_hashes l avid) \<longleftrightarrow> (\<exists>r\<in>set (attempts l). at_avid r = avid \<and> at_info_hash r = Some h)"
  by (force simp: tried_hashes_def)

lemma add_attempts_cases:
  assumes "add_attempts l avid cs now = Inr (n, l')"
  shows "(n = 0 \<and> l' = l)
    \<or> (get_acq l avid \<noteq> None \<and> n > 0
        \<and> (let rows = pending_rows avid now (tried_hashes l avid) (Suc (max_attempt_no l avid)) cs
           in n = length rows \<and> l' = l\<lparr>attempts := attempts l @ rows\<rparr>))"
  using assms by (auto simp: add_attempts_def Let_def split: if_splits)

lemma add_attempts_tracked:
  "get_acq l avid \<noteq> None \<Longrightarrow> \<exists>n l'. add_attempts l avid cs now = Inr (n, l')"
  by (auto simp: add_attempts_def Let_def)

lemma unique_attempts_append:
  assumes "unique_key attempt_key (attempts l)"
  shows "unique_key attempt_key
    (attempts l @ pending_rows avid now seen (Suc (max_attempt_no l avid)) cs)"
proof -
  let ?rows = "pending_rows avid now seen (Suc (max_attempt_no l avid)) cs"
  have "distinct (map at_no ?rows)" by (simp add: pending_rows_numbers)
  then have "distinct (map attempt_key ?rows)"
    by (auto simp: distinct_map inj_on_def)
  moreover have "attempt_key r \<noteq> attempt_key q" if "r \<in> set (attempts l)" "q \<in> set ?rows" for r q
    using that pending_rows_props [of q avid now seen "Suc (max_attempt_no l avid)" cs]
      max_attempt_no_ge [of r l avid] by auto
  ultimately show ?thesis
    using assms by (fastforce simp: unique_key_def)
qed

lemma ledger_ok_add_attempts [inv_intros]:
  assumes "ledger_ok l" and "add_attempts l avid cs now = Inr (n, l')"
  shows "ledger_ok l'"
proof -
  let ?rows = "pending_rows avid now (tried_hashes l avid) (Suc (max_attempt_no l avid)) cs"
  from add_attempts_cases [OF assms(2)] consider "l' = l"
    | "get_acq l avid \<noteq> None" "l' = l\<lparr>attempts := attempts l @ ?rows\<rparr>"
    by (auto simp: Let_def)
  then show ?thesis
  proof cases
    case 1
    then show ?thesis using assms(1) by simp
  next
    case 2
    have old: "hash_once (attempts l)" using assms(1) by (simp add: ledger_ok_def)
    have new: "at_avid q = avid \<and> at_info_hash q \<noteq> at_info_hash r"
      if "q \<in> set ?rows" "r \<in> set (attempts l)" "at_avid r = avid" "at_info_hash r \<noteq> None" for q r
      using that pending_rows_props [OF that(1)] by (auto simp: tried_hashes_mem split: option.splits)
    have mine: "q \<in> set ?rows \<Longrightarrow> at_avid q = avid" for q
      using pending_rows_props by blast
    have "hash_once (attempts l @ ?rows)"
    proof (rule hash_once_append [OF old pending_rows_hash_once])
      fix r q
      assume "r \<in> set (attempts l)" "q \<in> set ?rows" "at_avid r = at_avid q" "at_info_hash r \<noteq> None"
      then show "at_info_hash r \<noteq> at_info_hash q" using new [of q r] mine [of q] by auto
    qed
    then show ?thesis
      using assms(1) 2 unique_attempts_append [OF unique_attempts [OF assms(1)], of avid now]
        pending_rows_props
      by (fastforce simp: ledger_ok_def live_index_ok_def live_hashes_pending)
  qed
qed

text \<open>
  C18: The history of what was tried is never rewritten and a hash is never tried twice for a
  title: recording candidates only appends pending attempts, numbered from the next free
  number, and none of them carries a hash an earlier attempt of the title carries.
\<close>

theorem add_attempts_history:
  assumes "add_attempts l avid cs now = Inr (n, l')"
  shows "\<exists>rows. attempts l' = attempts l @ rows \<and> length rows = n
    \<and> acquisitions l' = acquisitions l
    \<and> map at_no rows = [Suc (max_attempt_no l avid)..<Suc (max_attempt_no l avid) + n]
    \<and> hash_once rows
    \<and> (\<forall>q\<in>set rows. at_avid q = avid \<and> at_state q = APending
         \<and> (\<forall>r\<in>set (attempts l). at_avid r = avid \<longrightarrow> at_info_hash r \<noteq> None
              \<longrightarrow> at_info_hash q \<noteq> at_info_hash r))"
proof -
  let ?rows = "pending_rows avid now (tried_hashes l avid) (Suc (max_attempt_no l avid)) cs"
  from add_attempts_cases [OF assms] consider "n = 0" "l' = l"
    | "n = length ?rows" "l' = l\<lparr>attempts := attempts l @ ?rows\<rparr>"
    by (auto simp: Let_def)
  then show ?thesis
  proof cases
    case 1
    then show ?thesis by (intro exI [of _ "[]"]) (simp add: hash_once_def)
  next
    case 2
    have "at_info_hash q \<noteq> at_info_hash r"
      if "q \<in> set ?rows" "r \<in> set (attempts l)" "at_avid r = avid" "at_info_hash r \<noteq> None" for q r
      using that pending_rows_props [OF that(1)] by (auto simp: tried_hashes_mem split: option.splits)
    then show ?thesis
      using 2 pending_rows_props pending_rows_hash_once
        pending_rows_numbers [of avid now "tried_hashes l avid" "Suc (max_attempt_no l avid)" cs]
      by (intro exI [of _ ?rows]) auto
  qed
qed

theorem add_attempts_history_witness:
  "\<exists>n l' rows. add_attempts (demo_ledger Discovered AError AError) ''ABC-123''
       [\<lparr>cd_magnet = ''magnet:c'', cd_info_hash = Some ''C'', cd_source = ''javbus'', cd_size_hint = None\<rparr>] 9
       = Inr (n, l') \<and> length rows = n
     \<and> attempts l' = attempts (demo_ledger Discovered AError AError) @ rows"
proof -
  let ?cs = "[\<lparr>cd_magnet = ''magnet:c'', cd_info_hash = Some ''C'', cd_source = ''javbus'', cd_size_hint = None\<rparr>]"
  obtain n l' where add: "add_attempts (demo_ledger Discovered AError AError) ''ABC-123'' ?cs 9 = Inr (n, l')"
    using add_attempts_tracked [of "demo_ledger Discovered AError AError" "''ABC-123''" ?cs 9] by auto
  from add_attempts_history [OF this] add show ?thesis by blast
qed

section \<open>Claiming the next magnet\<close>

definition pending_count :: "attempt list \<Rightarrow> string \<Rightarrow> nat" where
  "pending_count rs avid = count_where (\<lambda>r. at_avid r = avid \<and> at_state r = APending) rs"

lemma submit_row_simps [simp]:
  "at_avid (submit_row now r) = at_avid r" "at_no (submit_row now r) = at_no r"
  "at_info_hash (submit_row now r) = at_info_hash r" "at_state (submit_row now r) = ASubmitted"
  "at_magnet (submit_row now r) = at_magnet r"
  by (simp_all add: submit_row_def)

lemma claim_target_cases:
  "claim_target view avid = None \<and> (\<forall>r\<in>set view. \<not> claimable view avid r)
   \<or> (\<exists>r\<in>set view. claim_target view avid = Some (at_no r) \<and> claimable view avid r
        \<and> (\<forall>q\<in>set view. claimable view avid q \<longrightarrow> at_no r \<le> at_no q))"
proof (cases "sort_key at_no (filter (claimable view avid) view)")
  case Nil
  then have "set (filter (claimable view avid) view) = {}" by (metis set_sort list.set(1))
  then show ?thesis using Nil by (auto simp: claim_target_def)
next
  case (Cons r rs)
  have elems: "set (r # rs) = {q \<in> set view. claimable view avid q}"
    using set_sort [of at_no "filter (claimable view avid) view"] Cons by simp
  moreover have "sorted (map at_no (r # rs))"
    using sorted_sort_key [of at_no "filter (claimable view avid) view"] Cons by simp
  ultimately show ?thesis using Cons
    by (intro disjI2 bexI [of _ r]) (auto simp: claim_target_def)
qed

lemma set_attempt_Cons:
  "set_attempt (a # rs) avid no e f
     = (if at_avid a = avid \<and> at_no a = no \<and> at_state a = e then f a else a) # set_attempt rs avid no e f"
  by (simp add: set_attempt_def update_where_def)

lemma set_attempt_absent: "(avid, no) \<notin> attempt_key ` set rs \<Longrightarrow> set_attempt rs avid no e f = rs"
  by (force simp: set_attempt_def update_where_def intro: map_idI)

text \<open>Marking one row submitted keeps the unique index when its hash is live nowhere.\<close>

lemma live_index_ok_one_row:
  assumes "live_index_ok rs" and "unique_key attempt_key rs"
    and "get_attempt rs avid no = Some r"
    and "at_info_hash r = None \<or> (\<forall>q\<in>set rs. at_info_hash q = at_info_hash r \<longrightarrow> \<not> is_live (at_state q))"
  shows "live_index_ok (set_attempt rs avid no APending (submit_row now))"
  using assms
proof (induction rs)
  case Nil
  then show ?case by (simp add: get_attempt_def)
next
  case (Cons a rs)
  let ?p = "\<lambda>r. at_avid r = avid \<and> at_no r = no \<and> at_state r = APending"
  note cons = set_attempt_Cons [of a rs avid no APending "submit_row now"]
  show ?case
  proof (cases "attempt_key a = (avid, no)")
    case True
    have "attempt_key a \<notin> attempt_key ` set rs" using Cons.prems(2) by (simp add: unique_key_def)
    then have rest: "set_attempt rs avid no APending (submit_row now) = rs"
      unfolding True by (rule set_attempt_absent)
    have "r = a" using Cons.prems(3) True by (simp add: get_attempt_def row_of_Cons split: if_splits)
    then show ?thesis
      using Cons.prems(1,4) unfolding cons rest
      by (auto simp: live_index_ok_Cons set_live_hashes)
  next
    case False
    then have get: "get_attempt rs avid no = Some r"
      using Cons.prems(3) by (simp add: get_attempt_def row_of_Cons split: if_splits)
    have IH: "live_index_ok (set_attempt rs avid no APending (submit_row now))"
      using Cons.IH [OF _ _ get] Cons.prems by (auto simp: live_index_ok_Cons unique_key_def)
    have r: "r \<in> set rs" "attempt_key r = (avid, no)"
      using get row_of_Some unfolding get_attempt_def by fastforce+
    have "h \<notin> set (live_hashes (set_attempt rs avid no APending (submit_row now)))"
      if a: "is_live (at_state a)" "at_info_hash a = Some h" for h
    proof
      assume "h \<in> set (live_hashes (set_attempt rs avid no APending (submit_row now)))"
      then obtain q where q: "q \<in> set rs" "at_info_hash q = Some h" "is_live (at_state q) \<or> ?p q"
        by (auto simp: set_live_hashes set_attempt_def set_update_where)
      have "\<not> is_live (at_state q)" using Cons.prems(1) a q by (auto simp: live_index_ok_Cons set_live_hashes)
      with q have "?p q" by blast
      then have "q = r"
        using q(1) r Cons.prems(2) unique_key_eqD [of attempt_key rs q r] by (auto simp: unique_key_def)
      then show False using Cons.prems(4) q a by auto
    qed
    then show ?thesis
      using IH False unfolding cons by (auto simp: live_index_ok_Cons)
  qed
qed

lemma get_attempt_in:
  "unique_key attempt_key rs \<Longrightarrow> r \<in> set rs \<Longrightarrow> get_attempt rs (at_avid r) (at_no r) = Some r"
  unfolding get_attempt_def by (rule row_of_in [where key = attempt_key])

lemma get_attempt_Some: "get_attempt rs avid no = Some r \<Longrightarrow> r \<in> set rs \<and> at_avid r = avid \<and> at_no r = no"
  unfolding get_attempt_def by (drule row_of_Some) auto

text \<open>A claim that nobody races takes the lowest pending attempt whose hash is free.\<close>

lemma claim_next_pending_serial:
  assumes "ledger_ok l"
  shows "(claim_next_pending l avid now = (None, l) \<and> (\<forall>r\<in>set (attempts l). \<not> claimable (attempts l) avid r))
    \<or> (\<exists>r\<in>set (attempts l). claimable (attempts l) avid r
         \<and> (\<forall>q\<in>set (attempts l). claimable (attempts l) avid q \<longrightarrow> at_no r \<le> at_no q)
         \<and> claim_next_pending l avid now
             = (Some (submit_row now r),
                l\<lparr>attempts := set_attempt (attempts l) avid (at_no r) APending (submit_row now)\<rparr>))"
proof -
  have retries: "replicate CLAIM_RETRIES v = v # replicate 2 v" for v :: "attempt list"
    by (simp add: CLAIM_RETRIES_def numeral_eq_Suc)
  from claim_target_cases [of "attempts l" avid] show ?thesis
  proof (elim disjE conjE bexE)
    assume "claim_target (attempts l) avid = None" "\<forall>r\<in>set (attempts l). \<not> claimable (attempts l) avid r"
    then show ?thesis by (simp add: claim_next_pending_def retries claim_statement_def)
  next
    fix r
    assume r: "r \<in> set (attempts l)" "claim_target (attempts l) avid = Some (at_no r)"
      "claimable (attempts l) avid r"
      and least: "\<forall>q\<in>set (attempts l). claimable (attempts l) avid q \<longrightarrow> at_no r \<le> at_no q"
    have avid: "at_avid r = avid" and pend: "at_state r = APending"
      using r(3) by (simp_all add: claimable_def)
    have get: "get_attempt (attempts l) avid (at_no r) = Some r"
      using get_attempt_in [OF unique_attempts [OF assms] r(1)] avid by simp
    have "live_index_ok (set_attempt (attempts l) avid (at_no r) APending (submit_row now))"
      by (rule live_index_ok_one_row [OF _ unique_attempts [OF assms] get])
         (use assms r(3) in \<open>auto simp: ledger_ok_def claimable_def list_ex_iff\<close>)
    then have "claim_next_pending l avid now
             = (Some (submit_row now r),
                l\<lparr>attempts := set_attempt (attempts l) avid (at_no r) APending (submit_row now)\<rparr>)"
      by (simp add: claim_next_pending_def retries claim_statement_def r(2) get pend Let_def)
    with r least show ?thesis by (intro disjI2 bexI [of _ r]) auto
  qed
qed

lemma pending_count_submit:
  assumes "unique_key attempt_key rs" and "get_attempt rs avid no = Some r" and "at_state r = APending"
  shows "pending_count rs avid = Suc (pending_count (set_attempt rs avid no APending (submit_row now)) avid)"
  using assms
proof (induction rs)
  case Nil
  then show ?case by (simp add: get_attempt_def)
next
  case (Cons a rs)
  let ?p = "\<lambda>r. at_avid r = avid \<and> at_no r = no \<and> at_state r = APending"
  note cons = set_attempt_Cons [of a rs avid no APending "submit_row now"]
  show ?case
  proof (cases "attempt_key a = (avid, no)")
    case True
    have "attempt_key a \<notin> attempt_key ` set rs" using Cons.prems(1) by (simp add: unique_key_def)
    then have rest: "set_attempt rs avid no APending (submit_row now) = rs"
      unfolding True by (rule set_attempt_absent)
    have "r = a" using Cons.prems(2) True by (simp add: get_attempt_def row_of_Cons split: if_splits)
    then show ?thesis using True Cons.prems(3) unfolding cons rest
      by (auto simp: pending_count_def count_where_def)
  next
    case False
    then have "get_attempt rs avid no = Some r"
      using Cons.prems(2) by (simp add: get_attempt_def row_of_Cons split: if_splits)
    then have "pending_count rs avid = Suc (pending_count (set_attempt rs avid no APending (submit_row now)) avid)"
      using Cons by (auto simp: unique_key_def)
    then show ?thesis using False unfolding cons by (auto simp: pending_count_def count_where_def)
  qed
qed

lemma claim_next_pending_decreases:
  assumes "ledger_ok l" and "claim_next_pending l avid now = (Some r, l')"
  shows "pending_count (attempts l) avid = Suc (pending_count (attempts l') avid)"
  using claim_next_pending_serial [OF assms(1), of avid now] assms(2)
    pending_count_submit [OF unique_attempts [OF assms(1)]]
    get_attempt_in [OF unique_attempts [OF assms(1)]]
  by (auto simp: claimable_def)

text \<open>
  C13: A claim hands out the lowest numbered pending magnet of the title whose hash is live
  nowhere, marks exactly that attempt submitted, and answers nothing only when there is no
  such magnet; the retries of the statement are never used up by a claim nobody races.
\<close>

theorem claim_next_pending_lowest:
  assumes "ledger_ok l"
  shows "case claim_next_pending l avid now of
      (None, l') \<Rightarrow> l' = l \<and> (\<forall>r\<in>set (attempts l). \<not> claimable (attempts l) avid r)
    | (Some a, l') \<Rightarrow> (\<exists>r\<in>set (attempts l). a = submit_row now r \<and> claimable (attempts l) avid r
         \<and> (\<forall>q\<in>set (attempts l). claimable (attempts l) avid q \<longrightarrow> at_no r \<le> at_no q)
         \<and> attempts l' = set_attempt (attempts l) avid (at_no r) APending (submit_row now)
         \<and> pending_count (attempts l) avid = Suc (pending_count (attempts l') avid))"
proof (cases "claim_next_pending l avid now")
  case (Pair a l')
  show ?thesis
    using claim_next_pending_serial [OF assms, of avid now] Pair
      claim_next_pending_decreases [OF assms, of avid now]
    by (cases a) auto
qed

theorem claim_next_pending_lowest_witness:
  "case claim_next_pending (demo_ledger Discovered AError APending) ''ABC-123'' 9 of
     (None, l') \<Rightarrow> l' = demo_ledger Discovered AError APending
   | (Some a, l') \<Rightarrow> (\<exists>r\<in>set (attempts (demo_ledger Discovered AError APending)). a = submit_row 9 r)"
  using claim_next_pending_lowest [OF ledger_ok_demo, of Discovered AError APending "''ABC-123''" 9]
  by (auto split: option.splits prod.splits)

text \<open>A claim under snapshots that may all be out of date.\<close>

lemma claim_rounds_cases:
  assumes "claim_rounds views rs avid now = (a, rs')"
  shows "(a = None \<and> rs' = rs)
    \<or> (\<exists>no r. get_attempt rs avid no = Some r \<and> at_state r = APending
         \<and> a = Some (submit_row now r) \<and> rs' = set_attempt rs avid no APending (submit_row now)
         \<and> live_index_ok rs')"
  using assms
proof (induction views)
  case Nil
  then show ?case by simp
next
  case (Cons v vs)
  show ?case
  proof (cases "claim_statement v rs avid now")
    case (Inl e)
    then show ?thesis using Cons by simp
  next
    case (Inr x)
    then have "claim_statement v rs avid now = Inr (a, rs')" using Cons.prems by simp
    from claim_statement_result [OF this] show ?thesis by blast
  qed
qed

text \<open>
  C14: Whatever stale snapshots the racing replicas read, a claim moves at most one row of
  its own title, from pending to submitted, never makes two live attempts share a hash, and
  a second claim of the same table never hands out the same attempt again.
\<close>

theorem claim_stale_safe:
  assumes "ledger_ok l" and "claim_rounds views (attempts l) avid now = (a, rs')"
  shows "live_index_ok rs'
    \<and> (case a of None \<Rightarrow> rs' = attempts l
       | Some r \<Rightarrow> at_avid r = avid \<and> attempt_state_at l (avid, at_no r) = Some APending
           \<and> (\<forall>k. attempt_state_at (l\<lparr>attempts := rs'\<rparr>) k
                 = (if k = (avid, at_no r) then Some ASubmitted else attempt_state_at l k))
           \<and> (\<forall>views' now' b rs''. claim_rounds views' rs' avid now' = (Some b, rs'')
                 \<longrightarrow> at_no b \<noteq> at_no r))"
proof -
  from claim_rounds_cases [OF assms(2)] show ?thesis
  proof (elim disjE exE conjE)
    assume "a = None" "rs' = attempts l"
    then show ?thesis using assms(1) by (simp add: ledger_ok_def)
  next
    fix no r
    assume r: "get_attempt (attempts l) avid no = Some r" "at_state r = APending"
      and a: "a = Some (submit_row now r)"
      and rs': "rs' = set_attempt (attempts l) avid no APending (submit_row now)" "live_index_ok rs'"
    have key: "at_avid r = avid" "at_no r = no" using get_attempt_Some [OF r(1)] by auto
    have after: "get_attempt rs' x n = map_option (\<lambda>q. if x = avid \<and> n = no \<and> at_state q = APending
        then submit_row now q else q) (get_attempt (attempts l) x n)" for x n
      unfolding rs' by (rule get_attempt_update) simp
    have "at_no b \<noteq> no" if again: "claim_rounds views' rs' avid now' = (Some b, rs'')" for views' now' b rs''
      using claim_rounds_cases [OF again] after [of avid no] r get_attempt_Some [of rs' avid]
      by (auto split: if_splits)
    moreover have "attempt_state_at (l\<lparr>attempts := rs'\<rparr>) k
        = (if k = (avid, no) then Some ASubmitted else attempt_state_at l k)" for k
      using r by (cases k) (auto simp: attempt_state_at_def after option.map_comp o_def
          intro!: option.map_cong0)
    ultimately show ?thesis using a r rs'(2) key by (auto simp: attempt_state_at_def)
  qed
qed

theorem claim_stale_safe_witness:
  "\<exists>a rs'. claim_rounds [attempts (demo_ledger Discovered AError APending), []]
       (attempts (demo_ledger Discovered AArchived AError)) ''ABC-123'' 9 = (a, rs') \<and> live_index_ok rs'"
proof -
  obtain a rs' where c: "claim_rounds [attempts (demo_ledger Discovered AError APending), []]
       (attempts (demo_ledger Discovered AArchived AError)) ''ABC-123'' 9 = (a, rs')" by fastforce
  from claim_stale_safe [OF ledger_ok_demo this] c show ?thesis by blast
qed

section \<open>The action timer\<close>

definition due_row :: "datetime \<Rightarrow> acquisition \<Rightarrow> bool" where
  "due_row now r \<longleftrightarrow>
     aq_state r \<in> set DUE_STATES \<and> aq_next_action_at r \<noteq> None \<and> timer r \<le> now"

text \<open>
  The batch the timer hands out is sorted by the time each row asked for and then by
  AVID, never longer than the limit, holds only tracked rows in a due state whose time has
  come, and drops no due row in favour of a later one.
\<close>

lemma due_for_retry_batch:
  "sorted (map (\<lambda>r. (timer r, aq_avid r)) (due_for_retry l now limit))
   \<and> length (due_for_retry l now limit) = min limit (count_where (due_row now) (acquisitions l))
   \<and> set (due_for_retry l now limit) \<subseteq> {r \<in> set (acquisitions l). due_row now r}
   \<and> (\<forall>r\<in>set (due_for_retry l now limit). \<forall>q\<in>set (acquisitions l).
        due_row now q \<and> q \<notin> set (due_for_retry l now limit)
          \<longrightarrow> (timer r, aq_avid r) \<le> (timer q, aq_avid q))"
proof -
  let ?key = "\<lambda>r. (timer r, aq_avid r)"
  let ?all = "sort_key ?key (filter (due_row now) (acquisitions l))"
  have due: "due_for_retry l now limit = take limit ?all"
    unfolding due_for_retry_def due_row_def ..
  have sorted: "sorted (map ?key ?all)" by simp
  have split: "?all = take limit ?all @ drop limit ?all" by simp
  have later: "?key r \<le> ?key q" if "r \<in> set (take limit ?all)" "q \<in> set (drop limit ?all)" for r q
  proof -
    have "sorted (map ?key (take limit ?all) @ map ?key (drop limit ?all))"
      using sorted by (simp flip: map_append)
    then show ?thesis using that by (auto simp: sorted_append)
  qed
  have mem: "set ?all = {r \<in> set (acquisitions l). due_row now r}" by simp
  have part: "set ?all = set (take limit ?all) \<union> set (drop limit ?all)"
    using arg_cong [OF split, of set] by (simp only: set_append)
  show ?thesis
    unfolding due
    using sorted later mem part set_take_subset [of limit ?all]
    by (auto simp: sorted_wrt_take take_map [symmetric] count_where_def)
qed

section \<open>Progress\<close>

text \<open>
  Recording progress never resurrects a download: only a row in flight is touched, it
  stays in flight, and the answer is no exactly when nothing was written - the row had left
  its in-flight states or already held what was observed.
\<close>

lemma record_progress_in_flight:
  assumes "ledger_ok l" and "record_progress l avid no s pr now = Inr (b, l')"
  shows "is_in_flight s \<and> acquisitions l' = acquisitions l
    \<and> (b \<longleftrightarrow> (\<exists>r. get_attempt (attempts l) avid no = Some r \<and> is_in_flight (at_state r)
              \<and> (at_state r \<noteq> s \<or> at_progress r \<noteq> pr)))
    \<and> (\<not> b \<longrightarrow> l' = l)
    \<and> (\<forall>k. attempt_state_at l' k
         = (if b \<and> k = (avid, no) then Some s else attempt_state_at l k))"
proof -
  let ?q = "\<lambda>r. is_in_flight (at_state r) \<and> (at_state r \<noteq> s \<or> at_progress r \<noteq> pr)"
  let ?p = "\<lambda>r. at_avid r = avid \<and> at_no r = no \<and> ?q r"
  let ?f = "\<lambda>r. r\<lparr>at_state := s, at_progress := pr, at_updated_at := now\<rparr>"
  from assms(2) have fl: "is_in_flight s" and b: "b = (count_where ?p (attempts l) = 1)"
    and l': "l' = l\<lparr>attempts := update_where ?p ?f (attempts l)\<rparr>"
    by (auto simp: record_progress_def Let_def split: if_splits)
  have count: "count_where ?p (attempts l)
      = (case get_attempt (attempts l) avid no of Some r \<Rightarrow> if ?q r then 1 else 0 | None \<Rightarrow> 0)"
    by (rule attempt_count [OF unique_attempts [OF assms(1)]])
  then have b_iff: "b \<longleftrightarrow> (\<exists>r. get_attempt (attempts l) avid no = Some r \<and> ?q r)"
    unfolding b by (auto split: option.splits)
  have "\<not> b \<longrightarrow> l' = l"
  proof
    assume "\<not> b"
    then have "count_where ?p (attempts l) = 0" using b count by (auto split: option.splits if_splits)
    then show "l' = l" unfolding l' by (simp add: update_where_none)
  qed
  moreover have "get_attempt (attempts l') x n
      = map_option (\<lambda>r. if ?p r then ?f r else r) (get_attempt (attempts l) x n)" for x n
    unfolding l' get_attempt_def by (simp add: row_of_update_where [where key = attempt_key])
  then have "attempt_state_at l' k = (if b \<and> k = (avid, no) then Some s else attempt_state_at l k)" for k
    using b_iff get_attempt_Some [of "attempts l" "fst k" "snd k"]
    by (cases k; cases "get_attempt (attempts l) (fst k) (snd k)") (auto simp: attempt_state_at_def)
  ultimately show ?thesis using fl b_iff by (auto simp: l')
qed

end
