(* ===== verification/Ledger_Replicas.thy ===== *)
theory Ledger_Replicas
  imports Ledger_System
begin

text \<open>
  The ledger as the system it is part of uses it: any number of replicas and operators call
  the repository's methods in any order, each with any arguments and any clock, and every
  claim reads snapshots that may be out of date. One step is one statement or transaction of
  the repository; a call that raises leaves the tables as they were.
\<close>

section \<open>Steps\<close>

inductive ledger_step :: "ledger \<Rightarrow> ledger \<Rightarrow> bool" where
  discover: "ledger_step l (snd (discover l avid source now dir nxt rd wake yields))"
| set_release_date: "ledger_step l (snd (set_release_date l avid d))"
| begin_replacement: "ledger_step l (snd (begin_replacement l avid source task_dir paths now))"
| transition: "transition l avid e t now note' nxt paths = Inr (b, l') \<Longrightarrow> ledger_step l l'"
| add_attempts: "add_attempts l avid cs now = Inr (n, l') \<Longrightarrow> ledger_step l l'"
| claim_next_pending:
    "claim_rounds views (attempts l) avid now = (a, rs) \<Longrightarrow> ledger_step l (l\<lparr>attempts := rs\<rparr>)"
| claim_attempt: "claim_attempt l avid no now = Inr (a, l') \<Longrightarrow> ledger_step l l'"
| transition_attempt: "transition_attempt l avid no e t now err = Inr (b, l') \<Longrightarrow> ledger_step l l'"
| record_progress: "record_progress l avid no s pr now = Inr (b, l') \<Longrightarrow> ledger_step l l'"

inductive_cases ledger_stepE: "ledger_step l l'"

definition reachable :: "ledger \<Rightarrow> bool" where
  "reachable l \<longleftrightarrow> ledger_step\<^sup>*\<^sup>* empty_ledger l"

lemma ledger_ok_step: "ledger_step l l' \<Longrightarrow> ledger_ok l \<Longrightarrow> ledger_ok l'"
  by (induction rule: ledger_step.induct) (auto intro: inv_intros ledger_ok_claim_rounds)

lemma ledger_ok_steps: "ledger_step\<^sup>*\<^sup>* l l' \<Longrightarrow> ledger_ok l \<Longrightarrow> ledger_ok l'"
  by (induction rule: rtranclp_induct) (auto intro: ledger_ok_step)

text \<open>
  C1: In every ledger the replicas can produce, whatever they call in whatever order, two
  attempts are never live with the same info hash, and no hash is tried twice for a title.
\<close>

theorem reachable_hashes:
  assumes "reachable l" and "r \<in> set (attempts l)" and "q \<in> set (attempts l)"
    and "at_info_hash r = Some h" and "at_info_hash q = Some h"
  shows "(is_live (at_state r) \<and> is_live (at_state q) \<longrightarrow> r = q)
       \<and> (at_avid r = at_avid q \<longrightarrow> r = q)"
proof -
  have ok: "ledger_ok l"
    using assms(1) ledger_ok_steps ledger_ok_empty unfolding reachable_def by blast
  then have "live_index_ok (attempts l)" and "hash_once (attempts l)" by (simp_all add: ledger_ok_def)
  with assms unique_attempts [OF ok] show ?thesis
    using live_index_unique [of "attempts l" r q h] unique_key_eqD [of attempt_key "attempts l" r q]
    unfolding hash_once_def by fastforce
qed

theorem reachable_hashes_witness:
  "\<exists>l r. reachable l \<and> r \<in> set (attempts l) \<and> at_info_hash r = Some ''A''
     \<and> (\<forall>q\<in>set (attempts l). at_info_hash q = Some ''A'' \<longrightarrow> at_avid q = at_avid r \<longrightarrow> q = r)"
proof -
  let ?c = "\<lparr>cd_magnet = ''magnet:a'', cd_info_hash = Some ''A'', cd_source = ''javbus'', cd_size_hint = None\<rparr>"
  let ?l1 = "snd (discover empty_ledger ''ABC-123'' ''manual'' 5 None None None False [])"
  have known: "get_acq ?l1 ''ABC-123'' \<noteq> None"
    using discover_new [of empty_ledger "''ABC-123''" "''manual''" 5 None None None False "[]"]
    by (simp add: get_acq_def empty_ledger_def)
  have none: "tried_hashes ?l1 ''ABC-123'' = []"
    by (simp add: tried_hashes_def empty_ledger_def)
  let ?r = "pending_row ''ABC-123'' (Suc (max_attempt_no ?l1 ''ABC-123'')) ?c 6"
  have add: "add_attempts ?l1 ''ABC-123'' [?c] 6 = Inr (1, ?l1\<lparr>attempts := attempts ?l1 @ [?r]\<rparr>)"
    using known none by (simp add: add_attempts_def Let_def)
  have "reachable (?l1\<lparr>attempts := attempts ?l1 @ [?r]\<rparr>)"
    unfolding reachable_def
    by (rule rtranclp.rtrancl_into_rtrancl [OF r_into_rtranclp])
       (rule ledger_step.discover, rule ledger_step.add_attempts [OF add])
  moreover have "?r \<in> set (attempts (?l1\<lparr>attempts := attempts ?l1 @ [?r]\<rparr>))" by simp
  moreover have hash: "at_info_hash ?r = Some ''A''" by (simp add: pending_row_def)
  ultimately show ?thesis
    using reachable_hashes [of "?l1\<lparr>attempts := attempts ?l1 @ [?r]\<rparr>" _ ?r "''A''"] by blast
qed

section \<open>What a step may do to an attempt\<close>

definition attempt_rows_move :: "attempt \<Rightarrow> attempt \<Rightarrow> bool" where
  "attempt_rows_move r r' \<longleftrightarrow>
     attempt_key r' = attempt_key r \<and> at_magnet r' = at_magnet r \<and> at_info_hash r' = at_info_hash r
     \<and> at_magnet_source r' = at_magnet_source r
     \<and> (at_state r' = at_state r \<or> at_state r' \<in> set (attempt_edges (at_state r))
        \<or> (is_in_flight (at_state r) \<and> is_in_flight (at_state r')))"

lemma attempt_rows_move_refl [simp]: "attempt_rows_move r r"
  by (simp add: attempt_rows_move_def)

text \<open>An update of the attempts never removes a row and moves each along an edge.\<close>

lemma update_moves:
  assumes "\<And>r. p r \<Longrightarrow> attempt_rows_move r (f r)" and "get_attempt rs avid no = Some r"
    and "\<And>r. attempt_key (f r) = attempt_key r"
  shows "\<exists>r'. get_attempt (update_where p f rs) avid no = Some r' \<and> attempt_rows_move r r'"
proof -
  have "get_attempt (update_where p f rs) avid no = map_option (\<lambda>r. if p r then f r else r) (get_attempt rs avid no)"
    unfolding get_attempt_def by (rule row_of_update_where) (rule assms(3))
  then show ?thesis using assms(1,2) by simp
qed

lemma claim_moves:
  "claim_rounds views rs avid now = (a, rs') \<Longrightarrow> get_attempt rs k n = Some r
     \<Longrightarrow> \<exists>r'. get_attempt rs' k n = Some r' \<and> attempt_rows_move r r'"
  using claim_rounds_cases [of views rs avid now a rs']
  by (auto simp: set_attempt_def intro!: update_moves)
     (auto simp: attempt_rows_move_def submit_row_def)

lemma step_attempt_moves:
  assumes "ledger_step l l'" and "get_attempt (attempts l) avid no = Some r"
  shows "\<exists>r'. get_attempt (attempts l') avid no = Some r' \<and> attempt_rows_move r r'"
  using assms
proof (induction rule: ledger_step.induct)
  case (add_attempts l av cs now n l')
  then have "\<exists>rows. attempts l' = attempts l @ rows"
    using add_attempts_cases [OF add_attempts(1)] by (auto simp: Let_def)
  then show ?case
    using add_attempts(2) by (auto simp: get_attempt_def row_of_append)
next
  case (claim_next_pending views l av now a rs)
  then show ?case using claim_moves by simp
next
  case (claim_attempt l av n now a l')
  then show ?case
    by (auto simp: claim_attempt_def Let_def set_attempt_def split: option.splits if_splits
        intro!: update_moves) (auto simp: attempt_rows_move_def submit_row_def)
next
  case (transition_attempt l av n e t now err b l')
  then show ?case
    by (auto simp: transition_attempt_def Let_def set_attempt_def split: if_splits intro!: update_moves)
       (auto simp: attempt_rows_move_def)
next
  case (record_progress l av n s pr now b l')
  then show ?case
    by (auto simp: record_progress_def Let_def split: if_splits intro!: update_moves)
       (auto simp: attempt_rows_move_def)
next
  case (set_release_date l av d)
  then show ?case by (simp add: set_release_date_def Let_def)
next
  case (begin_replacement l av source dir paths now)
  then show ?case by (simp add: begin_replacement_def Let_def split: option.splits)
next
  case (transition l av e t now note' nxt paths b l')
  then show ?case using transition_InrD [OF transition(1)] by auto
qed simp

definition attempt_final :: "attempt_state \<Rightarrow> bool" where
  "attempt_final s \<longleftrightarrow> attempt_edges s = []"

lemma history_of_attempt:
  assumes "ledger_step\<^sup>*\<^sup>* l l'" and "get_attempt (attempts l) avid no = Some r"
  shows "\<exists>r'. get_attempt (attempts l') avid no = Some r' \<and> at_magnet r' = at_magnet r
    \<and> at_info_hash r' = at_info_hash r \<and> at_magnet_source r' = at_magnet_source r
    \<and> (attempt_final (at_state r) \<longrightarrow> at_state r' = at_state r)
    \<and> (at_state r \<noteq> APending \<longrightarrow> at_state r' \<noteq> APending)"
  using assms(1)
proof (induction rule: rtranclp_induct)
  case base
  then show ?case using assms(2) by simp
next
  case (step m l'')
  then obtain r' where r': "get_attempt (attempts m) avid no = Some r'" "at_magnet r' = at_magnet r"
    "at_info_hash r' = at_info_hash r" "at_magnet_source r' = at_magnet_source r"
    "attempt_final (at_state r) \<longrightarrow> at_state r' = at_state r"
    "at_state r \<noteq> APending \<longrightarrow> at_state r' \<noteq> APending" by blast
  from step_attempt_moves [OF step(2) r'(1)] obtain r'' where
    r'': "get_attempt (attempts l'') avid no = Some r''" "attempt_rows_move r' r''" by blast
  have "attempt_final (at_state r') \<longrightarrow> at_state r'' = at_state r'"
    using r''(2) by (auto simp: attempt_rows_move_def attempt_final_def is_in_flight_iff)
  moreover have "at_state r' \<noteq> APending \<longrightarrow> at_state r'' \<noteq> APending"
    using r''(2) by (cases "at_state r'") (auto simp: attempt_rows_move_def is_in_flight_iff)
  ultimately show ?case using r' r'' by (auto simp: attempt_rows_move_def)
qed

text \<open>
  C2: History is immutable: an attempt once recorded is never removed, its magnet, hash and
  number never change, and one that was archived, junk, failed, stalled or lost stays so,
  through any calls of any replicas.
\<close>

theorem attempt_history_immutable:
  assumes "ledger_step\<^sup>*\<^sup>* l l'" and "get_attempt (attempts l) avid no = Some r"
  shows "\<exists>r'. get_attempt (attempts l') avid no = Some r' \<and> at_magnet r' = at_magnet r
    \<and> at_info_hash r' = at_info_hash r \<and> at_magnet_source r' = at_magnet_source r
    \<and> (attempt_final (at_state r) \<longrightarrow> at_state r' = at_state r)
    \<and> (at_state r \<noteq> APending \<longrightarrow> at_state r' \<noteq> APending)"
  using assms by (rule history_of_attempt)

theorem attempt_history_immutable_witness:
  "\<exists>r'. get_attempt (attempts (snd (discover (demo_ledger Archived AArchived AError) ''XYZ-9'' ''manual'' 5
       None None None False []))) ''ABC-123'' 2 = Some r' \<and> at_state r' = AError"
proof -
  let ?l = "demo_ledger Archived AArchived AError"
  have "ledger_step\<^sup>*\<^sup>* ?l (snd (discover ?l ''XYZ-9'' ''manual'' 5 None None None False []))"
    by (rule r_into_rtranclp, rule ledger_step.discover)
  from attempt_history_immutable [OF this, of "''ABC-123''" 2 "demo_attempt 2 AError"] show ?thesis
    by (auto simp: attempt_final_def)
qed

section \<open>What a step may do to an acquisition\<close>

lemma step_acq_moves:
  assumes "ledger_step l l'" and "get_acq l avid = Some r"
  shows "\<exists>r'. get_acq l' avid = Some r' \<and>
    (aq_state r' = aq_state r \<or> acq_edge (aq_state r) (aq_state r')
     \<or> (aq_state r \<in> set REPLACEABLE_STATES \<and> aq_state r' = Discovered
        \<and> aq_replace_paths_json r' \<noteq> None
        \<and> aq_replace_after_attempt r' = Some (max_attempt_no l avid)))"
  using assms
proof (induction rule: ledger_step.induct)
  case (discover l av source now dir nxt rd wake yields)
  then show ?case
  proof (cases "get_acq l av")
    case None
    then show ?thesis using discover
      by (auto simp: discover_def get_acq_def row_of_append)
  next
    case (Some e)
    then show ?thesis using discover discover_known(2) [OF Some] by auto
  qed
next
  case (set_release_date l av d)
  then show ?case
    by (auto simp: set_release_date_def Let_def get_acq_def row_of_update_where [where key = aq_avid])
next
  case (begin_replacement l av source dir paths now)
  then show ?case
    by (auto simp: begin_replacement_def Let_def get_acq_update_acq split: option.splits)
       (auto simp: get_acq_def row_of_append)
next
  case (transition l av e t now note' nxt paths b l')
  then show ?case
    using get_acq_transition [OF transition(1)] transition_InrD [OF transition(1)]
    by (auto simp: acq_edge_def)
next
  case (add_attempts l av cs now n l')
  then show ?case
    using add_attempts_cases [OF add_attempts(1)] by (auto simp: Let_def)
next
  case (claim_attempt l av n now a l')
  then show ?case
    by (auto simp: claim_attempt_def Let_def split: option.splits if_splits)
next
  case (transition_attempt l av n e t now err b l')
  then show ?case
    by (auto simp: transition_attempt_def Let_def split: if_splits)
next
  case (record_progress l av n s pr now b l')
  then show ?case
    by (auto simp: record_progress_def Let_def split: if_splits)
qed simp

text \<open>
  C6: A title in the library is never downloaded again behind the operator's back: an
  archived row is never removed, and the only step that can take it out of the archived
  state is a replacement, which puts it back to discovered and records which files it will
  replace and after which attempt.
\<close>

theorem archived_left_only_by_replacement:
  assumes "ledger_step l l'" and "get_acq l avid = Some r" and "aq_state r = Archived"
  shows "\<exists>r'. get_acq l' avid = Some r'
    \<and> (aq_state r' \<noteq> Archived \<longrightarrow> aq_state r' = Discovered \<and> aq_replace_paths_json r' \<noteq> None
         \<and> aq_replace_after_attempt r' = Some (max_attempt_no l avid))"
  using step_acq_moves [OF assms(1,2)] assms(3) by (auto simp: acq_edge_def)

theorem archived_left_only_by_replacement_witness:
  "\<exists>r'. get_acq (snd (begin_replacement (demo_ledger Archived AArchived AError) ''ABC-123'' ''manual'' ''/in''
       [''lib/ABC-123.mp4''] 5)) ''ABC-123'' = Some r'
     \<and> (aq_state r' \<noteq> Archived \<longrightarrow> aq_replace_paths_json r' \<noteq> None)"
  using archived_left_only_by_replacement
    [OF ledger_step.begin_replacement get_acq_demo, of Archived AArchived AError]
  by simp blast

end
