(* ===== verification/Coroutines.thy ===== *)
theory Coroutines
  imports Prelude
begin

text \<open>
  Coroutines over a state the component chooses: a run ends with a value, with an exception,
  or not within the steps its recursion allows, and leaves the state behind. The locale
  \<open>io_relation\<close> is the interface through which a relation between the states before and
  after is carried over all control flow; the monitor and the merge service interpret it.
\<close>

section \<open>Control flow\<close>

text \<open>
  What a coroutine ends with: a value, an exception, or no end within the steps allowed to
  its recursion.
\<close>

datatype ('a, 'e) outcome = Value 'a | Raised 'e | Stuck

type_synonym ('w, 'e, 'a) prog = "'w \<Rightarrow> ('a, 'e) outcome \<times> 'w"

definition ret :: "'a \<Rightarrow> ('w, 'e, 'a) prog" where
  "ret a w = (Value a, w)"

definition raise_io :: "'e \<Rightarrow> ('w, 'e, 'a) prog" where
  "raise_io e w = (Raised e, w)"

definition stuck :: "('w, 'e, 'a) prog" where
  "stuck w = (Stuck, w)"

definition bind_io :: "('w, 'e, 'a) prog \<Rightarrow> ('a \<Rightarrow> ('w, 'e, 'b) prog) \<Rightarrow> ('w, 'e, 'b) prog" where
  "bind_io m f w =
     (case m w of
        (Value a, w') \<Rightarrow> f a w'
      | (Raised e, w') \<Rightarrow> (Raised e, w')
      | (Stuck, w') \<Rightarrow> (Stuck, w'))"

text \<open>\<^verbatim>\<open>try: m except Exception as e: h(e)\<close>.\<close>

definition catch_io :: "('w, 'e, 'a) prog \<Rightarrow> ('e \<Rightarrow> ('w, 'e, 'a) prog) \<Rightarrow> ('w, 'e, 'a) prog" where
  "catch_io m h w =
     (case m w of
        (Raised e, w') \<Rightarrow> h e w'
      | r \<Rightarrow> r)"

text \<open>\<^verbatim>\<open>try: m finally: k\<close>: the cleanup runs either way, and its own exception wins.\<close>

definition finally_io :: "('w, 'e, 'a) prog \<Rightarrow> ('w, 'e, 'b) prog \<Rightarrow> ('w, 'e, 'a) prog" where
  "finally_io m k w =
     (case m w of
        (Stuck, w') \<Rightarrow> (Stuck, w')
      | (r, w') \<Rightarrow>
          (case k w' of
             (Value _, w'') \<Rightarrow> (r, w'')
           | (Raised e, w'') \<Rightarrow> (Raised e, w'')
           | (Stuck, w'') \<Rightarrow> (Stuck, w'')))"

primrec each_io :: "('a \<Rightarrow> ('w, 'e, unit) prog) \<Rightarrow> 'a list \<Rightarrow> ('w, 'e, unit) prog" where
  "each_io f [] = ret ()"
| "each_io f (x # xs) = bind_io (f x) (\<lambda>_. each_io f xs)"

section \<open>Reasoning about coroutines\<close>

text \<open>
  A relation between the world before and after that every primitive respects is respected
  by every coroutine built from them, whatever it ends with.
\<close>

locale io_relation =
  fixes R :: "'w \<Rightarrow> 'w \<Rightarrow> bool"
  assumes R_refl: "R w w" and R_trans: "R w w' \<Longrightarrow> R w' w'' \<Longrightarrow> R w w''"
begin

definition keeps :: "('w, 'e, 'a) prog \<Rightarrow> bool" where
  "keeps m \<longleftrightarrow> (\<forall>w. R w (snd (m w)))"

lemma keeps_ret: "keeps (ret a)"
  by (simp add: keeps_def ret_def R_refl)

lemma keeps_raise: "keeps (raise_io e)"
  by (simp add: keeps_def raise_io_def R_refl)

lemma keeps_stuck: "keeps stuck"
  by (simp add: keeps_def stuck_def R_refl)

lemma keeps_bind: "keeps m \<Longrightarrow> (\<And>a. keeps (f a)) \<Longrightarrow> keeps (bind_io m f)"
  unfolding keeps_def bind_io_def
  by (auto split: prod.splits outcome.splits) (metis R_trans snd_conv)+

lemma keeps_catch: "keeps m \<Longrightarrow> (\<And>e. keeps (h e)) \<Longrightarrow> keeps (catch_io m h)"
  unfolding keeps_def catch_io_def
  by (auto split: prod.splits outcome.splits) (metis R_trans snd_conv)+

lemma keeps_finally: "keeps m \<Longrightarrow> keeps k \<Longrightarrow> keeps (finally_io m k)"
  unfolding keeps_def finally_io_def
  by (auto split: prod.splits outcome.splits) (metis R_trans snd_conv)+

lemma keeps_each: "(\<And>x. keeps (f x)) \<Longrightarrow> keeps (each_io f xs)"
  by (induction xs) (simp_all add: keeps_ret keeps_bind)

lemma keeps_each_in: "(\<And>x. x \<in> set xs \<Longrightarrow> keeps (f x)) \<Longrightarrow> keeps (each_io f xs)"
  by (induction xs) (simp_all add: keeps_ret keeps_bind)

lemma keeps_if: "(c \<Longrightarrow> keeps m) \<Longrightarrow> (\<not> c \<Longrightarrow> keeps k) \<Longrightarrow> keeps (if c then m else k)"
  by simp

lemma keeps_option: "keeps m \<Longrightarrow> (\<And>x. keeps (f x)) \<Longrightarrow> keeps (case_option m f o')"
  by (cases o') simp_all

lemma keeps_sum: "(\<And>x. keeps (f x)) \<Longrightarrow> (\<And>x. keeps (g x)) \<Longrightarrow> keeps (case_sum f g s)"
  by (cases s) simp_all

lemma keeps_prod: "(\<And>a b. keeps (f a b)) \<Longrightarrow> keeps (case_prod f p)"
  by (cases p) simp_all

lemma keeps_let: "(\<And>x. keeps (f x)) \<Longrightarrow> keeps (Let a f)"
  by simp

text \<open>The same with what is known of the value the first part hands on.\<close>

lemma keeps_bind_yields:
  assumes "keeps m" and "\<And>a w w'. m w = (Value a, w') \<Longrightarrow> Q a" and "\<And>a. Q a \<Longrightarrow> keeps (f a)"
  shows "keeps (bind_io m f)"
  using assms unfolding keeps_def bind_io_def
  by (auto split: prod.splits outcome.splits) (metis R_trans snd_conv)+

text \<open>The same at one run, with what the first part handed on there.\<close>

lemma bind_run:
  assumes "R w (snd (m w))" and "\<And>a w'. m w = (Value a, w') \<Longrightarrow> R w' (snd (f a w'))"
  shows "R w (snd (bind_io m f w))"
  using assms by (cases "m w"; cases "fst (m w)") (auto simp: bind_io_def intro: R_trans)

lemma catch_run:
  assumes "R w (snd (m w))" and "\<And>e w'. m w = (Raised e, w') \<Longrightarrow> R w' (snd (h e w'))"
  shows "R w (snd (catch_io m h w))"
  using assms by (cases "m w"; cases "fst (m w)") (auto simp: catch_io_def intro: R_trans)

lemma keeps_run: "keeps m \<Longrightarrow> R w (snd (m w))"
  by (simp add: keeps_def)

lemmas keeps_flow = keeps_ret keeps_raise keeps_stuck keeps_bind keeps_catch keeps_finally keeps_each
  keeps_if keeps_option keeps_sum keeps_prod keeps_let

end

section \<open>Running a coroutine\<close>

lemma bind_io_Value_iff:
  "bind_io m f w = (Value b, w'') \<longleftrightarrow> (\<exists>a w'. m w = (Value a, w') \<and> f a w' = (Value b, w''))"
  by (auto simp: bind_io_def split: prod.splits outcome.splits)

lemma bind_io_run: "m w = (Value a, w') \<Longrightarrow> bind_io m f w = f a w'"
  by (simp add: bind_io_def)

lemma bind_io_raised: "m w = (Raised e, w') \<Longrightarrow> bind_io m f w = (Raised e, w')"
  by (simp add: bind_io_def)

end
