(* ===== verification/Effects.thy ===== *)
theory Effects
  imports Ledger_Replicas Coroutines
begin

text \<open>
  The world the monitor's coroutines run in: the ledger, a tick that advances at every await
  the model distinguishes, the log of what was asked of CloudDrive and of the library, and
  the run's counters (\<^verbatim>\<open>RunContext.stats\<close> of \<^verbatim>\<open>monitor/reports.py\<close>).
  What the process does not decide itself is a field of \<open>services\<close>: the clock, the
  cancellation token, the answers of CloudDrive, of the magnet sites, of the catalog and of
  the file system, each free to differ at every tick; and what the other replicas and the
  operators do to the ledger between two statements of this process. Log lines are not
  modelled.
\<close>

section \<open>Answers of the outside\<close>

text \<open>
  What an external call raises: a gRPC error with its details, another error the retry
  policy knows (httpx, timeouts, OSError), a missing file, a ValueError, or anything else.
\<close>

datatype service_failure = RpcError "string option" | TransportError | NotFound | BadValue | OtherError

datatype failure =
  LedgerError ledger_error
  | Refused string
  | ServiceError service_failure
  | RunCancelled

datatype offline_status = OFFLINE_INIT | OFFLINE_DOWNLOADING | OFFLINE_FINISHED | OFFLINE_ERROR
  | OFFLINE_UNKNOWN

record offline_task =
  ot_name :: string
  ot_status :: offline_status
  ot_info_hash :: string
  ot_progress :: int

datatype archive_outcome = OArchived | OJunk | ONeedsAttention | OFailed

record archive_result =
  ar_outcome :: archive_outcome
  ar_avid :: string
  ar_paths :: "string list"
  ar_reason :: string

text \<open>The videos of one folder, \<^verbatim>\<open>_VideoSet\<close>.\<close>

record video_set =
  vs_avid :: string
  vs_videos :: "string list"

datatype effect =
  AddOffline string string
  | RemoveOffline "string list" string bool
  | DeleteFiles "string list"
  | FileFolder string string string
  | NotifySubmission

record services =
  sv_others :: "nat \<Rightarrow> ledger \<Rightarrow> ledger"
  sv_clock :: "nat \<Rightarrow> datetime"
  sv_stop :: "nat \<Rightarrow> bool"
  sv_sukebei :: "nat \<Rightarrow> string \<Rightarrow> service_failure + string option"
  sv_javbus :: "nat \<Rightarrow> string \<Rightarrow> service_failure + (string \<times> int) list"
  sv_search :: "nat \<Rightarrow> string \<Rightarrow> service_failure + (string \<times> date option) list"
  sv_cloud_ready :: "nat \<Rightarrow> bool"
  sv_add_offline :: "nat \<Rightarrow> string \<Rightarrow> string \<Rightarrow> service_failure + bool"
  sv_list_offline :: "nat \<Rightarrow> string \<Rightarrow> service_failure + offline_task list"
  sv_remove_offline :: "nat \<Rightarrow> string list \<Rightarrow> string \<Rightarrow> bool \<Rightarrow> service_failure option"
  sv_list_directory :: "nat \<Rightarrow> string \<Rightarrow> service_failure + (string \<times> bool) list"
  sv_delete_files :: "nat \<Rightarrow> string list \<Rightarrow> service_failure option"
  sv_is_dir :: "nat \<Rightarrow> string \<Rightarrow> bool"
  sv_iterdir :: "nat \<Rightarrow> string \<Rightarrow> service_failure + string list"
  sv_avid_of :: "string \<Rightarrow> string"
  sv_archive_folder :: "nat \<Rightarrow> string \<Rightarrow> string \<Rightarrow> bool \<Rightarrow> string \<Rightarrow> service_failure + archive_result"
  sv_inspect_folder :: "nat \<Rightarrow> string \<Rightarrow> string \<Rightarrow> service_failure + archive_result + video_set"
  sv_file_selection :: "nat \<Rightarrow> string \<Rightarrow> video_set \<Rightarrow> string \<Rightarrow> bool \<Rightarrow> service_failure + archive_result"
  sv_replaced_copies :: "nat \<Rightarrow> string \<Rightarrow> string list \<Rightarrow> service_failure + string list"
  sv_holdings :: "nat \<Rightarrow> string \<Rightarrow> string option \<Rightarrow> service_failure + string list"

section \<open>The world and its coroutines\<close>

record world =
  w_ledger :: ledger
  w_tick :: nat
  w_log :: "effect list"
  w_stats :: "string \<Rightarrow> int"
  w_misses :: "(string \<times> datetime) list"

type_synonym 'a io = "(world, failure, 'a) prog"

text \<open>A statement of the repository, after whatever the other replicas did meanwhile.\<close>

definition db :: "services \<Rightarrow> (ledger \<Rightarrow> 'a \<times> ledger) \<Rightarrow> 'a io" where
  "db sv f w =
     (case f (sv_others sv (w_tick w) (w_ledger w)) of
        (a, l) \<Rightarrow> (Value a, w\<lparr>w_ledger := l, w_tick := Suc (w_tick w)\<rparr>))"

definition db_try :: "services \<Rightarrow> (ledger \<Rightarrow> ledger_error + 'a \<times> ledger) \<Rightarrow> 'a io" where
  "db_try sv f w =
     (let l = sv_others sv (w_tick w) (w_ledger w)
      in case f l of
           Inl e \<Rightarrow> (Raised (LedgerError e), w\<lparr>w_ledger := l, w_tick := Suc (w_tick w)\<rparr>)
         | Inr (a, l') \<Rightarrow> (Value a, w\<lparr>w_ledger := l', w_tick := Suc (w_tick w)\<rparr>))"

definition db_read :: "services \<Rightarrow> (ledger \<Rightarrow> 'a) \<Rightarrow> 'a io" where
  "db_read sv f = db sv (\<lambda>l. (f l, l))"

text \<open>A question to the outside that changes nothing of ours, and one that does something there.\<close>

definition ask :: "(nat \<Rightarrow> 'a) \<Rightarrow> 'a io" where
  "ask q w = (Value (q (w_tick w)), w\<lparr>w_tick := Suc (w_tick w)\<rparr>)"

definition act :: "effect \<Rightarrow> (nat \<Rightarrow> 'a) \<Rightarrow> 'a io" where
  "act e q w = (Value (q (w_tick w)), w\<lparr>w_tick := Suc (w_tick w), w_log := w_log w @ [e]\<rparr>)"

definition now_io :: "services \<Rightarrow> datetime io" where
  "now_io sv = ask (sv_clock sv)"

definition check_cancelled :: "services \<Rightarrow> unit io" where
  "check_cancelled sv = bind_io (ask (sv_stop sv)) (\<lambda>stop. if stop then raise_io RunCancelled else ret ())"

definition or_raise :: "service_failure + 'a \<Rightarrow> 'a io" where
  "or_raise r = (case r of Inl e \<Rightarrow> raise_io (ServiceError e) | Inr a \<Rightarrow> ret a)"

definition add_stat :: "string \<Rightarrow> int \<Rightarrow> unit io" where
  "add_stat counter amount w =
     (Value (), w\<lparr>w_stats := (w_stats w)(counter := w_stats w counter + amount)\<rparr>)"

definition set_stat :: "string \<Rightarrow> int \<Rightarrow> unit io" where
  "set_stat counter value w = (Value (), w\<lparr>w_stats := (w_stats w)(counter := value)\<rparr>)"

text \<open>The relation the monitor's coroutines are read through, with their failures.\<close>

locale world_relation = io_relation R for R :: "world \<Rightarrow> world \<Rightarrow> bool"
begin

lemma keeps_or_raise: "keeps (or_raise r)"
  by (cases r) (simp_all add: or_raise_def keeps_ret keeps_raise)

lemmas keeps_control = keeps_flow keeps_or_raise

end

section \<open>The ledger only moves by the repository's steps\<close>

definition replicas_ok :: "services \<Rightarrow> bool" where
  "replicas_ok sv \<longleftrightarrow> (\<forall>n l. ledger_step\<^sup>*\<^sup>* l (sv_others sv n l))"

definition ledger_moves :: "services \<Rightarrow> world \<Rightarrow> world \<Rightarrow> bool" where
  "ledger_moves sv w w' \<longleftrightarrow> (replicas_ok sv \<longrightarrow> ledger_step\<^sup>*\<^sup>* (w_ledger w) (w_ledger w'))"

interpretation lm: world_relation "ledger_moves sv" for sv
  by unfold_locales (auto simp: ledger_moves_def)

lemma lm_db: "(\<And>l. ledger_step\<^sup>*\<^sup>* l (snd (f l))) \<Longrightarrow> lm.keeps sv (db sv f)"
  unfolding lm.keeps_def ledger_moves_def replicas_ok_def db_def
  by (auto split: prod.splits) (metis rtranclp_trans snd_conv)

lemma lm_db_read: "lm.keeps sv (db_read sv f)"
  unfolding db_read_def by (rule lm_db) simp

lemma lm_db_try:
  "(\<And>l a l'. f l = Inr (a, l') \<Longrightarrow> ledger_step\<^sup>*\<^sup>* l l') \<Longrightarrow> lm.keeps sv (db_try sv f)"
  unfolding lm.keeps_def ledger_moves_def replicas_ok_def db_try_def
  by (auto simp: Let_def split: prod.splits sum.splits) (metis rtranclp_trans)

lemma lm_ask: "lm.keeps sv (ask q)"
  by (simp add: lm.keeps_def ledger_moves_def ask_def)

lemma lm_now: "lm.keeps sv (now_io sv')"
  by (simp add: now_io_def lm_ask)

lemma lm_act: "lm.keeps sv (act e q)"
  by (simp add: lm.keeps_def ledger_moves_def act_def)

lemma lm_stat: "lm.keeps sv (add_stat c n)" "lm.keeps sv (set_stat c n)"
  by (simp_all add: lm.keeps_def ledger_moves_def add_stat_def set_stat_def)

lemma lm_check: "lm.keeps sv (check_cancelled sv')"
  unfolding check_cancelled_def by (intro lm.keeps_control lm_ask)

lemmas lm_basic = lm.keeps_control lm_db_read lm_ask lm_now lm_act lm_stat lm_check

text \<open>The repository's calls as a coroutine makes them.\<close>

lemma lm_discover: "lm.keeps sv (db sv (\<lambda>l. discover l avid source now dir nxt rd wake yields))"
  by (rule lm_db) (blast intro: ledger_step.discover)

lemma lm_set_release_date: "lm.keeps sv (db sv (\<lambda>l. set_release_date l avid d))"
  by (rule lm_db) (blast intro: ledger_step.set_release_date)

lemma lm_begin_replacement: "lm.keeps sv (db sv (\<lambda>l. begin_replacement l avid source dir paths now))"
  by (rule lm_db) (blast intro: ledger_step.begin_replacement)

lemma lm_transition: "lm.keeps sv (db_try sv (\<lambda>l. transition l avid e t now note' nxt paths))"
  by (rule lm_db_try) (blast intro: ledger_step.transition)

lemma lm_add_attempts: "lm.keeps sv (db_try sv (\<lambda>l. add_attempts l avid cs now))"
  by (rule lm_db_try) (blast intro: ledger_step.add_attempts)

lemma lm_claim_next: "lm.keeps sv (db sv (\<lambda>l. claim_next_pending l avid now))"
  by (rule lm_db)
     (auto simp: claim_next_pending_def split: prod.splits intro: ledger_step.claim_next_pending)

lemma lm_claim_attempt: "lm.keeps sv (db_try sv (\<lambda>l. claim_attempt l avid no now))"
  by (rule lm_db_try) (blast intro: ledger_step.claim_attempt)

lemma lm_transition_attempt: "lm.keeps sv (db_try sv (\<lambda>l. transition_attempt l avid no e t now err))"
  by (rule lm_db_try) (blast intro: ledger_step.transition_attempt)

lemma lm_record_progress: "lm.keeps sv (db_try sv (\<lambda>l. record_progress l avid no s pr now))"
  by (rule lm_db_try) (blast intro: ledger_step.record_progress)

lemmas lm_calls = lm_discover lm_set_release_date lm_begin_replacement lm_transition lm_add_attempts
  lm_claim_next lm_claim_attempt lm_transition_attempt lm_record_progress

lemma lm_keepsD:
  "lm.keeps sv m \<Longrightarrow> replicas_ok sv \<Longrightarrow> ledger_step\<^sup>*\<^sup>* (w_ledger w) (w_ledger (snd (m w)))"
  by (simp add: lm.keeps_def ledger_moves_def)

section \<open>Coroutines that leave the ledger alone, and time\<close>

interpretation frame: world_relation "\<lambda>w w'. w_ledger w' = w_ledger w \<and> w_tick w \<le> w_tick w'"
  by unfold_locales auto

lemma frame_ask: "frame.keeps (ask q)"
  by (simp add: frame.keeps_def ask_def)

lemma frame_act: "frame.keeps (act e q)"
  by (simp add: frame.keeps_def act_def)

lemma frame_now: "frame.keeps (now_io sv)"
  by (simp add: now_io_def frame_ask)

lemma frame_stat: "frame.keeps (add_stat c n)" "frame.keeps (set_stat c n)"
  by (simp_all add: frame.keeps_def add_stat_def set_stat_def)

lemmas frame_basic = frame.keeps_control frame_ask frame_act frame_now frame_stat

lemma frameD: "frame.keeps m \<Longrightarrow> w_ledger (snd (m w)) = w_ledger w \<and> w_tick w \<le> w_tick (snd (m w))"
  by (simp add: frame.keeps_def)

interpretation ticks: world_relation "\<lambda>w w'. w_tick w \<le> w_tick w'"
  by unfold_locales auto

lemma frame_ticks: "frame.keeps m \<Longrightarrow> ticks.keeps m"
  by (simp add: frame.keeps_def ticks.keeps_def)

lemma ticks_db: "ticks.keeps (db sv f)" "ticks.keeps (db_read sv f)" "ticks.keeps (db_try sv g)"
  by (auto simp: ticks.keeps_def db_read_def db_def db_try_def Let_def split: prod.splits sum.splits)

lemmas ticks_basic = ticks.keeps_control ticks_db frame_ticks [OF frame_ask] frame_ticks [OF frame_act]
  frame_ticks [OF frame_now] frame_stat [THEN frame_ticks]

section \<open>Sequential runs\<close>

text \<open>No other replica: the sequential runs.\<close>

definition quiet :: "services \<Rightarrow> bool" where
  "quiet sv \<longleftrightarrow> (\<forall>n l. sv_others sv n l = l)"

definition at_ledger :: "world \<Rightarrow> ledger \<Rightarrow> world" where
  "at_ledger w l = w\<lparr>w_ledger := l, w_tick := Suc (w_tick w)\<rparr>"

lemma at_ledger_simps [simp]:
  "w_ledger (at_ledger w l) = l" "w_tick (at_ledger w l) = Suc (w_tick w)"
  "w_log (at_ledger w l) = w_log w" "w_misses (at_ledger w l) = w_misses w"
  by (simp_all add: at_ledger_def)

lemma db_quiet: "quiet sv \<Longrightarrow> db sv f w = (Value (fst (f (w_ledger w))), at_ledger w (snd (f (w_ledger w))))"
  by (simp add: db_def quiet_def at_ledger_def split: prod.splits)

lemma db_read_quiet: "quiet sv \<Longrightarrow> db_read sv f w = (Value (f (w_ledger w)), at_ledger w (w_ledger w))"
  by (simp add: db_read_def db_quiet)

lemma db_try_quiet:
  "quiet sv \<Longrightarrow> db_try sv f w =
     (case f (w_ledger w) of
        Inl e \<Rightarrow> (Raised (LedgerError e), at_ledger w (w_ledger w))
      | Inr (a, l) \<Rightarrow> (Value a, at_ledger w l))"
  by (simp add: db_try_def quiet_def at_ledger_def Let_def split: prod.splits sum.splits)

lemma now_io_run: "now_io sv w = (Value (sv_clock sv (w_tick w)), at_ledger w (w_ledger w))"
  by (simp add: now_io_def ask_def at_ledger_def)

section \<open>What is asked of the outside\<close>

text \<open>Every effect a coroutine adds to the log satisfies a predicate.\<close>

definition emits :: "(effect \<Rightarrow> bool) \<Rightarrow> world \<Rightarrow> world \<Rightarrow> bool" where
  "emits P w w' \<longleftrightarrow> (\<exists>es. w_log w' = w_log w @ es \<and> list_all P es)"

interpretation em: world_relation "emits P" for P
proof
  show "emits P w w" for w by (auto simp: emits_def intro: exI [of _ "[]"])
  show "emits P w w''" if "emits P w w'" "emits P w' w''" for w w' w''
    using that unfolding emits_def by (metis append.assoc list_all_append)
qed

lemma em_db: "em.keeps P (db sv f)" "em.keeps P (db_read sv g)" "em.keeps P (db_try sv h)"
  by (auto simp: em.keeps_def emits_def db_read_def db_def db_try_def Let_def split: prod.splits sum.splits)

lemma em_ask: "em.keeps P (ask q)" "em.keeps P (now_io sv)"
  by (simp_all add: em.keeps_def emits_def ask_def now_io_def)

lemma em_act: "P e \<Longrightarrow> em.keeps P (act e q)"
  by (simp add: em.keeps_def emits_def act_def)

lemma em_stat: "em.keeps P (add_stat c n)" "em.keeps P (set_stat c n)"
  by (simp_all add: em.keeps_def emits_def add_stat_def set_stat_def)

lemmas em_basic = em.keeps_control em_db em_ask em_stat

lemma em_bind_query:
  assumes "\<And>n a. q n = Inr a \<Longrightarrow> em.keeps P (f a)"
  shows "em.keeps P (bind_io (bind_io (ask q) or_raise) f)"
proof (rule em.keeps_bind_yields [where Q = "\<lambda>a. \<exists>n. q n = Inr a"])
  show "em.keeps P (bind_io (ask q) or_raise)" by (intro em_basic)
  show "\<exists>n. q n = Inr a" if "bind_io (ask q) or_raise w = (Value a, w')" for a w w'
    using that by (auto simp: bind_io_def ask_def or_raise_def raise_io_def ret_def split: sum.splits)
qed (use assms in auto)

lemma emitsD: "em.keeps P m \<Longrightarrow> e \<in> set (w_log (snd (m w))) \<Longrightarrow> e \<in> set (w_log w) \<or> P e"
  by (auto simp: em.keeps_def emits_def list_all_iff) (metis Un_iff set_append)

section \<open>A concrete outside\<close>

text \<open>
  A quiet deployment with a clock that counts seconds, a CloudDrive that accepts every
  magnet and lists nothing, magnet sites that know nothing and an archive that files what
  it is given: the instance the examples run in.
\<close>

definition demo_services :: services where
  "demo_services =
     \<lparr>sv_others = (\<lambda>_ l. l), sv_clock = (\<lambda>n. seconds (int n)), sv_stop = (\<lambda>_. False),
      sv_sukebei = (\<lambda>_ _. Inr None), sv_javbus = (\<lambda>_ _. Inr []), sv_search = (\<lambda>_ _. Inr []),
      sv_cloud_ready = (\<lambda>_. True), sv_add_offline = (\<lambda>_ _ _. Inr True),
      sv_list_offline = (\<lambda>_ _. Inr []), sv_remove_offline = (\<lambda>_ _ _ _. None),
      sv_list_directory = (\<lambda>_ _. Inr []), sv_delete_files = (\<lambda>_ _. None),
      sv_is_dir = (\<lambda>_ _. True), sv_iterdir = (\<lambda>_ _. Inr []), sv_avid_of = (\<lambda>s. s),
      sv_archive_folder = (\<lambda>_ folder dst _ avid.
         Inr \<lparr>ar_outcome = OArchived, ar_avid = avid, ar_paths = [], ar_reason = []\<rparr>),
      sv_inspect_folder = (\<lambda>_ folder avid. Inr (Inr \<lparr>vs_avid = avid, vs_videos = []\<rparr>)),
      sv_file_selection = (\<lambda>_ folder videos dst _.
         Inr \<lparr>ar_outcome = OArchived, ar_avid = vs_avid videos, ar_paths = [], ar_reason = []\<rparr>),
      sv_replaced_copies = (\<lambda>_ _ _. Inr []), sv_holdings = (\<lambda>_ _ _. Inr [''lib/ABC/ABC-123.mp4''])\<rparr>"

definition demo_world :: "ledger \<Rightarrow> world" where
  "demo_world l = \<lparr>w_ledger = l, w_tick = 0, w_log = [], w_stats = (\<lambda>_. 0), w_misses = []\<rparr>"

lemma demo_services_simps [simp]:
  "sv_others demo_services n l = l" "sv_clock demo_services n = seconds (int n)" "\<not> sv_stop demo_services n"
  "sv_sukebei demo_services n s = Inr None" "sv_javbus demo_services n s = Inr []"
  "sv_search demo_services n s = Inr []" "sv_cloud_ready demo_services n"
  "sv_add_offline demo_services n s d = Inr True" "sv_list_offline demo_services n s = Inr []"
  "sv_remove_offline demo_services n hs s b = None" "sv_list_directory demo_services n s = Inr []"
  "sv_delete_files demo_services n hs = None" "sv_is_dir demo_services n s"
  "sv_iterdir demo_services n s = Inr []" "sv_avid_of demo_services s = s"
  "sv_archive_folder demo_services n f d b a
     = Inr \<lparr>ar_outcome = OArchived, ar_avid = a, ar_paths = [], ar_reason = []\<rparr>"
  "sv_inspect_folder demo_services n f a = Inr (Inr \<lparr>vs_avid = a, vs_videos = []\<rparr>)"
  "sv_replaced_copies demo_services n a hs = Inr []" "sv_holdings demo_services n a d' = Inr [''lib/ABC/ABC-123.mp4'']"
  by (simp_all add: demo_services_def)

lemma demo_quiet: "quiet demo_services"
  by (simp add: quiet_def demo_services_def)

lemma demo_replicas: "replicas_ok demo_services"
  by (simp add: replicas_ok_def demo_services_def)

lemma demo_clock: "mono (sv_clock demo_services)"
  by (auto simp: demo_services_def mono_def)

lemma demo_world_simps [simp]:
  "w_ledger (demo_world l) = l" "w_tick (demo_world l) = 0" "w_log (demo_world l) = []"
  "w_misses (demo_world l) = []"
  by (simp_all add: demo_world_def)

end
