(* ===== verification/Intake.thy ===== *)
theory Intake
  imports Effects Cadence Magnet
begin

text \<open>
  \<^verbatim>\<open>monitor/intake.py\<close> and \<^verbatim>\<open>monitor/release_dates.py\<close>: from one AVID to its
  first offline task. Each coroutine of the source is one definition, with an await per
  repository call and per external call; the recursion of \<^verbatim>\<open>_submit_next\<close> carries
  fuel, and the theorems say how much is enough.
\<close>

section \<open>Release dates\<close>

record intake_settings =
  is_failed_cooldown :: timedelta
  is_notifies :: bool
  is_has_lookup :: bool

definition MISS_TTL :: timedelta where
  "MISS_TTL = days 7"

text \<open>\<^verbatim>\<open>ReleaseDateFinder.__call__\<close>; ASCII AVIDs, so casefold is the case mapping.\<close>

definition wanted_date :: "string \<Rightarrow> (string \<times> date option) list \<Rightarrow> date option" where
  "wanted_date avid works =
     (case find (\<lambda>w. upper (fst w) = upper avid \<and> snd w \<noteq> None) works of
        None \<Rightarrow> None
      | Some w \<Rightarrow> snd w)"

definition find_release_date :: "services \<Rightarrow> string \<Rightarrow> date option io" where
  "find_release_date sv avid =
     bind_io (now_io sv) (\<lambda>now w.
       if (case map_of (w_misses w) avid of None \<Rightarrow> False | Some t \<Rightarrow> now - t < MISS_TTL)
       then (Value None, w)
       else
         bind_io (ask (\<lambda>n. sv_search sv n avid)) (\<lambda>r w.
           case r of
             Inl _ \<Rightarrow> (Value None, w)
           | Inr works \<Rightarrow>
               (case wanted_date avid works of
                  Some d \<Rightarrow> (Value (Some d), w\<lparr>w_misses := filter (\<lambda>m. fst m \<noteq> avid) (w_misses w)\<rparr>)
                | None \<Rightarrow> (Value None, w\<lparr>w_misses := (avid, now) # w_misses w\<rparr>))) w)"

definition ensure_release_date :: "services \<Rightarrow> bool \<Rightarrow> acquisition \<Rightarrow> date option io" where
  "ensure_release_date sv has_lookup record =
     (if aq_release_date record \<noteq> None \<or> \<not> has_lookup then ret (aq_release_date record)
      else
        bind_io (find_release_date sv (aq_avid record)) (\<lambda>found.
          case found of
            None \<Rightarrow> ret None
          | Some d \<Rightarrow> bind_io (db sv (\<lambda>l. set_release_date l (aq_avid record) d)) (\<lambda>_. ret (Some d))))"

section \<open>Magnet resolution\<close>

datatype intake_outcome = SUBMITTED | QUEUED | ALREADY_TRACKED | NO_MAGNET | SUBMIT_FAILED

fun outcome_text :: "intake_outcome \<Rightarrow> string" where
  "outcome_text SUBMITTED = ''submitted''"
| "outcome_text QUEUED = ''queued''"
| "outcome_text ALREADY_TRACKED = ''already_tracked''"
| "outcome_text NO_MAGNET = ''no_magnet''"
| "outcome_text SUBMIT_FAILED = ''submit_failed''"

definition MAX_CANDIDATES :: nat where
  "MAX_CANDIDATES = 5"

definition PARKABLE_STATES :: "acq_state list" where
  "PARKABLE_STATES = Discovered # RETRYABLE_STATES"

text \<open>\<^verbatim>\<open>magnet.lower().startswith('magnet:')\<close>.\<close>

definition is_magnet_link :: "string \<Rightarrow> bool" where
  "is_magnet_link m \<longleftrightarrow> upper (take 7 m) = ''MAGNET:''"

text \<open>The closure \<^verbatim>\<open>collect\<close> on its two variables, the hashes seen and the candidates.\<close>

definition collect ::
  "string option \<Rightarrow> string \<Rightarrow> int option \<Rightarrow> string list \<times> candidate list \<Rightarrow> string list \<times> candidate list" where
  "collect magnet source size_hint st =
     (case magnet of
        None \<Rightarrow> st
      | Some m \<Rightarrow>
          (if \<not> is_magnet_link m then st
           else
             (case extract_info_hash m of
                None \<Rightarrow> st
              | Some h \<Rightarrow>
                  (if h \<in> set (fst st) then st
                   else (h # fst st,
                         snd st @ [\<lparr>cd_magnet = m, cd_info_hash = Some h, cd_source = source,
                                    cd_size_hint = size_hint\<rparr>])))))"

definition resolve :: "services \<Rightarrow> string \<Rightarrow> string option \<Rightarrow> candidate list io" where
  "resolve sv avid item_magnet =
     bind_io (bind_io (ask (\<lambda>n. sv_sukebei sv n avid)) or_raise) (\<lambda>first.
       let st = collect item_magnet ''rss_item'' None (collect first ''sukebei'' None ([], []))
       in bind_io (ask (\<lambda>n. sv_javbus sv n avid)) (\<lambda>r.
            let st' = (case r of
                         Inl _ \<Rightarrow> st
                       | Inr magnets \<Rightarrow> fold (\<lambda>m. collect (Some (fst m)) ''javbus'' (Some (snd m))) magnets st)
            in ret (take MAX_CANDIDATES (snd st'))))"

section \<open>Adding one magnet at CloudDrive\<close>

text \<open>The text of CloudDrive's refusal of a task it has already, as UTF-8 bytes.\<close>

definition TASK_EXISTS :: string where
  "TASK_EXISTS = map char_of [0xE4::nat, 0xBB, 0xBB, 0xE5, 0x8A, 0xA1, 0xE5, 0xB7, 0xB2, 0xE5, 0xAD, 0x98,
     0xE5, 0x9C, 0xA8]"

fun contains :: "string \<Rightarrow> string \<Rightarrow> bool" where
  "contains needle [] \<longleftrightarrow> needle = []"
| "contains needle (c # s) \<longleftrightarrow> take (length needle) (c # s) = needle \<or> contains needle s"

definition already_queued :: "service_failure \<Rightarrow> bool" where
  "already_queued e \<longleftrightarrow> (case e of RpcError (Some details) \<Rightarrow> contains TASK_EXISTS details | _ \<Rightarrow> False)"

definition retryable :: "service_failure \<Rightarrow> bool" where
  "retryable e \<longleftrightarrow> e \<noteq> OtherError \<and> e \<noteq> BadValue"

text \<open>\<^verbatim>\<open>CLOUD_RETRY\<close>: three calls at most, the last exception raised again.\<close>

primrec add_offline_with_retry :: "nat \<Rightarrow> services \<Rightarrow> string \<Rightarrow> string \<Rightarrow> (service_failure + bool) io" where
  "add_offline_with_retry 0 sv link task_dir =
     act (AddOffline link task_dir) (\<lambda>n. sv_add_offline sv n link task_dir)"
| "add_offline_with_retry (Suc k) sv link task_dir =
     bind_io (act (AddOffline link task_dir) (\<lambda>n. sv_add_offline sv n link task_dir)) (\<lambda>r.
       case r of
         Inl e \<Rightarrow> if retryable e then add_offline_with_retry k sv link task_dir else ret r
       | Inr _ \<Rightarrow> ret r)"

datatype add_outcome = Add_Success | Add_Duplicate | Add_Failed

definition add_magnet :: "services \<Rightarrow> string \<Rightarrow> string \<Rightarrow> add_outcome io" where
  "add_magnet sv link task_dir =
     bind_io (add_offline_with_retry 2 sv link task_dir) (\<lambda>r.
       case r of
         Inl e \<Rightarrow>
           (if already_queued e then bind_io (add_stat ''duplicates'' 1) (\<lambda>_. ret Add_Duplicate)
            else bind_io (add_stat ''add_failed'' 1) (\<lambda>_. ret Add_Failed))
       | Inr success \<Rightarrow>
           (if success then bind_io (add_stat ''magnets_added'' 1) (\<lambda>_. ret Add_Success)
            else bind_io (add_stat ''add_failed'' 1) (\<lambda>_. ret Add_Failed)))"

section \<open>Recording and submitting\<close>

fun submit_next :: "nat \<Rightarrow> services \<Rightarrow> intake_settings \<Rightarrow> string \<Rightarrow> string \<Rightarrow> bool io" where
  "submit_next 0 sv st avid task_dir = stuck"
| "submit_next (Suc fuel) sv st avid task_dir =
     bind_io (now_io sv) (\<lambda>now.
     bind_io (db sv (\<lambda>l. claim_next_pending l avid now)) (\<lambda>claimed.
       case claimed of
         None \<Rightarrow> ret False
       | Some attempt \<Rightarrow>
           bind_io (add_magnet sv (at_magnet attempt) task_dir) (\<lambda>outcome.
             if outcome = Add_Failed then
               bind_io (db_try sv (\<lambda>l. transition_attempt l avid (at_no attempt) ASubmitted AError now
                          (Some ''failed to add the offline task''))) (\<lambda>_.
                 submit_next fuel sv st avid task_dir)
             else
               bind_io (if is_notifies st then act NotifySubmission (\<lambda>_. ()) else ret ()) (\<lambda>_.
               bind_io (db_read sv (\<lambda>l. get_acq l avid)) (\<lambda>record.
                 case record of
                   None \<Rightarrow> ret True
                 | Some r \<Rightarrow>
                     (if aq_state r = Downloading then ret True
                      else
                        bind_io (db_try sv (\<lambda>l. transition l avid (aq_state r) Downloading now None None None))
                          (\<lambda>_. ret True)))))))"

definition record_and_submit ::
  "nat \<Rightarrow> services \<Rightarrow> intake_settings \<Rightarrow> string \<Rightarrow> candidate list \<Rightarrow> string \<Rightarrow> bool io" where
  "record_and_submit fuel sv st avid candidates task_dir =
     bind_io (now_io sv) (\<lambda>now.
     bind_io (db_try sv (\<lambda>l. add_attempts l avid candidates now)) (\<lambda>added.
     bind_io (add_stat ''candidates_recorded'' (int added)) (\<lambda>_.
       submit_next fuel sv st avid task_dir)))"

definition repark :: "services \<Rightarrow> intake_settings \<Rightarrow> acquisition \<Rightarrow> string \<Rightarrow> unit io" where
  "repark sv st record note' =
     bind_io (ensure_release_date sv (is_has_lookup st) record) (\<lambda>release_date.
     bind_io (now_io sv) (\<lambda>now.
     bind_io (db_try sv (\<lambda>l. transition l (aq_avid record) (aq_state record) Resolve_Failed now (Some note')
                (Some (next_resolve_at now release_date (is_failed_cooldown st))) None)) (\<lambda>_.
       ret ())))"

definition park_unresolved :: "services \<Rightarrow> intake_settings \<Rightarrow> string \<Rightarrow> unit io" where
  "park_unresolved sv st avid =
     bind_io (db_read sv (\<lambda>l. get_acq l avid)) (\<lambda>record.
       case record of
         None \<Rightarrow> ret ()
       | Some r \<Rightarrow>
           (if aq_state r \<notin> set PARKABLE_STATES then ret ()
            else repark sv st r ''no magnet found''))"

section \<open>The ways in\<close>

definition enqueue ::
  "nat \<Rightarrow> services \<Rightarrow> intake_settings \<Rightarrow> string \<Rightarrow> string \<Rightarrow> string \<Rightarrow> string option \<Rightarrow> date option
     \<Rightarrow> intake_outcome io" where
  "enqueue fuel sv st avid source task_dir item_magnet release_date =
     bind_io (now_io sv) (\<lambda>now.
     bind_io (db sv (\<lambda>l. discover l avid source now (Some task_dir) None release_date
                (item_magnet \<noteq> None) [])) (\<lambda>accepted.
       if \<not> accepted then ret ALREADY_TRACKED
       else
         bind_io (catch_io (resolve sv avid item_magnet) (\<lambda>_. ret [])) (\<lambda>candidates.
           if candidates = [] then bind_io (park_unresolved sv st avid) (\<lambda>_. ret NO_MAGNET)
           else
             bind_io (record_and_submit fuel sv st avid candidates task_dir) (\<lambda>submitted.
               ret (if submitted then SUBMITTED else SUBMIT_FAILED)))))"

definition queue ::
  "services \<Rightarrow> string \<Rightarrow> string \<Rightarrow> string \<Rightarrow> date option \<Rightarrow> intake_outcome io" where
  "queue sv avid source task_dir release_date =
     bind_io (now_io sv) (\<lambda>now.
     bind_io (db sv (\<lambda>l. discover l avid source now (Some task_dir) (Some now) release_date False []))
       (\<lambda>accepted.
         if \<not> accepted then ret ALREADY_TRACKED
         else bind_io (add_stat ''queued'' 1) (\<lambda>_. ret QUEUED)))"

text \<open>Python's \<^verbatim>\<open>record.task_dir_path or fallback\<close>: an empty path is no path.\<close>

definition path_or :: "string option \<Rightarrow> string option \<Rightarrow> string option" where
  "path_or p fallback = (case p of Some (c # cs) \<Rightarrow> Some (c # cs) | _ \<Rightarrow> fallback)"

definition retry ::
  "nat \<Rightarrow> services \<Rightarrow> intake_settings \<Rightarrow> acquisition \<Rightarrow> string option \<Rightarrow> intake_outcome io" where
  "retry fuel sv st record fallback_task_dir =
     (case path_or (aq_task_dir_path record) fallback_task_dir of
        None \<Rightarrow>
          bind_io (repark sv st record ''no offline directory configured'') (\<lambda>_. ret SUBMIT_FAILED)
      | Some task_dir \<Rightarrow>
          bind_io (catch_io (resolve sv (aq_avid record) None) (\<lambda>_. ret [])) (\<lambda>candidates.
          bind_io (if candidates = [] then ret NO_MAGNET
                   else
                     bind_io (record_and_submit fuel sv st (aq_avid record) candidates task_dir)
                       (\<lambda>submitted. ret (if submitted then SUBMITTED else SUBMIT_FAILED))) (\<lambda>outcome.
            if outcome = SUBMITTED then ret SUBMITTED
            else
              bind_io (repark sv st record
                         (if outcome = NO_MAGNET then ''no magnet found'' else ''no magnet accepted''))
                (\<lambda>_. ret outcome))))"

definition retry_due :: "nat \<Rightarrow> services \<Rightarrow> intake_settings \<Rightarrow> string option \<Rightarrow> nat \<Rightarrow> nat io" where
  "retry_due fuel sv st fallback_task_dir limit =
     bind_io (now_io sv) (\<lambda>now.
     bind_io (db_read sv (\<lambda>l. due_for_retry l now limit)) (\<lambda>records.
     bind_io (each_io (\<lambda>record.
                bind_io (retry fuel sv st record fallback_task_dir) (\<lambda>outcome.
                  add_stat (''retry_'' @ outcome_text outcome) 1)) records) (\<lambda>_.
     bind_io (if records = [] then ret () else set_stat ''retry_due'' (int (length records))) (\<lambda>_.
       ret (length records)))))"

end
