(* ===== verification/Intake_Laws.thy ===== *)
theory Intake_Laws
  imports Intake
begin

text \<open>
  What the intake guarantees: the candidates a title is given, that a submission pass ends,
  what it leaves behind on every outcome, that a pass which submits nothing re-arms the
  row's timer in the future, and that none of it moves the ledger but by its own steps.
\<close>

definition demo_intake :: intake_settings where
  "demo_intake = \<lparr>is_failed_cooldown = hours 24, is_notifies = True, is_has_lookup = False\<rparr>"

lemma demo_pending: "pending_count (attempts (demo_ledger s t u)) ''ABC-123'' \<le> 2"
  by (simp add: pending_count_def count_where_def demo_defs)

section \<open>Candidates\<close>

definition good_candidates :: "string list \<times> candidate list \<Rightarrow> bool" where
  "good_candidates st \<longleftrightarrow>
     distinct (map cd_info_hash (snd st)) \<and> set (map cd_info_hash (snd st)) = Some ` set (fst st)
     \<and> list_all (\<lambda>c. is_magnet_link (cd_magnet c) \<and> extract_info_hash (cd_magnet c) = cd_info_hash c)
         (snd st)"

lemma good_candidates_collect: "good_candidates st \<Longrightarrow> good_candidates (collect m s h st)"
  by (auto simp: collect_def good_candidates_def split: option.splits)

lemma good_candidates_fold:
  "good_candidates st \<Longrightarrow> good_candidates (fold (\<lambda>m. collect (Some (fst m)) s (Some (snd m))) ms st)"
  by (induction ms arbitrary: st) (simp_all add: good_candidates_collect)

lemma collect_prefix: "\<exists>cs. snd (collect m s h st) = snd st @ cs"
  by (auto simp: collect_def split: option.splits)

lemma collect_fold_prefix: "\<exists>cs. snd (fold (\<lambda>m. collect (Some (fst m)) s (Some (snd m))) ms st) = snd st @ cs"
proof (induction ms arbitrary: st)
  case (Cons m ms)
  obtain cs where "snd (collect (Some (fst m)) s (Some (snd m)) st) = snd st @ cs"
    using collect_prefix by blast
  with Cons.IH [of "collect (Some (fst m)) s (Some (snd m)) st"] show ?case by auto
qed simp

lemma resolve_run:
  assumes "resolve sv avid item w = (Value cs, w')"
  shows "\<exists>first st. sv_sukebei sv (w_tick w) avid = Inr first
    \<and> good_candidates st \<and> cs = take MAX_CANDIDATES (snd st)
    \<and> (\<exists>rest. snd st = snd (collect item ''rss_item'' None (collect first ''sukebei'' None ([], []))) @ rest)"
proof (cases "sv_sukebei sv (w_tick w) avid")
  case (Inl e)
  with assms show ?thesis
    by (simp add: resolve_def bind_io_def ask_def or_raise_def raise_io_def)
next
  case (Inr first)
  let ?st = "collect item ''rss_item'' None (collect first ''sukebei'' None ([], []))"
  have good: "good_candidates ?st"
    by (intro good_candidates_collect) (simp add: good_candidates_def)
  show ?thesis
  proof (cases "sv_javbus sv (Suc (w_tick w)) avid")
    case (Inl e)
    with Inr assms good show ?thesis
      by (intro exI [of _ first] exI [of _ ?st])
         (auto simp: resolve_def bind_io_def ask_def or_raise_def ret_def Let_def)
  next
    case (Inr magnets)
    let ?st' = "fold (\<lambda>m. collect (Some (fst m)) ''javbus'' (Some (snd m))) magnets ?st"
    have "cs = take MAX_CANDIDATES (snd ?st')"
      using Inr \<open>sv_sukebei sv (w_tick w) avid = Inr first\<close> assms
      by (auto simp: resolve_def bind_io_def ask_def or_raise_def ret_def Let_def)
    with \<open>sv_sukebei sv (w_tick w) avid = Inr first\<close> show ?thesis
      using good_candidates_fold [OF good] collect_fold_prefix by blast
  qed
qed

text \<open>
  C19: What the resolver hands on: at most five candidates, each a magnet link recorded with
  the hash its own text carries, no hash twice, and the first site's magnet, when it has a
  usable one, first.
\<close>

theorem resolve_candidates:
  assumes "resolve sv avid item w = (Value cs, w')"
  shows "length cs \<le> 5 \<and> distinct (map cd_info_hash cs)
    \<and> list_all (\<lambda>c. cd_info_hash c \<noteq> None \<and> is_magnet_link (cd_magnet c)
                    \<and> extract_info_hash (cd_magnet c) = cd_info_hash c) cs
    \<and> (\<forall>m. sv_sukebei sv (w_tick w) avid = Inr (Some m) \<longrightarrow> is_magnet_link m
         \<longrightarrow> extract_info_hash m \<noteq> None \<longrightarrow> cs \<noteq> [] \<and> cd_magnet (hd cs) = m)"
proof -
  obtain first st rest where st: "sv_sukebei sv (w_tick w) avid = Inr first" "good_candidates st"
    "cs = take MAX_CANDIDATES (snd st)"
    "snd st = snd (collect item ''rss_item'' None (collect first ''sukebei'' None ([], []))) @ rest"
    using resolve_run [OF assms] by blast
  have sub: "set cs \<subseteq> set (snd st)" unfolding st(3) by (rule set_take_subset)
  have first: "cs \<noteq> [] \<and> cd_magnet (hd cs) = m"
    if "first = Some m" "is_magnet_link m" "extract_info_hash m \<noteq> None" for m
  proof -
    have "extract_info_hash m \<noteq> None" by (rule that(3))
    then obtain h where h: "extract_info_hash m = Some h" by blast
    let ?c = "\<lparr>cd_magnet = m, cd_info_hash = Some h, cd_source = ''sukebei'', cd_size_hint = None\<rparr>"
    have c: "snd (collect first ''sukebei'' None ([], [])) = [?c]"
      using that(1,2) h by (simp add: collect_def)
    then obtain more where "snd st = ?c # more"
      using st(4) collect_prefix [of item "''rss_item''" None "collect first ''sukebei'' None ([], [])"]
      by auto
    then show ?thesis by (simp add: st(3) MAX_CANDIDATES_def)
  qed
  have "list_all (\<lambda>c. cd_info_hash c \<noteq> None \<and> is_magnet_link (cd_magnet c)
                    \<and> extract_info_hash (cd_magnet c) = cd_info_hash c) cs"
    unfolding list_all_iff
  proof
    fix c assume "c \<in> set cs"
    with sub have "c \<in> set (snd st)" by blast
    moreover from this have "cd_info_hash c \<in> Some ` set (fst st)"
      using st(2) unfolding good_candidates_def by (metis image_set rev_image_eqI)
    ultimately show "cd_info_hash c \<noteq> None \<and> is_magnet_link (cd_magnet c)
        \<and> extract_info_hash (cd_magnet c) = cd_info_hash c"
      using st(2) by (auto simp: good_candidates_def list_all_iff)
  qed
  moreover have "distinct (map cd_info_hash cs)"
    using st(2) unfolding st(3) good_candidates_def by (simp flip: take_map)
  ultimately show ?thesis using first st by (auto simp: MAX_CANDIDATES_def)
qed

text \<open>A site that has a magnet for the title, and a library that does not hold it.\<close>

definition demo_found :: services where
  "demo_found = demo_services\<lparr>sv_sukebei := (\<lambda>_ _. Inr (Some zero_link)), sv_holdings := (\<lambda>_ _ _. Inr [])\<rparr>"

lemma quiet_found: "quiet demo_found"
  using demo_quiet by (simp add: quiet_def demo_found_def)

theorem resolve_candidates_witness:
  "\<exists>c w'. resolve demo_found ''ABC-123'' None (demo_world empty_ledger) = (Value [c], w')
     \<and> cd_magnet c = zero_link \<and> cd_info_hash c = Some (replicate 40 (CHR ''0''))"
proof -
  have link: "is_magnet_link zero_link" "zero_link \<noteq> []" by code_simp+
  then obtain c w' where r: "resolve demo_found ''ABC-123'' None (demo_world empty_ledger) = (Value [c], w')"
    by (simp add: resolve_def bind_io_def ask_def or_raise_def ret_def collect_def Let_def demo_found_def zero_link_hash
        MAX_CANDIDATES_def)
  have "sv_sukebei demo_found 0 ''ABC-123'' = Inr (Some zero_link)" by (simp add: demo_found_def)
  with resolve_candidates [OF r] r link zero_link_hash show ?thesis
    by (intro exI [of _ c] exI [of _ w']) (auto simp: demo_world_def)
qed

section \<open>The ledger moves only by its own steps\<close>

lemma frame_retry: "frame.keeps (add_offline_with_retry k sv link dir)"
  by (induction k) (auto intro!: frame_basic)

lemma frame_add_magnet: "frame.keeps (add_magnet sv link dir)"
  unfolding add_magnet_def by (intro frame_basic frame_retry)

lemma frame_resolve: "frame.keeps (resolve sv avid item)"
  unfolding resolve_def Let_def by (intro frame_basic)

lemma frame_find_date: "frame.keeps (find_release_date sv avid)"
  by (auto simp: find_release_date_def frame.keeps_def bind_io_def now_io_def ask_def
      split: sum.splits option.splits)

lemma lm_frame: "frame.keeps m \<Longrightarrow> lm.keeps sv m"
  by (simp add: frame.keeps_def lm.keeps_def ledger_moves_def)

lemma lm_ensure_date: "lm.keeps sv (ensure_release_date sv b r)"
  unfolding ensure_release_date_def by (intro lm_basic lm_calls lm_frame [OF frame_find_date])

lemma lm_submit_next: "lm.keeps sv (submit_next fuel sv st avid dir)"
  by (induction fuel) (auto intro!: lm_basic lm_calls lm_frame [OF frame_add_magnet])

lemma lm_record_and_submit: "lm.keeps sv (record_and_submit fuel sv st avid cs dir)"
  unfolding record_and_submit_def by (intro lm_basic lm_calls lm_submit_next)

lemma lm_repark: "lm.keeps sv (repark sv st r n)"
  unfolding repark_def by (intro lm_basic lm_calls lm_ensure_date)

lemma lm_park_unresolved: "lm.keeps sv (park_unresolved sv st avid)"
  unfolding park_unresolved_def by (intro lm_basic lm_repark)

lemma lm_enqueue: "lm.keeps sv (enqueue fuel sv st avid source dir item rd)"
  unfolding enqueue_def
  by (intro lm_basic lm_calls lm_park_unresolved lm_record_and_submit lm_frame [OF frame_resolve])

lemma lm_queue: "lm.keeps sv (queue sv avid source dir rd)"
  unfolding queue_def by (intro lm_basic lm_calls)

lemma lm_retry: "lm.keeps sv (retry fuel sv st r fallback)"
  unfolding retry_def
  by (intro lm_basic lm_repark lm_record_and_submit lm_frame [OF frame_resolve])

lemma lm_retry_due: "lm.keeps sv (retry_due fuel sv st fallback limit)"
  unfolding retry_due_def by (intro lm_basic lm_retry)

section \<open>A submission pass ends\<close>

lemma add_offline_value: "\<exists>r. fst (add_offline_with_retry k sv link dir w) = Value r"
  by (induction k arbitrary: w) (auto simp: act_def bind_io_def ret_def split: sum.splits)

lemma add_magnet_value:
  "\<exists>o' w'. add_magnet sv link dir w = (Value o', w') \<and> w_ledger w' = w_ledger w \<and> w_tick w \<le> w_tick w'"
proof -
  have "\<exists>o'. fst (add_magnet sv link dir w) = Value o'"
    using add_offline_value [of 2 sv link dir w]
    by (auto simp: add_magnet_def bind_io_def ret_def add_stat_def split: prod.splits sum.splits)
  then show ?thesis
    using frameD [OF frame_add_magnet, of sv link dir w] by (metis prod.collapse)
qed

text \<open>The other replicas only ever use magnets up while this pass runs.\<close>

definition others_add_none :: "services \<Rightarrow> bool" where
  "others_add_none sv \<longleftrightarrow>
     (\<forall>n l avid. ledger_ok l \<longrightarrow> ledger_ok (sv_others sv n l)
        \<and> pending_count (attempts (sv_others sv n l)) avid \<le> pending_count (attempts l) avid)"

lemma others_add_noneD:
  "others_add_none sv \<Longrightarrow> ledger_ok l \<Longrightarrow> ledger_ok (sv_others sv n l)
     \<and> pending_count (attempts (sv_others sv n l)) avid \<le> pending_count (attempts l) avid"
  by (simp add: others_add_none_def)

lemma quiet_adds_none: "quiet sv \<Longrightarrow> others_add_none sv"
  by (simp add: quiet_def others_add_none_def)

lemma pending_count_transition:
  assumes "transition_attempt l avid no e t now err = Inr (b, l')"
  shows "pending_count (attempts l') a \<le> pending_count (attempts l) a"
proof -
  have t: "t \<noteq> APending" and l': "l' = l\<lparr>attempts := set_attempt (attempts l) avid no e
      (\<lambda>r. r\<lparr>at_state := t, at_error := err, at_updated_at := now\<rparr>)\<rparr>"
    using assms by (cases e; auto simp: transition_attempt_def Let_def split: if_splits)+
  have "count_where (\<lambda>r. at_avid r = a \<and> at_state r = APending)
          (set_attempt rs avid no e (\<lambda>r. r\<lparr>at_state := t, at_error := err, at_updated_at := now\<rparr>))
      \<le> count_where (\<lambda>r. at_avid r = a \<and> at_state r = APending) rs" for rs
    using t by (induction rs) (auto simp: set_attempt_def update_where_def count_where_def)
  then show ?thesis by (simp add: l' pending_count_def)
qed

lemma submit_next_total:
  assumes "others_add_none sv" and "ledger_ok (w_ledger w)"
    and "pending_count (attempts (w_ledger w)) avid < fuel"
  shows "fst (submit_next fuel sv st avid task_dir w) \<noteq> Stuck"
  using assms(2,3)
proof (induction fuel arbitrary: w)
  case 0
  then show ?case by simp
next
  case (Suc fuel)
  let ?now = "sv_clock sv (w_tick w)"
  let ?l0 = "sv_others sv (Suc (w_tick w)) (w_ledger w)"
  have ok0: "ledger_ok ?l0" and pc0: "pending_count (attempts ?l0) avid < Suc fuel"
    using others_add_noneD [OF assms(1) Suc.prems(1), of "Suc (w_tick w)" avid] Suc.prems(2) by auto
  obtain claimed l1 where claim: "claim_next_pending ?l0 avid ?now = (claimed, l1)" by fastforce
  have ok1: "ledger_ok l1" using ledger_ok_claim_next_pending [OF ok0, of avid ?now] claim by simp
  let ?w1 = "w\<lparr>w_ledger := l1, w_tick := Suc (Suc (w_tick w))\<rparr>"
  show ?case
  proof (cases claimed)
    case None
    with claim show ?thesis by (simp add: bind_io_def now_io_def ask_def db_def ret_def)
  next
    case (Some a)
    have pc1: "pending_count (attempts l1) avid < fuel"
      using claim_next_pending_decreases [OF ok0] claim Some pc0 by fastforce
    obtain o' w2 where add: "add_magnet sv (at_magnet a) task_dir ?w1 = (Value o', w2)"
      and w2: "w_ledger w2 = l1"
      using add_magnet_value [of sv "at_magnet a" task_dir ?w1] by auto
    show ?thesis
    proof (cases "o' = Add_Failed")
      case False
      then show ?thesis
        using claim Some add
        by (auto simp: bind_io_def now_io_def ask_def db_def db_read_def db_try_def act_def ret_def Let_def
            split: prod.splits sum.splits option.splits)
    next
      case True
      let ?l2 = "sv_others sv (w_tick w2) l1"
      have ok2: "ledger_ok ?l2" and pc2: "pending_count (attempts ?l2) avid < fuel"
        using others_add_noneD [OF assms(1) ok1, of "w_tick w2" avid] pc1 by auto
      let ?t = "transition_attempt ?l2 avid (at_no a) ASubmitted AError ?now
                  (Some ''failed to add the offline task'')"
      have step: "submit_next (Suc fuel) sv st avid task_dir w
          = (case ?t of
               Inl e \<Rightarrow> (Raised (LedgerError e), w2\<lparr>w_ledger := ?l2, w_tick := Suc (w_tick w2)\<rparr>)
             | Inr (b, l3) \<Rightarrow> submit_next fuel sv st avid task_dir
                               (w2\<lparr>w_ledger := l3, w_tick := Suc (w_tick w2)\<rparr>))"
        using claim Some add True w2
        by (simp add: bind_io_def now_io_def ask_def db_def db_try_def Let_def split: prod.splits sum.splits)
      show ?thesis
      proof (cases ?t)
        case (Inl e)
        then show ?thesis using step by simp
      next
        case (Inr x)
        obtain b l3 where x: "x = (b, l3)" by fastforce
        have "ledger_ok l3" using ledger_ok_transition_attempt [OF ok2] Inr x by blast
        moreover have "pending_count (attempts l3) avid < fuel"
          using pending_count_transition [OF Inr [unfolded x]] pc2 by (rule le_less_trans)
        ultimately show ?thesis using Suc.IH step Inr x by simp
      qed
    qed
  qed
qed

text \<open>
  C12: A submission pass always ends: with more fuel than the title has pending magnets it
  never runs out, whatever CloudDrive answers and whatever the other replicas do short of
  recording new magnets; each round uses one pending magnet up.
\<close>

theorem submit_next_ends:
  assumes "others_add_none sv" and "ledger_ok (w_ledger w)"
    and "pending_count (attempts (w_ledger w)) avid < fuel"
  shows "fst (submit_next fuel sv st avid task_dir w) \<noteq> Stuck"
  using assms by (rule submit_next_total)

theorem submit_next_ends_witness:
  "fst (submit_next 3 demo_services demo_intake ''ABC-123'' ''/in''
     (demo_world (demo_ledger Discovered AError APending))) \<noteq> Stuck"
  using submit_next_ends [OF quiet_adds_none [OF demo_quiet], of "demo_world (demo_ledger Discovered AError APending)"
      "''ABC-123''" 3 demo_intake "''/in''"] ledger_ok_demo demo_pending [of Discovered AError APending]
  by simp

section \<open>What a submission pass leaves\<close>

text \<open>Between two ledgers only pending attempts of the title were moved, to error.\<close>

definition only_failed :: "string \<Rightarrow> ledger \<Rightarrow> ledger \<Rightarrow> bool" where
  "only_failed avid l l' \<longleftrightarrow> acquisitions l' = acquisitions l
     \<and> (\<forall>k. attempt_state_at l' k = attempt_state_at l k
          \<or> (fst k = avid \<and> attempt_state_at l k = Some APending \<and> attempt_state_at l' k = Some AError))"

lemma only_failed_refl [simp]: "only_failed avid l l"
  by (simp add: only_failed_def)

lemma only_failed_trans: "only_failed avid l l' \<Longrightarrow> only_failed avid l' l'' \<Longrightarrow> only_failed avid l l''"
  unfolding only_failed_def by (metis attempt_state.distinct(13) option.inject)

text \<open>A claim followed by the report that the magnet could not be added.\<close>

lemma claim_submitted:
  assumes "ledger_ok l" and "claim_next_pending l avid now = (Some a, l1)"
  shows "acquisitions l1 = acquisitions l \<and> ledger_ok l1
    \<and> attempt_state_at l (avid, at_no a) = Some APending
    \<and> (\<forall>k. attempt_state_at l1 k = (if k = (avid, at_no a) then Some ASubmitted else attempt_state_at l k))"
proof -
  from claim_next_pending_serial [OF assms(1), of avid now] assms(2) obtain r where
    r: "r \<in> set (attempts l)" "claimable (attempts l) avid r" "a = submit_row now r"
    "l1 = l\<lparr>attempts := set_attempt (attempts l) avid (at_no r) APending (submit_row now)\<rparr>" by auto
  have get: "get_attempt (attempts l) avid (at_no r) = Some r"
    using get_attempt_in [OF unique_attempts [OF assms(1)] r(1)] r(2) by (simp add: claimable_def)
  have pend: "at_state r = APending" using r(2) by (simp add: claimable_def)
  have "attempt_state_at l1 k = (if k = (avid, at_no a) then Some ASubmitted else attempt_state_at l k)" for k
    using get pend unfolding r(3,4) attempt_state_at_def
    by (cases k; cases "get_attempt (attempts l) (fst k) (snd k)") (auto simp: get_attempt_update)
  then show ?thesis
    using ledger_ok_claim_next_pending [OF assms(1), of avid now] assms(2) r get pend
    by (simp add: attempt_state_at_def)
qed

lemma transition_attempt_states:
  assumes "ledger_ok l" and "attempt_edge e t" and "attempt_state_at l (avid, no) = Some e"
  shows "\<exists>l'. transition_attempt l avid no e t now err = Inr (True, l') \<and> ledger_ok l'
    \<and> acquisitions l' = acquisitions l
    \<and> (\<forall>k. attempt_state_at l' k = (if k = (avid, no) then Some t else attempt_state_at l k))"
proof -
  let ?f = "\<lambda>r. r\<lparr>at_state := t, at_error := err, at_updated_at := now\<rparr>"
  let ?l' = "l\<lparr>attempts := set_attempt (attempts l) avid no e ?f\<rparr>"
  have T: "transition_attempt l avid no e t now err = Inr (True, ?l')"
    using transition_attempt_Inr [OF assms(1,2)] assms(3) by simp
  have "attempt_state_at ?l' k = (if k = (avid, no) then Some t else attempt_state_at l k)" for k
    using assms(3)
    by (cases k; cases "get_attempt (attempts l) (fst k) (snd k)") (auto simp: attempt_state_at_def get_attempt_update)
  with T ledger_ok_transition_attempt [OF assms(1) T] show ?thesis by (intro exI [of _ ?l']) simp
qed

lemma no_claim:
  assumes "ledger_ok l" and "claim_next_pending l avid now = (None, l1)"
  shows "l1 = l \<and> (\<forall>r\<in>set (attempts l). \<not> claimable (attempts l) avid r)"
  using claim_next_pending_serial [OF assms(1), of avid now] assms(2) by auto

text \<open>The end of a pass that got a magnet in: what the row of the title becomes.\<close>

definition started :: "string \<Rightarrow> ledger \<Rightarrow> ledger \<Rightarrow> bool" where
  "started avid l l' \<longleftrightarrow>
     (\<forall>k. acq_state_at l' k
        = (if k = avid then map_option (\<lambda>_. Downloading) (acq_state_at l k) else acq_state_at l k))"

lemma started_step:
  assumes "get_acq l avid = Some r" and "transition l avid (aq_state r) Downloading now None None None = Inr (b, l')"
  shows "started avid l l'"
  using get_acq_transition [OF assms(2)] assms(1)
  by (auto simp: started_def acq_state_at_def option.map_comp o_def intro!: option.map_cong0)

definition submit_result :: "string \<Rightarrow> ledger \<Rightarrow> (bool, failure) outcome \<times> world \<Rightarrow> bool" where
  "submit_result avid l res \<longleftrightarrow>
     (case res of
        (Value False, w') \<Rightarrow> only_failed avid l (w_ledger w') \<and> ledger_ok (w_ledger w')
          \<and> (\<forall>r\<in>set (attempts (w_ledger w')). \<not> claimable (attempts (w_ledger w')) avid r)
      | (Value True, w') \<Rightarrow> started avid l (w_ledger w')
          \<and> (\<exists>no m. only_failed avid l m \<and> attempt_state_at m (avid, no) = Some APending
               \<and> (\<forall>k. attempt_state_at (w_ledger w') k
                     = (if k = (avid, no) then Some ASubmitted else attempt_state_at m k)))
      | (Raised e, w') \<Rightarrow> (\<exists>s. e = LedgerError (IllegalTransition s Downloading)
          \<and> acq_state_at l avid = Some s \<and> s \<in> {Archived, Ignored})
      | (Stuck, w') \<Rightarrow> False)"

lemma only_failed_acqs: "only_failed avid l m \<Longrightarrow> acq_state_at m k = acq_state_at l k"
  by (simp add: only_failed_def acq_state_at_def get_acq_def)

lemma submit_result_mono:
  assumes "only_failed avid l m" and "submit_result avid m res"
  shows "submit_result avid l res"
proof -
  obtain r w' where res: "res = (r, w')" by fastforce
  note acqs = only_failed_acqs [OF assms(1)]
  show ?thesis
  proof (cases r)
    case (Value b)
    show ?thesis
    proof (cases b)
      case False
      then show ?thesis
        using Value assms(2) only_failed_trans [OF assms(1)] by (simp add: res submit_result_def)
    next
      case True
      with Value assms(2) obtain no n where "started avid m (w_ledger w')" "only_failed avid m n"
        "attempt_state_at n (avid, no) = Some APending"
        "\<forall>k. attempt_state_at (w_ledger w') k
           = (if k = (avid, no) then Some ASubmitted else attempt_state_at n k)"
        by (auto simp: res submit_result_def simp del: split_paired_All)
      moreover from this have "started avid l (w_ledger w')" by (simp add: started_def acqs)
      ultimately show ?thesis
        using True Value only_failed_trans [OF assms(1)]
        unfolding res submit_result_def by simp blast
    qed
  qed (use assms(2) acqs in \<open>auto simp: res submit_result_def\<close>)
qed

lemma submit_next_sound:
  assumes "quiet sv" and "ledger_ok (w_ledger w)"
    and "pending_count (attempts (w_ledger w)) avid < fuel"
  shows "submit_result avid (w_ledger w) (submit_next fuel sv st avid task_dir w)"
  using assms(2,3)
proof (induction fuel arbitrary: w)
  case 0
  then show ?case by simp
next
  case (Suc fuel)
  let ?now = "sv_clock sv (w_tick w)"
  let ?l = "w_ledger w"
  obtain claimed l1 where claim: "claim_next_pending ?l avid ?now = (claimed, l1)" by fastforce
  let ?w1 = "at_ledger (at_ledger w ?l) l1"
  show ?case
  proof (cases claimed)
    case None
    with claim no_claim [OF Suc.prems(1), of avid ?now l1] Suc.prems(1) show ?thesis
      by (simp add: bind_io_def now_io_run db_quiet [OF assms(1)] ret_def submit_result_def)
  next
    case (Some a)
    note c = claim_submitted [OF Suc.prems(1) claim [unfolded Some]]
    obtain o' w2 where add: "add_magnet sv (at_magnet a) task_dir ?w1 = (Value o', w2)"
      and w2: "w_ledger w2 = l1"
      using add_magnet_value [of sv "at_magnet a" task_dir ?w1] by auto
    show ?thesis
    proof (cases "o' = Add_Failed")
      case True
      have sub: "attempt_state_at l1 (avid, at_no a) = Some ASubmitted" using c by simp
      obtain l2 where t: "transition_attempt l1 avid (at_no a) ASubmitted AError ?now
            (Some ''failed to add the offline task'') = Inr (True, l2)"
          "ledger_ok l2" "acquisitions l2 = acquisitions l1"
          "\<forall>k. attempt_state_at l2 k = (if k = (avid, at_no a) then Some AError else attempt_state_at l1 k)"
        using transition_attempt_states [OF _ _ sub, of AError ?now "Some ''failed to add the offline task''"] c
        by (simp add: attempt_edge_def) blast
      have run: "submit_next (Suc fuel) sv st avid task_dir w
          = submit_next fuel sv st avid task_dir (at_ledger w2 l2)"
        using claim Some add True w2 t(1)
        by (simp add: bind_io_def now_io_run db_quiet [OF assms(1)] db_try_quiet [OF assms(1)])
      have "pending_count (attempts l1) avid < fuel"
        using claim_next_pending_decreases [OF Suc.prems(1) claim [unfolded Some]] Suc.prems(2) by simp
      then have "pending_count (attempts l2) avid < fuel"
        by (rule le_less_trans [OF pending_count_transition [OF t(1)]])
      then have "submit_result avid l2 (submit_next fuel sv st avid task_dir (at_ledger w2 l2))"
        using Suc.IH [of "at_ledger w2 l2"] t(2) by simp
      moreover have "only_failed avid ?l l2"
        using c t(3,4) by (auto simp: only_failed_def)
      ultimately show ?thesis unfolding run by (rule submit_result_mono [rotated])
    next
      case False
      obtain w3 where w3: "(if is_notifies st then act NotifySubmission (\<lambda>_. ()) else ret ()) w2 = (Value (), w3)"
        "w_ledger w3 = l1" using w2 by (cases "is_notifies st") (auto simp: act_def ret_def)
      have acq: "get_acq l1 k = get_acq ?l k" for k using c by (simp add: get_acq_def)
      have run: "submit_next (Suc fuel) sv st avid task_dir w =
         (case get_acq l1 avid of
            None \<Rightarrow> (Value True, at_ledger w3 l1)
          | Some r \<Rightarrow>
              (if aq_state r = Downloading then (Value True, at_ledger w3 l1)
               else case transition l1 avid (aq_state r) Downloading ?now None None None of
                      Inl e \<Rightarrow> (Raised (LedgerError e), at_ledger (at_ledger w3 l1) l1)
                    | Inr (b, l2) \<Rightarrow> (Value True, at_ledger (at_ledger w3 l1) l2)))"
        using claim Some add False w2 w3
        by (auto simp: bind_io_def now_io_run db_quiet [OF assms(1)] db_try_quiet [OF assms(1)]
            db_read_quiet [OF assms(1)] ret_def split: option.splits sum.splits prod.splits)
      have sub: "\<exists>no m. only_failed avid ?l m \<and> attempt_state_at m (avid, no) = Some APending
               \<and> (\<forall>k. attempt_state_at l1 k
                     = (if k = (avid, no) then Some ASubmitted else attempt_state_at m k))"
        using c by (intro exI [of _ "at_no a"] exI [of _ ?l]) simp
      show ?thesis
      proof (cases "get_acq l1 avid")
        case None
        with sub show ?thesis
          using acq unfolding run by (auto simp: submit_result_def started_def acq_state_at_def)
      next
        case (Some r)
        show ?thesis
        proof (cases "aq_state r = Downloading")
          case True
          with Some sub show ?thesis
            using acq unfolding run by (auto simp: submit_result_def started_def acq_state_at_def)
        next
          case False
          show ?thesis
          proof (cases "transition l1 avid (aq_state r) Downloading ?now None None None")
            case (Inl e)
            then have "\<not> acq_edge (aq_state r) Downloading"
              using transition_Inr by (metis sum.distinct(1))
            then have "aq_state r \<in> {Archived, Ignored}" and "e = IllegalTransition (aq_state r) Downloading"
              using transition_illegal Inl by (cases "aq_state r"; fastforce simp: acq_edge_def)+
            then show ?thesis
              using Some False Inl acq unfolding run by (auto simp: submit_result_def acq_state_at_def)
          next
            case (Inr x)
            obtain b l2 where x: "x = (b, l2)" by fastforce
            have att: "attempts l2 = attempts l1"
              using transition_InrD [OF Inr [unfolded x]] by simp
            have "started avid ?l l2"
              using started_step [OF Some Inr [unfolded x]] acq by (simp add: started_def acq_state_at_def)
            then show ?thesis
              using Some False Inr x sub att unfolding run by (simp add: submit_result_def attempt_state_at_def)
          qed
        qed
      qed
    qed
  qed
qed

text \<open>
  C11: What a submission pass leaves while no one else writes the ledger: on success exactly one pending
  magnet of the title is submitted, every magnet tried before it is marked failed, and the
  title is downloading; on failure every claimable magnet of the title was tried and marked
  failed and the title itself is untouched; it never ends any other way, except that a
  title somebody had already archived or ignored makes it raise, after the magnet went in.
\<close>

theorem submit_next_leaves:
  assumes "quiet sv" and "ledger_ok (w_ledger w)"
    and "pending_count (attempts (w_ledger w)) avid < fuel"
  shows "submit_result avid (w_ledger w) (submit_next fuel sv st avid task_dir w)"
  using assms by (rule submit_next_sound)

theorem submit_next_leaves_witness:
  "submit_result ''ABC-123'' (demo_ledger Discovered AError APending)
     (submit_next 3 demo_services demo_intake ''ABC-123'' ''/in''
        (demo_world (demo_ledger Discovered AError APending)))"
  using submit_next_leaves [OF demo_quiet, of "demo_world (demo_ledger Discovered AError APending)"
      "''ABC-123''" 3 demo_intake "''/in''"] ledger_ok_demo demo_pending [of Discovered AError APending]
  by simp

section \<open>A pass that submits nothing re-arms the timer\<close>

lemma ensure_date_run:
  assumes "quiet sv"
  shows "\<exists>rd w1. ensure_release_date sv b record w = (Value rd, w1) \<and> w_tick w \<le> w_tick w1
    \<and> (\<forall>k. acq_state_at (w_ledger w1) k = acq_state_at (w_ledger w) k)"
proof (cases "aq_release_date record \<noteq> None \<or> \<not> b")
  case True
  then have "ensure_release_date sv b record w = (Value (aq_release_date record), w)"
    by (auto simp: ensure_release_date_def ret_def)
  then show ?thesis by simp
next
  case False
  have "\<exists>found. fst (find_release_date sv (aq_avid record) w) = Value found"
    by (auto simp: find_release_date_def bind_io_def now_io_def ask_def split: sum.splits option.splits)
  then obtain found w0 where find: "find_release_date sv (aq_avid record) w = (Value found, w0)"
    "w_ledger w0 = w_ledger w" "w_tick w \<le> w_tick w0"
    using frameD [OF frame_find_date, of sv "aq_avid record" w] by (metis prod.collapse)
  have same: "acq_state_at (snd (set_release_date l av d)) k = acq_state_at l k" for l av d k
    by (simp add: set_release_date_def Let_def acq_state_at_def get_acq_def
        row_of_update_where [where key = aq_avid] option.map_comp o_def if_distrib cong: if_cong option.map_cong)
  show ?thesis
  proof (cases found)
    case None
    then show ?thesis using False find by (simp add: ensure_release_date_def bind_io_def ret_def)
  next
    case (Some d)
    then have "ensure_release_date sv b record w
        = (Value (Some d), at_ledger w0 (snd (set_release_date (w_ledger w0) (aq_avid record) d)))"
      using False find by (simp add: ensure_release_date_def bind_io_def ret_def db_quiet [OF assms])
    then show ?thesis using find(2,3) same by simp
  qed
qed

lemma repark_run:
  assumes "quiet sv" and "mono (sv_clock sv)" and "0 < is_failed_cooldown st"
    and "acq_state_at (w_ledger w) (aq_avid record) = Some (aq_state record)"
    and "acq_edge (aq_state record) Resolve_Failed"
  shows "\<exists>w' r t. repark sv st record n w = (Value (), w') \<and> get_acq (w_ledger w') (aq_avid record) = Some r
    \<and> aq_state r = Resolve_Failed \<and> aq_next_action_at r = Some t \<and> sv_clock sv (w_tick w) < t"
proof -
  obtain rd w1 where ensure: "ensure_release_date sv (is_has_lookup st) record w = (Value rd, w1)"
    "w_tick w \<le> w_tick w1" "\<forall>k. acq_state_at (w_ledger w1) k = acq_state_at (w_ledger w) k"
    using ensure_date_run [OF assms(1)] by blast
  let ?now = "sv_clock sv (w_tick w1)"
  let ?t = "next_resolve_at ?now rd (is_failed_cooldown st)"
  obtain b l2 where trans: "transition (w_ledger w1) (aq_avid record) (aq_state record) Resolve_Failed ?now
      (Some n) (Some ?t) None = Inr (b, l2)"
    using transition_Inr [OF assms(5)] by blast
  have "acq_state_at (w_ledger w1) (aq_avid record) = Some (aq_state record)"
    using ensure(3) assms(4) by simp
  then obtain q where q: "get_acq (w_ledger w1) (aq_avid record) = Some q" "aq_state q = aq_state record"
    by (auto simp: acq_state_at_def)
  have run: "repark sv st record n w = (Value (), at_ledger (at_ledger w1 (w_ledger w1)) l2)"
    using ensure(1) trans by (simp add: repark_def bind_io_def now_io_run db_try_quiet [OF assms(1)] ret_def)
  have "sv_clock sv (w_tick w) \<le> ?now" using assms(2) ensure(2) by (auto dest: monoD)
  also have "?now < ?t" by (rule next_resolve_at_later [OF assms(3)])
  finally have later: "sv_clock sv (w_tick w) < ?t" .
  have "get_acq l2 (aq_avid record) = Some (moved_row Resolve_Failed ?now (Some n) (Some ?t) None q)"
    using get_acq_transition [OF trans, of "aq_avid record"] q by simp
  with run later show ?thesis
    by (intro exI [of _ "at_ledger (at_ledger w1 (w_ledger w1)) l2"]
        exI [of _ "moved_row Resolve_Failed ?now (Some n) (Some ?t) None q"] exI [of _ ?t]) simp
qed

lemma claim_acquisitions: "acquisitions (snd (claim_next_pending l avid now)) = acquisitions l"
  by (simp add: claim_next_pending_def split: prod.splits)

lemma transition_attempt_acquisitions:
  "transition_attempt l avid no e t now err = Inr (b, l') \<Longrightarrow> acquisitions l' = acquisitions l"
  by (auto simp: transition_attempt_def Let_def split: if_splits)

text \<open>A pass that got nothing in never touched the acquisitions.\<close>

lemma submit_next_False:
  "quiet sv \<Longrightarrow> submit_next fuel sv st avid dir w = (Value False, w') \<Longrightarrow>
     acquisitions (w_ledger w') = acquisitions (w_ledger w) \<and> w_tick w \<le> w_tick w'"
proof (induction fuel arbitrary: w)
  case 0
  then show ?case by (simp add: stuck_def)
next
  case (Suc fuel)
  let ?now = "sv_clock sv (w_tick w)"
  obtain claimed l1 where claim: "claim_next_pending (w_ledger w) avid ?now = (claimed, l1)" by fastforce
  have acqs: "acquisitions l1 = acquisitions (w_ledger w)"
    using claim_acquisitions [of "w_ledger w" avid ?now] claim by simp
  let ?w1 = "at_ledger (at_ledger w (w_ledger w)) l1"
  show ?case
  proof (cases claimed)
    case None
    with claim acqs Suc.prems(2) show ?thesis
      by (auto simp: bind_io_def now_io_run db_quiet [OF Suc.prems(1)] ret_def)
  next
    case (Some a)
    obtain o' w2 where add: "add_magnet sv (at_magnet a) dir ?w1 = (Value o', w2)"
      and w2: "w_ledger w2 = l1" "w_tick ?w1 \<le> w_tick w2"
      using add_magnet_value [of sv "at_magnet a" dir ?w1] by auto
    show ?thesis
    proof (cases "o' = Add_Failed")
      case True
      with claim Some add w2 Suc.prems obtain b l2 where
        t: "transition_attempt l1 avid (at_no a) ASubmitted AError ?now
              (Some ''failed to add the offline task'') = Inr (b, l2)"
        and rest: "submit_next fuel sv st avid dir (at_ledger w2 l2) = (Value False, w')"
        by (auto simp: bind_io_def now_io_run db_quiet db_try_quiet split: sum.splits)
      show ?thesis
        using Suc.IH [OF Suc.prems(1) rest] transition_attempt_acquisitions [OF t] acqs w2 by simp
    next
      case False
      with claim Some add w2 Suc.prems show ?thesis
        by (auto simp: bind_io_def now_io_run db_quiet db_try_quiet db_read_quiet ret_def act_def
            split: sum.splits option.splits if_splits)
    qed
  qed
qed

lemma record_and_submit_False:
  assumes "quiet sv" and "record_and_submit fuel sv st avid cs dir w = (Value False, w')"
  shows "acquisitions (w_ledger w') = acquisitions (w_ledger w) \<and> w_tick w \<le> w_tick w'"
proof -
  let ?now = "sv_clock sv (w_tick w)"
  obtain n l1 where add: "add_attempts (w_ledger w) avid cs ?now = Inr (n, l1)"
    and rest: "submit_next fuel sv st avid dir
        (at_ledger (at_ledger w (w_ledger w)) l1
           \<lparr>w_stats := (w_stats w)(''candidates_recorded'' := w_stats w ''candidates_recorded'' + int n)\<rparr>)
        = (Value False, w')"
    using assms(2)
    by (auto simp: record_and_submit_def bind_io_def now_io_run db_try_quiet [OF assms(1)] add_stat_def
        at_ledger_def split: sum.splits)
  have "acquisitions l1 = acquisitions (w_ledger w)"
    using add_attempts_cases [OF add] by (auto simp: Let_def)
  with submit_next_False [OF assms(1) rest] show ?thesis by simp
qed

text \<open>
  C16: A retry that submits nothing never leaves the row where the next pass picks it up
  again at once: it parks it, whatever state it was due in, with a timer strictly later than
  the moment the retry began.
\<close>

theorem retry_rearms:
  assumes "quiet sv" and "mono (sv_clock sv)" and "0 < is_failed_cooldown st"
    and "get_acq (w_ledger w) (aq_avid record) = Some record" and "aq_state record \<in> set DUE_STATES"
    and "retry fuel sv st record fallback w = (Value outcome, w')" and "outcome \<noteq> SUBMITTED"
  shows "\<exists>r. get_acq (w_ledger w') (aq_avid record) = Some r \<and> aq_state r = Resolve_Failed
    \<and> aq_next_action_at r \<noteq> None \<and> \<not> due_row (sv_clock sv (w_tick w)) r"
proof -
  let ?avid = "aq_avid record"
  have edge: "acq_edge (aq_state record) Resolve_Failed"
    using assms(5) by (auto simp: acq_edge_def DUE_STATES_def RETRYABLE_STATES_def)
  have parked: "\<exists>n w1. repark sv st record n w1 = (Value (), w') \<and> w_tick w \<le> w_tick w1
      \<and> acquisitions (w_ledger w1) = acquisitions (w_ledger w)"
  proof (cases "path_or (aq_task_dir_path record) fallback")
    case None
    then show ?thesis using assms(6)
      by (auto simp: retry_def bind_io_Value_iff ret_def intro!: exI [of _ w])
  next
    case (Some dir)
    let ?resolve = "catch_io (resolve sv ?avid None) (\<lambda>_. ret [])"
    let ?mid = "\<lambda>cs. if cs = [] then ret NO_MAGNET
           else bind_io (record_and_submit fuel sv st ?avid cs dir)
                  (\<lambda>submitted. ret (if submitted then SUBMITTED else SUBMIT_FAILED))"
    let ?tail = "\<lambda>out. if out = SUBMITTED then ret SUBMITTED
         else bind_io (repark sv st record
                (if out = NO_MAGNET then ''no magnet found'' else ''no magnet accepted'')) (\<lambda>_. ret out)"
    have "bind_io ?resolve (\<lambda>cs. bind_io (?mid cs) ?tail) w = (Value outcome, w')"
      using assms(6) by (simp add: retry_def Some)
    then obtain cs w1 where res: "?resolve w = (Value cs, w1)"
      and "bind_io (?mid cs) ?tail w1 = (Value outcome, w')"
      unfolding bind_io_Value_iff [of ?resolve] by blast
    then obtain out w2 where mid: "?mid cs w1 = (Value out, w2)" and "?tail out w2 = (Value outcome, w')"
      unfolding bind_io_Value_iff [of "?mid cs"] by blast
    then obtain n where park: "repark sv st record n w2 = (Value (), w')" and out: "out \<noteq> SUBMITTED"
      using assms(7) by (auto simp: bind_io_Value_iff ret_def split: if_splits)
    have w1: "w_ledger w1 = w_ledger w" "w_tick w \<le> w_tick w1"
      using frameD [of ?resolve w] frame.keeps_catch [OF frame_resolve frame.keeps_ret] res by auto
    have "acquisitions (w_ledger w2) = acquisitions (w_ledger w1) \<and> w_tick w1 \<le> w_tick w2"
    proof (cases "cs = []")
      case True
      then show ?thesis using mid by (simp add: ret_def)
    next
      case False
      with mid out have "record_and_submit fuel sv st ?avid cs dir w1 = (Value False, w2)"
        by (auto simp: bind_io_Value_iff ret_def split: if_splits)
      then show ?thesis by (rule record_and_submit_False [OF assms(1)])
    qed
    with park w1 show ?thesis by (intro exI [of _ n] exI [of _ w2]) auto
  qed
  then obtain n w1 where w1: "repark sv st record n w1 = (Value (), w')" "w_tick w \<le> w_tick w1"
    "acquisitions (w_ledger w1) = acquisitions (w_ledger w)" by blast
  then have "acq_state_at (w_ledger w1) ?avid = Some (aq_state record)"
    using assms(4) by (simp add: acq_state_at_def get_acq_def)
  from repark_run [OF assms(1-3) this edge, of n] w1(1) obtain r t where
    r: "get_acq (w_ledger w') ?avid = Some r" "aq_state r = Resolve_Failed"
    "aq_next_action_at r = Some t" "sv_clock sv (w_tick w1) < t" by auto
  have "sv_clock sv (w_tick w) \<le> sv_clock sv (w_tick w1)" using assms(2) w1(2) by (auto dest: monoD)
  with r show ?thesis by (auto simp: due_row_def timer_def)
qed

theorem retry_rearms_witness:
  "\<exists>w' r. retry 3 demo_services demo_intake (demo_row Exhausted) None
        (demo_world (demo_ledger Exhausted AError AError)) = (Value NO_MAGNET, w')
     \<and> get_acq (w_ledger w') ''ABC-123'' = Some r \<and> aq_state r = Resolve_Failed"
proof -
  let ?w = "demo_world (demo_ledger Exhausted AError AError)"
  obtain w' where run: "retry 3 demo_services demo_intake (demo_row Exhausted) None ?w = (Value NO_MAGNET, w')"
    by (auto simp: retry_def path_or_def demo_row_def resolve_def catch_io_def bind_io_def ask_def or_raise_def
        ret_def collect_def Let_def repark_def ensure_release_date_def now_io_def
        db_try_def transition_def demo_intake_def)
  from retry_rearms [OF demo_quiet demo_clock _ _ _ run] run show ?thesis
    by (auto simp: demo_intake_def DUE_STATES_def RETRYABLE_STATES_def)
qed

text \<open>
  A queued title is picked up by the next pass: after a queue that was accepted the row
  is due from that moment on, whatever its state was.
\<close>

lemma queued_is_due:
  assumes "quiet sv" and "queue sv avid source dir rd w = (Value QUEUED, w')"
    and "sv_clock sv (w_tick w) \<le> now"
  shows "\<exists>r. get_acq (w_ledger w') avid = Some r \<and> due_row now r \<and> aq_task_dir_path r \<noteq> None"
proof -
  let ?now = "sv_clock sv (w_tick w)"
  let ?l = "w_ledger w"
  let ?d = "discover ?l avid source ?now (Some dir) (Some ?now) rd False []"
  have acc: "fst ?d" and l': "w_ledger w' = snd ?d"
    using assms(2)
    by (auto simp: queue_def bind_io_def now_io_run db_quiet [OF assms(1)] ret_def add_stat_def split: if_splits)
  show ?thesis
  proof (cases "get_acq ?l avid")
    case None
    from discover_new [OF None, of source ?now "Some dir" "Some ?now" rd False "[]"] l' show ?thesis
      using assms(3) by (simp add: due_row_def timer_def DUE_STATES_def)
  next
    case (Some e)
    note known = discover_known [OF Some, of source ?now "Some dir" "Some ?now" rd False "[]"]
    have "aq_state e \<in> set DUE_STATES"
      using acc known(1) by (auto simp: sighting_accepted_def DUE_STATES_def split: if_splits)
    then show ?thesis
      using acc known l' assms(3)
      by (auto simp: due_row_def timer_def sighted_row_def Let_def)
  qed
qed

end
