(* ===== verification/Paths.thy ===== *)
theory Paths
  imports Texts
begin

text \<open>
  Python's pure POSIX paths as strings: the parts of a path, joining, the parent and
  \<^verbatim>\<open>relative_to\<close>; and decimal numerals as f-strings render them. Used by every
  component that turns library paths into CloudDrive API paths and back.
\<close>

section \<open>Parts\<close>

abbreviation slash :: char where
  "slash \<equiv> CHR ''/''"

fun split_slash :: "string \<Rightarrow> string \<Rightarrow> string list" where
  "split_slash acc [] = [rev acc]"
| "split_slash acc (c # s) = (if c = slash then rev acc # split_slash [] s else split_slash (c # acc) s)"

text \<open>The root of a path: one slash, the two POSIX sets apart, or none.\<close>

definition path_root :: "string \<Rightarrow> string" where
  "path_root p =
     (if take 2 p = ''//'' \<and> take 3 p \<noteq> ''///'' then ''//''
      else if take 1 p = ''/'' then ''/'' else [])"

definition path_names :: "string \<Rightarrow> string list" where
  "path_names p = filter (\<lambda>c. c \<noteq> [] \<and> c \<noteq> ''.'') (split_slash [] p)"

fun join_slash :: "string list \<Rightarrow> string" where
  "join_slash [] = []"
| "join_slash [n] = n"
| "join_slash (n # m # ns) = n @ slash # join_slash (m # ns)"

text \<open>\<^verbatim>\<open>str\<close> of a path; the empty relative path is a dot.\<close>

definition path_str :: "string \<Rightarrow> string list \<Rightarrow> string" where
  "path_str root names = (if root = [] \<and> names = [] then ''.'' else root @ join_slash names)"

definition path_norm :: "string \<Rightarrow> string" where
  "path_norm p = path_str (path_root p) (path_names p)"

definition is_absolute :: "string \<Rightarrow> bool" where
  "is_absolute p \<longleftrightarrow> path_root p \<noteq> []"

text \<open>\<^verbatim>\<open>p / q\<close>: an absolute second path replaces the first.\<close>

definition path_join :: "string \<Rightarrow> string \<Rightarrow> string" where
  "path_join p q =
     (if is_absolute q then path_norm q
      else path_str (path_root p) (path_names p @ path_names q))"

definition path_parent :: "string \<Rightarrow> string" where
  "path_parent p = path_str (path_root p) (butlast (path_names p))"

definition path_name :: "string \<Rightarrow> string" where
  "path_name p = (if path_names p = [] then [] else last (path_names p))"

text \<open>\<^verbatim>\<open>PurePosixPath(p).relative_to(base)\<close>, as its parts; None is the ValueError.\<close>

definition relative_parts :: "string \<Rightarrow> string \<Rightarrow> string list option" where
  "relative_parts p base =
     (if path_root p = path_root base
         \<and> take (length (path_names base)) (path_names p) = path_names base
      then Some (drop (length (path_names base)) (path_names p)) else None)"

text \<open>The suffix and the stem of a name: split at its last dot, unless that begins or ends it.\<close>

definition path_suffix :: "string \<Rightarrow> string" where
  "path_suffix p =
     (let name = path_name p;
          ext = rev (takeWhile (\<lambda>c. c \<noteq> CHR ''.'') (rev name));
          i = length name - Suc (length ext)
      in if CHR ''.'' \<in> set name \<and> 0 < i \<and> ext \<noteq> [] then drop i name else [])"

definition path_stem :: "string \<Rightarrow> string" where
  "path_stem p = take (length (path_name p) - length (path_suffix p)) (path_name p)"

section \<open>Numerals\<close>

fun digits_of :: "nat \<Rightarrow> string" where
  "digits_of n = (if n < 10 then [char_of (48 + n)] else digits_of (n div 10) @ [char_of (48 + n mod 10)])"

declare digits_of.simps [simp del]

definition str_int :: "int \<Rightarrow> string" where
  "str_int i = (if i < 0 then CHR ''-'' # digits_of (nat (- i)) else digits_of (nat i))"

section \<open>Lemmas\<close>

text \<open>A proper name has no slash and is neither empty nor a dot.\<close>

definition proper_name :: "string \<Rightarrow> bool" where
  "proper_name n \<longleftrightarrow> n \<noteq> [] \<and> n \<noteq> ''.'' \<and> slash \<notin> set n"

lemma split_slash_no_slash: "slash \<notin> set n \<Longrightarrow> split_slash acc n = [rev acc @ n]"
  by (induction n arbitrary: acc) auto

lemma split_slash_append:
  "slash \<notin> set n \<Longrightarrow> split_slash acc (n @ slash # s) = (rev acc @ n) # split_slash [] s"
  by (induction n arbitrary: acc) auto

lemma split_slash_elems: "slash \<notin> set acc \<Longrightarrow> x \<in> set (split_slash acc s) \<Longrightarrow> slash \<notin> set x"
proof (induction s arbitrary: acc)
  case (Cons a s)
  show ?case
    using Cons.prems Cons.IH [of "[]"] Cons.IH [of "a # acc"] by (cases "a = slash") auto
qed auto

lemma path_names_proper: "list_all proper_name (path_names p)"
  using split_slash_elems [of "[]" _ p] by (auto simp: path_names_def proper_name_def list_all_iff)

lemma split_join:
  "list_all proper_name ns \<Longrightarrow> ns \<noteq> [] \<Longrightarrow> split_slash [] (join_slash ns) = ns"
  by (induction ns rule: join_slash.induct) (auto simp: proper_name_def split_slash_no_slash split_slash_append)

lemma join_slash_head:
  assumes "list_all proper_name ns" and "join_slash ns = c # s"
  shows "c \<noteq> slash"
proof (cases ns rule: join_slash.cases)
  case (3 n m ms)
  then show ?thesis using assms by (cases n) (auto simp: proper_name_def)
qed (use assms in \<open>auto simp: proper_name_def\<close>)

lemma path_names_path_str:
  assumes "list_all proper_name ns" and "root = ''/'' \<or> root = [] \<and> ns \<noteq> []"
  shows "path_names (path_str root ns) = ns"
proof (cases ns)
  case Nil
  with assms(2) show ?thesis by (simp add: path_str_def path_names_def)
next
  case (Cons n ms)
  then have "split_slash [] (join_slash ns) = ns" using assms(1) split_join by blast
  moreover have "filter (\<lambda>c. c \<noteq> [] \<and> c \<noteq> ''.'') ns = ns"
    using assms(1) by (auto simp: proper_name_def list_all_iff intro: filter_True)
  ultimately show ?thesis
    using assms(2) Cons by (auto simp: path_str_def path_names_def)
qed

lemma path_root_path_str:
  assumes "list_all proper_name ns" and "root = ''/'' \<or> root = [] \<and> ns \<noteq> []"
  shows "path_root (path_str root ns) = root"
proof -
  have "join_slash ns = [] \<or> hd (join_slash ns) \<noteq> slash"
    using join_slash_head [OF assms(1)] by (cases "join_slash ns") auto
  then show ?thesis
    using assms(2) by (cases "join_slash ns") (auto simp: path_str_def path_root_def)
qed

end
