(* ===== verification/Tracker.thy ===== *)
theory Tracker
  imports Intake_Laws Paths
begin

text \<open>
  \<^verbatim>\<open>monitor/tracker.py\<close> and the functions of \<^verbatim>\<open>bootstrap.py\<close> it is wired
  with (\<^verbatim>\<open>submit_magnet\<close>, \<^verbatim>\<open>tracker_poll\<close>): one pass over CloudDrive's task
  lists. The archiver it calls (\<^verbatim>\<open>monitor/archive.py\<close>) answers through
  \<open>services\<close>. A listing is one thread call, so it reads the file system at one tick.
\<close>

section \<open>Settings\<close>

record tracker_route =
  tr_root :: string
  tr_dst :: string
  tr_priority :: bool

record tracker_settings =
  ts_task_dir_paths :: "string list"
  ts_routes :: "tracker_route list"
  ts_stall_timeout_hours :: int
  ts_max_attempts :: nat
  ts_submit_grace_seconds :: int
  ts_library_mount_prefix :: string
  ts_has_lookup :: bool
  ts_offline_dirs :: "string list"

definition CLEAR_BATCH :: nat where
  "CLEAR_BATCH = 100"

text \<open>\<^verbatim>\<open>TrackerSettings.from_config\<close>: the priority table's routes first.\<close>

definition routes_from_config ::
  "string \<Rightarrow> (string \<times> string) list \<Rightarrow> (string \<times> string) list \<Rightarrow> tracker_route list" where
  "routes_from_config src_dir priority_mapping mapping =
     map (\<lambda>e. \<lparr>tr_root = path_join src_dir (fst e), tr_dst = snd e, tr_priority = True\<rparr>) priority_mapping
     @ map (\<lambda>e. \<lparr>tr_root = path_join src_dir (fst e), tr_dst = snd e, tr_priority = False\<rparr>) mapping"

fun attempt_text :: "attempt_state \<Rightarrow> string" where
  "attempt_text APending = ''pending''"
| "attempt_text ASubmitted = ''submitted''"
| "attempt_text ADownloading = ''downloading''"
| "attempt_text AFinished = ''finished''"
| "attempt_text AArchiving = ''archiving''"
| "attempt_text AArchived = ''archived''"
| "attempt_text AJunk = ''junk''"
| "attempt_text AError = ''error''"
| "attempt_text AStalled = ''stalled''"
| "attempt_text ALost = ''lost''"

section \<open>Submitting and removing tasks\<close>

text \<open>\<^verbatim>\<open>_submit_magnet_at_cloud\<close>: queue under the directory pinned on the row.\<close>

definition submit_at_cloud :: "services \<Rightarrow> tracker_settings \<Rightarrow> string \<Rightarrow> string \<Rightarrow> bool io" where
  "submit_at_cloud sv ts avid magnet =
     bind_io (ask (sv_cloud_ready sv)) (\<lambda>ready.
       if \<not> ready then ret False
       else
         bind_io (db_read sv (\<lambda>l. get_acq l avid)) (\<lambda>record.
           let task_dir = (case record of None \<Rightarrow> None | Some r \<Rightarrow> aq_task_dir_path r);
               add = (\<lambda>d. bind_io (act (AddOffline magnet d) (\<lambda>n. sv_add_offline sv n magnet d))
                       (\<lambda>r. ret (case r of Inl e \<Rightarrow> already_queued e | Inr success \<Rightarrow> success)))
           in case task_dir of
                Some d \<Rightarrow> add d
              | None \<Rightarrow> (case ts_offline_dirs ts of [] \<Rightarrow> ret False | d # _ \<Rightarrow> add d)))"

definition submit_magnet :: "services \<Rightarrow> tracker_settings \<Rightarrow> string \<Rightarrow> string \<Rightarrow> bool io" where
  "submit_magnet sv ts avid magnet =
     bind_io (submit_at_cloud sv ts avid magnet) (\<lambda>accepted.
       if accepted then bind_io (act NotifySubmission (\<lambda>_. ())) (\<lambda>_. ret True) else ret False)"

definition remove_task :: "services \<Rightarrow> string \<Rightarrow> string \<Rightarrow> unit io" where
  "remove_task sv info_hash task_dir =
     bind_io (act (RemoveOffline [info_hash] task_dir True)
                (\<lambda>n. sv_remove_offline sv n [info_hash] task_dir True)) (\<lambda>r.
       case r of Some _ \<Rightarrow> ret () | None \<Rightarrow> add_stat ''tasks_removed'' 1)"

section \<open>The next magnet\<close>

definition exhaust :: "services \<Rightarrow> tracker_settings \<Rightarrow> string \<Rightarrow> unit io" where
  "exhaust sv ts avid =
     bind_io (db_read sv (\<lambda>l. get_acq l avid)) (\<lambda>record.
       case record of
         None \<Rightarrow> ret ()
       | Some r \<Rightarrow>
           (if aq_state r \<noteq> Downloading then ret ()
            else
              bind_io (ensure_release_date sv (ts_has_lookup ts) r) (\<lambda>release_date.
              bind_io (now_io sv) (\<lambda>now.
              bind_io (db_try sv (\<lambda>l. transition l avid Downloading Exhausted now
                         (Some ''every magnet was tried'')
                         (Some (next_resolve_at now release_date (hours (ts_stall_timeout_hours ts)))) None)) (\<lambda>_.
                add_stat ''exhausted'' 1)))))"

definition magnets_tried :: "acquisition \<Rightarrow> attempt list \<Rightarrow> nat" where
  "magnets_tried r as =
     (let floor = (case aq_replace_after_attempt r of Some n \<Rightarrow> n | None \<Rightarrow> 0)
      in length (filter (\<lambda>a. at_state a \<noteq> APending \<and> floor < at_no a) as))"

fun try_next :: "nat \<Rightarrow> services \<Rightarrow> tracker_settings \<Rightarrow> string \<Rightarrow> unit io" where
  "try_next 0 sv ts avid = stuck"
| "try_next (Suc fuel) sv ts avid =
     bind_io (db_read sv (\<lambda>l. get_acq l avid)) (\<lambda>record.
       case record of
         None \<Rightarrow> ret ()
       | Some r \<Rightarrow>
           (if aq_state r \<noteq> Downloading then ret ()
            else
              bind_io (db_read sv (\<lambda>l. attempts_for l avid)) (\<lambda>as.
                if ts_max_attempts ts \<le> magnets_tried r as then exhaust sv ts avid
                else
                  bind_io (now_io sv) (\<lambda>now.
                  bind_io (db sv (\<lambda>l. claim_next_pending l avid now)) (\<lambda>claimed.
                    case claimed of
                      None \<Rightarrow> exhaust sv ts avid
                    | Some a \<Rightarrow>
                        bind_io (submit_magnet sv ts avid (at_magnet a)) (\<lambda>accepted.
                          if accepted then add_stat ''retried'' 1
                          else
                            bind_io (db_try sv (\<lambda>l. transition_attempt l avid (at_no a) ASubmitted AError now
                                       (Some ''failed to add the offline task''))) (\<lambda>_.
                              try_next fuel sv ts avid)))))))"

definition give_up ::
  "nat \<Rightarrow> services \<Rightarrow> tracker_settings \<Rightarrow> attempt \<Rightarrow> attempt_state \<Rightarrow> string \<Rightarrow> bool io" where
  "give_up fuel sv ts a state reason =
     bind_io (now_io sv) (\<lambda>now.
     bind_io (db_try sv (\<lambda>l. transition_attempt l (at_avid a) (at_no a) (at_state a) state now (Some reason)))
       (\<lambda>moved.
         if \<not> moved then ret False
         else
           bind_io (add_stat (attempt_text state) 1) (\<lambda>_.
           bind_io (try_next fuel sv ts (at_avid a)) (\<lambda>_. ret True))))"

section \<open>Locating a download\<close>

fun find_in :: "services \<Rightarrow> nat \<Rightarrow> string \<Rightarrow> tracker_route \<Rightarrow> string list \<Rightarrow> string option" where
  "find_in sv n avid route [] = None"
| "find_in sv n avid route (name # names) =
     (let folder = path_join (tr_root route) name
      in if sv_is_dir sv n folder \<and> sv_avid_of sv name = avid then Some folder
         else find_in sv n avid route names)"

fun find_folder_for ::
  "services \<Rightarrow> nat \<Rightarrow> string \<Rightarrow> tracker_route list \<Rightarrow> service_failure + (string \<times> tracker_route) option" where
  "find_folder_for sv n avid [] = Inr None"
| "find_folder_for sv n avid (route # routes) =
     (if \<not> sv_is_dir sv n (tr_root route) then find_folder_for sv n avid routes
      else
        (case sv_iterdir sv n (tr_root route) of
           Inl e \<Rightarrow> Inl e
         | Inr names \<Rightarrow>
             (case find_in sv n avid route (sort names) of
                Some folder \<Rightarrow> Inr (Some (folder, route))
              | None \<Rightarrow> find_folder_for sv n avid routes)))"

definition locate ::
  "services \<Rightarrow> tracker_settings \<Rightarrow> nat \<Rightarrow> string \<Rightarrow> string
     \<Rightarrow> service_failure + (string \<times> tracker_route) option" where
  "locate sv ts n name avid =
     (case find (\<lambda>route. sv_is_dir sv n (path_join (tr_root route) name)) (ts_routes ts) of
        Some route \<Rightarrow> Inr (Some (path_join (tr_root route) name, route))
      | None \<Rightarrow> find_folder_for sv n avid (ts_routes ts))"

definition refresh_mount :: "services \<Rightarrow> offline_task \<Rightarrow> string \<Rightarrow> unit io" where
  "refresh_mount sv task task_dir =
     bind_io (ask (\<lambda>n. sv_list_directory sv n task_dir)) (\<lambda>r.
       case r of
         Inl _ \<Rightarrow> ret ()
       | Inr _ \<Rightarrow>
           bind_io (ask (\<lambda>n. sv_list_directory sv n (task_dir @ ''/'' @ ot_name task))) (\<lambda>_. ret ()))"

section \<open>Filing a claimed download\<close>

definition api_path :: "string \<Rightarrow> string \<Rightarrow> string option" where
  "api_path path mount_prefix =
     (case relative_parts path mount_prefix of
        None \<Rightarrow> None
      | Some names \<Rightarrow> Some (path_str ''/'' names))"

definition result_of :: "archive_outcome \<Rightarrow> string \<Rightarrow> string \<Rightarrow> archive_result" where
  "result_of outcome avid reason =
     \<lparr>ar_outcome = outcome, ar_avid = avid, ar_paths = [], ar_reason = reason\<rparr>"

text \<open>\<^verbatim>\<open>_cloud_listed\<close>: one fresh listing per directory, a missing one skipped.\<close>

fun list_all_dirs :: "services \<Rightarrow> string list \<Rightarrow> string list io" where
  "list_all_dirs sv [] = ret []"
| "list_all_dirs sv (d # ds) =
     bind_io (ask (\<lambda>n. sv_list_directory sv n d)) (\<lambda>r.
       case r of
         Inl e \<Rightarrow>
           (if e = NotFound then list_all_dirs sv ds else raise_io (ServiceError e))
       | Inr entries \<Rightarrow>
           bind_io (list_all_dirs sv ds) (\<lambda>rest.
             ret (map fst (filter (\<lambda>e. \<not> snd e) entries) @ rest)))"

definition cloud_listed :: "services \<Rightarrow> string list \<Rightarrow> string list io" where
  "cloud_listed sv api_paths =
     bind_io (list_all_dirs sv (sort (remdups (map path_parent api_paths)))) (\<lambda>listed.
       ret (filter (\<lambda>p. p \<in> set listed) api_paths))"

fun api_paths_of :: "string \<Rightarrow> string list \<Rightarrow> string + string list" where
  "api_paths_of prefix [] = Inr []"
| "api_paths_of prefix (p # ps) =
     (case api_path p prefix of
        None \<Rightarrow> Inl p
      | Some api \<Rightarrow>
          (case api_paths_of prefix ps of Inl q \<Rightarrow> Inl q | Inr apis \<Rightarrow> Inr (api # apis)))"

definition remove_replaced ::
  "services \<Rightarrow> tracker_settings \<Rightarrow> string \<Rightarrow> string list \<Rightarrow> archive_result option io" where
  "remove_replaced sv ts avid replacing =
     (let prefix = ts_library_mount_prefix ts
      in if prefix = []
         then ret (Some (result_of ONeedsAttention avid
                ''a replacement needs merge.cloud_mount_prefix to delete the old copy''))
         else
           bind_io (bind_io (ask (\<lambda>n. sv_replaced_copies sv n avid replacing)) or_raise) (\<lambda>present.
             if present = [] then ret None
             else
               (case api_paths_of prefix present of
                  Inl path \<Rightarrow> ret (Some (result_of ONeedsAttention avid
                    (path @ '' is outside the CloudDrive mount '' @ prefix)))
                | Inr apis \<Rightarrow>
                    bind_io (cloud_listed sv apis) (\<lambda>listed.
                    bind_io (if listed = [] then ret ()
                             else
                               bind_io (act (DeleteFiles listed) (\<lambda>n. sv_delete_files sv n listed)) (\<lambda>r.
                                 case r of
                                   Some e \<Rightarrow> raise_io (ServiceError e)
                                 | None \<Rightarrow> add_stat ''replaced_copies_deleted'' (int (length listed)))) (\<lambda>_.
                    bind_io (cloud_listed sv apis) (\<lambda>_.
                    bind_io (bind_io (ask (\<lambda>n. sv_replaced_copies sv n avid replacing)) or_raise) (\<lambda>still.
                      if still \<noteq> [] then ret (Some (result_of OFailed avid
                        ''the replaced copy is still on the mount; filing on the next poll''))
                      else ret None)))))))"

text \<open>\<^verbatim>\<open>_file\<close>, after the read of the row: the old copy goes only once the folder is fileable.\<close>

definition file_replacing ::
  "services \<Rightarrow> tracker_settings \<Rightarrow> attempt \<Rightarrow> string \<Rightarrow> tracker_route \<Rightarrow> string list \<Rightarrow> archive_result io" where
  "file_replacing sv ts a folder route replacing =
     (if replacing = []
      then bind_io (act (FileFolder folder (tr_dst route) (at_avid a))
             (\<lambda>n. sv_archive_folder sv n folder (tr_dst route) (tr_priority route) (at_avid a))) or_raise
      else
        bind_io (bind_io (ask (\<lambda>n. sv_inspect_folder sv n folder (at_avid a))) or_raise) (\<lambda>selection.
          case selection of
            Inl result \<Rightarrow> ret result
          | Inr videos \<Rightarrow>
              bind_io (catch_io (remove_replaced sv ts (at_avid a) replacing)
                         (\<lambda>_. ret (Some (result_of OFailed (at_avid a) [])))) (\<lambda>problem.
                case problem of
                  Some result \<Rightarrow> ret result
                | None \<Rightarrow>
                    bind_io (act (FileFolder folder (tr_dst route) (at_avid a))
                      (\<lambda>n. sv_file_selection sv n folder videos (tr_dst route) (tr_priority route)))
                      or_raise)))"

definition replacing_at :: "ledger \<Rightarrow> string \<Rightarrow> string list" where
  "replacing_at l avid = (case get_acq l avid of None \<Rightarrow> [] | Some r \<Rightarrow> replace_paths r)"

definition file_download ::
  "services \<Rightarrow> tracker_settings \<Rightarrow> attempt \<Rightarrow> string \<Rightarrow> tracker_route \<Rightarrow> archive_result io" where
  "file_download sv ts a folder route =
     bind_io (db_read sv (\<lambda>l. replacing_at l (at_avid a))) (file_replacing sv ts a folder route)"

definition settle :: "nat \<Rightarrow> services \<Rightarrow> tracker_settings \<Rightarrow> attempt \<Rightarrow> archive_result \<Rightarrow> unit io" where
  "settle fuel sv ts a result =
     bind_io (now_io sv) (\<lambda>now.
       case ar_outcome result of
         OArchived \<Rightarrow>
           bind_io (db_try sv (\<lambda>l. transition_attempt l (at_avid a) (at_no a) AArchiving AArchived now None)) (\<lambda>_.
           bind_io (db_try sv (\<lambda>l. transition l (at_avid a) Downloading Archived now None None
                      (Some (ar_paths result)))) (\<lambda>_.
             add_stat ''archived'' 1))
       | OJunk \<Rightarrow>
           bind_io (db_try sv (\<lambda>l. transition_attempt l (at_avid a) (at_no a) AArchiving AJunk now None)) (\<lambda>_.
           bind_io (add_stat ''junk'' 1) (\<lambda>_.
             try_next fuel sv ts (at_avid a)))
       | _ \<Rightarrow>
           bind_io (db_try sv (\<lambda>l. transition_attempt l (at_avid a) (at_no a) AArchiving AFinished now None)) (\<lambda>_.
             if ar_outcome result = ONeedsAttention then
               bind_io (db_try sv (\<lambda>l. transition l (at_avid a) Downloading Needs_Attention now
                          (Some (ar_reason result)) None None)) (\<lambda>_.
                 add_stat ''needs_attention'' 1)
             else ret ()))"

section \<open>One attempt\<close>

definition archive_finished ::
  "nat \<Rightarrow> services \<Rightarrow> tracker_settings \<Rightarrow> attempt \<Rightarrow> offline_task \<Rightarrow> string \<Rightarrow> unit io" where
  "archive_finished fuel sv ts a task task_dir =
     bind_io (now_io sv) (\<lambda>now.
     bind_io (db_read sv (\<lambda>l. get_acq l (at_avid a))) (\<lambda>record.
       if (case record of None \<Rightarrow> True | Some r \<Rightarrow> aq_state r \<noteq> Downloading) then ret ()
       else
         bind_io (if at_state a = AFinished then ret True
                  else db_try sv (\<lambda>l. transition_attempt l (at_avid a) (at_no a) (at_state a) AFinished now None))
           (\<lambda>finished.
             if \<not> finished then ret ()
             else
               bind_io (db_try sv (\<lambda>l. transition_attempt l (at_avid a) (at_no a) AFinished AArchiving now None))
                 (\<lambda>claimed.
                   if \<not> claimed then ret ()
                   else
                     bind_io (refresh_mount sv task task_dir) (\<lambda>_.
                     bind_io (bind_io (ask (\<lambda>n. locate sv ts n (ot_name task) (at_avid a))) or_raise) (\<lambda>located.
                       case located of
                         None \<Rightarrow>
                           bind_io (now_io sv) (\<lambda>later.
                           bind_io (db_try sv (\<lambda>l. transition_attempt l (at_avid a) (at_no a)
                                      AArchiving AFinished later None)) (\<lambda>_. ret ()))
                       | Some (folder, route) \<Rightarrow>
                           bind_io (file_download sv ts a folder route) (\<lambda>result.
                           bind_io (settle fuel sv ts a result) (\<lambda>_.
                             if ar_outcome result = OJunk then remove_task sv (ot_info_hash task) task_dir
                             else ret ()))))))))"

text \<open>The f-string of a stalled attempt: whole days, and the percentage.\<close>

definition stall_reason :: "timedelta \<Rightarrow> int option \<Rightarrow> string" where
  "stall_reason stalled_for progress =
     ''no progress for '' @ str_int (stalled_for div days 1) @ ''d at ''
     @ str_int (case progress of Some p \<Rightarrow> p | None \<Rightarrow> 0) @ ''%''"

definition refresh_progress ::
  "nat \<Rightarrow> services \<Rightarrow> tracker_settings \<Rightarrow> attempt \<Rightarrow> offline_task \<Rightarrow> string \<Rightarrow> unit io" where
  "refresh_progress fuel sv ts a task task_dir =
     bind_io (now_io sv) (\<lambda>now.
     bind_io (db_try sv (\<lambda>l. record_progress l (at_avid a) (at_no a) ADownloading (Some (ot_progress task)) now))
       (\<lambda>moved.
         if moved then ret ()
         else
           (let stalled_for = now - at_updated_at a
            in if hours (ts_stall_timeout_hours ts) \<le> stalled_for then
                 bind_io (give_up fuel sv ts a AStalled (stall_reason stalled_for (at_progress a))) (\<lambda>gave_up.
                   if gave_up then remove_task sv (ot_info_hash task) task_dir else ret ())
               else ret ())))"

definition advance ::
  "nat \<Rightarrow> services \<Rightarrow> tracker_settings \<Rightarrow> attempt \<Rightarrow> offline_task \<Rightarrow> string \<Rightarrow> unit io" where
  "advance fuel sv ts a task task_dir =
     (if ot_status task = OFFLINE_FINISHED then archive_finished fuel sv ts a task task_dir
      else if ot_status task = OFFLINE_ERROR then
        bind_io (give_up fuel sv ts a AError ''CloudDrive reported the download failed'') (\<lambda>gave_up.
          if gave_up then remove_task sv (ot_info_hash task) task_dir else ret ())
      else if at_state a \<in> {ASubmitted, ADownloading} then refresh_progress fuel sv ts a task task_dir
      else ret ())"

section \<open>Tasks that vanished\<close>

definition archive_orphaned ::
  "nat \<Rightarrow> services \<Rightarrow> tracker_settings \<Rightarrow> attempt \<Rightarrow> string \<Rightarrow> tracker_route \<Rightarrow> unit io" where
  "archive_orphaned fuel sv ts a folder route =
     bind_io (now_io sv) (\<lambda>now.
     bind_io (db_try sv (\<lambda>l. transition_attempt l (at_avid a) (at_no a) (at_state a) AFinished now None)) (\<lambda>finished.
       if \<not> finished then ret ()
       else
         bind_io (db_try sv (\<lambda>l. transition_attempt l (at_avid a) (at_no a) AFinished AArchiving now None)) (\<lambda>claimed.
           if \<not> claimed then ret ()
           else
             bind_io (file_download sv ts a folder route) (\<lambda>result.
               settle fuel sv ts a result))))"

definition sweep_one ::
  "nat \<Rightarrow> services \<Rightarrow> tracker_settings \<Rightarrow> string list \<Rightarrow> datetime \<Rightarrow> attempt \<Rightarrow> unit io" where
  "sweep_one fuel sv ts listed_hashes now a =
     bind_io (check_cancelled sv) (\<lambda>_.
       case at_info_hash a of
         None \<Rightarrow> ret ()
       | Some h \<Rightarrow>
           (if h \<in> set listed_hashes then ret ()
            else if (case at_submitted_at a of
                       None \<Rightarrow> False
                     | Some t \<Rightarrow> now - t < seconds (ts_submit_grace_seconds ts)) then ret ()
            else
              bind_io (bind_io (ask (\<lambda>n. find_folder_for sv n (at_avid a) (ts_routes ts))) or_raise) (\<lambda>located.
                case located of
                  Some (folder, route) \<Rightarrow> archive_orphaned fuel sv ts a folder route
                | None \<Rightarrow>
                    bind_io (give_up fuel sv ts a ALost ''CloudDrive no longer lists this task'')
                      (\<lambda>_. ret ()))))"

definition sweep_lost :: "nat \<Rightarrow> services \<Rightarrow> tracker_settings \<Rightarrow> string list \<Rightarrow> unit io" where
  "sweep_lost fuel sv ts listed_hashes =
     bind_io (now_io sv) (\<lambda>now.
     bind_io (db_read sv in_flight_attempts) (\<lambda>as.
       each_io (sweep_one fuel sv ts listed_hashes now) as))"

section \<open>Clearing archived tasks\<close>

fun group_by_dir :: "(string \<times> string) list \<Rightarrow> (string \<times> string list) list" where
  "group_by_dir [] = []"
| "group_by_dir ((h, d) # rest) =
     (d, h # map fst (filter (\<lambda>e. snd e = d) rest)) # group_by_dir (filter (\<lambda>e. snd e \<noteq> d) rest)"

fun batches :: "nat \<Rightarrow> 'a list \<Rightarrow> 'a list list" where
  "batches n [] = []"
| "batches n (x # xs) = (x # take (n - 1) xs) # batches n (drop (n - 1) xs)"

definition clear_batch :: "services \<Rightarrow> string \<Rightarrow> string list \<Rightarrow> unit io" where
  "clear_batch sv task_dir batch =
     bind_io (act (RemoveOffline batch task_dir False)
                (\<lambda>n. sv_remove_offline sv n batch task_dir False)) (\<lambda>r.
       case r of Some _ \<Rightarrow> ret () | None \<Rightarrow> add_stat ''archived_tasks_cleared'' (int (length batch)))"

type_synonym task_index = "(string \<times> offline_task \<times> string) list"

definition clear_archived :: "services \<Rightarrow> task_index \<Rightarrow> unit io" where
  "clear_archived sv by_hash =
     (let finished = map (\<lambda>e. (fst e, snd (snd e)))
                       (filter (\<lambda>e. ot_status (fst (snd e)) = OFFLINE_FINISHED) by_hash)
      in bind_io (db_read sv (\<lambda>l. archived_info_hashes l (map fst finished))) (\<lambda>archived.
           each_io (\<lambda>group. each_io (clear_batch sv (fst group)) (batches CLEAR_BATCH (snd group)))
             (group_by_dir (map (\<lambda>h. (h, the (map_of finished h))) archived))))"

section \<open>The pass\<close>

text \<open>The inner loop over one listing: the first directory that lists a hash keeps it.\<close>

fun index_tasks :: "string \<Rightarrow> offline_task list \<Rightarrow> task_index \<times> int \<Rightarrow> task_index \<times> int" where
  "index_tasks task_dir [] st = st"
| "index_tasks task_dir (t # tasks) (m, duplicates) =
     (if ot_info_hash t = [] then index_tasks task_dir tasks (m, duplicates)
      else if ot_info_hash t \<in> fst ` set m then index_tasks task_dir tasks (m, duplicates + 1)
      else index_tasks task_dir tasks (m @ [(ot_info_hash t, t, task_dir)], duplicates))"

fun gather :: "services \<Rightarrow> string list \<Rightarrow> task_index \<Rightarrow> int \<Rightarrow> (task_index \<times> int) io" where
  "gather sv [] m listed_total = ret (m, listed_total)"
| "gather sv (d # ds) m listed_total =
     bind_io (check_cancelled sv) (\<lambda>_.
     bind_io (bind_io (ask (\<lambda>n. sv_list_offline sv n d)) or_raise) (\<lambda>tasks.
       case index_tasks d tasks (m, 0) of
         (m', duplicates) \<Rightarrow>
           bind_io (add_stat ''duplicate_offline_tasks'' duplicates) (\<lambda>_.
             gather sv ds m' (listed_total + int (length tasks)))))"

definition advance_one :: "nat \<Rightarrow> services \<Rightarrow> tracker_settings \<Rightarrow> task_index \<Rightarrow> string \<times> attempt \<Rightarrow> unit io" where
  "advance_one fuel sv ts by_hash ha =
     bind_io (check_cancelled sv) (\<lambda>_.
       case map_of by_hash (fst ha) of
         None \<Rightarrow> ret ()
       | Some (task, task_dir) \<Rightarrow> advance fuel sv ts (snd ha) task task_dir)"

definition poll :: "nat \<Rightarrow> services \<Rightarrow> tracker_settings \<Rightarrow> unit io" where
  "poll fuel sv ts =
     (if ts_task_dir_paths ts = [] then ret ()
      else
        bind_io (gather sv (ts_task_dir_paths ts) [] 0) (\<lambda>x.
          case x of (by_hash, listed_total) \<Rightarrow>
            bind_io (set_stat ''offline_tasks'' listed_total) (\<lambda>_.
            bind_io (db_read sv (\<lambda>l. attempts_by_info_hash l (map fst by_hash))) (\<lambda>as.
            bind_io (each_io (advance_one fuel sv ts by_hash) as) (\<lambda>_.
            bind_io (sweep_lost fuel sv ts (map fst by_hash)) (\<lambda>_.
              clear_archived sv by_hash))))))"

text \<open>
  \<^verbatim>\<open>tracker_poll\<close>: the poll over the configured directories and the ones with work
  in the ledger, and the resolver leg whatever the poll ended with.
\<close>

definition tracker_poll :: "nat \<Rightarrow> services \<Rightarrow> tracker_settings \<Rightarrow> intake_settings \<Rightarrow> unit io" where
  "tracker_poll fuel sv ts st =
     bind_io (ask (sv_cloud_ready sv)) (\<lambda>ready.
       if \<not> ready then ret ()
       else
         bind_io (db_read sv active_task_dirs) (\<lambda>active.
           let ts' = ts\<lparr>ts_task_dir_paths := dedup (ts_offline_dirs ts @ active)\<rparr>
           in finally_io (poll fuel sv ts')
                (bind_io (ask (sv_cloud_ready sv)) (\<lambda>intake.
                   if \<not> intake then ret ()
                   else
                     bind_io (retry_due fuel sv st
                                (case ts_offline_dirs ts of [] \<Rightarrow> None | d # _ \<Rightarrow> Some d) 50) (\<lambda>_. ret ())))))"

end
