(* ===== verification/Tracker_Laws.thy ===== *)
theory Tracker_Laws
  imports Tracker "HOL-Library.Multiset"
begin

text \<open>
  What a tracker pass guarantees: it moves the ledger by the repository's steps alone; the
  switch to the next magnet always ends, never strands a title and respects the cap; the
  copy a replacement replaces is deleted only for a download that can be filed; only
  archived tasks are cleared; and the two places where the claims of an attempt do not do
  what the module says.
\<close>

definition demo_route :: tracker_route where
  "demo_route = \<lparr>tr_root = ''/mnt/in'', tr_dst = ''lib'', tr_priority = False\<rparr>"

definition demo_tracker :: tracker_settings where
  "demo_tracker = \<lparr>ts_task_dir_paths = [''/in''], ts_routes = [demo_route], ts_stall_timeout_hours = 24,
     ts_max_attempts = 5, ts_submit_grace_seconds = 300, ts_library_mount_prefix = ''/mnt'',
     ts_has_lookup = False, ts_offline_dirs = [''/in'']\<rparr>"

definition demo_task :: "offline_status \<Rightarrow> offline_task" where
  "demo_task s = \<lparr>ot_name = ''ABC-123'', ot_status = s, ot_info_hash = ''A'', ot_progress = 100\<rparr>"

section \<open>The ledger moves only by its own steps\<close>

lemma lm_submit_at_cloud: "lm.keeps sv (submit_at_cloud sv ts avid magnet)"
  unfolding submit_at_cloud_def Let_def
  by (intro lm_basic) (auto intro!: lm_basic split: list.splits option.splits)

lemma lm_submit_magnet: "lm.keeps sv (submit_magnet sv ts avid magnet)"
  unfolding submit_magnet_def by (intro lm_basic lm_submit_at_cloud)

lemma lm_remove_task: "lm.keeps sv (remove_task sv h d)"
  unfolding remove_task_def by (intro lm_basic)

lemma lm_exhaust: "lm.keeps sv (exhaust sv ts avid)"
  unfolding exhaust_def by (intro lm_basic lm_calls lm_ensure_date)

lemma lm_try_next: "lm.keeps sv (try_next fuel sv ts avid)"
  by (induction fuel) (auto intro!: lm_basic lm_calls lm_exhaust lm_submit_magnet)

lemma lm_give_up: "lm.keeps sv (give_up fuel sv ts a s r)"
  unfolding give_up_def by (intro lm_basic lm_calls lm_try_next)

lemma lm_refresh_mount: "lm.keeps sv (refresh_mount sv t d)"
  unfolding refresh_mount_def by (intro lm_basic)

lemma lm_list_all_dirs: "lm.keeps sv (list_all_dirs sv ds)"
  by (induction ds) (auto intro!: lm_basic)

lemma lm_cloud_listed: "lm.keeps sv (cloud_listed sv ps)"
  unfolding cloud_listed_def by (intro lm_basic lm_list_all_dirs)

lemma lm_remove_replaced: "lm.keeps sv (remove_replaced sv ts avid ps)"
  unfolding remove_replaced_def Let_def by (intro lm_basic lm_cloud_listed)

lemma lm_file_download: "lm.keeps sv (file_download sv ts a folder route)"
  unfolding file_download_def file_replacing_def by (intro lm_basic lm_remove_replaced)

lemma lm_settle: "lm.keeps sv (settle fuel sv ts a r)"
  unfolding settle_def
  by (intro lm_basic lm_calls) (auto intro!: lm_basic lm_calls lm_try_next split: archive_outcome.splits)

lemma lm_archive_finished: "lm.keeps sv (archive_finished fuel sv ts a t d)"
  unfolding archive_finished_def
  by (intro lm_basic lm_calls lm_refresh_mount lm_file_download lm_settle lm_remove_task)

lemma lm_advance: "lm.keeps sv (advance fuel sv ts a t d)"
  unfolding advance_def refresh_progress_def Let_def
  by (intro lm_basic lm_calls lm_archive_finished lm_give_up lm_remove_task)

lemma lm_sweep_lost: "lm.keeps sv (sweep_lost fuel sv ts hs)"
  unfolding sweep_lost_def sweep_one_def archive_orphaned_def
  by (intro lm_basic lm_calls lm_give_up lm_file_download lm_settle)

lemma lm_clear_archived: "lm.keeps sv (clear_archived sv m)"
  unfolding clear_archived_def clear_batch_def Let_def by (intro lm_basic)

lemma lm_gather: "lm.keeps sv (gather sv ds m n)"
  by (induction ds arbitrary: m n) (auto intro!: lm_basic)

lemma lm_poll: "lm.keeps sv (poll fuel sv ts)"
  unfolding poll_def advance_one_def
  by (intro lm_basic lm_gather lm_advance lm_sweep_lost lm_clear_archived)

lemma lm_tracker_poll: "lm.keeps sv (tracker_poll fuel sv ts st)"
  unfolding tracker_poll_def Let_def by (intro lm_basic lm_poll lm_retry_due)

section \<open>The copy a replacement replaces\<close>

definition deletes :: "effect \<Rightarrow> bool" where
  "deletes e \<longleftrightarrow> (case e of DeleteFiles _ \<Rightarrow> True | _ \<Rightarrow> False)"

lemma em_list_all_dirs: "em.keeps P (list_all_dirs sv ds)"
  by (induction ds) (auto intro!: em_basic)

lemma em_cloud_listed: "em.keeps P (cloud_listed sv ps)"
  unfolding cloud_listed_def by (intro em_basic em_list_all_dirs)

lemma cloud_listed_sub: "cloud_listed sv ps w = (Value listed, w') \<Longrightarrow> set listed \<subseteq> set ps"
  by (auto simp: cloud_listed_def bind_io_Value_iff ret_def)

lemma api_paths_of_sound:
  "api_paths_of prefix ps = Inr apis \<Longrightarrow> \<forall>a\<in>set apis. \<exists>p\<in>set ps. api_path p prefix = Some a"
  by (induction ps arbitrary: apis) (auto split: option.splits sum.splits)

text \<open>A deletion names only API paths of files the library still shows of the old copy.\<close>

definition old_copy_paths :: "services \<Rightarrow> string \<Rightarrow> string \<Rightarrow> string list \<Rightarrow> string list \<Rightarrow> bool" where
  "old_copy_paths sv prefix avid replacing ps \<longleftrightarrow>
     prefix \<noteq> [] \<and> (\<exists>n present. sv_replaced_copies sv n avid replacing = Inr present
       \<and> (\<forall>a\<in>set ps. \<exists>p\<in>set present. api_path p prefix = Some a))"

lemma em_remove_replaced:
  assumes "\<And>ps. old_copy_paths sv (ts_library_mount_prefix ts) avid replacing ps \<Longrightarrow> P (DeleteFiles ps)"
  shows "em.keeps P (remove_replaced sv ts avid replacing)"
proof -
  let ?prefix = "ts_library_mount_prefix ts"
  have del: "em.keeps P (act (DeleteFiles listed) q)"
    if "?prefix \<noteq> []" "sv_replaced_copies sv n avid replacing = Inr present"
      "api_paths_of ?prefix present = Inr apis" "set listed \<subseteq> set apis" for n present apis listed q
  proof (intro em_act assms)
    show "old_copy_paths sv ?prefix avid replacing listed"
      using that api_paths_of_sound [OF that(3)] unfolding old_copy_paths_def by blast
  qed
  show ?thesis
    unfolding remove_replaced_def Let_def
  proof (intro em.keeps_if em.keeps_ret em_bind_query)
    fix n present
    assume ctx: "?prefix \<noteq> []" "sv_replaced_copies sv n avid replacing = Inr present"
    let ?still = "bind_io (bind_io (ask (\<lambda>n. sv_replaced_copies sv n avid replacing)) or_raise) (\<lambda>still.
        if still \<noteq> [] then ret (Some (result_of OFailed avid
          ''the replaced copy is still on the mount; filing on the next poll'')) else ret None)"
    have rest: "em.keeps P (bind_io (cloud_listed sv apis) (\<lambda>listed.
        bind_io (if listed = [] then ret ()
                 else bind_io (act (DeleteFiles listed) (\<lambda>n. sv_delete_files sv n listed)) (\<lambda>r.
                        case r of Some e \<Rightarrow> raise_io (ServiceError e)
                        | None \<Rightarrow> add_stat ''replaced_copies_deleted'' (int (length listed)))) (\<lambda>_.
        bind_io (cloud_listed sv apis) (\<lambda>_. ?still))))"
      if "api_paths_of ?prefix present = Inr apis" for apis
    proof (rule em.keeps_bind_yields [OF em_cloud_listed cloud_listed_sub])
      fix listed assume "set listed \<subseteq> set apis"
      then show "em.keeps P (bind_io (if listed = [] then ret ()
                 else bind_io (act (DeleteFiles listed) (\<lambda>n. sv_delete_files sv n listed)) (\<lambda>r.
                        case r of Some e \<Rightarrow> raise_io (ServiceError e)
                        | None \<Rightarrow> add_stat ''replaced_copies_deleted'' (int (length listed)))) (\<lambda>_.
        bind_io (cloud_listed sv apis) (\<lambda>_. ?still)))"
        by (intro em_basic em_cloud_listed del [OF ctx that])
    qed
    show "em.keeps P (case api_paths_of ?prefix present of
        Inl path \<Rightarrow> ret (Some (result_of ONeedsAttention avid
          (path @ '' is outside the CloudDrive mount '' @ ?prefix)))
      | Inr apis \<Rightarrow> bind_io (cloud_listed sv apis) (\<lambda>listed.
        bind_io (if listed = [] then ret ()
                 else bind_io (act (DeleteFiles listed) (\<lambda>n. sv_delete_files sv n listed)) (\<lambda>r.
                        case r of Some e \<Rightarrow> raise_io (ServiceError e)
                        | None \<Rightarrow> add_stat ''replaced_copies_deleted'' (int (length listed)))) (\<lambda>_.
        bind_io (cloud_listed sv apis) (\<lambda>_. ?still))))"
      by (cases "api_paths_of ?prefix present") (auto intro: rest em.keeps_ret)
  qed
qed

text \<open>It answers that the way is clear only when the library shows nothing of the old copy.\<close>

lemma remove_replaced_clear:
  assumes "remove_replaced sv ts avid replacing w = (Value None, w')"
  shows "\<exists>n. sv_replaced_copies sv n avid replacing = Inr []"
proof -
  have last: "\<exists>n. sv_replaced_copies sv n avid replacing = Inr []"
    if "bind_io (bind_io (ask (\<lambda>n. sv_replaced_copies sv n avid replacing)) or_raise) (\<lambda>still.
        if still \<noteq> [] then ret (Some r) else ret None) w1 = (Value None, w2)" for r w1 w2
    using that by (auto simp: bind_io_Value_iff ask_def or_raise_def raise_io_def ret_def
        split: sum.splits if_splits)
  show ?thesis
    using assms last
    by (auto simp: remove_replaced_def Let_def bind_io_Value_iff [where f = "\<lambda>present. if present = [] then _ present else _ present"]
        ask_def or_raise_def raise_io_def ret_def split: if_splits sum.splits)
       (auto simp: bind_io_Value_iff ask_def or_raise_def raise_io_def ret_def split: sum.splits if_splits)
qed

definition safe_filing ::
  "services \<Rightarrow> string \<Rightarrow> string \<Rightarrow> string \<Rightarrow> string list \<Rightarrow> effect \<Rightarrow> bool" where
  "safe_filing sv prefix avid folder replacing e \<longleftrightarrow>
     (case e of
        DeleteFiles ps \<Rightarrow> replacing \<noteq> [] \<and> old_copy_paths sv prefix avid replacing ps
          \<and> (\<exists>n videos. sv_inspect_folder sv n folder avid = Inr (Inr videos))
      | FileFolder f dst v \<Rightarrow> f = folder \<and> v = avid
          \<and> (replacing = [] \<or> (\<exists>n. sv_replaced_copies sv n avid replacing = Inr []))
      | _ \<Rightarrow> False)"

lemma em_file_replacing:
  "em.keeps (safe_filing sv (ts_library_mount_prefix ts) (at_avid a) folder replacing)
     (file_replacing sv ts a folder route replacing)"
proof -
  let ?avid = "at_avid a"
  let ?P = "safe_filing sv (ts_library_mount_prefix ts) ?avid folder replacing"
  let ?clear = "\<exists>n. sv_replaced_copies sv n ?avid replacing = Inr []"
  let ?guard = "catch_io (remove_replaced sv ts ?avid replacing) (\<lambda>_. ret (Some (result_of OFailed ?avid [])))"
  let ?file = "\<lambda>videos. bind_io (act (FileFolder folder (tr_dst route) ?avid)
      (\<lambda>n. sv_file_selection sv n folder videos (tr_dst route) (tr_priority route))) or_raise"
  have filing: "em.keeps ?P (?file videos)" if "?clear" for videos
    by (intro em_basic em_act) (use that in \<open>simp add: safe_filing_def\<close>)
  have guarded: "em.keeps ?P (bind_io ?guard (\<lambda>problem. case problem of Some result \<Rightarrow> ret result
      | None \<Rightarrow> ?file videos))"
    if "replacing \<noteq> []" "sv_inspect_folder sv n folder ?avid = Inr (Inr videos)" for n videos
  proof (rule em.keeps_bind_yields [where Q = "\<lambda>problem. problem = None \<longrightarrow> ?clear"])
    show "em.keeps ?P ?guard"
      by (intro em.keeps_catch em_remove_replaced em.keeps_ret)
         (use that in \<open>auto simp: safe_filing_def\<close>)
    show "problem = None \<longrightarrow> ?clear" if "?guard w = (Value problem, w')" for problem w w'
      using that remove_replaced_clear [of sv ts ?avid replacing w w']
      by (auto simp: catch_io_def ret_def split: prod.splits outcome.splits)
    show "em.keeps ?P (case problem of Some result \<Rightarrow> ret result | None \<Rightarrow> ?file videos)"
      if "problem = None \<longrightarrow> ?clear" for problem
      using that filing by (cases problem) (auto intro: em.keeps_ret)
  qed
  have inspected: "em.keeps ?P (case selection of Inl result \<Rightarrow> ret result
      | Inr videos \<Rightarrow> bind_io ?guard (\<lambda>problem. case problem of Some result \<Rightarrow> ret result
          | None \<Rightarrow> ?file videos))"
    if "replacing \<noteq> []" "sv_inspect_folder sv n folder ?avid = Inr selection" for n selection
    using that guarded by (cases selection) (auto intro: em.keeps_ret)
  show ?thesis
    unfolding file_replacing_def
    by (intro em.keeps_if em_bind_query inspected em.keeps_bind em.keeps_or_raise em_act)
       (simp_all add: safe_filing_def)
qed

text \<open>
  C10: The old copy is safe until its replacement is certain: filing a download deletes
  nothing unless the title is being replaced and the downloaded folder was found to hold a
  video that can be filed; what it deletes are CloudDrive paths of files the library shows
  of the old copy and nothing else; and the new copy is filed only once the library shows
  nothing of the old one.
\<close>

theorem old_copy_deleted_last:
  assumes "quiet sv"
    and "e \<in> set (w_log (snd (file_download sv ts a folder route w)))" and "e \<notin> set (w_log w)"
  shows "safe_filing sv (ts_library_mount_prefix ts) (at_avid a) folder
           (replacing_at (w_ledger w) (at_avid a)) e"
proof -
  let ?rep = "replacing_at (w_ledger w) (at_avid a)"
  have "file_download sv ts a folder route w
      = file_replacing sv ts a folder route ?rep (at_ledger w (w_ledger w))"
    by (simp add: file_download_def bind_io_run [OF db_read_quiet [OF assms(1)]])
  with emitsD [OF em_file_replacing [of sv ts a folder ?rep route], of e "at_ledger w (w_ledger w)"] assms(2,3)
  show ?thesis by simp
qed

text \<open>A title held in one copy, which the library shows until CloudDrive deleted it.\<close>

definition demo_replacing :: services where
  "demo_replacing = demo_services\<lparr>
     sv_replaced_copies := (\<lambda>n _ _. if n < 6 then Inr [''/mnt/lib/ABC-123.mp4''] else Inr []),
     sv_list_directory := (\<lambda>_ _. Inr [(''/lib/ABC-123.mp4'', False)])\<rparr>"

definition demo_replacement :: ledger where
  "demo_replacement = \<lparr>acquisitions = [(demo_row Downloading)\<lparr>aq_replace_paths_json := Some [''lib/ABC-123.mp4'']\<rparr>],
     attempts = [demo_attempt 1 AArchiving]\<rparr>"

theorem old_copy_deleted_last_witness:
  "w_log (snd (file_download demo_replacing demo_tracker (demo_attempt 1 AArchiving) ''/mnt/in/ABC-123'' demo_route
      (demo_world demo_replacement)))
      = [DeleteFiles [''/lib/ABC-123.mp4''], FileFolder ''/mnt/in/ABC-123'' ''lib'' ''ABC-123'']
   \<and> list_all (safe_filing demo_replacing ''/mnt'' ''ABC-123'' ''/mnt/in/ABC-123'' [''lib/ABC-123.mp4''])
      [DeleteFiles [''/lib/ABC-123.mp4''], FileFolder ''/mnt/in/ABC-123'' ''lib'' ''ABC-123'']"
proof -
  let ?run = "file_download demo_replacing demo_tracker (demo_attempt 1 AArchiving) ''/mnt/in/ABC-123'' demo_route
      (demo_world demo_replacement)"
  have quiet: "quiet demo_replacing" using demo_quiet by (simp add: quiet_def demo_replacing_def)
  have log: "w_log (snd ?run) = [DeleteFiles [''/lib/ABC-123.mp4''], FileFolder ''/mnt/in/ABC-123'' ''lib'' ''ABC-123'']"
    by code_simp
  have rep: "replacing_at demo_replacement ''ABC-123'' = [''lib/ABC-123.mp4'']" by code_simp
  have "safe_filing demo_replacing ''/mnt'' ''ABC-123'' ''/mnt/in/ABC-123'' [''lib/ABC-123.mp4''] e"
    if "e \<in> set (w_log (snd ?run))" for e
    using old_copy_deleted_last [OF quiet that] rep by (simp add: demo_tracker_def demo_attempt_def demo_world_def)
  then show ?thesis unfolding log by simp
qed

section \<open>The switch to the next magnet\<close>

lemma submit_at_cloud_run:
  assumes "quiet sv"
  shows "\<exists>b w'. submit_at_cloud sv ts avid m w = (Value b, w') \<and> w_ledger w' = w_ledger w \<and> w_tick w \<le> w_tick w'"
  using assms
  by (auto simp: submit_at_cloud_def Let_def bind_io_def ask_def act_def ret_def db_read_quiet
      split: option.splits list.splits)

lemma submit_magnet_run:
  assumes "quiet sv"
  shows "\<exists>b w'. submit_magnet sv ts avid m w = (Value b, w') \<and> w_ledger w' = w_ledger w \<and> w_tick w \<le> w_tick w'"
proof -
  obtain b w1 where "submit_at_cloud sv ts avid m w = (Value b, w1)" "w_ledger w1 = w_ledger w" "w_tick w \<le> w_tick w1"
    using submit_at_cloud_run [OF assms] by blast
  then show ?thesis by (cases b) (auto simp: submit_magnet_def bind_io_def act_def ret_def)
qed

lemma ensure_date_attempts:
  assumes "quiet sv" and "ensure_release_date sv b record w = (Value rd, w1)"
  shows "attempts (w_ledger w1) = attempts (w_ledger w)
    \<and> (\<forall>k. map_option aq_replace_after_attempt (get_acq (w_ledger w1) k)
          = map_option aq_replace_after_attempt (get_acq (w_ledger w) k))"
proof -
  have find: "w_ledger w' = w_ledger w" if "find_release_date sv avid w = (v, w')" for avid v w'
    using frameD [OF frame_find_date, of sv avid w] that by simp
  have same: "attempts (snd (set_release_date l av d)) = attempts l
    \<and> map_option aq_replace_after_attempt (get_acq (snd (set_release_date l av d)) k)
      = map_option aq_replace_after_attempt (get_acq l k)" for l av d k
    by (simp add: set_release_date_def Let_def get_acq_def row_of_update_where [where key = aq_avid]
        option.map_comp o_def if_distrib cong: if_cong option.map_cong)
  show ?thesis
    using assms same
    by (auto simp: ensure_release_date_def ret_def bind_io_Value_iff db_quiet split: if_splits option.splits)
       (simp_all add: find)
qed

text \<open>Exhausting a title that is downloading parks it with a timer in the future.\<close>

definition replace_floor :: "ledger \<Rightarrow> string \<Rightarrow> nat" where
  "replace_floor l avid =
     (case get_acq l avid of
        None \<Rightarrow> 0
      | Some r \<Rightarrow> (case aq_replace_after_attempt r of Some n \<Rightarrow> n | None \<Rightarrow> 0))"

lemma exhaust_run:
  assumes "quiet sv" and "mono (sv_clock sv)" and "0 < ts_stall_timeout_hours ts"
  shows "\<exists>w'. exhaust sv ts avid w = (Value (), w') \<and> w_tick w \<le> w_tick w'
    \<and> attempts (w_ledger w') = attempts (w_ledger w)
    \<and> replace_floor (w_ledger w') avid = replace_floor (w_ledger w) avid
    \<and> (if acq_state_at (w_ledger w) avid = Some Downloading
       then \<exists>r t. get_acq (w_ledger w') avid = Some r \<and> aq_state r = Exhausted
              \<and> aq_next_action_at r = Some t \<and> sv_clock sv (w_tick w) < t
       else w_ledger w' = w_ledger w)"
proof (cases "acq_state_at (w_ledger w) avid = Some Downloading")
  case False
  then show ?thesis
    by (cases "get_acq (w_ledger w) avid")
       (auto simp: exhaust_def bind_io_def db_read_quiet [OF assms(1)] ret_def acq_state_at_def)
next
  case True
  then obtain r where r: "get_acq (w_ledger w) avid = Some r" "aq_state r = Downloading"
    by (auto simp: acq_state_at_def)
  let ?w0 = "at_ledger w (w_ledger w)"
  obtain rd w1 where ensure: "ensure_release_date sv (ts_has_lookup ts) r ?w0 = (Value rd, w1)"
    "w_tick ?w0 \<le> w_tick w1" "\<forall>k. acq_state_at (w_ledger w1) k = acq_state_at (w_ledger w) k"
    using ensure_date_run [OF assms(1), of "ts_has_lookup ts" r ?w0] by auto
  note same = ensure_date_attempts [OF assms(1) ensure(1)]
  let ?now = "sv_clock sv (w_tick w1)"
  let ?t = "next_resolve_at ?now rd (hours (ts_stall_timeout_hours ts))"
  have "acq_edge Downloading Exhausted" by (simp add: acq_edge_def)
  then obtain b l2 where trans: "transition (w_ledger w1) avid Downloading Exhausted ?now
      (Some ''every magnet was tried'') (Some ?t) None = Inr (b, l2)"
    using transition_Inr by blast
  have "acq_state_at (w_ledger w1) avid = Some Downloading" using ensure(3) True by simp
  then obtain q where q: "get_acq (w_ledger w1) avid = Some q" "aq_state q = Downloading"
    by (auto simp: acq_state_at_def)
  let ?q = "moved_row Exhausted ?now (Some ''every magnet was tried'') (Some ?t) None q"
  have l2: "get_acq l2 avid = Some ?q" "attempts l2 = attempts (w_ledger w1)"
    using get_acq_transition [OF trans, of avid] q transition_InrD [OF trans] by simp_all
  have "exhaust sv ts avid w = add_stat ''exhausted'' 1 (at_ledger (at_ledger w1 (w_ledger w1)) l2)"
    using r ensure(1) trans
    by (simp add: exhaust_def bind_io_def db_read_quiet [OF assms(1)] now_io_run db_try_quiet [OF assms(1)])
  moreover have "sv_clock sv (w_tick w) \<le> ?now" using ensure(2) by (intro monoD [OF assms(2)]) simp
  moreover have "?now < ?t" using assms(3) by (intro next_resolve_at_later) simp
  moreover have "aq_replace_after_attempt q = aq_replace_after_attempt r"
    using same q(1) r(1) by (metis at_ledger_simps(1) option.map_sel option.sel option.simps(3))
  then have "replace_floor l2 avid = replace_floor (w_ledger w) avid"
    by (simp add: replace_floor_def l2(1) r(1) moved_row_def)
  ultimately show ?thesis
    using True l2 same ensure(2) by (auto simp: add_stat_def)
qed

text \<open>The number of magnets of a title that count against the cap.\<close>

definition tried_at :: "ledger \<Rightarrow> string \<Rightarrow> nat" where
  "tried_at l avid =
     count_where (\<lambda>a. at_avid a = avid \<and> at_state a \<noteq> APending \<and> replace_floor l avid < at_no a) (attempts l)"

lemma magnets_tried_at:
  "get_acq l avid = Some r \<Longrightarrow> magnets_tried r (attempts_for l avid) = tried_at l avid"
proof -
  have len: "length (filter q (sort_key f xs)) = length (filter q xs)" for q :: "attempt \<Rightarrow> bool" and f :: "attempt \<Rightarrow> nat" and xs
    by (metis mset_filter mset_sort size_mset)
  assume "get_acq l avid = Some r"
  then show ?thesis
    by (auto simp: magnets_tried_def Let_def attempts_for_def tried_at_def replace_floor_def count_where_def len
        intro!: arg_cong [where f = length] filter_cong)
qed

lemma tried_at_claim:
  assumes "ledger_ok l"
  shows "tried_at (snd (claim_next_pending l avid now)) avid \<le> Suc (tried_at l avid)"
proof -
  from claim_next_pending_serial [OF assms, of avid now] show ?thesis
  proof (elim disjE bexE conjE)
    fix r
    assume c: "claim_next_pending l avid now = (Some (submit_row now r),
        l\<lparr>attempts := set_attempt (attempts l) avid (at_no r) APending (submit_row now)\<rparr>)"
    let ?q = "\<lambda>a. at_avid a = avid \<and> at_state a \<noteq> APending \<and> replace_floor l avid < at_no a"
    let ?p = "\<lambda>a. at_avid a = avid \<and> at_no a = at_no r \<and> at_state a = APending"
    have "count_where ?q (set_attempt rs avid (at_no r) APending (submit_row now))
        \<le> count_where ?q rs + count_where ?p rs" for rs
      by (induction rs) (auto simp: count_where_def set_attempt_def update_where_def)
    moreover have "count_where ?p (attempts l) \<le> 1"
      using attempt_count [OF unique_attempts [OF assms], of avid "at_no r" "\<lambda>a. at_state a = APending"]
      by (auto split: option.splits)
    ultimately have "count_where ?q (set_attempt (attempts l) avid (at_no r) APending (submit_row now))
        \<le> count_where ?q (attempts l) + 1" by (meson add_left_mono le_trans)
    then show ?thesis using c by (simp add: tried_at_def replace_floor_def get_acq_def)
  qed simp
qed

lemma tried_at_transition:
  assumes "transition_attempt l avid no e t now err = Inr (b, l')" and "e \<noteq> APending"
  shows "tried_at l' a = tried_at l a"
proof -
  have l': "l' = l\<lparr>attempts := set_attempt (attempts l) avid no e
      (\<lambda>r. r\<lparr>at_state := t, at_error := err, at_updated_at := now\<rparr>)\<rparr>" and t: "t \<noteq> APending"
    using assms by (cases e; auto simp: transition_attempt_def Let_def split: if_splits)+
  have "count_where (\<lambda>x. at_avid x = a \<and> at_state x \<noteq> APending \<and> m < at_no x)
          (set_attempt rs avid no e (\<lambda>r. r\<lparr>at_state := t, at_error := err, at_updated_at := now\<rparr>))
      = count_where (\<lambda>x. at_avid x = a \<and> at_state x \<noteq> APending \<and> m < at_no x) rs" for rs m
    using t assms(2) by (induction rs) (auto simp: set_attempt_def update_where_def count_where_def)
  then show ?thesis by (simp add: l' tried_at_def replace_floor_def get_acq_def)
qed

lemma try_next_sound:
  assumes "quiet sv" and "mono (sv_clock sv)" and "0 < ts_stall_timeout_hours ts"
    and "ledger_ok (w_ledger w)" and "pending_count (attempts (w_ledger w)) avid < fuel"
  shows "\<exists>w'. try_next fuel sv ts avid w = (Value (), w') \<and> w_tick w \<le> w_tick w'
    \<and> tried_at (w_ledger w') avid \<le> max (ts_max_attempts ts) (tried_at (w_ledger w) avid)
    \<and> (if acq_state_at (w_ledger w) avid = Some Downloading
       then acq_state_at (w_ledger w') avid = Some Downloading
              \<and> (\<exists>no. attempt_state_at (w_ledger w') (avid, no) = Some ASubmitted
                   \<and> attempt_state_at (w_ledger w) (avid, no) = Some APending)
            \<or> (\<exists>r t. get_acq (w_ledger w') avid = Some r \<and> aq_state r = Exhausted
                 \<and> aq_next_action_at r = Some t \<and> sv_clock sv (w_tick w) < t)
       else w_ledger w' = w_ledger w)"
  using assms(4,5)
proof (induction fuel arbitrary: w)
  case 0
  then show ?case by simp
next
  case (Suc fuel)
  let ?l = "w_ledger w"
  let ?w0 = "at_ledger w ?l"
  show ?case
  proof (cases "acq_state_at ?l avid = Some Downloading")
    case False
    then have "try_next (Suc fuel) sv ts avid w = (Value (), ?w0)"
      by (cases "get_acq ?l avid")
         (auto simp: bind_io_def db_read_quiet [OF assms(1)] ret_def acq_state_at_def)
    with False show ?thesis by (simp add: tried_at_def)
  next
    case True
    then obtain r where r: "get_acq ?l avid = Some r" "aq_state r = Downloading"
      by (auto simp: acq_state_at_def)
    let ?w1 = "at_ledger ?w0 ?l"
    note tried = magnets_tried_at [OF r(1)]
    have stop: ?thesis if "try_next (Suc fuel) sv ts avid w = exhaust sv ts avid v"
      "attempts (w_ledger v) = attempts ?l" "acquisitions (w_ledger v) = acquisitions ?l"
      "w_tick w \<le> w_tick v" for v
    proof -
      have state: "acq_state_at (w_ledger v) avid = Some Downloading"
        and floor: "replace_floor (w_ledger v) avid = replace_floor ?l avid"
        using that(3) True by (simp_all add: acq_state_at_def get_acq_def replace_floor_def)
      from exhaust_run [OF assms(1-3), of avid v] obtain w' q t where
        ex: "exhaust sv ts avid v = (Value (), w')" "w_tick v \<le> w_tick w'"
        "attempts (w_ledger w') = attempts (w_ledger v)"
        "replace_floor (w_ledger w') avid = replace_floor (w_ledger v) avid"
        "get_acq (w_ledger w') avid = Some q" "aq_state q = Exhausted"
        "aq_next_action_at q = Some t" "sv_clock sv (w_tick v) < t"
        unfolding state by auto
      have "sv_clock sv (w_tick w) \<le> sv_clock sv (w_tick v)" by (rule monoD [OF assms(2) that(4)])
      with ex that True floor show ?thesis by (auto simp: tried_at_def)
    qed
    show ?thesis
    proof (cases "ts_max_attempts ts \<le> tried_at ?l avid")
      case True
      then show ?thesis
        using r tried by (intro stop [of ?w1]) (simp_all add: bind_io_def db_read_quiet [OF assms(1)])
    next
      case False
      let ?now = "sv_clock sv (w_tick ?w1)"
      obtain claimed l1 where claim: "claim_next_pending ?l avid ?now = (claimed, l1)" by fastforce
      let ?w3 = "at_ledger (at_ledger ?w1 ?l) l1"
      show ?thesis
      proof (cases claimed)
        case None
        then have "l1 = ?l" using no_claim [OF Suc.prems(1)] claim by blast
        then show ?thesis
          using r tried False None claim
          by (intro stop [of ?w3])
             (simp_all add: bind_io_def db_read_quiet [OF assms(1)] now_io_run db_quiet [OF assms(1)])
      next
        case (Some a)
        note c = claim_submitted [OF Suc.prems(1) claim [unfolded Some]]
        have tried1: "tried_at l1 avid \<le> ts_max_attempts ts"
          using tried_at_claim [OF Suc.prems(1), of avid ?now] claim False by simp
        have dl: "acq_state_at l1 avid = Some Downloading"
          using c True by (simp add: acq_state_at_def get_acq_def)
        obtain accepted w4 where sub: "submit_magnet sv ts avid (at_magnet a) ?w3 = (Value accepted, w4)"
          and w4: "w_ledger w4 = l1" "w_tick ?w3 \<le> w_tick w4"
          using submit_magnet_run [OF assms(1), of ts avid "at_magnet a" ?w3] by auto
        have run: "try_next (Suc fuel) sv ts avid w =
            (if accepted then add_stat ''retried'' 1 w4
             else bind_io (db_try sv (\<lambda>l. transition_attempt l avid (at_no a) ASubmitted AError ?now
                     (Some ''failed to add the offline task''))) (\<lambda>_. try_next fuel sv ts avid) w4)"
          using r tried False Some claim sub
          by (simp add: bind_io_def db_read_quiet [OF assms(1)] now_io_run db_quiet [OF assms(1)])
        show ?thesis
        proof (cases accepted)
          case acc: True
          have "attempt_state_at l1 (avid, at_no a) = Some ASubmitted" using c by simp
          moreover have "tried_at l1 avid \<le> max (ts_max_attempts ts) (tried_at ?l avid)"
            using tried1 by simp
          ultimately show ?thesis
            unfolding run using acc dl True w4 c by (auto simp: add_stat_def)
        next
          case rej: False
          have "attempt_state_at l1 (avid, at_no a) = Some ASubmitted" using c by simp
          then obtain l2 where t: "transition_attempt l1 avid (at_no a) ASubmitted AError ?now
                (Some ''failed to add the offline task'') = Inr (True, l2)"
              "ledger_ok l2" "acquisitions l2 = acquisitions l1"
              "\<forall>k. attempt_state_at l2 k = (if k = (avid, at_no a) then Some AError else attempt_state_at l1 k)"
            using transition_attempt_states [of l1 ASubmitted AError avid "at_no a" ?now
                "Some ''failed to add the offline task''"] c
            by (simp add: attempt_edge_def) blast
          have "pending_count (attempts l1) avid < fuel"
            using claim_next_pending_decreases [OF Suc.prems(1) claim [unfolded Some]] Suc.prems(2) by simp
          then have pc: "pending_count (attempts l2) avid < fuel"
            by (rule le_less_trans [OF pending_count_transition [OF t(1)]])
          from Suc.IH [of "at_ledger w4 l2", unfolded at_ledger_simps, OF t(2) pc] obtain w' where
            IH: "try_next fuel sv ts avid (at_ledger w4 l2) = (Value (), w')" "Suc (w_tick w4) \<le> w_tick w'"
            "tried_at (w_ledger w') avid \<le> max (ts_max_attempts ts) (tried_at l2 avid)"
            "if acq_state_at l2 avid = Some Downloading
             then acq_state_at (w_ledger w') avid = Some Downloading
                    \<and> (\<exists>no. attempt_state_at (w_ledger w') (avid, no) = Some ASubmitted
                         \<and> attempt_state_at l2 (avid, no) = Some APending)
                  \<or> (\<exists>r t. get_acq (w_ledger w') avid = Some r \<and> aq_state r = Exhausted
                       \<and> aq_next_action_at r = Some t \<and> sv_clock sv (Suc (w_tick w4)) < t)
             else w_ledger w' = l2"
            by blast
          have "try_next (Suc fuel) sv ts avid w = (Value (), w')"
            unfolding run using rej t(1) w4 IH(1) by (simp add: bind_io_def db_try_quiet [OF assms(1)])
          moreover have "acq_state_at l2 avid = Some Downloading"
            using dl t(3) by (simp add: acq_state_at_def get_acq_def)
          moreover have "tried_at l2 avid \<le> ts_max_attempts ts"
            using tried_at_transition [OF t(1)] tried1 by simp
          moreover have "sv_clock sv (w_tick w) \<le> sv_clock sv (Suc (w_tick w4))"
            using w4(2) by (intro monoD [OF assms(2)]) simp
          moreover have "attempt_state_at l2 (avid, no) = Some APending
              \<Longrightarrow> attempt_state_at ?l (avid, no) = Some APending" for no
            using t(4) c by (auto split: if_splits)
          ultimately show ?thesis using True IH(2-4) w4(2) by (intro exI [of _ w']) fastforce
        qed
      qed
    qed
  qed
qed

text \<open>
  C9: Giving up on a magnet never strands its title. The switch to the next magnet always
  ends, and leaves a title that was downloading either downloading, with a magnet submitted
  that was pending before, or exhausted with a timer strictly in the future; a title in any
  other state is not touched; and the magnets tried never exceed the configured cap, however
  many candidates are pending.
  No one else writes the ledger meanwhile and the clock does not run back.
\<close>

theorem next_magnet_never_strands:
  assumes "quiet sv" and "mono (sv_clock sv)" and "0 < ts_stall_timeout_hours ts"
    and "ledger_ok (w_ledger w)" and "pending_count (attempts (w_ledger w)) avid < fuel"
  shows "\<exists>w'. try_next fuel sv ts avid w = (Value (), w') \<and> w_tick w \<le> w_tick w'
    \<and> tried_at (w_ledger w') avid \<le> max (ts_max_attempts ts) (tried_at (w_ledger w) avid)
    \<and> (if acq_state_at (w_ledger w) avid = Some Downloading
       then acq_state_at (w_ledger w') avid = Some Downloading
              \<and> (\<exists>no. attempt_state_at (w_ledger w') (avid, no) = Some ASubmitted
                   \<and> attempt_state_at (w_ledger w) (avid, no) = Some APending)
            \<or> (\<exists>r t. get_acq (w_ledger w') avid = Some r \<and> aq_state r = Exhausted
                 \<and> aq_next_action_at r = Some t \<and> sv_clock sv (w_tick w) < t)
       else w_ledger w' = w_ledger w)"
  using assms by (rule try_next_sound)

theorem next_magnet_never_strands_witness:
  "\<exists>w'. try_next 3 demo_services demo_tracker ''ABC-123''
        (demo_world (demo_ledger Downloading AError APending)) = (Value (), w')
     \<and> acq_state_at (w_ledger w') ''ABC-123'' \<noteq> None"
proof -
  let ?w = "demo_world (demo_ledger Downloading AError APending)"
  have "acq_state_at (w_ledger ?w) ''ABC-123'' = Some Downloading" by (simp add: acq_state_at_def)
  with next_magnet_never_strands [OF demo_quiet demo_clock, of demo_tracker ?w "''ABC-123''" 3]
    ledger_ok_demo demo_pending [of Downloading AError APending]
  show ?thesis by (auto simp: demo_tracker_def acq_state_at_def)
qed

section \<open>Clearing archived tasks\<close>

lemma batches_props:
  "b \<in> set (batches n xs) \<Longrightarrow> 0 < n \<Longrightarrow> set b \<subseteq> set xs \<and> b \<noteq> [] \<and> length b \<le> n"
proof (induction n xs rule: batches.induct)
  case (2 n x xs)
  have "set (take (n - 1) xs) \<subseteq> set xs" "set (drop (n - 1) xs) \<subseteq> set xs"
    by (rule set_take_subset, rule set_drop_subset)
  with 2 show ?case by fastforce
qed simp

lemma batches_concat: "0 < n \<Longrightarrow> concat (batches n xs) = xs"
  by (induction n xs rule: batches.induct) simp_all

lemma group_by_dir_props: "(d, hs) \<in> set (group_by_dir es) \<Longrightarrow> h \<in> set hs \<Longrightarrow> (h, d) \<in> set es"
  by (induction es rule: group_by_dir.induct) auto

definition clears_archived :: "ledger \<Rightarrow> task_index \<Rightarrow> effect \<Rightarrow> bool" where
  "clears_archived l by_hash e \<longleftrightarrow>
     (case e of
        RemoveOffline hashes dir delete_files \<Rightarrow> \<not> delete_files \<and> hashes \<noteq> [] \<and> length hashes \<le> CLEAR_BATCH
          \<and> (\<forall>h\<in>set hashes.
               (\<exists>task. (h, task, dir) \<in> set by_hash \<and> ot_status task = OFFLINE_FINISHED)
               \<and> (\<exists>r\<in>set (attempts l). at_info_hash r = Some h \<and> at_state r = AArchived)
               \<and> \<not> (\<exists>r\<in>set (attempts l). at_info_hash r = Some h \<and> is_live (at_state r)))
      | _ \<Rightarrow> False)"

text \<open>
  C15: Clearing touches nothing of value: a pass removes only finished tasks the ledger
  archived and no live attempt still needs, always keeping their files, from the directory
  they were listed under and at most a hundred at a time.
\<close>

theorem clearing_keeps_files:
  assumes "quiet sv" and "e \<in> set (w_log (snd (clear_archived sv by_hash w)))" and "e \<notin> set (w_log w)"
  shows "clears_archived (w_ledger w) by_hash e"
proof -
  let ?l = "w_ledger w"
  let ?finished = "map (\<lambda>e. (fst e, snd (snd e)))
                       (filter (\<lambda>e. ot_status (fst (snd e)) = OFFLINE_FINISHED) by_hash)"
  let ?archived = "archived_info_hashes ?l (map fst ?finished)"
  let ?groups = "group_by_dir (map (\<lambda>h. (h, the (map_of ?finished h))) ?archived)"
  let ?loop = "each_io (\<lambda>group. each_io (clear_batch sv (fst group)) (batches CLEAR_BATCH (snd group))) ?groups"
  have run: "clear_archived sv by_hash w = ?loop (at_ledger w ?l)"
    by (simp add: clear_archived_def Let_def bind_io_def db_read_quiet [OF assms(1)])
  have listed: "\<exists>task. (h, task, d) \<in> set by_hash \<and> ot_status task = OFFLINE_FINISHED"
    and archived: "\<exists>r\<in>set (attempts ?l). at_info_hash r = Some h \<and> at_state r = AArchived"
    and dead: "\<not> (\<exists>r\<in>set (attempts ?l). at_info_hash r = Some h \<and> is_live (at_state r))"
    if "(h, d) \<in> set (map (\<lambda>h. (h, the (map_of ?finished h))) ?archived)" for h d
  proof -
    from that have h: "h \<in> set ?archived" and d: "d = the (map_of ?finished h)" by auto
    from h have "h \<in> set (map fst ?finished)"
      unfolding archived_info_hashes_def nonempty_hashes_def
      by (simp only: set_filter set_sort set_remdups mem_Collect_eq)
    then have "h \<in> fst ` set ?finished" by (simp only: set_map)
    then have "map_of ?finished h \<noteq> None" by (simp only: map_of_eq_None_iff not_not)
    then have "map_of ?finished h = Some d" unfolding d by (rule option.collapse [symmetric])
    then have "(h, d) \<in> set ?finished" by (rule map_of_SomeD)
    then show "\<exists>task. (h, task, d) \<in> set by_hash \<and> ot_status task = OFFLINE_FINISHED" by force
    show "\<exists>r\<in>set (attempts ?l). at_info_hash r = Some h \<and> at_state r = AArchived"
      using h by (auto simp: archived_info_hashes_def list_ex_iff)
    show "\<not> (\<exists>r\<in>set (attempts ?l). at_info_hash r = Some h \<and> is_live (at_state r))"
      using h by (auto simp: archived_info_hashes_def list_ex_iff)
  qed
  have "em.keeps (clears_archived ?l by_hash) ?loop"
  proof (intro em.keeps_each_in)
    fix group batch
    assume g: "group \<in> set ?groups" and b: "batch \<in> set (batches CLEAR_BATCH (snd group))"
    note props = batches_props [OF b]
    have hundred: "0 < CLEAR_BATCH" by (simp add: CLEAR_BATCH_def)
    have member: "(h, fst group) \<in> set (map (\<lambda>h. (h, the (map_of ?finished h))) ?archived)"
      if "h \<in> set batch" for h
    proof (rule group_by_dir_props [of _ "snd group"])
      show "(fst group, snd group) \<in> set ?groups" using g by (simp only: prod.collapse)
      show "h \<in> set (snd group)" using props [OF hundred] that by blast
    qed
    have "clears_archived ?l by_hash (RemoveOffline batch (fst group) False)"
      unfolding clears_archived_def effect.case
      using props [OF hundred] listed [OF member] archived [OF member] dead [OF member]
      by (intro conjI ballI) simp_all
    then show "em.keeps (clears_archived ?l by_hash) (clear_batch sv (fst group) batch)"
      unfolding clear_batch_def by (intro em_basic em_act)
  qed
  from emitsD [OF this, of e "at_ledger w ?l"] assms(2,3) run show ?thesis by simp
qed

theorem clearing_keeps_files_witness:
  "clears_archived (demo_ledger Archived AArchived AError)
     [(''A'', demo_task OFFLINE_FINISHED, ''/in'')] (RemoveOffline [''A''] ''/in'' False)"
proof -
  let ?l = "demo_ledger Archived AArchived AError"
  let ?m = "[(''A'', demo_task OFFLINE_FINISHED, ''/in'')]"
  have "archived_info_hashes ?l [''A''] = [''A'']"
    by (simp add: archived_info_hashes_def nonempty_hashes_def demo_defs)
  then have "RemoveOffline [''A''] ''/in'' False \<in> set (w_log (snd (clear_archived demo_services ?m (demo_world ?l))))"
    by (simp add: clear_archived_def Let_def bind_io_def db_read_quiet [OF demo_quiet] demo_task_def
        clear_batch_def act_def add_stat_def ret_def CLEAR_BATCH_def)
  from clearing_keeps_files [OF demo_quiet this] show ?thesis by simp
qed

section \<open>Where the claims fall short\<close>

text \<open>
  C20: A task CloudDrive reports failed after its attempt was found finished aborts the whole
  pass: the tracker asks for a transition the ledger does not have, the exception leaves the
  loop over the attempts, and neither this attempt nor any after it is advanced.
\<close>

theorem failed_task_aborts_pass:
  assumes "quiet sv" and "\<And>n. \<not> sv_stop sv n"
    and "map_of by_hash h = Some (task, dir)" and "ot_status task = OFFLINE_ERROR"
    and "at_state a \<in> {AFinished, AArchiving}"
  shows "\<exists>w'. each_io (advance_one fuel sv ts by_hash) ((h, a) # rest) w
      = (Raised (LedgerError (IllegalAttemptTransition (at_state a) AError)), w')
    \<and> w_ledger w' = w_ledger w \<and> w_log w' = w_log w"
  using assms(2-5)
  by (auto simp: advance_one_def check_cancelled_def advance_def give_up_def bind_io_def ask_def ret_def
      now_io_run db_try_quiet [OF assms(1)] transition_attempt_def)

theorem failed_task_aborts_pass_witness:
  "\<exists>w'. each_io (advance_one 9 demo_services demo_tracker [(''A'', demo_task OFFLINE_ERROR, ''/in'')])
       [(''A'', demo_attempt 1 AFinished), (''B'', demo_attempt 2 ADownloading)]
       (demo_world (demo_ledger Downloading AFinished ADownloading))
     = (Raised (LedgerError (IllegalAttemptTransition AFinished AError)), w')"
  using failed_task_aborts_pass [OF demo_quiet, of "[(''A'', demo_task OFFLINE_ERROR, ''/in'')]" "''A''"
      "demo_task OFFLINE_ERROR" "''/in''" "demo_attempt 1 AFinished" 9 demo_tracker
      "[(''B'', demo_attempt 2 ADownloading)]" "demo_world (demo_ledger Downloading AFinished ADownloading)"]
  by (auto simp: demo_task_def)

lemma refresh_mount_run: "\<exists>w'. refresh_mount sv task d w = (Value (), w') \<and> w_ledger w' = w_ledger w \<and> w_log w' = w_log w"
  by (auto simp: refresh_mount_def bind_io_def ask_def ret_def split: sum.splits)

lemma log_grows: "em.keeps (\<lambda>_. True) m \<Longrightarrow> e \<in> set (w_log w) \<Longrightarrow> e \<in> set (w_log (snd (m w)))"
  by (auto simp: em.keeps_def emits_def) (metis Un_iff set_append)

lemma em_true: "em.keeps (\<lambda>_. True) (file_download sv ts a folder route)"
  unfolding file_download_def file_replacing_def remove_replaced_def cloud_listed_def Let_def
  by (intro em_basic em_act TrueI em_list_all_dirs)

lemma em_true_submit: "em.keeps (\<lambda>_. True) (submit_magnet sv ts avid m)"
  unfolding submit_magnet_def submit_at_cloud_def Let_def
  by (intro em_basic em_act TrueI) (auto intro!: em_basic em_act split: option.splits list.splits)

lemma em_true_find: "em.keeps P (find_release_date sv avid)"
  by (auto simp: find_release_date_def em.keeps_def emits_def bind_io_def now_io_def ask_def
      split: sum.splits option.splits)

lemma em_true_exhaust: "em.keeps (\<lambda>_. True) (exhaust sv ts avid)"
  unfolding exhaust_def ensure_release_date_def by (intro em_basic em_true_find)

lemma em_true_try_next: "em.keeps (\<lambda>_. True) (try_next fuel sv ts avid)"
  by (induction fuel) (auto intro!: em_basic em_true_submit em_true_exhaust)

lemma em_true_settle: "em.keeps (\<lambda>_. True) (settle fuel sv ts a r)"
  unfolding settle_def
  by (intro em_basic) (auto intro!: em_basic em_true_try_next split: archive_outcome.splits)

text \<open>
  C21: The claim on an archiving attempt does not keep a second replica out: a replica whose
  poll lists the attempt while another is archiving it puts it back to finished, claims it
  again, and files the same folder.
\<close>

theorem archiving_claim_taken_over:
  assumes "quiet sv" and "ledger_ok (w_ledger w)"
    and "acq_state_at (w_ledger w) (at_avid a) = Some Downloading"
    and "at_state a = AArchiving"
    and "attempt_state_at (w_ledger w) (at_avid a, at_no a) = Some AArchiving"
    and "replacing_at (w_ledger w) (at_avid a) = []"
    and "\<And>n. locate sv ts n (ot_name task) (at_avid a) = Inr (Some (folder, route))"
  shows "FileFolder folder (tr_dst route) (at_avid a)
           \<in> set (w_log (snd (archive_finished fuel sv ts a task dir w)))"
proof -
  let ?l = "w_ledger w"
  let ?now = "sv_clock sv (w_tick w)"
  obtain r where r: "get_acq ?l (at_avid a) = Some r" "aq_state r = Downloading"
    using assms(3) by (auto simp: acq_state_at_def)
  obtain l1 where l1: "transition_attempt ?l (at_avid a) (at_no a) AArchiving AFinished ?now None = Inr (True, l1)"
    "ledger_ok l1" "acquisitions l1 = acquisitions ?l"
    "attempt_state_at l1 (at_avid a, at_no a) = Some AFinished"
    using transition_attempt_states [OF assms(2) _ assms(5), of AFinished ?now None]
    by (auto simp: attempt_edge_def)
  obtain l2 where l2: "transition_attempt l1 (at_avid a) (at_no a) AFinished AArchiving ?now None = Inr (True, l2)"
    "acquisitions l2 = acquisitions l1"
    using transition_attempt_states [OF l1(2) _ l1(4), of AArchiving ?now None]
    by (auto simp: attempt_edge_def)
  let ?w2 = "at_ledger (at_ledger (at_ledger (at_ledger w ?l) ?l) l1) l2"
  obtain w3 where w3: "refresh_mount sv task dir ?w2 = (Value (), w3)" "w_ledger w3 = l2"
    using refresh_mount_run [of sv task dir ?w2] by auto
  let ?w4 = "w3\<lparr>w_tick := Suc (w_tick w3)\<rparr>"
  let ?rest = "bind_io (file_download sv ts a folder route) (\<lambda>result.
      bind_io (settle fuel sv ts a result) (\<lambda>_.
        if ar_outcome result = OJunk then remove_task sv (ot_info_hash task) dir else ret ()))"
  have run: "archive_finished fuel sv ts a task dir w = ?rest ?w4"
    using r assms(4,7) l1(1) l2(1) w3
    by (simp add: archive_finished_def bind_io_def now_io_run db_read_quiet [OF assms(1)]
        db_try_quiet [OF assms(1)] ask_def or_raise_def ret_def)
  have none: "replacing_at l2 (at_avid a) = []"
    using assms(6) l1(3) l2(2) by (simp add: replacing_at_def get_acq_def)
  have "FileFolder folder (tr_dst route) (at_avid a) \<in> set (w_log (snd (file_download sv ts a folder route ?w4)))"
    using none w3(2)
    by (auto simp: file_download_def file_replacing_def bind_io_def db_read_quiet [OF assms(1)] act_def
        or_raise_def raise_io_def ret_def split: sum.splits)
  moreover have "e \<in> set (w_log (snd (?rest v)))" if "e \<in> set (w_log (snd (file_download sv ts a folder route v)))"
    for e v
  proof -
    have tail: "em.keeps (\<lambda>_. True) (bind_io (settle fuel sv ts a result) (\<lambda>_.
        if ar_outcome result = OJunk then remove_task sv (ot_info_hash task) dir else ret ()))" for result
      unfolding remove_task_def by (intro em_basic em_act em_true_settle TrueI)
    obtain res v' where fd: "file_download sv ts a folder route v = (res, v')" by fastforce
    show ?thesis
    proof (cases res)
      case (Value result)
      then show ?thesis
        using log_grows [OF tail, of e v' result] that fd by (simp add: bind_io_def)
    qed (use that fd in \<open>simp_all add: bind_io_def\<close>)
  qed
  ultimately show ?thesis unfolding run by blast
qed

theorem archiving_claim_taken_over_witness:
  "FileFolder ''/mnt/in/ABC-123'' ''lib'' ''ABC-123''
     \<in> set (w_log (snd (archive_finished 9 demo_services demo_tracker (demo_attempt 1 AArchiving)
          (demo_task OFFLINE_FINISHED) ''/in'' (demo_world (demo_ledger Downloading AArchiving APending)))))"
proof -
  let ?w = "demo_world (demo_ledger Downloading AArchiving APending)"
  have "path_join ''/mnt/in'' ''ABC-123'' = ''/mnt/in/ABC-123''" by code_simp
  then have loc: "locate demo_services demo_tracker n (ot_name (demo_task OFFLINE_FINISHED)) ''ABC-123''
      = Inr (Some (''/mnt/in/ABC-123'', demo_route))" for n
    by (simp add: locate_def demo_tracker_def demo_route_def demo_task_def)
  show ?thesis
    using archiving_claim_taken_over [OF demo_quiet, of ?w "demo_attempt 1 AArchiving" demo_tracker
        "demo_task OFFLINE_FINISHED" "''/mnt/in/ABC-123''" demo_route 9 "''/in''"] loc ledger_ok_demo
    by (simp add: acq_state_at_def attempt_state_at_def replacing_at_def replace_paths_def demo_row_def demo_route_def)
qed

end
