(* ===== verification/Routes.thy ===== *)
theory Routes
  imports Paths
begin

text \<open>
  The intake routes of the archive configuration (\<^verbatim>\<open>ArchiveConfig\<close>) and how a CloudDrive
  directory is matched to one of them: by path suffix, as the mount shows the cloud's tree
  unchanged (\<^verbatim>\<open>ArchivePipeline.route_for_task_dir\<close>).
\<close>

section \<open>The route table\<close>

record archive_routes =
  rt_src_dir :: string
  rt_priority_mapping :: "(string \<times> string) list"
  rt_mapping :: "(string \<times> string) list"

text \<open>\<^verbatim>\<open>ArchivePipeline.route_for_task_dir\<close>; the parts of an absolute path begin with its root.\<close>

definition path_parts :: "string \<Rightarrow> string list" where
  "path_parts p = (if path_root p = [] then path_names p else path_root p # path_names p)"

definition ends_with :: "string list \<Rightarrow> string list \<Rightarrow> bool" where
  "ends_with parts wanted \<longleftrightarrow>
     length wanted \<le> length parts \<and> drop (length parts - length wanted) parts = wanted"

definition route_for_task_dir :: "archive_routes \<Rightarrow> string \<Rightarrow> (string \<times> bool) option" where
  "route_for_task_dir rt task_dir_path =
     (let parts = path_parts task_dir_path;
          wanted = (if take 1 parts = [''/''] then drop 1 parts else parts);
          matches = (\<lambda>e. ends_with (path_parts (path_join (rt_src_dir rt) (fst e))) wanted)
      in if wanted = [] then None
         else
           (case find matches (rt_priority_mapping rt) of
              Some e \<Rightarrow> Some (snd e, True)
            | None \<Rightarrow>
                (case find matches (rt_mapping rt) of
                   Some e \<Rightarrow> Some (snd e, False)
                 | None \<Rightarrow> None)))"

end
