(* ===== verification/Sources.thy ===== *)
theory Sources
  imports Tracker_Laws Routes
begin

text \<open>
  The two sources an operator drives directly: \<^verbatim>\<open>monitor/replace.py\<close>, which hands a
  title of the library back to the acquisition pipeline, and \<^verbatim>\<open>monitor/manual.py\<close>,
  which queues a pasted list; with the route table of \<^verbatim>\<open>monitor/archive.py\<close> and the
  path validation of \<^verbatim>\<open>config/models.py\<close> they rest on.
\<close>

section \<open>Text and paths\<close>

text \<open>\<^verbatim>\<open>normalize_absolute_path\<close>; None is the ValueError.\<close>

definition normalize_absolute_path :: "string \<Rightarrow> string option" where
  "normalize_absolute_path value =
     (let trimmed = strip value
      in if trimmed = [] then Some []
         else if take 1 trimmed \<noteq> ''/'' then None
         else if char_of (0::nat) \<in> set trimmed then None
         else if ''..'' \<in> set (path_names (path_norm trimmed)) then None
         else Some (path_norm trimmed))"

definition parent_of :: "string \<Rightarrow> string option" where
  "parent_of directory =
     (if directory = ''/'' then None
      else
        (let parent = rev (drop 1 (dropWhile (\<lambda>c. c \<noteq> slash) (rev directory)))
         in if parent = [] then Some ''/'' else Some parent))"

section \<open>Replacing a title\<close>

datatype replace_outcome = Replace_Submitted | Replace_No_Magnet | Replace_Submit_Failed

record replace_plan =
  rp_avid :: string
  rp_holdings :: "string list"
  rp_state :: "acq_state option"
  rp_task_dir_path :: "string option"
  rp_blocked :: "string option"

record source_settings =
  ss_routes :: archive_routes
  ss_configured_dirs :: "string list"
  ss_intake :: intake_settings
  ss_tracker :: tracker_settings
  ss_notifies :: bool

definition task_dir_for :: "source_settings \<Rightarrow> acquisition option \<Rightarrow> string list \<Rightarrow> string option" where
  "task_dir_for ss record holdings =
     (let pinned = (case record of
                      None \<Rightarrow> None
                    | Some r \<Rightarrow>
                        (case aq_task_dir_path r of
                           None \<Rightarrow> None
                         | Some d \<Rightarrow> (if d \<noteq> [] \<and> route_for_task_dir (ss_routes ss) d \<noteq> None then Some d else None)));
          held_in = map (\<lambda>p. path_parent (path_parent p)) holdings;
          routed = filter (\<lambda>d. route_for_task_dir (ss_routes ss) d \<noteq> None) (ss_configured_dirs ss)
      in case pinned of
           Some d \<Rightarrow> Some d
         | None \<Rightarrow>
             (case find (\<lambda>d. path_norm (fst (the (route_for_task_dir (ss_routes ss) d))) \<in> set held_in) routed of
                Some d \<Rightarrow> Some d
              | None \<Rightarrow> (case routed of [] \<Rightarrow> None | d # _ \<Rightarrow> Some d)))"

definition replace_plan_for :: "services \<Rightarrow> source_settings \<Rightarrow> string \<Rightarrow> replace_plan io" where
  "replace_plan_for sv ss txt =
     (let avid = sv_avid_of sv (strip txt)
      in if avid = [] then raise_io (Refused ''unreadable_avid'')
         else
           bind_io (bind_io (ask (\<lambda>n. sv_holdings sv n avid None)) or_raise) (\<lambda>holdings.
           bind_io (db_read sv (\<lambda>l. get_acq l avid)) (\<lambda>record.
             let state = map_option aq_state record;
                 task_dir = task_dir_for ss record holdings
             in bind_io (if holdings = [] then ret (Some ''not_in_library'')
                         else if (case state of None \<Rightarrow> False | Some s \<Rightarrow> s \<notin> set REPLACEABLE_STATES)
                         then ret (Some ''acquisition_active'')
                         else if task_dir = None then ret (Some ''no_task_dir'')
                         else bind_io (ask (sv_cloud_ready sv)) (\<lambda>ready.
                                ret (if ready then None else Some ''clouddrive_not_configured''))) (\<lambda>blocked.
                  ret \<lparr>rp_avid = avid, rp_holdings = holdings, rp_state = state,
                       rp_task_dir_path = task_dir, rp_blocked = blocked\<rparr>))))"

definition operator_candidate :: "services \<Rightarrow> string \<Rightarrow> string option \<Rightarrow> candidate option io" where
  "operator_candidate sv avid magnet =
     (case magnet of
        None \<Rightarrow> ret None
      | Some text \<Rightarrow>
          (let m = strip text
           in if m = [] then ret None
              else
                (case extract_info_hash m of
                   None \<Rightarrow> raise_io (Refused ''unusable_magnet'')
                 | Some h \<Rightarrow>
                     (if \<not> is_magnet_link m then raise_io (Refused ''unusable_magnet'')
                      else
                        bind_io (db_read sv (\<lambda>l. attempts_for l avid)) (\<lambda>as.
                          if Some h \<in> set (map at_info_hash as) then raise_io (Refused ''magnet_already_tried'')
                          else ret (Some \<lparr>cd_magnet = m, cd_info_hash = Some h, cd_source = ''manual'',
                                          cd_size_hint = None\<rparr>))))))"

definition submit_operator_magnet ::
  "services \<Rightarrow> source_settings \<Rightarrow> string \<Rightarrow> candidate \<Rightarrow> replace_outcome io" where
  "submit_operator_magnet sv ss avid candidate =
     bind_io (now_io sv) (\<lambda>now.
     bind_io (db_try sv (\<lambda>l. add_attempts l avid [candidate] now)) (\<lambda>added.
       if added = 0 then ret Replace_Submit_Failed
       else
         bind_io (db_read sv (\<lambda>l. attempts_for l avid)) (\<lambda>as.
         bind_io (catch_io (db_try sv (\<lambda>l. claim_attempt l avid (at_no (last as)) now))
                    (\<lambda>e. case e of
                       LedgerError (MagnetInUse _ _) \<Rightarrow> raise_io (Refused ''magnet_in_use'')
                     | _ \<Rightarrow> raise_io e)) (\<lambda>claimed.
           case claimed of
             None \<Rightarrow> ret Replace_Submit_Failed
           | Some a \<Rightarrow>
               bind_io (submit_magnet sv (ss_tracker ss) avid (at_magnet a)) (\<lambda>accepted.
                 if \<not> accepted then
                   bind_io (now_io sv) (\<lambda>later.
                   bind_io (db_try sv (\<lambda>l. transition_attempt l avid (at_no a) ASubmitted AError later
                              (Some ''failed to add the offline task''))) (\<lambda>_.
                     ret Replace_Submit_Failed))
                 else
                   bind_io (now_io sv) (\<lambda>later.
                   bind_io (db_try sv (\<lambda>l. transition l avid Discovered Downloading later None None None)) (\<lambda>_.
                     ret Replace_Submitted)))))))"

definition submit_resolved ::
  "nat \<Rightarrow> services \<Rightarrow> source_settings \<Rightarrow> string \<Rightarrow> string \<Rightarrow> replace_outcome io" where
  "submit_resolved fuel sv ss avid task_dir =
     bind_io (catch_io (resolve sv avid None) (\<lambda>_. ret [])) (\<lambda>candidates.
     bind_io (record_and_submit fuel sv (ss_intake ss) avid candidates task_dir) (\<lambda>submitted.
       ret (if submitted then Replace_Submitted
            else if candidates = [] then Replace_No_Magnet else Replace_Submit_Failed)))"

definition start_replacement ::
  "nat \<Rightarrow> services \<Rightarrow> source_settings \<Rightarrow> string \<Rightarrow> string option
     \<Rightarrow> (replace_plan \<times> replace_outcome \<times> acquisition) io" where
  "start_replacement fuel sv ss txt magnet =
     bind_io (replace_plan_for sv ss txt) (\<lambda>plan.
       case rp_blocked plan of
         Some code \<Rightarrow> raise_io (Refused code)
       | None \<Rightarrow>
           bind_io (ask (sv_cloud_ready sv)) (\<lambda>ready.
             case rp_task_dir_path plan of
               None \<Rightarrow> raise_io (Refused ''clouddrive_not_configured'')
             | Some task_dir \<Rightarrow>
                 (if \<not> ready then raise_io (Refused ''clouddrive_not_configured'')
                  else
                    bind_io (operator_candidate sv (rp_avid plan) magnet) (\<lambda>candidate.
                    bind_io (now_io sv) (\<lambda>now.
                    bind_io (db sv (\<lambda>l. begin_replacement l (rp_avid plan) (source_text Manual) task_dir
                               (rp_holdings plan) now)) (\<lambda>record.
                      case record of
                        None \<Rightarrow> raise_io (Refused ''acquisition_changed'')
                      | Some r \<Rightarrow>
                          bind_io (case candidate of
                                     Some c \<Rightarrow> submit_operator_magnet sv ss (rp_avid plan) c
                                   | None \<Rightarrow> submit_resolved fuel sv ss (rp_avid plan) task_dir) (\<lambda>outcome.
                          bind_io (if outcome = Replace_Submitted then ret ()
                                   else park_unresolved sv (ss_intake ss) (rp_avid plan)) (\<lambda>_.
                          bind_io (db_read sv (\<lambda>l. get_acq l (rp_avid plan))) (\<lambda>current.
                            ret (plan, outcome, case current of Some q \<Rightarrow> q | None \<Rightarrow> r))))))))))"

section \<open>The manual source\<close>

definition MAX_MANUAL_INPUTS :: nat where
  "MAX_MANUAL_INPUTS = 100"

datatype manual_outcome =
  MSubmitted | MAlready_Tracked | MAlready_In_Library | MNo_Magnet | MSubmit_Failed | MQueued | MUnreadable

record manual_entry =
  me_text :: string
  me_avid :: "string option"
  me_outcome :: manual_outcome
  me_archived_paths :: "string list"

fun manual_outcome_of :: "intake_outcome \<Rightarrow> manual_outcome" where
  "manual_outcome_of SUBMITTED = MSubmitted"
| "manual_outcome_of ALREADY_TRACKED = MAlready_Tracked"
| "manual_outcome_of NO_MAGNET = MNo_Magnet"
| "manual_outcome_of SUBMIT_FAILED = MSubmit_Failed"
| "manual_outcome_of QUEUED = MQueued"

definition normalize_dir :: "string \<Rightarrow> string io" where
  "normalize_dir path =
     (case normalize_absolute_path path of
        None \<Rightarrow> raise_io (Refused ''directory_not_found'')
      | Some d \<Rightarrow> (if d = [] then raise_io (Refused ''directory_not_found'') else ret d))"

definition prepare_manual :: "services \<Rightarrow> source_settings \<Rightarrow> string \<Rightarrow> string io" where
  "prepare_manual sv ss task_dir_path =
     bind_io (ask (sv_cloud_ready sv)) (\<lambda>ready.
       if \<not> ready then raise_io (Refused ''clouddrive_not_configured'')
       else
         bind_io (normalize_dir task_dir_path) (\<lambda>task_dir.
           if route_for_task_dir (ss_routes ss) task_dir = None then raise_io (Refused ''directory_not_routed'')
           else
             bind_io (ask (\<lambda>n. sv_list_directory sv n task_dir)) (\<lambda>r.
               case r of
                 Inl e \<Rightarrow> (if e = NotFound then raise_io (Refused ''directory_not_found'')
                           else raise_io (ServiceError e))
               | Inr _ \<Rightarrow> ret task_dir)))"

definition held_in_library :: "services \<Rightarrow> string \<Rightarrow> string \<Rightarrow> string list io" where
  "held_in_library sv avid task_dir =
     bind_io (ask (\<lambda>n. sv_holdings sv n avid (Some task_dir))) (\<lambda>r.
       ret (case r of Inl _ \<Rightarrow> [] | Inr paths \<Rightarrow> paths))"

definition submit_one ::
  "nat \<Rightarrow> services \<Rightarrow> source_settings \<Rightarrow> string \<Rightarrow> string \<Rightarrow> string \<Rightarrow> string \<Rightarrow> bool \<Rightarrow> manual_entry io" where
  "submit_one fuel sv ss line avid task_dir source queued =
     bind_io (held_in_library sv avid task_dir) (\<lambda>held.
       if held \<noteq> [] then
         ret \<lparr>me_text = line, me_avid = Some avid, me_outcome = MAlready_In_Library, me_archived_paths = held\<rparr>
       else
         bind_io (if queued then queue sv avid source task_dir None
                  else enqueue fuel sv (ss_intake ss) avid source task_dir None None) (\<lambda>outcome.
           ret \<lparr>me_text = line, me_avid = Some avid, me_outcome = manual_outcome_of outcome,
                me_archived_paths = []\<rparr>))"

fun submit_lines ::
  "nat \<Rightarrow> services \<Rightarrow> source_settings \<Rightarrow> string \<Rightarrow> string \<Rightarrow> bool \<Rightarrow> string list \<Rightarrow> manual_entry list io" where
  "submit_lines fuel sv ss task_dir source queued [] = ret []"
| "submit_lines fuel sv ss task_dir source queued (line # rest) =
     bind_io (let avid = sv_avid_of sv line
              in if avid = [] then
                   ret \<lparr>me_text = line, me_avid = None, me_outcome = MUnreadable, me_archived_paths = []\<rparr>
                 else submit_one fuel sv ss line avid task_dir source queued) (\<lambda>entry.
     bind_io (submit_lines fuel sv ss task_dir source queued rest) (\<lambda>entries.
       ret (entry # entries)))"

definition submit_manual ::
  "nat \<Rightarrow> services \<Rightarrow> source_settings \<Rightarrow> string list \<Rightarrow> string \<Rightarrow> string \<Rightarrow> nat option \<Rightarrow> bool
     \<Rightarrow> (string \<times> manual_entry list) io" where
  "submit_manual fuel sv ss inputs task_dir_path source limit queued =
     (let lines = filter (\<lambda>s. s \<noteq> []) (map strip inputs)
      in if (case limit of None \<Rightarrow> False | Some n \<Rightarrow> n < length lines) then raise_io (Refused ''too_many_inputs'')
         else
           bind_io (prepare_manual sv ss task_dir_path) (\<lambda>task_dir.
           bind_io (submit_lines fuel sv ss task_dir source queued lines) (\<lambda>entries.
           bind_io (if ss_notifies ss \<and> list_ex (\<lambda>e. me_outcome e = MQueued) entries
                    then act NotifySubmission (\<lambda>_. ()) else ret ()) (\<lambda>_.
             ret (task_dir, entries)))))"

definition default_directory :: "services \<Rightarrow> source_settings \<Rightarrow> string option io" where
  "default_directory sv ss =
     bind_io (db_read sv (\<lambda>l. latest_task_dir l (source_text Manual))) (\<lambda>remembered.
       ret (case remembered of
              Some (c # cs) \<Rightarrow> Some (c # cs)
            | _ \<Rightarrow> find (\<lambda>d. route_for_task_dir (ss_routes ss) d \<noteq> None) (ss_configured_dirs ss)))"

record offline_directory =
  od_path :: string
  od_name :: string
  od_configured :: bool
  od_routed :: bool

definition browse ::
  "services \<Rightarrow> source_settings \<Rightarrow> string \<Rightarrow> (string \<times> string option \<times> offline_directory list) io" where
  "browse sv ss path =
     bind_io (ask (sv_cloud_ready sv)) (\<lambda>ready.
       if \<not> ready then raise_io (Refused ''clouddrive_not_configured'')
       else
         bind_io (normalize_dir path) (\<lambda>directory.
         bind_io (ask (\<lambda>n. sv_list_directory sv n directory)) (\<lambda>r.
           case r of
             Inl e \<Rightarrow> (if e = NotFound \<or> e = BadValue then raise_io (Refused ''directory_not_found'')
                       else raise_io (ServiceError e))
           | Inr files \<Rightarrow>
               ret (directory, parent_of directory,
                    sort_key od_name
                      (map (\<lambda>f. \<lparr>od_path = fst f, od_name = path_name (fst f),
                                 od_configured = fst f \<in> set (ss_configured_dirs ss),
                                 od_routed = route_for_task_dir (ss_routes ss) (fst f) \<noteq> None\<rparr>)
                         (filter snd files))))))"

end
