(* ===== verification/Sources_Laws.thy ===== *)
theory Sources_Laws
  imports Sources
begin

text \<open>
  What the operator's two sources guarantee: a refused request has written nothing, with
  the one exception the code has; every line of a batch gets its own answer; and neither
  moves the ledger but by the repository's steps.
\<close>

section \<open>Which refusals a coroutine can end with\<close>

definition refuses_in :: "string set \<Rightarrow> 'a io \<Rightarrow> bool" where
  "refuses_in C m \<longleftrightarrow> (\<forall>w c w'. m w = (Raised (Refused c), w') \<longrightarrow> c \<in> C)"

lemma refuses_bind:
  "refuses_in C m \<Longrightarrow> (\<And>a. refuses_in C (f a)) \<Longrightarrow> refuses_in C (bind_io m f)"
  unfolding refuses_in_def bind_io_def by (auto split: prod.splits outcome.splits)

lemma refuses_catch: "(\<And>e. refuses_in C (h e)) \<Longrightarrow> refuses_in C (catch_io m h)"
  unfolding refuses_in_def catch_io_def by (auto split: prod.splits outcome.splits)

lemma refuses_ret: "refuses_in C (ret a)"
  by (simp add: refuses_in_def ret_def)

lemma refuses_stuck: "refuses_in C stuck"
  by (simp add: refuses_in_def stuck_def)

lemma refuses_raise: "(\<And>c. e = Refused c \<Longrightarrow> c \<in> C) \<Longrightarrow> refuses_in C (raise_io e)"
  by (auto simp: refuses_in_def raise_io_def)

lemma refuses_calls:
  "refuses_in C (db sv f)" "refuses_in C (db_read sv g)" "refuses_in C (db_try sv h)"
  "refuses_in C (ask q)" "refuses_in C (act e q)" "refuses_in C (now_io sv)"
  "refuses_in C (add_stat s n)" "refuses_in C (set_stat s n)" "refuses_in C (or_raise r)"
  by (auto simp: refuses_in_def db_def db_read_def db_try_def ask_def act_def now_io_def add_stat_def
      set_stat_def or_raise_def raise_io_def ret_def Let_def split: prod.splits sum.splits)

lemma refuses_if: "refuses_in C m \<Longrightarrow> refuses_in C k \<Longrightarrow> refuses_in C (if b then m else k)"
  by simp

lemma refuses_option: "refuses_in C m \<Longrightarrow> (\<And>x. refuses_in C (f x)) \<Longrightarrow> refuses_in C (case_option m f o')"
  by (cases o') simp_all

lemma refuses_sum: "(\<And>x. refuses_in C (f x)) \<Longrightarrow> (\<And>x. refuses_in C (g x)) \<Longrightarrow> refuses_in C (case_sum f g s)"
  by (cases s) simp_all

lemmas refuses_basic = refuses_bind refuses_catch refuses_ret refuses_stuck refuses_calls refuses_if
  refuses_option refuses_sum

lemma refuses_find: "refuses_in C (find_release_date sv avid)"
  by (auto simp: refuses_in_def find_release_date_def bind_io_def now_io_def ask_def
      split: sum.splits option.splits if_splits)

lemma refuses_ensure: "refuses_in C (ensure_release_date sv b r)"
  unfolding ensure_release_date_def by (intro refuses_basic refuses_find)

lemma refuses_retry: "refuses_in C (add_offline_with_retry k sv link dir)"
  by (induction k) (auto intro!: refuses_basic)

lemma refuses_add_magnet: "refuses_in C (add_magnet sv link dir)"
  unfolding add_magnet_def by (intro refuses_basic refuses_retry)

lemma refuses_submit_next: "refuses_in C (submit_next fuel sv st avid dir)"
  by (induction fuel) (auto intro!: refuses_basic refuses_add_magnet)

lemma refuses_park: "refuses_in C (park_unresolved sv st avid)"
  unfolding park_unresolved_def repark_def by (intro refuses_basic refuses_ensure)

lemma refuses_record_and_submit: "refuses_in C (record_and_submit fuel sv st avid cs dir)"
  unfolding record_and_submit_def by (intro refuses_basic refuses_submit_next)

lemma refuses_submit_resolved: "refuses_in C (submit_resolved fuel sv ss avid dir)"
  unfolding submit_resolved_def by (intro refuses_basic refuses_record_and_submit)

lemma refuses_enqueue: "refuses_in C (enqueue fuel sv st avid source dir item rd)"
  unfolding enqueue_def by (intro refuses_basic refuses_park refuses_record_and_submit)

lemma refuses_queue: "refuses_in C (queue sv avid source dir rd)"
  unfolding queue_def by (intro refuses_basic)

lemma refuses_submit_magnet: "refuses_in C (submit_magnet sv ts avid m)"
  unfolding submit_magnet_def submit_at_cloud_def Let_def
  by (intro refuses_basic) (auto intro!: refuses_basic split: option.splits list.splits)

lemma refuses_catch_db_try:
  "(\<And>e. refuses_in C (h (LedgerError e))) \<Longrightarrow> refuses_in C (catch_io (db_try sv f) h)"
  unfolding refuses_in_def catch_io_def db_try_def by (auto simp: Let_def split: sum.splits prod.splits)

lemma refuses_operator_magnet: "refuses_in {''magnet_in_use''} (submit_operator_magnet sv ss avid c)"
  unfolding submit_operator_magnet_def
  by (intro refuses_bind refuses_if refuses_option refuses_catch_db_try refuses_ret refuses_calls
      refuses_submit_magnet)
     (auto simp: refuses_in_def raise_io_def split: ledger_error.splits)

lemma refuses_lines: "refuses_in C (submit_lines fuel sv ss dir source queued ls)"
  by (induction ls)
     (auto intro!: refuses_basic refuses_enqueue refuses_queue
       simp: Let_def submit_one_def held_in_library_def)

lemma bind_io_Raised_iff:
  "bind_io m f w = (Raised e, w'') \<longleftrightarrow>
     m w = (Raised e, w'') \<or> (\<exists>a w'. m w = (Value a, w') \<and> f a w' = (Raised e, w''))"
  by (auto simp: bind_io_def split: prod.splits outcome.splits)

lemma refuses_plan: "refuses_in {''unreadable_avid''} (replace_plan_for sv ss txt)"
  unfolding replace_plan_for_def Let_def
  by (intro refuses_basic refuses_raise) simp

lemma refuses_operator: "refuses_in {''unusable_magnet'', ''magnet_already_tried''} (operator_candidate sv avid m)"
  unfolding operator_candidate_def Let_def
  by (intro refuses_basic refuses_raise) simp_all

lemma plan_blocked:
  assumes "replace_plan_for sv ss txt w = (Value plan, w')"
  shows "rp_blocked plan \<noteq> Some ''magnet_in_use'' \<and> rp_avid plan = sv_avid_of sv (strip txt)"
  using assms
  by (auto simp: replace_plan_for_def Let_def bind_io_Value_iff ret_def raise_io_def split: if_splits)

section \<open>Coroutines that write nothing\<close>

definition untouched :: "services \<Rightarrow> world \<Rightarrow> world \<Rightarrow> bool" where
  "untouched sv w w' \<longleftrightarrow> (quiet sv \<longrightarrow> w_ledger w' = w_ledger w) \<and> w_log w' = w_log w"

interpretation un: world_relation "untouched sv" for sv
  by unfold_locales (auto simp: untouched_def)

lemma un_calls: "un.keeps sv (ask q)" "un.keeps sv (now_io sv')" "un.keeps sv (db_read sv g)"
  by (simp_all add: un.keeps_def untouched_def ask_def now_io_def db_read_def db_def quiet_def)

lemmas un_basic = un.keeps_control un_calls

lemma un_plan: "un.keeps sv (replace_plan_for sv ss txt)"
  unfolding replace_plan_for_def Let_def by (intro un_basic)

lemma un_operator: "un.keeps sv (operator_candidate sv avid m)"
  unfolding operator_candidate_def Let_def by (intro un_basic)

lemma un_prepare: "un.keeps sv (prepare_manual sv ss d)"
  unfolding prepare_manual_def normalize_dir_def by (intro un_basic)

lemma unD: "un.keeps sv m \<Longrightarrow> m w = (r, w') \<Longrightarrow> quiet sv \<Longrightarrow> w_ledger w' = w_ledger w \<and> w_log w' = w_log w"
  by (auto simp: un.keeps_def untouched_def) (metis snd_conv)+

section \<open>Replacing a title\<close>

lemma begin_replacement_row:
  assumes "begin_replacement l avid source dir paths now = (Some r, l')"
  shows "\<exists>q. get_acq l' avid = Some q \<and> aq_state q = Discovered \<and> aq_next_action_at q = None
    \<and> aq_replace_paths_json q = Some paths \<and> aq_task_dir_path q = Some dir"
proof (cases "get_acq l avid")
  case None
  then show ?thesis
    using assms by (auto simp: begin_replacement_def Let_def get_acq_def row_of_append row_of_Cons)
next
  case (Some q)
  then show ?thesis
    using assms by (auto simp: begin_replacement_def Let_def get_acq_update_acq split: if_splits)
qed

lemma begin_replacement_None:
  assumes "begin_replacement l avid source dir paths now = (None, l')"
  shows "l' = l"
  using assms
  by (auto simp: begin_replacement_def Let_def get_acq_def row_of_append row_of_Cons update_acq_def
      row_of_update_where [where key = aq_avid] split: option.splits if_splits)

definition demo_sources :: source_settings where
  "demo_sources = \<lparr>ss_routes = \<lparr>rt_src_dir = ''/mnt'', rt_priority_mapping = [], rt_mapping = [(''in'', ''lib'')]\<rparr>,
     ss_configured_dirs = [''/in''], ss_intake = demo_intake, ss_tracker = demo_tracker, ss_notifies = False\<rparr>"

lemma demo_routed: "route_for_task_dir (ss_routes demo_sources) ''/in'' = Some (''lib'', False)"
  by code_simp

lemma demo_strip: "strip ''ABC-123'' = ''ABC-123''"
  by code_simp

lemma demo_plan_active:
  "replace_plan_for demo_services demo_sources ''ABC-123'' (demo_world (demo_ledger Downloading t u)) =
     (Value \<lparr>rp_avid = ''ABC-123'', rp_holdings = [''lib/ABC/ABC-123.mp4''], rp_state = Some Downloading,
        rp_task_dir_path = task_dir_for demo_sources (Some (demo_row Downloading)) [''lib/ABC/ABC-123.mp4''],
        rp_blocked = Some ''acquisition_active''\<rparr>,
      (demo_world (demo_ledger Downloading t u))\<lparr>w_tick := 2\<rparr>)"
  by (simp add: replace_plan_for_def demo_strip bind_io_def ask_def or_raise_def ret_def
      db_read_quiet [OF demo_quiet] Let_def at_ledger_def demo_world_def REPLACEABLE_STATES_def)

text \<open>Two titles, the other one downloading the magnet the operator pastes.\<close>

definition other_ledger :: ledger where
  "other_ledger = \<lparr>acquisitions = [demo_row Archived, (demo_row Downloading)\<lparr>aq_avid := ''XYZ-9''\<rparr>],
     attempts = [(demo_attempt 1 ADownloading)\<lparr>at_avid := ''XYZ-9'',
                   at_info_hash := Some (replicate 40 (CHR ''0''))\<rparr>]\<rparr>"

lemma other_plan:
  "replace_plan_for demo_services demo_sources ''ABC-123'' (demo_world other_ledger) =
     (Value \<lparr>rp_avid = ''ABC-123'', rp_holdings = [''lib/ABC/ABC-123.mp4''], rp_state = Some Archived,
        rp_task_dir_path = Some ''/in'', rp_blocked = None\<rparr>, (demo_world other_ledger)\<lparr>w_tick := 3\<rparr>)"
proof -
  have "get_acq other_ledger ''ABC-123'' = Some (demo_row Archived)"
    by (simp add: other_ledger_def get_acq_def row_of_Cons)
  moreover have "task_dir_for demo_sources (Some (demo_row Archived)) [''lib/ABC/ABC-123.mp4''] = Some ''/in''"
    by (simp add: task_dir_for_def demo_row_def demo_routed)
  ultimately show ?thesis
    by (simp add: replace_plan_for_def demo_strip bind_io_def ask_def or_raise_def ret_def
        db_read_quiet [OF demo_quiet] Let_def at_ledger_def demo_world_def REPLACEABLE_STATES_def)
qed

lemma other_candidate:
  "w_ledger w = other_ledger \<Longrightarrow> operator_candidate demo_services ''ABC-123'' (Some zero_link) w =
     (Value (Some \<lparr>cd_magnet = zero_link, cd_info_hash = Some (replicate 40 (CHR ''0'')), cd_source = ''manual'',
        cd_size_hint = None\<rparr>), at_ledger w other_ledger)"
proof -
  have "strip zero_link = zero_link" "is_magnet_link zero_link" "zero_link \<noteq> []" by code_simp+
  moreover have "attempts_for other_ledger ''ABC-123'' = []"
    by (simp add: attempts_for_def other_ledger_def)
  moreover assume "w_ledger w = other_ledger"
  ultimately show ?thesis
    by (simp add: operator_candidate_def Let_def zero_link_hash bind_io_def db_read_quiet [OF demo_quiet] ret_def)
qed

lemma other_begin:
  obtains r l5 where "begin_replacement other_ledger ''ABC-123'' source dir paths now = (Some r, l5)"
    "attempts l5 = attempts other_ledger"
proof -
  have row: "get_acq other_ledger ''ABC-123'' = Some (demo_row Archived)"
    by (simp add: other_ledger_def get_acq_def row_of_Cons)
  show thesis
    by (rule that [OF _ attempts_update_acq])
       (use row in \<open>simp add: begin_replacement_def Let_def REPLACEABLE_STATES_def get_acq_update_acq\<close>)
qed

lemma other_in_use:
  assumes "get_acq (w_ledger w) ''ABC-123'' \<noteq> None" and "attempts (w_ledger w) = attempts other_ledger"
  shows "\<exists>w'. submit_operator_magnet demo_services demo_sources ''ABC-123''
      \<lparr>cd_magnet = zero_link, cd_info_hash = Some (replicate 40 (CHR ''0'')), cd_source = ''manual'',
        cd_size_hint = None\<rparr> w = (Raised (Refused ''magnet_in_use''), w')"
proof -
  have none: "tried_hashes (w_ledger w) ''ABC-123'' = []" and no: "max_attempt_no (w_ledger w) ''ABC-123'' = 0"
    using assms(2) by (simp_all add: tried_hashes_def max_attempt_no_def other_ledger_def demo_attempt_def)
  obtain r where "get_acq (w_ledger w) ''ABC-123'' = Some r" using assms(1) by blast
  then show ?thesis
    using assms(2)
    by (simp add: submit_operator_magnet_def bind_io_def now_io_run db_try_quiet [OF demo_quiet]
        db_read_quiet [OF demo_quiet] add_attempts_def Let_def none no other_ledger_def demo_attempt_def
        pending_row_def attempts_for_def claim_attempt_def get_attempt_def row_of_Cons
        set_attempt_def update_where_def submit_row_def live_index_ok_def live_hashes_def catch_io_def raise_io_def)
qed

text \<open>The part of a start that runs after the row was handed back.\<close>

lemma operator_magnet_acqs:
  assumes "quiet sv" and "submit_operator_magnet sv ss avid c w = (Raised (Refused code), w')"
  shows "acquisitions (w_ledger w') = acquisitions (w_ledger w) \<and> w_log w' = w_log w"
proof -
  let ?now = "sv_clock sv (w_tick w)"
  let ?late = "\<lambda>a. bind_io (submit_magnet sv (ss_tracker ss) avid (at_magnet a)) (\<lambda>accepted.
                 if \<not> accepted then
                   bind_io (now_io sv) (\<lambda>later.
                   bind_io (db_try sv (\<lambda>l. transition_attempt l avid (at_no a) ASubmitted AError later
                              (Some ''failed to add the offline task''))) (\<lambda>_.
                     ret Replace_Submit_Failed))
                 else
                   bind_io (now_io sv) (\<lambda>later.
                   bind_io (db_try sv (\<lambda>l. transition l avid Discovered Downloading later None None None)) (\<lambda>_.
                     ret Replace_Submitted)))"
  have late: "refuses_in {} (?late a)" for a
    by (intro refuses_basic refuses_submit_magnet)
  obtain n l1 where add: "add_attempts (w_ledger w) avid [c] ?now = Inr (n, l1)"
    using assms(2)
    by (auto simp: submit_operator_magnet_def bind_io_def now_io_run db_try_quiet [OF assms(1)] split: sum.splits)
  have acqs: "acquisitions l1 = acquisitions (w_ledger w)"
    using add_attempts_cases [OF add] by (auto simp: Let_def)
  let ?no = "at_no (last (attempts_for l1 avid))"
  show ?thesis
  proof (cases "claim_attempt l1 avid ?no ?now")
    case (Inl e)
    then show ?thesis
      using assms(2) add acqs
      by (cases e)
         (auto simp: submit_operator_magnet_def bind_io_def now_io_run db_try_quiet [OF assms(1)]
           db_read_quiet [OF assms(1)] ret_def catch_io_def raise_io_def split: if_splits)
  next
    case (Inr x)
    obtain a l2 where x: "x = (a, l2)" by fastforce
    show ?thesis
    proof (cases a)
      case None
      then show ?thesis
        using assms(2) add Inr x
        by (auto simp: submit_operator_magnet_def bind_io_def now_io_run db_try_quiet [OF assms(1)]
            db_read_quiet [OF assms(1)] ret_def catch_io_def split: if_splits)
    next
      case (Some b)
      have "n \<noteq> 0 \<Longrightarrow> submit_operator_magnet sv ss avid c w
          = ?late b (at_ledger (at_ledger (at_ledger (at_ledger w (w_ledger w)) l1) l1) l2)"
        using add Inr x Some
        by (simp add: submit_operator_magnet_def bind_io_def now_io_run db_try_quiet [OF assms(1)]
            db_read_quiet [OF assms(1)] catch_io_def)
      moreover have "n \<noteq> 0"
        using assms(2) add
        by (cases "n = 0") (auto simp: submit_operator_magnet_def bind_io_def now_io_run db_try_quiet [OF assms(1)] ret_def)
      ultimately show ?thesis
        using assms(2) late [of b] unfolding refuses_in_def by (metis empty_iff)
    qed
  qed
qed

lemma start_refused_cases:
  assumes "quiet sv"
    and "start_replacement fuel sv ss txt magnet w = (Raised (Refused code), w')"
  shows "(code \<noteq> ''magnet_in_use'' \<and> w_ledger w' = w_ledger w \<and> w_log w' = w_log w)
    \<or> (code = ''magnet_in_use'' \<and> w_log w' = w_log w
        \<and> (\<exists>q. get_acq (w_ledger w') (sv_avid_of sv (strip txt)) = Some q \<and> aq_state q = Discovered
             \<and> aq_next_action_at q = None \<and> aq_replace_paths_json q \<noteq> None))"
proof -
  let ?avid = "sv_avid_of sv (strip txt)"
  let ?cont = "\<lambda>plan candidate record. case record of
          None \<Rightarrow> raise_io (Refused ''acquisition_changed'')
        | Some r \<Rightarrow>
            bind_io (case candidate of
                       Some c \<Rightarrow> submit_operator_magnet sv ss (rp_avid plan) c
                     | None \<Rightarrow> submit_resolved fuel sv ss (rp_avid plan) (the (rp_task_dir_path plan))) (\<lambda>outcome.
            bind_io (if outcome = Replace_Submitted then ret ()
                     else park_unresolved sv (ss_intake ss) (rp_avid plan)) (\<lambda>_.
            bind_io (db_read sv (\<lambda>l. get_acq l (rp_avid plan))) (\<lambda>current.
              ret (plan, outcome, case current of Some q \<Rightarrow> q | None \<Rightarrow> r))))"
  show ?thesis
  proof (cases "replace_plan_for sv ss txt w")
    case (Pair p w1)
    note same1 = unD [OF un_plan Pair assms(1)]
    show ?thesis
    proof (cases p)
      case (Value plan)
      have avid: "rp_avid plan = ?avid" and blocked: "rp_blocked plan \<noteq> Some ''magnet_in_use''"
        using plan_blocked Pair Value by blast+
      show ?thesis
      proof (cases "rp_blocked plan = None \<and> rp_task_dir_path plan \<noteq> None \<and> sv_cloud_ready sv (w_tick w1)")
        case False
        then show ?thesis
          using assms(2) Pair Value same1 blocked
          by (auto simp: start_replacement_def bind_io_def ask_def raise_io_def split: option.splits)
      next
        case True
        then obtain dir where dir: "rp_task_dir_path plan = Some dir" by blast
        let ?w2 = "w1\<lparr>w_tick := Suc (w_tick w1)\<rparr>"
        obtain o' w3 where cand: "operator_candidate sv ?avid magnet ?w2 = (o', w3)" by fastforce
        note same2 = unD [OF un_operator cand assms(1)]
        show ?thesis
        proof (cases o')
          case (Value candidate)
          let ?now = "sv_clock sv (w_tick w3)"
          let ?w4 = "at_ledger w3 (w_ledger w3)"
          obtain row l5 where began: "begin_replacement (w_ledger w3) ?avid (source_text Manual) dir
              (rp_holdings plan) ?now = (row, l5)" by fastforce
          let ?w5 = "at_ledger ?w4 l5"
          have run: "?cont plan candidate row ?w5 = (Raised (Refused code), w')"
            using assms(2) Pair \<open>p = Value plan\<close> True dir avid cand Value began
            by (simp add: start_replacement_def bind_io_def ask_def now_io_run db_quiet [OF assms(1)]
                split: option.splits)
          show ?thesis
          proof (cases row)
            case None
            then show ?thesis
              using run begin_replacement_None [OF began [unfolded None]] same1 same2
              by (auto simp: raise_io_def)
          next
            case (Some r)
            have tail: "refuses_in {} (bind_io (if outcome = Replace_Submitted then ret ()
                     else park_unresolved sv (ss_intake ss) (rp_avid plan)) (\<lambda>_.
                bind_io (db_read sv (\<lambda>l. get_acq l (rp_avid plan))) (\<lambda>current.
                  ret (plan, outcome, case current of Some q \<Rightarrow> q | None \<Rightarrow> r))))" for outcome
              by (intro refuses_basic refuses_park)
            obtain c where c: "candidate = Some c"
              and raised: "submit_operator_magnet sv ss ?avid c ?w5 = (Raised (Refused code), w')"
              using run Some tail refuses_submit_resolved [of "{}" fuel sv ss "rp_avid plan" "the (rp_task_dir_path plan)"]
              unfolding avid refuses_in_def
              by (cases candidate) (auto simp: bind_io_Raised_iff [where m = "case candidate of None \<Rightarrow> _ | Some c \<Rightarrow> _ c"] bind_io_Raised_iff)
            have "code = ''magnet_in_use''"
              using refuses_operator_magnet raised unfolding refuses_in_def by blast
            moreover have "acquisitions (w_ledger w') = acquisitions l5" "w_log w' = w_log w"
              using operator_magnet_acqs [OF assms(1) raised] same1 same2 by simp_all
            moreover obtain q where "get_acq l5 ?avid = Some q" "aq_state q = Discovered"
              "aq_next_action_at q = None" "aq_replace_paths_json q = Some (rp_holdings plan)"
              using begin_replacement_row [OF began [unfolded Some]] by blast
            ultimately show ?thesis by (auto simp: get_acq_def)
          qed
        next
          case (Raised e)
          then have "(Raised e, w3) = (Raised (Refused code), w')"
            using assms(2) Pair \<open>p = Value plan\<close> True dir avid cand
            by (simp add: start_replacement_def bind_io_def ask_def)
          then show ?thesis
            using Raised cand refuses_operator [of sv ?avid magnet] same1 same2
            unfolding refuses_in_def by force
        qed (use assms(2) Pair \<open>p = Value plan\<close> True dir avid cand in
              \<open>auto simp: start_replacement_def bind_io_def ask_def\<close>)
      qed
    next
      case (Raised e)
      then have "(Raised e, w1) = (Raised (Refused code), w')"
        using assms(2) Pair by (simp add: start_replacement_def bind_io_def)
      then show ?thesis
        using Raised Pair refuses_plan [of sv ss "txt"] same1 unfolding refuses_in_def by force
    qed (use assms(2) Pair in \<open>auto simp: start_replacement_def bind_io_def\<close>)
  qed
qed

text \<open>
  C25: A replacement that is refused has written nothing: whatever the refusal, other than a
  magnet in use elsewhere, the ledger is as it was and nothing was asked of CloudDrive.
\<close>

theorem refused_replacement_writes_nothing:
  assumes "quiet sv"
    and "start_replacement fuel sv ss txt magnet w = (Raised (Refused code), w')"
    and "code \<noteq> ''magnet_in_use''"
  shows "w_ledger w' = w_ledger w \<and> w_log w' = w_log w"
  using start_refused_cases [OF assms(1,2)] assms(3) by blast

theorem refused_replacement_writes_nothing_witness:
  "\<exists>w'. start_replacement 9 demo_services demo_sources ''ABC-123'' None
       (demo_world (demo_ledger Downloading AFinished APending)) = (Raised (Refused ''acquisition_active''), w')
     \<and> w_ledger w' = demo_ledger Downloading AFinished APending"
proof -
  let ?w = "demo_world (demo_ledger Downloading AFinished APending)"
  have "replace_plan_for demo_services demo_sources ''ABC-123'' ?w =
      (Value \<lparr>rp_avid = ''ABC-123'', rp_holdings = [''lib/ABC/ABC-123.mp4''], rp_state = Some Downloading,
         rp_task_dir_path = task_dir_for demo_sources (Some (demo_row Downloading)) [''lib/ABC/ABC-123.mp4''],
         rp_blocked = Some ''acquisition_active''\<rparr>, ?w\<lparr>w_tick := 2\<rparr>)"
    by (rule demo_plan_active)
  then have run: "start_replacement 9 demo_services demo_sources ''ABC-123'' None ?w
      = (Raised (Refused ''acquisition_active''), ?w\<lparr>w_tick := 2\<rparr>)"
    by (simp add: start_replacement_def bind_io_def raise_io_def)
  from refused_replacement_writes_nothing [OF demo_quiet this] run show ?thesis by simp
qed

text \<open>
  C26: A replacement refused because its magnet is in use elsewhere strands the title: the
  row was already handed back to discovered with no timer, so no later pass ever picks it
  up, and no new replacement of it can start.
\<close>

theorem magnet_in_use_strands:
  assumes "quiet sv"
    and "start_replacement fuel sv ss txt magnet w = (Raised (Refused ''magnet_in_use''), w')"
  shows "\<exists>q. get_acq (w_ledger w') (sv_avid_of sv (strip txt)) = Some q \<and> aq_state q = Discovered
    \<and> aq_replace_paths_json q \<noteq> None \<and> (\<forall>now. \<not> due_row now q)
    \<and> aq_state q \<notin> set REPLACEABLE_STATES"
  using start_refused_cases [OF assms]
  by (auto simp: due_row_def REPLACEABLE_STATES_def)

theorem magnet_in_use_strands_witness:
  "\<exists>w' q. start_replacement 9 demo_services demo_sources ''ABC-123'' (Some zero_link) (demo_world other_ledger)
       = (Raised (Refused ''magnet_in_use''), w')
     \<and> get_acq (w_ledger w') ''ABC-123'' = Some q \<and> aq_state q = Discovered \<and> (\<forall>now. \<not> due_row now q)"
proof -
  let ?w = "demo_world other_ledger"
  let ?w3 = "?w\<lparr>w_tick := 3\<rparr>"
  let ?w4 = "?w\<lparr>w_tick := 4\<rparr>"
  have cand: "operator_candidate demo_services ''ABC-123'' (Some zero_link) ?w4 =
     (Value (Some \<lparr>cd_magnet = zero_link, cd_info_hash = Some (replicate 40 (CHR ''0'')), cd_source = ''manual'',
        cd_size_hint = None\<rparr>), at_ledger ?w4 other_ledger)"
    by (rule other_candidate) simp
  obtain r l5 where began: "begin_replacement other_ledger ''ABC-123'' (source_text Manual) ''/in''
      [''lib/ABC/ABC-123.mp4''] (sv_clock demo_services 5) = (Some r, l5)"
    and att: "attempts l5 = attempts other_ledger"
    by (rule other_begin)
  have "get_acq l5 ''ABC-123'' \<noteq> None" using begin_replacement_row [OF began] by blast
  then obtain w' where "submit_operator_magnet demo_services demo_sources ''ABC-123''
      \<lparr>cd_magnet = zero_link, cd_info_hash = Some (replicate 40 (CHR ''0'')), cd_source = ''manual'',
        cd_size_hint = None\<rparr> (at_ledger (at_ledger (at_ledger ?w4 other_ledger) other_ledger) l5)
      = (Raised (Refused ''magnet_in_use''), w')"
    using other_in_use [of "at_ledger (at_ledger (at_ledger ?w4 other_ledger) other_ledger) l5"] att by auto
  then have "\<exists>w'. start_replacement 9 demo_services demo_sources ''ABC-123'' (Some zero_link) ?w
      = (Raised (Refused ''magnet_in_use''), w')"
    using began
    by (simp add: start_replacement_def bind_io_def other_plan ask_def cand now_io_run db_quiet [OF demo_quiet])
  then obtain w' where run: "start_replacement 9 demo_services demo_sources ''ABC-123'' (Some zero_link) ?w
      = (Raised (Refused ''magnet_in_use''), w')" by blast
  from magnet_in_use_strands [OF demo_quiet this] run show ?thesis
    by (simp add: demo_strip) blast
qed

section \<open>The manual source\<close>

lemma submit_lines_entries:
  "submit_lines fuel sv ss dir source queued ls w = (Value entries, w') \<Longrightarrow> map me_text entries = ls"
proof (induction ls arbitrary: w entries w')
  case (Cons line ls)
  have one: "me_text entry = line"
    if "submit_one fuel sv ss line avid dir source queued v = (Value entry, v')" for avid entry v v'
    using that by (auto simp: submit_one_def bind_io_Value_iff ret_def split: if_splits)
  from Cons show ?case
    by (auto simp: bind_io_Value_iff Let_def ret_def dest: one split: if_splits)
qed (simp add: ret_def)

lemma prepare_routed:
  "prepare_manual sv ss path w = (Value dir, w') \<Longrightarrow> route_for_task_dir (ss_routes ss) dir \<noteq> None"
  by (auto simp: prepare_manual_def bind_io_Value_iff ask_def ret_def raise_io_def split: if_splits sum.splits)
     (metis sum.exhaust)

text \<open>
  C27: A manual batch is answered line by line or not at all: a batch that is refused has
  written nothing; one that runs answers every line that is not blank, in the order given
  and within the limit, and goes to a directory that has an archive route.
\<close>

theorem manual_batch_answers:
  assumes "quiet sv"
  shows "case submit_manual fuel sv ss inputs path source limit queued w of
      (Raised (Refused code), w') \<Rightarrow> w_ledger w' = w_ledger w \<and> w_log w' = w_log w
    | (Value (dir, entries), w') \<Rightarrow>
        map me_text entries = filter (\<lambda>s. s \<noteq> []) (map strip inputs)
        \<and> route_for_task_dir (ss_routes ss) dir \<noteq> None
        \<and> (case limit of Some n \<Rightarrow> length entries \<le> n | None \<Rightarrow> True)
    | _ \<Rightarrow> True"
proof -
  let ?lines = "filter (\<lambda>s. s \<noteq> []) (map strip inputs)"
  let ?run = "submit_manual fuel sv ss inputs path source limit queued w"
  have answered: "map me_text entries = ?lines \<and> route_for_task_dir (ss_routes ss) dir \<noteq> None
      \<and> (case limit of Some n \<Rightarrow> length entries \<le> n | None \<Rightarrow> True)"
    if "?run = (Value (dir, entries), w')" for dir entries w'
  proof -
    from that obtain v v' where "prepare_manual sv ss path w = (Value dir, v)"
      and entries: "submit_lines fuel sv ss dir source queued ?lines v = (Value entries, v')"
      and limit: "\<not> (case limit of None \<Rightarrow> False | Some n \<Rightarrow> n < length ?lines)"
      by (auto simp: submit_manual_def Let_def bind_io_Value_iff ret_def raise_io_def split: if_splits)
    moreover have "length entries = length ?lines"
      using submit_lines_entries [OF entries] by (metis length_map)
    ultimately show ?thesis
      using prepare_routed [of sv ss path w dir v] submit_lines_entries [OF entries]
      by (auto split: option.splits)
  qed
  have refused: "w_ledger w' = w_ledger w \<and> w_log w' = w_log w"
    if "?run = (Raised (Refused code), w')" for code w'
  proof (cases "prepare_manual sv ss path w")
    case (Pair r v)
    note same = unD [OF un_prepare Pair assms]
    let ?tail = "\<lambda>dir. bind_io (submit_lines fuel sv ss dir source queued ?lines) (\<lambda>entries.
           bind_io (if ss_notifies ss \<and> list_ex (\<lambda>e. me_outcome e = MQueued) entries
                    then act NotifySubmission (\<lambda>_. ()) else ret ()) (\<lambda>_.
             ret (dir, entries)))"
    have tail: "refuses_in {} (?tail dir)" for dir
      by (intro refuses_basic refuses_lines)
    show ?thesis
    proof (cases "case limit of None \<Rightarrow> False | Some n \<Rightarrow> n < length ?lines")
      case True
      with that show ?thesis by (simp add: submit_manual_def Let_def raise_io_def)
    next
      case False
      then have "bind_io (prepare_manual sv ss path) ?tail w = (Raised (Refused code), w')"
        using that by (simp add: submit_manual_def Let_def)
      then have "prepare_manual sv ss path w = (Raised (Refused code), w')"
        using tail unfolding bind_io_Raised_iff refuses_in_def by blast
      then show ?thesis using same Pair by simp
    qed
  qed
  show ?thesis
  proof (cases ?run)
    case (Pair r v)
    show ?thesis
    proof (cases r)
      case (Value x)
      obtain dir entries where "x = (dir, entries)" by fastforce
      with Pair Value answered [of dir entries v] show ?thesis by simp
    next
      case (Raised e)
      with Pair refused show ?thesis by (cases e) simp_all
    qed (use Pair in simp)
  qed
qed

theorem manual_batch_answers_witness:
  "\<exists>dir entry w'. submit_manual 9 demo_found demo_sources [''  '', '' ABC-123''] ''/in'' ''manual'' (Some 100) True
         (demo_world empty_ledger) = (Value (dir, [entry]), w')
      \<and> me_text entry = ''ABC-123'' \<and> me_outcome entry = MQueued
      \<and> route_for_task_dir (ss_routes demo_sources) dir \<noteq> None"
proof -
  let ?run = "submit_manual 9 demo_found demo_sources [''  '', '' ABC-123''] ''/in'' ''manual'' (Some 100) True
      (demo_world empty_ledger)"
  have out: "(case fst ?run of Value (dir, entries) \<Rightarrow> map me_outcome entries | _ \<Rightarrow> []) = [MQueued]" by code_simp
  then obtain dir entries w' where run: "?run = (Value (dir, entries), w')"
    by (cases ?run) (auto split: outcome.splits)
  with out obtain entry where "entries = [entry]" "me_outcome entry = MQueued" by auto
  moreover have "filter (\<lambda>s. s \<noteq> []) (map strip [''  '', '' ABC-123'']) = [''ABC-123'']" by code_simp
  ultimately show ?thesis
    using manual_batch_answers [OF quiet_found, where fuel = 9 and ss = demo_sources
        and inputs = "[''  '', '' ABC-123'']" and path = "''/in''" and source = "''manual''"
        and limit = "Some 100" and queued = True and w = "demo_world empty_ledger"] run by auto
qed

section \<open>The ledger moves only by its own steps\<close>

lemma lm_start_replacement: "lm.keeps sv (start_replacement fuel sv ss txt magnet)"
  unfolding start_replacement_def replace_plan_for_def operator_candidate_def submit_operator_magnet_def
    submit_resolved_def Let_def
  by (intro lm_basic lm_calls lm_submit_magnet lm_record_and_submit lm_park_unresolved
      lm_frame [OF frame_resolve])
     (auto intro!: lm.keeps_raise split: failure.splits ledger_error.splits)

lemma lm_submit_lines: "lm.keeps sv (submit_lines fuel sv ss dir source queued ls)"
  by (induction ls)
     (auto intro!: lm_basic lm_queue lm_enqueue simp: Let_def submit_one_def held_in_library_def)

lemma lm_submit_manual: "lm.keeps sv (submit_manual fuel sv ss inputs path source limit queued)"
  unfolding submit_manual_def prepare_manual_def normalize_dir_def Let_def
  by (intro lm_basic lm_submit_lines)

end
