(* ===== verification/Merge_Tasks.thy ===== *)
theory Merge_Tasks
  imports Prelude
begin

text \<open>
  The stored merge tasks: \<^verbatim>\<open>merge/tasks.py\<close> and the table \<^verbatim>\<open>merge_tasks\<close> of
  \<^verbatim>\<open>db.py\<close>. A table is its rows in the order of their insertion and the next value of
  its BIGSERIAL. A write is the one UPDATE of \<^verbatim>\<open>_write\<close>: a row by id and, for a
  transition, by the state it is expected in. The columns a handler may set besides the state
  are the constructors of \<open>merge_field\<close>, so that a name outside \<^verbatim>\<open>_UPDATABLE\<close> cannot
  be written here; the ValueError for it has no branch. A progress share is carried as the
  number it is stored as and never computed with.
\<close>

section \<open>Rows\<close>

datatype merge_state =
  MQUEUED | MMERGING | MUPLOADING | MVERIFYING | MREPLACING | MARCHIVING | MDONE | MFAILED | MCANCELLED

definition FINISHED_STATES :: "merge_state set" where
  "FINISHED_STATES = {MDONE, MCANCELLED}"

definition CANCELLABLE_STATES :: "merge_state set" where
  "CANCELLABLE_STATES = {MQUEUED, MMERGING, MUPLOADING, MVERIFYING, MFAILED}"

definition RECENT_FINISHED_LIMIT :: nat where
  "RECENT_FINISHED_LIMIT = 20"

record merge_task =
  mt_id :: nat
  mt_avid :: string
  mt_source :: string
  mt_library_dir :: string
  mt_brand :: string
  mt_parts :: "string list"
  mt_merged_name :: string
  mt_state :: merge_state
  mt_failed_state :: "merge_state option"
  mt_job_name :: "string option"
  mt_phase :: "string option"
  mt_progress :: "int option"
  mt_merged_bytes :: "int option"
  mt_merged_sha1 :: "string option"
  mt_uploaded_bytes :: "int option"
  mt_upload_attempts :: nat
  mt_error :: "string option"
  mt_notice :: "string option"
  mt_created_at :: datetime
  mt_updated_at :: datetime
  mt_state_changed_at :: datetime
  mt_finished_at :: "datetime option"

record merge_table =
  mr_rows :: "merge_task list"
  mr_next :: nat

definition is_open :: "merge_task \<Rightarrow> bool" where
  "is_open t \<longleftrightarrow> mt_state t \<notin> FINISHED_STATES"

text \<open>The unique index: one unfinished task per title.\<close>

definition one_open_per_avid :: "merge_task list \<Rightarrow> bool" where
  "one_open_per_avid rows \<longleftrightarrow> distinct (map mt_avid (filter is_open rows))"

section \<open>Statements\<close>

text \<open>
  INSERT. A conflict with the index raises \<^verbatim>\<open>MergeTaskConflictError\<close>, which is None;
  the sequence has moved on all the same.
\<close>

definition create_task ::
  "merge_table \<Rightarrow> string \<Rightarrow> string \<Rightarrow> string \<Rightarrow> string \<Rightarrow> string list \<Rightarrow> string \<Rightarrow> datetime
     \<Rightarrow> merge_task option \<times> merge_table" where
  "create_task tbl avid source library_dir brand parts merged_name now =
     (let t = \<lparr>mt_id = mr_next tbl, mt_avid = avid, mt_source = source, mt_library_dir = library_dir,
               mt_brand = brand, mt_parts = parts, mt_merged_name = merged_name, mt_state = MQUEUED,
               mt_failed_state = None, mt_job_name = None, mt_phase = None, mt_progress = None,
               mt_merged_bytes = None, mt_merged_sha1 = None, mt_uploaded_bytes = None,
               mt_upload_attempts = 0, mt_error = None, mt_notice = None, mt_created_at = now,
               mt_updated_at = now, mt_state_changed_at = now, mt_finished_at = None\<rparr>;
          rows = mr_rows tbl @ [t]
      in if one_open_per_avid rows
         then (Some t, \<lparr>mr_rows = rows, mr_next = Suc (mr_next tbl)\<rparr>)
         else (None, tbl\<lparr>mr_next := Suc (mr_next tbl)\<rparr>))"

definition get_task :: "merge_table \<Rightarrow> nat \<Rightarrow> merge_task option" where
  "get_task tbl k = row_of mt_id k (mr_rows tbl)"

text \<open>ORDER BY id.\<close>

definition open_tasks :: "merge_table \<Rightarrow> merge_task list" where
  "open_tasks tbl = sort_key mt_id (filter is_open (mr_rows tbl))"

text \<open>
  The most recently finished: newest first, those without a time last, each by id falling;
  then the union by id falling.
\<close>

definition recent_finished :: "merge_table \<Rightarrow> merge_task list" where
  "recent_finished tbl =
     (let by_id = sort_key (\<lambda>t. - int (mt_id t)) (filter (\<lambda>t. \<not> is_open t) (mr_rows tbl));
          timed = filter (\<lambda>t. mt_finished_at t \<noteq> None) by_id;
          untimed = filter (\<lambda>t. mt_finished_at t = None) by_id
      in take RECENT_FINISHED_LIMIT (sort_key (\<lambda>t. - the (mt_finished_at t)) timed @ untimed))"

definition task_listing :: "merge_table \<Rightarrow> merge_task list" where
  "task_listing tbl = sort_key (\<lambda>t. - int (mt_id t)) (filter is_open (mr_rows tbl) @ recent_finished tbl)"

definition cancelled_avids :: "merge_table \<Rightarrow> string set" where
  "cancelled_avids tbl = set (map mt_avid (filter (\<lambda>t. mt_state t = MCANCELLED) (mr_rows tbl)))"

definition merged_avids :: "merge_table \<Rightarrow> string set" where
  "merged_avids tbl = set (map mt_avid (filter (\<lambda>t. mt_state t = MDONE) (mr_rows tbl)))"

definition last_done_at :: "merge_table \<Rightarrow> datetime option" where
  "last_done_at tbl =
     (case List.map_filter (\<lambda>t. if mt_state t = MDONE then mt_finished_at t else None) (mr_rows tbl) of
        [] \<Rightarrow> None
      | d # ds \<Rightarrow> Some (fold max ds d))"

section \<open>Writes\<close>

datatype merge_field =
  FFailed_State "merge_state option"
  | FJob_Name "string option"
  | FPhase "string option"
  | FProgress "int option"
  | FMerged_Bytes "int option"
  | FMerged_Sha1 "string option"
  | FUploaded_Bytes "int option"
  | FUpload_Attempts nat
  | FError "string option"
  | FNotice "string option"
  | FFinished_At "datetime option"

fun set_field :: "merge_field \<Rightarrow> merge_task \<Rightarrow> merge_task" where
  "set_field (FFailed_State v) t = t\<lparr>mt_failed_state := v\<rparr>"
| "set_field (FJob_Name v) t = t\<lparr>mt_job_name := v\<rparr>"
| "set_field (FPhase v) t = t\<lparr>mt_phase := v\<rparr>"
| "set_field (FProgress v) t = t\<lparr>mt_progress := v\<rparr>"
| "set_field (FMerged_Bytes v) t = t\<lparr>mt_merged_bytes := v\<rparr>"
| "set_field (FMerged_Sha1 v) t = t\<lparr>mt_merged_sha1 := v\<rparr>"
| "set_field (FUploaded_Bytes v) t = t\<lparr>mt_uploaded_bytes := v\<rparr>"
| "set_field (FUpload_Attempts v) t = t\<lparr>mt_upload_attempts := v\<rparr>"
| "set_field (FError v) t = t\<lparr>mt_error := v\<rparr>"
| "set_field (FNotice v) t = t\<lparr>mt_notice := v\<rparr>"
| "set_field (FFinished_At v) t = t\<lparr>mt_finished_at := v\<rparr>"

definition written :: "merge_state option \<Rightarrow> merge_field list \<Rightarrow> datetime \<Rightarrow> merge_task \<Rightarrow> merge_task" where
  "written state fs now t =
     fold set_field fs
       (case state of
          None \<Rightarrow> t\<lparr>mt_updated_at := now\<rparr>
        | Some s \<Rightarrow> t\<lparr>mt_updated_at := now, mt_state := s, mt_state_changed_at := now\<rparr>)"

definition write_task ::
  "merge_table \<Rightarrow> nat \<Rightarrow> merge_state option \<Rightarrow> merge_state option \<Rightarrow> merge_field list \<Rightarrow> datetime
     \<Rightarrow> merge_task option \<times> merge_table" where
  "write_task tbl k expected state fs now =
     (let p = (\<lambda>t. mt_id t = k \<and> (case expected of None \<Rightarrow> True | Some e \<Rightarrow> mt_state t = e));
          tbl' = tbl\<lparr>mr_rows := update_where p (written state fs now) (mr_rows tbl)\<rparr>
      in (if count_where p (mr_rows tbl) = 0 then None else get_task tbl' k, tbl'))"

definition update_task ::
  "merge_table \<Rightarrow> nat \<Rightarrow> merge_field list \<Rightarrow> datetime \<Rightarrow> merge_task option \<times> merge_table" where
  "update_task tbl k fs now = write_task tbl k None None fs now"

definition transition_task ::
  "merge_table \<Rightarrow> nat \<Rightarrow> merge_state \<Rightarrow> merge_state \<Rightarrow> merge_field list \<Rightarrow> datetime
     \<Rightarrow> merge_task option \<times> merge_table" where
  "transition_task tbl k expected state fs now = write_task tbl k (Some expected) (Some state) fs now"

section \<open>Laws\<close>

lemma set_field_keeps [simp]:
  "mt_id (set_field f t) = mt_id t" "mt_avid (set_field f t) = mt_avid t"
  "mt_parts (set_field f t) = mt_parts t" "mt_merged_name (set_field f t) = mt_merged_name t"
  "mt_source (set_field f t) = mt_source t" "mt_state (set_field f t) = mt_state t"
  by (cases f; simp)+

lemma fold_set_field_keeps [simp]:
  "mt_id (fold set_field fs t) = mt_id t" "mt_avid (fold set_field fs t) = mt_avid t"
  "mt_parts (fold set_field fs t) = mt_parts t" "mt_merged_name (fold set_field fs t) = mt_merged_name t"
  "mt_source (fold set_field fs t) = mt_source t" "mt_state (fold set_field fs t) = mt_state t"
  by (induction fs arbitrary: t) simp_all

lemma written_keeps [simp]:
  "mt_id (written s fs now t) = mt_id t" "mt_avid (written s fs now t) = mt_avid t"
  "mt_parts (written s fs now t) = mt_parts t" "mt_merged_name (written s fs now t) = mt_merged_name t"
  "mt_source (written s fs now t) = mt_source t"
  by (simp_all add: written_def split: option.split)

lemma written_state [simp]:
  "mt_state (written (Some s) fs now t) = s" "mt_state (written None fs now t) = mt_state t"
  by (simp_all add: written_def)

text \<open>What the table always satisfies: its primary key, fresh ids ahead, and the index.\<close>

definition merge_ok :: "merge_table \<Rightarrow> bool" where
  "merge_ok tbl \<longleftrightarrow> unique_key mt_id (mr_rows tbl) \<and> (\<forall>t \<in> set (mr_rows tbl). mt_id t < mr_next tbl)
     \<and> one_open_per_avid (mr_rows tbl)"

lemma merge_ok_unique: "merge_ok tbl \<Longrightarrow> unique_key mt_id (mr_rows tbl)"
  by (simp add: merge_ok_def)

definition merge_state_at :: "merge_table \<Rightarrow> nat \<Rightarrow> merge_state option" where
  "merge_state_at tbl k = map_option mt_state (get_task tbl k)"

lemma get_task_write [table_simps]:
  "get_task (snd (write_task tbl k e s fs now)) k' =
     map_option (\<lambda>t. if mt_id t = k \<and> (case e of None \<Rightarrow> True | Some e \<Rightarrow> mt_state t = e)
                     then written s fs now t else t) (get_task tbl k')"
  by (simp add: write_task_def get_task_def Let_def row_of_update_where)

lemma get_task_id: "get_task tbl k = Some t \<Longrightarrow> mt_id t = k"
  unfolding get_task_def by (drule row_of_Some) simp

lemma get_task_mem: "get_task tbl k = Some t \<Longrightarrow> t \<in> set (mr_rows tbl)"
  unfolding get_task_def by (drule row_of_Some) simp

lemma get_task_in: "unique_key mt_id (mr_rows tbl) \<Longrightarrow> t \<in> set (mr_rows tbl) \<Longrightarrow> get_task tbl (mt_id t) = Some t"
  by (simp add: get_task_def row_of_in)

lemma write_task_fst:
  assumes "unique_key mt_id (mr_rows tbl)"
  shows "fst (write_task tbl k e s fs now) =
     (case get_task tbl k of
        None \<Rightarrow> None
      | Some t \<Rightarrow> if (case e of None \<Rightarrow> True | Some e \<Rightarrow> mt_state t = e) then Some (written s fs now t) else None)"
  using count_where_key [OF assms, of k "\<lambda>t. case e of None \<Rightarrow> True | Some e \<Rightarrow> mt_state t = e"]
    row_of_update_where [of mt_id "written s fs now" k
      "\<lambda>t. mt_id t = k \<and> (case e of None \<Rightarrow> True | Some e \<Rightarrow> mt_state t = e)" "mr_rows tbl"]
  by (auto simp: write_task_def get_task_def Let_def dest: row_of_Some split: option.splits if_splits)

lemma write_task_next [simp]: "mr_next (snd (write_task tbl k e s fs now)) = mr_next tbl"
  by (simp add: write_task_def Let_def)

lemma write_task_unique [simp]:
  "unique_key mt_id (mr_rows (snd (write_task tbl k e s fs now))) = unique_key mt_id (mr_rows tbl)"
  by (simp add: write_task_def Let_def table_simps)

text \<open>The repository's transition is the compare-and-set the service relies on.\<close>

definition merge_cas ::
  "merge_field list \<Rightarrow> datetime \<Rightarrow> merge_table \<Rightarrow> nat \<Rightarrow> merge_state \<Rightarrow> merge_state \<Rightarrow> bool \<times> merge_table" where
  "merge_cas fs now tbl k e t = (let r = transition_task tbl k e t fs now in (fst r \<noteq> None, snd r))"

lemma write_task_none:
  assumes "unique_key mt_id (mr_rows tbl)" and "fst (write_task tbl k e s fs now) = None"
  shows "snd (write_task tbl k e s fs now) = tbl"
proof -
  let ?p = "\<lambda>t. mt_id t = k \<and> (case e of None \<Rightarrow> True | Some e \<Rightarrow> mt_state t = e)"
  have "\<not> ?p t" if "t \<in> set (mr_rows tbl)" for t
    using assms that get_task_in [OF assms(1) that] by (auto simp: write_task_fst split: option.splits)
  then have "count_where ?p (mr_rows tbl) = 0" by (simp add: count_where_zero_iff)
  then show ?thesis by (simp add: write_task_def Let_def update_where_none)
qed

interpretation merge_cas: cas_store merge_state_at "\<lambda>_ _. True" "merge_cas fs now"
  "\<lambda>tbl. unique_key mt_id (mr_rows tbl)" for fs now
proof
  fix s :: merge_table and k e t
  assume v: "unique_key mt_id (mr_rows s)"
  show "fst (merge_cas fs now s k e t) = (True \<and> merge_state_at s k = Some e)"
    using v by (auto simp: merge_cas_def transition_task_def merge_state_at_def write_task_fst Let_def split: option.splits)
  show "fst (merge_cas fs now s k e t) \<Longrightarrow> merge_state_at (snd (merge_cas fs now s k e t)) k = Some t"
  proof -
    assume "fst (merge_cas fs now s k e t)"
    then obtain r where "get_task s k = Some r" "mt_state r = e"
      using v by (auto simp: merge_cas_def transition_task_def write_task_fst Let_def split: option.splits if_splits)
    then show ?thesis
      using get_task_id [of s k r]
      by (simp add: merge_cas_def transition_task_def merge_state_at_def get_task_write Let_def)
  qed
  show "\<not> fst (merge_cas fs now s k e t) \<Longrightarrow> snd (merge_cas fs now s k e t) = s"
    using v by (auto simp: merge_cas_def transition_task_def Let_def write_task_none)
  show "k' \<noteq> k \<Longrightarrow> merge_state_at (snd (merge_cas fs now s k e t)) k' = merge_state_at s k'" for k'
    by (auto simp: merge_cas_def transition_task_def merge_state_at_def get_task_write Let_def
        dest: get_task_id cong: if_cong) (cases "get_task s k'"; auto dest: get_task_id)
  show "unique_key mt_id (mr_rows (snd (merge_cas fs now s k e t)))"
    using v by (simp add: merge_cas_def transition_task_def Let_def)
qed

section \<open>The index\<close>

text \<open>
  The index as a statement on pairs of rows, and that no write of the program can meet it: a
  write keeps every row's title, and a row that is open after it was open before.
\<close>

lemma one_open_iff:
  assumes "unique_key mt_id rows"
  shows "one_open_per_avid rows \<longleftrightarrow>
     (\<forall>a \<in> set rows. \<forall>b \<in> set rows. is_open a \<and> is_open b \<and> mt_avid a = mt_avid b \<longrightarrow> mt_id a = mt_id b)"
proof -
  have "distinct rows" using assms by (simp add: unique_key_def distinct_map)
  moreover have inj: "a = b" if "a \<in> set rows" "b \<in> set rows" "mt_id a = mt_id b" for a b
    using that unique_key_eqD [OF assms] by blast
  ultimately show ?thesis
    unfolding one_open_per_avid_def distinct_map inj_on_def using inj by auto
qed

lemma write_task_ok:
  assumes ok: "merge_ok tbl"
    and still: "\<And>t. get_task tbl k = Some t \<Longrightarrow> (case e of None \<Rightarrow> True | Some e \<Rightarrow> mt_state t = e)
                  \<Longrightarrow> is_open (written s fs now t) \<Longrightarrow> is_open t"
  shows "merge_ok (snd (write_task tbl k e s fs now))"
proof -
  let ?p = "\<lambda>t. mt_id t = k \<and> (case e of None \<Rightarrow> True | Some e \<Rightarrow> mt_state t = e)"
  let ?tbl = "snd (write_task tbl k e s fs now)"
  have u: "unique_key mt_id (mr_rows tbl)" using ok by (rule merge_ok_unique)
  have rows: "mr_rows ?tbl = update_where ?p (written s fs now) (mr_rows tbl)"
    by (simp add: write_task_def Let_def)
  have prior: "\<exists>t \<in> set (mr_rows tbl). mt_id t = mt_id r \<and> mt_avid t = mt_avid r \<and> (is_open r \<longrightarrow> is_open t)"
    if "r \<in> set (mr_rows ?tbl)" for r
  proof -
    from that rows consider "r \<in> set (mr_rows tbl)" "\<not> ?p r"
      | t where "t \<in> set (mr_rows tbl)" "?p t" "r = written s fs now t"
      by (auto elim: in_update_whereE)
    then show ?thesis
    proof cases
      case 2
      then have "get_task tbl k = Some t" using get_task_in [OF u] by auto
      with still 2 show ?thesis by auto
    qed auto
  qed
  have "one_open_per_avid (mr_rows ?tbl)"
    using ok prior unfolding merge_ok_def
    by (subst one_open_iff) (use u in simp, simp add: one_open_iff [OF u], metis)
  moreover have "\<forall>t \<in> set (mr_rows ?tbl). mt_id t < mr_next ?tbl"
    using ok prior by (auto simp: merge_ok_def) (metis)
  ultimately show ?thesis using u by (simp add: merge_ok_def)
qed

lemma update_task_ok [inv_intros]: "merge_ok tbl \<Longrightarrow> merge_ok (snd (update_task tbl k fs now))"
  unfolding update_task_def by (rule write_task_ok) (auto simp: is_open_def)

lemma transition_task_ok [inv_intros]:
  "merge_ok tbl \<Longrightarrow> e \<notin> FINISHED_STATES \<Longrightarrow> merge_ok (snd (transition_task tbl k e s fs now))"
  unfolding transition_task_def by (rule write_task_ok) (auto simp: is_open_def)

lemma create_task_ok [inv_intros]:
  assumes "merge_ok tbl"
  shows "merge_ok (snd (create_task tbl avid source library_dir brand parts merged_name now))"
proof -
  have "row_of mt_id (mr_next tbl) (mr_rows tbl) = None"
    using assms by (auto simp: merge_ok_def row_of_None_iff)
  then show ?thesis using assms by (auto simp: create_task_def Let_def merge_ok_def less_Suc_eq)
qed

end
