(* ===== verification/Merge_Detect.thy ===== *)
theory Merge_Detect
  imports Routes
begin

text \<open>
  \<^verbatim>\<open>merge/detect.py\<close>: the multi-part titles of the mapping tree, what counts as a whole copy
  of a title, and the intake route a merged title re-enters through; with
  \<^verbatim>\<open>normalize_number\<close> of \<^verbatim>\<open>core/avid.py\<close>, which decides whether two spellings name
  one title. The directory walk and the line a strm holds are answers of the file system: a
  scan takes them as arguments. Digits are the ASCII ones.
\<close>

section \<open>Numbers in names\<close>

definition digit_of :: "char \<Rightarrow> nat" where
  "digit_of c = code_of c - 48"

definition number_of_digits :: "string \<Rightarrow> nat" where
  "number_of_digits ds = foldl (\<lambda>n c. 10 * n + digit_of c) 0 ds"

definition newline :: char where
  "newline = CHR 0x0A"

text \<open>What the pattern end \<^verbatim>\<open>$\<close> lets go: one newline at the very end.\<close>

definition chop_newline :: "string \<Rightarrow> string" where
  "chop_newline s = (if s \<noteq> [] \<and> last s = newline then butlast s else s)"

text \<open>The digits a text ends in, and what stands before them.\<close>

definition last_digits :: "string \<Rightarrow> string" where
  "last_digits s = rev (takeWhile is_digit_char (rev s))"

definition before_digits :: "string \<Rightarrow> string" where
  "before_digits s = rev (dropWhile is_digit_char (rev s))"

text \<open>A text split before a suffix given in upper case, if it ends in it in any case.\<close>

definition before_suffix :: "string \<Rightarrow> string \<Rightarrow> string option" where
  "before_suffix suffix s =
     (let n = length s - length suffix
      in if length suffix \<le> length s \<and> upper (drop n s) = suffix then Some (take n s) else None)"

text \<open>\<^verbatim>\<open>f'{n:03d}'\<close>.\<close>

definition pad3 :: "nat \<Rightarrow> string" where
  "pad3 n = replicate (3 - length (digits_of n)) (CHR ''0'') @ digits_of n"

definition NON_CID_BRANDS :: "string set" where
  "NON_CID_BRANDS = {''FC2'', ''HEYZO'', ''HEYDOUGA'', ''GETCHU'', ''GYUTTO'', ''MKBD'', ''MKD'', ''S2M'',
     ''S2MBD'', ''MK3D2DBD'', ''CW3D2BD'', ''CW3D2DBD''}"

definition normalize_number :: "string \<Rightarrow> string" where
  "normalize_number avid =
     (let s = chop_newline avid;
          brand = takeWhile (\<lambda>c. c \<noteq> CHR ''-'') s;
          rest = drop (Suc (length brand)) s
      in if length brand < length s
           \<and> list_all (\<lambda>c. is_upper_char c \<or> is_digit_char c) brand \<and> list_ex is_upper_char brand
           \<and> rest \<noteq> [] \<and> list_all is_digit_char rest \<and> brand \<notin> NON_CID_BRANDS
         then brand @ ''-'' @ pad3 (number_of_digits rest)
         else avid)"

section \<open>Names of parts\<close>

definition has_cd_suffix :: "string \<Rightarrow> bool" where
  "has_cd_suffix stem =
     (let s = chop_newline stem
      in last_digits s \<noteq> [] \<and> before_suffix ''-CD'' (before_digits s) \<noteq> None)"

text \<open>\<^verbatim>\<open>CD_STRM_RE\<close>: the stem and the part's number.\<close>

definition cd_strm :: "string \<Rightarrow> (string \<times> nat) option" where
  "cd_strm name =
     (case before_suffix ''.STRM'' (chop_newline name) of
        None \<Rightarrow> None
      | Some s \<Rightarrow>
          (if last_digits s = [] then None
           else case before_suffix ''-CD'' (before_digits s) of
                  None \<Rightarrow> None
                | Some stem \<Rightarrow>
                    (if stem = [] \<or> newline \<in> set stem then None
                     else Some (stem, number_of_digits (last_digits s)))))"

definition MAX_STACKED_PARTS :: nat where
  "MAX_STACKED_PARTS = 9"

definition is_whole_copy :: "string \<Rightarrow> string \<Rightarrow> bool" where
  "is_whole_copy stem avid =
     (if has_cd_suffix stem then False
      else normalize_number (upper (strip stem)) = normalize_number (upper (strip avid)))"

definition VIDEO_SUFFIXES :: "string set" where
  "VIDEO_SUFFIXES = {''.mp4'', ''.mkv'', ''.avi'', ''.wmv'', ''.mov'', ''.flv'', ''.m4v'', ''.ts'', ''.rmvb''}"

definition whole_copies :: "string \<Rightarrow> string list \<Rightarrow> string list" where
  "whole_copies avid names =
     filter (\<lambda>n. lower (path_suffix n) \<in> VIDEO_SUFFIXES \<and> is_whole_copy (path_stem n) avid) names"

section \<open>Titles\<close>

datatype title_problem = UNREADABLE_STRM | OUTSIDE_LIBRARY | SCATTERED_PARTS | WHOLE_COPY

record part =
  pt_index :: nat
  pt_strm :: string
  pt_target :: string

record multipart_title =
  ti_avid :: string
  ti_directory :: string
  ti_parts :: "part list"
  ti_missing :: "nat list"
  ti_library_dir :: "string option"
  ti_brand :: "string option"
  ti_problem :: "title_problem option"

definition part_count :: "multipart_title \<Rightarrow> nat" where
  "part_count t = length (ti_parts t)"

definition stackable :: "multipart_title \<Rightarrow> bool" where
  "stackable t \<longleftrightarrow> part_count t \<le> MAX_STACKED_PARTS \<and> ti_missing t = []"

definition title_complete :: "multipart_title \<Rightarrow> bool" where
  "title_complete t \<longleftrightarrow> ti_missing t = [] \<and> ti_problem t = None"

text \<open>\<^verbatim>\<open>str(path.relative_to(root))\<close>, for a path the walk of the root produced.\<close>

definition rel_str :: "string \<Rightarrow> string \<Rightarrow> string" where
  "rel_str path root = path_str [] (the (relative_parts path root))"

text \<open>\<^verbatim>\<open>_title\<close>: where the parts live, or the first reason they cannot be merged.\<close>

definition library_place :: "string \<Rightarrow> string list \<Rightarrow> title_problem + string \<times> string" where
  "library_place library_root targets =
     (let parents = map path_parent targets
      in if \<exists>p \<in> set parents. p \<noteq> hd parents then Inl SCATTERED_PARTS
         else case relative_parts (hd parents) library_root of
                None \<Rightarrow> Inl OUTSIDE_LIBRARY
              | Some relative \<Rightarrow>
                  (if length relative < 2 then Inl OUTSIDE_LIBRARY
                   else Inr (path_str [] (butlast relative), last relative)))"

definition title_of ::
  "string \<Rightarrow> (string \<Rightarrow> string option) \<Rightarrow> string \<Rightarrow> string \<Rightarrow> (nat \<times> string) list \<Rightarrow> bool
     \<Rightarrow> multipart_title" where
  "title_of root read_strm library_root stem entries whole =
     (let indexes = map fst entries;
          missing = filter (\<lambda>i. i \<notin> set indexes) [1..<Suc (Max (set indexes))];
          parts = map (\<lambda>(i, p). \<lparr>pt_index = i, pt_strm = rel_str p root,
                                 pt_target = (case read_strm p of None \<Rightarrow> [] | Some t \<Rightarrow> t)\<rparr>) entries;
          place = (if list_ex (\<lambda>(i, p). read_strm p = None) entries then Inl UNREADABLE_STRM
                   else library_place library_root (map pt_target parts))
      in \<lparr>ti_avid = stem, ti_directory = rel_str (path_parent (snd (hd entries))) root, ti_parts = parts,
          ti_missing = missing,
          ti_library_dir = (case place of Inl _ \<Rightarrow> None | Inr (d, b) \<Rightarrow> Some d),
          ti_brand = (case place of Inl _ \<Rightarrow> None | Inr (d, b) \<Rightarrow> Some b),
          ti_problem = (case place of Inl e \<Rightarrow> Some e | Inr _ \<Rightarrow> if whole then Some WHOLE_COPY else None)\<rparr>)"

text \<open>
  \<^verbatim>\<open>scan_multipart\<close>: the groups by directory and stem in the order they are first met, the
  stems beside them, and the titles of at least two parts, most parts first.
\<close>

fun add_to_group :: "'k \<Rightarrow> 'v \<Rightarrow> ('k \<times> 'v list) list \<Rightarrow> ('k \<times> 'v list) list" where
  "add_to_group k v [] = [(k, [v])]"
| "add_to_group k v ((k', vs) # gs) = (if k = k' then (k', vs @ [v]) # gs else (k', vs) # add_to_group k v gs)"

definition groups_of :: "(string \<times> string list) list \<Rightarrow> ((string \<times> string) \<times> (nat \<times> string) list) list" where
  "groups_of walk =
     fold (\<lambda>(d, name) gs.
             case cd_strm name of
               None \<Rightarrow> gs
             | Some (stem, i) \<Rightarrow> add_to_group (d, upper stem) (i, path_join d name) gs)
       (concat (map (\<lambda>(d, names). map (Pair d) names) walk)) []"

definition singles_of :: "(string \<times> string list) list \<Rightarrow> string \<Rightarrow> string list" where
  "singles_of walk d =
     map (\<lambda>n. take (length n - 5) n)
       (filter (\<lambda>n. cd_strm n = None \<and> has_suffix ''.strm'' (lower n))
         (concat (map snd (filter (\<lambda>(d', names). d' = d) walk))))"

definition scan_multipart ::
  "(string \<times> string list) list \<Rightarrow> (string \<Rightarrow> string option) \<Rightarrow> string \<Rightarrow> string \<Rightarrow> multipart_title list" where
  "scan_multipart walk read_strm root library_root =
     sort_key (\<lambda>t. (- int (part_count t), ti_avid t))
       (map (\<lambda>((d, stem), entries).
               title_of root read_strm library_root stem (sort entries)
                 (list_ex (\<lambda>single. is_whole_copy single stem) (singles_of walk d)))
         (filter (\<lambda>(k, entries). 1 < length entries) (groups_of walk)))"

section \<open>The route a merged title re-enters through\<close>

datatype source_basis = BASIS_LIBRARY | BASIS_LEDGER

definition route_sources :: "archive_routes \<Rightarrow> string list" where
  "route_sources archive = map fst (rt_priority_mapping archive) @ map fst (rt_mapping archive)"

text \<open>
  \<^verbatim>\<open>{**priority, **mapping}\<close>: a route of both tables keeps its place among the priority
  routes and takes the other table's destination.
\<close>

definition merged_routes :: "archive_routes \<Rightarrow> (string \<times> string) list" where
  "merged_routes archive =
     map (\<lambda>(k, v). (k, case map_of (rt_mapping archive) k of Some v' \<Rightarrow> v' | None \<Rightarrow> v)) (rt_priority_mapping archive)
     @ filter (\<lambda>(k, v). k \<notin> fst ` set (rt_priority_mapping archive)) (rt_mapping archive)"

definition source_for_library_dir :: "archive_routes \<Rightarrow> string option \<Rightarrow> string option" where
  "source_for_library_dir archive library_dir =
     (case library_dir of
        None \<Rightarrow> None
      | Some d \<Rightarrow>
          (case filter (\<lambda>(source, dst). dst = d) (merged_routes archive) of
             [(source, _)] \<Rightarrow> Some source
           | _ \<Rightarrow> None))"

definition source_for_task_dir :: "archive_routes \<Rightarrow> string option \<Rightarrow> string option" where
  "source_for_task_dir archive task_dir_path =
     (case task_dir_path of
        None \<Rightarrow> None
      | Some d \<Rightarrow>
          (if d = [] \<or> rt_src_dir archive = [] then None
           else
             (let wanted = drop 1 (path_parts d)
              in if wanted = [] then None
                 else find (\<lambda>source. ends_with (path_parts (path_join (rt_src_dir archive) source)) wanted)
                        (route_sources archive))))"

definition resolve_source ::
  "archive_routes \<Rightarrow> multipart_title \<Rightarrow> string option \<Rightarrow> (string \<times> source_basis) option" where
  "resolve_source archive title ledger_task_dir =
     (case source_for_library_dir archive (ti_library_dir title) of
        Some source \<Rightarrow> Some (source, BASIS_LIBRARY)
      | None \<Rightarrow>
          (case source_for_task_dir archive ledger_task_dir of
             Some source \<Rightarrow> Some (source, BASIS_LEDGER)
           | None \<Rightarrow> None))"

section \<open>Reading back the names of parts\<close>

lemma code_of_digit: "n < 10 \<Longrightarrow> code_of (char_of (48 + n)) = 48 + n"
  by (simp add: code_of_def)

lemma digit_char: "n < 10 \<Longrightarrow> is_digit_char (char_of (48 + n)) \<and> digit_of (char_of (48 + n)) = n"
  by (simp add: is_digit_char_def digit_of_def code_of_digit)

lemma digits_of_digits: "list_all is_digit_char (digits_of n) \<and> digits_of n \<noteq> []"
proof (induction n rule: digits_of.induct)
  case (1 n)
  then show ?case
    using digit_char [of "n mod 10"] digit_char [of n]
    by (subst (1 2) digits_of.simps) (cases "n < 10"; simp)
qed

lemma number_of_digits_snoc: "number_of_digits (ds @ [c]) = 10 * number_of_digits ds + digit_of c"
  by (simp add: number_of_digits_def)

lemma number_of_digits_of: "number_of_digits (digits_of n) = n"
proof (induction n rule: digits_of.induct)
  case (1 n)
  show ?case
  proof (cases "n < 10")
    case True
    then show ?thesis using digit_char [OF True] by (subst digits_of.simps) (simp add: number_of_digits_def)
  next
    case False
    then have "number_of_digits (digits_of (n div 10)) = n div 10" using 1 by simp
    then show ?thesis
      using False digit_char [of "n mod 10"] by (subst digits_of.simps) (simp add: number_of_digits_snoc)
  qed
qed

lemma last_digits_append:
  assumes "list_all is_digit_char ds" and "s = [] \<or> \<not> is_digit_char (last s)"
  shows "last_digits (s @ ds) = ds" and "before_digits (s @ ds) = s"
proof -
  have all: "\<forall>c \<in> set (rev ds). is_digit_char c" using assms(1) by (simp add: list_all_iff)
  have "takeWhile is_digit_char (rev s) = []" "dropWhile is_digit_char (rev s) = rev s"
    using assms(2) by (cases "rev s"; auto simp: hd_rev [symmetric] dest: arg_cong [of _ _ rev])+
  moreover have "takeWhile is_digit_char (rev ds @ xs) = rev ds @ takeWhile is_digit_char xs"
    "dropWhile is_digit_char (rev ds @ xs) = dropWhile is_digit_char xs" for xs
    using all by (auto intro: takeWhile_append2 dropWhile_append2)
  ultimately show "last_digits (s @ ds) = ds" and "before_digits (s @ ds) = s"
    unfolding last_digits_def before_digits_def by simp_all
qed

lemma before_suffix_append: "upper suffix' = suffix \<Longrightarrow> before_suffix suffix (s @ suffix') = Some s"
  by (auto simp: before_suffix_def upper_def)

lemma upper_literals: "upper ''-cd'' = ''-CD''" "upper ''.strm'' = ''.STRM''"
  by code_simp+

lemma chop_newline_other: "s = [] \<or> last s \<noteq> newline \<Longrightarrow> chop_newline s = s"
  by (auto simp: chop_newline_def)

text \<open>Whatever number a part has, its name reads back as the stem and that number.\<close>

lemma cd_strm_name:
  assumes "stem \<noteq> []" and "newline \<notin> set stem"
  shows "cd_strm (stem @ ''-cd'' @ digits_of n @ ''.strm'') = Some (stem, n)"
proof -
  have digits: "list_all is_digit_char (digits_of n)" "digits_of n \<noteq> []" using digits_of_digits by auto
  have 1: "chop_newline (stem @ ''-cd'' @ digits_of n @ ''.strm'') = (stem @ ''-cd'' @ digits_of n) @ ''.strm''"
    by (simp add: chop_newline_def newline_def)
  have 2: "before_suffix ''.STRM'' ((stem @ ''-cd'' @ digits_of n) @ ''.strm'') = Some ((stem @ ''-cd'') @ digits_of n)"
    by (subst before_suffix_append) (simp_all add: upper_literals)
  have 3: "last_digits ((stem @ ''-cd'') @ digits_of n) = digits_of n"
    "before_digits ((stem @ ''-cd'') @ digits_of n) = stem @ ''-cd''"
    by (rule last_digits_append; simp add: digits is_digit_char_def code_of_def)+
  have 4: "before_suffix ''-CD'' (stem @ ''-cd'') = Some stem"
    by (rule before_suffix_append) (simp add: upper_literals)
  show ?thesis
    using assms digits by (simp add: cd_strm_def 1 2 3 4 number_of_digits_of del: append_assoc append_Cons)
qed

lemma cd_stem_not_whole: "\<not> is_whole_copy (stem @ ''-cd'' @ digits_of n) avid"
proof -
  have digits: "list_all is_digit_char (digits_of n)" "digits_of n \<noteq> []" using digits_of_digits by auto
  have "last (digits_of n) \<in> set (digits_of n)" using digits by simp
  then have "is_digit_char (last (digits_of n))" using digits by (auto simp: list_all_iff)
  then have "last (digits_of n) \<noteq> newline" by (auto simp: is_digit_char_def newline_def code_of_def)
  then have 1: "chop_newline (stem @ ''-cd'' @ digits_of n) = (stem @ ''-cd'') @ digits_of n"
    using digits by (subst chop_newline_other) auto
  have 2: "last_digits ((stem @ ''-cd'') @ digits_of n) = digits_of n"
    "before_digits ((stem @ ''-cd'') @ digits_of n) = stem @ ''-cd''"
    by (rule last_digits_append; simp add: digits is_digit_char_def code_of_def)+
  have 3: "before_suffix ''-CD'' (stem @ ''-cd'') = Some stem"
    by (rule before_suffix_append) (simp add: upper_literals)
  show ?thesis
    using digits by (simp add: is_whole_copy_def has_cd_suffix_def 1 2 3 del: append_assoc append_Cons)
qed

text \<open>
  C34: The name the archive gives a part is read back by the merge scan as the same title and the
  same number, whatever the number, and a part is never taken for a whole copy of any title.\<close>

theorem part_name_reads_back:
  assumes "stem \<noteq> []" and "newline \<notin> set stem"
  shows "cd_strm (stem @ ''-cd'' @ digits_of n @ ''.strm'') = Some (stem, n)
     \<and> \<not> is_whole_copy (stem @ ''-cd'' @ digits_of n) avid"
  using assms by (simp only: cd_strm_name cd_stem_not_whole simp_thms)

theorem part_name_reads_back_witness:
  "cd_strm ''ABC-123-cd12.strm'' = Some (''ABC-123'', 12) \<and> \<not> is_whole_copy ''ABC-123-cd12'' ''ABC-123''"
proof -
  have "digits_of 12 = ''12''" by code_simp
  moreover have "newline \<notin> set ''ABC-123''" by (simp add: newline_def)
  ultimately show ?thesis using part_name_reads_back [of "''ABC-123''" 12 "''ABC-123''"] by simp
qed

end
