(* ===== verification/Merge_World.thy ===== *)
theory Merge_World
  imports Merge_Tasks Merge_Detect Coroutines
begin

text \<open>
  The world of the merge service: the task table, a tick that advances at every await the
  model distinguishes, and the log of what was asked of Kubernetes, of CloudDrive and of the
  work volume. What the process does not decide itself is a field of \<open>merge_services\<close>, free to
  differ at every tick: the clock, the configuration, the answers of CloudDrive
  (\<^verbatim>\<open>clients/clouddrive/aio.py\<close>), of the Job API (\<^verbatim>\<open>merge/kube.py\<close>) and of the volume
  the Job and the app share, and what other requests write to the table meanwhile. Texts that
  may hold Chinese are the bytes of their UTF-8 form.
\<close>

section \<open>Answers of the outside\<close>

text \<open>
  The exceptions a step can meet: \<^verbatim>\<open>MergeFailedError\<close>, \<^verbatim>\<open>MergeActionError\<close>,
  \<^verbatim>\<open>KubeError\<close>, a missing file, and any other with its type and its text.
\<close>

datatype merge_exn =
  MergeFailed string
  | ActionRefused string
  | KubeErr string
  | FileMissing string
  | OtherExn string string

text \<open>\<^verbatim>\<open>str(exc) or type(exc).__name__\<close>.\<close>

fun exn_text :: "merge_exn \<Rightarrow> string" where
  "exn_text (MergeFailed s) = (if s = [] then ''MergeFailedError'' else s)"
| "exn_text (ActionRefused s) = (if s = [] then ''MergeActionError'' else s)"
| "exn_text (KubeErr s) = (if s = [] then ''KubeError'' else s)"
| "exn_text (FileMissing s) = (if s = [] then ''FileNotFoundError'' else s)"
| "exn_text (OtherExn t s) = (if s = [] then t else s)"

record cloud_entry =
  ce_name :: string
  ce_full_path :: string
  ce_is_directory :: bool
  ce_size :: int
  ce_hashes :: "(string \<times> string) list"

datatype copy_status = COPY_PENDING | COPY_SCANNING | COPY_SCANNED | COPY_COMPLETED | COPY_FAILED | COPY_UNKNOWN

record copy_entry =
  cp_source_path :: string
  cp_dest_path :: string
  cp_status :: copy_status
  cp_uploaded_bytes :: int
  cp_paused :: bool
  cp_errors :: "string list"

text \<open>The status file a worker writes; an absent key is None.\<close>

record worker_status =
  ws_state :: "string option"
  ws_size :: "int option"
  ws_sha1 :: "string option"
  ws_error :: "string option"
  ws_phase :: "string option"
  ws_progress :: "int option"

record job_condition =
  jc_type :: string
  jc_true :: bool
  jc_message :: string
  jc_reason :: string

record kube_job =
  kj_conditions :: "job_condition list"
  kj_succeeded :: bool
  kj_failed :: bool

record merge_settings =
  ms_work_dir :: string
  ms_cloud_work_dir :: string
  ms_cloud_staging_dir :: string
  ms_cloud_mount_prefix :: string
  ms_reserve_gib :: nat
  ms_auto_enabled :: bool
  ms_auto_include_stackable :: bool
  ms_auto_pause_on_failure :: bool
  ms_cloud_configured :: bool
  ms_archive :: archive_routes
  ms_archive_dst_dir :: string
  ms_mapping_dst_dir :: string

datatype pipeline = PIPELINE_ARCHIVE | PIPELINE_MAPPING

datatype merge_effect =
  CreateJob string "string list" nat
  | DeleteJob string
  | EnsureDir string string
  | CopyFile string string
  | RestartCopy string string
  | CancelCopy string string
  | MoveFile string string
  | DeleteCloud "string list"
  | Unlink string
  | Rmtree string
  | Trigger pipeline
  | Wake

record merge_services =
  mv_others :: "nat \<Rightarrow> merge_table \<Rightarrow> merge_table"
  mv_clock :: "nat \<Rightarrow> datetime"
  mv_settings :: "nat \<Rightarrow> merge_settings"
  mv_kube :: bool
  mv_create_job :: "nat \<Rightarrow> string \<Rightarrow> merge_exn option"
  mv_delete_job :: "nat \<Rightarrow> string \<Rightarrow> merge_exn option"
  mv_get_job :: "nat \<Rightarrow> string \<Rightarrow> merge_exn + kube_job option"
  mv_log_tail :: "nat \<Rightarrow> string \<Rightarrow> merge_exn + string"
  mv_cloud :: "nat \<Rightarrow> bool"
  mv_list_directory :: "nat \<Rightarrow> string \<Rightarrow> merge_exn + cloud_entry list"
  mv_copy_tasks :: "nat \<Rightarrow> merge_exn + copy_entry list"
  mv_upload_fatal :: "nat \<Rightarrow> string \<Rightarrow> merge_exn + string option"
  mv_ensure_directory :: "nat \<Rightarrow> string \<Rightarrow> string \<Rightarrow> merge_exn option"
  mv_copy_file :: "nat \<Rightarrow> string \<Rightarrow> string \<Rightarrow> merge_exn + bool \<times> string"
  mv_restart_copy :: "nat \<Rightarrow> string \<Rightarrow> string \<Rightarrow> merge_exn option"
  mv_cancel_copy :: "nat \<Rightarrow> string \<Rightarrow> string \<Rightarrow> merge_exn option"
  mv_move_file :: "nat \<Rightarrow> string \<Rightarrow> string \<Rightarrow> merge_exn + bool \<times> string"
  mv_delete_files :: "nat \<Rightarrow> string list \<Rightarrow> merge_exn + bool \<times> string"
  mv_read_status :: "nat \<Rightarrow> string \<Rightarrow> worker_status option"
  mv_file_size :: "nat \<Rightarrow> string \<Rightarrow> int option"
  mv_unlink :: "nat \<Rightarrow> string \<Rightarrow> merge_exn option"
  mv_trigger :: "nat \<Rightarrow> pipeline \<Rightarrow> merge_exn option"

section \<open>The world and its statements\<close>

record mworld =
  mw_table :: merge_table
  mw_tick :: nat
  mw_log :: "merge_effect list"

type_synonym 'a mio = "(mworld, merge_exn, 'a) prog"

definition m_db :: "merge_services \<Rightarrow> (merge_table \<Rightarrow> 'a \<times> merge_table) \<Rightarrow> 'a mio" where
  "m_db sv f w =
     (case f (mv_others sv (mw_tick w) (mw_table w)) of
        (a, tbl) \<Rightarrow> (Value a, w\<lparr>mw_table := tbl, mw_tick := Suc (mw_tick w)\<rparr>))"

definition m_read :: "merge_services \<Rightarrow> (merge_table \<Rightarrow> 'a) \<Rightarrow> 'a mio" where
  "m_read sv f = m_db sv (\<lambda>tbl. (f tbl, tbl))"

definition m_ask :: "(nat \<Rightarrow> 'a) \<Rightarrow> 'a mio" where
  "m_ask q w = (Value (q (mw_tick w)), w\<lparr>mw_tick := Suc (mw_tick w)\<rparr>)"

definition m_act :: "merge_effect \<Rightarrow> (nat \<Rightarrow> 'a) \<Rightarrow> 'a mio" where
  "m_act e q w = (Value (q (mw_tick w)), w\<lparr>mw_tick := Suc (mw_tick w), mw_log := mw_log w @ [e]\<rparr>)"

definition m_value :: "merge_exn + 'a \<Rightarrow> 'a mio" where
  "m_value r = (case r of Inl e \<Rightarrow> raise_io e | Inr a \<Rightarrow> ret a)"

definition m_done :: "merge_exn option \<Rightarrow> unit mio" where
  "m_done r = (case r of Some e \<Rightarrow> raise_io e | None \<Rightarrow> ret ())"

definition m_query :: "(nat \<Rightarrow> merge_exn + 'a) \<Rightarrow> 'a mio" where
  "m_query q = bind_io (m_ask q) m_value"

definition m_call :: "merge_effect \<Rightarrow> (nat \<Rightarrow> merge_exn + 'a) \<Rightarrow> 'a mio" where
  "m_call e q = bind_io (m_act e q) m_value"

definition m_order :: "merge_effect \<Rightarrow> (nat \<Rightarrow> merge_exn option) \<Rightarrow> unit mio" where
  "m_order e q = bind_io (m_act e q) m_done"

text \<open>\<^verbatim>\<open>with suppress(KubeError)\<close> and \<^verbatim>\<open>with suppress(Exception)\<close>.\<close>

definition suppress_kube :: "unit mio \<Rightarrow> unit mio" where
  "suppress_kube m = catch_io m (\<lambda>e. case e of KubeErr _ \<Rightarrow> ret () | _ \<Rightarrow> raise_io e)"

definition suppress_all :: "unit mio \<Rightarrow> unit mio" where
  "suppress_all m = catch_io m (\<lambda>_. ret ())"

section \<open>The repository and the clients as a step calls them\<close>

definition m_now :: "merge_services \<Rightarrow> datetime mio" where
  "m_now sv = m_ask (mv_clock sv)"

definition m_update :: "merge_services \<Rightarrow> nat \<Rightarrow> merge_field list \<Rightarrow> unit mio" where
  "m_update sv k fs =
     bind_io (m_now sv) (\<lambda>now.
     bind_io (m_db sv (\<lambda>tbl. update_task tbl k fs now)) (\<lambda>_. ret ()))"

definition m_transition ::
  "merge_services \<Rightarrow> nat \<Rightarrow> merge_state \<Rightarrow> merge_state \<Rightarrow> merge_field list \<Rightarrow> merge_task option mio" where
  "m_transition sv k e s fs =
     bind_io (m_now sv) (\<lambda>now. m_db sv (\<lambda>tbl. transition_task tbl k e s fs now))"

definition m_move ::
  "merge_services \<Rightarrow> nat \<Rightarrow> merge_state \<Rightarrow> merge_state \<Rightarrow> merge_field list \<Rightarrow> unit mio" where
  "m_move sv k e s fs = bind_io (m_transition sv k e s fs) (\<lambda>_. ret ())"

definition m_list :: "merge_services \<Rightarrow> string \<Rightarrow> cloud_entry list mio" where
  "m_list sv d = m_query (\<lambda>n. mv_list_directory sv n d)"

text \<open>A listing in which a missing directory holds nothing.\<close>

definition m_list_or_none :: "merge_services \<Rightarrow> string \<Rightarrow> cloud_entry list mio" where
  "m_list_or_none sv d =
     catch_io (m_list sv d) (\<lambda>e. case e of FileMissing _ \<Rightarrow> ret [] | _ \<Rightarrow> raise_io e)"

text \<open>\<^verbatim>\<open>AsyncCloudDrive.stat_file\<close>: the entry of that name and path in its parent's listing.\<close>

definition m_stat :: "merge_services \<Rightarrow> string \<Rightarrow> cloud_entry option mio" where
  "m_stat sv p =
     bind_io (m_list_or_none sv (path_parent p)) (\<lambda>entries.
       ret (find (\<lambda>e. ce_name e = path_name p \<and> ce_full_path e = p) entries))"

definition m_unlink :: "merge_services \<Rightarrow> string \<Rightarrow> unit mio" where
  "m_unlink sv p = m_order (Unlink p) (\<lambda>n. mv_unlink sv n p)"

definition require_cloud :: "merge_services \<Rightarrow> unit mio" where
  "require_cloud sv =
     bind_io (m_ask (mv_cloud sv)) (\<lambda>there.
       if there then ret () else raise_io (OtherExn ''RuntimeError'' ''CloudDrive is not configured''))"

definition NO_JOB_TEMPLATE :: string where
  "NO_JOB_TEMPLATE = ''the merge Job template is not mounted (EMBYX_MANAGER_MERGE_JOB_TEMPLATE)''"

definition require_kube :: "merge_services \<Rightarrow> unit mio" where
  "require_kube sv =
     (if mv_kube sv then ret () else raise_io (OtherExn ''RuntimeError'' NO_JOB_TEMPLATE))"

end
