(* ===== verification/Merge_Service.thy ===== *)
theory Merge_Service
  imports Merge_World
begin

text \<open>
  \<^verbatim>\<open>merge/service.py\<close>: one step of a merge task per poll, and the operator's cancel and
  retry. Every handler is a coroutine over the merge world, in the order the code awaits; the
  names are the code's. A cancellation of the process itself (a shutdown) is not modelled: the
  code is written so that a step may be taken again.
\<close>

section \<open>Constants\<close>

definition MAX_UPLOAD_ATTEMPTS :: nat where "MAX_UPLOAD_ATTEMPTS = 5"

definition HASH_WAIT :: timedelta where "HASH_WAIT = seconds 1800"

definition STAGED_FILE_WAIT :: timedelta where "STAGED_FILE_WAIT = seconds 600"

definition ARCHIVE_NUDGE_INTERVAL :: timedelta where "ARCHIVE_NUDGE_INTERVAL = seconds 300"

definition COPY_LISTING_GRACE :: timedelta where "COPY_LISTING_GRACE = seconds 120"

definition ARCHIVE_WAIT :: timedelta where "ARCHIVE_WAIT = hours 2"

definition SHA1_HASH_KEY :: string where "SHA1_HASH_KEY = ''2''"

definition PERMANENT_UPLOAD_ERRORS :: "string list" where
  "PERMANENT_UPLOAD_ERRORS =
     [''code: 10025'',
      [CHR 0xE5, CHR 0x8D, CHR 0x95, CHR 0xE6, CHR 0x96, CHR 0x87, CHR 0xE4, CHR 0xBB, CHR 0xB6,
       CHR 0xE4, CHR 0xB8, CHR 0x8D, CHR 0xE8, CHR 0x83, CHR 0xBD, CHR 0xE5, CHR 0xA4, CHR 0xA7,
       CHR 0xE4, CHR 0xBA, CHR 0x8E]]"

section \<open>Where a task's files live\<close>

record merge_paths =
  mp_output :: string
  mp_status :: string
  mp_cloud_source :: string
  mp_staging_dir :: string
  mp_staged_file :: string
  mp_intake_dir :: string
  mp_target_dir :: string
  mp_part_api_paths :: "string list"

definition merge_api_path :: "string \<Rightarrow> string \<Rightarrow> merge_exn + string" where
  "merge_api_path mounted mount_prefix =
     (case relative_parts mounted mount_prefix of
        None \<Rightarrow> Inl (MergeFailed (mounted @ '' is outside the CloudDrive mount '' @ mount_prefix))
      | Some relative \<Rightarrow> Inr (path_str ''/'' relative))"

fun merge_api_paths :: "string list \<Rightarrow> string \<Rightarrow> merge_exn + string list" where
  "merge_api_paths [] mount_prefix = Inr []"
| "merge_api_paths (p # ps) mount_prefix =
     (case merge_api_path p mount_prefix of
        Inl e \<Rightarrow> Inl e
      | Inr a \<Rightarrow> (case merge_api_paths ps mount_prefix of Inl e \<Rightarrow> Inl e | Inr as \<Rightarrow> Inr (a # as)))"

definition merge_paths :: "merge_task \<Rightarrow> merge_settings \<Rightarrow> merge_exn + merge_paths" where
  "merge_paths t ms =
     (let staging = ms_cloud_staging_dir ms @ ''/merge-'' @ str_int (int (mt_id t))
      in case merge_api_path (rt_src_dir (ms_archive ms)) (ms_cloud_mount_prefix ms) of
           Inl e \<Rightarrow> Inl e
         | Inr intake \<Rightarrow>
             (case merge_api_paths (mt_parts t) (ms_cloud_mount_prefix ms) of
                Inl e \<Rightarrow> Inl e
              | Inr parts \<Rightarrow>
                  Inr \<lparr>mp_output = path_join (ms_work_dir ms) (mt_merged_name t),
                       mp_status = path_join (path_join (ms_work_dir ms) ''.merge'') (str_int (int (mt_id t)) @ ''.json''),
                       mp_cloud_source = ms_cloud_work_dir ms @ ''/'' @ mt_merged_name t,
                       mp_staging_dir = staging,
                       mp_staged_file = staging @ ''/'' @ mt_merged_name t,
                       mp_intake_dir = intake @ ''/'' @ mt_source t,
                       mp_target_dir = intake @ ''/'' @ mt_source t @ ''/'' @ mt_avid t,
                       mp_part_api_paths = parts\<rparr>))"

text \<open>The worker's leftovers next to the output.\<close>

definition partial_path :: "string \<Rightarrow> string" where
  "partial_path output = path_join (path_parent output) (''.'' @ path_name output @ ''.part'')"

definition remux_dir :: "string \<Rightarrow> string" where
  "remux_dir output = path_join (path_parent output) (''.'' @ path_name output @ ''.parts'')"

text \<open>\<^verbatim>\<open>s.rsplit('/', 1)\<close> of a text with a slash, its first part the root where empty.\<close>

definition split_last_slash :: "string \<Rightarrow> string \<times> string" where
  "split_last_slash s =
     (let name = rev (takeWhile (\<lambda>c. c \<noteq> slash) (rev s));
          parent = take (length s - Suc (length name)) s
      in (if parent = [] then ''/'' else parent, name))"

section \<open>Jobs\<close>

definition MAX_JOB_NAME :: nat where "MAX_JOB_NAME = 52"

fun dash_runs :: "bool \<Rightarrow> string \<Rightarrow> string" where
  "dash_runs open [] = []"
| "dash_runs open (c # s) =
     (if is_lower_char c \<or> is_digit_char c then c # dash_runs False s
      else if open then dash_runs True s else CHR ''-'' # dash_runs True s)"

definition strip_dashes :: "string \<Rightarrow> string" where
  "strip_dashes s = rev (dropWhile ((=) CHR ''-'') (rev (dropWhile ((=) CHR ''-'') s)))"

definition job_name :: "nat \<Rightarrow> string \<Rightarrow> string" where
  "job_name k avid =
     rev (dropWhile ((=) CHR ''-'')
       (rev (take MAX_JOB_NAME
         (''embyx-merge-'' @ str_int (int k) @ ''-'' @ strip_dashes (dash_runs False (lower avid))))))"

datatype job_state = JOB_SUCCEEDED | JOB_FAILED | JOB_RUNNING

fun condition_outcome :: "job_condition list \<Rightarrow> job_state option" where
  "condition_outcome [] = None"
| "condition_outcome (c # cs) =
     (if \<not> jc_true c then condition_outcome cs
      else if jc_type c = ''Complete'' then Some JOB_SUCCEEDED
      else if jc_type c = ''Failed'' then Some JOB_FAILED
      else condition_outcome cs)"

definition job_outcome :: "kube_job \<Rightarrow> job_state" where
  "job_outcome job =
     (case condition_outcome (kj_conditions job) of
        Some s \<Rightarrow> s
      | None \<Rightarrow> if kj_succeeded job then JOB_SUCCEEDED else if kj_failed job then JOB_FAILED else JOB_RUNNING)"

definition job_failure :: "kube_job \<Rightarrow> string" where
  "job_failure job =
     (case find (\<lambda>c. jc_type c = ''Failed'' \<and> jc_true c) (kj_conditions job) of
        None \<Rightarrow> []
      | Some c \<Rightarrow> if jc_message c \<noteq> [] then jc_message c else jc_reason c)"

section \<open>Whether merging can run\<close>

definition unavailable :: "merge_services \<Rightarrow> merge_settings \<Rightarrow> string option" where
  "unavailable sv ms =
     (if \<not> mv_kube sv then Some NO_JOB_TEMPLATE
      else if \<not> ms_cloud_configured ms then Some ''CloudDrive is not configured''
      else if rt_src_dir (ms_archive ms) = [] \<or> ms_archive_dst_dir ms = []
        then Some ''archive.src_dir and archive.dst_dir must be configured''
      else if ms_work_dir ms = [] \<or> ms_cloud_work_dir ms = [] \<or> ms_cloud_staging_dir ms = []
                \<or> ms_cloud_mount_prefix ms = []
        then Some ''merge directories must be configured''
      else case merge_api_path (rt_src_dir (ms_archive ms)) (ms_cloud_mount_prefix ms) of
             Inl _ \<Rightarrow> Some ''archive.src_dir must lie under merge.cloud_mount_prefix''
           | Inr _ \<Rightarrow> None)"

section \<open>A whole copy beside the parts\<close>

definition whole_copy :: "merge_services \<Rightarrow> merge_task \<Rightarrow> merge_paths \<Rightarrow> string option mio" where
  "whole_copy sv t p =
     bind_io (require_cloud sv) (\<lambda>_.
     bind_io (m_list_or_none sv (path_parent (hd (mp_part_api_paths p)))) (\<lambda>entries.
       ret (case whole_copies (mt_avid t) (map ce_name (filter (\<lambda>e. \<not> ce_is_directory e) entries)) of
              [] \<Rightarrow> None
            | n # _ \<Rightarrow> Some n)))"

definition refuse_whole_copy :: "merge_services \<Rightarrow> merge_task \<Rightarrow> merge_paths \<Rightarrow> unit mio" where
  "refuse_whole_copy sv t p =
     bind_io (whole_copy sv t p) (\<lambda>whole.
       case whole of
         None \<Rightarrow> ret ()
       | Some n \<Rightarrow>
           raise_io (MergeFailed (''the library already holds '' @ n @ '', a whole copy of '' @ mt_avid t
             @ ''; merging its parts would only duplicate it'')))"

section \<open>Queued and merging\<close>

definition start_merge :: "merge_services \<Rightarrow> merge_task \<Rightarrow> merge_paths \<Rightarrow> unit mio" where
  "start_merge sv t p =
     bind_io (require_kube sv) (\<lambda>_.
     bind_io (refuse_whole_copy sv t p) (\<lambda>_.
     bind_io (m_unlink sv (mp_status p)) (\<lambda>_.
     bind_io (m_ask (mv_settings sv)) (\<lambda>ms.
     bind_io
       (m_order
         (CreateJob (job_name (mt_id t) (mt_avid t))
           ([''--output'', mp_output p, ''--status'', mp_status p, ''--reserve-gib'',
             str_int (int (ms_reserve_gib ms)), ''--''] @ mt_parts t) (mt_id t))
         (\<lambda>n. mv_create_job sv n (job_name (mt_id t) (mt_avid t)))) (\<lambda>_.
       m_move sv (mt_id t) MQUEUED MMERGING
         [FJob_Name (Some (job_name (mt_id t) (mt_avid t))), FPhase (Some ''starting''), FProgress (Some 0),
          FError None, FNotice None])))))"

definition no_status :: worker_status where
  "no_status = \<lparr>ws_state = None, ws_size = None, ws_sha1 = None, ws_error = None, ws_phase = None,
                ws_progress = None\<rparr>"

definition read_status :: "merge_services \<Rightarrow> merge_paths \<Rightarrow> worker_status mio" where
  "read_status sv p =
     bind_io (m_ask (\<lambda>n. mv_read_status sv n (mp_status p))) (\<lambda>r.
       ret (case r of None \<Rightarrow> no_status | Some s \<Rightarrow> s))"

definition named_job :: "merge_task \<Rightarrow> string option" where
  "named_job t = (case mt_job_name t of None \<Rightarrow> None | Some j \<Rightarrow> if j = [] then None else Some j)"

definition delete_named_job :: "merge_services \<Rightarrow> merge_task \<Rightarrow> unit mio" where
  "delete_named_job sv t =
     (case named_job t of
        None \<Rightarrow> ret ()
      | Some j \<Rightarrow> suppress_kube (m_order (DeleteJob j) (\<lambda>n. mv_delete_job sv n j)))"

definition merge_reported_done :: "merge_services \<Rightarrow> merge_task \<Rightarrow> merge_paths \<Rightarrow> worker_status \<Rightarrow> unit mio" where
  "merge_reported_done sv t p s =
     bind_io (m_ask (\<lambda>n. mv_file_size sv n (mp_output p))) (\<lambda>size.
       if size = None \<or> size \<noteq> ws_size s then
         raise_io (MergeFailed (''the Job reported '' @ path_name (mp_output p)
           @ '' done, but it is not on the work volume''))
       else
         bind_io (m_move sv (mt_id t) MMERGING MUPLOADING
           [FMerged_Bytes (ws_size s), FMerged_Sha1 (Some (upper (case ws_sha1 s of None \<Rightarrow> [] | Some h \<Rightarrow> h))),
            FPhase None, FProgress None, FUploaded_Bytes (Some 0), FUpload_Attempts 0, FNotice None]) (\<lambda>_.
         bind_io (delete_named_job sv t) (\<lambda>_.
           m_unlink sv (mp_status p))))"

definition merge_job_failed :: "merge_services \<Rightarrow> merge_task \<Rightarrow> merge_paths \<Rightarrow> kube_job \<Rightarrow> unit mio" where
  "merge_job_failed sv t p job =
     bind_io (m_unlink sv (partial_path (mp_output p))) (\<lambda>_.
     bind_io (m_act (Rmtree (remux_dir (mp_output p))) (\<lambda>_. ())) (\<lambda>_.
     bind_io
       (catch_io
         (m_query (\<lambda>n. mv_log_tail sv n (case mt_job_name t of None \<Rightarrow> [] | Some j \<Rightarrow> j)))
         (\<lambda>e. case e of KubeErr _ \<Rightarrow> ret [] | _ \<Rightarrow> raise_io e)) (\<lambda>tail.
       let details = filter (\<lambda>d. d \<noteq> []) [job_failure job, tail]
       in raise_io (MergeFailed (''the merge Job failed''
            @ (if details = [] then [] else '': '' @ join_with '' | '' details))))))"

definition watch_merge :: "merge_services \<Rightarrow> merge_task \<Rightarrow> merge_paths \<Rightarrow> unit mio" where
  "watch_merge sv t p =
     bind_io (require_kube sv) (\<lambda>_.
     bind_io (read_status sv p) (\<lambda>s.
       if ws_state s = Some ''done'' then merge_reported_done sv t p s
       else if ws_state s = Some ''failed'' then
         raise_io (MergeFailed (case ws_error s of
             Some (c # cs) \<Rightarrow> c # cs
           | _ \<Rightarrow> ''the merge Job failed''))
       else
         bind_io (case named_job t of None \<Rightarrow> ret None | Some j \<Rightarrow> m_query (\<lambda>n. mv_get_job sv n j)) (\<lambda>job.
           case job of
             None \<Rightarrow> raise_io (MergeFailed ''the merge Job disappeared before it finished'')
           | Some j \<Rightarrow>
               (case job_outcome j of
                  JOB_FAILED \<Rightarrow> merge_job_failed sv t p j
                | JOB_SUCCEEDED \<Rightarrow>
                    bind_io (read_status sv p) (\<lambda>again.
                      if ws_state again = Some ''done'' \<or> ws_state again = Some ''failed'' then ret ()
                      else raise_io (MergeFailed ''the merge Job ended without reporting a result''))
                | JOB_RUNNING \<Rightarrow>
                    m_update sv (mt_id t)
                      [FPhase (case ws_phase s of Some (c # cs) \<Rightarrow> Some (c # cs) | _ \<Rightarrow> mt_phase t),
                       FProgress (case ws_progress s of Some x \<Rightarrow> Some x | None \<Rightarrow> mt_progress t),
                       FNotice None]))))"

section \<open>Uploading and verifying\<close>

definition copy_task :: "merge_services \<Rightarrow> merge_paths \<Rightarrow> copy_entry option mio" where
  "copy_task sv p =
     bind_io (m_query (mv_copy_tasks sv)) (\<lambda>entries.
       ret (find (\<lambda>e. cp_dest_path e = mp_staging_dir p) (rev entries)))"

definition restart_upload :: "merge_services \<Rightarrow> merge_task \<Rightarrow> merge_paths \<Rightarrow> string \<Rightarrow> string \<Rightarrow> unit mio" where
  "restart_upload sv t p source_path notice =
     bind_io (m_order (RestartCopy source_path (mp_staging_dir p))
               (\<lambda>n. mv_restart_copy sv n source_path (mp_staging_dir p))) (\<lambda>_.
       m_update sv (mt_id t) [FUpload_Attempts (mt_upload_attempts t + 1), FNotice (Some notice)])"

definition issue_copy :: "merge_services \<Rightarrow> merge_task \<Rightarrow> merge_paths \<Rightarrow> unit mio" where
  "issue_copy sv t p =
     (if MAX_UPLOAD_ATTEMPTS \<le> mt_upload_attempts t then
        raise_io (MergeFailed (''CloudDrive did not keep the upload after ''
          @ str_int (int (mt_upload_attempts t)) @ '' attempts''))
      else
        let (parent, name) = split_last_slash (mp_staging_dir p)
        in bind_io (m_order (EnsureDir parent name) (\<lambda>n. mv_ensure_directory sv n parent name)) (\<lambda>_.
           bind_io (m_call (CopyFile (mp_cloud_source p) (mp_staging_dir p))
                     (\<lambda>n. mv_copy_file sv n (mp_cloud_source p) (mp_staging_dir p))) (\<lambda>(success, message).
             m_update sv (mt_id t)
               [FUpload_Attempts (mt_upload_attempts t + 1),
                FNotice (if success then None
                         else Some (if message = [] then ''CloudDrive refused the copy'' else message))])))"

definition handled_fatal_upload ::
  "merge_services \<Rightarrow> merge_task \<Rightarrow> merge_paths \<Rightarrow> string \<Rightarrow> bool mio" where
  "handled_fatal_upload sv t p source_path =
     bind_io (m_query (\<lambda>n. mv_upload_fatal sv n (mp_staged_file p))) (\<lambda>r.
       case r of
         None \<Rightarrow> ret False
       | Some fatal \<Rightarrow>
           (if list_ex (\<lambda>marker. contains marker fatal) PERMANENT_UPLOAD_ERRORS
                 \<or> MAX_UPLOAD_ATTEMPTS \<le> mt_upload_attempts t then
              raise_io (MergeFailed (''CloudDrive gave up uploading '' @ mt_merged_name t @ '': '' @ fatal))
            else
              bind_io (m_now sv) (\<lambda>now.
              bind_io (if mt_notice t \<noteq> Some fatal \<or> COPY_LISTING_GRACE \<le> now - mt_updated_at t
                       then restart_upload sv t p source_path fatal else ret ()) (\<lambda>_.
                ret True))))"

definition upload_done :: "merge_services \<Rightarrow> merge_task \<Rightarrow> unit mio" where
  "upload_done sv t =
     m_move sv (mt_id t) MUPLOADING MVERIFYING [FUploaded_Bytes (mt_merged_bytes t), FNotice None]"

definition copy_not_listed :: "merge_services \<Rightarrow> merge_task \<Rightarrow> merge_paths \<Rightarrow> unit mio" where
  "copy_not_listed sv t p =
     (if mt_upload_attempts t = 0 then issue_copy sv t p
      else
        bind_io (m_stat sv (mp_staged_file p)) (\<lambda>staged.
          if (case staged of None \<Rightarrow> False | Some e \<Rightarrow> Some (ce_size e) = mt_merged_bytes t)
          then upload_done sv t
          else
            bind_io (m_now sv) (\<lambda>now.
              if now - mt_updated_at t < COPY_LISTING_GRACE then ret () else issue_copy sv t p)))"

definition watch_upload :: "merge_services \<Rightarrow> merge_task \<Rightarrow> merge_paths \<Rightarrow> unit mio" where
  "watch_upload sv t p =
     bind_io (require_cloud sv) (\<lambda>_.
     bind_io (copy_task sv p) (\<lambda>copy.
       if (case copy of None \<Rightarrow> False | Some c \<Rightarrow> cp_status c = COPY_COMPLETED) then upload_done sv t
       else
         bind_io (m_ask (\<lambda>n. mv_file_size sv n (mp_output p))) (\<lambda>size.
           if size = None then
             m_move sv (mt_id t) MUPLOADING MQUEUED
               [FJob_Name None, FMerged_Bytes None, FMerged_Sha1 None, FUploaded_Bytes None,
                FNotice (Some ''the merged file was lost before the upload finished; merging again'')]
           else
             case copy of
               None \<Rightarrow> copy_not_listed sv t p
             | Some c \<Rightarrow>
                 (if cp_status c = COPY_FAILED then
                    let errors = (let j = join_with ''; '' (cp_errors c)
                                  in if j = [] then ''CloudDrive reported the copy as failed'' else j)
                    in if MAX_UPLOAD_ATTEMPTS \<le> mt_upload_attempts t then
                         raise_io (MergeFailed (''upload failed '' @ str_int (int (mt_upload_attempts t))
                           @ '' times: '' @ errors))
                       else restart_upload sv t p (cp_source_path c) errors
                  else
                    bind_io (handled_fatal_upload sv t p (cp_source_path c)) (\<lambda>handled.
                      if handled then ret ()
                      else
                        m_update sv (mt_id t)
                          [FUploaded_Bytes (Some (cp_uploaded_bytes c)),
                           FNotice (if cp_paused c then Some ''CloudDrive has paused the upload'' else None)])))))"

text \<open>\<^verbatim>\<open>hashes.get('2', '').upper()\<close>, and an optional value as an f-string shows it.\<close>

definition staged_sha1 :: "cloud_entry \<Rightarrow> string" where
  "staged_sha1 e = upper (case map_of (ce_hashes e) SHA1_HASH_KEY of None \<Rightarrow> [] | Some h \<Rightarrow> h)"

definition shown :: "('a \<Rightarrow> string) \<Rightarrow> 'a option \<Rightarrow> string" where
  "shown f v = (case v of None \<Rightarrow> ''None'' | Some x \<Rightarrow> f x)"

definition verify :: "merge_services \<Rightarrow> merge_task \<Rightarrow> merge_paths \<Rightarrow> unit mio" where
  "verify sv t p =
     bind_io (require_cloud sv) (\<lambda>_.
     bind_io (m_now sv) (\<lambda>now.
     bind_io (m_stat sv (mp_staged_file p)) (\<lambda>staged.
       case staged of
         None \<Rightarrow>
           (if now - mt_state_changed_at t < STAGED_FILE_WAIT
            then m_update sv (mt_id t) [FNotice (Some ''waiting for CloudDrive to list the uploaded file'')]
            else raise_io (MergeFailed (''CloudDrive finished the copy, but '' @ mp_staged_file p @ '' is not there'')))
       | Some e \<Rightarrow>
           (if Some (ce_size e) \<noteq> mt_merged_bytes t then
              raise_io (MergeFailed (''uploaded size '' @ str_int (ce_size e) @ '' differs from the merged file (''
                @ shown str_int (mt_merged_bytes t) @ '')''))
            else if staged_sha1 e = [] then
              (if now - mt_state_changed_at t < HASH_WAIT
               then m_update sv (mt_id t) [FNotice (Some ''waiting for 115 to report the SHA-1'')]
               else raise_io (MergeFailed ''115 never reported a SHA-1 for the uploaded file''))
            else if Some (staged_sha1 e) \<noteq> mt_merged_sha1 t then
              raise_io (MergeFailed (''uploaded SHA-1 '' @ staged_sha1 e @ '' differs from the merged file (''
                @ shown (\<lambda>h. h) (mt_merged_sha1 t) @ '')''))
            else
              bind_io (refuse_whole_copy sv t p) (\<lambda>_.
                m_move sv (mt_id t) MVERIFYING MREPLACING [FNotice None])))))"

section \<open>Replacing and archiving\<close>

fun listed_files :: "merge_services \<Rightarrow> string list \<Rightarrow> string list mio" where
  "listed_files sv [] = ret []"
| "listed_files sv (d # ds) =
     bind_io (m_list_or_none sv d) (\<lambda>entries.
     bind_io (listed_files sv ds) (\<lambda>rest.
       ret (map ce_full_path (filter (\<lambda>e. \<not> ce_is_directory e) entries) @ rest)))"

definition present :: "merge_services \<Rightarrow> string list \<Rightarrow> string list mio" where
  "present sv files =
     bind_io (listed_files sv (remdups (sort (map path_parent files)))) (\<lambda>listed.
       ret (filter (\<lambda>f. f \<in> set listed) files))"

text \<open>The end of \<^verbatim>\<open>_replace\<close>, entered once the merged file is listed in the intake directory.\<close>

definition finish_swap :: "merge_services \<Rightarrow> merge_task \<Rightarrow> merge_paths \<Rightarrow> unit mio" where
  "finish_swap sv t p =
     bind_io (suppress_all (bind_io (m_call (DeleteCloud [mp_staging_dir p])
                              (\<lambda>n. mv_delete_files sv n [mp_staging_dir p])) (\<lambda>_. ret ()))) (\<lambda>_.
     bind_io (m_unlink sv (mp_output p)) (\<lambda>_.
     bind_io (m_unlink sv (partial_path (mp_output p))) (\<lambda>_.
     bind_io (m_unlink sv (mp_status p)) (\<lambda>_.
     bind_io (m_transition sv (mt_id t) MREPLACING MARCHIVING [FNotice None]) (\<lambda>moved.
       if moved = None then ret ()
       else m_order (Trigger PIPELINE_ARCHIVE) (\<lambda>n. mv_trigger sv n PIPELINE_ARCHIVE))))))"

text \<open>The second half of \<^verbatim>\<open>_replace\<close>, entered once no part is listed any more.\<close>

definition move_in_merged :: "merge_services \<Rightarrow> merge_task \<Rightarrow> merge_paths \<Rightarrow> unit mio" where
  "move_in_merged sv t p =
     (let (parent, name) = split_last_slash (mp_intake_dir p)
      in bind_io (m_order (EnsureDir parent name) (\<lambda>n. mv_ensure_directory sv n parent name)) (\<lambda>_.
         bind_io (m_order (EnsureDir (mp_intake_dir p) (mt_avid t))
                   (\<lambda>n. mv_ensure_directory sv n (mp_intake_dir p) (mt_avid t))) (\<lambda>_.
         bind_io (m_stat sv (mp_staged_file p)) (\<lambda>staged.
         bind_io (if staged = None then ret None
                  else
                    bind_io (m_call (MoveFile (mp_staged_file p) (mp_target_dir p))
                              (\<lambda>n. mv_move_file sv n (mp_staged_file p) (mp_target_dir p))) (\<lambda>(success, message).
                      ret (if success then None
                           else Some (if message = [] then ''the move was refused'' else message)))) (\<lambda>refused.
           case refused of
             Some notice \<Rightarrow> m_update sv (mt_id t) [FNotice (Some notice)]
           | None \<Rightarrow>
               bind_io (m_stat sv (mp_target_dir p @ ''/'' @ mt_merged_name t)) (\<lambda>target.
                 if target = None then
                   raise_io (MergeFailed (''the merged file is neither in '' @ mp_staging_dir p @ '' nor in ''
                     @ mp_target_dir p))
                 else
                   finish_swap sv t p))))))"

definition replace :: "merge_services \<Rightarrow> merge_task \<Rightarrow> merge_paths \<Rightarrow> unit mio" where
  "replace sv t p =
     bind_io (require_cloud sv) (\<lambda>_.
     bind_io (present sv (mp_part_api_paths p)) (\<lambda>remaining.
     bind_io (if remaining = [] then ret None
              else
                bind_io (m_call (DeleteCloud remaining) (\<lambda>n. mv_delete_files sv n remaining)) (\<lambda>(success, message).
                bind_io (present sv (mp_part_api_paths p)) (\<lambda>still.
                  ret (if still = [] then None
                       else Some (str_int (int (length still)) @ '' original parts are still listed: ''
                         @ (if message = [] then ''retrying'' else message)))))) (\<lambda>left.
       case left of
         Some notice \<Rightarrow> m_update sv (mt_id t) [FNotice (Some notice)]
       | None \<Rightarrow> move_in_merged sv t p)))"

definition watch_archive :: "merge_services \<Rightarrow> merge_task \<Rightarrow> merge_paths \<Rightarrow> unit mio" where
  "watch_archive sv t p =
     bind_io (require_cloud sv) (\<lambda>_.
     bind_io (m_list_or_none sv (mp_intake_dir p)) (\<lambda>entries.
       if \<not> list_ex (\<lambda>e. ce_full_path e = mp_target_dir p) entries then
         bind_io (m_now sv) (\<lambda>finished.
         bind_io (m_move sv (mt_id t) MARCHIVING MDONE [FFinished_At (Some finished), FNotice None]) (\<lambda>_.
           m_order (Trigger PIPELINE_MAPPING) (\<lambda>n. mv_trigger sv n PIPELINE_MAPPING)))
       else
         bind_io (m_now sv) (\<lambda>now.
           if ARCHIVE_WAIT < now - mt_state_changed_at t then
             bind_io (whole_copy sv t p) (\<lambda>whole.
               case whole of
                 Some n \<Rightarrow>
                   raise_io (MergeFailed (''the library already holds '' @ n @ '', so the archive leaves ''
                     @ mp_target_dir p @ '' alone; remove the task to delete the merged copy''))
               | None \<Rightarrow>
                   raise_io (MergeFailed (''the archive has not filed '' @ mp_target_dir p
                     @ ''; check the archive run log'')))
           else if ARCHIVE_NUDGE_INTERVAL < now - mt_updated_at t then
             bind_io (m_order (Trigger PIPELINE_ARCHIVE) (\<lambda>n. mv_trigger sv n PIPELINE_ARCHIVE)) (\<lambda>_.
               m_update sv (mt_id t) [FNotice (Some ''waiting for the archive run to file it'')])
           else ret ())))"

section \<open>Polling\<close>

fun merge_handler :: "merge_state \<Rightarrow> merge_services \<Rightarrow> merge_task \<Rightarrow> merge_paths \<Rightarrow> unit mio" where
  "merge_handler MQUEUED sv = start_merge sv"
| "merge_handler MMERGING sv = watch_merge sv"
| "merge_handler MUPLOADING sv = watch_upload sv"
| "merge_handler MVERIFYING sv = verify sv"
| "merge_handler MREPLACING sv = replace sv"
| "merge_handler MARCHIVING sv = watch_archive sv"
| "merge_handler _ sv = (\<lambda>t p. raise_io (OtherExn ''KeyError'' []))"

definition merge_step :: "merge_services \<Rightarrow> merge_task \<Rightarrow> unit mio" where
  "merge_step sv t =
     catch_io
       (bind_io (m_ask (mv_settings sv)) (\<lambda>ms.
        bind_io (m_value (merge_paths t ms)) (\<lambda>p.
          merge_handler (mt_state t) sv t p)))
       (\<lambda>e. case e of
              MergeFailed failure \<Rightarrow>
                m_move sv (mt_id t) (mt_state t) MFAILED
                  [FFailed_State (Some (mt_state t)), FError (Some failure), FNotice None]
            | _ \<Rightarrow> m_update sv (mt_id t) [FNotice (Some (exn_text e))])"

fun tick_tasks :: "merge_services \<Rightarrow> bool \<Rightarrow> merge_task list \<Rightarrow> unit mio" where
  "tick_tasks sv merging [] = ret ()"
| "tick_tasks sv merging (t # ts) =
     (if mt_state t = MFAILED then tick_tasks sv merging ts
      else if mt_state t = MQUEUED then
        (if merging then tick_tasks sv merging ts
         else bind_io (merge_step sv t) (\<lambda>_. tick_tasks sv True ts))
      else bind_io (merge_step sv t) (\<lambda>_. tick_tasks sv merging ts))"

definition merge_tick :: "merge_services \<Rightarrow> unit mio" where
  "merge_tick sv =
     bind_io (m_ask (mv_settings sv)) (\<lambda>ms.
       if unavailable sv ms \<noteq> None then ret ()
       else
         bind_io (m_read sv open_tasks) (\<lambda>tasks.
           tick_tasks sv (list_ex (\<lambda>t. mt_state t = MMERGING) tasks) tasks))"

section \<open>The operator's cancel and retry\<close>

definition discard_duplicate :: "merge_services \<Rightarrow> merge_task \<Rightarrow> merge_paths \<Rightarrow> unit mio" where
  "discard_duplicate sv t p =
     bind_io (m_ask (mv_cloud sv)) (\<lambda>there.
     bind_io (catch_io (if there then whole_copy sv t p else ret None)
               (\<lambda>_. raise_io (ActionRefused ''merge_discard_failed''))) (\<lambda>whole.
       if whole = None then raise_io (ActionRefused ''merge_task_not_cancellable'')
       else
         bind_io
           (catch_io
             (bind_io (m_call (DeleteCloud [mp_target_dir p]) (\<lambda>n. mv_delete_files sv n [mp_target_dir p])) (\<lambda>_.
                m_list sv (mp_intake_dir p)))
             (\<lambda>e. case e of
                    FileMissing _ \<Rightarrow> ret []
                  | _ \<Rightarrow> raise_io (ActionRefused ''merge_discard_failed''))) (\<lambda>intake.
           if list_ex (\<lambda>e. ce_full_path e = mp_target_dir p) intake
           then raise_io (ActionRefused ''merge_discard_failed'') else ret ())))"

text \<open>What the worker and the upload have left of a task that is being cancelled.\<close>

definition drop_upload :: "merge_services \<Rightarrow> merge_task \<Rightarrow> merge_paths \<Rightarrow> unit mio" where
  "drop_upload sv t p =
     bind_io (m_ask (mv_cloud sv)) (\<lambda>there.
       if there \<and> (case mt_merged_sha1 t of None \<Rightarrow> False | Some h \<Rightarrow> h \<noteq> []) then
         bind_io
           (suppress_all
             (bind_io (copy_task sv p) (\<lambda>copy.
                case copy of
                  None \<Rightarrow> ret ()
                | Some c \<Rightarrow>
                    (if cp_status c = COPY_COMPLETED then ret ()
                     else m_order (CancelCopy (cp_source_path c) (mp_staging_dir p))
                            (\<lambda>n. mv_cancel_copy sv n (cp_source_path c) (mp_staging_dir p)))))) (\<lambda>_.
           suppress_all (bind_io (m_call (DeleteCloud [mp_staging_dir p])
                                   (\<lambda>n. mv_delete_files sv n [mp_staging_dir p])) (\<lambda>_. ret ())))
       else ret ())"

text \<open>The rest of \<^verbatim>\<open>cancel\<close>, once the task may go: everything of it is dropped.\<close>

definition drop_task :: "merge_services \<Rightarrow> merge_task \<Rightarrow> merge_paths \<Rightarrow> merge_task mio" where
  "drop_task sv t p =
     bind_io (if mv_kube sv then delete_named_job sv t else ret ()) (\<lambda>_.
     bind_io (drop_upload sv t p) (\<lambda>_.
     bind_io (m_unlink sv (mp_output p)) (\<lambda>_.
     bind_io (m_unlink sv (partial_path (mp_output p))) (\<lambda>_.
     bind_io (m_unlink sv (mp_status p)) (\<lambda>_.
     bind_io (m_act (Rmtree (remux_dir (mp_output p))) (\<lambda>_. ())) (\<lambda>_.
     bind_io (m_now sv) (\<lambda>finished.
     bind_io (m_transition sv (mt_id t) (mt_state t) MCANCELLED
               [FFinished_At (Some finished), FNotice None]) (\<lambda>cancelled.
       case cancelled of
         None \<Rightarrow> raise_io (ActionRefused ''merge_task_changed'')
       | Some t' \<Rightarrow> ret t'))))))))"

definition cancel_task :: "merge_services \<Rightarrow> merge_task \<Rightarrow> merge_task mio" where
  "cancel_task sv t =
     (if mt_state t \<notin> CANCELLABLE_STATES then raise_io (ActionRefused ''merge_task_not_cancellable'')
      else if mt_state t = MFAILED \<and> mt_failed_state t = Some MREPLACING
        then raise_io (ActionRefused ''merge_task_not_cancellable'')
      else
        bind_io (m_ask (mv_settings sv)) (\<lambda>ms.
        bind_io (m_value (merge_paths t ms)) (\<lambda>p.
        bind_io (if mt_state t = MFAILED \<and> mt_failed_state t = Some MARCHIVING
                 then discard_duplicate sv t p else ret ()) (\<lambda>_.
          drop_task sv t p))))"

definition cancel_merge :: "merge_services \<Rightarrow> nat \<Rightarrow> merge_task mio" where
  "cancel_merge sv k =
     bind_io (m_read sv (\<lambda>tbl. get_task tbl k)) (\<lambda>found.
       case found of
         None \<Rightarrow> raise_io (ActionRefused ''merge_task_not_found'')
       | Some t \<Rightarrow> cancel_task sv t)"

fun resume_state :: "merge_state option \<Rightarrow> merge_state" where
  "resume_state (Some MUPLOADING) = MUPLOADING"
| "resume_state (Some MVERIFYING) = MUPLOADING"
| "resume_state (Some MREPLACING) = MREPLACING"
| "resume_state (Some MARCHIVING) = MARCHIVING"
| "resume_state _ = MQUEUED"

definition retry_task :: "merge_services \<Rightarrow> merge_task \<Rightarrow> merge_task mio" where
  "retry_task sv t =
     (if mt_state t \<noteq> MFAILED then raise_io (ActionRefused ''merge_task_not_failed'')
      else
        let resume = resume_state (mt_failed_state t)
        in bind_io (if resume = MQUEUED \<and> mv_kube sv then delete_named_job sv t else ret ()) (\<lambda>_.
           bind_io (m_transition sv (mt_id t) MFAILED resume
             ([FFailed_State None, FError None, FNotice None]
              @ (if resume = MQUEUED then [FJob_Name None, FPhase None, FProgress None] else [])
              @ (if resume = MUPLOADING then [FUpload_Attempts 0] else []))) (\<lambda>retried.
           case retried of
             None \<Rightarrow> raise_io (ActionRefused ''merge_task_changed'')
           | Some t' \<Rightarrow> bind_io (m_act Wake (\<lambda>_. ())) (\<lambda>_. ret t'))))"

definition retry_merge :: "merge_services \<Rightarrow> nat \<Rightarrow> merge_task mio" where
  "retry_merge sv k =
     bind_io (m_read sv (\<lambda>tbl. get_task tbl k)) (\<lambda>found.
       case found of
         None \<Rightarrow> raise_io (ActionRefused ''merge_task_not_found'')
       | Some t \<Rightarrow> retry_task sv t)"

end
