(* ===== verification/Merge_Laws.thy ===== *)
theory Merge_Laws
  imports Merge_Service
begin

text \<open>
  The writes of the merge service as steps of the table, what every reachable table satisfies,
  and that each coroutine of the service makes only such steps. The other requests of the
  process write to the table between two awaits by queueing tasks (\<^verbatim>\<open>create\<close>); a tick, a
  cancel and a retry exclude one another by the tick lock.
\<close>

section \<open>Steps of the table\<close>

text \<open>A field that any write may set: not the record of a failure, and bounded attempts.\<close>

fun plain :: "merge_field \<Rightarrow> bool" where
  "plain (FFailed_State _) = False"
| "plain (FUpload_Attempts n) = (n \<le> MAX_UPLOAD_ATTEMPTS)"
| "plain _ = True"

definition ACTIVE_MERGE_STATES :: "merge_state set" where
  "ACTIVE_MERGE_STATES = {MQUEUED, MMERGING, MUPLOADING, MVERIFYING, MREPLACING, MARCHIVING}"

text \<open>
  The path of the header of \<^verbatim>\<open>merge/service.py\<close>, with the way back of a lost file. A step is
  indexed by the tasks that may start merging or begin the swap in it.
\<close>

fun merge_edge :: "merge_state \<Rightarrow> merge_state \<Rightarrow> bool" where
  "merge_edge MQUEUED MMERGING = True"
| "merge_edge MMERGING MUPLOADING = True"
| "merge_edge MUPLOADING MVERIFYING = True"
| "merge_edge MUPLOADING MQUEUED = True"
| "merge_edge MVERIFYING MREPLACING = True"
| "merge_edge MREPLACING MARCHIVING = True"
| "merge_edge MARCHIVING MDONE = True"
| "merge_edge _ _ = False"

lemma merge_edge_iff:
  "merge_edge e s \<longleftrightarrow> (e, s) \<in> {(MQUEUED, MMERGING), (MMERGING, MUPLOADING), (MUPLOADING, MVERIFYING),
     (MUPLOADING, MQUEUED), (MVERIFYING, MREPLACING), (MREPLACING, MARCHIVING), (MARCHIVING, MDONE)}"
  by (cases e; cases s) simp_all

definition guarded :: "(nat \<times> merge_state) set \<Rightarrow> nat \<Rightarrow> merge_state \<Rightarrow> bool" where
  "guarded J k s \<longleftrightarrow> (s \<in> {MMERGING, MREPLACING} \<longrightarrow> (k, s) \<in> J)"

lemma guarded_simps [simp]:
  "guarded J k MMERGING = ((k, MMERGING) \<in> J)" "guarded J k MREPLACING = ((k, MREPLACING) \<in> J)"
  "s \<notin> {MMERGING, MREPLACING} \<Longrightarrow> guarded J k s" "guarded UNIV k s"
  by (auto simp: guarded_def)

inductive table_step :: "(nat \<times> merge_state) set \<Rightarrow> merge_table \<Rightarrow> merge_table \<Rightarrow> bool" for J :: "(nat \<times> merge_state) set" where
  create: "table_step J tbl (snd (create_task tbl avid source d b parts n now))"
| touch: "list_all plain fs \<Longrightarrow> table_step J tbl (snd (update_task tbl k fs now))"
| move: "merge_edge e s \<Longrightarrow> guarded J k s \<Longrightarrow> list_all plain fs \<Longrightarrow> table_step J tbl (snd (transition_task tbl k e s fs now))"
| fail: "e \<in> ACTIVE_MERGE_STATES \<Longrightarrow> list_all plain fs
    \<Longrightarrow> table_step J tbl (snd (transition_task tbl k e MFAILED (FFailed_State (Some e) # fs) now))"
| retry: "(\<And>t. get_task tbl k = Some t \<Longrightarrow> mt_state t = MFAILED \<Longrightarrow> s = resume_state (mt_failed_state t))
    \<Longrightarrow> guarded J k s \<Longrightarrow> list_all plain fs
    \<Longrightarrow> table_step J tbl (snd (transition_task tbl k MFAILED s (FFailed_State None # fs) now))"
| cancel: "e \<in> CANCELLABLE_STATES
    \<Longrightarrow> (\<And>t. get_task tbl k = Some t \<Longrightarrow> mt_state t = MFAILED \<Longrightarrow> mt_failed_state t \<noteq> Some MREPLACING)
    \<Longrightarrow> list_all plain fs
    \<Longrightarrow> table_step J tbl (snd (transition_task tbl k e MCANCELLED fs now))"

inductive merge_reachable :: "merge_table \<Rightarrow> bool" where
  empty: "merge_reachable \<lparr>mr_rows = [], mr_next = n\<rparr>"
| step: "merge_reachable tbl \<Longrightarrow> table_step J tbl tbl' \<Longrightarrow> merge_reachable tbl'"

lemma guarded_mono: "guarded J k s \<Longrightarrow> J \<subseteq> K \<Longrightarrow> guarded K k s"
  by (auto simp: guarded_def)

lemma table_step_mono: "table_step J tbl tbl' \<Longrightarrow> J \<subseteq> K \<Longrightarrow> table_step K tbl tbl'"
  by (induction rule: table_step.induct) (blast intro: table_step.intros guarded_mono)+

lemma table_steps_mono:
  assumes "(table_step J)\<^sup>*\<^sup>* tbl tbl'" and "J \<subseteq> K"
  shows "(table_step K)\<^sup>*\<^sup>* tbl tbl'"
  using assms by (induction rule: rtranclp_induct) (auto intro: table_step_mono rtranclp.rtrancl_into_rtrancl)

section \<open>The same steps on one row\<close>

inductive row_step :: "merge_task \<Rightarrow> merge_task \<Rightarrow> bool" where
  touched: "mt_state r' = mt_state r \<Longrightarrow> mt_failed_state r' = mt_failed_state r \<Longrightarrow> row_step r r'"
| moved: "merge_edge (mt_state r) (mt_state r') \<Longrightarrow> mt_failed_state r' = mt_failed_state r \<Longrightarrow> row_step r r'"
| failed: "mt_state r \<in> ACTIVE_MERGE_STATES \<Longrightarrow> mt_state r' = MFAILED
    \<Longrightarrow> mt_failed_state r' = Some (mt_state r) \<Longrightarrow> row_step r r'"
| retried: "mt_state r = MFAILED \<Longrightarrow> mt_state r' = resume_state (mt_failed_state r)
    \<Longrightarrow> mt_failed_state r' = None \<Longrightarrow> row_step r r'"
| cancelled: "mt_state r \<in> CANCELLABLE_STATES
    \<Longrightarrow> mt_state r = MFAILED \<longrightarrow> mt_failed_state r \<noteq> Some MREPLACING
    \<Longrightarrow> mt_state r' = MCANCELLED \<Longrightarrow> mt_failed_state r' = mt_failed_state r \<Longrightarrow> row_step r r'"

lemma plain_fold:
  assumes "list_all plain fs"
  shows "mt_failed_state (fold set_field fs t) = mt_failed_state t"
    and "mt_upload_attempts (fold set_field fs t) \<le> max (mt_upload_attempts t) MAX_UPLOAD_ATTEMPTS"
proof -
  have "mt_failed_state (fold set_field fs t) = mt_failed_state t
      \<and> mt_upload_attempts (fold set_field fs t) \<le> max (mt_upload_attempts t) MAX_UPLOAD_ATTEMPTS"
    using assms
  proof (induction fs arbitrary: t)
    case (Cons f fs)
    then have "mt_failed_state (fold set_field fs (set_field f t)) = mt_failed_state (set_field f t)
      \<and> mt_upload_attempts (fold set_field fs (set_field f t))
          \<le> max (mt_upload_attempts (set_field f t)) MAX_UPLOAD_ATTEMPTS" by simp
    moreover have "mt_failed_state (set_field f t) = mt_failed_state t
      \<and> mt_upload_attempts (set_field f t) \<le> max (mt_upload_attempts t) MAX_UPLOAD_ATTEMPTS"
      using Cons.prems by (cases f) auto
    ultimately show ?case by simp linarith
  qed simp
  then show "mt_failed_state (fold set_field fs t) = mt_failed_state t"
    and "mt_upload_attempts (fold set_field fs t) \<le> max (mt_upload_attempts t) MAX_UPLOAD_ATTEMPTS" by auto
qed

lemma plain_written:
  assumes "list_all plain fs"
  shows "mt_failed_state (written s fs now t) = mt_failed_state t"
    and "mt_failed_state (written s (FFailed_State v # fs) now t) = v"
    and "mt_upload_attempts (written s fs now t) \<le> max (mt_upload_attempts t) MAX_UPLOAD_ATTEMPTS"
    and "mt_upload_attempts (written s (FFailed_State v # fs) now t) \<le> max (mt_upload_attempts t) MAX_UPLOAD_ATTEMPTS"
  using plain_fold [OF assms, of "t\<lparr>mt_updated_at := now\<rparr>"]
    plain_fold [OF assms, of "t\<lparr>mt_updated_at := now, mt_state := the s, mt_state_changed_at := now\<rparr>"]
    plain_fold [OF assms, of "t\<lparr>mt_updated_at := now, mt_failed_state := v\<rparr>"]
    plain_fold [OF assms, of "t\<lparr>mt_updated_at := now, mt_state := the s, mt_state_changed_at := now,
                                 mt_failed_state := v\<rparr>"]
  by (cases s; simp add: written_def)+

text \<open>A step of the table moves a stored row by a step of the row, and no row leaves.\<close>

definition same_title :: "merge_task \<Rightarrow> merge_task \<Rightarrow> bool" where
  "same_title r r' \<longleftrightarrow> mt_id r' = mt_id r \<and> mt_avid r' = mt_avid r \<and> mt_parts r' = mt_parts r
     \<and> mt_merged_name r' = mt_merged_name r
     \<and> mt_upload_attempts r' \<le> max (mt_upload_attempts r) MAX_UPLOAD_ATTEMPTS"

lemma same_title_refl [simp]: "same_title r r"
  by (simp add: same_title_def)

lemma same_title_written:
  "list_all plain fs \<Longrightarrow> same_title r (written s fs now r)"
  "list_all plain fs \<Longrightarrow> same_title r (written s (FFailed_State v # fs) now r)"
  by (simp_all add: same_title_def plain_written)

lemma write_row:
  assumes "get_task tbl k = Some r"
    and "mt_id r = j \<Longrightarrow> (case e of None \<Rightarrow> True | Some e \<Rightarrow> mt_state r = e)
         \<Longrightarrow> same_title r (written s fs now r) \<and> row_step r (written s fs now r)"
  shows "\<exists>r'. get_task (snd (write_task tbl j e s fs now)) k = Some r' \<and> same_title r r' \<and> row_step r r'"
  using assms by (auto simp: get_task_write intro: row_step.touched)

lemma table_step_row:
  assumes "table_step J tbl tbl'" and r: "get_task tbl k = Some r"
  shows "\<exists>r'. get_task tbl' k = Some r' \<and> same_title r r' \<and> row_step r r'"
  using assms(1)
proof (cases rule: table_step.cases)
  case (create avid source d b parts n now)
  then show ?thesis
    using r by (auto simp: create_task_def Let_def get_task_def row_of_append intro: row_step.touched)
next
  case (touch fs j now)
  show ?thesis unfolding touch update_task_def
    by (rule write_row [OF r]) (simp add: same_title_written plain_written row_step.touched touch)
next
  case (move e s fs j now)
  show ?thesis unfolding move transition_task_def
    by (rule write_row [OF r]) (use move in \<open>auto intro: row_step.moved simp: same_title_written plain_written\<close>)
next
  case (fail e fs j now)
  show ?thesis unfolding fail transition_task_def
    by (rule write_row [OF r]) (use fail in \<open>auto intro: row_step.failed simp: same_title_written plain_written\<close>)
next
  case (retry j s fs now)
  show ?thesis unfolding retry(1) transition_task_def
    by (rule write_row [OF r])
       (use retry r get_task_id [OF r] in \<open>auto intro: row_step.retried simp: same_title_written plain_written\<close>)
next
  case (cancel e j fs now)
  show ?thesis unfolding cancel(1) transition_task_def
    by (rule write_row [OF r])
       (use cancel r get_task_id [OF r] in \<open>auto intro: row_step.cancelled simp: same_title_written plain_written\<close>)
qed

lemma table_step_ok [inv_intros]: "table_step J tbl tbl' \<Longrightarrow> merge_ok tbl \<Longrightarrow> merge_ok tbl'"
  by (erule table_step.cases)
     (auto intro!: inv_intros simp: FINISHED_STATES_def ACTIVE_MERGE_STATES_def CANCELLABLE_STATES_def
       merge_edge_iff)

section \<open>Every reachable table\<close>

lemma row_step_attempts_failed:
  assumes "row_step r r'" and "same_title r r'"
    and "mt_upload_attempts r \<le> MAX_UPLOAD_ATTEMPTS"
    and "mt_state r = MFAILED \<longrightarrow> mt_failed_state r \<in> Some ` ACTIVE_MERGE_STATES"
  shows "mt_upload_attempts r' \<le> MAX_UPLOAD_ATTEMPTS
    \<and> (mt_state r' = MFAILED \<longrightarrow> mt_failed_state r' \<in> Some ` ACTIVE_MERGE_STATES)"
  using assms
  by (cases rule: row_step.cases; cases "mt_failed_state r" rule: resume_state.cases)
     (auto simp: same_title_def merge_edge_iff)

definition row_fine :: "merge_task \<Rightarrow> bool" where
  "row_fine r \<longleftrightarrow> mt_upload_attempts r \<le> MAX_UPLOAD_ATTEMPTS
     \<and> (mt_state r = MFAILED \<longrightarrow> mt_failed_state r \<in> Some ` ACTIVE_MERGE_STATES)"

text \<open>A row after a step is a stored row moved on, or a fresh one.\<close>

lemma create_back:
  "get_task (snd (create_task tbl avid source d b parts n now)) k = Some r' \<Longrightarrow>
     get_task tbl k = Some r' \<or> (get_task tbl k = None \<and> mt_state r' = MQUEUED \<and> mt_upload_attempts r' = 0)"
  by (auto simp: create_task_def Let_def get_task_def row_of_append row_of_Cons split: if_splits option.splits)

lemma table_step_back:
  assumes "table_step J tbl tbl'" and "get_task tbl' k = Some r'"
  shows "(\<exists>r. get_task tbl k = Some r \<and> same_title r r' \<and> row_step r r')
    \<or> (get_task tbl k = None \<and> mt_state r' = MQUEUED \<and> mt_upload_attempts r' = 0)"
proof (cases "get_task tbl k")
  case None
  from assms(1) show ?thesis
  proof (cases rule: table_step.cases)
    case (create avid source d b parts n now)
    with assms(2) have "get_task (snd (create_task tbl avid source d b parts n now)) k = Some r'" by simp
    from create_back [OF this] None show ?thesis by simp
  qed (use assms(2) None in \<open>simp_all add: update_task_def transition_task_def get_task_write\<close>)
next
  case (Some r)
  with table_step_row [OF assms(1) Some] assms(2) show ?thesis by auto
qed

lemma merge_reachable_ok: "merge_reachable tbl \<Longrightarrow> merge_ok tbl"
  by (induction rule: merge_reachable.induct)
     (simp add: merge_ok_def unique_key_def one_open_per_avid_def, rule table_step_ok)

lemma merge_reachable_fine: "merge_reachable tbl \<Longrightarrow> get_task tbl k = Some r \<Longrightarrow> row_fine r"
proof (induction arbitrary: r rule: merge_reachable.induct)
  case (empty n)
  then show ?case by (simp add: get_task_def)
next
  case (step tbl tbl')
  from table_step_back [OF step.hyps(2) step.prems] show ?case
  proof
    assume "\<exists>r0. get_task tbl k = Some r0 \<and> same_title r0 r \<and> row_step r0 r"
    then obtain r0 where "get_task tbl k = Some r0" "same_title r0 r" "row_step r0 r" by blast
    then show ?thesis
      using step.IH [of r0] row_step_attempts_failed [of r0 r] by (simp add: row_fine_def)
  qed (simp add: row_fine_def)
qed

lemma merge_reachable_steps: "(table_step J)\<^sup>*\<^sup>* tbl tbl' \<Longrightarrow> merge_reachable tbl \<Longrightarrow> merge_reachable tbl'"
  by (induction rule: rtranclp_induct) (auto intro: merge_reachable.step)

section \<open>The abstract course of a merge\<close>

text \<open>
  What a task stands for, whatever its state is called: the parts are all there; the swap has
  begun, so that some may be gone and the merged file is what counts; the title was filed; the
  task was dropped.
\<close>

datatype merge_phase = Parts_Kept | Swapping | Filed | Dropped

fun phase_of_state :: "merge_state \<Rightarrow> merge_phase" where
  "phase_of_state MREPLACING = Swapping"
| "phase_of_state MARCHIVING = Swapping"
| "phase_of_state MDONE = Filed"
| "phase_of_state MCANCELLED = Dropped"
| "phase_of_state _ = Parts_Kept"

definition merge_phase :: "merge_task \<Rightarrow> merge_phase" where
  "merge_phase t =
     (if mt_state t = MFAILED
      then (case mt_failed_state t of None \<Rightarrow> Parts_Kept | Some s \<Rightarrow> phase_of_state s)
      else phase_of_state (mt_state t))"

inductive phase_step :: "merge_phase \<Rightarrow> merge_phase \<Rightarrow> bool" where
  stay: "phase_step p p"
| swap: "phase_step Parts_Kept Swapping"
| filed: "phase_step Swapping Filed"
| dropped: "phase_step Parts_Kept Dropped"
| duplicate: "phase_step Swapping Dropped"

inductive_simps phase_step_simps [simp]:
  "phase_step Filed p" "phase_step Dropped p" "phase_step Swapping p"

lemma row_step_phase:
  assumes "row_step r r'" and "row_fine r"
  shows "phase_step (merge_phase r) (merge_phase r')"
    and "merge_phase r = Parts_Kept \<Longrightarrow> merge_phase r' = Swapping \<Longrightarrow> mt_state r = MVERIFYING \<and> mt_state r' = MREPLACING"
    and "merge_phase r = Swapping \<Longrightarrow> merge_phase r' = Dropped
      \<Longrightarrow> mt_state r = MFAILED \<and> mt_failed_state r = Some MARCHIVING"
proof -
  have "phase_step (merge_phase r) (merge_phase r')
    \<and> (merge_phase r = Parts_Kept \<and> merge_phase r' = Swapping \<longrightarrow> mt_state r = MVERIFYING \<and> mt_state r' = MREPLACING)
    \<and> (merge_phase r = Swapping \<and> merge_phase r' = Dropped
         \<longrightarrow> mt_state r = MFAILED \<and> mt_failed_state r = Some MARCHIVING)"
    using assms(1)
  proof (cases rule: row_step.cases)
    case touched
    then have "merge_phase r' = merge_phase r" by (simp add: merge_phase_def)
    then show ?thesis by (auto intro: phase_step.stay)
  next
    case moved
    then show ?thesis by (auto simp: merge_phase_def merge_edge_iff intro: phase_step.intros)
  next
    case failed
    then show ?thesis
      by (auto simp: merge_phase_def ACTIVE_MERGE_STATES_def intro: phase_step.intros)
  next
    case retried
    then show ?thesis using assms(2)
      by (auto simp: merge_phase_def row_fine_def ACTIVE_MERGE_STATES_def intro: phase_step.intros)
  next
    case cancelled
    then show ?thesis using assms(2)
      by (auto simp: merge_phase_def row_fine_def ACTIVE_MERGE_STATES_def CANCELLABLE_STATES_def
          intro: phase_step.intros)
  qed
  then show "phase_step (merge_phase r) (merge_phase r')"
    and "merge_phase r = Parts_Kept \<Longrightarrow> merge_phase r' = Swapping \<Longrightarrow> mt_state r = MVERIFYING \<and> mt_state r' = MREPLACING"
    and "merge_phase r = Swapping \<Longrightarrow> merge_phase r' = Dropped
      \<Longrightarrow> mt_state r = MFAILED \<and> mt_failed_state r = Some MARCHIVING" by blast+
qed

lemma phase_step_kept: "phase_step p Parts_Kept \<Longrightarrow> p = Parts_Kept"
  by (auto elim: phase_step.cases)

lemma swapping_forever:
  "phase_step\<^sup>*\<^sup>* p q \<Longrightarrow> p \<noteq> Parts_Kept \<Longrightarrow> q \<noteq> Parts_Kept"
  by (induction rule: rtranclp_induct) (auto dest: phase_step_kept)

lemma steps_phase:
  assumes "(table_step J)\<^sup>*\<^sup>* tbl tbl'" and "merge_reachable tbl" and "get_task tbl k = Some r"
  shows "\<exists>r'. get_task tbl' k = Some r' \<and> phase_step\<^sup>*\<^sup>* (merge_phase r) (merge_phase r')
    \<and> mt_avid r' = mt_avid r \<and> mt_parts r' = mt_parts r"
  using assms
proof (induction rule: rtranclp_induct)
  case base
  then show ?case by auto
next
  case (step t1 t2)
  then obtain r1 where r1: "get_task t1 k = Some r1" "phase_step\<^sup>*\<^sup>* (merge_phase r) (merge_phase r1)"
    "mt_avid r1 = mt_avid r" "mt_parts r1 = mt_parts r" by blast
  have "merge_reachable t1" using step.hyps(1) step.prems(1) by (rule merge_reachable_steps)
  then have "row_fine r1" using r1(1) by (rule merge_reachable_fine)
  moreover obtain r2 where r2: "get_task t2 k = Some r2" "same_title r1 r2" "row_step r1 r2"
    using table_step_row [OF step.hyps(2) r1(1)] by blast
  ultimately have "phase_step (merge_phase r1) (merge_phase r2)" by (simp add: row_step_phase(1))
  with r1 r2 show ?case by (auto simp: same_title_def intro: rtranclp.rtrancl_into_rtrancl)
qed

end
