(* ===== verification/Merge_Runs.thy ===== *)
theory Merge_Runs
  imports Merge_Laws
begin

text \<open>
  That the coroutines of the merge service make only the steps of the table: a tick through
  every handler, a retry, a cancel; that at most one task is merging; and the instance the
  examples run in.
\<close>

section \<open>The other requests\<close>

inductive create_step :: "merge_table \<Rightarrow> merge_table \<Rightarrow> bool" where
  "create_step tbl (snd (create_task tbl avid source d b parts n now))"

definition alone :: "merge_services \<Rightarrow> bool" where
  "alone sv \<longleftrightarrow> (\<forall>n tbl. create_step\<^sup>*\<^sup>* tbl (mv_others sv n tbl))"

lemma create_step_table: "create_step tbl tbl' \<Longrightarrow> table_step J tbl tbl'"
  by (erule create_step.cases) (simp add: table_step.create)

lemma create_steps_table: "create_step\<^sup>*\<^sup>* tbl tbl' \<Longrightarrow> (table_step J)\<^sup>*\<^sup>* tbl tbl'"
  by (induction rule: rtranclp_induct) (auto dest: create_step_table intro: rtranclp.rtrancl_into_rtrancl)

lemma create_step_get: "create_step tbl tbl' \<Longrightarrow> get_task tbl k = Some t \<Longrightarrow> get_task tbl' k = Some t"
  by (erule create_step.cases) (auto simp: create_task_def Let_def get_task_def row_of_append)

lemma create_steps_get: "create_step\<^sup>*\<^sup>* tbl tbl' \<Longrightarrow> get_task tbl k = Some t \<Longrightarrow> get_task tbl' k = Some t"
  by (induction rule: rtranclp_induct) (auto dest: create_step_get)

section \<open>Coroutines that write nothing\<close>

definition only_created :: "merge_services \<Rightarrow> mworld \<Rightarrow> mworld \<Rightarrow> bool" where
  "only_created sv w w' \<longleftrightarrow> (alone sv \<longrightarrow> create_step\<^sup>*\<^sup>* (mw_table w) (mw_table w'))"

interpretation mc: io_relation "only_created sv" for sv
  by unfold_locales (auto simp: only_created_def)

lemma mc_ask: "mc.keeps sv (m_ask q)"
  by (simp add: mc.keeps_def only_created_def m_ask_def)

lemma mc_act: "mc.keeps sv (m_act e q)"
  by (simp add: mc.keeps_def only_created_def m_act_def)

lemma mc_read: "mc.keeps sv (m_read sv f)"
  by (simp add: mc.keeps_def only_created_def m_read_def m_db_def alone_def)

lemma mc_value: "mc.keeps sv (m_value r)" "mc.keeps sv (m_done d)"
  unfolding m_value_def m_done_def by (intro mc.keeps_flow)+

lemma mc_query: "mc.keeps sv (m_query q)"
  unfolding m_query_def by (intro mc.keeps_flow mc_ask mc_value)

lemma mc_call: "mc.keeps sv (m_call e q)" "mc.keeps sv (m_order e d)"
  unfolding m_call_def m_order_def by (intro mc.keeps_flow mc_act mc_value)+

lemma mc_suppress: "mc.keeps sv m \<Longrightarrow> mc.keeps sv (suppress_kube m)" "mc.keeps sv m \<Longrightarrow> mc.keeps sv (suppress_all m)"
  unfolding suppress_kube_def suppress_all_def
  by (intro mc.keeps_flow | assumption | simp add: mc.keeps_ret mc.keeps_raise split: merge_exn.split)+

lemmas mc_basic = mc.keeps_flow mc_ask mc_act mc_read mc_value mc_query mc_call mc_suppress

lemma mc_list: "mc.keeps sv (m_list sv d)" "mc.keeps sv (m_list_or_none sv d)" "mc.keeps sv (m_stat sv p)"
  unfolding m_stat_def m_list_or_none_def m_list_def
  by (intro mc_basic | simp add: mc.keeps_ret mc.keeps_raise split: merge_exn.split)+

lemma mc_now: "mc.keeps sv (m_now sv)" "mc.keeps sv (require_cloud sv)" "mc.keeps sv (require_kube sv)"
  "mc.keeps sv (m_unlink sv p)"
  unfolding m_now_def require_cloud_def require_kube_def m_unlink_def by (intro mc_basic)+

lemma mc_whole: "mc.keeps sv (whole_copy sv t p)" "mc.keeps sv (refuse_whole_copy sv t p)"
  unfolding refuse_whole_copy_def whole_copy_def by (intro mc_basic mc_list mc_now)+

lemma mc_copy: "mc.keeps sv (copy_task sv p)" "mc.keeps sv (read_status sv p)" "mc.keeps sv (delete_named_job sv t)"
  unfolding copy_task_def read_status_def delete_named_job_def by (intro mc_basic)+

lemma mc_drop: "mc.keeps sv (drop_upload sv t p)"
  unfolding drop_upload_def by (intro mc_basic mc_copy)

lemma mc_discard: "mc.keeps sv (discard_duplicate sv t p)"
  unfolding discard_duplicate_def
  by (intro mc_basic mc_whole mc_list | simp add: mc.keeps_ret mc.keeps_raise split: merge_exn.split)+

lemma mc_listed: "mc.keeps sv (listed_files sv ds)"
  by (induction ds) (simp_all add: mc.keeps_ret mc.keeps_bind mc_list)

lemma mc_present: "mc.keeps sv (present sv files)"
  unfolding present_def by (intro mc_basic mc_listed)

lemmas mc_calls = mc_basic mc_list mc_now mc_whole mc_copy mc_drop mc_discard mc_present

section \<open>Coroutines that write\<close>

definition table_moves :: "(nat \<times> merge_state) set \<Rightarrow> merge_services \<Rightarrow> mworld \<Rightarrow> mworld \<Rightarrow> bool" where
  "table_moves J sv w w' \<longleftrightarrow> (alone sv \<longrightarrow> (table_step J)\<^sup>*\<^sup>* (mw_table w) (mw_table w'))"

interpretation mm: io_relation "table_moves J sv" for J sv
  by unfold_locales (auto simp: table_moves_def)

lemma mm_mc: "mc.keeps sv m \<Longrightarrow> mm.keeps J sv m"
  by (auto simp: mc.keeps_def mm.keeps_def only_created_def table_moves_def intro: create_steps_table)

lemmas mm_calls = mm.keeps_flow mc_calls [THEN mm_mc]

lemma mm_db:
  assumes "\<And>tbl. table_step J tbl (snd (f tbl))"
  shows "mm.keeps J sv (m_db sv f)"
proof -
  have "(table_step J)\<^sup>*\<^sup>* tbl (snd (f (mv_others sv n tbl)))" if "alone sv" for n tbl
    using that assms [of "mv_others sv n tbl"] unfolding alone_def
    by (meson create_steps_table rtranclp.rtrancl_into_rtrancl)
  then show ?thesis
    by (auto simp: mm.keeps_def table_moves_def m_db_def split: prod.splits) (metis snd_conv)
qed

lemma mm_update: "list_all plain fs \<Longrightarrow> mm.keeps J sv (m_update sv k fs)"
  unfolding m_update_def by (intro mm_calls mm_db table_step.touch)

lemma mm_move: "merge_edge e s \<Longrightarrow> guarded J k s \<Longrightarrow> list_all plain fs \<Longrightarrow> mm.keeps J sv (m_move sv k e s fs)"
  unfolding m_move_def m_transition_def by (intro mm_calls mm_db table_step.move)

lemma mm_transition: "merge_edge e s \<Longrightarrow> guarded J k s \<Longrightarrow> list_all plain fs \<Longrightarrow> mm.keeps J sv (m_transition sv k e s fs)"
  unfolding m_transition_def by (intro mm_calls mm_db table_step.move)

lemma mm_fail:
  "e \<in> ACTIVE_MERGE_STATES \<Longrightarrow> list_all plain fs
     \<Longrightarrow> mm.keeps J sv (m_move sv k e MFAILED (FFailed_State (Some e) # fs))"
  unfolding m_move_def m_transition_def by (intro mm_calls mm_db table_step.fail)

lemmas mm_writes = mm_update mm_move mm_transition

lemma mm_start: "(mt_id t, MMERGING) \<in> J \<Longrightarrow> mm.keeps J sv (start_merge sv t p)"
  unfolding start_merge_def by (intro mm_calls mm_writes) simp_all

lemma mm_job: "mm.keeps J sv a \<Longrightarrow> mm.keeps J sv b \<Longrightarrow> mm.keeps J sv c
    \<Longrightarrow> mm.keeps J sv (case j of JOB_SUCCEEDED \<Rightarrow> a | JOB_FAILED \<Rightarrow> b | JOB_RUNNING \<Rightarrow> c)"
  by (cases j) simp_all

lemma mm_exn:
  assumes "\<And>x. mm.keeps J sv (f1 x)" "\<And>x. mm.keeps J sv (f2 x)" "\<And>x. mm.keeps J sv (f3 x)"
    "\<And>x. mm.keeps J sv (f4 x)" "\<And>x y. mm.keeps J sv (f5 x y)"
  shows "mm.keeps J sv (case e of MergeFailed x \<Rightarrow> f1 x | ActionRefused x \<Rightarrow> f2 x | KubeErr x \<Rightarrow> f3 x
     | FileMissing x \<Rightarrow> f4 x | OtherExn x y \<Rightarrow> f5 x y)"
  using assms by (cases e) simp_all

lemma mm_job_failed: "mm.keeps J sv (merge_job_failed sv t p j)"
  unfolding merge_job_failed_def by (intro mm_calls mm_exn)

lemma mm_reported: "mm.keeps J sv (merge_reported_done sv t p s)"
  unfolding merge_reported_done_def by (intro mm_calls mm_writes) simp_all

lemma mm_watch_merge: "mm.keeps J sv (watch_merge sv t p)"
  unfolding watch_merge_def by (intro mm_calls mm_writes mm_job mm_job_failed mm_reported) simp_all

lemma mm_restart:
  "mt_upload_attempts t < MAX_UPLOAD_ATTEMPTS \<Longrightarrow> mm.keeps J sv (restart_upload sv t p src n)"
  unfolding restart_upload_def by (intro mm_calls mm_writes) simp_all

lemma mm_issue: "mm.keeps J sv (issue_copy sv t p)"
  unfolding issue_copy_def by (intro mm_calls mm_writes) simp_all

lemma mm_fatal: "mm.keeps J sv (handled_fatal_upload sv t p src)"
  unfolding handled_fatal_upload_def by (intro mm_calls mm_restart) simp_all

lemma mm_upload_done: "mm.keeps J sv (upload_done sv t)"
  unfolding upload_done_def by (rule mm_move) simp_all

lemma mm_not_listed: "mm.keeps J sv (copy_not_listed sv t p)"
  unfolding copy_not_listed_def by (intro mm_calls mm_issue mm_upload_done)

lemma mm_watch_upload: "mm.keeps J sv (watch_upload sv t p)"
  unfolding watch_upload_def
  by (intro mm_calls mm_writes mm_upload_done mm_not_listed mm_restart mm_fatal) simp_all

lemma mm_verify: "(mt_id t, MREPLACING) \<in> J \<Longrightarrow> mm.keeps J sv (verify sv t p)"
  unfolding verify_def by (intro mm_calls mm_writes) simp_all

lemma mc_delete_quietly:
  "mc.keeps sv (suppress_all (bind_io (m_call (DeleteCloud ps) q) (\<lambda>_. ret ())))"
  by (intro mc_basic)

lemma mm_move_in: "mm.keeps J sv (move_in_merged sv t p)"
  unfolding move_in_merged_def finish_swap_def by (intro mc_delete_quietly [THEN mm_mc] mm_calls mm_writes) simp_all

lemma mm_replace: "mm.keeps J sv (replace sv t p)"
  unfolding replace_def by (intro mm_calls mm_writes mm_move_in) simp_all

lemma mm_watch_archive: "mm.keeps J sv (watch_archive sv t p)"
  unfolding watch_archive_def by (intro mm_calls mm_writes) simp_all

definition may_enter :: "(nat \<times> merge_state) set \<Rightarrow> merge_task \<Rightarrow> bool" where
  "may_enter J t \<longleftrightarrow> (mt_state t = MQUEUED \<longrightarrow> (mt_id t, MMERGING) \<in> J)
     \<and> (mt_state t = MVERIFYING \<longrightarrow> (mt_id t, MREPLACING) \<in> J)"

lemma mm_handler: "s = mt_state t \<Longrightarrow> may_enter J t \<Longrightarrow> mm.keeps J sv (merge_handler s sv t p)"
  by (cases s)
     (simp_all add: mm_start mm_watch_merge mm_watch_upload mm_verify mm_replace mm_watch_archive mm.keeps_raise
       may_enter_def)

lemma mm_step:
  "mt_state t \<in> ACTIVE_MERGE_STATES \<Longrightarrow> may_enter J t \<Longrightarrow> mm.keeps J sv (merge_step sv t)"
  unfolding merge_step_def by (intro mm_calls mm_handler mm_exn mm_update mm_fail) simp_all

lemma mm_tick_tasks:
  "\<forall>t \<in> set ts. mt_state t \<in> ACTIVE_MERGE_STATES \<or> mt_state t = MFAILED
     \<Longrightarrow> \<forall>t \<in> set ts. may_enter J t \<Longrightarrow> mm.keeps J sv (tick_tasks sv m ts)"
  by (induction sv m ts rule: tick_tasks.induct) (auto intro!: mm.keeps_ret mm.keeps_bind mm_step)

lemma open_tasks_active:
  "t \<in> set (open_tasks tbl) \<Longrightarrow> mt_state t \<in> ACTIVE_MERGE_STATES \<or> mt_state t = MFAILED"
  by (cases "mt_state t") (auto simp: open_tasks_def is_open_def FINISHED_STATES_def ACTIVE_MERGE_STATES_def)

lemma m_read_value: "m_read sv f w = (Value a, w') \<Longrightarrow> \<exists>tbl. a = f tbl"
  by (auto simp: m_read_def m_db_def)

lemma mm_tick: "mm.keeps UNIV sv (merge_tick sv)"
proof -
  have "mm.keeps UNIV sv (bind_io (m_read sv open_tasks)
      (\<lambda>tasks. tick_tasks sv (list_ex (\<lambda>t. mt_state t = MMERGING) tasks) tasks))"
    by (rule mm.keeps_bind_yields [where Q = "\<lambda>ts. \<exists>tbl. ts = open_tasks tbl"])
       (auto dest: m_read_value intro!: mm_tick_tasks mc_read [THEN mm_mc] dest: open_tasks_active simp: may_enter_def)
  then show ?thesis
    unfolding merge_tick_def by (intro mm.keeps_bind [OF mc_ask [THEN mm_mc]]) (simp add: mm.keeps_ret)
qed

section \<open>Reading a row first and writing it later\<close>

text \<open>
  A cancel and a retry act on the row they read. Nothing but new rows can come between under the
  tick lock, so what was read still holds at the write: a run that starts where a row is stored
  keeps making steps of the table.
\<close>

definition holding :: "(nat \<times> merge_state) set \<Rightarrow> merge_services \<Rightarrow> merge_task \<Rightarrow> 'a mio \<Rightarrow> bool" where
  "holding J sv t m \<longleftrightarrow>
     (\<forall>w. get_task (mw_table w) (mt_id t) = Some t \<longrightarrow> table_moves J sv w (snd (m w)))"

lemma holding_mm: "mm.keeps J sv m \<Longrightarrow> holding J sv t m"
  by (simp add: holding_def mm.keeps_def)

lemma holding_bind:
  assumes "mc.keeps sv m" and "\<And>a. holding J sv t (f a)"
  shows "holding J sv t (bind_io m f)"
  unfolding holding_def
proof (intro allI impI)
  fix w :: mworld
  assume t: "get_task (mw_table w) (mt_id t) = Some t"
  have mc: "only_created sv w (snd (m w))" using assms(1) by (simp add: mc.keeps_def)
  then have moves: "table_moves J sv w (snd (m w))"
    by (auto simp: only_created_def table_moves_def intro: create_steps_table)
  show "table_moves J sv w (snd (bind_io m f w))"
  proof (cases "m w")
    case (Pair r w')
    show ?thesis
    proof (cases r)
      case (Value a)
      have "table_moves J sv w' (snd (f a w'))"
      proof (cases "alone sv")
        case True
        then have "get_task (mw_table w') (mt_id t) = Some t"
          using mc Pair t create_steps_get by (auto simp: only_created_def)
        then show ?thesis using assms(2) by (simp add: holding_def)
      qed (simp add: table_moves_def)
      then show ?thesis using Pair Value moves by (auto simp: bind_io_def intro: mm.R_trans)
    qed (use Pair moves in \<open>auto simp: bind_io_def\<close>)
  qed
qed

lemma holding_transition:
  assumes "\<And>tbl now. get_task tbl (mt_id t) = Some t
     \<Longrightarrow> table_step J tbl (snd (transition_task tbl (mt_id t) e s fs now))"
    and "\<And>a. mc.keeps sv (f a)"
  shows "holding J sv t (bind_io (m_transition sv (mt_id t) e s fs) f)"
proof -
  have one: "holding J sv t (m_db sv (\<lambda>tbl. transition_task tbl (mt_id t) e s fs now))" for now
    unfolding holding_def table_moves_def
  proof (intro allI impI)
    fix w :: mworld
    assume t: "get_task (mw_table w) (mt_id t) = Some t" and "alone sv"
    let ?tbl = "mv_others sv (mw_tick w) (mw_table w)"
    have others: "create_step\<^sup>*\<^sup>* (mw_table w) ?tbl" using \<open>alone sv\<close> by (simp add: alone_def)
    then have "get_task ?tbl (mt_id t) = Some t" using t by (rule create_steps_get)
    then have "table_step J ?tbl (snd (transition_task ?tbl (mt_id t) e s fs now))" by (rule assms(1))
    with others show "(table_step J)\<^sup>*\<^sup>* (mw_table w)
        (mw_table (snd (m_db sv (\<lambda>tbl. transition_task tbl (mt_id t) e s fs now) w)))"
      by (auto simp: m_db_def split: prod.splits dest!: create_steps_table intro: rtranclp.rtrancl_into_rtrancl)
  qed
  have all: "holding J sv t (m_transition sv (mt_id t) e s fs)"
    unfolding m_transition_def by (rule holding_bind) (simp_all add: mc_now one)
  show ?thesis
    unfolding holding_def
  proof (intro allI impI)
    fix w :: mworld
    assume "get_task (mw_table w) (mt_id t) = Some t"
    then have "table_moves J sv w (snd (m_transition sv (mt_id t) e s fs w))" using all by (simp add: holding_def)
    moreover have "mm.keeps J sv (f a)" for a using assms(2) by (rule mm_mc)
    ultimately show "table_moves J sv w (snd (bind_io (m_transition sv (mt_id t) e s fs) f w))"
      by (cases "m_transition sv (mt_id t) e s fs w"; cases "fst (m_transition sv (mt_id t) e s fs w)")
         (auto simp: bind_io_def mm.keeps_def intro: mm.R_trans)
  qed
qed

lemma holding_found:
  assumes "\<And>t. mt_id t = k \<Longrightarrow> holding J sv t (f (Some t))" and "mm.keeps J sv (f None)"
  shows "mm.keeps J sv (bind_io (m_read sv (\<lambda>tbl. get_task tbl k)) f)"
  unfolding mm.keeps_def
proof
  fix w :: mworld
  let ?tbl = "mv_others sv (mw_tick w) (mw_table w)"
  let ?w = "w\<lparr>mw_table := ?tbl, mw_tick := Suc (mw_tick w)\<rparr>"
  have run: "bind_io (m_read sv (\<lambda>tbl. get_task tbl k)) f w = f (get_task ?tbl k) ?w"
    by (simp add: bind_io_def m_read_def m_db_def)
  have "table_moves J sv w ?w" by (simp add: table_moves_def alone_def create_steps_table)
  moreover have "table_moves J sv ?w (snd (f (get_task ?tbl k) ?w))"
  proof (cases "get_task ?tbl k")
    case None
    then show ?thesis using assms(2) by (simp add: mm.keeps_def)
  next
    case (Some t)
    then have "mt_id t = k" by (rule get_task_id)
    with Some show ?thesis using assms(1) by (simp add: holding_def)
  qed
  ultimately show "table_moves J sv w (snd (bind_io (m_read sv (\<lambda>tbl. get_task tbl k)) f w))"
    unfolding run by (rule mm.R_trans)
qed

lemma holding_raise: "holding J sv t (raise_io e)"
  by (simp add: holding_mm mm.keeps_raise)

lemma holding_if: "(c \<Longrightarrow> holding J sv t a) \<Longrightarrow> (\<not> c \<Longrightarrow> holding J sv t b) \<Longrightarrow> holding J sv t (if c then a else b)"
  by simp

lemma resume_not_merging: "resume_state f \<noteq> MMERGING"
  by (cases f rule: resume_state.cases) simp_all

lemma holding_retry:
  assumes "(mt_id t, MREPLACING) \<in> J"
  shows "holding J sv t (retry_task sv t)"
proof -
  have guard: "guarded J (mt_id t) (resume_state (mt_failed_state t))"
    using assms resume_not_merging by (simp add: guarded_def)
  let ?s = "resume_state (mt_failed_state t)"
  let ?reply = "\<lambda>retried. case retried of
      None \<Rightarrow> raise_io (ActionRefused ''merge_task_changed'')
    | Some t' \<Rightarrow> bind_io (m_act Wake (\<lambda>_. ())) (\<lambda>_. ret t')"
  have reply: "mc.keeps sv (?reply r)" for r
    by (intro mc_calls)
  have "holding J sv t (bind_io (if ?s = MQUEUED \<and> mv_kube sv then delete_named_job sv t else ret ())
      (\<lambda>_. bind_io (m_transition sv (mt_id t) MFAILED ?s (FFailed_State None # fs)) ?reply))"
    if "list_all plain fs" for fs
    by (intro holding_bind holding_transition table_step.retry that reply guard) (auto intro: mc_calls)
  then show ?thesis
    unfolding retry_task_def Let_def append.simps by (simp add: holding_raise)
qed

lemma holding_cancel: "holding J sv t (cancel_task sv t)"
proof -
  have "holding J sv t (bind_io (m_transition sv (mt_id t) (mt_state t) MCANCELLED fs) f)"
    if "mt_state t \<in> CANCELLABLE_STATES" "mt_state t = MFAILED \<longrightarrow> mt_failed_state t \<noteq> Some MREPLACING"
      "list_all plain fs" "\<And>a. mc.keeps sv (f a)" for fs and f :: "merge_task option \<Rightarrow> merge_task mio"
    using that by (intro holding_transition table_step.cancel) auto
  note writes = this
  show ?thesis
    unfolding cancel_task_def drop_task_def
    by (intro holding_if holding_raise, (rule holding_bind, (intro mc_calls)[1])+, rule writes)
       (auto intro: mc_calls split: option.split)
qed

lemma mm_retry: "(k, MREPLACING) \<in> J \<Longrightarrow> mm.keeps J sv (retry_merge sv k)"
  unfolding retry_merge_def by (rule holding_found) (simp_all add: holding_retry mm.keeps_raise)

lemma mm_cancel: "mm.keeps J sv (cancel_merge sv k)"
  unfolding cancel_merge_def by (rule holding_found) (simp_all add: holding_cancel mm.keeps_raise)

end
