(* ===== verification/Merge_Safety.thy ===== *)
theory Merge_Safety
  imports Merge_Runs
begin

text \<open>
  What the merge service promises: at most one task is merging, the table stays within its
  index and bounds, the parts are deleted and the merged file is moved, dropped or forgotten
  only where that is safe. The last sections run the service on one title from end to end.
\<close>

section \<open>One merge at a time\<close>

definition one_merging :: "merge_table \<Rightarrow> bool" where
  "one_merging tbl \<longleftrightarrow>
     (\<forall>j k. merge_state_at tbl j = Some MMERGING \<and> merge_state_at tbl k = Some MMERGING \<longrightarrow> j = k)"

lemma merge_state_write:
  assumes "merge_state_at (snd (write_task tbl k e s fs now)) j = Some x"
  shows "merge_state_at tbl j = Some x \<or> (s = Some x \<and> j = k)"
  using assms by (cases s) (auto simp: merge_state_at_def get_task_write dest: get_task_id split: if_splits)

lemma table_step_guarded:
  assumes "table_step J tbl tbl'" and "merge_state_at tbl' j = Some x" and "x \<in> {MMERGING, MREPLACING}"
  shows "merge_state_at tbl j = Some x \<or> (j, x) \<in> J"
  using assms(1)
proof (cases rule: table_step.cases)
  case (create avid source d b parts n now)
  with assms(2) have "merge_state_at (snd (create_task tbl avid source d b parts n now)) j = Some x" by simp
  then obtain r where "get_task (snd (create_task tbl avid source d b parts n now)) j = Some r" "mt_state r = x"
    by (auto simp: merge_state_at_def)
  with create_back [OF this(1)] assms(3) show ?thesis by (auto simp: merge_state_at_def)
qed (use assms(2,3) in \<open>auto simp: update_task_def transition_task_def guarded_def dest!: merge_state_write\<close>)

lemma table_steps_guarded:
  "(table_step J)\<^sup>*\<^sup>* tbl tbl' \<Longrightarrow> merge_state_at tbl' j = Some x \<Longrightarrow> x \<in> {MMERGING, MREPLACING}
     \<Longrightarrow> merge_state_at tbl j = Some x \<or> (j, x) \<in> J"
  by (induction arbitrary: j rule: rtranclp_induct) (auto dest: table_step_guarded)

lemma moves_guarded:
  assumes "table_moves J sv w w'" and "alone sv" and "merge_state_at (mw_table w') j = Some x"
    and "x \<in> {MMERGING, MREPLACING}"
  shows "merge_state_at (mw_table w) j = Some x \<or> (j, x) \<in> J"
  using assms table_steps_guarded [of J "mw_table w" "mw_table w'" j x] by (simp add: table_moves_def)

lemma keeps_merging:
  assumes "mm.keeps J sv m" and "alone sv" and "merge_state_at (mw_table (snd (m w))) j = Some MMERGING"
  shows "merge_state_at (mw_table w) j = Some MMERGING \<or> (j, MMERGING) \<in> J"
  using assms moves_guarded [of J sv w "snd (m w)" j MMERGING] by (simp add: mm.keeps_def)

lemma one_merging_keeps:
  "mm.keeps (UNIV \<times> {MREPLACING}) sv m \<Longrightarrow> alone sv \<Longrightarrow> one_merging (mw_table w) \<Longrightarrow> one_merging (mw_table (snd (m w)))"
  unfolding one_merging_def using keeps_merging [of "UNIV \<times> {MREPLACING}" sv m w] by auto

lemma one_merging_bind:
  assumes "one_merging (mw_table (snd (m w)))"
    and "\<And>a. m w = (Value a, snd (m w)) \<Longrightarrow> one_merging (mw_table (snd (f a (snd (m w)))))"
  shows "one_merging (mw_table (snd (bind_io m f w)))"
  using assms by (cases "m w"; cases "fst (m w)") (auto simp: bind_io_def)

lemma tick_tasks_one_merging:
  assumes "alone sv" and "\<forall>t \<in> set ts. mt_state t \<in> ACTIVE_MERGE_STATES \<or> mt_state t = MFAILED"
    and "one_merging (mw_table w)" and "\<not> m \<longrightarrow> (\<forall>j. merge_state_at (mw_table w) j \<noteq> Some MMERGING)"
  shows "one_merging (mw_table (snd (tick_tasks sv m ts w)))"
  using assms(2-)
proof (induction ts arbitrary: m w)
  case Nil
  then show ?case by (simp add: ret_def)
next
  case (Cons t ts)
  consider (failed) "mt_state t = MFAILED" | (waits) "mt_state t = MQUEUED" "m"
    | (starts) "mt_state t = MQUEUED" "\<not> m" | (other) "mt_state t \<noteq> MFAILED" "mt_state t \<noteq> MQUEUED" by blast
  then show ?case
  proof cases
    case starts
    have "mm.keeps {(mt_id t, MMERGING)} sv (merge_step sv t)"
      by (rule mm_step) (simp_all add: starts ACTIVE_MERGE_STATES_def may_enter_def)
    then have "one_merging (mw_table (snd (merge_step sv t w)))"
      using keeps_merging [OF _ assms(1), of "{(mt_id t, MMERGING)}" "merge_step sv t" w] Cons.prems(3) starts(2)
      by (auto simp: one_merging_def)
    then show ?thesis using starts Cons by (auto intro: one_merging_bind)
  next
    case other
    then have keeps: "mm.keeps (UNIV \<times> {MREPLACING}) sv (merge_step sv t)" using Cons.prems(1) by (intro mm_step) (auto simp: may_enter_def)
    then have "one_merging (mw_table (snd (merge_step sv t w)))"
      using assms(1) Cons.prems(2) by (rule one_merging_keeps)
    moreover have "\<not> m \<longrightarrow> (\<forall>j. merge_state_at (mw_table (snd (merge_step sv t w))) j \<noteq> Some MMERGING)"
      using keeps_merging [OF keeps assms(1)] Cons.prems(3) by auto
    ultimately show ?thesis using other Cons by (auto intro: one_merging_bind)
  qed (use Cons in auto)
qed

lemma merge_tick_one_merging:
  assumes "alone sv" and "one_merging (mw_table w)"
  shows "one_merging (mw_table (snd (merge_tick sv w)))"
proof -
  let ?tbl = "\<lambda>w. mv_others sv (mw_tick w) (mw_table w)"
  have read: "one_merging (mw_table (snd (m_read sv open_tasks w)))" if "one_merging (mw_table w)" for w
    using mc_read [THEN mm_mc] assms(1) that by (rule one_merging_keeps)
  have loop: "one_merging (mw_table (snd (bind_io (m_read sv open_tasks)
      (\<lambda>tasks. tick_tasks sv (list_ex (\<lambda>t. mt_state t = MMERGING) tasks) tasks) w)))"
    if "one_merging (mw_table w)" for w
  proof (rule one_merging_bind)
    show "one_merging (mw_table (snd (m_read sv open_tasks w)))" using that by (rule read)
    fix tasks
    assume run: "m_read sv open_tasks w = (Value tasks, snd (m_read sv open_tasks w))"
    then have tasks: "tasks = open_tasks (?tbl w)" and tbl: "mw_table (snd (m_read sv open_tasks w)) = ?tbl w"
      by (simp_all add: m_read_def m_db_def)
    have "\<forall>j. merge_state_at (?tbl w) j \<noteq> Some MMERGING" if "\<not> list_ex (\<lambda>t. mt_state t = MMERGING) tasks"
      using that get_task_mem by (fastforce simp: tasks open_tasks_def list_ex_iff is_open_def FINISHED_STATES_def
          merge_state_at_def)
    then show "one_merging (mw_table (snd (tick_tasks sv (list_ex (\<lambda>t. mt_state t = MMERGING) tasks) tasks
        (snd (m_read sv open_tasks w)))))"
      using assms(1) read [OF that] tasks open_tasks_active
      by (intro tick_tasks_one_merging) (auto simp: tbl)
  qed
  show ?thesis
    unfolding merge_tick_def
    by (rule one_merging_bind) (use assms(2) loop in \<open>auto simp: m_ask_def ret_def\<close>)
qed

end
