(* ===== verification/Merge_Evidence.thy ===== *)
theory Merge_Evidence
  imports Merge_Safety
begin

text \<open>
  What the merge service has seen when it does something that cannot be undone: the listings
  behind a verification, a deletion, a move, a cancel. An effect is justified by an answer of
  CloudDrive at some tick of the run.
\<close>

section \<open>What is asked of the outside\<close>

definition m_emits :: "(merge_effect \<Rightarrow> bool) \<Rightarrow> mworld \<Rightarrow> mworld \<Rightarrow> bool" where
  "m_emits P w w' \<longleftrightarrow> mw_tick w \<le> mw_tick w' \<and> (\<exists>es. mw_log w' = mw_log w @ es \<and> list_all P es)"

interpretation me: io_relation "m_emits P" for P
proof
  show "m_emits P w w" for w by (auto simp: m_emits_def intro: exI [of _ "[]"])
  show "m_emits P w w''" if "m_emits P w w'" "m_emits P w' w''" for w w' w''
    using that unfolding m_emits_def by (metis append.assoc le_trans list_all_append)
qed

lemma me_ask: "me.keeps P (m_ask q)" "me.keeps P (m_read sv f)" "me.keeps P (m_db sv g)"
  by (auto simp: me.keeps_def m_emits_def m_ask_def m_read_def m_db_def split: prod.splits)

lemma me_act: "P e \<Longrightarrow> me.keeps P (m_act e q)"
  by (simp add: me.keeps_def m_emits_def m_act_def)

lemma me_value: "me.keeps P (m_value r)" "me.keeps P (m_done d)"
  unfolding m_value_def m_done_def by (intro me.keeps_flow)+

lemma me_query: "me.keeps P (m_query q)"
  unfolding m_query_def by (intro me.keeps_flow me_ask me_value)

lemma me_call: "P e \<Longrightarrow> me.keeps P (m_call e q)" "P e \<Longrightarrow> me.keeps P (m_order e d)"
  unfolding m_call_def m_order_def by (intro me.keeps_flow me_act me_value; assumption)+

lemma me_exn:
  assumes "\<And>x. me.keeps P (f1 x)" "\<And>x. me.keeps P (f2 x)" "\<And>x. me.keeps P (f3 x)"
    "\<And>x. me.keeps P (f4 x)" "\<And>x y. me.keeps P (f5 x y)"
  shows "me.keeps P (case e of MergeFailed x \<Rightarrow> f1 x | ActionRefused x \<Rightarrow> f2 x | KubeErr x \<Rightarrow> f3 x
     | FileMissing x \<Rightarrow> f4 x | OtherExn x y \<Rightarrow> f5 x y)"
  using assms by (cases e) simp_all

lemma me_suppress: "me.keeps P m \<Longrightarrow> me.keeps P (suppress_kube m)" "me.keeps P m \<Longrightarrow> me.keeps P (suppress_all m)"
  unfolding suppress_kube_def suppress_all_def by (intro me.keeps_flow me_exn; assumption?)+

lemmas me_basic = me.keeps_flow me_ask me_value me_query me_suppress me_exn

lemma me_list: "me.keeps P (m_list sv d)" "me.keeps P (m_list_or_none sv d)" "me.keeps P (m_stat sv p)"
  unfolding m_stat_def m_list_or_none_def m_list_def by (intro me_basic)+

lemma me_now: "me.keeps P (m_now sv)" "me.keeps P (require_cloud sv)" "me.keeps P (require_kube sv)"
  "me.keeps P (m_update sv k fs)" "me.keeps P (m_transition sv k e s fs)" "me.keeps P (m_move sv k e s fs)"
  unfolding m_now_def require_cloud_def require_kube_def m_update_def m_transition_def m_move_def
  by (intro me_basic)+

lemma me_listed: "me.keeps P (listed_files sv ds)"
  by (induction ds) (simp_all add: me.keeps_ret me.keeps_bind me_list)

lemma me_present: "me.keeps P (present sv files)"
  unfolding present_def by (intro me_basic me_listed)

lemma me_whole: "me.keeps P (whole_copy sv t p)" "me.keeps P (refuse_whole_copy sv t p)"
  "me.keeps P (copy_task sv p)" "me.keeps P (read_status sv p)"
  unfolding refuse_whole_copy_def whole_copy_def copy_task_def read_status_def by (intro me_basic me_list me_now)+

lemma me_unlink: "P (Unlink f) \<Longrightarrow> me.keeps P (m_unlink sv f)"
  unfolding m_unlink_def by (rule me_call)

lemma me_delete_quietly: "P (DeleteCloud ps) \<Longrightarrow> me.keeps P (suppress_all (bind_io (m_call (DeleteCloud ps) q) (\<lambda>_. ret ())))"
  by (intro me_basic me_call)

lemma me_job: "(\<And>j. P (DeleteJob j)) \<Longrightarrow> me.keeps P (delete_named_job sv t)"
  unfolding delete_named_job_def by (intro me_basic me_call) simp

lemmas me_calls = me_basic me_list me_now me_present me_whole

lemma me_emitted:
  "me.keeps P m \<Longrightarrow> e \<in> set (mw_log (snd (m w))) \<Longrightarrow> e \<in> set (mw_log w) \<or> P e"
  by (auto simp: me.keeps_def m_emits_def list_all_iff) (metis Un_iff set_append)

section \<open>What a listing shows\<close>

definition shows_file :: "cloud_entry list \<Rightarrow> string \<Rightarrow> bool" where
  "shows_file entries f \<longleftrightarrow> (\<exists>e \<in> set entries. \<not> ce_is_directory e \<and> ce_full_path e = f)"

text \<open>At a tick the directory of a file is listed without it, or not there at all.\<close>

definition unlisted_at :: "merge_services \<Rightarrow> nat \<Rightarrow> string \<Rightarrow> bool" where
  "unlisted_at sv n f \<longleftrightarrow>
     (case mv_list_directory sv n (path_parent f) of
        Inl e \<Rightarrow> (\<exists>s. e = FileMissing s)
      | Inr entries \<Rightarrow> \<not> shows_file entries f)"

definition stat_at :: "merge_services \<Rightarrow> nat \<Rightarrow> string \<Rightarrow> cloud_entry option" where
  "stat_at sv n f =
     (case mv_list_directory sv n (path_parent f) of
        Inl e \<Rightarrow> None
      | Inr entries \<Rightarrow> find (\<lambda>e. ce_name e = path_name f \<and> ce_full_path e = f) entries)"

definition whole_copies_at :: "merge_services \<Rightarrow> nat \<Rightarrow> merge_task \<Rightarrow> merge_paths \<Rightarrow> string list" where
  "whole_copies_at sv n t p =
     (case mv_list_directory sv n (path_parent (hd (mp_part_api_paths p))) of
        Inl e \<Rightarrow> []
      | Inr entries \<Rightarrow> whole_copies (mt_avid t) (map ce_name (filter (\<lambda>e. \<not> ce_is_directory e) entries)))"

lemma m_list_or_none_run:
  "m_list_or_none sv d w =
     ((case mv_list_directory sv (mw_tick w) d of
         Inl (FileMissing _) \<Rightarrow> Value []
       | Inl e \<Rightarrow> Raised e
       | Inr entries \<Rightarrow> Value entries), w\<lparr>mw_tick := Suc (mw_tick w)\<rparr>)"
  by (auto simp: m_list_or_none_def m_list_def m_query_def catch_io_def bind_io_def m_ask_def m_value_def
      ret_def raise_io_def split: sum.splits merge_exn.splits)

lemma m_stat_value:
  "m_stat sv f w = (Value v, w') \<Longrightarrow> v = stat_at sv (mw_tick w) f \<and> w' = w\<lparr>mw_tick := Suc (mw_tick w)\<rparr>"
  by (auto simp: m_stat_def bind_io_def m_list_or_none_run ret_def stat_at_def
      split: sum.splits merge_exn.splits)

lemma listed_files_value:
  "listed_files sv ds w = (Value fs, w') \<Longrightarrow> d \<in> set ds \<Longrightarrow> path_parent f = d \<Longrightarrow> f \<notin> set fs
     \<Longrightarrow> \<exists>n. mw_tick w \<le> n \<and> n < mw_tick w' \<and> unlisted_at sv n f"
proof (induction ds arbitrary: w fs)
  case Nil
  then show ?case by simp
next
  case (Cons c ds)
  let ?w = "w\<lparr>mw_tick := Suc (mw_tick w)\<rparr>"
  from Cons.prems(1) obtain entries rest where head: "m_list_or_none sv c w = (Value entries, ?w)"
    and rest: "listed_files sv ds ?w = (Value rest, w')"
    and fs: "fs = map ce_full_path (filter (\<lambda>e. \<not> ce_is_directory e) entries) @ rest"
    by (auto simp: bind_io_Value_iff ret_def m_list_or_none_run)
  have mono: "mw_tick ?w \<le> mw_tick w'"
  proof -
    have "mw_tick w1 \<le> mw_tick w2" if "listed_files sv xs w1 = (Value v, w2)" for xs w1 v w2
      using that
    proof (induction xs arbitrary: w1 v)
      case (Cons x xs)
      then show ?case by (fastforce simp: bind_io_Value_iff ret_def m_list_or_none_run)
    qed (simp add: ret_def)
    with rest show ?thesis by blast
  qed
  show ?case
  proof (cases "d = c")
    case True
    have "unlisted_at sv (mw_tick w) f"
      using head Cons.prems(3,4) True fs
      by (auto simp: unlisted_at_def shows_file_def m_list_or_none_run split: sum.splits merge_exn.splits)
    then show ?thesis using mono by (intro exI [of _ "mw_tick w"]) simp
  next
    case False
    with Cons.prems have "d \<in> set ds" "f \<notin> set rest" by (auto simp: fs)
    with Cons.IH [OF rest] Cons.prems(3) obtain n where "mw_tick ?w \<le> n" "n < mw_tick w'" "unlisted_at sv n f" by blast
    then show ?thesis by (intro exI [of _ n]) simp
  qed
qed

lemma present_value:
  assumes "present sv files w = (Value left, w')" and "f \<in> set files" and "f \<notin> set left"
  shows "\<exists>n. mw_tick w \<le> n \<and> n < mw_tick w' \<and> unlisted_at sv n f"
proof -
  from assms(1) obtain listed where "listed_files sv (remdups (sort (map path_parent files))) w = (Value listed, w')"
    and "left = filter (\<lambda>f. f \<in> set listed) files"
    by (auto simp: present_def bind_io_Value_iff ret_def)
  with assms listed_files_value [OF this(1), of "path_parent f" f] show ?thesis by auto
qed

lemma present_subset: "present sv files w = (Value left, w') \<Longrightarrow> set left \<subseteq> set files"
  by (auto simp: present_def bind_io_Value_iff ret_def)

lemma whole_copy_value:
  assumes "whole_copy sv t p w = (Value v, w')"
  shows "v = (case whole_copies_at sv (Suc (mw_tick w)) t p of [] \<Rightarrow> None | n # _ \<Rightarrow> Some n)"
proof -
  let ?d = "path_parent (hd (mp_part_api_paths p))" and ?w = "w\<lparr>mw_tick := Suc (mw_tick w)\<rparr>"
  from assms obtain u w1 entries where cloud: "require_cloud sv w = (Value u, w1)"
    and list: "m_list_or_none sv ?d w1 = (Value entries, w')"
    and v: "v = (case whole_copies (mt_avid t) (map ce_name (filter (\<lambda>e. \<not> ce_is_directory e) entries)) of
                   [] \<Rightarrow> None | n # _ \<Rightarrow> Some n)"
    by (auto simp: whole_copy_def bind_io_Value_iff ret_def)
  have "w1 = ?w" using cloud
    by (simp add: require_cloud_def bind_io_def m_ask_def ret_def raise_io_def split: if_splits)
  with list v show ?thesis
    by (auto simp: m_list_or_none_run whole_copies_at_def whole_copies_def split: sum.splits merge_exn.splits)
qed

lemma refuse_whole_copy_value:
  "refuse_whole_copy sv t p w = (Value u, w') \<Longrightarrow> whole_copies_at sv (Suc (mw_tick w)) t p = []"
  by (auto simp: refuse_whole_copy_def bind_io_Value_iff ret_def raise_io_def dest!: whole_copy_value
      split: option.splits list.splits)

section \<open>The way into the swap\<close>

text \<open>
  The staged file was seen with the merged file's size and hash, and after that the parts'
  directory without a whole copy.
\<close>

definition verified_at :: "merge_services \<Rightarrow> merge_task \<Rightarrow> merge_paths \<Rightarrow> nat \<Rightarrow> nat \<Rightarrow> bool" where
  "verified_at sv t p n n' \<longleftrightarrow>
     n < n' \<and> whole_copies_at sv n' t p = []
     \<and> (\<exists>e. stat_at sv n (mp_staged_file p) = Some e \<and> Some (ce_size e) = mt_merged_bytes t
          \<and> Some (staged_sha1 e) = mt_merged_sha1 t \<and> staged_sha1 e \<noteq> [])"

lemma verify_moves:
  assumes "\<And>n n'. \<not> verified_at sv t p n n'"
  shows "table_moves {} sv w (snd (verify sv t p w))"
  unfolding verify_def
proof (rule mm.bind_run)
  show "table_moves {} sv w (snd (require_cloud sv w))" by (rule mm.keeps_run [OF mc_now(2) [THEN mm_mc]])
next
  fix u w1
  let ?after = "\<lambda>now staged. case staged of
      None \<Rightarrow>
        (if now - mt_state_changed_at t < STAGED_FILE_WAIT
         then m_update sv (mt_id t) [FNotice (Some ''waiting for CloudDrive to list the uploaded file'')]
         else raise_io (MergeFailed (''CloudDrive finished the copy, but '' @ mp_staged_file p @ '' is not there'')))
    | Some e \<Rightarrow>
        (if Some (ce_size e) \<noteq> mt_merged_bytes t then
           raise_io (MergeFailed (''uploaded size '' @ str_int (ce_size e) @ '' differs from the merged file (''
             @ shown str_int (mt_merged_bytes t) @ '')''))
         else if staged_sha1 e = [] then
           (if now - mt_state_changed_at t < HASH_WAIT
            then m_update sv (mt_id t) [FNotice (Some ''waiting for 115 to report the SHA-1'')]
            else raise_io (MergeFailed ''115 never reported a SHA-1 for the uploaded file''))
         else if Some (staged_sha1 e) \<noteq> mt_merged_sha1 t then
           raise_io (MergeFailed (''uploaded SHA-1 '' @ staged_sha1 e @ '' differs from the merged file (''
             @ shown (\<lambda>h. h) (mt_merged_sha1 t) @ '')''))
         else
           bind_io (refuse_whole_copy sv t p) (\<lambda>_.
             m_move sv (mt_id t) MVERIFYING MREPLACING [FNotice None]))"
  have after: "table_moves {} sv w3 (snd (?after now staged w3))"
    if "m_stat sv (mp_staged_file p) w2 = (Value staged, w3)" for now staged w2 w3
  proof (cases staged)
    case None
    then show ?thesis
      by simp (intro conjI impI mm.keeps_run mm_update mm.keeps_raise; simp)
  next
    case (Some e)
    from m_stat_value [OF that] Some have e: "stat_at sv (mw_tick w2) (mp_staged_file p) = Some e"
      and tick: "mw_tick w3 = Suc (mw_tick w2)" by auto
    show ?thesis
    proof (cases "Some (ce_size e) = mt_merged_bytes t \<and> staged_sha1 e \<noteq> []
        \<and> Some (staged_sha1 e) = mt_merged_sha1 t")
      case True
      have "table_moves {} sv w3 (snd (bind_io (refuse_whole_copy sv t p)
          (\<lambda>_. m_move sv (mt_id t) MVERIFYING MREPLACING [FNotice None]) w3))"
      proof (rule mm.bind_run)
        show "table_moves {} sv w3 (snd (refuse_whole_copy sv t p w3))"
          by (rule mm.keeps_run [OF mc_whole(2) [THEN mm_mc]])
        fix v w4
        assume "refuse_whole_copy sv t p w3 = (Value v, w4)"
        then have "whole_copies_at sv (Suc (mw_tick w3)) t p = []" by (rule refuse_whole_copy_value)
        then have "verified_at sv t p (mw_tick w2) (Suc (mw_tick w3))"
          using e True tick by (simp add: verified_at_def)
        then show "table_moves {} sv w4 (snd (m_move sv (mt_id t) MVERIFYING MREPLACING [FNotice None] w4))"
          using assms by blast
      qed
      then show ?thesis using True by (simp add: Some)
    next
      case False
      then show ?thesis
        unfolding Some by simp (intro conjI impI mm.keeps_run mm_update mm.keeps_raise; simp)
    qed
  qed
  show "table_moves {} sv w1 (snd (bind_io (m_now sv)
      (\<lambda>now. bind_io (m_stat sv (mp_staged_file p)) (?after now)) w1))"
    by (intro mm.bind_run mm.keeps_run mc_calls [THEN mm_mc] after) assumption+
qed

lemma step_into_swap:
  assumes "alone sv" and "mt_state t \<in> ACTIVE_MERGE_STATES"
    and "merge_state_at (mw_table w) (mt_id t) \<noteq> Some MREPLACING"
    and "merge_state_at (mw_table (snd (merge_step sv t w))) (mt_id t) = Some MREPLACING"
  shows "mt_state t = MVERIFYING
    \<and> (\<exists>m p n n'. merge_paths t (mv_settings sv m) = Inr p \<and> verified_at sv t p n n')"
proof (rule ccontr)
  assume none: "\<not> ?thesis"
  let ?J = "{(mt_id t, MMERGING)}"
  have handler: "table_moves ?J sv w' (snd (merge_handler (mt_state t) sv t p w'))"
    if "merge_paths t (mv_settings sv m) = Inr p" for m p w'
  proof (cases "mt_state t = MVERIFYING")
    case True
    with none that have "\<not> verified_at sv t p n n'" for n n' by blast
    then have "table_moves {} sv w' (snd (verify sv t p w'))" by (rule verify_moves)
    then have "table_moves ?J sv w' (snd (verify sv t p w'))"
      by (auto simp: table_moves_def intro: table_steps_mono)
    then show ?thesis using True by simp
  next
    case False
    then show ?thesis by (intro mm.keeps_run mm_handler) (auto simp: may_enter_def)
  qed
  have "table_moves ?J sv w (snd (merge_step sv t w))"
    unfolding merge_step_def
  proof (rule mm.catch_run)
    show "table_moves ?J sv w (snd (bind_io (m_ask (mv_settings sv)) (\<lambda>ms. bind_io (m_value (merge_paths t ms))
        (\<lambda>p. merge_handler (mt_state t) sv t p)) w))"
    proof (rule mm.bind_run)
      show "table_moves ?J sv w (snd (m_ask (mv_settings sv) w))" by (rule mm.keeps_run [OF mc_ask [THEN mm_mc]])
      fix ms w1
      assume "m_ask (mv_settings sv) w = (Value ms, w1)"
      then have "ms = mv_settings sv (mw_tick w)" by (simp add: m_ask_def)
      then show "table_moves ?J sv w1 (snd (bind_io (m_value (merge_paths t ms))
          (\<lambda>p. merge_handler (mt_state t) sv t p) w1))"
        using handler [of "mw_tick w"]
        by (cases "merge_paths t ms") (auto simp: m_value_def bind_io_def ret_def raise_io_def mm.R_refl)
    qed
  qed (intro mm.keeps_run mm_exn mm_fail mm_update assms(2); simp)
  from moves_guarded [OF this assms(1,4)] assms(3) show False by simp
qed

section \<open>The swap\<close>

definition parts_gone :: "merge_services \<Rightarrow> merge_paths \<Rightarrow> nat \<Rightarrow> bool" where
  "parts_gone sv p k \<longleftrightarrow> (\<forall>f \<in> set (mp_part_api_paths p). \<exists>n \<ge> k. unlisted_at sv n f)"

definition merged_seen :: "merge_services \<Rightarrow> merge_task \<Rightarrow> merge_paths \<Rightarrow> nat \<Rightarrow> bool" where
  "merged_seen sv t p k \<longleftrightarrow> (\<exists>n \<ge> k. stat_at sv n (mp_target_dir p @ ''/'' @ mt_merged_name t) \<noteq> None)"

text \<open>What the swap may do, and what it has to have seen since its beginning for it.\<close>

fun swap_ok :: "merge_services \<Rightarrow> merge_task \<Rightarrow> merge_paths \<Rightarrow> nat \<Rightarrow> merge_effect \<Rightarrow> bool" where
  "swap_ok sv t p k (DeleteCloud fs) \<longleftrightarrow>
     set fs \<subseteq> set (mp_part_api_paths p) \<or> fs = [mp_staging_dir p] \<and> parts_gone sv p k \<and> merged_seen sv t p k"
| "swap_ok sv t p k (EnsureDir a b) \<longleftrightarrow> parts_gone sv p k"
| "swap_ok sv t p k (MoveFile f d) \<longleftrightarrow> f = mp_staged_file p \<and> d = mp_target_dir p \<and> parts_gone sv p k"
| "swap_ok sv t p k (Unlink f) \<longleftrightarrow>
     f \<in> {mp_output p, partial_path (mp_output p), mp_status p} \<and> parts_gone sv p k \<and> merged_seen sv t p k"
| "swap_ok sv t p k (Trigger l) \<longleftrightarrow> parts_gone sv p k \<and> merged_seen sv t p k"
| "swap_ok sv t p k _ \<longleftrightarrow> False"

lemma swap_ok_earlier: "swap_ok sv t p k e \<Longrightarrow> j \<le> k \<Longrightarrow> swap_ok sv t p j e"
  by (cases e) (auto simp: parts_gone_def merged_seen_def, (meson order_trans)+)

lemma me_finish: "parts_gone sv p k \<Longrightarrow> merged_seen sv t p k \<Longrightarrow> me.keeps (swap_ok sv t p k) (finish_swap sv t p)"
  unfolding finish_swap_def by (intro me_delete_quietly me_unlink me_calls me_call) simp_all

lemma me_move_in:
  assumes gone: "parts_gone sv p k" and "k \<le> mw_tick w"
  shows "m_emits (swap_ok sv t p k) w (snd (move_in_merged sv t p w))"
proof -
  let ?R = "m_emits (swap_ok sv t p k)"
  let ?target = "mp_target_dir p @ ''/'' @ mt_merged_name t"
  let ?last = "\<lambda>target. if target = None then
        raise_io (MergeFailed (''the merged file is neither in '' @ mp_staging_dir p @ '' nor in ''
          @ mp_target_dir p))
      else finish_swap sv t p"
  have ending: "?R w1 (snd (bind_io (m_stat sv ?target) ?last w1))" if "k \<le> mw_tick w1" for w1
  proof (rule me.bind_run)
    show "?R w1 (snd (m_stat sv ?target w1))" by (rule me.keeps_run [OF me_list(3)])
    fix target w2
    assume "m_stat sv ?target w1 = (Value target, w2)"
    then have "target = stat_at sv (mw_tick w1) ?target" by (simp add: m_stat_value)
    with that have "merged_seen sv t p k" if "target \<noteq> None" using that by (auto simp: merged_seen_def)
    then show "?R w2 (snd (?last target w2))"
      by (cases "target = None") (auto intro!: me.keeps_run me_finish gone me.keeps_raise)
  qed
  have later: "?R w1 (snd (bind_io m f w1))"
    if "me.keeps (swap_ok sv t p k) m" "k \<le> mw_tick w1" "\<And>a w2. k \<le> mw_tick w2 \<Longrightarrow> ?R w2 (snd (f a w2))"
    for m :: "'a mio" and f :: "'a \<Rightarrow> 'b mio" and w1
  proof (rule me.bind_run)
    show first: "?R w1 (snd (m w1))" using that(1) by (rule me.keeps_run)
    fix a w2
    assume "m w1 = (Value a, w2)"
    with first that(2) show "?R w2 (snd (f a w2))" by (intro that(3)) (auto simp: m_emits_def)
  qed
  show ?thesis
    unfolding move_in_merged_def
    by (simp add: Let_def split: prod.split)
       (intro allI impI later me_call me_calls me_list assms(2); simp add: gone split: option.split;
        auto intro!: ending [simplified] me.keeps_run [OF me_now(4)])
qed

lemma replace_emits: "m_emits (swap_ok sv t p (mw_tick w)) w (snd (replace sv t p w))"
proof -
  let ?k = "mw_tick w"
  let ?R = "m_emits (swap_ok sv t p ?k)" and ?parts = "mp_part_api_paths p"
  let ?delete = "\<lambda>remaining. if remaining = [] then ret None
      else
        bind_io (m_call (DeleteCloud remaining) (\<lambda>n. mv_delete_files sv n remaining)) (\<lambda>(success, message).
        bind_io (present sv ?parts) (\<lambda>still.
          ret (if still = [] then None
               else Some (str_int (int (length still)) @ '' original parts are still listed: ''
                 @ (if message = [] then ''retrying'' else message)))))"
  let ?next = "\<lambda>left. case left of
      Some notice \<Rightarrow> m_update sv (mt_id t) [FNotice (Some notice)]
    | None \<Rightarrow> move_in_merged sv t p"
  have gone: "parts_gone sv p ?k" if "present sv ?parts w1 = (Value [], w2)" "?k \<le> mw_tick w1" for w1 w2
    unfolding parts_gone_def
  proof
    fix f
    assume "f \<in> set ?parts"
    with present_value [OF that(1) this] that(2) show "\<exists>n \<ge> ?k. unlisted_at sv n f" by (auto intro: order_trans)
  qed
  have del: "me.keeps (swap_ok sv t p ?k) (?delete remaining)" if "set remaining \<subseteq> set ?parts" for remaining
    using that by (intro me_calls me_call) auto
  have cleared: "parts_gone sv p ?k"
    if "present sv ?parts w1 = (Value remaining, w2)" "?delete remaining w2 = (Value None, w3)" "?k \<le> mw_tick w1"
    for remaining w1 w2 w3
  proof (cases "remaining = []")
    case True
    then show ?thesis using that gone by simp
  next
    case False
    with that(2) obtain r w4 where call: "m_call (DeleteCloud remaining) (\<lambda>n. mv_delete_files sv n remaining) w2 = (Value r, w4)"
      and again: "present sv ?parts w4 = (Value [], w3)"
      by (auto simp: bind_io_Value_iff ret_def split: if_splits)
    have "?k \<le> mw_tick w4"
    proof -
      have "m_emits (\<lambda>_. True) w1 (snd (present sv ?parts w1))" by (rule me.keeps_run [OF me_present])
      moreover have "m_emits (\<lambda>_. True) w2 (snd (m_call (DeleteCloud remaining) (\<lambda>n. mv_delete_files sv n remaining) w2))"
        by (rule me.keeps_run) (rule me_call, simp)
      ultimately show ?thesis using that call by (auto simp: m_emits_def)
    qed
    with again show ?thesis by (rule gone)
  qed
  show ?thesis
    unfolding replace_def
  proof (rule me.bind_run)
    show cloud: "?R w (snd (require_cloud sv w))" by (rule me.keeps_run [OF me_now(2)])
    fix u w1
    assume "require_cloud sv w = (Value u, w1)"
    with cloud have k1: "?k \<le> mw_tick w1" by (simp add: m_emits_def)
    show "?R w1 (snd (bind_io (present sv ?parts) (\<lambda>remaining. bind_io (?delete remaining) ?next) w1))"
    proof (rule me.bind_run)
      show pres: "?R w1 (snd (present sv ?parts w1))" by (rule me.keeps_run [OF me_present])
      fix remaining w2
      assume run2: "present sv ?parts w1 = (Value remaining, w2)"
      then have keeps: "me.keeps (swap_ok sv t p ?k) (?delete remaining)" by (intro del present_subset)
      have k2: "?k \<le> mw_tick w2" using pres run2 k1 by (simp add: m_emits_def)
      show "?R w2 (snd (bind_io (?delete remaining) ?next w2))"
      proof (rule me.bind_run)
        show dele: "?R w2 (snd (?delete remaining w2))" using keeps by (rule me.keeps_run)
        fix left w3
        assume run3: "?delete remaining w2 = (Value left, w3)"
        with dele k2 have k3: "?k \<le> mw_tick w3" by (simp add: m_emits_def)
        show "?R w3 (snd (?next left w3))"
        proof (cases left)
          case None
          then have "parts_gone sv p ?k" using cleared [OF run2 _ k1] run3 by simp
          then show ?thesis using k3 None by (simp add: me_move_in)
        next
          case (Some notice)
          then show ?thesis by (simp add: me.keeps_run [OF me_now(4)])
        qed
      qed
    qed
  qed
qed

section \<open>Cancelling once the parts may be gone\<close>

definition duplicate_seen :: "merge_services \<Rightarrow> merge_task \<Rightarrow> merge_paths \<Rightarrow> nat \<Rightarrow> bool" where
  "duplicate_seen sv t p k \<longleftrightarrow> (\<exists>n \<ge> k. whole_copies_at sv n t p \<noteq> [])"

text \<open>The look for a whole copy as \<^verbatim>\<open>_discard_duplicate\<close> takes it.\<close>

definition look_for_copy :: "merge_services \<Rightarrow> merge_task \<Rightarrow> merge_paths \<Rightarrow> bool \<Rightarrow> string option mio" where
  "look_for_copy sv t p there =
     catch_io (if there then whole_copy sv t p else ret None)
       (\<lambda>_. raise_io (ActionRefused ''merge_discard_failed''))"

lemma me_look: "me.keeps P (look_for_copy sv t p there)"
  unfolding look_for_copy_def by (intro me_calls)

lemma look_value:
  "look_for_copy sv t p there w = (Value (Some c), w') \<Longrightarrow> k \<le> mw_tick w \<Longrightarrow> duplicate_seen sv t p k"
  unfolding look_for_copy_def duplicate_seen_def
  by (auto simp: catch_io_def raise_io_def ret_def split: prod.splits outcome.splits if_splits
      dest!: whole_copy_value intro!: exI [of _ "Suc (mw_tick w)"] split: list.splits)

lemma discard_run:
  assumes "k \<le> mw_tick w"
  shows "m_emits (\<lambda>e. duplicate_seen sv t p k) w (snd (discard_duplicate sv t p w))"
    and "discard_duplicate sv t p w = (Value u, w') \<Longrightarrow> duplicate_seen sv t p k"
proof -
  let ?P = "\<lambda>e. duplicate_seen sv t p k"
  let ?rest = "\<lambda>whole. if whole = None then raise_io (ActionRefused ''merge_task_not_cancellable'')
       else
         bind_io
           (catch_io
             (bind_io (m_call (DeleteCloud [mp_target_dir p]) (\<lambda>n. mv_delete_files sv n [mp_target_dir p])) (\<lambda>_.
                m_list sv (mp_intake_dir p)))
             (\<lambda>e. case e of
                    FileMissing _ \<Rightarrow> ret []
                  | _ \<Rightarrow> raise_io (ActionRefused ''merge_discard_failed''))) (\<lambda>intake.
           if list_ex (\<lambda>e. ce_full_path e = mp_target_dir p) intake
           then raise_io (ActionRefused ''merge_discard_failed'') else ret ())"
  have eq: "discard_duplicate sv t p = bind_io (m_ask (mv_cloud sv)) (\<lambda>there. bind_io (look_for_copy sv t p there) ?rest)"
    by (simp add: discard_duplicate_def look_for_copy_def)
  have seen: "duplicate_seen sv t p k" if "look_for_copy sv t p there w1 = (Value (Some c), w2)" "mw_tick w1 = Suc (mw_tick w)"
    for there c w1 w2 using that assms by (auto intro: look_value)
  show "m_emits ?P w (snd (discard_duplicate sv t p w))"
    unfolding eq
  proof (intro me.bind_run)
    show "m_emits ?P w (snd (m_ask (mv_cloud sv) w))" by (rule me.keeps_run [OF me_ask(1)])
    show "m_emits ?P w1 (snd (look_for_copy sv t p there w1))" for there w1 by (rule me.keeps_run [OF me_look])
    fix there w1 whole w2
    assume "m_ask (mv_cloud sv) w = (Value there, w1)" and look: "look_for_copy sv t p there w1 = (Value whole, w2)"
    then have tick: "mw_tick w1 = Suc (mw_tick w)" by (auto simp: m_ask_def)
    show "m_emits ?P w2 (snd (?rest whole w2))"
    proof (cases whole)
      case None
      then show ?thesis by (simp add: me.keeps_run [OF me.keeps_raise])
    next
      case (Some c)
      then have "duplicate_seen sv t p k" using look tick seen by blast
      then show ?thesis unfolding Some by (intro me.keeps_run me_calls me_call) simp_all
    qed
  qed
  assume "discard_duplicate sv t p w = (Value u, w')"
  then obtain there w1 whole w2 w3 where "m_ask (mv_cloud sv) w = (Value there, w1)"
    and look: "look_for_copy sv t p there w1 = (Value whole, w2)" and "?rest whole w2 = (Value u, w3)"
    unfolding eq bind_io_Value_iff by blast
  then show "duplicate_seen sv t p k"
    by (cases whole) (auto simp: m_ask_def raise_io_def intro: seen)
qed

lemma me_drop_task: "(\<And>e. P e) \<Longrightarrow> me.keeps P (drop_task sv t p)"
  unfolding drop_task_def drop_upload_def
  by (intro me_job me_unlink me_act me_delete_quietly me_calls me_call; assumption?)

lemma cancel_archiving:
  "mt_state t = MFAILED \<and> mt_failed_state t = Some MARCHIVING \<Longrightarrow>
     cancel_task sv t = bind_io (m_ask (mv_settings sv)) (\<lambda>ms. bind_io (m_value (merge_paths t ms)) (\<lambda>p.
       bind_io (discard_duplicate sv t p) (\<lambda>_. drop_task sv t p)))"
  by (simp add: cancel_task_def CANCELLABLE_STATES_def)

text \<open>What was asked for stays in the log, through a part that returned and all that follows.\<close>

lemma logged_after: "me.keeps (\<lambda>_. True) m \<Longrightarrow> e \<in> set (mw_log w) \<Longrightarrow> e \<in> set (mw_log (snd (m w)))"
  by (auto simp: me.keeps_def m_emits_def) (metis UnI1 set_append)

lemma logged_bind:
  "m w = (Value a, w') \<Longrightarrow> e \<in> set (mw_log w') \<Longrightarrow> me.keeps (\<lambda>_. True) (f a)
     \<Longrightarrow> e \<in> set (mw_log (snd (bind_io m f w)))"
  by (simp add: bind_io_run logged_after)

lemma cancel_swapping_emits:
  assumes "merge_phase t = Swapping"
  shows "m_emits (\<lambda>e. mt_failed_state t = Some MARCHIVING
           \<and> (\<exists>m p. merge_paths t (mv_settings sv m) = Inr p \<and> duplicate_seen sv t p (mw_tick w)))
         w (snd (cancel_task sv t w))"
proof (cases "mt_state t = MFAILED \<and> mt_failed_state t = Some MARCHIVING")
  case False
  then have "mt_state t \<notin> CANCELLABLE_STATES \<or> mt_state t = MFAILED \<and> mt_failed_state t = Some MREPLACING"
    using assms by (auto simp: merge_phase_def CANCELLABLE_STATES_def split: if_splits option.splits
        elim!: phase_of_state.elims)
  then show ?thesis by (auto simp: cancel_task_def intro: me.keeps_run me.keeps_raise)
next
  case True
  let ?P = "\<lambda>e :: merge_effect. mt_failed_state t = Some MARCHIVING
     \<and> (\<exists>m p. merge_paths t (mv_settings sv m) = Inr p \<and> duplicate_seen sv t p (mw_tick w))"
  have eq: "cancel_task sv t = bind_io (m_ask (mv_settings sv)) (\<lambda>ms. bind_io (m_value (merge_paths t ms)) (\<lambda>p.
      bind_io (discard_duplicate sv t p) (\<lambda>_. drop_task sv t p)))"
    using True by (rule cancel_archiving)
  have rest: "me.keeps ?P (drop_task sv t p)" if "?P Wake" for p
    by (rule me_drop_task) (rule that)
  show ?thesis
    unfolding eq
  proof (rule me.bind_run)
    show "m_emits ?P w (snd (m_ask (mv_settings sv) w))" by (rule me.keeps_run [OF me_ask(1)])
    fix ms w1
    assume "m_ask (mv_settings sv) w = (Value ms, w1)"
    then have ms: "ms = mv_settings sv (mw_tick w)" and k: "mw_tick w \<le> mw_tick w1" by (auto simp: m_ask_def)
    show "m_emits ?P w1 (snd (bind_io (m_value (merge_paths t ms)) (\<lambda>p. bind_io (discard_duplicate sv t p) (\<lambda>_. drop_task sv t p)) w1))"
    proof (cases "merge_paths t ms")
      case (Inl e)
      then show ?thesis by (simp add: m_value_def bind_io_def raise_io_def me.R_refl)
    next
      case (Inr p)
      note paths = Inr [unfolded ms]
      have "m_emits ?P w1 (snd (bind_io (discard_duplicate sv t p) (\<lambda>_. drop_task sv t p) w1))"
      proof (rule me.bind_run)
        have "m_emits (\<lambda>e. duplicate_seen sv t p (mw_tick w)) w1 (snd (discard_duplicate sv t p w1))"
          using k by (rule discard_run)
        then show "m_emits ?P w1 (snd (discard_duplicate sv t p w1))"
          using True paths by (auto simp: m_emits_def list_all_iff)
        fix u w2
        assume "discard_duplicate sv t p w1 = (Value u, w2)"
        then have "duplicate_seen sv t p (mw_tick w)" by (rule discard_run(2) [OF k])
        then show "m_emits ?P w2 (snd (drop_task sv t p w2))"
          using True paths by (intro me.keeps_run rest) blast
      qed
      then show ?thesis using Inr by (simp add: m_value_def bind_io_def ret_def)
    qed
  qed
qed

section \<open>A step of any state\<close>

definition deletes_or_moves :: "merge_effect \<Rightarrow> bool" where
  "deletes_or_moves e \<longleftrightarrow> (\<exists>fs. e = DeleteCloud fs) \<or> (\<exists>f d. e = MoveFile f d)"

lemma harmless_simps [simp]:
  "\<not> deletes_or_moves (CreateJob n args k)" "\<not> deletes_or_moves (DeleteJob n)" "\<not> deletes_or_moves (EnsureDir a b)"
  "\<not> deletes_or_moves (CopyFile a b)" "\<not> deletes_or_moves (RestartCopy a b)" "\<not> deletes_or_moves (Unlink f)"
  "\<not> deletes_or_moves (Rmtree f)" "\<not> deletes_or_moves (Trigger l)"
  "deletes_or_moves (DeleteCloud fs)" "deletes_or_moves (MoveFile a b)"
  by (simp_all add: deletes_or_moves_def)

lemma me_job_state: "me.keeps P a \<Longrightarrow> me.keeps P b \<Longrightarrow> me.keeps P c
    \<Longrightarrow> me.keeps P (case j of JOB_SUCCEEDED \<Rightarrow> a | JOB_FAILED \<Rightarrow> b | JOB_RUNNING \<Rightarrow> c)"
  by (cases j) simp_all

lemma me_other_handlers:
  assumes "mt_state t \<noteq> MREPLACING" and "\<And>e. \<not> deletes_or_moves e \<Longrightarrow> P e"
  shows "me.keeps P (merge_handler (mt_state t) sv t p)"
proof -
  have start: "me.keeps P (start_merge sv t p)"
    unfolding start_merge_def by (intro me_calls me_unlink me_call assms(2)) simp_all
  have failed: "me.keeps P (merge_job_failed sv t p j)" for j
    unfolding merge_job_failed_def by (intro me_calls me_unlink me_act assms(2)) simp_all
  have reported: "me.keeps P (merge_reported_done sv t p s)" for s
    unfolding merge_reported_done_def by (intro me_calls me_job me_unlink assms(2)) simp_all
  have watch: "me.keeps P (watch_merge sv t p)"
    unfolding watch_merge_def by (intro me_calls me_job_state failed reported)
  have restart: "me.keeps P (restart_upload sv t p a b)" for a b
    unfolding restart_upload_def by (intro me_calls me_call assms(2)) simp
  have issue: "me.keeps P (issue_copy sv t p)"
    unfolding issue_copy_def by (intro me_calls me_call assms(2)) simp_all
  have fatal: "me.keeps P (handled_fatal_upload sv t p a)" for a
    unfolding handled_fatal_upload_def by (intro me_calls restart)
  have upload: "me.keeps P (watch_upload sv t p)"
    unfolding watch_upload_def copy_not_listed_def upload_done_def
    by (intro me_calls me_list issue restart fatal)
  have verify: "me.keeps P (verify sv t p)"
    unfolding verify_def by (intro me_calls)
  have archive: "me.keeps P (watch_archive sv t p)"
    unfolding watch_archive_def by (intro me_calls me_call assms(2)) simp_all
  show ?thesis
    using assms(1) start watch upload verify archive by (cases "mt_state t") (simp_all add: me.keeps_raise)
qed

text \<open>What a step of a task may have asked for, by the state it found the task in.\<close>

definition step_ok :: "merge_services \<Rightarrow> merge_task \<Rightarrow> nat \<Rightarrow> merge_effect \<Rightarrow> bool" where
  "step_ok sv t k e \<longleftrightarrow>
     (if mt_state t = MREPLACING then \<exists>m p. merge_paths t (mv_settings sv m) = Inr p \<and> swap_ok sv t p k e
      else \<not> deletes_or_moves e)"

lemma step_emits: "m_emits (step_ok sv t (mw_tick w)) w (snd (merge_step sv t w))"
  unfolding merge_step_def
proof (rule me.catch_run)
  let ?P = "step_ok sv t (mw_tick w)"
  show "m_emits ?P w (snd (bind_io (m_ask (mv_settings sv)) (\<lambda>ms. bind_io (m_value (merge_paths t ms))
      (\<lambda>p. merge_handler (mt_state t) sv t p)) w))"
  proof (rule me.bind_run)
    show "m_emits ?P w (snd (m_ask (mv_settings sv) w))" by (rule me.keeps_run [OF me_ask(1)])
    fix ms w1
    assume "m_ask (mv_settings sv) w = (Value ms, w1)"
    then have ms: "ms = mv_settings sv (mw_tick w)" and k: "mw_tick w \<le> mw_tick w1" by (auto simp: m_ask_def)
    have handler: "m_emits ?P w1 (snd (merge_handler (mt_state t) sv t p w1))" if "merge_paths t ms = Inr p" for p
    proof (cases "mt_state t = MREPLACING")
      case True
      have "m_emits (swap_ok sv t p (mw_tick w1)) w1 (snd (replace sv t p w1))" by (rule replace_emits)
      moreover have "?P e" if "swap_ok sv t p (mw_tick w1) e" for e
      proof -
        have "swap_ok sv t p (mw_tick w) e" using that k by (rule swap_ok_earlier)
        then show ?thesis using True \<open>merge_paths t ms = Inr p\<close> ms by (auto simp: step_ok_def)
      qed
      ultimately show ?thesis using True by (auto simp: m_emits_def list_all_iff)
    next
      case False
      then show ?thesis by (intro me.keeps_run me_other_handlers) (simp_all add: step_ok_def)
    qed
    show "m_emits ?P w1 (snd (bind_io (m_value (merge_paths t ms)) (\<lambda>p. merge_handler (mt_state t) sv t p) w1))"
      using handler by (cases "merge_paths t ms") (auto simp: m_value_def bind_io_def ret_def raise_io_def me.R_refl)
  qed
qed (intro me.keeps_run me_calls)

end
