(* ===== verification/Merge_Props.thy ===== *)
theory Merge_Props
  imports Merge_Evidence
begin

text \<open>
  The properties of the merge service, each with a run in which its hypotheses hold: a
  two-part title whose merged file is staged, verified, swapped in and filed.
\<close>

section \<open>A concrete deployment\<close>

definition demo_settings :: merge_settings where
  "demo_settings =
     \<lparr>ms_work_dir = ''/w'', ms_cloud_work_dir = ''/w'', ms_cloud_staging_dir = ''/s'',
      ms_cloud_mount_prefix = ''/m'', ms_reserve_gib = 20, ms_auto_enabled = True,
      ms_auto_include_stackable = True, ms_auto_pause_on_failure = False, ms_cloud_configured = True,
      ms_archive = \<lparr>rt_src_dir = ''/m/in'', rt_priority_mapping = [], rt_mapping = [(''clt'', ''lib'')]\<rparr>,
      ms_archive_dst_dir = ''/m'', ms_mapping_dst_dir = ''/map''\<rparr>"

definition demo_entry :: "string \<Rightarrow> string \<Rightarrow> cloud_entry" where
  "demo_entry d n = \<lparr>ce_name = n, ce_full_path = d @ ''/'' @ n, ce_is_directory = False, ce_size = 7,
                     ce_hashes = [(''2'', ''ab'')]\<rparr>"

text \<open>The staged file and the two parts, the parts until the given tick.\<close>

definition demo_listing :: "nat \<Rightarrow> nat \<Rightarrow> string \<Rightarrow> merge_exn + cloud_entry list" where
  "demo_listing gone n d =
     (if d = ''/s/merge-0'' then Inr [demo_entry d ''A-1.mp4'']
      else if d = ''/lib/A'' then Inr (if n < gone then [demo_entry d ''A-1-cd1.mp4'', demo_entry d ''A-1-cd2.mp4''] else [])
      else if d = ''/in/clt/A-1'' \<and> gone \<le> n then Inr [demo_entry d ''A-1.mp4'']
      else Inr [])"

definition demo_merge :: "nat \<Rightarrow> merge_services" where
  "demo_merge gone =
     \<lparr>mv_others = (\<lambda>_ tbl. tbl), mv_clock = (\<lambda>n. seconds (int n)), mv_settings = (\<lambda>_. demo_settings),
      mv_kube = True, mv_create_job = (\<lambda>_ _. None), mv_delete_job = (\<lambda>_ _. None), mv_get_job = (\<lambda>_ _. Inr None),
      mv_log_tail = (\<lambda>_ _. Inr []), mv_cloud = (\<lambda>_. True), mv_list_directory = demo_listing gone,
      mv_copy_tasks = (\<lambda>_. Inr []), mv_upload_fatal = (\<lambda>_ _. Inr None), mv_ensure_directory = (\<lambda>_ _ _. None),
      mv_copy_file = (\<lambda>_ _ _. Inr (True, [])), mv_restart_copy = (\<lambda>_ _ _. None), mv_cancel_copy = (\<lambda>_ _ _. None),
      mv_move_file = (\<lambda>_ _ _. Inr (True, [])), mv_delete_files = (\<lambda>_ _. Inr (True, [])),
      mv_read_status = (\<lambda>_ _. None), mv_file_size = (\<lambda>_ _. Some 7), mv_unlink = (\<lambda>_ _. None),
      mv_trigger = (\<lambda>_ _. None)\<rparr>"

definition demo_merge_task :: "merge_state \<Rightarrow> merge_state option \<Rightarrow> merge_task" where
  "demo_merge_task s f =
     \<lparr>mt_id = 0, mt_avid = ''A-1'', mt_source = ''clt'', mt_library_dir = ''lib'', mt_brand = ''A'',
      mt_parts = [''/m/lib/A/A-1-cd1.mp4'', ''/m/lib/A/A-1-cd2.mp4''], mt_merged_name = ''A-1.mp4'',
      mt_state = s, mt_failed_state = f, mt_job_name = Some ''j'', mt_phase = None, mt_progress = None,
      mt_merged_bytes = Some 7, mt_merged_sha1 = Some ''AB'', mt_uploaded_bytes = Some 7, mt_upload_attempts = 1,
      mt_error = None, mt_notice = None, mt_created_at = 0, mt_updated_at = 0, mt_state_changed_at = 0,
      mt_finished_at = None\<rparr>"

definition demo_merge_world :: "merge_task \<Rightarrow> mworld" where
  "demo_merge_world t = \<lparr>mw_table = \<lparr>mr_rows = [t], mr_next = 1\<rparr>, mw_tick = 0, mw_log = []\<rparr>"

lemma demo_alone: "alone (demo_merge n)"
  by (simp add: alone_def demo_merge_def)

section \<open>The table\<close>

lemma reachable_after:
  assumes "alone sv" and "mm.keeps J sv m" and "merge_reachable (mw_table w)"
  shows "merge_reachable (mw_table (snd (m w)))"
  using assms merge_reachable_steps by (auto simp: mm.keeps_def table_moves_def)

definition table_sound :: "merge_table \<Rightarrow> bool" where
  "table_sound tbl \<longleftrightarrow> one_open_per_avid (mr_rows tbl) \<and> one_merging tbl
     \<and> (\<forall>t \<in> set (mr_rows tbl). mt_upload_attempts t \<le> MAX_UPLOAD_ATTEMPTS
          \<and> (mt_state t = MFAILED \<longrightarrow> mt_failed_state t \<in> Some ` ACTIVE_MERGE_STATES))"

lemma reachable_sound:
  assumes "merge_reachable tbl" and "one_merging tbl"
  shows "table_sound tbl"
proof -
  have ok: "merge_ok tbl" using assms(1) by (rule merge_reachable_ok)
  then have "row_fine t" if "t \<in> set (mr_rows tbl)" for t
    using that assms(1) by (blast intro: merge_reachable_fine get_task_in merge_ok_unique)
  with ok assms(2) show ?thesis unfolding table_sound_def merge_ok_def row_fine_def by blast
qed

lemma merge_calls_sound:
  assumes "alone sv" and "merge_reachable (mw_table w)" and "one_merging (mw_table w)"
  shows "table_sound (mw_table (snd (merge_tick sv w)))"
    and "table_sound (mw_table (snd (retry_merge sv k w)))"
    and "table_sound (mw_table (snd (cancel_merge sv k w)))"
proof -
  show "table_sound (mw_table (snd (merge_tick sv w)))"
    by (rule reachable_sound [OF reachable_after [OF assms(1) mm_tick assms(2)] merge_tick_one_merging [OF assms(1,3)]])
  have retry: "mm.keeps (UNIV \<times> {MREPLACING}) sv (retry_merge sv k)" by (rule mm_retry) simp
  show "table_sound (mw_table (snd (retry_merge sv k w)))"
    by (rule reachable_sound [OF reachable_after [OF assms(1) retry assms(2)] one_merging_keeps [OF retry assms(1,3)]])
  have cancel: "mm.keeps (UNIV \<times> {MREPLACING}) sv (cancel_merge sv k)" by (rule mm_cancel)
  show "table_sound (mw_table (snd (cancel_merge sv k w)))"
    by (rule reachable_sound [OF reachable_after [OF assms(1) cancel assms(2)] one_merging_keeps [OF cancel assms(1,3)]])
qed

text \<open>
  C28: In every table the merge service can reach, and after any further poll, retry or
  cancel from it whatever CloudDrive and Kubernetes answer, a title has at most one unfinished
  task, at most one task is merging, no task has more than the allowed upload attempts, and a
  failed task remembers an active state to resume in.\<close>

theorem merge_table_sound:
  assumes "alone sv" and "merge_reachable (mw_table w)" and "one_merging (mw_table w)"
  shows "table_sound (mw_table w) \<and> table_sound (mw_table (snd (merge_tick sv w)))
    \<and> table_sound (mw_table (snd (retry_merge sv k w))) \<and> table_sound (mw_table (snd (cancel_merge sv k w)))"
  using assms by (intro conjI reachable_sound merge_calls_sound)

lemma created_ok:
  "merge_reachable (snd (create_task \<lparr>mr_rows = [], mr_next = i\<rparr> avid source d b parts n now))
   \<and> one_merging (snd (create_task \<lparr>mr_rows = [], mr_next = i\<rparr> avid source d b parts n now))"
proof -
  let ?tbl = "snd (create_task \<lparr>mr_rows = [], mr_next = i\<rparr> avid source d b parts n now)"
  have step: "table_step {} \<lparr>mr_rows = [], mr_next = i\<rparr> ?tbl" by (rule table_step.create)
  then have "merge_reachable ?tbl" by (rule merge_reachable.step [OF merge_reachable.empty])
  moreover have "one_merging ?tbl"
    using table_step_guarded [OF step, of _ MMERGING] by (auto simp: one_merging_def merge_state_at_def get_task_def)
  ultimately show ?thesis ..
qed

lemma logged: "list_ex ((=) e) es \<Longrightarrow> e \<in> set es"
  by (auto simp: list_ex_iff)

definition demo_queued :: merge_table where
  "demo_queued = snd (create_task \<lparr>mr_rows = [], mr_next = 0\<rparr> ''A-1'' ''clt'' ''lib'' ''A''
     [''/m/lib/A/A-1-cd1.mp4'', ''/m/lib/A/A-1-cd2.mp4''] ''A-1.mp4'' 0)"

lemma demo_queued_ok: "merge_reachable demo_queued \<and> one_merging demo_queued"
  unfolding demo_queued_def by (rule created_ok)

theorem merge_table_sound_witness:
  "table_sound (mw_table (snd (merge_tick (demo_merge 0) \<lparr>mw_table = demo_queued, mw_tick = 0, mw_log = []\<rparr>)))"
  using merge_table_sound [OF demo_alone, of "\<lparr>mw_table = demo_queued, mw_tick = 0, mw_log = []\<rparr>" 0 0]
    demo_queued_ok by simp

section \<open>The course of a task\<close>

lemma merge_calls_phase:
  assumes "alone sv" and "merge_reachable (mw_table w)" and "get_task (mw_table w) k = Some r" and "mm.keeps J sv m"
  shows "\<exists>r'. get_task (mw_table (snd (m w))) k = Some r' \<and> phase_step\<^sup>*\<^sup>* (merge_phase r) (merge_phase r')
     \<and> mt_avid r' = mt_avid r \<and> mt_parts r' = mt_parts r"
  using steps_phase [OF _ assms(2,3)] assms(1,4) unfolding mm.keeps_def table_moves_def by blast

text \<open>
  C29: The states of a merge task refine its abstract course: through any poll, retry or cancel
  a task stays stored under its id with its title and parts, and its phase only moves from all
  parts kept, by the swap, to filed, or is dropped. Once the swap has begun no failure, retry or
  loss brings a task back to a phase in which it would merge, upload or verify again.\<close>

theorem merge_refines_phases:
  assumes "alone sv" and "merge_reachable (mw_table w)" and "get_task (mw_table w) k = Some r"
    and "tbl' \<in> {mw_table (snd (merge_tick sv w)), mw_table (snd (retry_merge sv j w)), mw_table (snd (cancel_merge sv j w))}"
  shows "\<exists>r'. get_task tbl' k = Some r' \<and> phase_step\<^sup>*\<^sup>* (merge_phase r) (merge_phase r')
     \<and> mt_avid r' = mt_avid r \<and> mt_parts r' = mt_parts r
     \<and> (merge_phase r \<noteq> Parts_Kept \<longrightarrow> merge_phase r' \<noteq> Parts_Kept)"
proof -
  have "mm.keeps UNIV sv (retry_merge sv j)" "mm.keeps UNIV sv (cancel_merge sv j)" "mm.keeps UNIV sv (merge_tick sv)"
    by (simp_all add: mm_retry mm_cancel mm_tick)
  from this [THEN merge_calls_phase [OF assms(1-3)]] assms(4)
  obtain r' where "get_task tbl' k = Some r'" "phase_step\<^sup>*\<^sup>* (merge_phase r) (merge_phase r')"
     "mt_avid r' = mt_avid r" "mt_parts r' = mt_parts r" by auto
  with swapping_forever show ?thesis by blast
qed

theorem merge_refines_phases_witness:
  "\<exists>r r'. get_task demo_queued 0 = Some r
     \<and> get_task (mw_table (snd (merge_tick (demo_merge 0) \<lparr>mw_table = demo_queued, mw_tick = 0, mw_log = []\<rparr>))) 0 = Some r'
     \<and> phase_step\<^sup>*\<^sup>* (merge_phase r) (merge_phase r')"
proof -
  let ?w = "\<lparr>mw_table = demo_queued, mw_tick = 0, mw_log = []\<rparr>"
  have "get_task demo_queued 0 \<noteq> None"
    by (simp add: demo_queued_def create_task_def one_open_per_avid_def Let_def get_task_def row_of_Cons)
  then obtain r where r: "get_task demo_queued 0 = Some r" by blast
  with merge_refines_phases [OF demo_alone, of ?w 0 r "mw_table (snd (merge_tick (demo_merge 0) ?w))" 0 0]
  show ?thesis using demo_queued_ok by auto
qed

section \<open>The swap\<close>

text \<open>
  C30: A task enters the swap, in which its parts are deleted, only out of verifying, in a poll
  that saw the staged file with the size and the SHA-1 of the merged file and, after that, the
  parts' directory holding no whole copy of the title.\<close>

theorem swap_begins_verified:
  assumes "alone sv" and "mt_state t \<in> ACTIVE_MERGE_STATES"
    and "merge_state_at (mw_table w) (mt_id t) \<noteq> Some MREPLACING"
    and "merge_state_at (mw_table (snd (merge_step sv t w))) (mt_id t) = Some MREPLACING"
  shows "mt_state t = MVERIFYING
    \<and> (\<exists>m p n n'. merge_paths t (mv_settings sv m) = Inr p \<and> verified_at sv t p n n')"
  using assms by (rule step_into_swap)

theorem swap_begins_verified_witness:
  "\<exists>m p n n'. merge_paths (demo_merge_task MVERIFYING None) (mv_settings (demo_merge 0) m) = Inr p
     \<and> verified_at (demo_merge 0) (demo_merge_task MVERIFYING None) p n n'"
proof -
  let ?t = "demo_merge_task MVERIFYING None"
  have "merge_state_at (mw_table (snd (merge_step (demo_merge 0) ?t (demo_merge_world ?t)))) (mt_id ?t) = Some MREPLACING"
    by code_simp
  moreover have "merge_state_at (mw_table (demo_merge_world ?t)) (mt_id ?t) \<noteq> Some MREPLACING" by code_simp
  moreover have "mt_state ?t \<in> ACTIVE_MERGE_STATES" by (simp add: demo_merge_task_def ACTIVE_MERGE_STATES_def)
  ultimately show ?thesis using swap_begins_verified [OF demo_alone] by blast
qed

text \<open>
  C31: A poll deletes or moves anything in CloudDrive only for a task in the swap, and then
  only this: the parts; the staged file into the intake directory once every part was seen gone
  since the poll began; and the staging folder, the local merged file and its leftovers once the
  merged file was seen in the intake directory as well.\<close>

theorem swap_effects_justified:
  assumes "e \<in> set (mw_log (snd (merge_step sv t w)))" and "e \<notin> set (mw_log w)"
  shows "if mt_state t = MREPLACING
         then \<exists>m p. merge_paths t (mv_settings sv m) = Inr p \<and> swap_ok sv t p (mw_tick w) e
         else \<not> deletes_or_moves e"
proof -
  have "m_emits (step_ok sv t (mw_tick w)) w (snd (merge_step sv t w))" by (rule step_emits)
  with assms have "step_ok sv t (mw_tick w) e" by (auto simp: m_emits_def list_all_iff)
  then show ?thesis by (simp add: step_ok_def)
qed

theorem swap_effects_justified_witness:
  "\<exists>m p. merge_paths (demo_merge_task MREPLACING None) (mv_settings (demo_merge 3) m) = Inr p
     \<and> swap_ok (demo_merge 3) (demo_merge_task MREPLACING None) p 0 (Unlink ''/w/A-1.mp4'')"
proof -
  let ?t = "demo_merge_task MREPLACING None"
  have "list_ex ((=) (Unlink ''/w/A-1.mp4'')) (mw_log (snd (merge_step (demo_merge 3) ?t (demo_merge_world ?t))))"
    by code_simp
  then have "Unlink ''/w/A-1.mp4'' \<in> set (mw_log (snd (merge_step (demo_merge 3) ?t (demo_merge_world ?t))))"
    by (rule logged)
  moreover have "Unlink ''/w/A-1.mp4'' \<notin> set (mw_log (demo_merge_world ?t))" "mw_tick (demo_merge_world ?t) = 0"
    by (simp_all add: demo_merge_world_def)
  moreover have "mt_state ?t = MREPLACING" by (simp add: demo_merge_task_def)
  ultimately show ?thesis using swap_effects_justified by metis
qed

section \<open>Cancelling\<close>

text \<open>
  C32: Once the swap has begun, a cancel asks nothing of Kubernetes, CloudDrive or the volume, so
  that neither the merged file nor what is left of the parts is dropped, except for a task that
  failed while archiving and whose directory was seen, since the cancel began, to hold a whole
  copy of the title.\<close>

theorem cancel_keeps_the_only_copy:
  assumes "merge_phase t = Swapping"
    and "e \<in> set (mw_log (snd (cancel_task sv t w)))" and "e \<notin> set (mw_log w)"
  shows "mt_state t = MFAILED \<and> mt_failed_state t = Some MARCHIVING
     \<and> (\<exists>m p. merge_paths t (mv_settings sv m) = Inr p \<and> duplicate_seen sv t p (mw_tick w))"
proof -
  have "mt_failed_state t = Some MARCHIVING
     \<and> (\<exists>m p. merge_paths t (mv_settings sv m) = Inr p \<and> duplicate_seen sv t p (mw_tick w))"
    using cancel_swapping_emits [OF assms(1), of sv w] assms(2,3) by (auto simp: m_emits_def list_all_iff)
  moreover have "mt_state t = MFAILED"
  proof (rule ccontr)
    assume "mt_state t \<noteq> MFAILED"
    with assms(1) have "mt_state t \<notin> CANCELLABLE_STATES"
      by (cases "mt_state t") (simp_all add: merge_phase_def CANCELLABLE_STATES_def)
    with assms(2,3) show False by (simp add: cancel_task_def raise_io_def)
  qed
  ultimately show ?thesis by blast
qed

text \<open>A directory in which the archive has left a whole copy beside the parts.\<close>

definition demo_duplicate :: merge_services where
  "demo_duplicate = (demo_merge 0)\<lparr>mv_list_directory :=
     (\<lambda>n d. if d = ''/lib/A'' then Inr [demo_entry d ''A-001.mp4''] else Inr [])\<rparr>"

definition demo_paths :: merge_paths where
  "demo_paths = (case merge_paths (demo_merge_task MFAILED (Some MARCHIVING)) demo_settings of Inr p \<Rightarrow> p)"

lemma demo_paths: "merge_paths (demo_merge_task MFAILED (Some MARCHIVING)) demo_settings = Inr demo_paths"
  by code_simp

lemma demo_cancel_logged:
  "DeleteCloud [''/in/clt/A-1''] \<in> set (mw_log (snd (cancel_task demo_duplicate (demo_merge_task MFAILED (Some MARCHIVING))
       (demo_merge_world (demo_merge_task MFAILED (Some MARCHIVING))))))"
proof -
  let ?t = "demo_merge_task MFAILED (Some MARCHIVING)"
  let ?w = "(demo_merge_world ?t)\<lparr>mw_tick := 1\<rparr>" and ?d = "discard_duplicate demo_duplicate ?t demo_paths"
  have "fst (?d ?w) = Value () \<and> list_ex ((=) (DeleteCloud [''/in/clt/A-1''])) (mw_log (snd (?d ?w)))"
    by code_simp
  then obtain w' where run: "?d ?w = (Value (), w')" and "DeleteCloud [''/in/clt/A-1''] \<in> set (mw_log w')"
    by (cases "?d ?w") (auto dest: logged)
  then have "DeleteCloud [''/in/clt/A-1''] \<in> set (mw_log (snd (bind_io ?d (\<lambda>_. drop_task demo_duplicate ?t demo_paths) ?w)))"
    by (rule logged_bind) (simp add: me_drop_task)
  moreover have "mt_state ?t = MFAILED \<and> mt_failed_state ?t = Some MARCHIVING" by (simp add: demo_merge_task_def)
  moreover have "m_ask (mv_settings demo_duplicate) (demo_merge_world ?t) = (Value demo_settings, ?w)"
    by (simp add: m_ask_def demo_duplicate_def demo_merge_def demo_merge_world_def)
  ultimately show ?thesis
    by (simp add: cancel_archiving bind_io_run m_value_def demo_paths) (simp add: bind_io_def ret_def)
qed

theorem cancel_keeps_the_only_copy_witness:
  "DeleteCloud [''/in/clt/A-1''] \<in> set (mw_log (snd (cancel_task demo_duplicate (demo_merge_task MFAILED (Some MARCHIVING))
       (demo_merge_world (demo_merge_task MFAILED (Some MARCHIVING))))))
   \<and> (\<exists>m p. merge_paths (demo_merge_task MFAILED (Some MARCHIVING)) (mv_settings demo_duplicate m) = Inr p
        \<and> duplicate_seen demo_duplicate (demo_merge_task MFAILED (Some MARCHIVING)) p 0)"
proof -
  let ?t = "demo_merge_task MFAILED (Some MARCHIVING)"
  have mem: "DeleteCloud [''/in/clt/A-1''] \<in> set (mw_log (snd (cancel_task demo_duplicate ?t (demo_merge_world ?t))))"
    by (rule demo_cancel_logged)
  have "merge_phase ?t = Swapping" by code_simp
  moreover have "DeleteCloud [''/in/clt/A-1''] \<notin> set (mw_log (demo_merge_world ?t))" by (simp add: demo_merge_world_def)
  moreover have "mw_tick (demo_merge_world ?t) = 0" by (simp add: demo_merge_world_def)
  ultimately show ?thesis using cancel_keeps_the_only_copy [OF _ mem] mem by metis
qed

end
