(* ===== verification/Merge_Auto.thy ===== *)
theory Merge_Auto
  imports Merge_Props
begin

text \<open>
  Queueing merges: the request of the API (\<^verbatim>\<open>enqueue\<close>, \<^verbatim>\<open>current_title\<close> and the scan cache
  of \<^verbatim>\<open>merge/api.py\<close>) and the automatic merger of \<^verbatim>\<open>merge/auto.py\<close>, which queues the next
  title by itself. Its private state is passed along explicitly. The walk of the mapping tree,
  the lines of the strm files, the ledger's offline directories and the free space are answers
  of the outside, which may differ at every tick; a failing walk is not modelled, and a
  round reads the configuration once where the code reads it anew in each part.
\<close>

section \<open>State and answers\<close>

record skipped_title =
  sk_avid :: string
  sk_size :: "int option"
  sk_reason :: string

datatype auto_mode = AUTO_OFF | AUTO_UNAVAILABLE | AUTO_BUSY | AUTO_PAUSED | AUTO_IDLE

record auto_status =
  as_mode :: auto_mode
  as_room :: "int option"
  as_skipped :: "skipped_title list"
  as_skipped_count :: nat

record auto_state =
  az_key :: "(string \<times> string) option"
  az_titles :: "multipart_title list"
  az_scanned_at :: "datetime option"
  az_sizes :: "string list \<Rightarrow> int option"
  az_refused :: "string \<Rightarrow> skipped_title option"
  az_refused_scan :: "datetime option"
  az_status :: auto_status

record auto_services =
  av_merge :: merge_services
  av_walk :: "nat \<Rightarrow> string \<Rightarrow> (string \<times> string list) list"
  av_strm :: "nat \<Rightarrow> string \<Rightarrow> string option"
  av_task_dir :: "nat \<Rightarrow> string \<Rightarrow> string option"
  av_free :: "nat \<Rightarrow> string \<Rightarrow> int"
  av_cached_listing :: "nat \<Rightarrow> string \<Rightarrow> merge_exn + cloud_entry list"

definition GIB :: int where "GIB = 2 ^ 30"

definition RESCAN_INTERVAL :: timedelta where "RESCAN_INTERVAL = hours 24"

definition SKIPPED_SHOWN :: nat where "SKIPPED_SHOWN = 20"

section \<open>The scan cache\<close>

definition scan_io :: "auto_services \<Rightarrow> string \<Rightarrow> string \<Rightarrow> multipart_title list mio" where
  "scan_io av root library_root =
     m_ask (\<lambda>n. scan_multipart (av_walk av n root) (av_strm av n) root library_root)"

definition rescan_titles ::
  "auto_services \<Rightarrow> auto_state \<Rightarrow> string \<Rightarrow> string \<Rightarrow> (multipart_title list \<times> datetime \<times> auto_state) mio" where
  "rescan_titles av st root library_root =
     bind_io (scan_io av root library_root) (\<lambda>titles.
     bind_io (m_now (av_merge av)) (\<lambda>scanned_at.
       ret (titles, scanned_at,
            st\<lparr>az_titles := titles, az_key := Some (root, library_root), az_scanned_at := Some scanned_at\<rparr>)))"

definition cache_titles ::
  "auto_services \<Rightarrow> auto_state \<Rightarrow> string \<Rightarrow> string \<Rightarrow> bool
     \<Rightarrow> (multipart_title list \<times> datetime \<times> auto_state) mio" where
  "cache_titles av st root library_root refresh =
     bind_io (m_now (av_merge av)) (\<lambda>requested_at.
       case az_scanned_at st of
         Some scanned_at \<Rightarrow>
           (if az_key st = Some (root, library_root) \<and> \<not> (refresh \<and> scanned_at < requested_at)
            then ret (az_titles st, scanned_at, st)
            else rescan_titles av st root library_root)
       | None \<Rightarrow> rescan_titles av st root library_root)"

text \<open>\<^verbatim>\<open>_titles\<close> of the automatic merger: scanned again when a title was filed since.\<close>

definition auto_titles ::
  "auto_services \<Rightarrow> auto_state \<Rightarrow> merge_settings \<Rightarrow> ((multipart_title list \<times> datetime) option \<times> auto_state) mio" where
  "auto_titles av st ms =
     (if ms_mapping_dst_dir ms = [] \<or> ms_archive_dst_dir ms = [] then ret (None, st)
      else
        bind_io (cache_titles av st (ms_mapping_dst_dir ms) (ms_archive_dst_dir ms) False) (\<lambda>(titles, scanned_at, st1).
        bind_io (m_read (av_merge av) last_done_at) (\<lambda>last_done.
        bind_io (m_now (av_merge av)) (\<lambda>now.
          if RESCAN_INTERVAL < now - scanned_at
               \<or> (case last_done of None \<Rightarrow> False | Some d \<Rightarrow> scanned_at < d)
          then bind_io (cache_titles av st1 (ms_mapping_dst_dir ms) (ms_archive_dst_dir ms) True)
                 (\<lambda>(titles', scanned_at', st2). ret (Some (titles', scanned_at'), st2))
          else ret (Some (titles, scanned_at), st1)))))"

section \<open>Queueing one title\<close>

definition MUXER_SUFFIXES :: "string set" where
  "MUXER_SUFFIXES = {''.mp4'', ''.m4v'', ''.mov'', ''.mkv'', ''.ts'', ''.avi'', ''.wmv''}"

definition title_matches :: "string \<Rightarrow> multipart_title \<Rightarrow> bool" where
  "title_matches avid t \<longleftrightarrow> upper (ti_avid t) = upper (strip avid)"

text \<open>\<^verbatim>\<open>current_title\<close>: found through the last scan or a fresh one, then read again alone.\<close>

definition find_title ::
  "auto_services \<Rightarrow> auto_state \<Rightarrow> string \<Rightarrow> string \<Rightarrow> string \<Rightarrow> (multipart_title option \<times> auto_state) mio" where
  "find_title av st root lib avid =
     bind_io (cache_titles av st root lib False) (\<lambda>(titles, _, st1).
       case find (title_matches avid) titles of
         Some f \<Rightarrow> ret (Some f, st1)
       | None \<Rightarrow> bind_io (cache_titles av st1 root lib True)
                   (\<lambda>(titles', _, st2). ret (find (title_matches avid) titles', st2)))"

definition reread_title ::
  "auto_services \<Rightarrow> string \<Rightarrow> string \<Rightarrow> string \<Rightarrow> multipart_title option \<times> auto_state
     \<Rightarrow> (multipart_title option \<times> auto_state) mio" where
  "reread_title av root lib avid found =
     (case fst found of
        None \<Rightarrow> ret (None, snd found)
      | Some f \<Rightarrow>
          bind_io (scan_io av (path_join root (ti_directory f)) lib) (\<lambda>rescanned.
            ret (find (title_matches avid) rescanned, snd found)))"

definition current_title ::
  "auto_services \<Rightarrow> auto_state \<Rightarrow> string \<Rightarrow> (multipart_title option \<times> auto_state) mio" where
  "current_title av st avid =
     bind_io (m_ask (mv_settings (av_merge av))) (\<lambda>ms.
       let root = ms_mapping_dst_dir ms; lib = ms_archive_dst_dir ms
       in if root = [] \<or> lib = [] then ret (None, st)
          else bind_io (find_title av st root lib avid) (reread_title av root lib avid))"

text \<open>The API's refusals carry their codes; the request may name the route to re-enter through.\<close>

definition enqueue_title ::
  "auto_services \<Rightarrow> archive_routes \<Rightarrow> multipart_title option \<Rightarrow> string option \<Rightarrow> merge_task mio" where
  "enqueue_title av archive found requested =
     (case found of
        None \<Rightarrow> raise_io (ActionRefused ''merge_title_not_found'')
      | Some title \<Rightarrow>
          (if \<not> title_complete title \<or> ti_library_dir title = None \<or> ti_brand title = None
           then raise_io (ActionRefused ''merge_title_incomplete'')
           else
             let suffixes = map (\<lambda>pt. lower (path_suffix (pt_target pt))) (ti_parts title)
             in if (\<exists>x \<in> set suffixes. x \<noteq> hd suffixes) \<or> hd suffixes \<notin> MUXER_SUFFIXES
                then raise_io (ActionRefused ''merge_container_unsupported'')
                else
                  bind_io (case requested of
                             Some source \<Rightarrow> ret (Some source)
                           | None \<Rightarrow>
                               bind_io (m_ask (\<lambda>n. av_task_dir av n (ti_avid title))) (\<lambda>d.
                                 ret (map_option fst (resolve_source archive title d)))) (\<lambda>source.
                    case source of
                      None \<Rightarrow> raise_io (ActionRefused ''merge_source_required'')
                    | Some src \<Rightarrow>
                        (if src \<notin> set (route_sources archive)
                         then raise_io (ActionRefused ''merge_source_unknown'')
                         else
                           bind_io (m_now (av_merge av)) (\<lambda>now.
                           bind_io
                             (m_db (av_merge av) (\<lambda>tbl.
                                create_task tbl (ti_avid title) src (the (ti_library_dir title)) (the (ti_brand title))
                                  (map pt_target (ti_parts title)) (ti_avid title @ hd suffixes) now)) (\<lambda>created.
                             case created of
                               None \<Rightarrow> raise_io (ActionRefused ''merge_task_exists'')
                             | Some t \<Rightarrow> ret t))))))"

section \<open>The automatic merger\<close>

definition eligible :: "multipart_title \<Rightarrow> merge_settings \<Rightarrow> string set \<Rightarrow> bool" where
  "eligible title ms settled \<longleftrightarrow>
     title_complete title \<and> ti_avid title \<notin> settled
       \<and> (ms_auto_include_stackable ms \<or> MAX_STACKED_PARTS < part_count title)"

definition blocked :: "merge_services \<Rightarrow> merge_settings \<Rightarrow> merge_task list \<Rightarrow> auto_mode option" where
  "blocked sv ms tasks =
     (let failed = filter (\<lambda>t. mt_state t = MFAILED) tasks
      in if \<not> ms_auto_enabled ms then Some AUTO_OFF
         else if unavailable sv ms \<noteq> None then Some AUTO_UNAVAILABLE
         else if failed \<noteq> [] \<and> ms_auto_pause_on_failure ms then Some AUTO_PAUSED
         else if length failed < length tasks then Some AUTO_BUSY
         else None)"

definition part_targets :: "multipart_title \<Rightarrow> string list" where
  "part_targets title = map pt_target (ti_parts title)"

text \<open>The parts' total size as a cached listing has it, or why it is unknown.\<close>

definition title_size ::
  "auto_services \<Rightarrow> auto_state \<Rightarrow> multipart_title \<Rightarrow> merge_settings
     \<Rightarrow> ((int option \<times> string option) \<times> auto_state) mio" where
  "title_size av st title ms =
     (let targets = part_targets title
      in case az_sizes st targets of
           Some bytes \<Rightarrow> ret ((Some bytes, None), st)
         | None \<Rightarrow>
             bind_io (m_ask (mv_cloud (av_merge av))) (\<lambda>there.
               if \<not> there then ret ((None, Some ''size_unknown''), st)
               else
                 bind_io
                   (catch_io
                     (bind_io (m_value (merge_api_path (path_parent (hd targets)) (ms_cloud_mount_prefix ms))) (\<lambda>d.
                      bind_io (m_query (\<lambda>n. av_cached_listing av n d)) (\<lambda>entries. ret (Some entries))))
                     (\<lambda>_. ret None)) (\<lambda>listing.
                   case listing of
                     None \<Rightarrow> ret ((None, Some ''size_unknown''), st)
                   | Some entries \<Rightarrow>
                       (let sizes = map_of (rev (map (\<lambda>e. (ce_name e, ce_size e))
                                      (filter (\<lambda>e. \<not> ce_is_directory e) entries)));
                            found = map (\<lambda>f. sizes (path_name f)) targets
                        in if None \<in> set found then ret ((None, Some ''parts_missing''), st)
                           else
                             let bytes = sum_list (map the found)
                             in ret ((Some bytes, None), st\<lparr>az_sizes := (az_sizes st)(targets \<mapsto> bytes)\<rparr>)))))"

text \<open>The last look, asked afresh: every part is there and no whole copy is.\<close>

definition unlisted_reason :: "auto_services \<Rightarrow> multipart_title \<Rightarrow> merge_settings \<Rightarrow> string option mio" where
  "unlisted_reason av title ms =
     bind_io (m_ask (mv_cloud (av_merge av))) (\<lambda>there.
       if \<not> there then ret (Some ''size_unknown'')
       else
         bind_io
           (catch_io
             (bind_io (m_value (merge_api_path (path_parent (hd (part_targets title))) (ms_cloud_mount_prefix ms))) (\<lambda>d.
              bind_io (m_list (av_merge av) d) (\<lambda>entries. ret (Some entries))))
             (\<lambda>_. ret None)) (\<lambda>listing.
           ret (case listing of
                  None \<Rightarrow> Some ''size_unknown''
                | Some entries \<Rightarrow>
                    (let names = map ce_name (filter (\<lambda>e. \<not> ce_is_directory e) entries)
                     in if \<not> list_all (\<lambda>f. path_name f \<in> set names) (part_targets title)
                        then Some ''parts_missing''
                        else if whole_copies (ti_avid title) names \<noteq> [] then Some ''whole_copy''
                        else None))))"

datatype try_outcome = Queued | Skip skipped_title

text \<open>A title refused for what a fresh listing shows: the size is read anew next time.\<close>

definition refuse_unlisted :: "auto_state \<Rightarrow> multipart_title \<Rightarrow> string \<Rightarrow> try_outcome \<times> auto_state" where
  "refuse_unlisted st title why =
     (let refused = \<lparr>sk_avid = ti_avid title, sk_size = None, sk_reason = why\<rparr>;
          st2 = st\<lparr>az_sizes := (az_sizes st)(part_targets title := None)\<rparr>
      in (Skip refused,
          if why = ''whole_copy'' then st2\<lparr>az_refused := (az_refused st2)(ti_avid title \<mapsto> refused)\<rparr> else st2))"

definition queue_found ::
  "auto_services \<Rightarrow> archive_routes \<Rightarrow> multipart_title \<Rightarrow> int option \<Rightarrow> multipart_title option \<times> auto_state
     \<Rightarrow> (try_outcome \<times> auto_state) mio" where
  "queue_found av archive title bytes found =
     bind_io
       (catch_io (bind_io (enqueue_title av archive (fst found) None) (\<lambda>_. ret None))
         (\<lambda>e. case e of ActionRefused code \<Rightarrow> ret (Some code) | _ \<Rightarrow> raise_io e)) (\<lambda>refusal.
       case refusal of
         Some code \<Rightarrow>
           (let refused = \<lparr>sk_avid = ti_avid title, sk_size = bytes, sk_reason = code\<rparr>
            in ret (Skip refused, (snd found)\<lparr>az_refused := (az_refused (snd found))(ti_avid title \<mapsto> refused)\<rparr>))
       | None \<Rightarrow> bind_io (m_act Wake (\<lambda>_. ())) (\<lambda>_. ret (Queued, snd found)))"

definition queue_current ::
  "auto_services \<Rightarrow> auto_state \<Rightarrow> multipart_title \<Rightarrow> int option \<Rightarrow> (try_outcome \<times> auto_state) mio" where
  "queue_current av st title bytes =
     bind_io (m_ask (mv_settings (av_merge av))) (\<lambda>ms.
     bind_io (current_title av st (ti_avid title)) (queue_found av (ms_archive ms) title bytes))"

definition queue_sized ::
  "auto_services \<Rightarrow> multipart_title \<Rightarrow> merge_settings \<Rightarrow> int \<Rightarrow> (int option \<times> string option) \<times> auto_state
     \<Rightarrow> (try_outcome \<times> auto_state) mio" where
  "queue_sized av title ms room sized =
     (case sized of
        ((bytes, reason), st1) \<Rightarrow>
          (if (case bytes of None \<Rightarrow> True | Some n \<Rightarrow> room < n) then
             ret (Skip \<lparr>sk_avid = ti_avid title, sk_size = bytes,
                        sk_reason = (case reason of Some (c # cs) \<Rightarrow> c # cs | _ \<Rightarrow> ''too_big'')\<rparr>, st1)
           else
             bind_io (unlisted_reason av title ms) (\<lambda>unlisted.
               case unlisted of
                 Some why \<Rightarrow> ret (refuse_unlisted st1 title why)
               | None \<Rightarrow> queue_current av st1 title bytes)))"

definition try_queue ::
  "auto_services \<Rightarrow> auto_state \<Rightarrow> multipart_title \<Rightarrow> merge_settings \<Rightarrow> int \<Rightarrow> (try_outcome \<times> auto_state) mio" where
  "try_queue av st title ms room =
     (case az_refused st (ti_avid title) of
        Some r \<Rightarrow> ret (Skip r, st)
      | None \<Rightarrow> bind_io (title_size av st title ms) (queue_sized av title ms room))"

fun try_titles ::
  "auto_services \<Rightarrow> merge_settings \<Rightarrow> int \<Rightarrow> string set \<Rightarrow> string set \<Rightarrow> skipped_title list \<Rightarrow> multipart_title list
     \<Rightarrow> auto_state \<Rightarrow> (bool \<times> skipped_title list \<times> auto_state) mio" where
  "try_titles av ms room settled failed skipped [] st = ret (False, skipped, st)"
| "try_titles av ms room settled failed skipped (title # titles) st =
     (if \<not> eligible title ms settled then try_titles av ms room settled failed skipped titles st
      else if ti_avid title \<in> failed then
        try_titles av ms room settled failed
          (skipped @ [\<lparr>sk_avid = ti_avid title, sk_size = None, sk_reason = ''failed''\<rparr>]) titles st
      else
        bind_io (try_queue av st title ms room) (\<lambda>(outcome, st1).
          case outcome of
            Queued \<Rightarrow> ret (True, skipped, st1)
          | Skip r \<Rightarrow> try_titles av ms room settled failed (skipped @ [r]) titles st1))"

definition bare_status :: "auto_mode \<Rightarrow> auto_status" where
  "bare_status m = \<lparr>as_mode = m, as_room = None, as_skipped = [], as_skipped_count = 0\<rparr>"

definition auto_report :: "auto_mode \<Rightarrow> int \<Rightarrow> skipped_title list \<Rightarrow> auto_status" where
  "auto_report m room skipped =
     \<lparr>as_mode = m, as_room = Some (max room 0), as_skipped = take SKIPPED_SHOWN skipped,
      as_skipped_count = length skipped\<rparr>"

text \<open>The round after its decision that nothing is under way.\<close>

definition auto_round ::
  "auto_services \<Rightarrow> merge_settings \<Rightarrow> merge_task list \<Rightarrow> multipart_title list \<Rightarrow> auto_state \<Rightarrow> auto_state mio" where
  "auto_round av ms tasks titles st =
     bind_io (m_ask (\<lambda>n. av_free av n (ms_work_dir ms))) (\<lambda>free.
     bind_io (m_read (av_merge av) cancelled_avids) (\<lambda>cancelled.
     bind_io (m_read (av_merge av) merged_avids) (\<lambda>merged.
       let room = free - int (ms_reserve_gib ms) * GIB;
           failed = mt_avid ` set (filter (\<lambda>t. mt_state t = MFAILED) tasks)
       in bind_io (try_titles av ms room (cancelled \<union> merged) failed [] titles st)
            (\<lambda>(queued, skipped, st3).
              ret (st3\<lparr>az_status := auto_report (if queued then AUTO_BUSY else AUTO_IDLE) room skipped\<rparr>)))))"

text \<open>The titles a scan found, with what was refused since an older one forgotten.\<close>

definition auto_scanned ::
  "auto_services \<Rightarrow> merge_settings \<Rightarrow> merge_task list \<Rightarrow> (multipart_title list \<times> datetime) option \<times> auto_state
     \<Rightarrow> auto_state mio" where
  "auto_scanned av ms tasks r =
     (case r of
        (None, st1) \<Rightarrow> ret (st1\<lparr>az_status := bare_status AUTO_UNAVAILABLE\<rparr>)
      | (Some (titles, scanned_at), st1) \<Rightarrow>
          (let st2 = (if Some scanned_at \<noteq> az_refused_scan st1
                      then st1\<lparr>az_refused := Map.empty, az_refused_scan := Some scanned_at\<rparr> else st1)
           in auto_round av ms tasks titles st2))"

definition auto_step :: "auto_services \<Rightarrow> auto_state \<Rightarrow> auto_state mio" where
  "auto_step av st =
     bind_io (m_ask (mv_settings (av_merge av))) (\<lambda>ms.
     bind_io (m_read (av_merge av) open_tasks) (\<lambda>tasks.
       case blocked (av_merge av) ms tasks of
         Some m \<Rightarrow> ret (st\<lparr>az_status := bare_status m\<rparr>)
       | None \<Rightarrow> bind_io (auto_titles av st ms) (auto_scanned av ms tasks)))"

section \<open>What a queued title has been seen to be\<close>

definition parts_alone_at :: "auto_services \<Rightarrow> nat \<Rightarrow> multipart_title \<Rightarrow> merge_settings \<Rightarrow> bool" where
  "parts_alone_at av n title ms \<longleftrightarrow>
     (\<exists>d entries. merge_api_path (path_parent (hd (part_targets title))) (ms_cloud_mount_prefix ms) = Inr d
        \<and> mv_list_directory (av_merge av) n d = Inr entries
        \<and> (let names = map ce_name (filter (\<lambda>e. \<not> ce_is_directory e) entries)
           in list_all (\<lambda>f. path_name f \<in> set names) (part_targets title)
                \<and> whole_copies (ti_avid title) names = []))"

lemma unlisted_none:
  "unlisted_reason av title ms w = (Value None, w') \<Longrightarrow> \<exists>n. parts_alone_at av n title ms"
  unfolding unlisted_reason_def parts_alone_at_def
  by (auto simp: bind_io_def m_ask_def catch_io_def m_value_def m_list_def m_query_def ret_def raise_io_def Let_def
      split: sum.splits if_splits)

text \<open>The total size of files, as a listing from the cache has it.\<close>

definition listed_bytes :: "auto_services \<Rightarrow> merge_settings \<Rightarrow> string list \<Rightarrow> int \<Rightarrow> bool" where
  "listed_bytes av ms files bytes \<longleftrightarrow>
     (\<exists>n d entries. merge_api_path (path_parent (hd files)) (ms_cloud_mount_prefix ms) = Inr d
        \<and> av_cached_listing av n d = Inr entries
        \<and> (let sizes = map_of (rev (map (\<lambda>e. (ce_name e, ce_size e)) (filter (\<lambda>e. \<not> ce_is_directory e) entries)));
               found = map (\<lambda>f. sizes (path_name f)) files
           in None \<notin> set found \<and> bytes = sum_list (map the found)))"

text \<open>The sizes a round knows: remembered from before, or listed.\<close>

definition sizes_known :: "auto_services \<Rightarrow> merge_settings \<Rightarrow> auto_state \<Rightarrow> auto_state \<Rightarrow> bool" where
  "sizes_known av ms st0 st \<longleftrightarrow>
     (\<forall>files bytes. az_sizes st files = Some bytes \<longrightarrow> az_sizes st0 files = Some bytes \<or> listed_bytes av ms files bytes)"

lemma sizes_known_refl: "sizes_known av ms st st"
  by (simp add: sizes_known_def)

lemma sizes_known_trans: "sizes_known av ms st0 st1 \<Longrightarrow> sizes_known av ms st1 st2 \<Longrightarrow> sizes_known av ms st0 st2"
  unfolding sizes_known_def by metis

lemma sizes_known_same: "az_sizes st = az_sizes st0 \<Longrightarrow> sizes_known av ms st0 st"
  by (simp add: sizes_known_def)

lemma title_size_value:
  assumes "title_size av st title ms w = (Value ((bytes, reason), st1), w')"
  shows "sizes_known av ms st st1
    \<and> (\<forall>b. bytes = Some b \<longrightarrow> az_sizes st (part_targets title) = Some b \<or> listed_bytes av ms (part_targets title) b)"
proof (cases "az_sizes st (part_targets title)")
  case (Some b)
  with assms show ?thesis by (simp add: title_size_def ret_def sizes_known_refl)
next
  case None
  show ?thesis
  proof (cases "st1 = st \<and> bytes = None")
    case True
    then show ?thesis by (simp add: sizes_known_refl)
  next
    case False
    then obtain n d entries b where
        "merge_api_path (path_parent (hd (part_targets title))) (ms_cloud_mount_prefix ms) = Inr d"
        "av_cached_listing av n d = Inr entries" "bytes = Some b"
        "let sizes = map_of (rev (map (\<lambda>e. (ce_name e, ce_size e)) (filter (\<lambda>e. \<not> ce_is_directory e) entries)));
             found = map (\<lambda>f. sizes (path_name f)) (part_targets title)
         in None \<notin> set found \<and> b = sum_list (map the found)"
      and st1: "st1 = st\<lparr>az_sizes := (az_sizes st)(part_targets title \<mapsto> b)\<rparr>"
      using assms None
      by (auto simp: title_size_def Let_def bind_io_def m_ask_def catch_io_def m_value_def m_query_def ret_def raise_io_def
          split: sum.splits if_splits)
    then have "listed_bytes av ms (part_targets title) b" unfolding listed_bytes_def by blast
    with \<open>bytes = Some b\<close> st1 show ?thesis by (auto simp: sizes_known_def)
  qed
qed

text \<open>A title some scan of the mapping tree found, and one of the scans a round starts with.\<close>

definition scan_found :: "auto_services \<Rightarrow> multipart_title \<Rightarrow> bool" where
  "scan_found av title \<longleftrightarrow> (\<exists>n root lib. title \<in> set (scan_multipart (av_walk av n root) (av_strm av n) root lib))"

lemma scan_io_value: "scan_io av root lib w = (Value titles, w') \<Longrightarrow> title \<in> set titles \<Longrightarrow> scan_found av title"
  by (auto simp: scan_io_def m_ask_def scan_found_def)

lemma rescan_value:
  "rescan_titles av st root lib w = (Value (titles, sc, st'), w') \<Longrightarrow>
     (\<forall>title \<in> set titles. scan_found av title) \<and> az_titles st' = titles \<and> az_sizes st' = az_sizes st"
  by (auto simp: rescan_titles_def bind_io_Value_iff ret_def dest: scan_io_value)

definition known_title :: "auto_services \<Rightarrow> auto_state \<Rightarrow> multipart_title \<Rightarrow> bool" where
  "known_title av st title \<longleftrightarrow> title \<in> set (az_titles st) \<or> scan_found av title"

text \<open>A state whose scan and sizes come from another's, or from the outside since.\<close>

definition derived :: "auto_services \<Rightarrow> merge_settings \<Rightarrow> auto_state \<Rightarrow> auto_state \<Rightarrow> bool" where
  "derived av ms st0 st \<longleftrightarrow> sizes_known av ms st0 st \<and> (\<forall>title. known_title av st title \<longrightarrow> known_title av st0 title)"

lemma derived_refl: "derived av ms st st"
  by (simp add: derived_def sizes_known_refl)

lemma derived_trans: "derived av ms st0 st1 \<Longrightarrow> derived av ms st1 st2 \<Longrightarrow> derived av ms st0 st2"
  unfolding derived_def using sizes_known_trans by blast

lemma cache_titles_value:
  assumes "cache_titles av st root lib refresh w = (Value (titles, sc, st'), w')"
  shows "(\<forall>title \<in> set titles. known_title av st title) \<and> derived av ms st st'"
  using assms
  by (auto simp: cache_titles_def bind_io_Value_iff ret_def known_title_def derived_def
      dest!: rescan_value intro: sizes_known_same sizes_known_refl split: option.splits if_splits)

lemma auto_titles_value:
  assumes "auto_titles av st ms w = (Value (scanned, st'), w')"
  shows "derived av ms' st st' \<and> (\<forall>titles sc. scanned = Some (titles, sc) \<longrightarrow> (\<forall>title \<in> set titles. known_title av st title))"
proof (cases "ms_mapping_dst_dir ms = [] \<or> ms_archive_dst_dir ms = []")
  case True
  with assms show ?thesis by (auto simp: auto_titles_def ret_def derived_refl)
next
  case False
  then obtain titles sc st1 w1 w2 where
      first: "cache_titles av st (ms_mapping_dst_dir ms) (ms_archive_dst_dir ms) False w = (Value (titles, sc, st1), w1)"
      and rest: "(scanned, st') = (Some (titles, sc), st1)
        \<or> (\<exists>titles' sc' w3. cache_titles av st1 (ms_mapping_dst_dir ms) (ms_archive_dst_dir ms) True w2
              = (Value (titles', sc', st'), w3) \<and> scanned = Some (titles', sc'))"
    using assms by (auto simp: auto_titles_def bind_io_Value_iff ret_def split: if_splits option.splits) blast+
  note one = cache_titles_value [OF first, of ms']
  from rest show ?thesis
  proof (elim disjE exE conjE)
    assume "(scanned, st') = (Some (titles, sc), st1)"
    with one show ?thesis by auto
  next
    fix titles' sc' w3
    assume again: "cache_titles av st1 (ms_mapping_dst_dir ms) (ms_archive_dst_dir ms) True w2 = (Value (titles', sc', st'), w3)"
      and "scanned = Some (titles', sc')"
    with one cache_titles_value [OF again, of ms'] show ?thesis by (auto simp: derived_def intro: sizes_known_trans)
  qed
qed

text \<open>Looking for a title: in the last scan or a fresh one, then in a scan of its directory alone.\<close>

lemma find_title_derived:
  assumes "find_title av st root lib avid w = (Value r, w')"
  shows "derived av ms st (snd r)"
proof -
  obtain x w1 where x: "cache_titles av st root lib False w = (Value x, w1)"
      and after: "(case x of (titles, _, st1) \<Rightarrow> case find (title_matches avid) titles of
         Some f \<Rightarrow> ret (Some f, st1)
       | None \<Rightarrow> bind_io (cache_titles av st1 root lib True)
                   (\<lambda>(titles', _, st2). ret (find (title_matches avid) titles', st2))) w1 = (Value r, w')"
    using iffD1 [OF bind_io_Value_iff assms [unfolded find_title_def]] by blast
  obtain titles sc st1 where xs: "x = (titles, sc, st1)" by (cases x)
  note first = x [unfolded xs] and rest = after [unfolded xs case_prod_conv]
  have "derived av ms st1 (snd r)"
    using rest by (cases "find (title_matches avid) titles")
      (auto simp: ret_def bind_io_Value_iff derived_refl dest: cache_titles_value)
  then show ?thesis using cache_titles_value [OF first] derived_trans by blast
qed

lemma reread_title_value:
  assumes "reread_title av root lib avid found w = (Value (cur, st'), w')"
  shows "st' = snd found \<and> (\<forall>c. cur = Some c \<longrightarrow> title_matches avid c \<and> scan_found av c)"
  using assms
  by (cases "fst found") (auto simp: reread_title_def ret_def bind_io_Value_iff dest!: found_in intro: scan_io_value)

lemma current_title_value:
  assumes "current_title av st avid w = (Value (found, st'), w')"
  shows "derived av ms st st' \<and> (\<forall>cur. found = Some cur \<longrightarrow> title_matches avid cur \<and> scan_found av cur)"
proof -
  obtain ms' :: merge_settings and w0 where run: "(if ms_mapping_dst_dir ms' = [] \<or> ms_archive_dst_dir ms' = [] then ret (None, st)
      else bind_io (find_title av st (ms_mapping_dst_dir ms') (ms_archive_dst_dir ms') avid)
             (reread_title av (ms_mapping_dst_dir ms') (ms_archive_dst_dir ms') avid)) w0 = (Value (found, st'), w')"
    using iffD1 [OF bind_io_Value_iff assms [unfolded current_title_def Let_def]] by blast
  show ?thesis
  proof (cases "ms_mapping_dst_dir ms' = [] \<or> ms_archive_dst_dir ms' = []")
    case True
    with run show ?thesis by (auto simp: ret_def derived_refl)
  next
    case False
    then have both: "bind_io (find_title av st (ms_mapping_dst_dir ms') (ms_archive_dst_dir ms') avid)
        (reread_title av (ms_mapping_dst_dir ms') (ms_archive_dst_dir ms') avid) w0 = (Value (found, st'), w')"
      using run by simp
    obtain r w1 where r: "find_title av st (ms_mapping_dst_dir ms') (ms_archive_dst_dir ms') avid w0 = (Value r, w1)"
        and again: "reread_title av (ms_mapping_dst_dir ms') (ms_archive_dst_dir ms') avid r w1 = (Value (found, st'), w')"
      using iffD1 [OF bind_io_Value_iff both] by blast
    show ?thesis using find_title_derived [OF r, of ms] reread_title_value [OF again] by simp
  qed
qed

section \<open>What a round adds to the table\<close>

text \<open>A row another process writes.\<close>

definition foreign :: "merge_services \<Rightarrow> merge_task \<Rightarrow> bool" where
  "foreign sv t \<longleftrightarrow> (\<exists>n tbl. t \<in> set (mr_rows (mv_others sv n tbl)) \<and> t \<notin> set (mr_rows tbl))"

definition adds_only :: "merge_services \<Rightarrow> (merge_task \<Rightarrow> bool) \<Rightarrow> mworld \<Rightarrow> mworld \<Rightarrow> bool" where
  "adds_only sv P w w' \<longleftrightarrow>
     (\<forall>t \<in> set (mr_rows (mw_table w')). t \<in> set (mr_rows (mw_table w)) \<or> foreign sv t \<or> P t)"

interpretation ma: io_relation "adds_only sv P" for sv P
  by unfold_locales (auto simp: adds_only_def)

lemma ma_ask: "ma.keeps sv P (m_ask q)" "ma.keeps sv P (m_act e q')"
  by (simp_all add: ma.keeps_def adds_only_def m_ask_def m_act_def)

lemma ma_read: "ma.keeps sv P (m_read sv f)"
  by (auto simp: ma.keeps_def adds_only_def m_read_def m_db_def foreign_def)

lemma ma_value: "ma.keeps sv P (m_value r)"
  unfolding m_value_def by (intro ma.keeps_flow)

lemma ma_query: "ma.keeps sv P (m_query q)"
  unfolding m_query_def by (intro ma.keeps_flow ma_ask ma_value)

lemma ma_list: "ma.keeps sv P (m_list sv' d)" "ma.keeps sv P (m_now sv')"
  unfolding m_list_def m_now_def by (intro ma_query ma_ask)+

lemmas ma_calls = ma.keeps_flow ma_ask ma_read ma_value ma_query ma_list

lemma ma_scan: "ma.keeps sv P (scan_io av a b)" "ma.keeps sv P (rescan_titles av st a b)" "ma.keeps sv P (cache_titles av st a b r)"
  unfolding cache_titles_def rescan_titles_def scan_io_def by (intro ma_calls)+

lemma ma_looks: "ma.keeps sv P (title_size av st title ms)" "ma.keeps sv P (unlisted_reason av title ms)"
  "ma.keeps sv P (current_title av st avid)" "ma.keeps (av_merge av) P (auto_titles av st ms)"
  unfolding title_size_def unlisted_reason_def current_title_def find_title_def reread_title_def auto_titles_def
  by (intro ma_calls ma_scan)+

text \<open>The row a title is queued as.\<close>

definition queued_as :: "multipart_title \<Rightarrow> merge_task \<Rightarrow> bool" where
  "queued_as cur t \<longleftrightarrow>
     title_complete cur \<and> mt_state t = MQUEUED \<and> mt_avid t = ti_avid cur \<and> mt_parts t = part_targets cur
     \<and> ti_library_dir cur = Some (mt_library_dir t) \<and> ti_brand cur = Some (mt_brand t)"

lemma ma_create:
  assumes "\<And>t. mt_avid t = avid \<Longrightarrow> mt_library_dir t = d \<Longrightarrow> mt_brand t = b \<Longrightarrow> mt_parts t = parts \<Longrightarrow> mt_state t = MQUEUED \<Longrightarrow> P t"
  shows "ma.keeps sv P (m_db sv (\<lambda>tbl. create_task tbl avid source d b parts n now))"
  using assms by (auto simp: ma.keeps_def adds_only_def m_db_def create_task_def Let_def foreign_def)

lemma ma_enqueue:
  assumes "\<And>cur t. found = Some cur \<Longrightarrow> queued_as cur t \<Longrightarrow> P t"
  shows "ma.keeps (av_merge av) P (enqueue_title av archive found requested)"
proof (cases found)
  case None
  then show ?thesis by (simp add: enqueue_title_def ma.keeps_raise)
next
  case (Some title)
  show ?thesis
  proof (cases "\<not> title_complete title \<or> ti_library_dir title = None \<or> ti_brand title = None")
    case True
    with Some show ?thesis by (simp add: enqueue_title_def ma.keeps_raise)
  next
    case False
    have create: "ma.keeps (av_merge av) P (m_db (av_merge av) (\<lambda>tbl. create_task tbl (ti_avid title) src
        (the (ti_library_dir title)) (the (ti_brand title)) (map pt_target (ti_parts title)) n now))" for src n now
      using False by (intro ma_create assms [OF Some]) (auto simp: queued_as_def part_targets_def)
    show ?thesis
      unfolding enqueue_title_def Some option.case using False
      by (simp add: Let_def) (intro impI conjI ma_calls create)
  qed
qed

text \<open>What was seen of a title before it is queued: it fits, its parts are there alone, it is found again.\<close>

definition seen_before :: "auto_services \<Rightarrow> merge_settings \<Rightarrow> auto_state \<Rightarrow> int \<Rightarrow> multipart_title \<Rightarrow> merge_task \<Rightarrow> bool" where
  "seen_before av ms st0 room title t \<longleftrightarrow>
     (\<exists>bytes. bytes \<le> room \<and> (az_sizes st0 (part_targets title) = Some bytes \<or> listed_bytes av ms (part_targets title) bytes))
     \<and> (\<exists>n. parts_alone_at av n title ms)
     \<and> (\<exists>cur. title_matches (ti_avid title) cur \<and> scan_found av cur \<and> queued_as cur t)"

lemma ma_queue_found:
  assumes "\<And>cur t. fst found = Some cur \<Longrightarrow> queued_as cur t \<Longrightarrow> P t"
  shows "ma.keeps (av_merge av) P (queue_found av archive title bytes found)"
proof -
  have refused: "ma.keeps (av_merge av) P (case e of ActionRefused code \<Rightarrow> ret (Some code) | _ \<Rightarrow> raise_io e)" for e
    by (cases e) (simp_all add: ma.keeps_ret ma.keeps_raise)
  show ?thesis
    unfolding queue_found_def
    by (intro ma.keeps_bind ma.keeps_catch ma.keeps_option ma.keeps_let ma.keeps_ret ma_ask refused ma_enqueue assms)
qed

lemma ma_queue_current:
  assumes "\<And>cur t. title_matches (ti_avid title) cur \<Longrightarrow> scan_found av cur \<Longrightarrow> queued_as cur t \<Longrightarrow> P t"
  shows "ma.keeps (av_merge av) P (queue_current av st title bytes)"
proof -
  have "ma.keeps (av_merge av) P (bind_io (current_title av st (ti_avid title)) (queue_found av archive title bytes))" for archive
  proof (rule ma.keeps_bind_yields [OF ma_looks(3)])
    let ?Q = "\<lambda>r. \<forall>cur. fst r = Some cur \<longrightarrow> title_matches (ti_avid title) cur \<and> scan_found av cur"
    show "?Q r" if "current_title av st (ti_avid title) w = (Value r, w')" for r w w'
      using that current_title_value [of av st "ti_avid title" w "fst r" "snd r" w'] by simp
    show "ma.keeps (av_merge av) P (queue_found av archive title bytes r)" if "?Q r" for r
      using that assms by (intro ma_queue_found) blast
  qed
  then show ?thesis unfolding queue_current_def by (rule ma.keeps_bind [OF ma_ask(1)])
qed


lemma try_queue_derived:
  assumes "try_queue av st title ms room w = (Value (outcome, st'), w')"
  shows "derived av ms st st'"
proof (cases "az_refused st (ti_avid title)")
  case (Some r)
  with assms show ?thesis by (simp add: try_queue_def ret_def derived_refl)
next
  case None
  then obtain bytes reason st1 w1 where size: "title_size av st title ms w = (Value ((bytes, reason), st1), w1)"
      and rest: "queue_sized av title ms room ((bytes, reason), st1) w1 = (Value (outcome, st'), w')"
    using assms by (auto simp: try_queue_def bind_io_Value_iff)
  have same: "az_titles st1 = az_titles st"
    using size by (auto simp: title_size_def Let_def bind_io_def m_ask_def catch_io_def m_value_def m_query_def ret_def
        raise_io_def split: option.splits sum.splits if_splits)
  then have first: "derived av ms st st1"
    using title_size_value [OF size] by (simp add: derived_def known_title_def)
  have refuse: "derived av ms st1 (snd (refuse_unlisted st1 title why))" for why
    by (auto simp: refuse_unlisted_def Let_def derived_def sizes_known_def known_title_def)
  have "derived av ms st1 st'"
  proof (cases "case bytes of None \<Rightarrow> True | Some n \<Rightarrow> room < n")
    case True
    with rest show ?thesis by (simp add: queue_sized_def ret_def derived_refl)
  next
    case False
    then obtain unlisted w2 where last: "(case unlisted of
                  Some why \<Rightarrow> ret (refuse_unlisted st1 title why)
                | None \<Rightarrow> queue_current av st1 title bytes) w2 = (Value (outcome, st'), w')"
      using rest by (auto simp: queue_sized_def bind_io_Value_iff)
    show ?thesis
    proof (cases unlisted)
      case None
      with last obtain found st2 archive w3 w4 where
          cur: "current_title av st1 (ti_avid title) w3 = (Value (found, st2), w4)"
          and "queue_found av archive title bytes (found, st2) w4 = (Value (outcome, st'), w')"
        by (auto simp: queue_current_def bind_io_Value_iff)
      then have "az_titles st' = az_titles st2" "az_sizes st' = az_sizes st2"
        by (auto simp: queue_found_def bind_io_Value_iff ret_def Let_def split: option.splits)
      with current_title_value [OF cur, of ms] show ?thesis
        by (simp add: derived_def sizes_known_def known_title_def)
    next
      case (Some why)
      with last refuse [of why] show ?thesis by (simp add: ret_def)
    qed
  qed
  with first show ?thesis by (rule derived_trans)
qed

lemma ma_try_queue:
  assumes from_st0: "derived av ms st0 st" and P: "\<And>t. seen_before av ms st0 room title t \<Longrightarrow> P t"
  shows "ma.keeps (av_merge av) P (try_queue av st title ms room)"
proof -
  have look: "ma.keeps (av_merge av) P (bind_io (unlisted_reason av title ms) (\<lambda>unlisted.
      case unlisted of
        Some why \<Rightarrow> ret (refuse_unlisted st1 title why)
      | None \<Rightarrow> queue_current av st1 title (Some bytes)))"
    if "bytes \<le> room" "az_sizes st0 (part_targets title) = Some bytes \<or> listed_bytes av ms (part_targets title) bytes"
    for st1 bytes
  proof (rule ma.keeps_bind_yields [where Q = "\<lambda>u. u = None \<longrightarrow> (\<exists>n. parts_alone_at av n title ms)"])
    show "ma.keeps (av_merge av) P (unlisted_reason av title ms)" by (rule ma_looks)
    show "u = None \<longrightarrow> (\<exists>n. parts_alone_at av n title ms)" if "unlisted_reason av title ms w = (Value u, w')" for u w w'
      using that unlisted_none by blast
    fix u :: "string option" assume u: "u = None \<longrightarrow> (\<exists>n. parts_alone_at av n title ms)"
    show "ma.keeps (av_merge av) P (case u of
        Some why \<Rightarrow> ret (refuse_unlisted st1 title why)
      | None \<Rightarrow> queue_current av st1 title (Some bytes))"
    proof (cases u)
      case None
      then have "ma.keeps (av_merge av) P (queue_current av st1 title (Some bytes))"
        using u that by (intro ma_queue_current P) (auto simp: seen_before_def)
      with None show ?thesis by simp
    qed (simp add: ma.keeps_ret)
  qed
  show ?thesis
  proof (cases "az_refused st (ti_avid title)")
    case None
    have "ma.keeps (av_merge av) P (bind_io (title_size av st title ms) (queue_sized av title ms room))"
    proof (rule ma.keeps_bind_yields [OF ma_looks(1)])
      let ?Q = "\<lambda>r :: (int option \<times> string option) \<times> auto_state. \<forall>b. fst (fst r) = Some b \<longrightarrow>
          az_sizes st0 (part_targets title) = Some b \<or> listed_bytes av ms (part_targets title) b"
      show "?Q r" if "title_size av st title ms w = (Value r, w')" for r w w'
        using title_size_value [of av st title ms w "fst (fst r)" "snd (fst r)" "snd r" w'] that from_st0
        unfolding derived_def sizes_known_def by (simp only: prod.collapse) blast
      show "ma.keeps (av_merge av) P (queue_sized av title ms room r)" if "?Q r" for r
        using that look by (cases r; cases "fst r"; cases "fst (fst r)") (auto simp: queue_sized_def ma.keeps_ret)
    qed
    with None show ?thesis by (simp add: try_queue_def)
  qed (simp add: try_queue_def ma.keeps_ret)
qed

lemma ma_try_titles:
  assumes "derived av ms st0 st"
    and "\<And>title t. title \<in> set titles \<Longrightarrow> eligible title ms settled \<Longrightarrow> ti_avid title \<notin> failed
      \<Longrightarrow> seen_before av ms st0 room title t \<Longrightarrow> P t"
  shows "ma.keeps (av_merge av) P (try_titles av ms room settled failed skipped titles st)"
  using assms
proof (induction titles arbitrary: skipped st)
  case Nil
  then show ?case by (simp add: ma.keeps_ret)
next
  case (Cons title titles)
  have rest: "ma.keeps (av_merge av) P (try_titles av ms room settled failed sk titles st1)" if "derived av ms st0 st1" for sk st1
    using Cons.prems(2) that by (intro Cons.IH) auto
  show ?case
  proof (cases "eligible title ms settled \<and> ti_avid title \<notin> failed")
    case False
    with rest [OF Cons.prems(1)] show ?thesis by auto
  next
    case True
    have "ma.keeps (av_merge av) P (bind_io (try_queue av st title ms room) (\<lambda>(outcome, st1).
          case outcome of
            Queued \<Rightarrow> ret (True, skipped, st1)
          | Skip r \<Rightarrow> try_titles av ms room settled failed (skipped @ [r]) titles st1))"
    proof (rule ma.keeps_bind_yields [where Q = "\<lambda>r. derived av ms st0 (snd r)"])
      show "ma.keeps (av_merge av) P (try_queue av st title ms room)"
        using True Cons.prems by (intro ma_try_queue) auto
      show "derived av ms st0 (snd r)" if "try_queue av st title ms room w = (Value r, w')" for r w w'
        using try_queue_derived [of av st title ms room w "fst r" "snd r" w'] that derived_trans [OF Cons.prems(1)] by simp
      fix r :: "try_outcome \<times> auto_state" assume "derived av ms st0 (snd r)"
      then show "ma.keeps (av_merge av) P (case r of (outcome, st1) \<Rightarrow> (case outcome of
            Queued \<Rightarrow> ret (True, skipped, st1)
          | Skip r \<Rightarrow> try_titles av ms room settled failed (skipped @ [r]) titles st1))"
        using rest by (cases r; cases "fst r") (auto simp: ma.keeps_ret)
    qed
    with True show ?thesis by simp
  qed
qed

text \<open>A run that starts where rows have only been added to a table.\<close>

definition adds_from :: "merge_services \<Rightarrow> merge_table \<Rightarrow> (merge_task \<Rightarrow> bool) \<Rightarrow> 'a mio \<Rightarrow> bool" where
  "adds_from sv tbl P m \<longleftrightarrow> (\<forall>w. create_step\<^sup>*\<^sup>* tbl (mw_table w) \<longrightarrow> adds_only sv P w (snd (m w)))"

lemma adds_from_keeps: "ma.keeps sv P m \<Longrightarrow> adds_from sv tbl P m"
  by (simp add: adds_from_def ma.keeps_run)

lemma adds_from_bind:
  assumes "alone sv" and "ma.keeps sv P m" and "mc.keeps sv m"
    and "\<And>a w w'. create_step\<^sup>*\<^sup>* tbl (mw_table w) \<Longrightarrow> m w = (Value a, w') \<Longrightarrow> Q a"
    and "\<And>a. Q a \<Longrightarrow> adds_from sv tbl P (f a)"
  shows "adds_from sv tbl P (bind_io m f)"
  unfolding adds_from_def
proof (intro allI impI)
  fix w :: mworld
  assume start: "create_step\<^sup>*\<^sup>* tbl (mw_table w)"
  show "adds_only sv P w (snd (bind_io m f w))"
  proof (rule ma.bind_run)
    show "adds_only sv P w (snd (m w))" using assms(2) by (rule ma.keeps_run)
    fix a w'
    assume run: "m w = (Value a, w')"
    have "only_created sv w (snd (m w))" using assms(3) by (rule mc.keeps_run)
    then have "create_step\<^sup>*\<^sup>* tbl (mw_table w')" using run start assms(1) by (simp add: only_created_def)
    then show "adds_only sv P w' (snd (f a w'))" using assms(4) [OF start run] assms(5) by (simp add: adds_from_def)
  qed
qed

lemma adds_from_weaken: "adds_from sv tbl P m \<Longrightarrow> (\<And>t. P t \<Longrightarrow> P' t) \<Longrightarrow> adds_from sv tbl P' m"
  unfolding adds_from_def adds_only_def by blast

lemma m_read_from:
  assumes "alone sv" and "create_step\<^sup>*\<^sup>* tbl (mw_table w)" and "m_read sv f w = (Value a, w')"
  shows "\<exists>tbl'. create_step\<^sup>*\<^sup>* tbl tbl' \<and> a = f tbl'"
  using assms by (auto simp: m_read_def m_db_def alone_def intro: rtranclp_trans)

lemma create_step_rows: "create_step tbl tbl' \<Longrightarrow> set (mr_rows tbl) \<subseteq> set (mr_rows tbl')"
  by (erule create_step.cases) (auto simp: create_task_def Let_def)

lemma create_steps_rows: "create_step\<^sup>*\<^sup>* tbl tbl' \<Longrightarrow> set (mr_rows tbl) \<subseteq> set (mr_rows tbl')"
  by (induction rule: rtranclp_induct) (auto dest: create_step_rows)

text \<open>
  What must hold of the table a round starts from for it to queue a title: nothing is under way,
  and the title was never cancelled, merged or left failed.
\<close>

definition free_to_queue :: "merge_table \<Rightarrow> multipart_title \<Rightarrow> bool" where
  "free_to_queue tbl title \<longleftrightarrow>
     (\<forall>t \<in> set (mr_rows tbl). is_open t \<longrightarrow> mt_state t = MFAILED)
     \<and> (\<forall>t \<in> set (mr_rows tbl). mt_state t \<in> {MCANCELLED, MDONE, MFAILED} \<longrightarrow> mt_avid t \<noteq> ti_avid title)"

lemma blocked_none:
  "blocked sv ms tasks = None \<Longrightarrow> ms_auto_enabled ms \<and> (\<forall>t \<in> set tasks. mt_state t = MFAILED)"
  by (auto simp: blocked_def Let_def split: if_splits)
     (metis (mono_tags, lifting) filter_id_conv length_filter_less)

lemma free_to_queueI:
  assumes "create_step\<^sup>*\<^sup>* tbl t1" "create_step\<^sup>*\<^sup>* tbl t2" "create_step\<^sup>*\<^sup>* tbl t3"
    and "blocked sv ms (open_tasks t1) = None"
    and "eligible title ms (cancelled_avids t2 \<union> merged_avids t3)"
    and "ti_avid title \<notin> mt_avid ` set (filter (\<lambda>t. mt_state t = MFAILED) (open_tasks t1))"
  shows "free_to_queue tbl title"
proof -
  have sub: "set (mr_rows tbl) \<subseteq> set (mr_rows t1)" "set (mr_rows tbl) \<subseteq> set (mr_rows t2)" "set (mr_rows tbl) \<subseteq> set (mr_rows t3)"
    using assms(1-3) by (auto dest: create_steps_rows)
  have opens: "set (open_tasks t1) = {t \<in> set (mr_rows t1). is_open t}" by (auto simp: open_tasks_def)
  have failed: "mt_state t = MFAILED" if "t \<in> set (mr_rows tbl)" "is_open t" for t
    using blocked_none [OF assms(4)] that sub(1) opens by auto
  have "mt_avid t \<noteq> ti_avid title" if t: "t \<in> set (mr_rows tbl)" and s: "mt_state t \<in> {MCANCELLED, MDONE, MFAILED}" for t
  proof -
    consider "mt_state t = MCANCELLED" | "mt_state t = MDONE" | "mt_state t = MFAILED" using s by auto
    then show ?thesis
    proof cases
      case 1
      then have "mt_avid t \<in> cancelled_avids t2" using t sub(2) by (auto simp: cancelled_avids_def)
      then show ?thesis using assms(5) by (auto simp: eligible_def)
    next
      case 2
      then have "mt_avid t \<in> merged_avids t3" using t sub(3) by (auto simp: merged_avids_def)
      then show ?thesis using assms(5) by (auto simp: eligible_def)
    next
      case 3
      then have "t \<in> set (open_tasks t1)" using t sub(1) opens by (auto simp: is_open_def FINISHED_STATES_def)
      then show ?thesis using assms(6) 3 by (auto simp: image_iff)
    qed
  qed
  with failed show ?thesis by (auto simp: free_to_queue_def)
qed

lemma mc_scan: "mc.keeps sv (scan_io av a b)" "mc.keeps (av_merge av) (rescan_titles av st a b)"
  "mc.keeps (av_merge av) (cache_titles av st a b r)" "mc.keeps (av_merge av) (auto_titles av st ms)"
  unfolding auto_titles_def cache_titles_def rescan_titles_def scan_io_def by (intro mc_calls)+

text \<open>What a round that queues a task has seen, from the table and the state it started with.\<close>

definition rightly_queued :: "auto_services \<Rightarrow> auto_state \<Rightarrow> merge_table \<Rightarrow> merge_settings \<Rightarrow> merge_task \<Rightarrow> bool" where
  "rightly_queued av st tbl ms t \<longleftrightarrow>
     (\<exists>title k. known_title av st title \<and> free_to_queue tbl title \<and> title_complete title
        \<and> (ms_auto_include_stackable ms \<or> MAX_STACKED_PARTS < part_count title)
        \<and> seen_before av ms st (av_free av k (ms_work_dir ms) - int (ms_reserve_gib ms) * GIB) title t)"

lemma seen_before_derived:
  assumes "derived av ms st0 st" and "seen_before av ms st room title t"
  shows "seen_before av ms st0 room title t"
  using assms unfolding seen_before_def derived_def sizes_known_def by blast

lemma auto_round_adds:
  assumes alone: "alone (av_merge av)" and t1: "create_step\<^sup>*\<^sup>* tbl t1"
    and free: "blocked (av_merge av) ms (open_tasks t1) = None"
    and st: "derived av ms st0 st" and titles: "\<And>title. title \<in> set titles \<Longrightarrow> known_title av st0 title"
  shows "adds_from (av_merge av) tbl (rightly_queued av st0 tbl ms) (auto_round av ms (open_tasks t1) titles st)"
proof -
  let ?sv = "av_merge av" and ?P = "rightly_queued av st0 tbl ms"
  let ?failed = "mt_avid ` set (filter (\<lambda>t. mt_state t = MFAILED) (open_tasks t1))"
  let ?room = "\<lambda>free. free - int (ms_reserve_gib ms) * GIB"
  have each: "ma.keeps ?sv ?P (try_titles av ms (?room free) (cancelled_avids t2 \<union> merged_avids t3) ?failed [] titles st)"
    if "create_step\<^sup>*\<^sup>* tbl t2" "create_step\<^sup>*\<^sup>* tbl t3" "\<exists>k. free = av_free av k (ms_work_dir ms)" for free t2 t3
  proof (rule ma_try_titles [OF st])
    fix title t
    assume "title \<in> set titles" and el: "eligible title ms (cancelled_avids t2 \<union> merged_avids t3)"
      and "ti_avid title \<notin> ?failed" and "seen_before av ms st0 (?room free) title t"
    moreover from this have "free_to_queue tbl title"
      using t1 that(1,2) free by (intro free_to_queueI)
    ultimately show "?P t" using that(3) titles el unfolding rightly_queued_def eligible_def by blast
  qed
  have all: "adds_from ?sv tbl ?P (bind_io (try_titles av ms (?room free) (cancelled_avids t2 \<union> merged_avids t3) ?failed [] titles st)
      (\<lambda>(queued, skipped, st3).
        ret (st3\<lparr>az_status := auto_report (if queued then AUTO_BUSY else AUTO_IDLE) (?room free) skipped\<rparr>)))"
    if "create_step\<^sup>*\<^sup>* tbl t2" "create_step\<^sup>*\<^sup>* tbl t3" "\<exists>k. free = av_free av k (ms_work_dir ms)" for free t2 t3
    unfolding split_def by (intro adds_from_keeps ma.keeps_bind ma.keeps_ret each that)
  show ?thesis
    unfolding auto_round_def Let_def
  proof (rule adds_from_bind [OF alone ma_ask(1) mc_ask])
    show "\<exists>k. free = av_free av k (ms_work_dir ms)"
      if "m_ask (\<lambda>n. av_free av n (ms_work_dir ms)) w = (Value free, w')" for free w w'
      using that by (auto simp: m_ask_def)
    fix free assume free: "\<exists>k. free = av_free av k (ms_work_dir ms)"
    show "adds_from ?sv tbl ?P (bind_io (m_read ?sv cancelled_avids) (\<lambda>cancelled.
      bind_io (m_read ?sv merged_avids) (\<lambda>merged.
        bind_io (try_titles av ms (?room free) (cancelled \<union> merged) ?failed [] titles st)
          (\<lambda>(queued, skipped, st3).
            ret (st3\<lparr>az_status := auto_report (if queued then AUTO_BUSY else AUTO_IDLE) (?room free) skipped\<rparr>)))))"
    proof (rule adds_from_bind [OF alone ma_read mc_read m_read_from [OF alone]], assumption, assumption)
      fix cancelled assume "\<exists>t2. create_step\<^sup>*\<^sup>* tbl t2 \<and> cancelled = cancelled_avids t2"
      then obtain t2 where t2: "create_step\<^sup>*\<^sup>* tbl t2" "cancelled = cancelled_avids t2" by blast
      show "adds_from ?sv tbl ?P (bind_io (m_read ?sv merged_avids) (\<lambda>merged.
        bind_io (try_titles av ms (?room free) (cancelled \<union> merged) ?failed [] titles st)
          (\<lambda>(queued, skipped, st3).
            ret (st3\<lparr>az_status := auto_report (if queued then AUTO_BUSY else AUTO_IDLE) (?room free) skipped\<rparr>))))"
        by (rule adds_from_bind [OF alone ma_read mc_read m_read_from [OF alone]], assumption, assumption)
           (use all t2 free in blast)
    qed
  qed
qed

lemma auto_step_adds:
  assumes alone: "alone (av_merge av)"
  shows "adds_from (av_merge av) tbl (\<lambda>t. \<exists>m. rightly_queued av st tbl (mv_settings (av_merge av) m) t) (auto_step av st)"
  unfolding auto_step_def
proof (rule adds_from_bind [OF alone ma_ask(1) mc_ask, where Q = "\<lambda>ms. \<exists>m. ms = mv_settings (av_merge av) m"])
  let ?sv = "av_merge av"
  show "\<exists>m. ms = mv_settings ?sv m" if "m_ask (mv_settings ?sv) w = (Value ms, w')" for ms w w'
    using that by (auto simp: m_ask_def)
  fix ms
  assume "\<exists>m. ms = mv_settings ?sv m"
  then have weaker: "rightly_queued av st tbl ms t \<Longrightarrow> \<exists>m. rightly_queued av st tbl (mv_settings ?sv m) t" for t by blast
  show "adds_from ?sv tbl (\<lambda>t. \<exists>m. rightly_queued av st tbl (mv_settings ?sv m) t)
     (bind_io (m_read ?sv open_tasks) (\<lambda>tasks.
       case blocked ?sv ms tasks of
         Some m \<Rightarrow> ret (st\<lparr>az_status := bare_status m\<rparr>)
       | None \<Rightarrow> bind_io (auto_titles av st ms) (auto_scanned av ms tasks)))"
  proof (rule adds_from_bind [OF alone ma_read mc_read m_read_from [OF alone]], assumption, assumption)
    fix tasks
    assume "\<exists>t1. create_step\<^sup>*\<^sup>* tbl t1 \<and> tasks = open_tasks t1"
    then obtain t1 where t1: "create_step\<^sup>*\<^sup>* tbl t1" and tasks: "tasks = open_tasks t1" by blast
    have "adds_from ?sv tbl (rightly_queued av st tbl ms) (bind_io (auto_titles av st ms) (auto_scanned av ms tasks))"
      if free: "blocked ?sv ms tasks = None"
    proof (rule adds_from_bind [OF alone ma_looks(4) mc_scan(4)])
      let ?Q = "\<lambda>r :: (multipart_title list \<times> datetime) option \<times> auto_state. derived av ms st (snd r)
          \<and> (\<forall>titles sc. fst r = Some (titles, sc) \<longrightarrow> (\<forall>title \<in> set titles. known_title av st title))"
      show "?Q r" if "auto_titles av st ms w = (Value r, w')" for r w w'
        using that auto_titles_value [of av st ms w "fst r" "snd r" w' ms] by simp
      fix r :: "(multipart_title list \<times> datetime) option \<times> auto_state"
      assume Q: "?Q r"
      show "adds_from ?sv tbl (rightly_queued av st tbl ms) (auto_scanned av ms tasks r)"
      proof (cases "fst r")
        case None
        then show ?thesis by (cases r) (simp add: auto_scanned_def adds_from_keeps ma.keeps_ret)
      next
        case (Some scan)
        obtain titles sc where scan: "scan = (titles, sc)" by fastforce
        have r: "r = (Some (titles, sc), snd r)" using Some scan by (cases r) simp
        let ?st = "if Some sc \<noteq> az_refused_scan (snd r)
            then (snd r)\<lparr>az_refused := Map.empty, az_refused_scan := Some sc\<rparr> else snd r"
        have "az_sizes ?st = az_sizes (snd r)" "az_titles ?st = az_titles (snd r)" by auto
        then have "derived av ms st ?st" using Q by (simp add: derived_def sizes_known_def known_title_def)
        then have "adds_from ?sv tbl (rightly_queued av st tbl ms) (auto_round av ms (open_tasks t1) titles ?st)"
          using Q Some scan free tasks by (intro auto_round_adds [OF alone t1]) auto
        then show ?thesis by (subst r) (simp add: auto_scanned_def Let_def tasks split del: if_split)
      qed
    qed
    then show "adds_from ?sv tbl (\<lambda>t. \<exists>m. rightly_queued av st tbl (mv_settings ?sv m) t)
       (case blocked ?sv ms tasks of
         Some m \<Rightarrow> ret (st\<lparr>az_status := bare_status m\<rparr>)
       | None \<Rightarrow> bind_io (auto_titles av st ms) (auto_scanned av ms tasks))"
      using weaker by (cases "blocked ?sv ms tasks") (auto simp: adds_from_keeps ma.keeps_ret intro: adds_from_weaken)
  qed
qed

section \<open>What is queued\<close>

text \<open>
  C33: A row a round of the automatic merger adds to the table was rightly queued. There is a
  title of the scan the round started with such that, in the table the round found, every
  unfinished task had failed and no task of the title was cancelled, merged or failed; the
  title has its parts numbered without a gap in one library directory, is long enough to be
  merged unless shorter ones are included, and its parts' total size fits the free space less
  the reserve; a listing asked afresh shows every part and no whole copy beside them; and the
  row is the task of that very title as it was found again, complete, with its parts.\<close>

theorem auto_queues_only_safe:
  assumes "alone (av_merge av)"
    and "t \<in> set (mr_rows (mw_table (snd (auto_step av st w))))" and "t \<notin> set (mr_rows (mw_table w))"
    and "\<not> foreign (av_merge av) t"
  shows "\<exists>title cur n k m bytes.
    let ms = mv_settings (av_merge av) m
    in known_title av st title \<and> free_to_queue (mw_table w) title \<and> title_complete title
       \<and> (ms_auto_include_stackable ms \<or> MAX_STACKED_PARTS < part_count title)
       \<and> bytes \<le> av_free av k (ms_work_dir ms) - int (ms_reserve_gib ms) * GIB
       \<and> (az_sizes st (part_targets title) = Some bytes \<or> listed_bytes av ms (part_targets title) bytes)
       \<and> parts_alone_at av n title ms
       \<and> title_matches (ti_avid title) cur \<and> scan_found av cur \<and> queued_as cur t"
proof -
  have "adds_only (av_merge av) (\<lambda>t. \<exists>m. rightly_queued av st (mw_table w) (mv_settings (av_merge av) m) t)
      w (snd (auto_step av st w))"
    using auto_step_adds [OF assms(1), of "mw_table w" st] unfolding adds_from_def by blast
  then obtain m where "rightly_queued av st (mw_table w) (mv_settings (av_merge av) m) t"
    using assms(2-4) unfolding adds_only_def by blast
  then show ?thesis unfolding rightly_queued_def seen_before_def Let_def by blast
qed

definition demo_auto :: auto_services where
  "demo_auto =
     \<lparr>av_merge = demo_merge 1000,
      av_walk = (\<lambda>_ root. [(''/map/A-1'', [''A-1-cd1.strm'', ''A-1-cd2.strm''])]),
      av_strm = (\<lambda>_ p. if p = ''/map/A-1/A-1-cd1.strm'' then Some ''/m/lib/A/A-1-cd1.mp4''
                       else Some ''/m/lib/A/A-1-cd2.mp4''),
      av_task_dir = (\<lambda>_ _. None), av_free = (\<lambda>_ _. 30 * 2 ^ 30),
      av_cached_listing = demo_listing 1000\<rparr>"

definition demo_auto_state :: auto_state where
  "demo_auto_state =
     \<lparr>az_key = None, az_titles = [], az_scanned_at = None, az_sizes = (\<lambda>_. None), az_refused = (\<lambda>_. None),
      az_refused_scan = None, az_status = bare_status AUTO_OFF\<rparr>"

definition demo_empty :: mworld where
  "demo_empty = \<lparr>mw_table = \<lparr>mr_rows = [], mr_next = 0\<rparr>, mw_tick = 0, mw_log = []\<rparr>"

theorem auto_queues_only_safe_witness:
  "\<exists>t title cur n k m bytes.
    mr_rows (mw_table (snd (auto_step demo_auto demo_auto_state demo_empty))) = [t] \<and> mt_avid t = ''A-1''
    \<and> (let ms = mv_settings (av_merge demo_auto) m
       in known_title demo_auto demo_auto_state title \<and> free_to_queue (mw_table demo_empty) title \<and> title_complete title
          \<and> (ms_auto_include_stackable ms \<or> MAX_STACKED_PARTS < part_count title)
          \<and> bytes \<le> av_free demo_auto k (ms_work_dir ms) - int (ms_reserve_gib ms) * GIB
          \<and> (az_sizes demo_auto_state (part_targets title) = Some bytes \<or> listed_bytes demo_auto ms (part_targets title) bytes)
          \<and> parts_alone_at demo_auto n title ms
          \<and> title_matches (ti_avid title) cur \<and> scan_found demo_auto cur \<and> queued_as cur t)"
proof -
  have "map mt_avid (mr_rows (mw_table (snd (auto_step demo_auto demo_auto_state demo_empty)))) = [''A-1'']" by code_simp
  then obtain t where t: "mr_rows (mw_table (snd (auto_step demo_auto demo_auto_state demo_empty))) = [t]" "mt_avid t = ''A-1''"
    by auto
  have "\<not> foreign (av_merge demo_auto) t" by (simp add: foreign_def demo_auto_def demo_merge_def)
  moreover have "alone (av_merge demo_auto)" by (simp add: demo_auto_def demo_alone)
  ultimately show ?thesis
    using auto_queues_only_safe [of demo_auto t demo_auto_state demo_empty] t
    by (simp add: demo_empty_def)
qed

end
