(* ===== verification/Fill_Records.thy ===== *)
theory Fill_Records
  imports Prelude
begin

text \<open>
  \<^verbatim>\<open>fill_actor/models.py\<close> and the records of \<^verbatim>\<open>fill_actor/persistence.py\<close>: what a
  scan plans, the jobs that run scans and moves, the journals of the moves, and the checks
  their \<^verbatim>\<open>__post_init__\<close> methods make. The two journals have transition tables that only move
  forward; each is an instance of the interface for that in the prelude.
\<close>

section \<open>Enumerations\<close>

datatype job_state = JQUEUED | JRUNNING | JCOMPLETED | JPARTIAL_FAILED | JFAILED

datatype job_operation = CREATE_PLAN | APPLY

datatype job_stage =
  STAGE_QUEUED | ACTOR_CATALOG | LIBRARY_SCAN | MAGNET_LOOKUP | SUBMITTING_STAGE | PERSISTING | STAGE_DONE | STAGE_UNKNOWN

datatype progress_unit = ACTORS | PAGES | VIDEOS | MAGNETS | STEPS | ITEMS

datatype cancel_outcome = CANCELLED | ALREADY_CANCELLED | ALREADY_TERMINAL | NOT_CANCELLABLE | NOT_FOUND

datatype enqueue_outcome = ENQUEUED | EXISTING | CONFLICT | FULL

datatype journal_state = JPREPARED | LINKED | SOURCE_REMOVED | RECONCILED

datatype candidate_kind = LOCAL_FILE | CLOUD_STRM

datatype cloud_move_state = CPREPARED | CSUBMITTING | CVERIFYING | CUNKNOWN | CSUCCEEDED | CCONFLICT | CFAILED

definition cloud_terminal :: "cloud_move_state \<Rightarrow> bool" where
  "cloud_terminal s \<longleftrightarrow> s \<in> {CSUCCEEDED, CCONFLICT, CFAILED}"

datatype video_state =
  VEXISTS | ADDITIONAL_FOUND | MAGNET_FOUND | VQUEUED | VSUBMITTED | ALREADY_TRACKED | SUBMIT_FAILED | VMISSING
  | INVALID_VIDEO_ID | SCAN_FAILED

datatype move_state = MOVED | STALE | MOVE_CONFLICT | INVALID_PATH | MOVE_FAILED

datatype apply_state = APPLY_SUCCEEDED | APPLY_PARTIAL_FAILED | APPLY_FAILED

definition SHA256_HEX_LENGTH :: nat where
  "SHA256_HEX_LENGTH = 64"

definition JOB_CANCELLED_ERROR_CODE :: string where
  "JOB_CANCELLED_ERROR_CODE = ''job_cancelled''"

section \<open>The public plan\<close>

record actor_plan =
  apl_actor_id :: string
  apl_scraped_count :: nat
  apl_video_ids :: "string list"
  apl_error_code :: "string option"
  apl_actor_name :: "string option"
  apl_talent_id :: "int option"
  apl_aliases :: "string list"
  apl_error_message :: "string option"

record move_candidate =
  mc_candidate_id :: string
  mc_video_id :: string
  mc_file_name :: string
  mc_source_label :: string
  mc_destination_conflict :: bool

record video_plan =
  vpl_video_id :: string
  vpl_actor_ids :: "string list"
  vpl_state :: video_state
  vpl_release_date :: "date option"
  vpl_existing_files :: "string list"
  vpl_move_candidates :: "move_candidate list"
  vpl_warnings :: "string list"

record fill_plan =
  fp_plan_id :: string
  fp_revision :: string
  fp_created_at :: datetime
  fp_expires_at :: datetime
  fp_actors :: "actor_plan list"
  fp_videos :: "video_plan list"

record move_result =
  res_candidate_id :: string
  res_video_id :: string
  res_file_name :: string
  res_state :: move_state
  res_error_code :: "string option"

record apply_result =
  ar_plan_id :: string
  ar_revision :: string
  ar_state :: apply_state
  ar_results :: "move_result list"

section \<open>Candidates and plans\<close>

record cloud_file =
  cf_path :: string
  cf_file_id :: string
  cf_name :: string
  cf_size :: nat
  cf_write_time :: nat
  cf_hashes :: "(string \<times> string) list"

record fingerprint =
  fg_device :: int
  fg_inode :: int
  fg_size :: int
  fg_mtime_ns :: int
  fg_ctime_ns :: int

record candidate_record =
  cr_candidate_id :: string
  cr_video_id :: string
  cr_source :: string
  cr_source_root :: string
  cr_destination :: string
  cr_fingerprint :: fingerprint
  cr_kind :: candidate_kind
  cr_mapping_sha256 :: "string option"
  cr_cloud_source_path :: "string option"
  cr_cloud_destination_dir :: "string option"
  cr_cloud_file :: "cloud_file option"

text \<open>\<^verbatim>\<open>CandidateRecord.__post_init__\<close>.\<close>

definition candidate_valid :: "candidate_record \<Rightarrow> bool" where
  "candidate_valid c \<longleftrightarrow>
     (case cr_kind c of
        LOCAL_FILE \<Rightarrow>
          cr_mapping_sha256 c = None \<and> cr_cloud_source_path c = None
            \<and> cr_cloud_destination_dir c = None \<and> cr_cloud_file c = None
      | CLOUD_STRM \<Rightarrow>
          (case (cr_mapping_sha256 c, cr_cloud_source_path c, cr_cloud_destination_dir c, cr_cloud_file c) of
             (Some digest, Some source, Some dest, Some f) \<Rightarrow>
               cf_path f = source \<and> length digest = SHA256_HEX_LENGTH
           | _ \<Rightarrow> False))"

record plan_record =
  pl_public :: fill_plan
  pl_candidates :: "candidate_record list"
  pl_config_version :: int

text \<open>The candidates the public plan shows, as the pairs a Python dict keeps of them.\<close>

definition public_candidates :: "fill_plan \<Rightarrow> (string \<times> string) list" where
  "public_candidates p =
     concat (map (\<lambda>v. map (\<lambda>c. (mc_candidate_id c, mc_video_id c)) (vpl_move_candidates v)) (fp_videos p))"

text \<open>\<^verbatim>\<open>PlanRecord.__post_init__\<close>; in a dict the last entry of a key counts.\<close>

definition plan_valid :: "plan_record \<Rightarrow> bool" where
  "plan_valid p \<longleftrightarrow>
     distinct (map cr_candidate_id (pl_candidates p))
     \<and> (let public = rev (public_candidates (pl_public p));
            private = map (\<lambda>c. (cr_candidate_id c, cr_video_id c)) (pl_candidates p)
        in list_all (\<lambda>(k, v). map_of private k = map_of public k) (private @ public))"

definition plan_candidate :: "plan_record \<Rightarrow> string \<Rightarrow> candidate_record option" where
  "plan_candidate p candidate_id = find (\<lambda>c. cr_candidate_id c = candidate_id) (pl_candidates p)"

section \<open>Jobs\<close>

record job_progress =
  jp_stage :: job_stage
  jp_completed :: int
  jp_total :: "int option"
  jp_unit :: progress_unit
  jp_current :: "string option"
  jp_stage_started_at :: datetime
  jp_updated_at :: datetime

text \<open>\<^verbatim>\<open>JobProgress.__post_init__\<close>.\<close>

definition progress_valid :: "job_progress \<Rightarrow> bool" where
  "progress_valid p \<longleftrightarrow>
     0 \<le> jp_completed p \<and> (case jp_total p of None \<Rightarrow> True | Some n \<Rightarrow> 0 \<le> n \<and> jp_completed p \<le> n)"

text \<open>\<^verbatim>\<open>JobRecord.__post_init__\<close> fills the progress in, so a record always has one.\<close>

record job_record =
  jb_job_id :: string
  jb_operation :: job_operation
  jb_state :: job_state
  jb_created_at :: datetime
  jb_updated_at :: datetime
  jb_plan_id :: "string option"
  jb_error_code :: "string option"
  jb_owner_id :: "string option"
  jb_lease_expires_at :: "datetime option"
  jb_actor_ids :: "string list"
  jb_progress :: job_progress

definition first_progress :: "string list \<Rightarrow> datetime \<Rightarrow> datetime \<Rightarrow> job_progress" where
  "first_progress actor_ids created updated =
     \<lparr>jp_stage = STAGE_QUEUED, jp_completed = 0,
      jp_total = (if actor_ids = [] then None else Some (int (length actor_ids))),
      jp_unit = (if actor_ids = [] then ITEMS else ACTORS), jp_current = None,
      jp_stage_started_at = created, jp_updated_at = updated\<rparr>"

definition job_active :: "job_record \<Rightarrow> bool" where
  "job_active j \<longleftrightarrow> jb_state j \<in> {JQUEUED, JRUNNING}"

record apply_job =
  aj_job :: job_record
  aj_revision :: string
  aj_candidate_ids :: "string list"
  aj_result :: "apply_result option"

text \<open>\<^verbatim>\<open>ApplyJobRecord.__post_init__\<close>.\<close>

definition apply_valid :: "apply_job \<Rightarrow> bool" where
  "apply_valid a \<longleftrightarrow>
     jb_operation (aj_job a) = APPLY \<and> aj_revision a \<noteq> [] \<and> distinct (aj_candidate_ids a)
     \<and> (case aj_result a of
          None \<Rightarrow> True
        | Some r \<Rightarrow>
            jb_state (aj_job a) = JCOMPLETED \<and> ar_revision r = aj_revision a
            \<and> (case jb_plan_id (aj_job a) of None \<Rightarrow> True | Some p \<Rightarrow> ar_plan_id r = p))"

record cancel_result =
  cl_outcome :: cancel_outcome
  cl_job :: "job_record option"
  cl_previous_state :: "job_state option"
  cl_previous_owner_id :: "string option"

text \<open>\<^verbatim>\<open>_without_plan\<close>, \<^verbatim>\<open>_replace_job\<close> and \<^verbatim>\<open>_terminal_progress\<close>.\<close>

definition without_plan :: "job_record \<Rightarrow> job_record" where
  "without_plan j = j\<lparr>jb_plan_id := None\<rparr>"

definition replace_job ::
  "job_record \<Rightarrow> job_state \<Rightarrow> datetime \<Rightarrow> string option \<Rightarrow> string option \<Rightarrow> datetime option
     \<Rightarrow> job_progress option \<Rightarrow> job_record" where
  "replace_job j state updated_at error_code owner_id lease_expires_at progress =
     j\<lparr>jb_state := state, jb_updated_at := updated_at, jb_error_code := error_code, jb_owner_id := owner_id,
       jb_lease_expires_at := lease_expires_at,
       jb_progress := (case progress of None \<Rightarrow> jb_progress j | Some p \<Rightarrow> p)\<rparr>"

definition terminal_progress :: "job_progress \<Rightarrow> datetime \<Rightarrow> bool \<Rightarrow> job_progress" where
  "terminal_progress p now clear_current =
     \<lparr>jp_stage = STAGE_DONE, jp_completed = jp_completed p, jp_total = jp_total p, jp_unit = jp_unit p,
      jp_current = (if clear_current then None else jp_current p), jp_stage_started_at = now, jp_updated_at = now\<rparr>"

section \<open>Journals of moves\<close>

record journal_record =
  jo_plan_id :: string
  jo_candidate_id :: string
  jo_state :: journal_state
  jo_updated_at :: datetime

record cloud_operation =
  op_plan_id :: string
  op_candidate_id :: string
  op_attempt_id :: string
  op_source_path :: string
  op_destination_dir :: string
  op_state :: cloud_move_state
  op_updated_at :: datetime
  op_error_code :: "string option"

text \<open>\<^verbatim>\<open>CloudMoveOperationRecord.__post_init__\<close>.\<close>

definition operation_valid :: "cloud_operation \<Rightarrow> bool" where
  "operation_valid r \<longleftrightarrow>
     op_attempt_id r \<noteq> [] \<and> op_source_path r \<noteq> [] \<and> op_destination_dir r \<noteq> []
     \<and> (op_state r \<in> {CUNKNOWN, CCONFLICT, CFAILED} \<longleftrightarrow> op_error_code r \<noteq> None)"

datatype fill_error =
  KeyError string string
  | ValueError string
  | InvalidMoveJournalTransition "journal_state option" journal_state
  | InvalidCloudMoveTransition "cloud_move_state option" cloud_move_state

fun journal_transitions :: "journal_state option \<Rightarrow> journal_state list" where
  "journal_transitions None = [JPREPARED]"
| "journal_transitions (Some JPREPARED) = [JPREPARED, LINKED, RECONCILED]"
| "journal_transitions (Some LINKED) = [LINKED, SOURCE_REMOVED, RECONCILED]"
| "journal_transitions (Some SOURCE_REMOVED) = [SOURCE_REMOVED, RECONCILED]"
| "journal_transitions (Some RECONCILED) = [RECONCILED]"

definition validate_journal_transition :: "journal_state option \<Rightarrow> journal_state \<Rightarrow> fill_error + unit" where
  "validate_journal_transition current requested =
     (if requested \<in> set (journal_transitions current) then Inr ()
      else Inl (InvalidMoveJournalTransition current requested))"

fun cloud_transitions :: "cloud_move_state option \<Rightarrow> cloud_move_state list" where
  "cloud_transitions None = [CPREPARED]"
| "cloud_transitions (Some CPREPARED) = [CPREPARED, CSUBMITTING, CCONFLICT, CFAILED]"
| "cloud_transitions (Some CSUBMITTING) = [CSUBMITTING, CVERIFYING, CUNKNOWN]"
| "cloud_transitions (Some CVERIFYING) = [CVERIFYING, CUNKNOWN, CSUCCEEDED, CCONFLICT, CFAILED]"
| "cloud_transitions (Some CUNKNOWN) = [CUNKNOWN, CSUCCEEDED, CCONFLICT, CFAILED]"
| "cloud_transitions (Some CSUCCEEDED) = [CSUCCEEDED]"
| "cloud_transitions (Some CCONFLICT) = [CCONFLICT]"
| "cloud_transitions (Some CFAILED) = [CFAILED]"

definition validate_cloud_move_transition ::
  "cloud_move_state option \<Rightarrow> cloud_move_state \<Rightarrow> fill_error + unit" where
  "validate_cloud_move_transition current requested =
     (if requested \<in> set (cloud_transitions current) then Inr ()
      else Inl (InvalidCloudMoveTransition current requested))"

lemma cloud_terminal_simps [simp]:
  "\<not> cloud_terminal CPREPARED" "\<not> cloud_terminal CSUBMITTING" "\<not> cloud_terminal CVERIFYING" "\<not> cloud_terminal CUNKNOWN"
  "cloud_terminal CSUCCEEDED" "cloud_terminal CCONFLICT" "cloud_terminal CFAILED"
  by (simp_all add: cloud_terminal_def)

text \<open>Both tables only move forward.\<close>

fun journal_rank :: "journal_state \<Rightarrow> nat" where
  "journal_rank JPREPARED = 0"
| "journal_rank LINKED = 1"
| "journal_rank SOURCE_REMOVED = 2"
| "journal_rank RECONCILED = 3"

fun cloud_rank :: "cloud_move_state \<Rightarrow> nat" where
  "cloud_rank CPREPARED = 0"
| "cloud_rank CSUBMITTING = 1"
| "cloud_rank CVERIFYING = 2"
| "cloud_rank CUNKNOWN = 3"
| "cloud_rank _ = 4"

definition journal_edge :: "journal_state \<Rightarrow> journal_state \<Rightarrow> bool" where
  "journal_edge s t \<longleftrightarrow> t \<in> set (journal_transitions (Some s))"

definition cloud_edge :: "cloud_move_state \<Rightarrow> cloud_move_state \<Rightarrow> bool" where
  "cloud_edge s t \<longleftrightarrow> t \<in> set (cloud_transitions (Some s))"

interpretation jm: forward_machine journal_edge journal_rank 3
proof
  show "s = t \<or> journal_rank s < journal_rank t" if "journal_edge s t" for s t
    using that by (cases s; cases t) (simp_all add: journal_edge_def)
  show "journal_rank s \<le> 3" for s by (cases s) simp_all
qed

interpretation cm: forward_machine cloud_edge cloud_rank 4
proof
  show "s = t \<or> cloud_rank s < cloud_rank t" if "cloud_edge s t" for s t
    using that by (cases s; cases t) (simp_all add: cloud_edge_def)
  show "cloud_rank s \<le> 4" for s by (cases s) simp_all
qed

lemma cloud_terminal_rank: "cloud_terminal s \<longleftrightarrow> cloud_rank s = 4"
  by (cases s) simp_all

end
