(* ===== verification/Fill_Memory.thy ===== *)
theory Fill_Memory
  imports Fill_Records "HOL-Library.AList"
begin

text \<open>
  \<^verbatim>\<open>MemoryFillActorRepository\<close> of \<^verbatim>\<open>fill_actor/persistence.py\<close>, which the PostgreSQL
  repository calls its executable specification. A Python dict is the list of its items in
  the order they were first inserted; \<^verbatim>\<open>d[k] = v\<close> is \<open>AList.update\<close>. Every method holds the
  object's lock, so one method is one step. A method that raises answers \<open>Inl\<close> and gives the
  dicts as they were when it raised.
\<close>

record memory =
  me_plans :: "(string \<times> plan_record) list"
  me_results :: "((string \<times> string) \<times> move_result) list"
  me_jobs :: "(string \<times> job_record) list"
  me_apply_jobs :: "(string \<times> apply_job) list"
  me_journal :: "((string \<times> string) \<times> journal_record) list"
  me_operations :: "((string \<times> string) \<times> cloud_operation) list"

definition empty_memory :: memory where
  "empty_memory = \<lparr>me_plans = [], me_results = [], me_jobs = [], me_apply_jobs = [], me_journal = [], me_operations = []\<rparr>"

definition dict_values :: "('k \<times> 'v) list \<Rightarrow> 'v list" where
  "dict_values d = map snd d"

section \<open>Plans\<close>

text \<open>The comprehensions of \<^verbatim>\<open>save_plan\<close>: what is kept of a dict keyed by plan and candidate.\<close>

definition keep_candidates ::
  "string \<Rightarrow> string list \<Rightarrow> ((string \<times> string) \<times> 'v) list \<Rightarrow> ((string \<times> string) \<times> 'v) list" where
  "keep_candidates plan_id ids d = filter (\<lambda>(key, _). fst key \<noteq> plan_id \<or> snd key \<in> set ids) d"

definition mem_save_plan :: "plan_record \<Rightarrow> memory \<Rightarrow> memory" where
  "mem_save_plan p m =
     (let plan_id = fp_plan_id (pl_public p); ids = map cr_candidate_id (pl_candidates p)
      in m\<lparr>me_plans := AList.update plan_id p (me_plans m),
           me_results := keep_candidates plan_id ids (me_results m),
           me_journal := keep_candidates plan_id ids (me_journal m),
           me_operations := keep_candidates plan_id ids (me_operations m)\<rparr>)"

definition mem_get_plan :: "string \<Rightarrow> memory \<Rightarrow> plan_record option" where
  "mem_get_plan plan_id m = map_of (me_plans m) plan_id"

definition mem_get_candidate :: "string \<Rightarrow> string \<Rightarrow> memory \<Rightarrow> candidate_record option" where
  "mem_get_candidate plan_id candidate_id m =
     (case map_of (me_plans m) plan_id of None \<Rightarrow> None | Some p \<Rightarrow> plan_candidate p candidate_id)"

text \<open>What keeps a plan from being removed.\<close>

definition plan_in_use :: "string \<Rightarrow> memory \<Rightarrow> bool" where
  "plan_in_use plan_id m \<longleftrightarrow>
     list_ex (\<lambda>(key, r). fst key = plan_id \<and> jo_state r \<noteq> RECONCILED) (me_journal m)
     \<or> list_ex (\<lambda>(key, r). fst key = plan_id \<and> \<not> cloud_terminal (op_state r)) (me_operations m)
     \<or> list_ex (\<lambda>j. jb_operation j = APPLY \<and> jb_plan_id j = Some plan_id \<and> job_active j) (dict_values (me_jobs m))"

text \<open>
  \<^verbatim>\<open>_delete_plan_dependents\<close>: rebuilding the apply records checks them again, and looks each
  job up; when one is not valid the dicts before it are already changed.
\<close>

definition forget_plan :: "string \<Rightarrow> (string \<times> job_record) list \<Rightarrow> (string \<times> job_record) list" where
  "forget_plan plan_id d = map (\<lambda>(k, j). (k, if jb_plan_id j \<noteq> Some plan_id then j else without_plan j)) d"

fun refresh_apply ::
  "(string \<times> job_record) list \<Rightarrow> (string \<times> apply_job) list \<Rightarrow> fill_error + (string \<times> apply_job) list" where
  "refresh_apply js [] = Inr []"
| "refresh_apply js ((k, a) # d) =
     (case map_of js k of
        None \<Rightarrow> Inl (KeyError k [])
      | Some j \<Rightarrow>
          (if apply_valid (a\<lparr>aj_job := j\<rparr>)
           then (case refresh_apply js d of Inl e \<Rightarrow> Inl e | Inr d' \<Rightarrow> Inr ((k, a\<lparr>aj_job := j\<rparr>) # d'))
           else Inl (ValueError ''invalid apply job'')))"

definition delete_plan_dependents :: "string \<Rightarrow> memory \<Rightarrow> (fill_error + unit) \<times> memory" where
  "delete_plan_dependents plan_id m =
     (let m1 = m\<lparr>me_results := filter (\<lambda>(key, _). fst key \<noteq> plan_id) (me_results m),
                 me_journal := filter (\<lambda>(key, _). fst key \<noteq> plan_id) (me_journal m),
                 me_operations := filter (\<lambda>(key, _). fst key \<noteq> plan_id) (me_operations m),
                 me_jobs := forget_plan plan_id (me_jobs m)\<rparr>
      in case refresh_apply (me_jobs m1) (me_apply_jobs m1) of
           Inl e \<Rightarrow> (Inl e, m1)
         | Inr d \<Rightarrow> (Inr (), m1\<lparr>me_apply_jobs := d\<rparr>))"

definition drop_plan :: "string \<Rightarrow> memory \<Rightarrow> (fill_error + unit) \<times> memory" where
  "drop_plan plan_id m = delete_plan_dependents plan_id (m\<lparr>me_plans := AList.delete plan_id (me_plans m)\<rparr>)"

definition mem_delete_plan :: "string \<Rightarrow> memory \<Rightarrow> (fill_error + bool) \<times> memory" where
  "mem_delete_plan plan_id m =
     (if plan_in_use plan_id m \<or> map_of (me_plans m) plan_id = None then (Inr False, m)
      else case drop_plan plan_id m of
             (Inl e, m') \<Rightarrow> (Inl e, m')
           | (Inr _, m') \<Rightarrow> (Inr True, m'))"

fun drop_plans :: "string list \<Rightarrow> memory \<Rightarrow> (fill_error + unit) \<times> memory" where
  "drop_plans [] m = (Inr (), m)"
| "drop_plans (k # ks) m =
     (case drop_plan k m of
        (Inl e, m') \<Rightarrow> (Inl e, m')
      | (Inr _, m') \<Rightarrow> drop_plans ks m')"

definition mem_expired_plans :: "datetime \<Rightarrow> memory \<Rightarrow> string list" where
  "mem_expired_plans now m =
     map fst (filter (\<lambda>(k, p). fp_expires_at (pl_public p) \<le> now \<and> \<not> plan_in_use k m) (me_plans m))"

definition mem_purge_expired_plans :: "datetime \<Rightarrow> memory \<Rightarrow> (fill_error + nat) \<times> memory" where
  "mem_purge_expired_plans now m =
     (let expired = mem_expired_plans now m
      in case drop_plans expired m of
           (Inl e, m') \<Rightarrow> (Inl e, m')
         | (Inr _, m') \<Rightarrow> (Inr (length expired), m'))"

section \<open>Results\<close>

definition require_candidate :: "string \<Rightarrow> string \<Rightarrow> memory \<Rightarrow> fill_error + candidate_record" where
  "require_candidate plan_id candidate_id m =
     (case mem_get_candidate plan_id candidate_id m of
        None \<Rightarrow> Inl (KeyError plan_id candidate_id)
      | Some c \<Rightarrow> Inr c)"

definition require_matching_candidate :: "string \<Rightarrow> string \<Rightarrow> string \<Rightarrow> memory \<Rightarrow> fill_error + unit" where
  "require_matching_candidate plan_id candidate_id video_id m =
     (case require_candidate plan_id candidate_id m of
        Inl e \<Rightarrow> Inl e
      | Inr c \<Rightarrow>
          (if cr_video_id c \<noteq> video_id then Inl (ValueError ''move result video id does not match candidate'')
           else Inr ()))"

definition put_result :: "string \<Rightarrow> string \<Rightarrow> move_result \<Rightarrow> memory \<Rightarrow> memory" where
  "put_result plan_id candidate_id r m = m\<lparr>me_results := AList.update (plan_id, candidate_id) r (me_results m)\<rparr>"

definition mem_save_move_result :: "string \<Rightarrow> move_result \<Rightarrow> memory \<Rightarrow> (fill_error + unit) \<times> memory" where
  "mem_save_move_result plan_id r m =
     (case require_matching_candidate plan_id (res_candidate_id r) (res_video_id r) m of
        Inl e \<Rightarrow> (Inl e, m)
      | Inr _ \<Rightarrow> (Inr (), put_result plan_id (res_candidate_id r) r m))"

definition mem_get_move_result :: "string \<Rightarrow> string \<Rightarrow> memory \<Rightarrow> move_result option" where
  "mem_get_move_result plan_id candidate_id m = map_of (me_results m) (plan_id, candidate_id)"

definition mem_list_move_results :: "string \<Rightarrow> memory \<Rightarrow> move_result list" where
  "mem_list_move_results plan_id m =
     map snd (filter (\<lambda>(key, _). fst key = plan_id) (sort_key fst (me_results m)))"

section \<open>Jobs\<close>

definition mem_save_job :: "job_record \<Rightarrow> memory \<Rightarrow> memory" where
  "mem_save_job j m = m\<lparr>me_jobs := AList.update (jb_job_id j) j (me_jobs m)\<rparr>"

definition mem_active_jobs :: "memory \<Rightarrow> nat" where
  "mem_active_jobs m = length (filter job_active (dict_values (me_jobs m)))"

definition mem_enqueue_job :: "job_record \<Rightarrow> nat \<Rightarrow> memory \<Rightarrow> bool \<times> memory" where
  "mem_enqueue_job j max_active m =
     (if max_active \<le> mem_active_jobs m \<or> map_of (me_jobs m) (jb_job_id j) \<noteq> None then (False, m)
      else (True, mem_save_job j m))"

text \<open>An \<^verbatim>\<open>ApplyJobRecord\<close> built from a job and what is stored with it.\<close>

definition built_apply :: "apply_job \<Rightarrow> fill_error + apply_job" where
  "built_apply a = (if apply_valid a then Inr a else Inl (ValueError ''invalid apply job''))"

definition mem_enqueue_apply_job ::
  "apply_job \<Rightarrow> nat \<Rightarrow> memory \<Rightarrow> (fill_error + enqueue_outcome \<times> apply_job option) \<times> memory" where
  "mem_enqueue_apply_job a max_active m =
     (case map_of (me_jobs m) (jb_job_id (aj_job a)) of
        Some existing_job \<Rightarrow>
          (case map_of (me_apply_jobs m) (jb_job_id (aj_job a)) of
             Some existing \<Rightarrow>
               (if jb_plan_id (aj_job existing) = jb_plan_id (aj_job a) \<and> aj_revision existing = aj_revision a
                   \<and> aj_candidate_ids existing = aj_candidate_ids a
                then (case built_apply (existing\<lparr>aj_job := existing_job\<rparr>) of
                        Inl e \<Rightarrow> (Inl e, m)
                      | Inr r \<Rightarrow> (Inr (EXISTING, Some r), m))
                else (Inr (CONFLICT, None), m))
           | None \<Rightarrow> (Inr (CONFLICT, None), m))
      | None \<Rightarrow>
          (if max_active \<le> mem_active_jobs m then (Inr (FULL, None), m)
           else (Inr (ENQUEUED, Some a),
                 (mem_save_job (aj_job a) m)\<lparr>me_apply_jobs := AList.update (jb_job_id (aj_job a)) a (me_apply_jobs m)\<rparr>)))"

definition mem_get_apply_job :: "string \<Rightarrow> memory \<Rightarrow> fill_error + apply_job option" where
  "mem_get_apply_job job_id m =
     (case (map_of (me_apply_jobs m) job_id, map_of (me_jobs m) job_id) of
        (Some stored, Some j) \<Rightarrow>
          (case built_apply (stored\<lparr>aj_job := j\<rparr>) of Inl e \<Rightarrow> Inl e | Inr a \<Rightarrow> Inr (Some a))
      | _ \<Rightarrow> Inr None)"

definition queue_key :: "job_record \<Rightarrow> datetime \<times> string" where
  "queue_key j = (jb_created_at j, jb_job_id j)"

definition mem_claim_next_job :: "string \<Rightarrow> datetime \<Rightarrow> datetime \<Rightarrow> memory \<Rightarrow> job_record option \<times> memory" where
  "mem_claim_next_job owner_id now lease m =
     (case sort_key queue_key (filter (\<lambda>j. jb_state j = JQUEUED) (dict_values (me_jobs m))) of
        [] \<Rightarrow> (None, m)
      | current # _ \<Rightarrow>
          (let claimed = replace_job current JRUNNING now None (Some owner_id) (Some lease) None
           in (Some claimed, m\<lparr>me_jobs := AList.update (jb_job_id current) claimed (me_jobs m)\<rparr>)))"

text \<open>The guard the three methods of an owner share.\<close>

definition owned_at :: "job_record option \<Rightarrow> string \<Rightarrow> datetime \<Rightarrow> bool" where
  "owned_at current owner_id now \<longleftrightarrow>
     (case current of
        None \<Rightarrow> False
      | Some j \<Rightarrow>
          jb_owner_id j = Some owner_id \<and> jb_state j = JRUNNING
          \<and> (case jb_lease_expires_at j of None \<Rightarrow> False | Some t \<Rightarrow> now < t))"

definition mem_renew_owned_job_lease ::
  "string \<Rightarrow> string \<Rightarrow> datetime \<Rightarrow> datetime \<Rightarrow> memory \<Rightarrow> bool \<times> memory" where
  "mem_renew_owned_job_lease job_id owner_id now lease m =
     (case map_of (me_jobs m) job_id of
        None \<Rightarrow> (False, m)
      | Some j \<Rightarrow>
          (if \<not> owned_at (Some j) owner_id now then (False, m)
           else (True, m\<lparr>me_jobs := AList.update job_id
                    (replace_job j JRUNNING now None (Some owner_id) (Some lease) (Some (jb_progress j))) (me_jobs m)\<rparr>)))"

definition mem_update_owned_job_progress ::
  "string \<Rightarrow> string \<Rightarrow> job_progress \<Rightarrow> datetime \<Rightarrow> memory \<Rightarrow> bool \<times> memory" where
  "mem_update_owned_job_progress job_id owner_id p now m =
     (case map_of (me_jobs m) job_id of
        None \<Rightarrow> (False, m)
      | Some j \<Rightarrow>
          (if \<not> owned_at (Some j) owner_id now then (False, m)
           else (True, m\<lparr>me_jobs := AList.update job_id
                    (replace_job j JRUNNING (jb_updated_at j) None (Some owner_id) (jb_lease_expires_at j) (Some p))
                    (me_jobs m)\<rparr>)))"

definition mem_finish_owned_job ::
  "string \<Rightarrow> string \<Rightarrow> job_state \<Rightarrow> string option \<Rightarrow> datetime \<Rightarrow> job_progress \<Rightarrow> apply_result option \<Rightarrow> memory
     \<Rightarrow> (fill_error + bool) \<times> memory" where
  "mem_finish_owned_job job_id owner_id state error_code now p apply_result m =
     (case map_of (me_jobs m) job_id of
        None \<Rightarrow> (Inr False, m)
      | Some j \<Rightarrow>
          (if \<not> owned_at (Some j) owner_id now then (Inr False, m)
           else
             (let finished = replace_job j state now error_code None None (Some p);
                  done = m\<lparr>me_jobs := AList.update job_id finished (me_jobs m)\<rparr>
              in case apply_result of
                   None \<Rightarrow> (Inr True, done)
                 | Some r \<Rightarrow>
                     (case map_of (me_apply_jobs m) job_id of
                        None \<Rightarrow> (Inl (ValueError ''apply result requires an apply job''), m)
                      | Some a \<Rightarrow>
                          (case built_apply (a\<lparr>aj_job := finished, aj_result := Some r\<rparr>) of
                             Inl e \<Rightarrow> (Inl e, m)
                           | Inr a' \<Rightarrow>
                               (Inr True, done\<lparr>me_apply_jobs := AList.update job_id a' (me_apply_jobs m)\<rparr>))))))"

definition cancel_answer :: "cancel_outcome \<Rightarrow> job_record \<Rightarrow> job_record \<Rightarrow> cancel_result" where
  "cancel_answer outcome shown previous =
     \<lparr>cl_outcome = outcome, cl_job = Some shown, cl_previous_state = Some (jb_state previous),
      cl_previous_owner_id = jb_owner_id previous\<rparr>"

text \<open>A job that ends by no act of its owner: cancelled, or its lease ran out.\<close>

definition failed_job :: "string \<Rightarrow> datetime \<Rightarrow> job_record \<Rightarrow> job_record" where
  "failed_job error_code now j =
     replace_job j JFAILED now (Some error_code) None None
       (Some (terminal_progress (jb_progress j) now (jb_operation j = APPLY)))"

definition mem_cancel_job :: "string \<Rightarrow> datetime \<Rightarrow> memory \<Rightarrow> cancel_result \<times> memory" where
  "mem_cancel_job job_id now m =
     (case map_of (me_jobs m) job_id of
        None \<Rightarrow> (\<lparr>cl_outcome = NOT_FOUND, cl_job = None, cl_previous_state = None, cl_previous_owner_id = None\<rparr>, m)
      | Some j \<Rightarrow>
          (if jb_operation j = APPLY then (cancel_answer NOT_CANCELLABLE j j, m)
           else if jb_state j = JFAILED \<and> jb_error_code j = Some JOB_CANCELLED_ERROR_CODE
             then (cancel_answer ALREADY_CANCELLED j j, m)
           else if \<not> job_active j then (cancel_answer ALREADY_TERMINAL j j, m)
           else
             (let cancelled = failed_job JOB_CANCELLED_ERROR_CODE now j
              in (cancel_answer CANCELLED cancelled j,
                  m\<lparr>me_jobs := AList.update job_id cancelled (me_jobs m)\<rparr>))))"

definition job_expired :: "datetime \<Rightarrow> job_record \<Rightarrow> bool" where
  "job_expired now j \<longleftrightarrow>
     jb_state j = JRUNNING \<and> (case jb_lease_expires_at j of None \<Rightarrow> True | Some t \<Rightarrow> t \<le> now)"

definition mem_fail_expired_jobs :: "datetime \<Rightarrow> string \<Rightarrow> memory \<Rightarrow> nat \<times> memory" where
  "mem_fail_expired_jobs now error_code m =
     (let expired = filter (job_expired now) (dict_values (me_jobs m))
      in (length expired,
          m\<lparr>me_jobs := fold (\<lambda>j. AList.update (jb_job_id j) (failed_job error_code now j)) expired (me_jobs m)\<rparr>))"

definition mem_get_job :: "string \<Rightarrow> memory \<Rightarrow> job_record option" where
  "mem_get_job job_id m = map_of (me_jobs m) job_id"

definition mem_list_jobs :: "job_state list option \<Rightarrow> memory \<Rightarrow> job_record list" where
  "mem_list_jobs states m =
     sort_key queue_key
       (filter (\<lambda>j. case states of None \<Rightarrow> True | Some ss \<Rightarrow> jb_state j \<in> set ss) (dict_values (me_jobs m)))"

section \<open>Journals\<close>

definition mem_save_move_journal :: "journal_record \<Rightarrow> memory \<Rightarrow> (fill_error + unit) \<times> memory" where
  "mem_save_move_journal r m =
     (case require_candidate (jo_plan_id r) (jo_candidate_id r) m of
        Inl e \<Rightarrow> (Inl e, m)
      | Inr _ \<Rightarrow>
          (let key = (jo_plan_id r, jo_candidate_id r)
           in case validate_journal_transition (map_option jo_state (map_of (me_journal m) key)) (jo_state r) of
                Inl e \<Rightarrow> (Inl e, m)
              | Inr _ \<Rightarrow> (Inr (), m\<lparr>me_journal := AList.update key r (me_journal m)\<rparr>)))"

definition mem_get_move_journal :: "string \<Rightarrow> string \<Rightarrow> memory \<Rightarrow> journal_record option" where
  "mem_get_move_journal plan_id candidate_id m = map_of (me_journal m) (plan_id, candidate_id)"

definition journal_key :: "journal_record \<Rightarrow> datetime \<times> string \<times> string" where
  "journal_key r = (jo_updated_at r, jo_plan_id r, jo_candidate_id r)"

definition mem_list_unreconciled_moves :: "memory \<Rightarrow> journal_record list" where
  "mem_list_unreconciled_moves m =
     sort_key journal_key (filter (\<lambda>r. jo_state r \<noteq> RECONCILED) (dict_values (me_journal m)))"

text \<open>\<^verbatim>\<open>_save_cloud_move_operation_locked\<close>.\<close>

definition save_operation_locked :: "cloud_operation \<Rightarrow> memory \<Rightarrow> (fill_error + unit) \<times> memory" where
  "save_operation_locked r m =
     (case require_candidate (op_plan_id r) (op_candidate_id r) m of
        Inl e \<Rightarrow> (Inl e, m)
      | Inr c \<Rightarrow>
          (if cr_kind c \<noteq> CLOUD_STRM then (Inl (ValueError ''CloudDrive operations require a CloudDrive candidate''), m)
           else if cr_cloud_source_path c \<noteq> Some (op_source_path r)
             \<or> cr_cloud_destination_dir c \<noteq> Some (op_destination_dir r)
             then (Inl (ValueError ''CloudDrive operation paths must match its candidate''), m)
           else
             (let key = (op_plan_id r, op_candidate_id r); current = map_of (me_operations m) key
              in case validate_cloud_move_transition (map_option op_state current) (op_state r) of
                   Inl e \<Rightarrow> (Inl e, m)
                 | Inr _ \<Rightarrow>
                     (if (case current of None \<Rightarrow> False | Some q \<Rightarrow> op_attempt_id q \<noteq> op_attempt_id r)
                      then (Inl (ValueError ''CloudDrive operation attempt id cannot change''), m)
                      else if \<not> cloud_terminal (op_state r)
                        \<and> list_ex (\<lambda>(k, q). k \<noteq> key \<and> op_source_path q = op_source_path r \<and> \<not> cloud_terminal (op_state q))
                            (me_operations m)
                      then (Inl (ValueError ''CloudDrive source already has an unresolved operation''), m)
                      else (Inr (), m\<lparr>me_operations := AList.update key r (me_operations m)\<rparr>)))))"

definition mem_save_cloud_move_operation :: "cloud_operation \<Rightarrow> memory \<Rightarrow> (fill_error + unit) \<times> memory" where
  "mem_save_cloud_move_operation r m =
     (if cloud_terminal (op_state r)
      then (Inl (ValueError ''terminal CloudDrive operations must be finalized with their result''), m)
      else save_operation_locked r m)"

definition mem_get_cloud_move_operation :: "string \<Rightarrow> string \<Rightarrow> memory \<Rightarrow> cloud_operation option" where
  "mem_get_cloud_move_operation plan_id candidate_id m = map_of (me_operations m) (plan_id, candidate_id)"

definition operation_key :: "cloud_operation \<Rightarrow> datetime \<times> string \<times> string" where
  "operation_key r = (op_updated_at r, op_plan_id r, op_candidate_id r)"

definition mem_list_unresolved_cloud_moves :: "memory \<Rightarrow> cloud_operation list" where
  "mem_list_unresolved_cloud_moves m =
     sort_key operation_key (filter (\<lambda>r. \<not> cloud_terminal (op_state r)) (dict_values (me_operations m)))"

definition mem_finalize_cloud_move ::
  "cloud_operation \<Rightarrow> move_result \<Rightarrow> memory \<Rightarrow> (fill_error + unit) \<times> memory" where
  "mem_finalize_cloud_move r result m =
     (if \<not> cloud_terminal (op_state r) then (Inl (ValueError ''finalized CloudDrive operation must be terminal''), m)
      else case require_matching_candidate (op_plan_id r) (res_candidate_id result) (res_video_id result) m of
             Inl e \<Rightarrow> (Inl e, m)
           | Inr _ \<Rightarrow>
               (if res_candidate_id result \<noteq> op_candidate_id r
                then (Inl (ValueError ''CloudDrive result must match its operation''), m)
                else case save_operation_locked r m of
                       (Inl e, m') \<Rightarrow> (Inl e, m')
                     | (Inr _, m') \<Rightarrow> (Inr (), put_result (op_plan_id r) (op_candidate_id r) result m')))"

end
