(* ===== verification/Fill_Postgres.thy ===== *)
theory Fill_Postgres
  imports Fill_Memory
begin

text \<open>
  \<^verbatim>\<open>fill_actor/postgres_repository.py\<close>: the same methods over the tables of
  \<^verbatim>\<open>db.py\<close>. A method is one transaction; one that raises is rolled back and leaves the
  tables as they were. A column that holds JSON is the value it decodes to, a
  \<^verbatim>\<open>timestamptz\<close> the instant it names, and text is ordered as Python orders it. Deleting a
  row deletes the rows that refer to it where the schema says \<^verbatim>\<open>ON DELETE CASCADE\<close>.
\<close>

section \<open>Tables\<close>

record plan_row =
  pw_plan_id :: string
  pw_revision :: string
  pw_public_json :: fill_plan
  pw_created_at :: datetime
  pw_expires_at :: datetime
  pw_config_version :: int

record candidate_row =
  cw_plan_id :: string
  cw_candidate_id :: string
  cw_video_id :: string
  cw_source_path :: string
  cw_source_root :: string
  cw_destination_path :: string
  cw_fingerprint_device :: int
  cw_fingerprint_inode :: int
  cw_fingerprint_size :: int
  cw_fingerprint_mtime_ns :: int
  cw_fingerprint_ctime_ns :: int
  cw_candidate_kind :: candidate_kind
  cw_mapping_sha256 :: "string option"
  cw_cloud_source_path :: "string option"
  cw_cloud_destination_dir :: "string option"
  cw_cloud_file_json :: "cloud_file option"

record result_row =
  rw_plan_id :: string
  rw_candidate_id :: string
  rw_result_json :: move_result

record job_row =
  jw_job_id :: string
  jw_operation :: job_operation
  jw_state :: job_state
  jw_created_at :: datetime
  jw_updated_at :: datetime
  jw_plan_id :: "string option"
  jw_error_code :: "string option"
  jw_owner_id :: "string option"
  jw_lease_expires_at :: "datetime option"
  jw_actor_ids_json :: "string list"
  jw_progress_stage :: job_stage
  jw_progress_completed :: int
  jw_progress_total :: "int option"
  jw_progress_unit :: progress_unit
  jw_progress_current :: "string option"
  jw_progress_stage_started_at :: datetime
  jw_progress_updated_at :: datetime

record apply_row =
  aw_job_id :: string
  aw_revision :: string
  aw_candidate_ids_json :: "string list"
  aw_result_json :: "apply_result option"

record fill_tables =
  sq_plans :: "plan_row list"
  sq_candidates :: "candidate_row list"
  sq_results :: "result_row list"
  sq_jobs :: "job_row list"
  sq_apply_jobs :: "apply_row list"
  sq_journal :: "journal_record list"
  sq_operations :: "cloud_operation list"

definition empty_tables :: fill_tables where
  "empty_tables = \<lparr>sq_plans = [], sq_candidates = [], sq_results = [], sq_jobs = [], sq_apply_jobs = [],
     sq_journal = [], sq_operations = []\<rparr>"

text \<open>INSERT ... ON CONFLICT (key) DO UPDATE SET: \<open>merge q r\<close> is the row \<open>q\<close> with the columns of \<open>r\<close>.\<close>

fun upsert :: "('r \<Rightarrow> 'k) \<Rightarrow> ('r \<Rightarrow> 'r \<Rightarrow> 'r) \<Rightarrow> 'r \<Rightarrow> 'r list \<Rightarrow> 'r list" where
  "upsert key merge r [] = [r]"
| "upsert key merge r (q # qs) = (if key q = key r then merge q r # qs else q # upsert key merge r qs)"

definition whole_row :: "'r \<Rightarrow> 'r \<Rightarrow> 'r" where
  "whole_row q r = r"

definition candidate_key :: "candidate_row \<Rightarrow> string \<times> string" where
  "candidate_key r = (cw_plan_id r, cw_candidate_id r)"

definition result_key :: "result_row \<Rightarrow> string \<times> string" where
  "result_key r = (rw_plan_id r, rw_candidate_id r)"

definition journal_id :: "journal_record \<Rightarrow> string \<times> string" where
  "journal_id r = (jo_plan_id r, jo_candidate_id r)"

definition operation_id :: "cloud_operation \<Rightarrow> string \<times> string" where
  "operation_id r = (op_plan_id r, op_candidate_id r)"

section \<open>Rows and records\<close>

definition row_of_candidate :: "string \<Rightarrow> candidate_record \<Rightarrow> candidate_row" where
  "row_of_candidate plan_id c =
     \<lparr>cw_plan_id = plan_id, cw_candidate_id = cr_candidate_id c, cw_video_id = cr_video_id c,
      cw_source_path = cr_source c, cw_source_root = cr_source_root c, cw_destination_path = cr_destination c,
      cw_fingerprint_device = fg_device (cr_fingerprint c), cw_fingerprint_inode = fg_inode (cr_fingerprint c),
      cw_fingerprint_size = fg_size (cr_fingerprint c), cw_fingerprint_mtime_ns = fg_mtime_ns (cr_fingerprint c),
      cw_fingerprint_ctime_ns = fg_ctime_ns (cr_fingerprint c), cw_candidate_kind = cr_kind c,
      cw_mapping_sha256 = cr_mapping_sha256 c, cw_cloud_source_path = cr_cloud_source_path c,
      cw_cloud_destination_dir = cr_cloud_destination_dir c, cw_cloud_file_json = cr_cloud_file c\<rparr>"

definition candidate_of_row :: "candidate_row \<Rightarrow> candidate_record" where
  "candidate_of_row r =
     \<lparr>cr_candidate_id = cw_candidate_id r, cr_video_id = cw_video_id r, cr_source = cw_source_path r,
      cr_source_root = cw_source_root r, cr_destination = cw_destination_path r,
      cr_fingerprint = \<lparr>fg_device = cw_fingerprint_device r, fg_inode = cw_fingerprint_inode r,
        fg_size = cw_fingerprint_size r, fg_mtime_ns = cw_fingerprint_mtime_ns r, fg_ctime_ns = cw_fingerprint_ctime_ns r\<rparr>,
      cr_kind = cw_candidate_kind r, cr_mapping_sha256 = cw_mapping_sha256 r,
      cr_cloud_source_path = cw_cloud_source_path r, cr_cloud_destination_dir = cw_cloud_destination_dir r,
      cr_cloud_file = cw_cloud_file_json r\<rparr>"

definition progress_of_row :: "job_row \<Rightarrow> job_progress" where
  "progress_of_row r =
     \<lparr>jp_stage = jw_progress_stage r, jp_completed = jw_progress_completed r, jp_total = jw_progress_total r,
      jp_unit = jw_progress_unit r, jp_current = jw_progress_current r,
      jp_stage_started_at = jw_progress_stage_started_at r, jp_updated_at = jw_progress_updated_at r\<rparr>"

definition job_of_row :: "job_row \<Rightarrow> job_record" where
  "job_of_row r =
     \<lparr>jb_job_id = jw_job_id r, jb_operation = jw_operation r, jb_state = jw_state r, jb_created_at = jw_created_at r,
      jb_updated_at = jw_updated_at r, jb_plan_id = jw_plan_id r, jb_error_code = jw_error_code r,
      jb_owner_id = jw_owner_id r, jb_lease_expires_at = jw_lease_expires_at r, jb_actor_ids = jw_actor_ids_json r,
      jb_progress = progress_of_row r\<rparr>"

text \<open>\<^verbatim>\<open>_progress_values\<close>, as the columns an UPDATE sets.\<close>

definition set_progress :: "job_progress \<Rightarrow> job_row \<Rightarrow> job_row" where
  "set_progress p r =
     r\<lparr>jw_progress_stage := jp_stage p, jw_progress_completed := jp_completed p, jw_progress_total := jp_total p,
       jw_progress_unit := jp_unit p, jw_progress_current := jp_current p,
       jw_progress_stage_started_at := jp_stage_started_at p, jw_progress_updated_at := jp_updated_at p\<rparr>"

definition row_of_job :: "job_record \<Rightarrow> job_row" where
  "row_of_job j =
     \<lparr>jw_job_id = jb_job_id j, jw_operation = jb_operation j, jw_state = jb_state j, jw_created_at = jb_created_at j,
      jw_updated_at = jb_updated_at j, jw_plan_id = jb_plan_id j, jw_error_code = jb_error_code j,
      jw_owner_id = jb_owner_id j, jw_lease_expires_at = jb_lease_expires_at j, jw_actor_ids_json = jb_actor_ids j,
      jw_progress_stage = jp_stage (jb_progress j), jw_progress_completed = jp_completed (jb_progress j),
      jw_progress_total = jp_total (jb_progress j), jw_progress_unit = jp_unit (jb_progress j),
      jw_progress_current = jp_current (jb_progress j),
      jw_progress_stage_started_at = jp_stage_started_at (jb_progress j),
      jw_progress_updated_at = jp_updated_at (jb_progress j)\<rparr>"

definition apply_of_rows :: "job_row \<Rightarrow> apply_row \<Rightarrow> fill_error + apply_job" where
  "apply_of_rows j a =
     built_apply \<lparr>aj_job = job_of_row j, aj_revision = aw_revision a, aj_candidate_ids = aw_candidate_ids_json a,
       aj_result = aw_result_json a\<rparr>"

section \<open>Plans\<close>

text \<open>DELETE FROM the candidates, and what cascades from it.\<close>

definition delete_candidates :: "(candidate_row \<Rightarrow> bool) \<Rightarrow> fill_tables \<Rightarrow> fill_tables" where
  "delete_candidates p db =
     (let gone = map candidate_key (filter p (sq_candidates db))
      in db\<lparr>sq_candidates := filter (\<lambda>r. \<not> p r) (sq_candidates db),
            sq_results := filter (\<lambda>r. result_key r \<notin> set gone) (sq_results db),
            sq_journal := filter (\<lambda>r. journal_id r \<notin> set gone) (sq_journal db),
            sq_operations := filter (\<lambda>r. operation_id r \<notin> set gone) (sq_operations db)\<rparr>)"

definition sql_save_plan :: "plan_record \<Rightarrow> fill_tables \<Rightarrow> fill_tables" where
  "sql_save_plan p db =
     (let public = pl_public p; plan_id = fp_plan_id public; ids = map cr_candidate_id (pl_candidates p);
          row = \<lparr>pw_plan_id = plan_id, pw_revision = fp_revision public, pw_public_json = public,
                 pw_created_at = fp_created_at public, pw_expires_at = fp_expires_at public,
                 pw_config_version = pl_config_version p\<rparr>;
          db1 = delete_candidates (\<lambda>r. cw_plan_id r = plan_id \<and> cw_candidate_id r \<notin> set ids)
                  (db\<lparr>sq_plans := upsert pw_plan_id whole_row row (sq_plans db)\<rparr>)
      in db1\<lparr>sq_candidates :=
               fold (\<lambda>c. upsert candidate_key whole_row (row_of_candidate plan_id c)) (pl_candidates p) (sq_candidates db1)\<rparr>)"

definition plan_candidates :: "string \<Rightarrow> candidate_row list \<Rightarrow> candidate_record list" where
  "plan_candidates plan_id rows =
     map candidate_of_row (sort_key cw_candidate_id (filter (\<lambda>r. cw_plan_id r = plan_id) rows))"

definition sql_get_plan :: "string \<Rightarrow> fill_tables \<Rightarrow> fill_error + plan_record option" where
  "sql_get_plan plan_id db =
     (case row_of pw_plan_id plan_id (sq_plans db) of
        None \<Rightarrow> Inr None
      | Some row \<Rightarrow>
          (let p = \<lparr>pl_public = pw_public_json row, pl_candidates = plan_candidates plan_id (sq_candidates db),
                    pl_config_version = pw_config_version row\<rparr>
           in if \<not> list_all candidate_valid (pl_candidates p) then Inl (ValueError ''invalid candidate'')
              else if \<not> plan_valid p then Inl (ValueError ''invalid plan'') else Inr (Some p)))"

definition sql_get_candidate :: "string \<Rightarrow> string \<Rightarrow> fill_tables \<Rightarrow> fill_error + candidate_record option" where
  "sql_get_candidate plan_id candidate_id db =
     (case row_of candidate_key (plan_id, candidate_id) (sq_candidates db) of
        None \<Rightarrow> Inr None
      | Some r \<Rightarrow>
          (if candidate_valid (candidate_of_row r) then Inr (Some (candidate_of_row r))
           else Inl (ValueError ''invalid candidate'')))"

text \<open>The EXISTS clauses of a removal.\<close>

definition sql_plan_in_use :: "string \<Rightarrow> fill_tables \<Rightarrow> bool" where
  "sql_plan_in_use plan_id db \<longleftrightarrow>
     list_ex (\<lambda>r. jo_plan_id r = plan_id \<and> jo_state r \<noteq> RECONCILED) (sq_journal db)
     \<or> list_ex (\<lambda>r. op_plan_id r = plan_id \<and> op_state r \<notin> {CSUCCEEDED, CCONFLICT, CFAILED}) (sq_operations db)
     \<or> list_ex (\<lambda>r. jw_plan_id r = Some plan_id \<and> jw_operation r = APPLY \<and> jw_state r \<in> {JQUEUED, JRUNNING}) (sq_jobs db)"

text \<open>UPDATE fill_actor_jobs SET plan_id = NULL, then DELETE FROM fill_actor_plans.\<close>

definition delete_plans :: "string list \<Rightarrow> fill_tables \<Rightarrow> fill_tables" where
  "delete_plans ids db =
     (let gone = filter (\<lambda>r. pw_plan_id r \<in> set ids) (sq_plans db);
          db1 = db\<lparr>sq_jobs := update_where (\<lambda>r. jw_plan_id r \<in> Some ` set ids) (\<lambda>r. r\<lparr>jw_plan_id := None\<rparr>) (sq_jobs db),
                   sq_plans := filter (\<lambda>r. pw_plan_id r \<notin> set ids) (sq_plans db)\<rparr>
      in delete_candidates (\<lambda>r. cw_plan_id r \<in> pw_plan_id ` set gone) db1)"

definition sql_delete_plan :: "string \<Rightarrow> fill_tables \<Rightarrow> bool \<times> fill_tables" where
  "sql_delete_plan plan_id db =
     (if sql_plan_in_use plan_id db then (False, db)
      else (0 < count_where (\<lambda>r. pw_plan_id r = plan_id) (sq_plans db), delete_plans [plan_id] db))"

definition sql_purge_expired_plans :: "datetime \<Rightarrow> fill_tables \<Rightarrow> nat \<times> fill_tables" where
  "sql_purge_expired_plans now db =
     (let expired = filter (\<lambda>r. pw_expires_at r \<le> now \<and> \<not> sql_plan_in_use (pw_plan_id r) db) (sq_plans db)
      in if expired = [] then (0, db) else (length expired, delete_plans (map pw_plan_id expired) db))"

section \<open>Results\<close>

definition insert_move_result :: "string \<Rightarrow> move_result \<Rightarrow> fill_tables \<Rightarrow> fill_error + fill_tables" where
  "insert_move_result plan_id r db =
     (case row_of candidate_key (plan_id, res_candidate_id r) (sq_candidates db) of
        None \<Rightarrow> Inl (KeyError plan_id (res_candidate_id r))
      | Some c \<Rightarrow>
          (if cw_video_id c \<noteq> res_video_id r then Inl (ValueError ''move result video id does not match candidate'')
           else Inr (db\<lparr>sq_results := upsert result_key whole_row
                   \<lparr>rw_plan_id = plan_id, rw_candidate_id = res_candidate_id r, rw_result_json = r\<rparr> (sq_results db)\<rparr>)))"

text \<open>A transaction: committed, or rolled back and raised.\<close>

definition transact :: "fill_tables \<Rightarrow> (fill_error + fill_tables) \<Rightarrow> (fill_error + unit) \<times> fill_tables" where
  "transact db r = (case r of Inl e \<Rightarrow> (Inl e, db) | Inr db' \<Rightarrow> (Inr (), db'))"

definition sql_save_move_result :: "string \<Rightarrow> move_result \<Rightarrow> fill_tables \<Rightarrow> (fill_error + unit) \<times> fill_tables" where
  "sql_save_move_result plan_id r db = transact db (insert_move_result plan_id r db)"

definition sql_get_move_result :: "string \<Rightarrow> string \<Rightarrow> fill_tables \<Rightarrow> move_result option" where
  "sql_get_move_result plan_id candidate_id db =
     map_option rw_result_json (row_of result_key (plan_id, candidate_id) (sq_results db))"

definition sql_list_move_results :: "string \<Rightarrow> fill_tables \<Rightarrow> move_result list" where
  "sql_list_move_results plan_id db =
     map rw_result_json (sort_key rw_candidate_id (filter (\<lambda>r. rw_plan_id r = plan_id) (sq_results db)))"

section \<open>Jobs\<close>

definition sql_save_job :: "job_record \<Rightarrow> fill_tables \<Rightarrow> fill_tables" where
  "sql_save_job j db = db\<lparr>sq_jobs := upsert jw_job_id whole_row (row_of_job j) (sq_jobs db)\<rparr>"

definition sql_active_jobs :: "fill_tables \<Rightarrow> nat" where
  "sql_active_jobs db = count_where (\<lambda>r. jw_state r \<in> {JQUEUED, JRUNNING}) (sq_jobs db)"

definition sql_enqueue_job :: "job_record \<Rightarrow> nat \<Rightarrow> fill_tables \<Rightarrow> bool \<times> fill_tables" where
  "sql_enqueue_job j max_active db =
     (if max_active \<le> sql_active_jobs db \<or> row_of jw_job_id (jb_job_id j) (sq_jobs db) \<noteq> None then (False, db)
      else (True, sql_save_job j db))"

definition sql_enqueue_apply_job ::
  "apply_job \<Rightarrow> nat \<Rightarrow> fill_tables \<Rightarrow> (fill_error + enqueue_outcome \<times> apply_job option) \<times> fill_tables" where
  "sql_enqueue_apply_job a max_active db =
     (case row_of jw_job_id (jb_job_id (aj_job a)) (sq_jobs db) of
        Some row \<Rightarrow>
          (case row_of aw_job_id (jb_job_id (aj_job a)) (sq_apply_jobs db) of
             Some apply_row \<Rightarrow>
               (if jw_plan_id row = jb_plan_id (aj_job a) \<and> aw_revision apply_row = aj_revision a
                   \<and> aw_candidate_ids_json apply_row = aj_candidate_ids a
                then (case apply_of_rows row apply_row of
                        Inl e \<Rightarrow> (Inl e, db)
                      | Inr r \<Rightarrow> (Inr (EXISTING, Some r), db))
                else (Inr (CONFLICT, None), db))
           | None \<Rightarrow> (Inr (CONFLICT, None), db))
      | None \<Rightarrow>
          (if max_active \<le> sql_active_jobs db then (Inr (FULL, None), db)
           else (Inr (ENQUEUED, Some a),
                 (sql_save_job (aj_job a) db)\<lparr>sq_apply_jobs := sq_apply_jobs db
                    @ [\<lparr>aw_job_id = jb_job_id (aj_job a), aw_revision = aj_revision a,
                        aw_candidate_ids_json = aj_candidate_ids a, aw_result_json = aj_result a\<rparr>]\<rparr>)))"

definition sql_get_apply_job :: "string \<Rightarrow> fill_tables \<Rightarrow> fill_error + apply_job option" where
  "sql_get_apply_job job_id db =
     (case (row_of aw_job_id job_id (sq_apply_jobs db), row_of jw_job_id job_id (sq_jobs db)) of
        (Some a, Some j) \<Rightarrow> (case apply_of_rows j a of Inl e \<Rightarrow> Inl e | Inr r \<Rightarrow> Inr (Some r))
      | _ \<Rightarrow> Inr None)"

definition row_queue_key :: "job_row \<Rightarrow> datetime \<times> string" where
  "row_queue_key r = (jw_created_at r, jw_job_id r)"

text \<open>FOR UPDATE SKIP LOCKED: the rows other transactions hold at this moment are passed over.\<close>

definition sql_claim_next_job ::
  "string set \<Rightarrow> string \<Rightarrow> datetime \<Rightarrow> datetime \<Rightarrow> fill_tables \<Rightarrow> job_record option \<times> fill_tables" where
  "sql_claim_next_job locked owner_id now lease db =
     (case sort_key row_queue_key (filter (\<lambda>r. jw_state r = JQUEUED \<and> jw_job_id r \<notin> locked) (sq_jobs db)) of
        [] \<Rightarrow> (None, db)
      | row # _ \<Rightarrow>
          (Some ((job_of_row row)\<lparr>jb_state := JRUNNING, jb_updated_at := now, jb_owner_id := Some owner_id,
                                  jb_lease_expires_at := Some lease\<rparr>),
           db\<lparr>sq_jobs := update_where (\<lambda>r. jw_job_id r = jw_job_id row \<and> jw_state r = JQUEUED)
                (\<lambda>r. r\<lparr>jw_state := JRUNNING, jw_updated_at := now, jw_owner_id := Some owner_id,
                       jw_lease_expires_at := Some lease\<rparr>) (sq_jobs db)\<rparr>))"

text \<open>The WHERE clause of an owner, after the job's id.\<close>

definition owned_row :: "string \<Rightarrow> datetime \<Rightarrow> job_row \<Rightarrow> bool" where
  "owned_row owner_id now r \<longleftrightarrow>
     jw_owner_id r = Some owner_id \<and> jw_state r = JRUNNING
     \<and> (case jw_lease_expires_at r of None \<Rightarrow> False | Some t \<Rightarrow> now < t)"

definition update_owned ::
  "string \<Rightarrow> string \<Rightarrow> datetime \<Rightarrow> (job_row \<Rightarrow> job_row) \<Rightarrow> fill_tables \<Rightarrow> bool \<times> fill_tables" where
  "update_owned job_id owner_id now f db =
     (let p = (\<lambda>r. jw_job_id r = job_id \<and> owned_row owner_id now r)
      in (count_where p (sq_jobs db) = 1, db\<lparr>sq_jobs := update_where p f (sq_jobs db)\<rparr>))"

definition sql_renew_owned_job_lease ::
  "string \<Rightarrow> string \<Rightarrow> datetime \<Rightarrow> datetime \<Rightarrow> fill_tables \<Rightarrow> bool \<times> fill_tables" where
  "sql_renew_owned_job_lease job_id owner_id now lease db =
     update_owned job_id owner_id now (\<lambda>r. r\<lparr>jw_updated_at := now, jw_lease_expires_at := Some lease\<rparr>) db"

definition sql_update_owned_job_progress ::
  "string \<Rightarrow> string \<Rightarrow> job_progress \<Rightarrow> datetime \<Rightarrow> fill_tables \<Rightarrow> bool \<times> fill_tables" where
  "sql_update_owned_job_progress job_id owner_id p now db = update_owned job_id owner_id now (set_progress p) db"

definition finished_row :: "job_state \<Rightarrow> string option \<Rightarrow> datetime \<Rightarrow> job_progress \<Rightarrow> job_row \<Rightarrow> job_row" where
  "finished_row state error_code now p r =
     set_progress p (r\<lparr>jw_state := state, jw_updated_at := now, jw_error_code := error_code, jw_owner_id := None,
                       jw_lease_expires_at := None\<rparr>)"

definition sql_finish_owned_job ::
  "string \<Rightarrow> string \<Rightarrow> job_state \<Rightarrow> string option \<Rightarrow> datetime \<Rightarrow> job_progress \<Rightarrow> apply_result option \<Rightarrow> fill_tables
     \<Rightarrow> (fill_error + bool) \<times> fill_tables" where
  "sql_finish_owned_job job_id owner_id state error_code now p apply_result db =
     (let (updated, db1) = update_owned job_id owner_id now (finished_row state error_code now p) db
      in if \<not> updated then (Inr False, db)
         else case apply_result of
                None \<Rightarrow> (Inr True, db1)
              | Some result \<Rightarrow>
                  (case (row_of aw_job_id job_id (sq_apply_jobs db1), row_of jw_job_id job_id (sq_jobs db1)) of
                     (Some a, Some j) \<Rightarrow>
                       (case apply_of_rows j (a\<lparr>aw_result_json := Some result\<rparr>) of
                          Inl e \<Rightarrow> (Inl e, db)
                        | Inr _ \<Rightarrow>
                            (if count_where (\<lambda>r. aw_job_id r = job_id) (sq_apply_jobs db1) \<noteq> 1
                             then (Inl (ValueError ''apply result update was not atomic''), db)
                             else (Inr True, db1\<lparr>sq_apply_jobs := update_where (\<lambda>r. aw_job_id r = job_id)
                                       (\<lambda>r. r\<lparr>aw_result_json := Some result\<rparr>) (sq_apply_jobs db1)\<rparr>)))
                   | _ \<Rightarrow> (Inl (ValueError ''apply result requires an apply job''), db)))"

definition sql_terminal_progress :: "job_record \<Rightarrow> datetime \<Rightarrow> job_progress" where
  "sql_terminal_progress j now =
     \<lparr>jp_stage = STAGE_DONE, jp_completed = jp_completed (jb_progress j), jp_total = jp_total (jb_progress j),
      jp_unit = jp_unit (jb_progress j),
      jp_current = (if jb_operation j = APPLY then None else jp_current (jb_progress j)),
      jp_stage_started_at = now, jp_updated_at = now\<rparr>"

definition sql_cancel_job :: "string \<Rightarrow> datetime \<Rightarrow> fill_tables \<Rightarrow> (fill_error + cancel_result) \<times> fill_tables" where
  "sql_cancel_job job_id now db =
     (case row_of jw_job_id job_id (sq_jobs db) of
        None \<Rightarrow>
          (Inr \<lparr>cl_outcome = NOT_FOUND, cl_job = None, cl_previous_state = None, cl_previous_owner_id = None\<rparr>, db)
      | Some row \<Rightarrow>
          (let current = job_of_row row
           in if jb_operation current = APPLY then (Inr (cancel_answer NOT_CANCELLABLE current current), db)
              else if jb_state current = JFAILED \<and> jb_error_code current = Some JOB_CANCELLED_ERROR_CODE
                then (Inr (cancel_answer ALREADY_CANCELLED current current), db)
              else if \<not> job_active current then (Inr (cancel_answer ALREADY_TERMINAL current current), db)
              else
                (let p = (\<lambda>r. jw_job_id r = job_id \<and> jw_state r \<in> {JQUEUED, JRUNNING});
                     jobs = update_where p
                       (finished_row JFAILED (Some JOB_CANCELLED_ERROR_CODE) now (sql_terminal_progress current now))
                       (sq_jobs db)
                 in if count_where p (sq_jobs db) \<noteq> 1
                    then (Inl (ValueError ''cancelled job transition was not atomic''), db)
                    else case row_of jw_job_id job_id jobs of
                           None \<Rightarrow> (Inl (ValueError ''cancelled job disappeared''), db)
                         | Some row' \<Rightarrow> (Inr (cancel_answer CANCELLED (job_of_row row') current), db\<lparr>sq_jobs := jobs\<rparr>))))"

definition expired_row :: "datetime \<Rightarrow> job_row \<Rightarrow> bool" where
  "expired_row now r \<longleftrightarrow>
     jw_state r = JRUNNING \<and> (case jw_lease_expires_at r of None \<Rightarrow> True | Some t \<Rightarrow> t \<le> now)"

definition sql_fail_expired_jobs :: "datetime \<Rightarrow> string \<Rightarrow> fill_tables \<Rightarrow> nat \<times> fill_tables" where
  "sql_fail_expired_jobs now error_code db =
     (count_where (expired_row now) (sq_jobs db),
      db\<lparr>sq_jobs := update_where (expired_row now)
           (\<lambda>r. r\<lparr>jw_state := JFAILED, jw_updated_at := now, jw_error_code := Some error_code, jw_owner_id := None,
                  jw_lease_expires_at := None, jw_progress_stage := STAGE_DONE,
                  jw_progress_current := (if jw_operation r = APPLY then None else jw_progress_current r),
                  jw_progress_stage_started_at := now, jw_progress_updated_at := now\<rparr>) (sq_jobs db)\<rparr>)"

definition sql_get_job :: "string \<Rightarrow> fill_tables \<Rightarrow> job_record option" where
  "sql_get_job job_id db = map_option job_of_row (row_of jw_job_id job_id (sq_jobs db))"

definition sql_list_jobs :: "job_state list option \<Rightarrow> fill_tables \<Rightarrow> job_record list" where
  "sql_list_jobs states db =
     map job_of_row (sort_key row_queue_key
       (filter (\<lambda>r. case states of None \<Rightarrow> True | Some ss \<Rightarrow> jw_state r \<in> set ss) (sq_jobs db)))"

section \<open>Journals\<close>

definition sql_save_move_journal :: "journal_record \<Rightarrow> fill_tables \<Rightarrow> (fill_error + unit) \<times> fill_tables" where
  "sql_save_move_journal r db =
     transact db
       (case row_of candidate_key (jo_plan_id r, jo_candidate_id r) (sq_candidates db) of
          None \<Rightarrow> Inl (KeyError (jo_plan_id r) (jo_candidate_id r))
        | Some _ \<Rightarrow>
            (case validate_journal_transition
                    (map_option jo_state (row_of journal_id (jo_plan_id r, jo_candidate_id r) (sq_journal db)))
                    (jo_state r) of
               Inl e \<Rightarrow> Inl e
             | Inr _ \<Rightarrow>
                 Inr (db\<lparr>sq_journal := upsert journal_id
                        (\<lambda>q r. q\<lparr>jo_state := jo_state r, jo_updated_at := jo_updated_at r\<rparr>) r (sq_journal db)\<rparr>)))"

definition sql_get_move_journal :: "string \<Rightarrow> string \<Rightarrow> fill_tables \<Rightarrow> journal_record option" where
  "sql_get_move_journal plan_id candidate_id db = row_of journal_id (plan_id, candidate_id) (sq_journal db)"

definition sql_list_unreconciled_moves :: "fill_tables \<Rightarrow> journal_record list" where
  "sql_list_unreconciled_moves db = sort_key journal_key (filter (\<lambda>r. jo_state r \<noteq> RECONCILED) (sq_journal db))"

text \<open>The partial unique index on the source of an unfinished operation.\<close>

definition active_sources_ok :: "cloud_operation list \<Rightarrow> bool" where
  "active_sources_ok rows \<longleftrightarrow>
     distinct (map op_source_path
       (filter (\<lambda>r. op_state r \<in> {CPREPARED, CSUBMITTING, CVERIFYING, CUNKNOWN}) rows))"

definition execute_save_operation :: "cloud_operation \<Rightarrow> fill_tables \<Rightarrow> fill_error + fill_tables" where
  "execute_save_operation r db =
     (case row_of candidate_key (op_plan_id r, op_candidate_id r) (sq_candidates db) of
        None \<Rightarrow> Inl (KeyError (op_plan_id r) (op_candidate_id r))
      | Some c \<Rightarrow>
          (if cw_candidate_kind c \<noteq> CLOUD_STRM then Inl (ValueError ''CloudDrive operations require a CloudDrive candidate'')
           else if cw_cloud_source_path c \<noteq> Some (op_source_path r)
             \<or> cw_cloud_destination_dir c \<noteq> Some (op_destination_dir r)
             then Inl (ValueError ''CloudDrive operation paths must match its candidate'')
           else
             (let current = row_of operation_id (op_plan_id r, op_candidate_id r) (sq_operations db)
              in case validate_cloud_move_transition (map_option op_state current) (op_state r) of
                   Inl e \<Rightarrow> Inl e
                 | Inr _ \<Rightarrow>
                     (if (case current of None \<Rightarrow> False | Some q \<Rightarrow> op_attempt_id q \<noteq> op_attempt_id r)
                      then Inl (ValueError ''CloudDrive operation attempt id cannot change'')
                      else
                        (let rows = upsert operation_id
                               (\<lambda>q r. q\<lparr>op_state := op_state r, op_updated_at := op_updated_at r,
                                        op_error_code := op_error_code r\<rparr>) r (sq_operations db)
                         in if \<not> active_sources_ok rows
                            then Inl (ValueError ''CloudDrive source already has an unresolved operation'')
                            else Inr (db\<lparr>sq_operations := rows\<rparr>))))))"

definition sql_save_cloud_move_operation :: "cloud_operation \<Rightarrow> fill_tables \<Rightarrow> (fill_error + unit) \<times> fill_tables" where
  "sql_save_cloud_move_operation r db =
     (if cloud_terminal (op_state r)
      then (Inl (ValueError ''terminal CloudDrive operations must be finalized with their result''), db)
      else transact db (execute_save_operation r db))"

definition sql_get_cloud_move_operation :: "string \<Rightarrow> string \<Rightarrow> fill_tables \<Rightarrow> cloud_operation option" where
  "sql_get_cloud_move_operation plan_id candidate_id db = row_of operation_id (plan_id, candidate_id) (sq_operations db)"

definition sql_list_unresolved_cloud_moves :: "fill_tables \<Rightarrow> cloud_operation list" where
  "sql_list_unresolved_cloud_moves db =
     sort_key operation_key (filter (\<lambda>r. op_state r \<notin> {CSUCCEEDED, CCONFLICT, CFAILED}) (sq_operations db))"

definition sql_finalize_cloud_move ::
  "cloud_operation \<Rightarrow> move_result \<Rightarrow> fill_tables \<Rightarrow> (fill_error + unit) \<times> fill_tables" where
  "sql_finalize_cloud_move r result db =
     (if \<not> cloud_terminal (op_state r) then (Inl (ValueError ''finalized CloudDrive operation must be terminal''), db)
      else if op_candidate_id r \<noteq> res_candidate_id result
        then (Inl (ValueError ''CloudDrive result must match its operation''), db)
      else transact db
             (case execute_save_operation r db of
                Inl e \<Rightarrow> Inl e
              | Inr db1 \<Rightarrow> insert_move_result (op_plan_id r) result db1))"

end
