(* ===== verification/Fill_Refines.thy ===== *)
theory Fill_Refines
  imports Fill_Postgres "HOL-Library.Multiset"
begin

text \<open>
  The PostgreSQL repository mirrors its specification: a relation between tables and dicts,
  what both keep of it, and one simulation lemma per method. A dict is read off a table row
  by row, so most of the relation is an equation.
\<close>

section \<open>Dicts read off tables\<close>

definition dict_of :: "('r \<Rightarrow> 'k) \<Rightarrow> ('r \<Rightarrow> 'v) \<Rightarrow> 'r list \<Rightarrow> ('k \<times> 'v) list" where
  "dict_of key val rs = map (\<lambda>r. (key r, val r)) rs"

lemma dict_of_simps [simp]:
  "dict_of key val [] = []" "dict_of key val (r # rs) = (key r, val r) # dict_of key val rs"
  "dict_of key val (rs @ rs') = dict_of key val rs @ dict_of key val rs'"
  by (simp_all add: dict_of_def)

lemma dict_values_of [simp]: "dict_values (dict_of key val rs) = map val rs"
  by (simp add: dict_values_def dict_of_def)

lemma keys_dict_of [simp]: "map fst (dict_of key val rs) = map key rs"
  by (simp add: dict_of_def)

lemma map_of_dict_of: "map_of (dict_of key val rs) k = map_option val (row_of key k rs)"
  by (induction rs) (auto simp: row_of_Cons)

lemma update_dict_of:
  assumes "unique_key key rs" and "row_of key k rs = Some r" and "p r" and "key (f r) = k" and "val (f r) = v"
  shows "dict_of key val (update_where (\<lambda>r. key r = k \<and> p r) f rs) = AList.update k v (dict_of key val rs)"
  using assms
proof (induction rs)
  case Nil
  then show ?case by simp
next
  case (Cons a rs)
  show ?case
  proof (cases "key a = k")
    case True
    with Cons.prems have "a = r" and "\<forall>x \<in> set rs. key x \<noteq> k"
      by (auto simp: row_of_Cons unique_key_def) (metis image_eqI)
    then have "map (\<lambda>r. if key r = k \<and> p r then f r else r) rs = rs" by (simp add: map_idI)
    with True \<open>a = r\<close> Cons.prems show ?thesis by (simp add: update_where_def)
  next
    case False
    with Cons show ?thesis by (simp add: update_where_def row_of_Cons unique_key_def)
  qed
qed

lemma upsert_dict_of:
  assumes "\<And>q. q \<in> set rs \<Longrightarrow> key q = key r \<Longrightarrow> key (merge q r) = key r \<and> val (merge q r) = val r"
  shows "dict_of key val (upsert key merge r rs) = AList.update (key r) (val r) (dict_of key val rs)"
  using assms by (induction rs) auto

lemma filter_dict_of:
  assumes "\<And>r. r \<in> set rs \<Longrightarrow> p r \<longleftrightarrow> q (key r, val r)"
  shows "dict_of key val (filter p rs) = filter q (dict_of key val rs)"
  using assms by (induction rs) auto

lemma sort_key_map: "sort_key f (map g xs) = map g (sort_key (\<lambda>x. f (g x)) xs)"
proof -
  have "insort_key f (g x) (map g ys) = map g (insort_key (\<lambda>x. f (g x)) x ys)" for x ys
    by (induction ys) auto
  then show ?thesis by (induction xs) auto
qed

lemma sort_key_cong: "(\<And>x. x \<in> set xs \<Longrightarrow> f x = g x) \<Longrightarrow> sort_key f xs = sort_key g xs"
proof (induction xs)
  case Nil
  then show ?case by simp
next
  case (Cons a xs)
  have "insort_key f a ys = insort_key g a ys" if "set ys \<subseteq> set xs" for ys
    using that Cons.prems by (induction ys) auto
  with Cons show ?case by simp
qed

lemma row_of_same_set:
  assumes "unique_key key xs" and "unique_key key ys" and "set xs = set ys"
  shows "row_of key k xs = row_of key k ys"
proof (cases "row_of key k xs")
  case None
  with assms(3) have "row_of key k ys = None" by (simp add: row_of_None_iff)
  with None show ?thesis by simp
next
  case (Some r)
  then have "r \<in> set ys" and "key r = k" using assms(3) by (auto dest: row_of_Some)
  with assms(2) Some show ?thesis using row_of_in by fastforce
qed

lemma unique_key_sort [simp]: "unique_key key (sort_key f xs) \<longleftrightarrow> unique_key key xs"
proof -
  have "mset (map key (sort_key f xs)) = mset (map key xs)" by (simp only: mset_map mset_sort)
  then show ?thesis unfolding unique_key_def by (metis mset_eq_imp_distinct_iff)
qed

lemma row_of_sort [simp]: "unique_key key xs \<Longrightarrow> row_of key k (sort_key f xs) = row_of key k xs"
  by (rule row_of_same_set) simp_all

lemma sort_key_same_set:
  assumes "unique_key key xs" and "unique_key key ys" and "set xs = set ys"
  shows "sort_key key xs = sort_key key ys"
proof -
  have "distinct xs" and "distinct ys" and inj: "inj_on key (set xs)"
    using assms by (auto simp: unique_key_def distinct_map)
  then have "mset xs = mset (sort_key key ys)" using assms(3) by (simp add: set_eq_iff_mset_eq_distinct)
  then show ?thesis using inj by (rule sort_key_inj_key_eq) simp
qed

lemma unique_key_upsert [simp]:
  assumes "\<And>q. key q = key r \<Longrightarrow> key (merge q r) = key r"
  shows "unique_key key (upsert key merge r rs) \<longleftrightarrow> unique_key key rs"
proof -
  have "key ` set (upsert key merge r qs) = insert (key r) (key ` set qs)" for qs
    using assms by (induction qs) auto
  then show ?thesis using assms by (induction rs) (auto simp: unique_key_def)
qed

lemma upsert_fresh: "row_of key (key r) rs = None \<Longrightarrow> upsert key merge r rs = rs @ [r]"
  by (induction rs) (auto simp: row_of_Cons split: if_splits)

lemma AList_update_fresh: "map_of d k = None \<Longrightarrow> AList.update k v d = d @ [(k, v)]"
  by (induction d) (auto split: if_splits)

section \<open>The relation\<close>

definition plan_of :: "fill_tables \<Rightarrow> plan_row \<Rightarrow> plan_record" where
  "plan_of db row =
     \<lparr>pl_public = pw_public_json row, pl_candidates = plan_candidates (pw_plan_id row) (sq_candidates db),
      pl_config_version = pw_config_version row\<rparr>"

text \<open>A plan read back lists its candidates by their ids; nothing looks at their order.\<close>

definition sorted_plan :: "plan_record \<Rightarrow> plan_record" where
  "sorted_plan p = p\<lparr>pl_candidates := sort_key cr_candidate_id (pl_candidates p)\<rparr>"

definition mirrors :: "fill_tables \<Rightarrow> memory \<Rightarrow> bool" where
  "mirrors db m \<longleftrightarrow>
     dict_of pw_plan_id (plan_of db) (sq_plans db) = map (\<lambda>(k, p). (k, sorted_plan p)) (me_plans m)
     \<and> dict_of result_key rw_result_json (sq_results db) = me_results m
     \<and> dict_of jw_job_id job_of_row (sq_jobs db) = me_jobs m
     \<and> dict_of aw_job_id (\<lambda>r. (aw_revision r, aw_candidate_ids_json r, aw_result_json r)) (sq_apply_jobs db)
         = map (\<lambda>(k, a). (k, aj_revision a, aj_candidate_ids a, aj_result a)) (me_apply_jobs m)
     \<and> dict_of journal_id (\<lambda>r. r) (sq_journal db) = me_journal m
     \<and> dict_of operation_id (\<lambda>r. r) (sq_operations db) = me_operations m"

text \<open>What the schema keeps of the rows the relation does not show.\<close>

definition tables_ok :: "fill_tables \<Rightarrow> bool" where
  "tables_ok db \<longleftrightarrow>
     unique_key candidate_key (sq_candidates db)
     \<and> (\<forall>r \<in> set (sq_candidates db). cw_plan_id r \<in> pw_plan_id ` set (sq_plans db))
     \<and> (\<forall>row \<in> set (sq_plans db). pw_plan_id row = fp_plan_id (pw_public_json row)
          \<and> pw_expires_at row = fp_expires_at (pw_public_json row))"

text \<open>
  What every method keeps of the dicts: keys name their records, a journal or operation or
  result has a candidate, an operation has its candidate's paths, an apply record has a job
  it is valid with, and a job that is queued or running has no error.
\<close>

definition keys_ok :: "memory \<Rightarrow> bool" where
  "keys_ok m \<longleftrightarrow>
     distinct (map fst (me_plans m)) \<and> distinct (map fst (me_results m)) \<and> distinct (map fst (me_jobs m))
     \<and> distinct (map fst (me_apply_jobs m)) \<and> distinct (map fst (me_journal m)) \<and> distinct (map fst (me_operations m))"

definition plan_entry_ok :: "string \<times> plan_record \<Rightarrow> bool" where
  "plan_entry_ok e \<longleftrightarrow>
     fst e = fp_plan_id (pl_public (snd e)) \<and> plan_valid (snd e) \<and> list_all candidate_valid (pl_candidates (snd e))"

definition job_entry_ok :: "string \<times> job_record \<Rightarrow> bool" where
  "job_entry_ok e \<longleftrightarrow> fst e = jb_job_id (snd e) \<and> (job_active (snd e) \<longrightarrow> jb_error_code (snd e) = None)"

definition apply_entry_ok :: "(string \<times> job_record) list \<Rightarrow> string \<times> apply_job \<Rightarrow> bool" where
  "apply_entry_ok js e \<longleftrightarrow>
     (\<exists>j. map_of js (fst e) = Some j \<and> jb_plan_id (aj_job (snd e)) = jb_plan_id j
        \<and> apply_valid ((snd e)\<lparr>aj_job := j\<rparr>))"

definition has_candidate :: "memory \<Rightarrow> string \<times> string \<Rightarrow> bool" where
  "has_candidate m key \<longleftrightarrow> mem_get_candidate (fst key) (snd key) m \<noteq> None"

definition operation_entry_ok :: "memory \<Rightarrow> (string \<times> string) \<times> cloud_operation \<Rightarrow> bool" where
  "operation_entry_ok m e \<longleftrightarrow>
     fst e = operation_id (snd e)
     \<and> (\<exists>c. mem_get_candidate (fst (fst e)) (snd (fst e)) m = Some c
          \<and> cr_cloud_source_path c = Some (op_source_path (snd e))
          \<and> cr_cloud_destination_dir c = Some (op_destination_dir (snd e)))"

definition journal_entry_ok :: "memory \<Rightarrow> (string \<times> string) \<times> journal_record \<Rightarrow> bool" where
  "journal_entry_ok m e \<longleftrightarrow> has_candidate m (fst e) \<and> fst e = journal_id (snd e)"

definition memory_ok :: "memory \<Rightarrow> bool" where
  "memory_ok m \<longleftrightarrow>
     keys_ok m \<and> (\<forall>e \<in> set (me_plans m). plan_entry_ok e) \<and> (\<forall>e \<in> set (me_jobs m). job_entry_ok e)
     \<and> (\<forall>e \<in> set (me_apply_jobs m). apply_entry_ok (me_jobs m) e)
     \<and> (\<forall>e \<in> set (me_results m). has_candidate m (fst e))
     \<and> (\<forall>e \<in> set (me_journal m). journal_entry_ok m e)
     \<and> (\<forall>e \<in> set (me_operations m). operation_entry_ok m e)
     \<and> active_sources_ok (dict_values (me_operations m))"

definition refines :: "fill_tables \<Rightarrow> memory \<Rightarrow> bool" where
  "refines db m \<longleftrightarrow> mirrors db m \<and> tables_ok db \<and> memory_ok m"

lemma refines_empty: "refines empty_tables empty_memory"
  by (simp add: refines_def mirrors_def tables_ok_def memory_ok_def keys_ok_def empty_tables_def empty_memory_def
      unique_key_def active_sources_ok_def dict_values_def)

lemma refinesD:
  assumes "refines db m"
  shows "me_jobs m = dict_of jw_job_id job_of_row (sq_jobs db)"
    and "me_results m = dict_of result_key rw_result_json (sq_results db)"
    and "me_journal m = dict_of journal_id (\<lambda>r. r) (sq_journal db)"
    and "me_operations m = dict_of operation_id (\<lambda>r. r) (sq_operations db)"
    and "unique_key jw_job_id (sq_jobs db)" and "unique_key result_key (sq_results db)"
    and "unique_key journal_id (sq_journal db)" and "unique_key operation_id (sq_operations db)"
    and "unique_key candidate_key (sq_candidates db)"
    and "memory_ok m" and "tables_ok db" and "mirrors db m"
proof -
  show jobs: "me_jobs m = dict_of jw_job_id job_of_row (sq_jobs db)"
    and results: "me_results m = dict_of result_key rw_result_json (sq_results db)"
    and journal: "me_journal m = dict_of journal_id (\<lambda>r. r) (sq_journal db)"
    and operations: "me_operations m = dict_of operation_id (\<lambda>r. r) (sq_operations db)"
    using assms by (simp_all add: refines_def mirrors_def)
  have "keys_ok m" using assms by (simp add: refines_def memory_ok_def)
  then show "unique_key jw_job_id (sq_jobs db)" and "unique_key result_key (sq_results db)"
    and "unique_key journal_id (sq_journal db)" and "unique_key operation_id (sq_operations db)"
    by (simp_all add: keys_ok_def unique_key_def jobs results journal operations)
  show "memory_ok m" and ok: "tables_ok db" and "mirrors db m" using assms by (simp_all add: refines_def)
  from ok show "unique_key candidate_key (sq_candidates db)" by (simp add: tables_ok_def)
qed

lemma refines_plans:
  assumes "refines db m"
  shows "map pw_plan_id (sq_plans db) = map fst (me_plans m)"
    and "unique_key pw_plan_id (sq_plans db)"
    and "map_option (plan_of db) (row_of pw_plan_id k (sq_plans db)) = map_option sorted_plan (map_of (me_plans m) k)"
proof -
  have eq: "dict_of pw_plan_id (plan_of db) (sq_plans db) = map (\<lambda>(k, p). (k, sorted_plan p)) (me_plans m)"
    using assms by (simp add: refines_def mirrors_def)
  then have "map fst (dict_of pw_plan_id (plan_of db) (sq_plans db)) = map fst (map (\<lambda>(k, p). (k, sorted_plan p)) (me_plans m))"
    by simp
  then show keys: "map pw_plan_id (sq_plans db) = map fst (me_plans m)"
    by (simp add: comp_def case_prod_beta)
  show "unique_key pw_plan_id (sq_plans db)"
    using assms by (simp add: unique_key_def keys refines_def memory_ok_def keys_ok_def)
  show "map_option (plan_of db) (row_of pw_plan_id k (sq_plans db)) = map_option sorted_plan (map_of (me_plans m) k)"
    unfolding map_of_dict_of [symmetric] eq by (simp add: map_of_map)
qed

lemma refines_apply:
  assumes "refines db m"
  shows "map aw_job_id (sq_apply_jobs db) = map fst (me_apply_jobs m)"
    and "unique_key aw_job_id (sq_apply_jobs db)"
    and "map_option (\<lambda>r. (aw_revision r, aw_candidate_ids_json r, aw_result_json r)) (row_of aw_job_id k (sq_apply_jobs db))
         = map_option (\<lambda>a. (aj_revision a, aj_candidate_ids a, aj_result a)) (map_of (me_apply_jobs m) k)"
proof -
  have eq: "dict_of aw_job_id (\<lambda>r. (aw_revision r, aw_candidate_ids_json r, aw_result_json r)) (sq_apply_jobs db)
      = map (\<lambda>(k, a). (k, aj_revision a, aj_candidate_ids a, aj_result a)) (me_apply_jobs m)"
    using assms by (simp add: refines_def mirrors_def)
  then have "map fst (dict_of aw_job_id (\<lambda>r. (aw_revision r, aw_candidate_ids_json r, aw_result_json r)) (sq_apply_jobs db))
      = map fst (map (\<lambda>(k, a). (k, aj_revision a, aj_candidate_ids a, aj_result a)) (me_apply_jobs m))"
    by simp
  then show keys: "map aw_job_id (sq_apply_jobs db) = map fst (me_apply_jobs m)"
    by (simp add: comp_def case_prod_beta)
  show "unique_key aw_job_id (sq_apply_jobs db)"
    using assms by (simp add: unique_key_def keys refines_def memory_ok_def keys_ok_def)
  show "map_option (\<lambda>r. (aw_revision r, aw_candidate_ids_json r, aw_result_json r)) (row_of aw_job_id k (sq_apply_jobs db))
      = map_option (\<lambda>a. (aj_revision a, aj_candidate_ids a, aj_result a)) (map_of (me_apply_jobs m) k)"
    unfolding map_of_dict_of [symmetric] eq by (simp add: map_of_map)
qed

end
