(* ===== verification/Fill_Mirror_Jobs.thy ===== *)
theory Fill_Mirror_Jobs
  imports Fill_Refines
begin

text \<open>
  The methods on jobs: each answers the same over the tables as over the dicts, and leaves
  them related.
\<close>

lemma mem_get_candidate_frame [simp]:
  "mem_get_candidate p c (m\<lparr>me_jobs := x\<rparr>) = mem_get_candidate p c m"
  "mem_get_candidate p c (m\<lparr>me_apply_jobs := y\<rparr>) = mem_get_candidate p c m"
  "mem_get_candidate p c (m\<lparr>me_results := r\<rparr>) = mem_get_candidate p c m"
  "mem_get_candidate p c (m\<lparr>me_journal := jo\<rparr>) = mem_get_candidate p c m"
  "mem_get_candidate p c (m\<lparr>me_operations := ops\<rparr>) = mem_get_candidate p c m"
  by (simp_all add: mem_get_candidate_def)

lemma candidate_frames [simp]:
  "has_candidate (m\<lparr>me_jobs := x\<rparr>) = has_candidate m"
  "has_candidate (m\<lparr>me_apply_jobs := y\<rparr>) = has_candidate m"
  "has_candidate (m\<lparr>me_results := r\<rparr>) = has_candidate m"
  "has_candidate (m\<lparr>me_journal := jo\<rparr>) = has_candidate m"
  "has_candidate (m\<lparr>me_operations := ops\<rparr>) = has_candidate m"
  "operation_entry_ok (m\<lparr>me_jobs := x\<rparr>) = operation_entry_ok m"
  "operation_entry_ok (m\<lparr>me_apply_jobs := y\<rparr>) = operation_entry_ok m"
  "operation_entry_ok (m\<lparr>me_results := r\<rparr>) = operation_entry_ok m"
  "operation_entry_ok (m\<lparr>me_journal := jo\<rparr>) = operation_entry_ok m"
  "operation_entry_ok (m\<lparr>me_operations := ops\<rparr>) = operation_entry_ok m"
  "journal_entry_ok (m\<lparr>me_jobs := x\<rparr>) = journal_entry_ok m"
  "journal_entry_ok (m\<lparr>me_apply_jobs := y\<rparr>) = journal_entry_ok m"
  "journal_entry_ok (m\<lparr>me_results := r\<rparr>) = journal_entry_ok m"
  "journal_entry_ok (m\<lparr>me_journal := jo\<rparr>) = journal_entry_ok m"
  "journal_entry_ok (m\<lparr>me_operations := ops\<rparr>) = journal_entry_ok m"
  by (simp_all add: fun_eq_iff has_candidate_def operation_entry_ok_def journal_entry_ok_def)

lemma plan_of_frame [simp]:
  "plan_of (db\<lparr>sq_jobs := x\<rparr>) = plan_of db"
  "plan_of (db\<lparr>sq_apply_jobs := y\<rparr>) = plan_of db"
  "plan_of (db\<lparr>sq_results := r\<rparr>) = plan_of db"
  "plan_of (db\<lparr>sq_journal := jo\<rparr>) = plan_of db"
  "plan_of (db\<lparr>sq_operations := ops\<rparr>) = plan_of db"
  by (simp_all add: fun_eq_iff plan_of_def)

lemma tables_ok_frame [simp]:
  "tables_ok (db\<lparr>sq_jobs := x\<rparr>) = tables_ok db"
  "tables_ok (db\<lparr>sq_apply_jobs := y\<rparr>) = tables_ok db"
  "tables_ok (db\<lparr>sq_results := r\<rparr>) = tables_ok db"
  "tables_ok (db\<lparr>sq_journal := jo\<rparr>) = tables_ok db"
  "tables_ok (db\<lparr>sq_operations := ops\<rparr>) = tables_ok db"
  by (simp_all add: tables_ok_def)

lemma job_of_row_fields [simp]:
  "jb_job_id (job_of_row r) = jw_job_id r" "jb_operation (job_of_row r) = jw_operation r"
  "jb_state (job_of_row r) = jw_state r" "jb_created_at (job_of_row r) = jw_created_at r"
  "jb_updated_at (job_of_row r) = jw_updated_at r" "jb_plan_id (job_of_row r) = jw_plan_id r"
  "jb_error_code (job_of_row r) = jw_error_code r" "jb_owner_id (job_of_row r) = jw_owner_id r"
  "jb_lease_expires_at (job_of_row r) = jw_lease_expires_at r" "jb_actor_ids (job_of_row r) = jw_actor_ids_json r"
  "jb_progress (job_of_row r) = progress_of_row r"
  by (simp_all add: job_of_row_def)

lemma in_AList_update: "e \<in> set (AList.update k v d) \<Longrightarrow> e = (k, v) \<or> e \<in> set d"
  by (induction d) (auto split: if_splits)

lemma AList_update_ball:
  "P (k, v) \<Longrightarrow> \<forall>e \<in> set d. P e \<Longrightarrow> \<forall>e \<in> set (AList.update k v d). P e"
  by (auto dest: in_AList_update)

lemmas update_simps = update_conv' distinct_update

text \<open>A job that is still open changes; nothing that refers to it is touched.\<close>

lemma apply_entry_update:
  assumes ok: "apply_entry_ok js e" and j: "map_of js k = Some j" "job_active j"
    and same: "jb_operation j' = jb_operation j" "jb_plan_id j' = jb_plan_id j"
  shows "apply_entry_ok (AList.update k j' js) e"
proof -
  obtain q where q: "map_of js (fst e) = Some q" "jb_plan_id (aj_job (snd e)) = jb_plan_id q"
    and valid: "apply_valid ((snd e)\<lparr>aj_job := q\<rparr>)"
    using ok by (auto simp: apply_entry_ok_def)
  show ?thesis
  proof (cases "fst e = k")
    case True
    with q j have "q = j" by simp
    with valid j(2) have "apply_valid ((snd e)\<lparr>aj_job := j'\<rparr>)"
      using same by (auto simp: apply_valid_def job_active_def split: option.splits)
    with True q \<open>q = j\<close> same show ?thesis by (simp add: apply_entry_ok_def update_simps)
  next
    case False
    with q valid show ?thesis by (simp add: apply_entry_ok_def update_simps)
  qed
qed

lemma job_update_ok:
  assumes ok: "memory_ok m" and j: "map_of (me_jobs m) k = Some j" "job_active j"
    and j': "jb_job_id j' = k" "jb_operation j' = jb_operation j" "jb_plan_id j' = jb_plan_id j"
      "job_active j' \<longrightarrow> jb_error_code j' = None"
  shows "memory_ok (m\<lparr>me_jobs := AList.update k j' (me_jobs m)\<rparr>)"
  using ok j' apply_entry_update [of "me_jobs m" _ k j j', OF _ j j'(2,3)]
  by (auto simp: memory_ok_def keys_ok_def update_simps job_entry_ok_def dest!: in_AList_update)

lemma refines_job_update:
  assumes rel: "refines db m" and r: "row_of jw_job_id k (sq_jobs db) = Some r" "p r"
    and active: "job_active (job_of_row r)"
    and same: "jw_job_id (f r) = jw_job_id r" "jw_operation (f r) = jw_operation r" "jw_plan_id (f r) = jw_plan_id r"
      "job_active (job_of_row (f r)) \<longrightarrow> jw_error_code (f r) = None"
  shows "refines (db\<lparr>sq_jobs := update_where (\<lambda>r. jw_job_id r = k \<and> p r) f (sq_jobs db)\<rparr>)
                 (m\<lparr>me_jobs := AList.update k (job_of_row (f r)) (me_jobs m)\<rparr>)"
proof -
  note D = refinesD [OF rel]
  have k: "jw_job_id r = k" using r(1) by (auto dest: row_of_Some)
  have "memory_ok (m\<lparr>me_jobs := AList.update k (job_of_row (f r)) (me_jobs m)\<rparr>)"
    using D(10) active same k r(1) by (intro job_update_ok [where j = "job_of_row r"]) (simp_all add: D(1) map_of_dict_of)
  moreover have "dict_of jw_job_id job_of_row (update_where (\<lambda>r. jw_job_id r = k \<and> p r) f (sq_jobs db))
      = AList.update k (job_of_row (f r)) (me_jobs m)"
    unfolding D(1) using D(5) r same(1) k by (intro update_dict_of) simp_all
  ultimately show ?thesis
    using D(11,12) by (simp add: refines_def mirrors_def)
qed

lemma owned_same: "owned_at (Some (job_of_row r)) owner_id now = owned_row owner_id now r"
  by (simp add: owned_at_def owned_row_def)

lemma count_owned:
  assumes "unique_key jw_job_id rows"
  shows "count_where (\<lambda>r. jw_job_id r = k \<and> p r) rows = Suc 0
    \<longleftrightarrow> (case row_of jw_job_id k rows of None \<Rightarrow> False | Some r \<Rightarrow> p r)"
  using count_where_key_cases [OF assms, of k p] by (simp split: option.splits)

lemma update_none:
  assumes "unique_key jw_job_id rows" and "case row_of jw_job_id k rows of None \<Rightarrow> True | Some r \<Rightarrow> \<not> p r"
  shows "update_where (\<lambda>r. jw_job_id r = k \<and> p r) f rows = rows"
  using assms(2) by (intro update_where_none) (auto simp: count_where_key [OF assms(1)] split: option.splits)

lemma open_no_error:
  assumes "refines db m" and "row_of jw_job_id k (sq_jobs db) = Some r" and "job_active (job_of_row r)"
  shows "jw_error_code r = None"
proof -
  have "(k, job_of_row r) \<in> set (me_jobs m)"
    using assms(2) by (intro map_of_SomeD) (simp add: refinesD(1) [OF assms(1)] map_of_dict_of)
  with assms(1,3) have "jb_error_code (job_of_row r) = None"
    by (auto simp: refines_def memory_ok_def job_entry_ok_def)
  then show ?thesis by simp
qed

section \<open>What an owner does\<close>

lemma update_owned_mirrors:
  assumes rel: "refines db m"
    and f: "\<And>r. jw_job_id (f r) = jw_job_id r \<and> jw_operation (f r) = jw_operation r \<and> jw_plan_id (f r) = jw_plan_id r"
    and new: "\<And>r. row_of jw_job_id k (sq_jobs db) = Some r \<Longrightarrow> owned_row owner_id now r \<Longrightarrow>
       job_of_row (f r) = g (job_of_row r) \<and> (job_active (job_of_row (f r)) \<longrightarrow> jw_error_code (f r) = None)"
  shows "(case map_of (me_jobs m) k of
            Some j \<Rightarrow>
              (if owned_at (Some j) owner_id now
               then fst (update_owned k owner_id now f db)
                 \<and> refines (snd (update_owned k owner_id now f db)) (m\<lparr>me_jobs := AList.update k (g j) (me_jobs m)\<rparr>)
               else \<not> fst (update_owned k owner_id now f db) \<and> snd (update_owned k owner_id now f db) = db)
          | None \<Rightarrow> \<not> fst (update_owned k owner_id now f db) \<and> snd (update_owned k owner_id now f db) = db)"
proof (cases "row_of jw_job_id k (sq_jobs db)")
  case None
  then show ?thesis
    using refinesD(5) [OF rel]
    by (simp add: count_owned update_none refinesD(1) [OF rel] map_of_dict_of update_owned_def Let_def)
next
  case (Some r)
  note D = refinesD [OF rel]
  show ?thesis
  proof (cases "owned_row owner_id now r")
    case True
    then have "job_active (job_of_row r)" by (simp add: owned_row_def job_active_def)
    then have "refines (snd (update_owned k owner_id now f db))
        (m\<lparr>me_jobs := AList.update k (job_of_row (f r)) (me_jobs m)\<rparr>)"
      unfolding update_owned_def Let_def snd_conv using rel Some True f new [OF Some True]
      by (intro refines_job_update) simp_all
    with True Some D(5) new [OF Some True] show ?thesis
      by (simp add: D(1) map_of_dict_of owned_same update_owned_def Let_def count_owned)
  next
    case False
    with Some D(5) show ?thesis
      by (simp add: D(1) map_of_dict_of owned_same update_owned_def Let_def count_owned update_none)
  qed
qed

lemma job_of_set_progress: "job_of_row (set_progress p r) = (job_of_row r)\<lparr>jb_progress := p\<rparr>"
  by (simp add: job_of_row_def set_progress_def progress_of_row_def)

lemma set_progress_keeps [simp]:
  "jw_job_id (set_progress p r) = jw_job_id r" "jw_operation (set_progress p r) = jw_operation r"
  "jw_plan_id (set_progress p r) = jw_plan_id r" "jw_error_code (set_progress p r) = jw_error_code r"
  "jw_state (set_progress p r) = jw_state r"
  by (simp_all add: set_progress_def)

lemma renew_mirrors:
  assumes "refines db m"
  shows "fst (sql_renew_owned_job_lease k owner_id now lease db) = fst (mem_renew_owned_job_lease k owner_id now lease m)
    \<and> refines (snd (sql_renew_owned_job_lease k owner_id now lease db)) (snd (mem_renew_owned_job_lease k owner_id now lease m))"
proof -
  let ?f = "\<lambda>r. r\<lparr>jw_updated_at := now, jw_lease_expires_at := Some lease\<rparr>"
  let ?g = "\<lambda>j. replace_job j JRUNNING now None (Some owner_id) (Some lease) (Some (jb_progress j))"
  have "job_of_row (?f r) = ?g (job_of_row r)
      \<and> (job_active (job_of_row (?f r)) \<longrightarrow> jw_error_code (?f r) = None)"
    if "row_of jw_job_id k (sq_jobs db) = Some r" and "owned_row owner_id now r" for r
    using that open_no_error [OF assms that(1)]
    by (simp add: owned_row_def job_of_row_def replace_job_def progress_of_row_def job_active_def)
  then show ?thesis
    using update_owned_mirrors [OF assms, where f = ?f and k = k and owner_id = owner_id and now = now and g = ?g] assms
    by (simp add: sql_renew_owned_job_lease_def mem_renew_owned_job_lease_def split: option.splits if_splits)
qed

lemma progress_mirrors:
  assumes "refines db m"
  shows "fst (sql_update_owned_job_progress k owner_id p now db) = fst (mem_update_owned_job_progress k owner_id p now m)
    \<and> refines (snd (sql_update_owned_job_progress k owner_id p now db))
        (snd (mem_update_owned_job_progress k owner_id p now m))"
proof -
  let ?g = "\<lambda>j. replace_job j JRUNNING (jb_updated_at j) None (Some owner_id) (jb_lease_expires_at j) (Some p)"
  have "job_of_row (set_progress p r) = ?g (job_of_row r)
      \<and> (job_active (job_of_row (set_progress p r)) \<longrightarrow> jw_error_code (set_progress p r) = None)"
    if "row_of jw_job_id k (sq_jobs db) = Some r" and "owned_row owner_id now r" for r
    using that open_no_error [OF assms that(1)]
    by (simp add: owned_row_def job_of_set_progress) (simp add: job_of_row_def replace_job_def job_active_def)
  then show ?thesis
    using update_owned_mirrors [OF assms, where f = "set_progress p" and k = k and owner_id = owner_id and now = now and g = ?g] assms
    by (simp add: sql_update_owned_job_progress_def mem_update_owned_job_progress_def split: option.splits if_splits)
qed

section \<open>What ends a job\<close>

lemma job_of_finished_row:
  "job_of_row (finished_row state error_code now p r)
   = replace_job (job_of_row r) state now error_code None None (Some p)"
  by (simp add: finished_row_def job_of_set_progress) (simp add: job_of_row_def replace_job_def)

lemma finished_row_keeps [simp]:
  "jw_job_id (finished_row state error_code now p r) = jw_job_id r"
  "jw_operation (finished_row state error_code now p r) = jw_operation r"
  "jw_plan_id (finished_row state error_code now p r) = jw_plan_id r"
  "jw_state (finished_row state error_code now p r) = state"
  by (simp_all add: finished_row_def)

lemma map_AList_update:
  "map (\<lambda>(k, a). (k, g a)) (AList.update k a d) = AList.update k (g a) (map (\<lambda>(k, a). (k, g a)) d)"
  by (induction d) auto

lemma apply_record:
  "\<lparr>aj_job = j, aj_revision = aj_revision a, aj_candidate_ids = aj_candidate_ids a, aj_result = r\<rparr>
   = a\<lparr>aj_job := j, aj_result := r\<rparr>"
  "a\<lparr>aj_result := r, aj_job := j\<rparr> = a\<lparr>aj_job := j, aj_result := r\<rparr>"
  "\<lparr>aj_job = j, aj_revision = aj_revision a, aj_candidate_ids = aj_candidate_ids a, aj_result = aj_result a\<rparr>
   = a\<lparr>aj_job := j\<rparr>"
  by (cases a, simp)+

text \<open>The result of a move job is stored with it.\<close>

lemma refines_apply_update:
  assumes rel: "refines db m" and a: "map_of (me_apply_jobs m) k = Some a" and j: "map_of (me_jobs m) k = Some j"
    and valid: "apply_valid (a\<lparr>aj_job := j, aj_result := result\<rparr>)"
  shows "refines (db\<lparr>sq_apply_jobs := update_where (\<lambda>r. aw_job_id r = k) (\<lambda>r. r\<lparr>aw_result_json := result\<rparr>) (sq_apply_jobs db)\<rparr>)
           (m\<lparr>me_apply_jobs := AList.update k (a\<lparr>aj_job := j, aj_result := result\<rparr>) (me_apply_jobs m)\<rparr>)"
proof -
  note D = refinesD [OF rel] and A = refines_apply [OF rel]
  obtain r where r: "row_of aw_job_id k (sq_apply_jobs db) = Some r"
      "(aw_revision r, aw_candidate_ids_json r, aw_result_json r) = (aj_revision a, aj_candidate_ids a, aj_result a)"
    using A(3) [of k] a by (cases "row_of aw_job_id k (sq_apply_jobs db)") auto
  have k: "aw_job_id r = k" using r(1) by (auto dest: row_of_Some)
  let ?a = "a\<lparr>aj_job := j, aj_result := result\<rparr>"
  have "dict_of aw_job_id (\<lambda>r. (aw_revision r, aw_candidate_ids_json r, aw_result_json r))
          (update_where (\<lambda>r. aw_job_id r = k) (\<lambda>r. r\<lparr>aw_result_json := result\<rparr>) (sq_apply_jobs db))
      = AList.update k (aj_revision ?a, aj_candidate_ids ?a, aj_result ?a)
          (dict_of aw_job_id (\<lambda>r. (aw_revision r, aw_candidate_ids_json r, aw_result_json r)) (sq_apply_jobs db))"
    using update_dict_of [OF A(2) r(1), where p = "\<lambda>_. True" and f = "\<lambda>r. r\<lparr>aw_result_json := result\<rparr>"
        and val = "\<lambda>r. (aw_revision r, aw_candidate_ids_json r, aw_result_json r)"] r(2) k by simp
  moreover have "apply_entry_ok (me_jobs m) (k, ?a)" using j valid by (simp add: apply_entry_ok_def apply_record)
  ultimately show ?thesis
    using D(10,11,12)
    by (auto simp: refines_def mirrors_def memory_ok_def keys_ok_def map_AList_update update_simps
        dest!: in_AList_update)
qed

lemma finish_mirrors:
  assumes rel: "refines db m" and final: "state \<notin> {JQUEUED, JRUNNING}"
  shows "fst (sql_finish_owned_job k owner_id state ec now p result db) = fst (mem_finish_owned_job k owner_id state ec now p result m)
    \<and> refines (snd (sql_finish_owned_job k owner_id state ec now p result db))
        (snd (mem_finish_owned_job k owner_id state ec now p result m))"
proof -
  let ?f = "finished_row state ec now p" and ?g = "\<lambda>j. replace_job j state now ec None None (Some p)"
  let ?sql = "update_owned k owner_id now ?f db"
  note D = refinesD [OF rel]
  have "job_of_row (?f r) = ?g (job_of_row r) \<and> (job_active (job_of_row (?f r)) \<longrightarrow> jw_error_code (?f r) = None)" for r
    using final by (simp add: job_of_finished_row) (simp add: replace_job_def job_active_def)
  note U = update_owned_mirrors [OF rel, where f = ?f and k = k and owner_id = owner_id and now = now and g = ?g,
      OF _ this]
  show ?thesis
  proof (cases "map_of (me_jobs m) k")
    case None
    with U rel show ?thesis by (simp add: sql_finish_owned_job_def mem_finish_owned_job_def case_prod_beta)
  next
    case (Some j)
    show ?thesis
    proof (cases "owned_at (Some j) owner_id now")
      case False
      with U Some rel show ?thesis by (simp add: sql_finish_owned_job_def mem_finish_owned_job_def case_prod_beta)
    next
      case True
      let ?m = "m\<lparr>me_jobs := AList.update k (?g j) (me_jobs m)\<rparr>"
      have fin: "fst ?sql" "refines (snd ?sql) ?m" using U Some True by simp_all
      note A = refines_apply [OF fin(2)]
      have job: "map_option job_of_row (row_of jw_job_id k (sq_jobs (snd ?sql))) = Some (?g j)"
        unfolding map_of_dict_of [symmetric] refinesD(1) [OF fin(2), symmetric] by (simp add: update_simps)
      have same: "me_apply_jobs ?m = me_apply_jobs m" by simp
      show ?thesis
      proof (cases result)
        case None
        with fin Some True show ?thesis by (simp add: sql_finish_owned_job_def mem_finish_owned_job_def case_prod_beta)
      next
        case (Some res)
        show ?thesis
        proof (cases "map_of (me_apply_jobs m) k")
          case None
          then have "row_of aw_job_id k (sq_apply_jobs (snd ?sql)) = None" using A(3) [of k] by simp
          with None Some \<open>map_of (me_jobs m) k = Some j\<close> True fin rel show ?thesis
            by (simp add: sql_finish_owned_job_def mem_finish_owned_job_def case_prod_beta)
        next
          case ap: (Some a)
          obtain jr where jr: "row_of jw_job_id k (sq_jobs (snd ?sql)) = Some jr" "job_of_row jr = ?g j"
            using job by auto
          obtain ar where ar: "row_of aw_job_id k (sq_apply_jobs (snd ?sql)) = Some ar"
              "aw_revision ar = aj_revision a" "aw_candidate_ids_json ar = aj_candidate_ids a"
            using A(3) [of k] ap by (cases "row_of aw_job_id k (sq_apply_jobs (snd ?sql))") auto
          have built: "apply_of_rows jr (ar\<lparr>aw_result_json := Some res\<rparr>)
              = built_apply (a\<lparr>aj_job := ?g j, aj_result := Some res\<rparr>)"
            by (simp add: apply_of_rows_def jr ar apply_record)
          have one: "count_where (\<lambda>r. aw_job_id r = k) (sq_apply_jobs (snd ?sql)) = Suc 0"
            using count_where_key_cases [OF A(2), of k "\<lambda>_. True"] ar(1) by simp
          show ?thesis
          proof (cases "apply_valid (a\<lparr>aj_job := ?g j, aj_result := Some res\<rparr>)")
            case True
            have "refines ((snd ?sql)\<lparr>sq_apply_jobs := update_where (\<lambda>r. aw_job_id r = k)
                    (\<lambda>r. r\<lparr>aw_result_json := Some res\<rparr>) (sq_apply_jobs (snd ?sql))\<rparr>)
                  (?m\<lparr>me_apply_jobs := AList.update k (a\<lparr>aj_job := ?g j, aj_result := Some res\<rparr>) (me_apply_jobs ?m)\<rparr>)"
              using fin(2) ap True by (intro refines_apply_update) (simp_all add: update_simps)
            with True Some \<open>map_of (me_jobs m) k = Some j\<close> \<open>owned_at (Some j) owner_id now\<close> ap built one jr(1) ar(1) fin
            show ?thesis
              by (simp add: sql_finish_owned_job_def mem_finish_owned_job_def case_prod_beta built_apply_def Let_def)
          next
            case False
            with Some \<open>map_of (me_jobs m) k = Some j\<close> \<open>owned_at (Some j) owner_id now\<close> ap built jr(1) ar(1) fin rel
            show ?thesis
              by (simp add: sql_finish_owned_job_def mem_finish_owned_job_def case_prod_beta built_apply_def Let_def)
          qed
        qed
      qed
    qed
  qed
qed

section \<open>Claims, cancels and leases that ran out\<close>

lemma claim_mirrors:
  assumes rel: "refines db m"
  shows "fst (sql_claim_next_job {} owner_id now lease db) = fst (mem_claim_next_job owner_id now lease m)
    \<and> refines (snd (sql_claim_next_job {} owner_id now lease db)) (snd (mem_claim_next_job owner_id now lease m))"
proof -
  note D = refinesD [OF rel]
  let ?rows = "sort_key row_queue_key (filter (\<lambda>r. jw_state r = JQUEUED) (sq_jobs db))"
  have queue: "sort_key queue_key (filter (\<lambda>j. jb_state j = JQUEUED) (dict_values (me_jobs m))) = map job_of_row ?rows"
    by (simp add: D(1) filter_map comp_def sort_key_map) (simp add: queue_key_def row_queue_key_def [abs_def])
  show ?thesis
  proof (cases ?rows)
    case Nil
    with queue rel show ?thesis by (simp add: sql_claim_next_job_def mem_claim_next_job_def)
  next
    case (Cons r rs)
    then have "r \<in> set ?rows" by simp
    then have "r \<in> set (sq_jobs db)" and queued: "jw_state r = JQUEUED" by simp_all
    then have row: "row_of jw_job_id (jw_job_id r) (sq_jobs db) = Some r" using D(5) row_of_in by fastforce
    have active: "job_active (job_of_row r)" using queued by (simp add: job_active_def)
    let ?f = "\<lambda>r. r\<lparr>jw_state := JRUNNING, jw_updated_at := now, jw_owner_id := Some owner_id, jw_lease_expires_at := Some lease\<rparr>"
    have none: "jw_error_code r = None" using rel row active by (rule open_no_error)
    have "job_of_row (?f r) = (job_of_row r)\<lparr>jb_state := JRUNNING, jb_updated_at := now, jb_owner_id := Some owner_id,
        jb_lease_expires_at := Some lease\<rparr>"
      by (simp add: job_of_row_def progress_of_row_def)
    moreover have "job_of_row (?f r) = replace_job (job_of_row r) JRUNNING now None (Some owner_id) (Some lease) None"
      using none by (simp add: job_of_row_def progress_of_row_def replace_job_def)
    moreover have "refines (db\<lparr>sq_jobs := update_where (\<lambda>q. jw_job_id q = jw_job_id r \<and> jw_state q = JQUEUED) ?f (sq_jobs db)\<rparr>)
        (m\<lparr>me_jobs := AList.update (jw_job_id r) (job_of_row (?f r)) (me_jobs m)\<rparr>)"
      using rel row queued active none by (intro refines_job_update) simp_all
    ultimately show ?thesis
      using Cons queue by (simp add: sql_claim_next_job_def mem_claim_next_job_def Let_def)
  qed
qed

lemma cancel_mirrors:
  assumes rel: "refines db m"
  shows "fst (sql_cancel_job k now db) = Inr (fst (mem_cancel_job k now m))
    \<and> refines (snd (sql_cancel_job k now db)) (snd (mem_cancel_job k now m))"
proof (cases "row_of jw_job_id k (sq_jobs db)")
  case None
  with rel show ?thesis
    by (simp add: sql_cancel_job_def mem_cancel_job_def refinesD(1) [OF rel] map_of_dict_of)
next
  case (Some r)
  note D = refinesD [OF rel]
  let ?j = "job_of_row r"
  have j: "map_of (me_jobs m) k = Some ?j" using Some by (simp add: D(1) map_of_dict_of)
  show ?thesis
  proof (cases "jb_operation ?j \<noteq> APPLY \<and> job_active ?j")
    case False
    with Some j rel show ?thesis
      by (auto simp: sql_cancel_job_def mem_cancel_job_def Let_def)
  next
    case True
    let ?f = "finished_row JFAILED (Some JOB_CANCELLED_ERROR_CODE) now (sql_terminal_progress ?j now)"
    let ?p = "\<lambda>r. jw_state r \<in> {JQUEUED, JRUNNING}"
    have p: "?p r" using True by (simp add: job_active_def)
    have k: "jw_job_id r = k" using Some by (auto dest: row_of_Some)
    have "sql_terminal_progress ?j now = terminal_progress (jb_progress ?j) now (jb_operation ?j = APPLY)"
      by (simp add: sql_terminal_progress_def terminal_progress_def)
    then have f: "job_of_row (?f r) = failed_job JOB_CANCELLED_ERROR_CODE now ?j"
      by (simp add: job_of_finished_row failed_job_def)
    have "refines (db\<lparr>sq_jobs := update_where (\<lambda>r. jw_job_id r = k \<and> ?p r) ?f (sq_jobs db)\<rparr>)
        (m\<lparr>me_jobs := AList.update k (job_of_row (?f r)) (me_jobs m)\<rparr>)"
      using rel Some p True by (intro refines_job_update) (simp_all add: job_active_def)
    moreover have "row_of jw_job_id k (update_where (\<lambda>r. jw_job_id r = k \<and> ?p r) ?f (sq_jobs db)) = Some (?f r)"
      using Some p k by (subst row_of_update_where) simp_all
    moreover have "count_where (\<lambda>r. jw_job_id r = k \<and> ?p r) (sq_jobs db) = Suc 0"
      using Some p D(5) by (simp add: count_owned)
    ultimately show ?thesis
      using True Some j f
      by (simp add: sql_cancel_job_def mem_cancel_job_def Let_def job_active_def) (auto simp: job_active_def)
  qed
qed

lemma AList_update_present:
  assumes "distinct (map fst d)" and "map_of d k \<noteq> None"
  shows "AList.update k v d = map (\<lambda>(q, w). (q, if q = k then v else w)) d"
  using assms
proof (induction d)
  case Nil
  then show ?case by simp
next
  case (Cons e d)
  show ?case
  proof (cases "fst e = k")
    case True
    then have "map (\<lambda>(q, w). (q, if q = k then v else w)) d = d"
      using Cons.prems(1) by (intro map_idI) (auto simp: image_iff)
    with True show ?thesis by (cases e) simp
  next
    case False
    with Cons show ?thesis by (cases e) simp
  qed
qed

lemma fold_AList_update:
  assumes "distinct (map fst d)" and "distinct (map i js)" and "\<forall>j \<in> set js. map_of d (i j) = Some j"
  shows "fold (\<lambda>j. AList.update (i j) (h j)) js d = map (\<lambda>(k, v). (k, if k \<in> i ` set js then h v else v)) d"
  using assms
proof (induction js arbitrary: d)
  case Nil
  then show ?case by (simp add: map_idI case_prod_beta)
next
  case (Cons j js)
  let ?d = "AList.update (i j) (h j) d"
  have "i q \<noteq> i j" if "q \<in> set js" for q using that Cons.prems(2) by (simp, metis image_eqI)
  then have "\<forall>q \<in> set js. map_of ?d (i q) = Some q" using Cons.prems(3) by (simp add: update_conv')
  then have step: "fold (\<lambda>j. AList.update (i j) (h j)) js ?d = map (\<lambda>(k, v). (k, if k \<in> i ` set js then h v else v)) ?d"
    using Cons.prems by (intro Cons.IH) (simp_all add: distinct_update)
  have d: "?d = map (\<lambda>(k, v). (k, if k = i j then h v else v)) d"
  proof -
    have "?d = map (\<lambda>(k, v). (k, if k = i j then h j else v)) d"
      using Cons.prems by (intro AList_update_present) auto
    also have "\<dots> = map (\<lambda>(k, v). (k, if k = i j then h v else v)) d"
      using Cons.prems by (intro map_cong) (auto simp: map_of_eq_Some_iff dest: eq_key_imp_eq_value)
    finally show ?thesis .
  qed
  have "fold (\<lambda>j. AList.update (i j) (h j)) (j # js) d = map (\<lambda>(k, v). (k, if k \<in> i ` set js then h v else v)) ?d"
    using step by simp
  also have "\<dots> = map (\<lambda>(k, v). (k, if k \<in> i ` set (j # js) then h v else v)) d"
    unfolding d using Cons.prems(2) by (auto simp: image_iff)
  finally show ?case .
qed

lemma fold_job_update_ok:
  assumes "memory_ok m" and "distinct (map jb_job_id js)"
    and "\<forall>j \<in> set js. map_of (me_jobs m) (jb_job_id j) = Some j \<and> job_active j"
    and h: "\<And>j. jb_job_id (h j) = jb_job_id j \<and> jb_operation (h j) = jb_operation j \<and> jb_plan_id (h j) = jb_plan_id j
      \<and> \<not> job_active (h j)"
  shows "memory_ok (m\<lparr>me_jobs := fold (\<lambda>j. AList.update (jb_job_id j) (h j)) js (me_jobs m)\<rparr>)"
  using assms(1-3)
proof (induction js arbitrary: m)
  case Nil
  then show ?case by simp
next
  case (Cons j js)
  let ?m = "m\<lparr>me_jobs := AList.update (jb_job_id j) (h j) (me_jobs m)\<rparr>"
  have "memory_ok ?m" using Cons.prems h [of j] by (intro job_update_ok [where j = j]) simp_all
  moreover have "jb_job_id q \<noteq> jb_job_id j" if "q \<in> set js" for q
    using that Cons.prems(2) by (simp, metis image_eqI)
  then have "\<forall>q \<in> set js. map_of (me_jobs ?m) (jb_job_id q) = Some q \<and> job_active q"
    using Cons.prems(3) by (simp add: update_conv')
  moreover have "distinct (map jb_job_id js)" using Cons.prems(2) by simp
  ultimately have "memory_ok (?m\<lparr>me_jobs := fold (\<lambda>j. AList.update (jb_job_id j) (h j)) js (me_jobs ?m)\<rparr>)"
    by (intro Cons.IH)
  then show ?case by simp
qed

lemma expired_mirrors:
  assumes rel: "refines db m"
  shows "fst (sql_fail_expired_jobs now ec db) = fst (mem_fail_expired_jobs now ec m)
    \<and> refines (snd (sql_fail_expired_jobs now ec db)) (snd (mem_fail_expired_jobs now ec m))"
proof -
  note D = refinesD [OF rel]
  let ?rows = "filter (expired_row now) (sq_jobs db)" and ?js = "filter (job_expired now) (dict_values (me_jobs m))"
  let ?f = "\<lambda>r. r\<lparr>jw_state := JFAILED, jw_updated_at := now, jw_error_code := Some ec, jw_owner_id := None,
      jw_lease_expires_at := None, jw_progress_stage := STAGE_DONE,
      jw_progress_current := (if jw_operation r = APPLY then None else jw_progress_current r),
      jw_progress_stage_started_at := now, jw_progress_updated_at := now\<rparr>"
  have same: "job_expired now (job_of_row r) = expired_row now r" for r by (simp add: job_expired_def expired_row_def)
  have js: "?js = map job_of_row ?rows" by (simp add: D(1) filter_map comp_def same)
  have f: "job_of_row (?f r) = failed_job ec now (job_of_row r)" for r
    by (simp add: job_of_row_def progress_of_row_def failed_job_def replace_job_def terminal_progress_def)
  have ids: "distinct (map jb_job_id ?js)"
    using D(5) by (simp add: js comp_def unique_key_def distinct_map_filter)
  have found: "\<forall>j \<in> set ?js. map_of (me_jobs m) (jb_job_id j) = Some j \<and> job_active j"
    using D(5) by (auto simp: js D(1) map_of_dict_of row_of_in same expired_row_def job_active_def)
  have keys: "distinct (map fst (me_jobs m))" using D(5) by (simp add: D(1) unique_key_def)
  have "memory_ok (m\<lparr>me_jobs := fold (\<lambda>j. AList.update (jb_job_id j) (failed_job ec now j)) ?js (me_jobs m)\<rparr>)"
    using D(10) ids found by (rule fold_job_update_ok) (simp add: failed_job_def replace_job_def job_active_def)
  moreover have "dict_of jw_job_id job_of_row (update_where (expired_row now) ?f (sq_jobs db))
      = fold (\<lambda>j. AList.update (jb_job_id j) (failed_job ec now j)) ?js (me_jobs m)"
  proof -
    have "jw_job_id r \<in> jb_job_id ` set ?js \<longleftrightarrow> expired_row now r" if "r \<in> set (sq_jobs db)" for r
      using that D(5) unique_key_eqD [OF D(5)] by (auto simp: js image_iff)
    then have "map (\<lambda>(k, v). (k, if k \<in> jb_job_id ` set ?js then failed_job ec now v else v)) (me_jobs m)
        = dict_of jw_job_id job_of_row (update_where (expired_row now) ?f (sq_jobs db))"
      unfolding D(1) by (auto simp: dict_of_def update_where_def f)
    then show ?thesis using keys ids found by (subst fold_AList_update) simp_all
  qed
  ultimately have "refines (snd (sql_fail_expired_jobs now ec db)) (snd (mem_fail_expired_jobs now ec m))"
    using D(11,12) by (simp add: refines_def mirrors_def sql_fail_expired_jobs_def mem_fail_expired_jobs_def Let_def)
  then show ?thesis
    by (simp add: sql_fail_expired_jobs_def mem_fail_expired_jobs_def Let_def js count_where_def)
qed

end
