(* ===== verification/Fill_Mirror_Queue.thy ===== *)
theory Fill_Mirror_Queue
  imports Fill_Mirror_Jobs
begin

text \<open>
  The methods that store and read jobs: what a caller may save, the queue's admission, and
  the move jobs that answer the same request again.
\<close>

lemma job_of_row_of_job [simp]: "job_of_row (row_of_job j) = j"
  by (simp add: job_of_row_def row_of_job_def progress_of_row_def)

lemma row_of_job_id [simp]: "jw_job_id (row_of_job j) = jb_job_id j"
  by (simp add: row_of_job_def)

text \<open>
  What a saved job must respect: a job that is queued or running has no error, and a job a
  move request is stored with stays valid with it.
\<close>

definition job_saveable :: "job_record \<Rightarrow> memory \<Rightarrow> bool" where
  "job_saveable j m \<longleftrightarrow>
     (job_active j \<longrightarrow> jb_error_code j = None)
     \<and> (case map_of (me_apply_jobs m) (jb_job_id j) of
          None \<Rightarrow> True
        | Some a \<Rightarrow> jb_plan_id (aj_job a) = jb_plan_id j \<and> apply_valid (a\<lparr>aj_job := j\<rparr>))"

lemma memory_ok_applyD:
  assumes "memory_ok m" and "map_of (me_apply_jobs m) k = Some a"
  shows "\<exists>j. map_of (me_jobs m) k = Some j \<and> jb_plan_id (aj_job a) = jb_plan_id j \<and> apply_valid (a\<lparr>aj_job := j\<rparr>)"
proof -
  have "(k, a) \<in> set (me_apply_jobs m)" using assms(2) by (rule map_of_SomeD)
  with assms(1) have "apply_entry_ok (me_jobs m) (k, a)" by (auto simp: memory_ok_def)
  then show ?thesis by (simp add: apply_entry_ok_def)
qed

lemma save_job_mirrors:
  assumes rel: "refines db m" and j: "job_saveable j m"
  shows "refines (sql_save_job j db) (mem_save_job j m)"
proof -
  note D = refinesD [OF rel]
  have "dict_of jw_job_id job_of_row (upsert jw_job_id whole_row (row_of_job j) (sq_jobs db))
      = AList.update (jb_job_id j) j (me_jobs m)"
    by (subst upsert_dict_of) (simp_all add: whole_row_def D(1))
  moreover have "apply_entry_ok (AList.update (jb_job_id j) j (me_jobs m)) e"
    if "e \<in> set (me_apply_jobs m)" for e
  proof (cases "fst e = jb_job_id j")
    case True
    then have "map_of (me_apply_jobs m) (jb_job_id j) = Some (snd e)"
      using that D(10) by (cases e) (simp add: memory_ok_def keys_ok_def)
    with True j show ?thesis by (simp add: apply_entry_ok_def job_saveable_def update_simps)
  next
    case False
    then show ?thesis using that D(10) by (auto simp: memory_ok_def apply_entry_ok_def update_simps)
  qed
  moreover have "job_entry_ok (jb_job_id j, j)" using j by (simp add: job_entry_ok_def job_saveable_def)
  ultimately have "memory_ok (mem_save_job j m)"
    using D(10) by (auto simp: mem_save_job_def memory_ok_def keys_ok_def distinct_update dest!: in_AList_update)
  with D(11,12) show ?thesis
    using \<open>dict_of jw_job_id job_of_row _ = _\<close>
    by (simp add: refines_def mirrors_def sql_save_job_def mem_save_job_def)
qed

lemma job_active_state: "job_active (job_of_row r) \<longleftrightarrow> jw_state r \<in> {JQUEUED, JRUNNING}"
  by (simp add: job_active_def)

lemma active_jobs_mirror: "refines db m \<Longrightarrow> sql_active_jobs db = mem_active_jobs m"
  by (simp add: sql_active_jobs_def mem_active_jobs_def refinesD(1) filter_map comp_def job_active_state count_where_def)

lemma row_job_mirror: "refines db m \<Longrightarrow> map_of (me_jobs m) k = map_option job_of_row (row_of jw_job_id k (sq_jobs db))"
  by (simp add: refinesD(1) map_of_dict_of)

lemma enqueue_mirrors:
  assumes rel: "refines db m" and "job_active j \<longrightarrow> jb_error_code j = None"
  shows "fst (sql_enqueue_job j n db) = fst (mem_enqueue_job j n m)
    \<and> refines (snd (sql_enqueue_job j n db)) (snd (mem_enqueue_job j n m))"
proof -
  have "job_saveable j m" if "map_of (me_jobs m) (jb_job_id j) = None"
    using that assms(2) memory_ok_applyD [OF refinesD(10) [OF rel]]
    by (fastforce simp: job_saveable_def split: option.split)
  then show ?thesis
    using rel save_job_mirrors [OF rel, of j]
    by (simp add: sql_enqueue_job_def mem_enqueue_job_def active_jobs_mirror row_job_mirror [OF rel])
qed

lemma apply_of_rows_mirror:
  assumes rel: "refines db m" and "row_of jw_job_id k (sq_jobs db) = Some jr" and "row_of aw_job_id k (sq_apply_jobs db) = Some ar"
    and "map_of (me_apply_jobs m) k = Some a"
  shows "apply_of_rows jr ar = built_apply (a\<lparr>aj_job := job_of_row jr\<rparr>)"
proof -
  have "aw_revision ar = aj_revision a" "aw_candidate_ids_json ar = aj_candidate_ids a" "aw_result_json ar = aj_result a"
    using refines_apply(3) [OF rel, of k] assms(3,4) by simp_all
  then show ?thesis by (simp add: apply_of_rows_def apply_record(3))
qed

lemma apply_row_none:
  "refines db m \<Longrightarrow> row_of aw_job_id k (sq_apply_jobs db) = None \<longleftrightarrow> map_of (me_apply_jobs m) k = None"
  using arg_cong [OF refines_apply(3) [of db m k], of "\<lambda>x. x = None"] by simp

lemma get_apply_mirrors:
  assumes rel: "refines db m"
  shows "sql_get_apply_job k db = mem_get_apply_job k m"
proof (cases "map_of (me_apply_jobs m) k")
  case None
  then show ?thesis
    using apply_row_none [OF rel, of k] by (simp add: sql_get_apply_job_def mem_get_apply_job_def)
next
  case (Some a)
  then obtain ar where ar: "row_of aw_job_id k (sq_apply_jobs db) = Some ar"
    using apply_row_none [OF rel, of k] by (cases "row_of aw_job_id k (sq_apply_jobs db)") auto
  show ?thesis
  proof (cases "row_of jw_job_id k (sq_jobs db)")
    case None
    with Some ar show ?thesis
      by (simp add: sql_get_apply_job_def mem_get_apply_job_def row_job_mirror [OF rel])
  next
    case (Some jr)
    with \<open>map_of (me_apply_jobs m) k = Some a\<close> ar show ?thesis
      using apply_of_rows_mirror [OF rel Some ar \<open>map_of (me_apply_jobs m) k = Some a\<close>]
      by (simp add: sql_get_apply_job_def mem_get_apply_job_def row_job_mirror [OF rel])
  qed
qed

lemma enqueue_apply_mirrors:
  assumes rel: "refines db m" and valid: "apply_valid a"
    and clean: "job_active (aj_job a) \<longrightarrow> jb_error_code (aj_job a) = None"
  shows "fst (sql_enqueue_apply_job a n db) = fst (mem_enqueue_apply_job a n m)
    \<and> refines (snd (sql_enqueue_apply_job a n db)) (snd (mem_enqueue_apply_job a n m))"
proof -
  let ?k = "jb_job_id (aj_job a)"
  show ?thesis
  proof (cases "row_of jw_job_id ?k (sq_jobs db)")
    case (Some jr)
    then have mj: "map_of (me_jobs m) ?k = Some (job_of_row jr)" by (simp add: row_job_mirror [OF rel])
    show ?thesis
    proof (cases "map_of (me_apply_jobs m) ?k")
      case None
      with Some mj rel show ?thesis
        using apply_row_none [OF rel, of ?k]
        by (simp add: sql_enqueue_apply_job_def mem_enqueue_apply_job_def)
    next
      case stored: (Some b)
      then obtain ar where ar: "row_of aw_job_id ?k (sq_apply_jobs db) = Some ar"
        using apply_row_none [OF rel, of ?k] by (cases "row_of aw_job_id ?k (sq_apply_jobs db)") auto
      have cols: "aw_revision ar = aj_revision b" "aw_candidate_ids_json ar = aj_candidate_ids b"
        using refines_apply(3) [OF rel, of ?k] ar stored by simp_all
      have "jb_plan_id (aj_job b) = jw_plan_id jr"
        using memory_ok_applyD [OF refinesD(10) [OF rel] stored] mj by simp
      with Some mj stored ar cols rel show ?thesis
        using apply_of_rows_mirror [OF rel Some ar stored]
        by (auto simp: sql_enqueue_apply_job_def mem_enqueue_apply_job_def split: sum.splits)
    qed
  next
    case None
    then have fresh: "map_of (me_jobs m) ?k = None" by (simp add: row_job_mirror [OF rel])
    then have no_apply: "map_of (me_apply_jobs m) ?k = None"
      using memory_ok_applyD [OF refinesD(10) [OF rel], of ?k] by (cases "map_of (me_apply_jobs m) ?k") auto
    let ?db = "sql_save_job (aj_job a) db" and ?m = "mem_save_job (aj_job a) m"
    have saved: "refines ?db ?m"
      using rel clean no_apply by (intro save_job_mirrors) (simp_all add: job_saveable_def)
    have same: "sq_apply_jobs ?db = sq_apply_jobs db" "me_apply_jobs ?m = me_apply_jobs m"
      by (simp_all add: sql_save_job_def mem_save_job_def)
    have "apply_entry_ok (me_jobs ?m) (?k, a)"
      using valid by (simp add: apply_entry_ok_def mem_save_job_def update_simps)
    moreover have "distinct (map fst (me_apply_jobs m)) \<and> ?k \<notin> fst ` set (me_apply_jobs m)"
      using no_apply refinesD(10) [OF rel] by (simp add: memory_ok_def keys_ok_def map_of_eq_None_iff)
    ultimately have "refines (?db\<lparr>sq_apply_jobs := sq_apply_jobs db
          @ [\<lparr>aw_job_id = ?k, aw_revision = aj_revision a, aw_candidate_ids_json = aj_candidate_ids a,
              aw_result_json = aj_result a\<rparr>]\<rparr>)
        (?m\<lparr>me_apply_jobs := me_apply_jobs m @ [(?k, a)]\<rparr>)"
      using refinesD(10-12) [OF saved]
      by (simp add: refines_def mirrors_def memory_ok_def keys_ok_def same)
    with None fresh no_apply rel show ?thesis
      by (simp add: sql_enqueue_apply_job_def mem_enqueue_apply_job_def active_jobs_mirror AList_update_fresh)
  qed
qed

lemma list_jobs_mirrors:
  assumes "refines db m"
  shows "sql_list_jobs states db = mem_list_jobs states m"
proof -
  have "(\<lambda>r. queue_key (job_of_row r)) = row_queue_key" by (simp add: fun_eq_iff queue_key_def row_queue_key_def)
  then show ?thesis
    by (simp add: sql_list_jobs_def mem_list_jobs_def refinesD(1) [OF assms] filter_map comp_def sort_key_map
        cong: option.case_cong)
qed

lemma get_job_mirrors: "refines db m \<Longrightarrow> sql_get_job k db = mem_get_job k m"
  by (simp add: sql_get_job_def mem_get_job_def row_job_mirror)

end
