(* ===== verification/Fill_Mirror_Plans.thy ===== *)
theory Fill_Mirror_Plans
  imports Fill_Mirror_Queue
begin

text \<open>
  The methods on plans and what hangs on their candidates: results, and the journals of local
  and CloudDrive moves.
\<close>

section \<open>Candidates\<close>

lemma row_of_map: "row_of key k (map g xs) = map_option g (row_of (\<lambda>x. key (g x)) k xs)"
  by (induction xs) (auto simp: row_of_Cons)

lemma row_of_plan_filter:
  "row_of cw_candidate_id c (filter (\<lambda>r. cw_plan_id r = p) rows) = row_of candidate_key (p, c) rows"
  by (induction rows) (auto simp: row_of_Cons candidate_key_def)

lemma unique_plan_filter:
  "unique_key candidate_key rows \<Longrightarrow> unique_key cw_candidate_id (filter (\<lambda>r. cw_plan_id r = p) rows)"
  by (induction rows) (auto simp: unique_key_def candidate_key_def image_iff)

lemma candidate_of_row_id [simp]:
  "cr_candidate_id (candidate_of_row r) = cw_candidate_id r" "cr_video_id (candidate_of_row r) = cw_video_id r"
  "cr_kind (candidate_of_row r) = cw_candidate_kind r"
  "cr_cloud_source_path (candidate_of_row r) = cw_cloud_source_path r"
  "cr_cloud_destination_dir (candidate_of_row r) = cw_cloud_destination_dir r"
  by (simp_all add: candidate_of_row_def)

lemma candidate_of_row_of_candidate [simp]: "candidate_of_row (row_of_candidate p c) = c"
  by (simp add: candidate_of_row_def row_of_candidate_def)

lemma row_of_candidate_key [simp]:
  "cw_plan_id (row_of_candidate p c) = p" "cw_candidate_id (row_of_candidate p c) = cr_candidate_id c"
  "candidate_key (row_of_candidate p c) = (p, cr_candidate_id c)"
  by (simp_all add: row_of_candidate_def candidate_key_def)

lemma plan_candidates_sorted:
  "plan_candidates p rows
   = sort_key cr_candidate_id (map candidate_of_row (filter (\<lambda>r. cw_plan_id r = p) rows))"
  by (simp add: plan_candidates_def sort_key_map)

lemma plan_entry:
  assumes "refines db m" and "map_of (me_plans m) p = Some pr"
  shows "fp_plan_id (pl_public pr) = p \<and> plan_valid pr \<and> list_all candidate_valid (pl_candidates pr)"
proof -
  have "(p, pr) \<in> set (me_plans m)" using assms(2) by (rule map_of_SomeD)
  with assms(1) have "plan_entry_ok (p, pr)" by (auto simp: refines_def memory_ok_def)
  then show ?thesis by (simp add: plan_entry_ok_def)
qed

lemma plan_row:
  assumes rel: "refines db m"
  shows "(case row_of pw_plan_id p (sq_plans db) of
            None \<Rightarrow> map_of (me_plans m) p = None
          | Some row \<Rightarrow> \<exists>pr. map_of (me_plans m) p = Some pr \<and> pw_public_json row = pl_public pr
              \<and> pw_config_version row = pl_config_version pr
              \<and> plan_candidates p (sq_candidates db) = sort_key cr_candidate_id (pl_candidates pr))"
proof (cases "row_of pw_plan_id p (sq_plans db)")
  case None
  with refines_plans(3) [OF rel, of p] show ?thesis by simp
next
  case (Some row)
  then have "pw_plan_id row = p" by (auto dest: row_of_Some)
  moreover have "map_option sorted_plan (map_of (me_plans m) p) = Some (plan_of db row)"
    using Some refines_plans(3) [OF rel, of p] by simp
  then obtain pr where pr: "map_of (me_plans m) p = Some pr" and e: "sorted_plan pr = plan_of db row" by auto
  have "pl_public pr = pw_public_json row" "pl_config_version pr = pw_config_version row"
    "sort_key cr_candidate_id (pl_candidates pr) = plan_candidates (pw_plan_id row) (sq_candidates db)"
    using arg_cong [OF e, of pl_public] arg_cong [OF e, of pl_config_version] arg_cong [OF e, of pl_candidates]
    by (simp_all add: sorted_plan_def plan_of_def)
  with calculation pr Some show ?thesis by auto
qed

lemma get_candidate_row:
  assumes rel: "refines db m"
  shows "mem_get_candidate p c m = map_option candidate_of_row (row_of candidate_key (p, c) (sq_candidates db))"
proof (cases "row_of pw_plan_id p (sq_plans db)")
  case None
  have "row_of candidate_key (p, c) (sq_candidates db) = None"
  proof (rule ccontr)
    assume "row_of candidate_key (p, c) (sq_candidates db) \<noteq> None"
    then obtain r where "r \<in> set (sq_candidates db)" and "cw_plan_id r = p"
      by (auto dest!: row_of_Some simp: candidate_key_def)
    then have "p \<in> pw_plan_id ` set (sq_plans db)" using rel by (auto simp: refines_def tables_ok_def)
    with None show False by (simp add: row_of_None_iff)
  qed
  with None plan_row [OF rel, of p] show ?thesis by (simp add: mem_get_candidate_def)
next
  case (Some row)
  then obtain pr where pr: "map_of (me_plans m) p = Some pr"
      "plan_candidates p (sq_candidates db) = sort_key cr_candidate_id (pl_candidates pr)"
    using plan_row [OF rel, of p] by auto
  have "unique_key cr_candidate_id (pl_candidates pr)"
    using plan_entry [OF rel pr(1)] by (simp add: plan_valid_def unique_key_def)
  then have "plan_candidate pr c = row_of cr_candidate_id c (plan_candidates p (sq_candidates db))"
    by (simp add: pr(2) plan_candidate_def row_of_def [symmetric])
  also have "\<dots> = map_option candidate_of_row (row_of candidate_key (p, c) (sq_candidates db))"
    using unique_plan_filter [OF refinesD(9) [OF rel], of p]
    by (simp add: plan_candidates_def row_of_map row_of_plan_filter)
  finally show ?thesis by (simp add: mem_get_candidate_def pr(1))
qed

lemma get_candidate_mirrors:
  assumes rel: "refines db m"
  shows "sql_get_candidate p c db = Inr (mem_get_candidate p c m)"
proof (cases "row_of candidate_key (p, c) (sq_candidates db)")
  case None
  then show ?thesis by (simp add: sql_get_candidate_def get_candidate_row [OF rel])
next
  case (Some r)
  then have found: "mem_get_candidate p c m = Some (candidate_of_row r)" by (simp add: get_candidate_row [OF rel])
  then obtain pr where "map_of (me_plans m) p = Some pr" and "candidate_of_row r \<in> set (pl_candidates pr)"
    by (auto simp: mem_get_candidate_def plan_candidate_def row_of_def [symmetric] dest!: row_of_Some split: option.splits)
  then have "candidate_valid (candidate_of_row r)" using plan_entry [OF rel] by (auto simp: list_all_iff)
  with Some found show ?thesis by (simp add: sql_get_candidate_def)
qed

lemma plan_valid_sorted: "plan_valid (sorted_plan p) = plan_valid p"
proof -
  let ?xs = "map (\<lambda>c. (cr_candidate_id c, cr_video_id c)) (pl_candidates p)"
  let ?ys = "map (\<lambda>c. (cr_candidate_id c, cr_video_id c)) (sort_key cr_candidate_id (pl_candidates p))"
  have d: "distinct (map cr_candidate_id (sort_key cr_candidate_id (pl_candidates p)))
      = distinct (map cr_candidate_id (pl_candidates p))"
    using unique_key_sort [of cr_candidate_id cr_candidate_id "pl_candidates p"] by (simp add: unique_key_def)
  have "map_of ?ys = map_of ?xs" if "distinct (map cr_candidate_id (pl_candidates p))"
  proof (rule map_of_inject_set [THEN iffD2])
    show "distinct (map fst ?ys)" "distinct (map fst ?xs)" using that d by (simp_all add: comp_def)
    show "set ?ys = set ?xs" by simp
  qed
  moreover have "set ?ys = set ?xs" by simp
  moreover have "pl_candidates (sorted_plan p) = sort_key cr_candidate_id (pl_candidates p)"
    and "pl_public (sorted_plan p) = pl_public p"
    by (simp_all add: sorted_plan_def)
  ultimately show ?thesis
    unfolding plan_valid_def Let_def list_all_iff set_append
    by (cases "distinct (map cr_candidate_id (pl_candidates p))") (simp_all only: d simp_thms)
qed

lemma get_plan_mirrors:
  assumes rel: "refines db m"
  shows "sql_get_plan p db = Inr (map_option sorted_plan (mem_get_plan p m))"
proof (cases "row_of pw_plan_id p (sq_plans db)")
  case None
  with plan_row [OF rel, of p] show ?thesis by (simp add: sql_get_plan_def mem_get_plan_def)
next
  case (Some row)
  then obtain pr where pr: "map_of (me_plans m) p = Some pr" "pw_public_json row = pl_public pr"
      "pw_config_version row = pl_config_version pr"
      "plan_candidates p (sq_candidates db) = sort_key cr_candidate_id (pl_candidates pr)"
    using plan_row [OF rel, of p] by auto
  have eq: "\<lparr>pl_public = pl_public pr, pl_candidates = sort_key cr_candidate_id (pl_candidates pr),
      pl_config_version = pl_config_version pr\<rparr> = sorted_plan pr"
    by (simp add: sorted_plan_def)
  have "plan_valid (sorted_plan pr)" and "list_all candidate_valid (pl_candidates (sorted_plan pr))"
    using plan_entry [OF rel pr(1)] by (simp_all add: plan_valid_sorted) (simp add: sorted_plan_def list_all_iff)
  with Some show ?thesis
    by (simp add: sql_get_plan_def mem_get_plan_def Let_def pr eq)
qed

section \<open>Results and local moves\<close>

lemma refines_put_result:
  assumes rel: "refines db m" and c: "mem_get_candidate p c m \<noteq> None"
  shows "refines (db\<lparr>sq_results := upsert result_key whole_row \<lparr>rw_plan_id = p, rw_candidate_id = c, rw_result_json = r\<rparr> (sq_results db)\<rparr>)
           (put_result p c r m)"
proof -
  note D = refinesD [OF rel]
  let ?row = "\<lparr>rw_plan_id = p, rw_candidate_id = c, rw_result_json = r\<rparr>"
  have "dict_of result_key rw_result_json (upsert result_key whole_row ?row (sq_results db))
      = AList.update (result_key ?row) (rw_result_json ?row) (dict_of result_key rw_result_json (sq_results db))"
    by (rule upsert_dict_of) (simp add: whole_row_def)
  then have "dict_of result_key rw_result_json (upsert result_key whole_row ?row (sq_results db))
      = AList.update (p, c) r (me_results m)"
    by (simp add: D(2) result_key_def)
  moreover have "has_candidate m (p, c)" using c by (simp add: has_candidate_def)
  ultimately show ?thesis
    using D(10-12)
    by (auto simp: refines_def mirrors_def put_result_def memory_ok_def keys_ok_def distinct_update
        dest!: in_AList_update)
qed

lemma insert_result_mirrors:
  assumes rel: "refines db m"
  shows "(case mem_save_move_result p r m of
            (Inl e, m') \<Rightarrow> m' = m \<and> insert_move_result p r db = Inl e
          | (Inr _, m') \<Rightarrow> (\<exists>db'. insert_move_result p r db = Inr db' \<and> refines db' m'))"
proof (cases "row_of candidate_key (p, res_candidate_id r) (sq_candidates db)")
  case None
  then show ?thesis
    by (simp add: mem_save_move_result_def require_matching_candidate_def require_candidate_def insert_move_result_def
        get_candidate_row [OF rel])
next
  case (Some c)
  then show ?thesis
    using refines_put_result [OF rel, of p "res_candidate_id r" r]
    by (simp add: mem_save_move_result_def require_matching_candidate_def require_candidate_def insert_move_result_def
        get_candidate_row [OF rel])
qed

lemma save_result_mirrors:
  assumes "refines db m"
  shows "fst (sql_save_move_result p r db) = fst (mem_save_move_result p r m)
    \<and> refines (snd (sql_save_move_result p r db)) (snd (mem_save_move_result p r m))"
  using insert_result_mirrors [OF assms, of p r] assms
  by (auto simp: sql_save_move_result_def transact_def split: prod.splits sum.splits)

lemma get_result_mirrors: "refines db m \<Longrightarrow> sql_get_move_result p c db = mem_get_move_result p c m"
  by (simp add: sql_get_move_result_def mem_get_move_result_def refinesD(2) map_of_dict_of)

lemma sort_key_pair: "sort_key (\<lambda>x. (p, f x)) xs = sort_key f xs"
proof -
  have "insort_key (\<lambda>x. (p, f x)) y ys = insort_key f y ys" for y ys by (induction ys) auto
  then show ?thesis by (induction xs) auto
qed

lemma list_results_mirrors:
  assumes rel: "refines db m"
  shows "sql_list_move_results p db = mem_list_move_results p m"
proof -
  let ?rows = "filter (\<lambda>r. rw_plan_id r = p) (sq_results db)"
  have "filter (\<lambda>(key, _). fst key = p) (me_results m) = map (\<lambda>r. (result_key r, rw_result_json r)) ?rows"
    by (simp add: refinesD(2) [OF rel] dict_of_def filter_map comp_def result_key_def)
  then have "mem_list_move_results p m = map rw_result_json (sort_key result_key ?rows)"
    by (simp add: mem_list_move_results_def filter_sort sort_key_map comp_def)
  also have "sort_key result_key ?rows = sort_key (\<lambda>r. (p, rw_candidate_id r)) ?rows"
    by (rule sort_key_cong) (simp add: result_key_def)
  finally show ?thesis by (simp add: sql_list_move_results_def sort_key_pair)
qed

lemma journal_row: "refines db m \<Longrightarrow> map_of (me_journal m) k = row_of journal_id k (sq_journal db)"
  by (simp add: refinesD(3) map_of_dict_of option.map_ident)

lemma save_journal_mirrors:
  assumes rel: "refines db m"
  shows "fst (sql_save_move_journal r db) = fst (mem_save_move_journal r m)
    \<and> refines (snd (sql_save_move_journal r db)) (snd (mem_save_move_journal r m))"
proof (cases "row_of candidate_key (journal_id r) (sq_candidates db)")
  case None
  with rel show ?thesis
    by (simp add: sql_save_move_journal_def mem_save_move_journal_def require_candidate_def get_candidate_row [OF rel]
        transact_def journal_id_def)
next
  case (Some c)
  note D = refinesD [OF rel]
  let ?merge = "\<lambda>q r. q\<lparr>jo_state := jo_state r, jo_updated_at := jo_updated_at r\<rparr>"
  have "?merge q r = r" if "journal_id q = journal_id r" for q r
    using that by (cases q, cases r) (simp add: journal_id_def)
  then have "dict_of journal_id (\<lambda>r. r) (upsert journal_id ?merge r (sq_journal db)) = AList.update (journal_id r) r (me_journal m)"
    unfolding D(3) by (intro upsert_dict_of) simp
  moreover have "journal_entry_ok m (journal_id r, r)"
    using Some by (simp add: journal_entry_ok_def has_candidate_def get_candidate_row [OF rel])
  ultimately have "refines (db\<lparr>sq_journal := upsert journal_id ?merge r (sq_journal db)\<rparr>)
      (m\<lparr>me_journal := AList.update (journal_id r) r (me_journal m)\<rparr>)"
    using D(10-12)
    by (auto simp: refines_def mirrors_def memory_ok_def keys_ok_def distinct_update dest!: in_AList_update)
  with Some rel show ?thesis
    by (simp add: sql_save_move_journal_def mem_save_move_journal_def require_candidate_def get_candidate_row [OF rel]
        transact_def journal_row [OF rel] Let_def journal_id_def [symmetric] split: sum.split)
qed

lemma get_journal_mirrors: "refines db m \<Longrightarrow> sql_get_move_journal p c db = mem_get_move_journal p c m"
  by (simp add: sql_get_move_journal_def mem_get_move_journal_def journal_row)

lemma list_journal_mirrors: "refines db m \<Longrightarrow> sql_list_unreconciled_moves db = mem_list_unreconciled_moves m"
  by (simp add: sql_list_unreconciled_moves_def mem_list_unreconciled_moves_def refinesD(3))

end
