(* ===== verification/Fill_Mirror_Moves.thy ===== *)
theory Fill_Mirror_Moves
  imports Fill_Mirror_Plans
begin

text \<open>
  The journal of CloudDrive moves: at most one unfinished move per source, and a finished one
  stored together with its result.
\<close>

section \<open>CloudDrive moves\<close>

lemma operation_row: "refines db m \<Longrightarrow> map_of (me_operations m) k = row_of operation_id k (sq_operations db)"
  by (simp add: refinesD(4) map_of_dict_of option.map_ident)

lemma cloud_active_states:
  "s \<in> {CPREPARED, CSUBMITTING, CVERIFYING, CUNKNOWN} \<longleftrightarrow> \<not> cloud_terminal s"
  "s \<in> {CSUCCEEDED, CCONFLICT, CFAILED} \<longleftrightarrow> cloud_terminal s"
  by (cases s; simp)+

lemma filter_active_sources:
  "filter (\<lambda>r. op_state r \<notin> {CSUCCEEDED, CCONFLICT, CFAILED}) rows = filter (\<lambda>r. \<not> cloud_terminal (op_state r)) rows"
  by (simp only: cloud_active_states)

lemma active_sources_iff:
  assumes "unique_key operation_id rows"
  shows "active_sources_ok rows \<longleftrightarrow>
    (\<forall>q \<in> set rows. \<forall>r \<in> set rows. \<not> cloud_terminal (op_state q) \<longrightarrow> \<not> cloud_terminal (op_state r)
       \<longrightarrow> op_source_path q = op_source_path r \<longrightarrow> operation_id q = operation_id r)"
proof -
  have "distinct rows" and inj: "inj_on operation_id (set rows)"
    using assms by (simp_all add: unique_key_def distinct_map)
  then show ?thesis
    unfolding active_sources_ok_def cloud_active_states distinct_map inj_on_def
    by (auto dest: inj_onD [OF inj])
qed

lemma set_upsert:
  assumes "unique_key key rs" and "\<And>q. key q = key r \<Longrightarrow> merge q r = r"
  shows "set (upsert key merge r rs) = insert r {q \<in> set rs. key q \<noteq> key r}"
  using assms(1)
proof (induction rs)
  case Nil
  then show ?case by simp
next
  case (Cons a rs)
  then show ?case
    using assms(2) [of a] by (auto simp: unique_key_def image_iff)
qed

lemma active_sources_upsert:
  assumes u: "unique_key operation_id rows" and ok: "active_sources_ok rows"
    and merge: "\<And>q. operation_id q = operation_id r \<Longrightarrow> merge q r = r"
  shows "active_sources_ok (upsert operation_id merge r rows) \<longleftrightarrow>
    cloud_terminal (op_state r)
    \<or> \<not> (\<exists>q \<in> set rows. operation_id q \<noteq> operation_id r \<and> op_source_path q = op_source_path r
            \<and> \<not> cloud_terminal (op_state q))"
proof -
  have "unique_key operation_id (upsert operation_id merge r rows)" using u merge by simp
  moreover have "set (upsert operation_id merge r rows) = insert r {q \<in> set rows. operation_id q \<noteq> operation_id r}"
    using u merge by (rule set_upsert)
  ultimately have new: "active_sources_ok (upsert operation_id merge r rows) \<longleftrightarrow>
      (\<forall>q \<in> insert r {q \<in> set rows. operation_id q \<noteq> operation_id r}. \<forall>q' \<in> insert r {q \<in> set rows. operation_id q \<noteq> operation_id r}.
         \<not> cloud_terminal (op_state q) \<longrightarrow> \<not> cloud_terminal (op_state q')
           \<longrightarrow> op_source_path q = op_source_path q' \<longrightarrow> operation_id q = operation_id q')"
    by (simp only: active_sources_iff)
  have old: "\<forall>q \<in> set rows. \<forall>q' \<in> set rows. \<not> cloud_terminal (op_state q) \<longrightarrow> \<not> cloud_terminal (op_state q')
      \<longrightarrow> op_source_path q = op_source_path q' \<longrightarrow> operation_id q = operation_id q'"
    using ok u by (simp only: active_sources_iff)
  show ?thesis unfolding new using old by (simp add: ball_conj_distrib) metis
qed

lemma operation_entry:
  assumes rel: "refines db m" and q: "row_of operation_id k (sq_operations db) = Some q"
  shows "\<exists>c. row_of candidate_key k (sq_candidates db) = Some c \<and> cw_cloud_source_path c = Some (op_source_path q)
    \<and> cw_cloud_destination_dir c = Some (op_destination_dir q)"
proof -
  have "(k, q) \<in> set (me_operations m)" using q by (intro map_of_SomeD) (simp add: operation_row [OF rel])
  then have "operation_entry_ok m (k, q)" using rel by (auto simp: refines_def memory_ok_def)
  then show ?thesis by (cases k) (auto simp: operation_entry_ok_def get_candidate_row [OF rel])
qed

lemma locked_mirrors:
  assumes rel: "refines db m"
  shows "(case save_operation_locked r m of
            (Inl e, m') \<Rightarrow> m' = m \<and> execute_save_operation r db = Inl e
          | (Inr _, m') \<Rightarrow> (\<exists>db'. execute_save_operation r db = Inr db' \<and> sq_candidates db' = sq_candidates db \<and> refines db' m'))"
proof -
  note D = refinesD [OF rel]
  let ?key = "(op_plan_id r, op_candidate_id r)"
  let ?merge = "\<lambda>q r. q\<lparr>op_state := op_state r, op_updated_at := op_updated_at r, op_error_code := op_error_code r\<rparr>"
  let ?rows = "upsert operation_id ?merge r (sq_operations db)"
  have key: "operation_id r = ?key" by (simp add: operation_id_def)
  show ?thesis
  proof (cases "row_of candidate_key ?key (sq_candidates db)")
    case None
    then show ?thesis
      by (simp add: save_operation_locked_def execute_save_operation_def require_candidate_def get_candidate_row [OF rel])
  next
    case (Some c)
    let ?current = "row_of operation_id ?key (sq_operations db)"
    show ?thesis
    proof (cases "cw_candidate_kind c = CLOUD_STRM \<and> cw_cloud_source_path c = Some (op_source_path r)
        \<and> cw_cloud_destination_dir c = Some (op_destination_dir r)
        \<and> validate_cloud_move_transition (map_option op_state ?current) (op_state r) = Inr ()
        \<and> (case ?current of None \<Rightarrow> True | Some q \<Rightarrow> op_attempt_id q = op_attempt_id r)")
      case False
      with Some show ?thesis
        by (auto simp: save_operation_locked_def execute_save_operation_def require_candidate_def Let_def
            get_candidate_row [OF rel] operation_row [OF rel] split: sum.split option.splits)
    next
      case True
      have merge: "?merge q r = r" if "operation_id q = operation_id r" and "q \<in> set (sq_operations db)" for q
      proof -
        have "row_of operation_id ?key (sq_operations db) = Some q"
          using that row_of_in [OF D(8), of q] by (simp add: key)
        with True Some operation_entry [OF rel this] that(1) show ?thesis
          by (cases q, cases r) (auto simp: operation_id_def)
      qed
      have sources: "active_sources_ok (sq_operations db)"
        using D(10) by (simp add: memory_ok_def D(4))
      have ix: "active_sources_ok ?rows \<longleftrightarrow>
          \<not> (\<not> cloud_terminal (op_state r)
             \<and> list_ex (\<lambda>(k, q). k \<noteq> ?key \<and> op_source_path q = op_source_path r \<and> \<not> cloud_terminal (op_state q))
                 (me_operations m))"
      proof -
        have "?rows = upsert operation_id (\<lambda>q r. if q \<in> set (sq_operations db) then ?merge q r else r) r (sq_operations db)"
        proof -
          have "upsert operation_id ?merge r qs
              = upsert operation_id (\<lambda>q r. if q \<in> set (sq_operations db) then ?merge q r else r) r qs"
            if "set qs \<subseteq> set (sq_operations db)" for qs
            using that by (induction qs) auto
          then show ?thesis by simp
        qed
        also have "active_sources_ok \<dots> \<longleftrightarrow> cloud_terminal (op_state r)
            \<or> \<not> (\<exists>q \<in> set (sq_operations db). operation_id q \<noteq> operation_id r \<and> op_source_path q = op_source_path r
                    \<and> \<not> cloud_terminal (op_state q))"
          using D(8) sources merge by (intro active_sources_upsert) auto
        finally show ?thesis by (auto simp: D(4) dict_of_def list_ex_iff key)
      qed
      have attempt: "\<not> (case ?current of None \<Rightarrow> False | Some q \<Rightarrow> op_attempt_id q \<noteq> op_attempt_id r)"
        using True by (auto split: option.splits)
      show ?thesis
      proof (cases "active_sources_ok ?rows")
        case False
        with ix have blocked: "\<not> cloud_terminal (op_state r)
             \<and> list_ex (\<lambda>(k, q). k \<noteq> ?key \<and> op_source_path q = op_source_path r \<and> \<not> cloud_terminal (op_state q))
                 (me_operations m)" by blast
        with False True attempt Some show ?thesis
          by (simp add: save_operation_locked_def execute_save_operation_def require_candidate_def Let_def
              get_candidate_row [OF rel] operation_row [OF rel])
      next
        case ok: True
        with ix have free: "\<not> (\<not> cloud_terminal (op_state r)
             \<and> list_ex (\<lambda>(k, q). k \<noteq> ?key \<and> op_source_path q = op_source_path r \<and> \<not> cloud_terminal (op_state q))
                 (me_operations m))" by blast
        have "dict_of operation_id (\<lambda>r. r) ?rows = AList.update ?key r (me_operations m)"
          unfolding D(4) key [symmetric] using merge by (intro upsert_dict_of) simp
        moreover from this have "dict_values (AList.update ?key r (me_operations m)) = ?rows"
          using dict_values_of [of operation_id "\<lambda>r. r" ?rows] by simp
        moreover have "operation_entry_ok m (?key, r)"
          using True Some by (simp add: operation_entry_ok_def key get_candidate_row [OF rel])
        ultimately have "refines (db\<lparr>sq_operations := ?rows\<rparr>) (m\<lparr>me_operations := AList.update ?key r (me_operations m)\<rparr>)"
          using D(10-12) ok
          by (auto simp: refines_def mirrors_def memory_ok_def keys_ok_def distinct_update dest!: in_AList_update)
        with free True attempt Some ok show ?thesis
          by (simp add: save_operation_locked_def execute_save_operation_def require_candidate_def Let_def
              get_candidate_row [OF rel] operation_row [OF rel])
      qed
    qed
  qed
qed

lemma save_operation_mirrors:
  assumes "refines db m"
  shows "fst (sql_save_cloud_move_operation r db) = fst (mem_save_cloud_move_operation r m)
    \<and> refines (snd (sql_save_cloud_move_operation r db)) (snd (mem_save_cloud_move_operation r m))"
  using locked_mirrors [OF assms, of r] assms
  by (auto simp: sql_save_cloud_move_operation_def mem_save_cloud_move_operation_def transact_def
      split: prod.splits sum.splits)

lemma get_operation_mirrors: "refines db m \<Longrightarrow> sql_get_cloud_move_operation p c db = mem_get_cloud_move_operation p c m"
  by (simp add: sql_get_cloud_move_operation_def mem_get_cloud_move_operation_def operation_row)

lemma list_operations_mirrors: "refines db m \<Longrightarrow> sql_list_unresolved_cloud_moves db = mem_list_unresolved_cloud_moves m"
  unfolding sql_list_unresolved_cloud_moves_def mem_list_unresolved_cloud_moves_def filter_active_sources
  by (simp add: refinesD(4))

text \<open>The two check a finalized move in different orders, so only whether they raise agrees.\<close>

lemma finalize_mirrors:
  assumes rel: "refines db m"
  shows "isl (fst (sql_finalize_cloud_move r result db)) = isl (fst (mem_finalize_cloud_move r result m))
    \<and> refines (snd (sql_finalize_cloud_move r result db)) (snd (mem_finalize_cloud_move r result m))"
proof (cases "cloud_terminal (op_state r) \<and> op_candidate_id r = res_candidate_id result")
  case False
  with rel show ?thesis
    by (auto simp: sql_finalize_cloud_move_def mem_finalize_cloud_move_def split: sum.split)
next
  case True
  let ?c = "row_of candidate_key (op_plan_id r, op_candidate_id r) (sq_candidates db)"
  show ?thesis
  proof (cases "save_operation_locked r m")
    case (Pair a m')
    show ?thesis
    proof (cases a)
      case (Inl e)
      with locked_mirrors [OF rel, of r] Pair True rel show ?thesis
        by (auto simp: sql_finalize_cloud_move_def mem_finalize_cloud_move_def transact_def split: sum.split)
    next
      case (Inr u)
      with locked_mirrors [OF rel, of r] Pair obtain db' where db': "execute_save_operation r db = Inr db'"
          "sq_candidates db' = sq_candidates db" "refines db' m'" by auto
      have "row_of candidate_key (op_plan_id r, op_candidate_id r) (sq_candidates db) \<noteq> None"
        using db'(1) by (cases "row_of candidate_key (op_plan_id r, op_candidate_id r) (sq_candidates db)")
          (simp_all add: execute_save_operation_def)
      then obtain c where c: "?c = Some c" by auto
      have put: "refines (db'\<lparr>sq_results := upsert result_key whole_row
          \<lparr>rw_plan_id = op_plan_id r, rw_candidate_id = op_candidate_id r, rw_result_json = result\<rparr> (sq_results db')\<rparr>)
          (put_result (op_plan_id r) (op_candidate_id r) result m')"
        using db'(2,3) c by (intro refines_put_result) (simp_all add: get_candidate_row [OF db'(3)])
      show ?thesis
        using True Pair Inr db' c put rel
        by (simp add: sql_finalize_cloud_move_def mem_finalize_cloud_move_def transact_def insert_move_result_def
            require_matching_candidate_def require_candidate_def get_candidate_row [OF rel] split: if_split)
    qed
  qed
qed

end
