(* ===== verification/Fill_Mirror_Drop.thy ===== *)
theory Fill_Mirror_Drop
  imports Fill_Mirror_Moves
begin

text \<open>
  Plans come and go: what removing plans takes with it, over the dicts one plan at a time,
  over the tables in one statement, and a plan saved over an older one of its id.
\<close>

section \<open>Plans in use\<close>

lemma in_use_mirrors:
  assumes rel: "refines db m"
  shows "sql_plan_in_use p db = plan_in_use p m"
proof -
  have "list_ex (\<lambda>(key, r). fst key = p \<and> jo_state r \<noteq> RECONCILED) (me_journal m)
      = list_ex (\<lambda>r. jo_plan_id r = p \<and> jo_state r \<noteq> RECONCILED) (sq_journal db)"
    by (simp add: refinesD(3) [OF rel] dict_of_def list_ex_iff journal_id_def)
  moreover have "list_ex (\<lambda>(key, r). fst key = p \<and> \<not> cloud_terminal (op_state r)) (me_operations m)
      = list_ex (\<lambda>r. op_plan_id r = p \<and> op_state r \<notin> {CSUCCEEDED, CCONFLICT, CFAILED}) (sq_operations db)"
    unfolding cloud_active_states by (simp add: refinesD(4) [OF rel] dict_of_def list_ex_iff operation_id_def)
  moreover have "list_ex (\<lambda>j. jb_operation j = APPLY \<and> jb_plan_id j = Some p \<and> job_active j) (dict_values (me_jobs m))
      = list_ex (\<lambda>r. jw_plan_id r = Some p \<and> jw_operation r = APPLY \<and> jw_state r \<in> {JQUEUED, JRUNNING}) (sq_jobs db)"
    by (auto simp: refinesD(1) [OF rel] list_ex_iff job_active_def)
  ultimately show ?thesis by (simp only: sql_plan_in_use_def plan_in_use_def)
qed

text \<open>Two rounds of removals are one.\<close>

lemma delete_candidates_twice:
  "delete_candidates p (delete_candidates q db) = delete_candidates (\<lambda>r. q r \<or> p r) db"
proof -
  let ?cs = "sq_candidates db"
  let ?A = "set (map candidate_key (filter q ?cs))"
  let ?B = "set (map candidate_key (filter p (filter (\<lambda>r. \<not> q r) ?cs)))"
  have gone: "set (map candidate_key (filter (\<lambda>r. q r \<or> p r) ?cs)) = ?A \<union> ?B" by auto
  have "filter (\<lambda>r. \<not> p r) (filter (\<lambda>r. \<not> q r) ?cs) = filter (\<lambda>r. \<not> (q r \<or> p r)) ?cs"
    unfolding filter_filter by (rule filter_cong) auto
  then show ?thesis
    unfolding delete_candidates_def Let_def gone
    by (simp del: set_map set_filter)
qed

lemma delete_candidates_frame:
  "delete_candidates p (db\<lparr>sq_jobs := js, sq_plans := ps\<rparr>) = (delete_candidates p db)\<lparr>sq_jobs := js, sq_plans := ps\<rparr>"
  "sq_plans (delete_candidates p db) = sq_plans db" "sq_jobs (delete_candidates p db) = sq_jobs db"
  "sq_apply_jobs (delete_candidates p db) = sq_apply_jobs db"
  by (simp_all add: delete_candidates_def Let_def)

lemma plan_ids_filter: "pw_plan_id ` set (filter (\<lambda>r. pw_plan_id r \<in> S) ps) = S \<inter> pw_plan_id ` set ps"
  by auto

text \<open>A removal as one set of rows per table.\<close>

definition unplanned :: "string list \<Rightarrow> job_row list \<Rightarrow> job_row list" where
  "unplanned ids rows = update_where (\<lambda>r. jw_plan_id r \<in> Some ` set ids) (\<lambda>r. r\<lparr>jw_plan_id := None\<rparr>) rows"

lemma delete_plans_eq:
  "delete_plans ids db =
     (delete_candidates (\<lambda>r. cw_plan_id r \<in> set ids \<inter> pw_plan_id ` set (sq_plans db)) db)
       \<lparr>sq_jobs := unplanned ids (sq_jobs db), sq_plans := filter (\<lambda>r. pw_plan_id r \<notin> set ids) (sq_plans db)\<rparr>"
  by (simp only: delete_plans_def Let_def plan_ids_filter delete_candidates_frame unplanned_def)

lemma delete_plans_Cons: "delete_plans (k # ks) db = delete_plans ks (delete_plans [k] db)"
proof -
  let ?p = "\<lambda>ids ps r. cw_plan_id r \<in> set ids \<inter> pw_plan_id ` set (ps :: plan_row list)"
  let ?ps = "filter (\<lambda>r. pw_plan_id r \<notin> set [k]) (sq_plans db)"
  have jobs: "unplanned (k # ks) rows = unplanned ks (unplanned [k] rows)" for rows
    by (auto simp: unplanned_def update_where_def)
  have plans: "filter (\<lambda>r. pw_plan_id r \<notin> set (k # ks)) (sq_plans db) = filter (\<lambda>r. pw_plan_id r \<notin> set ks) ?ps"
    unfolding filter_filter by (rule filter_cong) auto
  have gone: "?p (k # ks) (sq_plans db) = (\<lambda>r. ?p [k] (sq_plans db) r \<or> ?p ks ?ps r)"
    by (rule ext) auto
  have "delete_plans ks (delete_plans [k] db)
      = (delete_candidates (?p ks ?ps) (delete_candidates (?p [k] (sq_plans db)) db))
          \<lparr>sq_jobs := unplanned ks (unplanned [k] (sq_jobs db)), sq_plans := filter (\<lambda>r. pw_plan_id r \<notin> set ks) ?ps\<rparr>"
    unfolding delete_plans_eq [of ks] delete_plans_eq [of "[k]"] by (simp add: delete_candidates_frame)
  then show ?thesis
    unfolding delete_candidates_twice delete_plans_eq [of "k # ks"] jobs plans gone by simp
qed

lemma delete_plans_Nil: "delete_plans [] db = db"
  by (simp add: delete_plans_def delete_candidates_def update_where_def Let_def)

section \<open>One plan removed\<close>

lemma refers_to_candidate:
  assumes rel: "refines db m"
  shows "r \<in> set (sq_results db) \<Longrightarrow> row_of candidate_key (result_key r) (sq_candidates db) \<noteq> None"
    and "q \<in> set (sq_journal db) \<Longrightarrow> row_of candidate_key (journal_id q) (sq_candidates db) \<noteq> None"
    and "o' \<in> set (sq_operations db) \<Longrightarrow> row_of candidate_key (operation_id o') (sq_candidates db) \<noteq> None"
proof -
  have row: "row_of candidate_key key (sq_candidates db) \<noteq> None" if "has_candidate m key" for key
    using that by (cases key) (simp add: has_candidate_def get_candidate_row [OF rel])
  note D = refinesD [OF rel]
  show "row_of candidate_key (result_key r) (sq_candidates db) \<noteq> None" if "r \<in> set (sq_results db)"
    using that D(10) by (intro row) (auto simp: memory_ok_def D(2) dict_of_def)
  show "row_of candidate_key (journal_id q) (sq_candidates db) \<noteq> None" if "q \<in> set (sq_journal db)"
    using that D(10) by (intro row) (auto simp: memory_ok_def D(3) dict_of_def journal_entry_ok_def)
  have "has_candidate m (operation_id o')" if "o' \<in> set (sq_operations db)"
  proof -
    have "operation_entry_ok m (operation_id o', o')"
      using that D(10) by (auto simp: memory_ok_def D(4) dict_of_def)
    then show ?thesis by (auto simp: operation_entry_ok_def has_candidate_def)
  qed
  then show "row_of candidate_key (operation_id o') (sq_candidates db) \<noteq> None" if "o' \<in> set (sq_operations db)"
    using that by (intro row)
qed

lemma gone_iff:
  assumes "tables_ok db" and "row_of candidate_key key (sq_candidates db) \<noteq> None"
  shows "key \<in> candidate_key ` {r \<in> set (sq_candidates db). cw_plan_id r \<in> {k} \<inter> pw_plan_id ` set (sq_plans db)}
    \<longleftrightarrow> fst key = k"
proof -
  obtain c where "c \<in> set (sq_candidates db)" and "candidate_key c = key"
    using assms(2) by (auto dest: row_of_Some)
  then show ?thesis using assms(1) by (auto simp: tables_ok_def candidate_key_def image_iff)
qed

definition forgotten :: "string \<Rightarrow> job_record \<Rightarrow> job_record" where
  "forgotten k j = (if jb_plan_id j \<noteq> Some k then j else without_plan j)"

lemma forget_plan_eq: "forget_plan k d = map (\<lambda>(i, j). (i, forgotten k j)) d"
  by (simp add: forget_plan_def forgotten_def)

lemma forgotten_simps [simp]:
  "jb_job_id (forgotten k j) = jb_job_id j" "jb_operation (forgotten k j) = jb_operation j"
  "jb_state (forgotten k j) = jb_state j" "jb_error_code (forgotten k j) = jb_error_code j"
  "job_active (forgotten k j) = job_active j"
  by (simp_all add: forgotten_def without_plan_def job_active_def)

lemma apply_valid_forgotten: "apply_valid (a\<lparr>aj_job := j\<rparr>) \<Longrightarrow> apply_valid (a\<lparr>aj_job := forgotten k j\<rparr>)"
  by (auto simp: apply_valid_def forgotten_def without_plan_def split: option.splits)

lemma jobs_forgotten: "dict_of jw_job_id job_of_row (unplanned [k] rows) = forget_plan k (dict_of jw_job_id job_of_row rows)"
  by (auto simp: dict_of_def unplanned_def update_where_def forget_plan_eq forgotten_def without_plan_def job_of_row_def
      progress_of_row_def)

lemma refresh_apply_all:
  assumes "\<forall>(k, a) \<in> set d. \<exists>j. map_of js k = Some j \<and> apply_valid (a\<lparr>aj_job := j\<rparr>)"
  shows "refresh_apply js d = Inr (map (\<lambda>(k, a). (k, a\<lparr>aj_job := the (map_of js k)\<rparr>)) d)"
  using assms by (induction js d rule: refresh_apply.induct) auto

lemma active_sources_filter:
  assumes "active_sources_ok rows"
  shows "active_sources_ok (filter p rows)"
proof -
  let ?a = "\<lambda>r. op_state r \<in> {CPREPARED, CSUBMITTING, CVERIFYING, CUNKNOWN}"
  have "filter ?a (filter p rows) = filter p (filter ?a rows)"
    unfolding filter_filter by (rule filter_cong) auto
  then show ?thesis
    using assms unfolding active_sources_ok_def by (simp only: distinct_map_filter)
qed

lemma drop_mirrors:
  assumes rel: "refines db m"
  shows "\<exists>m'. drop_plan k m = (Inr (), m') \<and> refines (delete_plans [k] db) m'"
proof -
  note D = refinesD [OF rel] and R = refers_to_candidate [OF rel]
  let ?db = "delete_plans [k] db" and ?js = "forget_plan k (me_jobs m)"
  let ?gone = "candidate_key ` {r \<in> set (sq_candidates db). cw_plan_id r \<in> {k} \<inter> pw_plan_id ` set (sq_plans db)}"
  let ?apply = "map (\<lambda>(i, a). (i, a\<lparr>aj_job := the (map_of ?js i)\<rparr>)) (me_apply_jobs m)"
  let ?m = "m\<lparr>me_plans := AList.delete k (me_plans m), me_results := filter (\<lambda>(key, _). fst key \<noteq> k) (me_results m),
      me_journal := filter (\<lambda>(key, _). fst key \<noteq> k) (me_journal m),
      me_operations := filter (\<lambda>(key, _). fst key \<noteq> k) (me_operations m), me_jobs := ?js, me_apply_jobs := ?apply\<rparr>"
  have jobs: "map_of ?js i = map_option (forgotten k) (map_of (me_jobs m) i)" for i
    unfolding forget_plan_eq by (simp add: map_of_map)
  have apply_j: "\<exists>j. map_of (me_jobs m) i = Some j \<and> apply_valid (a\<lparr>aj_job := j\<rparr>)"
    if "(i, a) \<in> set (me_apply_jobs m)" for i a
    using that D(10) by (auto simp: memory_ok_def apply_entry_ok_def)
  have "\<forall>(i, a) \<in> set (me_apply_jobs m). \<exists>j. map_of ?js i = Some j \<and> apply_valid (a\<lparr>aj_job := j\<rparr>)"
    using apply_j by (fastforce simp: jobs intro: apply_valid_forgotten)
  then have dropped: "drop_plan k m = (Inr (), ?m)"
    by (simp add: drop_plan_def delete_plan_dependents_def Let_def refresh_apply_all)
  have tables: "sq_results ?db = filter (\<lambda>r. result_key r \<notin> ?gone) (sq_results db)"
    "sq_journal ?db = filter (\<lambda>r. journal_id r \<notin> ?gone) (sq_journal db)"
    "sq_operations ?db = filter (\<lambda>r. operation_id r \<notin> ?gone) (sq_operations db)"
    "sq_jobs ?db = unplanned [k] (sq_jobs db)" "sq_apply_jobs ?db = sq_apply_jobs db"
    "sq_plans ?db = filter (\<lambda>r. pw_plan_id r \<noteq> k) (sq_plans db)"
    "sq_candidates ?db = filter (\<lambda>r. cw_plan_id r \<notin> {k} \<inter> pw_plan_id ` set (sq_plans db)) (sq_candidates db)"
    unfolding delete_plans_eq by (simp_all add: delete_candidates_def Let_def)
  have cands: "plan_candidates p (sq_candidates ?db) = plan_candidates p (sq_candidates db)" if "p \<noteq> k" for p
  proof -
    have "filter (\<lambda>r. cw_plan_id r = p) (sq_candidates ?db) = filter (\<lambda>r. cw_plan_id r = p) (sq_candidates db)"
      unfolding tables filter_filter using that by (intro filter_cong) auto
    then show ?thesis by (simp add: plan_candidates_def)
  qed
  have plans: "dict_of pw_plan_id (plan_of ?db) (sq_plans ?db) = map (\<lambda>(i, p). (i, sorted_plan p)) (me_plans ?m)"
  proof -
    have "dict_of pw_plan_id (plan_of ?db) (sq_plans ?db)
        = filter (\<lambda>(i, _). i \<noteq> k) (dict_of pw_plan_id (plan_of db) (sq_plans db))"
      unfolding tables(6) by (auto simp: dict_of_def filter_map comp_def plan_of_def cands)
    also have "\<dots> = filter (\<lambda>(i, _). i \<noteq> k) (map (\<lambda>(i, p). (i, sorted_plan p)) (me_plans m))"
      using D(12) by (simp add: mirrors_def)
    also have "\<dots> = map (\<lambda>(i, p). (i, sorted_plan p)) (AList.delete k (me_plans m))"
      unfolding AList.delete_eq filter_map by (rule arg_cong [where f = "map _"]) (auto intro: filter_cong)
    finally show ?thesis by simp
  qed
  have "mirrors ?db ?m"
    unfolding mirrors_def
  proof (intro conjI)
    show "dict_of pw_plan_id (plan_of ?db) (sq_plans ?db) = map (\<lambda>(k, p). (k, sorted_plan p)) (me_plans ?m)"
      by (rule plans)
    show "dict_of result_key rw_result_json (sq_results ?db) = me_results ?m"
      unfolding tables using gone_iff [OF D(11) R(1)] by (simp add: D(2)) (rule filter_dict_of, simp)
    show "dict_of journal_id (\<lambda>r. r) (sq_journal ?db) = me_journal ?m"
      unfolding tables using gone_iff [OF D(11) R(2)] by (simp add: D(3)) (rule filter_dict_of, simp)
    show "dict_of operation_id (\<lambda>r. r) (sq_operations ?db) = me_operations ?m"
      unfolding tables using gone_iff [OF D(11) R(3)] by (simp add: D(4)) (rule filter_dict_of, simp)
    show "dict_of jw_job_id job_of_row (sq_jobs ?db) = me_jobs ?m"
      unfolding tables by (simp add: jobs_forgotten D(1))
    show "dict_of aw_job_id (\<lambda>r. (aw_revision r, aw_candidate_ids_json r, aw_result_json r)) (sq_apply_jobs ?db)
        = map (\<lambda>(k, a). (k, aj_revision a, aj_candidate_ids a, aj_result a)) (me_apply_jobs ?m)"
      unfolding tables using D(12) by (simp add: mirrors_def comp_def case_prod_beta)
  qed
  moreover have "tables_ok ?db"
  proof -
    have "unique_key candidate_key (sq_candidates db)"
      and fk: "\<forall>r \<in> set (sq_candidates db). cw_plan_id r \<in> pw_plan_id ` set (sq_plans db)"
      and cols: "\<forall>row \<in> set (sq_plans db). pw_plan_id row = fp_plan_id (pw_public_json row)
          \<and> pw_expires_at row = fp_expires_at (pw_public_json row)"
      using D(11) unfolding tables_ok_def by blast+
    then have "unique_key candidate_key (sq_candidates ?db)"
      unfolding tables unique_key_def by (intro distinct_map_filter)
    moreover have "\<forall>r \<in> set (sq_candidates ?db). cw_plan_id r \<in> pw_plan_id ` set (sq_plans ?db)"
      unfolding tables using fk by auto
    moreover have "\<forall>row \<in> set (sq_plans ?db). pw_plan_id row = fp_plan_id (pw_public_json row)
        \<and> pw_expires_at row = fp_expires_at (pw_public_json row)"
      unfolding tables set_filter using cols by blast
    ultimately show ?thesis unfolding tables_ok_def by blast
  qed
  moreover have "memory_ok ?m"
  proof -
    have other: "mem_get_candidate p c (m\<lparr>me_plans := AList.delete k (me_plans m)\<rparr>) = mem_get_candidate p c m" if "p \<noteq> k" for p c
      using that by (simp add: mem_get_candidate_def delete_conv')
    have ok: "keys_ok m" "\<forall>e \<in> set (me_plans m). plan_entry_ok e" "\<forall>e \<in> set (me_jobs m). job_entry_ok e"
      "\<forall>e \<in> set (me_results m). has_candidate m (fst e)" "\<forall>e \<in> set (me_journal m). journal_entry_ok m e"
      "\<forall>e \<in> set (me_operations m). operation_entry_ok m e" "active_sources_ok (dict_values (me_operations m))"
      using D(10) by (simp_all add: memory_ok_def)
    have "keys_ok ?m"
      using ok(1) by (simp add: keys_ok_def distinct_delete distinct_map_filter forget_plan_eq comp_def case_prod_beta)
    moreover have "\<forall>e \<in> set (me_plans ?m). plan_entry_ok e" using ok(2) by (auto simp: AList.delete_eq)
    moreover have "\<forall>e \<in> set ?js. job_entry_ok e"
      using ok(3) by (auto simp: forget_plan_eq job_entry_ok_def)
    moreover have "\<forall>e \<in> set ?apply. apply_entry_ok ?js e"
      using apply_j by (fastforce simp: apply_entry_ok_def jobs intro: apply_valid_forgotten)
    moreover have "\<forall>e \<in> set (me_results ?m). has_candidate ?m (fst e)"
      using ok(4) by (auto simp: has_candidate_def other)
    moreover have "\<forall>e \<in> set (me_journal ?m). journal_entry_ok ?m e"
    proof
      fix e assume "e \<in> set (me_journal ?m)"
      then have "journal_entry_ok m e" and "fst (fst e) \<noteq> k" using ok(5) by auto
      moreover from this(2) have "has_candidate ?m (fst e) = has_candidate m (fst e)"
        by (simp add: has_candidate_def other)
      ultimately show "journal_entry_ok ?m e" unfolding journal_entry_ok_def by blast
    qed
    moreover have "\<forall>e \<in> set (me_operations ?m). operation_entry_ok ?m e"
    proof
      fix e assume "e \<in> set (me_operations ?m)"
      then have "operation_entry_ok m e" and "fst (fst e) \<noteq> k" using ok(6) by auto
      moreover from this(2) have "mem_get_candidate (fst (fst e)) (snd (fst e)) ?m = mem_get_candidate (fst (fst e)) (snd (fst e)) m"
        by (simp add: other)
      ultimately show "operation_entry_ok ?m e" unfolding operation_entry_ok_def by metis
    qed
    moreover have "active_sources_ok (dict_values (me_operations ?m))"
    proof -
      have "dict_values (me_operations ?m) = filter (\<lambda>r. fst (operation_id r) \<noteq> k) (dict_values (me_operations m))"
        by (simp add: D(4) dict_values_def dict_of_def filter_map comp_def)
      then show ?thesis
        using ok(7) by (simp only: active_sources_filter)
    qed
    ultimately show ?thesis by (simp add: memory_ok_def)
  qed
  ultimately show ?thesis using dropped by (auto simp: refines_def)
qed

section \<open>Removals\<close>

lemma delete_missing:
  assumes rel: "refines db m" and "map_of (me_plans m) k = None" and "\<forall>j \<in> set (dict_values (me_jobs m)). jb_plan_id j \<noteq> Some k"
  shows "delete_plans [k] db = db"
proof -
  have no_plan: "k \<notin> pw_plan_id ` set (sq_plans db)"
    using assms(2) refines_plans(1) [OF rel] by (metis list.set_map map_of_eq_None_iff)
  have "unplanned [k] (sq_jobs db) = sq_jobs db"
    using assms(3) by (auto simp: unplanned_def update_where_def refinesD(1) [OF rel] intro!: map_idI)
  moreover have "filter (\<lambda>r. pw_plan_id r \<notin> set [k]) (sq_plans db) = sq_plans db"
    using no_plan by (auto simp: filter_id_conv)
  moreover have "delete_candidates (\<lambda>r. cw_plan_id r \<in> set [k] \<inter> pw_plan_id ` set (sq_plans db)) db = db"
    using no_plan by (simp add: delete_candidates_def Let_def)
  ultimately show ?thesis unfolding delete_plans_eq by simp
qed

lemma delete_mirrors:
  assumes rel: "refines db m"
    and sane: "map_of (me_plans m) k \<noteq> None \<or> (\<forall>j \<in> set (dict_values (me_jobs m)). jb_plan_id j \<noteq> Some k)"
  shows "fst (mem_delete_plan k m) = Inr (fst (sql_delete_plan k db))
    \<and> refines (snd (sql_delete_plan k db)) (snd (mem_delete_plan k m))"
proof -
  have count: "0 < count_where (\<lambda>r. pw_plan_id r = k) (sq_plans db) \<longleftrightarrow> map_of (me_plans m) k \<noteq> None"
  proof -
    have "0 < count_where (\<lambda>r. pw_plan_id r = k) (sq_plans db) \<longleftrightarrow> k \<in> set (map pw_plan_id (sq_plans db))"
      by (auto simp: count_where_def filter_empty_conv)
    then show ?thesis by (simp add: refines_plans(1) [OF rel] map_of_eq_None_iff)
  qed
  show ?thesis
  proof (cases "plan_in_use k m \<or> map_of (me_plans m) k = None")
    case True
    with rel sane count show ?thesis
      by (auto simp: sql_delete_plan_def mem_delete_plan_def in_use_mirrors [OF rel] delete_missing [OF rel])
  next
    case False
    with drop_mirrors [OF rel, of k] count show ?thesis
      by (auto simp: sql_delete_plan_def mem_delete_plan_def in_use_mirrors [OF rel])
  qed
qed

lemma drops_mirror:
  "refines db m \<Longrightarrow> \<exists>m'. drop_plans ks m = (Inr (), m') \<and> refines (delete_plans ks db) m'"
proof (induction ks arbitrary: db m)
  case Nil
  then show ?case by (simp add: delete_plans_Nil)
next
  case (Cons k ks)
  then obtain m1 where "drop_plan k m = (Inr (), m1)" and "refines (delete_plans [k] db) m1"
    using drop_mirrors by blast
  with Cons.IH [of "delete_plans [k] db" m1] show ?case by (subst delete_plans_Cons) simp
qed

lemma expired_plans_mirror:
  assumes rel: "refines db m"
  shows "map pw_plan_id (filter (\<lambda>r. pw_expires_at r \<le> now \<and> \<not> sql_plan_in_use (pw_plan_id r) db) (sq_plans db))
    = mem_expired_plans now m"
proof -
  let ?P = "\<lambda>(k, p). fp_expires_at (pl_public p) \<le> now \<and> \<not> plan_in_use k m"
  have cols: "pw_expires_at r = fp_expires_at (pl_public (plan_of db r))" if "r \<in> set (sq_plans db)" for r
    using that refinesD(11) [OF rel] by (simp add: tables_ok_def plan_of_def)
  have "dict_of pw_plan_id (plan_of db)
          (filter (\<lambda>r. pw_expires_at r \<le> now \<and> \<not> sql_plan_in_use (pw_plan_id r) db) (sq_plans db))
      = filter ?P (dict_of pw_plan_id (plan_of db) (sq_plans db))"
    by (rule filter_dict_of) (simp add: cols in_use_mirrors [OF rel])
  also have "\<dots> = filter ?P (map (\<lambda>(k, p). (k, sorted_plan p)) (me_plans m))"
    using refinesD(12) [OF rel] by (simp add: mirrors_def)
  also have "\<dots> = map (\<lambda>(k, p). (k, sorted_plan p)) (filter ?P (me_plans m))"
    unfolding filter_map comp_def by (rule arg_cong [where f = "map _"], rule filter_cong) (auto simp: sorted_plan_def)
  finally have "map fst (dict_of pw_plan_id (plan_of db)
          (filter (\<lambda>r. pw_expires_at r \<le> now \<and> \<not> sql_plan_in_use (pw_plan_id r) db) (sq_plans db)))
      = map fst (map (\<lambda>(k, p). (k, sorted_plan p)) (filter ?P (me_plans m)))"
    by simp
  then show ?thesis by (simp add: mem_expired_plans_def comp_def case_prod_beta)
qed

lemma purge_mirrors:
  assumes rel: "refines db m"
  shows "fst (mem_purge_expired_plans now m) = Inr (fst (sql_purge_expired_plans now db))
    \<and> refines (snd (sql_purge_expired_plans now db)) (snd (mem_purge_expired_plans now m))"
proof -
  obtain m' where m': "drop_plans (mem_expired_plans now m) m = (Inr (), m')"
      "refines (delete_plans (mem_expired_plans now m) db) m'"
    using drops_mirror [OF rel] by blast
  have len: "length (filter (\<lambda>r. pw_expires_at r \<le> now \<and> \<not> sql_plan_in_use (pw_plan_id r) db) (sq_plans db))
      = length (mem_expired_plans now m)"
    unfolding expired_plans_mirror [OF rel, symmetric] by simp
  show ?thesis
    using m' len expired_plans_mirror [OF rel, of now]
    by (auto simp: sql_purge_expired_plans_def mem_purge_expired_plans_def Let_def delete_plans_Nil)
qed

end
