(* ===== verification/Fill_Mirror_Save.thy ===== *)
theory Fill_Mirror_Save
  imports Fill_Mirror_Drop
begin

text \<open>
  A plan saved, over nothing or over an older one of its id: its candidates replace the old
  ones, and what hung on a candidate that is no longer there goes with it.
\<close>

lemma fold_upsert:
  assumes "unique_key key rs" and "distinct (map (\<lambda>c. key (g c)) cs)"
  shows "unique_key key (fold (\<lambda>c. upsert key whole_row (g c)) cs rs)
    \<and> set (fold (\<lambda>c. upsert key whole_row (g c)) cs rs)
        = g ` set cs \<union> {r \<in> set rs. key r \<notin> (\<lambda>c. key (g c)) ` set cs}"
  using assms
proof (induction cs arbitrary: rs)
  case Nil
  then show ?case by simp
next
  case (Cons c cs)
  let ?rs = "upsert key whole_row (g c) rs"
  have u: "unique_key key ?rs" using Cons.prems(1) by (simp add: whole_row_def)
  have "set ?rs = insert (g c) {q \<in> set rs. key q \<noteq> key (g c)}"
    using Cons.prems(1) by (intro set_upsert) (simp_all add: whole_row_def)
  with Cons.IH [OF u] Cons.prems(2) show ?case by auto
qed

text \<open>What the invariant asks of the caller: the record is valid, and an unfinished move keeps its paths.\<close>

definition plan_saveable :: "plan_record \<Rightarrow> memory \<Rightarrow> bool" where
  "plan_saveable p m \<longleftrightarrow>
     plan_valid p \<and> list_all candidate_valid (pl_candidates p)
     \<and> list_all (\<lambda>(key, r). fst key = fp_plan_id (pl_public p) \<longrightarrow>
          list_all (\<lambda>c. cr_candidate_id c = snd key \<longrightarrow>
              cr_cloud_source_path c = Some (op_source_path r)
              \<and> cr_cloud_destination_dir c = Some (op_destination_dir r)) (pl_candidates p)) (me_operations m)"

lemma save_plan_mirrors:
  assumes rel: "refines db m" and sane: "plan_saveable p m"
  shows "refines (sql_save_plan p db) (mem_save_plan p m)"
proof -
  note D = refinesD [OF rel] and R = refers_to_candidate [OF rel]
  let ?k = "fp_plan_id (pl_public p)" and ?cs = "pl_candidates p"
  let ?ids = "map cr_candidate_id ?cs"
  let ?db = "sql_save_plan p db" and ?m = "mem_save_plan p m"
  let ?old = "\<lambda>r. cw_plan_id r = ?k \<and> cw_candidate_id r \<notin> set ?ids"
  let ?kept = "filter (\<lambda>r. \<not> ?old r) (sq_candidates db)"
  let ?gone = "candidate_key ` {r \<in> set (sq_candidates db). ?old r}"
  let ?row = "\<lparr>pw_plan_id = ?k, pw_revision = fp_revision (pl_public p), pw_public_json = pl_public p,
      pw_created_at = fp_created_at (pl_public p), pw_expires_at = fp_expires_at (pl_public p),
      pw_config_version = pl_config_version p\<rparr>"
  have valid: "plan_valid p" "list_all candidate_valid ?cs" "distinct ?ids"
    using sane by (simp_all add: plan_saveable_def plan_valid_def)
  have tables: "sq_results ?db = filter (\<lambda>r. result_key r \<notin> ?gone) (sq_results db)"
    "sq_journal ?db = filter (\<lambda>r. journal_id r \<notin> ?gone) (sq_journal db)"
    "sq_operations ?db = filter (\<lambda>r. operation_id r \<notin> ?gone) (sq_operations db)"
    "sq_jobs ?db = sq_jobs db" "sq_apply_jobs ?db = sq_apply_jobs db"
    "sq_plans ?db = upsert pw_plan_id whole_row ?row (sq_plans db)"
    "sq_candidates ?db = fold (\<lambda>c. upsert candidate_key whole_row (row_of_candidate ?k c)) ?cs ?kept"
    by (simp_all add: sql_save_plan_def delete_candidates_def Let_def)
  have "unique_key candidate_key ?kept" using D(9) by (simp add: unique_key_def distinct_map_filter)
  moreover have "distinct (map (\<lambda>c. candidate_key (row_of_candidate ?k c)) ?cs)"
    using valid(3) by (simp add: distinct_map inj_on_def)
  ultimately have cands: "unique_key candidate_key (sq_candidates ?db)"
      "set (sq_candidates ?db) = row_of_candidate ?k ` set ?cs
        \<union> {r \<in> set ?kept. candidate_key r \<notin> (\<lambda>c. candidate_key (row_of_candidate ?k c)) ` set ?cs}"
    unfolding tables using fold_upsert by blast+
  have rows_k: "row_of_candidate ?k ` set ?cs = {r \<in> set (sq_candidates ?db). cw_plan_id r = ?k}"
    unfolding cands(2) by (auto simp: candidate_key_def image_iff)
  have rows_other: "{r \<in> set (sq_candidates ?db). cw_plan_id r = q} = {r \<in> set (sq_candidates db). cw_plan_id r = q}"
    if "q \<noteq> ?k" for q
    unfolding cands(2) using that by (auto simp: candidate_key_def)
  have other: "plan_candidates q (sq_candidates ?db) = plan_candidates q (sq_candidates db)" if "q \<noteq> ?k" for q
  proof -
    have "sort_key cw_candidate_id (filter (\<lambda>r. cw_plan_id r = q) (sq_candidates ?db))
        = sort_key cw_candidate_id (filter (\<lambda>r. cw_plan_id r = q) (sq_candidates db))"
      using rows_other [OF that] cands(1) D(9) by (intro sort_key_same_set unique_plan_filter) simp_all
    then show ?thesis by (simp add: plan_candidates_def)
  qed
  have own: "plan_candidates ?k (sq_candidates ?db) = sort_key cr_candidate_id ?cs"
  proof -
    have "set (map candidate_of_row (filter (\<lambda>r. cw_plan_id r = ?k) (sq_candidates ?db))) = set ?cs"
      by (simp add: rows_k [symmetric] image_image)
    moreover have "unique_key cr_candidate_id (map candidate_of_row (filter (\<lambda>r. cw_plan_id r = ?k) (sq_candidates ?db)))"
      using unique_plan_filter [OF cands(1), of ?k] by (simp add: unique_key_def comp_def)
    ultimately show ?thesis
      unfolding plan_candidates_sorted using valid(3) by (intro sort_key_same_set) (simp_all add: unique_key_def)
  qed
  have keep: "key \<in> ?gone \<longleftrightarrow> fst key = ?k \<and> snd key \<notin> set ?ids"
    if "row_of candidate_key key (sq_candidates db) \<noteq> None" for key
  proof -
    obtain c where "c \<in> set (sq_candidates db)" and "candidate_key c = key"
      using \<open>row_of candidate_key key (sq_candidates db) \<noteq> None\<close> by (auto dest: row_of_Some)
    then show ?thesis by (auto simp: candidate_key_def image_iff)
  qed
  have "mirrors ?db ?m"
    unfolding mirrors_def
  proof (intro conjI)
    have "plan_of ?db r = plan_of db r" if "pw_plan_id r \<noteq> ?k" for r
      using that by (simp add: plan_of_def other)
    then have rest: "dict_of pw_plan_id (plan_of ?db) rs = dict_of pw_plan_id (plan_of db) rs"
      if "\<forall>r \<in> set rs. pw_plan_id r \<noteq> ?k" for rs
      using that by (auto simp: dict_of_def)
    have "plan_of ?db ?row = sorted_plan p"
      using own by (simp add: plan_of_def sorted_plan_def)
    then have "dict_of pw_plan_id (plan_of ?db) (upsert pw_plan_id whole_row ?row rs)
        = AList.update ?k (sorted_plan p) (dict_of pw_plan_id (plan_of db) rs)" if "unique_key pw_plan_id rs" for rs
      using that
    proof (induction rs)
      case Nil
      then show ?case by simp
    next
      case (Cons a rs)
      have "\<forall>r \<in> set rs. pw_plan_id r \<noteq> ?k" if "pw_plan_id a = ?k"
        using Cons.prems(2) that by (auto simp: unique_key_def image_iff)
      moreover have "plan_of ?db a = plan_of db a" if "pw_plan_id a \<noteq> ?k" using that by (simp add: plan_of_def other)
      ultimately show ?case
        using Cons by (cases "pw_plan_id a = ?k") (simp_all add: whole_row_def rest unique_key_def)
    qed
    then show "dict_of pw_plan_id (plan_of ?db) (sq_plans ?db) = map (\<lambda>(k, p). (k, sorted_plan p)) (me_plans ?m)"
      unfolding tables using refines_plans(2) [OF rel] D(12)
      by (simp add: mirrors_def mem_save_plan_def Let_def map_AList_update)
    show "dict_of result_key rw_result_json (sq_results ?db) = me_results ?m"
      unfolding tables mem_save_plan_def Let_def
      using keep [OF R(1)] by (simp add: D(2) keep_candidates_def) (rule filter_dict_of, auto)
    show "dict_of journal_id (\<lambda>r. r) (sq_journal ?db) = me_journal ?m"
      unfolding tables mem_save_plan_def Let_def
      using keep [OF R(2)] by (simp add: D(3) keep_candidates_def) (rule filter_dict_of, auto)
    show "dict_of operation_id (\<lambda>r. r) (sq_operations ?db) = me_operations ?m"
      unfolding tables mem_save_plan_def Let_def
      using keep [OF R(3)] by (simp add: D(4) keep_candidates_def) (rule filter_dict_of, auto)
    show "dict_of jw_job_id job_of_row (sq_jobs ?db) = me_jobs ?m"
      unfolding tables by (simp add: mem_save_plan_def Let_def D(1))
    show "dict_of aw_job_id (\<lambda>r. (aw_revision r, aw_candidate_ids_json r, aw_result_json r)) (sq_apply_jobs ?db)
        = map (\<lambda>(k, a). (k, aj_revision a, aj_candidate_ids a, aj_result a)) (me_apply_jobs ?m)"
      unfolding tables using D(12) by (simp add: mirrors_def mem_save_plan_def Let_def)
  qed
  moreover have "tables_ok ?db"
    unfolding tables_ok_def
  proof (intro conjI)
    have plans: "set (sq_plans ?db) = insert ?row {r \<in> set (sq_plans db). pw_plan_id r \<noteq> ?k}"
      unfolding tables using refines_plans(2) [OF rel] set_upsert [of pw_plan_id "sq_plans db" ?row whole_row]
      by (simp add: whole_row_def)
    show "unique_key candidate_key (sq_candidates ?db)" by (rule cands(1))
    have "\<forall>r \<in> set (sq_candidates db). cw_plan_id r \<in> pw_plan_id ` set (sq_plans db)"
      using D(11) unfolding tables_ok_def by blast
    then show "\<forall>r \<in> set (sq_candidates ?db). cw_plan_id r \<in> pw_plan_id ` set (sq_plans ?db)"
    proof (intro ballI)
      fix r assume fk: "\<forall>r \<in> set (sq_candidates db). cw_plan_id r \<in> pw_plan_id ` set (sq_plans db)"
        and "r \<in> set (sq_candidates ?db)"
      then have "cw_plan_id r = ?k \<or> cw_plan_id r \<in> pw_plan_id ` set (sq_plans db)"
        using rows_other [of "cw_plan_id r"] by blast
      moreover have "pw_plan_id ` set (sq_plans ?db) = insert ?k (pw_plan_id ` set (sq_plans db))"
        unfolding plans by auto
      ultimately show "cw_plan_id r \<in> pw_plan_id ` set (sq_plans ?db)" by blast
    qed
    have "\<forall>row \<in> set (sq_plans db). pw_plan_id row = fp_plan_id (pw_public_json row)
        \<and> pw_expires_at row = fp_expires_at (pw_public_json row)"
      using D(11) unfolding tables_ok_def by blast
    then show "\<forall>row \<in> set (sq_plans ?db). pw_plan_id row = fp_plan_id (pw_public_json row)
        \<and> pw_expires_at row = fp_expires_at (pw_public_json row)"
      unfolding plans by simp
  qed
  moreover have "memory_ok ?m"
  proof -
    have get: "mem_get_candidate q c ?m = (if q = ?k then plan_candidate p c else mem_get_candidate q c m)" for q c
      by (simp add: mem_get_candidate_def mem_save_plan_def Let_def update_conv')
    have found: "plan_candidate p c \<noteq> None" if "c \<in> set ?ids" for c
      using that row_of_None_iff [of cr_candidate_id c ?cs] by (simp add: plan_candidate_def row_of_def [symmetric])
    have ok: "keys_ok m" "\<forall>e \<in> set (me_plans m). plan_entry_ok e" "\<forall>e \<in> set (me_jobs m). job_entry_ok e"
      "\<forall>e \<in> set (me_apply_jobs m). apply_entry_ok (me_jobs m) e"
      "\<forall>e \<in> set (me_results m). has_candidate m (fst e)" "\<forall>e \<in> set (me_journal m). journal_entry_ok m e"
      "\<forall>e \<in> set (me_operations m). operation_entry_ok m e" "active_sources_ok (dict_values (me_operations m))"
      using D(10) by (simp_all add: memory_ok_def)
    have has: "has_candidate ?m key" if "has_candidate m key" and "fst key \<noteq> ?k \<or> snd key \<in> set ?ids" for key
      using that found [of "snd key"] by (auto simp: has_candidate_def get)
    have fields: "me_jobs ?m = me_jobs m" "me_apply_jobs ?m = me_apply_jobs m"
      "me_plans ?m = AList.update ?k p (me_plans m)" "me_results ?m = keep_candidates ?k ?ids (me_results m)"
      "me_journal ?m = keep_candidates ?k ?ids (me_journal m)"
      "me_operations ?m = keep_candidates ?k ?ids (me_operations m)"
      by (simp_all add: mem_save_plan_def Let_def)
    have kept: "e \<in> set (keep_candidates ?k ?ids d) \<longleftrightarrow> e \<in> set d \<and> (fst (fst e) \<noteq> ?k \<or> snd (fst e) \<in> set ?ids)" for e d
      by (auto simp: keep_candidates_def)
    have "keys_ok ?m"
      unfolding keys_ok_def fields using ok(1)
      by (simp add: keys_ok_def distinct_update keep_candidates_def distinct_map_filter)
    moreover have "\<forall>e \<in> set (me_plans ?m). plan_entry_ok e"
      unfolding fields using ok(2) valid by (intro AList_update_ball) (simp_all add: plan_entry_ok_def)
    moreover have "\<forall>e \<in> set (me_results ?m). has_candidate ?m (fst e)"
      unfolding fields using ok(5) has by (auto simp: kept)
    moreover have "\<forall>e \<in> set (me_journal ?m). journal_entry_ok ?m e"
      unfolding fields
    proof
      fix e assume "e \<in> set (keep_candidates ?k ?ids (me_journal m))"
      then have "journal_entry_ok m e" and "fst (fst e) \<noteq> ?k \<or> snd (fst e) \<in> set ?ids"
        using ok(6) kept by blast+
      then show "journal_entry_ok ?m e" unfolding journal_entry_ok_def using has by blast
    qed
    moreover have "\<forall>e \<in> set (me_operations ?m). operation_entry_ok ?m e"
      unfolding fields
    proof
      fix e assume "e \<in> set (keep_candidates ?k ?ids (me_operations m))"
      then have e: "operation_entry_ok m e" "fst (fst e) \<noteq> ?k \<or> snd (fst e) \<in> set ?ids" "e \<in> set (me_operations m)"
        using ok(7) kept by blast+
      show "operation_entry_ok ?m e"
      proof (cases "fst (fst e) = ?k")
        case False
        then have "mem_get_candidate (fst (fst e)) (snd (fst e)) ?m = mem_get_candidate (fst (fst e)) (snd (fst e)) m"
          by (simp add: get)
        with e(1) show ?thesis unfolding operation_entry_ok_def by metis
      next
        case True
        with e(2) found obtain c where c: "plan_candidate p (snd (fst e)) = Some c" by blast
        then have "c \<in> set ?cs" and "cr_candidate_id c = snd (fst e)"
          by (auto simp: plan_candidate_def row_of_def [symmetric] dest!: row_of_Some)
        with sane e(3) True have "cr_cloud_source_path c = Some (op_source_path (snd e))"
          "cr_cloud_destination_dir c = Some (op_destination_dir (snd e))"
          by (auto simp: plan_saveable_def list_all_iff)
        with c True e(1) show ?thesis unfolding operation_entry_ok_def get by auto
      qed
    qed
    moreover have "active_sources_ok (dict_values (me_operations ?m))"
    proof -
      have "dict_values (me_operations ?m)
          = filter (\<lambda>r. fst (operation_id r) \<noteq> ?k \<or> snd (operation_id r) \<in> set ?ids) (dict_values (me_operations m))"
        unfolding fields by (simp add: D(4) dict_values_def dict_of_def keep_candidates_def filter_map comp_def)
      then show ?thesis using ok(8) by (simp only: active_sources_filter)
    qed
    ultimately show ?thesis
      unfolding memory_ok_def using ok(3,4) by (simp add: fields)
  qed
  ultimately show ?thesis by (simp add: refines_def)
qed

end
