(* ===== verification/Fill_Calls.thy ===== *)
theory Fill_Calls
  imports Fill_Mirror_Save
begin

text \<open>
  The \<^verbatim>\<open>FillActorRepository\<close> protocol of \<^verbatim>\<open>fill_actor/persistence.py\<close>: a call and what it
  answers, on the dicts and on the tables, and the refinement of the one by the other over any
  sequence of calls.
\<close>

section \<open>The protocol\<close>

datatype fill_call =
    Save_Plan plan_record
  | Get_Plan string
  | Get_Candidate string string
  | Delete_Plan string
  | Purge_Expired_Plans datetime
  | Save_Move_Result string move_result
  | Get_Move_Result string string
  | List_Move_Results string
  | Save_Job job_record
  | Enqueue_Job job_record nat
  | Enqueue_Apply_Job apply_job nat
  | Get_Apply_Job string
  | Claim_Next_Job string datetime datetime
  | Renew_Owned_Job_Lease string string datetime datetime
  | Update_Owned_Job_Progress string string job_progress datetime
  | Finish_Owned_Job string string job_state "string option" datetime job_progress "apply_result option"
  | Cancel_Job string datetime
  | Fail_Expired_Jobs datetime string
  | Get_Job string
  | List_Jobs "job_state list option"
  | Save_Move_Journal journal_record
  | Get_Move_Journal string string
  | List_Unreconciled_Moves
  | Save_Cloud_Move_Operation cloud_operation
  | Get_Cloud_Move_Operation string string
  | List_Unresolved_Cloud_Moves
  | Finalize_Cloud_Move cloud_operation move_result

datatype fill_answer =
    Raised fill_error
  | Nothing
  | Flag bool
  | Count nat
  | A_Plan "plan_record option"
  | A_Candidate "candidate_record option"
  | A_Result "move_result option"
  | Results "move_result list"
  | A_Job "job_record option"
  | Jobs "job_record list"
  | Enqueued enqueue_outcome "apply_job option"
  | An_Apply_Job "apply_job option"
  | Cancelled cancel_result
  | A_Journal "journal_record option"
  | Journals "journal_record list"
  | An_Operation "cloud_operation option"
  | Operations "cloud_operation list"

definition answered :: "('a \<Rightarrow> fill_answer) \<Rightarrow> fill_error + 'a \<Rightarrow> fill_answer" where
  "answered f r = (case r of Inl e \<Rightarrow> Raised e | Inr a \<Rightarrow> f a)"

fun memory_call :: "fill_call \<Rightarrow> memory \<Rightarrow> fill_answer \<times> memory" where
  "memory_call (Save_Plan p) m = (Nothing, mem_save_plan p m)"
| "memory_call (Get_Plan k) m = (A_Plan (mem_get_plan k m), m)"
| "memory_call (Get_Candidate k c) m = (A_Candidate (mem_get_candidate k c m), m)"
| "memory_call (Delete_Plan k) m = map_prod (answered Flag) id (mem_delete_plan k m)"
| "memory_call (Purge_Expired_Plans now) m = map_prod (answered Count) id (mem_purge_expired_plans now m)"
| "memory_call (Save_Move_Result k r) m = map_prod (answered (\<lambda>_. Nothing)) id (mem_save_move_result k r m)"
| "memory_call (Get_Move_Result k c) m = (A_Result (mem_get_move_result k c m), m)"
| "memory_call (List_Move_Results k) m = (Results (mem_list_move_results k m), m)"
| "memory_call (Save_Job j) m = (Nothing, mem_save_job j m)"
| "memory_call (Enqueue_Job j n) m = map_prod Flag id (mem_enqueue_job j n m)"
| "memory_call (Enqueue_Apply_Job a n) m = map_prod (answered (\<lambda>(out, r). Enqueued out r)) id (mem_enqueue_apply_job a n m)"
| "memory_call (Get_Apply_Job k) m = (answered An_Apply_Job (mem_get_apply_job k m), m)"
| "memory_call (Claim_Next_Job w now lease) m = map_prod A_Job id (mem_claim_next_job w now lease m)"
| "memory_call (Renew_Owned_Job_Lease k w now lease) m = map_prod Flag id (mem_renew_owned_job_lease k w now lease m)"
| "memory_call (Update_Owned_Job_Progress k w p now) m = map_prod Flag id (mem_update_owned_job_progress k w p now m)"
| "memory_call (Finish_Owned_Job k w st ec now p res) m =
     map_prod (answered Flag) id (mem_finish_owned_job k w st ec now p res m)"
| "memory_call (Cancel_Job k now) m = map_prod Cancelled id (mem_cancel_job k now m)"
| "memory_call (Fail_Expired_Jobs now ec) m = map_prod Count id (mem_fail_expired_jobs now ec m)"
| "memory_call (Get_Job k) m = (A_Job (mem_get_job k m), m)"
| "memory_call (List_Jobs ss) m = (Jobs (mem_list_jobs ss m), m)"
| "memory_call (Save_Move_Journal r) m = map_prod (answered (\<lambda>_. Nothing)) id (mem_save_move_journal r m)"
| "memory_call (Get_Move_Journal k c) m = (A_Journal (mem_get_move_journal k c m), m)"
| "memory_call List_Unreconciled_Moves m = (Journals (mem_list_unreconciled_moves m), m)"
| "memory_call (Save_Cloud_Move_Operation r) m = map_prod (answered (\<lambda>_. Nothing)) id (mem_save_cloud_move_operation r m)"
| "memory_call (Get_Cloud_Move_Operation k c) m = (An_Operation (mem_get_cloud_move_operation k c m), m)"
| "memory_call List_Unresolved_Cloud_Moves m = (Operations (mem_list_unresolved_cloud_moves m), m)"
| "memory_call (Finalize_Cloud_Move r res) m = map_prod (answered (\<lambda>_. Nothing)) id (mem_finalize_cloud_move r res m)"

text \<open>The tables are called with no other transaction under way: no row is locked when a job is claimed.\<close>

fun postgres_call :: "fill_call \<Rightarrow> fill_tables \<Rightarrow> fill_answer \<times> fill_tables" where
  "postgres_call (Save_Plan p) db = (Nothing, sql_save_plan p db)"
| "postgres_call (Get_Plan k) db = (answered A_Plan (sql_get_plan k db), db)"
| "postgres_call (Get_Candidate k c) db = (answered A_Candidate (sql_get_candidate k c db), db)"
| "postgres_call (Delete_Plan k) db = map_prod Flag id (sql_delete_plan k db)"
| "postgres_call (Purge_Expired_Plans now) db = map_prod Count id (sql_purge_expired_plans now db)"
| "postgres_call (Save_Move_Result k r) db = map_prod (answered (\<lambda>_. Nothing)) id (sql_save_move_result k r db)"
| "postgres_call (Get_Move_Result k c) db = (A_Result (sql_get_move_result k c db), db)"
| "postgres_call (List_Move_Results k) db = (Results (sql_list_move_results k db), db)"
| "postgres_call (Save_Job j) db = (Nothing, sql_save_job j db)"
| "postgres_call (Enqueue_Job j n) db = map_prod Flag id (sql_enqueue_job j n db)"
| "postgres_call (Enqueue_Apply_Job a n) db = map_prod (answered (\<lambda>(out, r). Enqueued out r)) id (sql_enqueue_apply_job a n db)"
| "postgres_call (Get_Apply_Job k) db = (answered An_Apply_Job (sql_get_apply_job k db), db)"
| "postgres_call (Claim_Next_Job w now lease) db = map_prod A_Job id (sql_claim_next_job {} w now lease db)"
| "postgres_call (Renew_Owned_Job_Lease k w now lease) db = map_prod Flag id (sql_renew_owned_job_lease k w now lease db)"
| "postgres_call (Update_Owned_Job_Progress k w p now) db = map_prod Flag id (sql_update_owned_job_progress k w p now db)"
| "postgres_call (Finish_Owned_Job k w st ec now p res) db =
     map_prod (answered Flag) id (sql_finish_owned_job k w st ec now p res db)"
| "postgres_call (Cancel_Job k now) db = map_prod (answered Cancelled) id (sql_cancel_job k now db)"
| "postgres_call (Fail_Expired_Jobs now ec) db = map_prod Count id (sql_fail_expired_jobs now ec db)"
| "postgres_call (Get_Job k) db = (A_Job (sql_get_job k db), db)"
| "postgres_call (List_Jobs ss) db = (Jobs (sql_list_jobs ss db), db)"
| "postgres_call (Save_Move_Journal r) db = map_prod (answered (\<lambda>_. Nothing)) id (sql_save_move_journal r db)"
| "postgres_call (Get_Move_Journal k c) db = (A_Journal (sql_get_move_journal k c db), db)"
| "postgres_call List_Unreconciled_Moves db = (Journals (sql_list_unreconciled_moves db), db)"
| "postgres_call (Save_Cloud_Move_Operation r) db = map_prod (answered (\<lambda>_. Nothing)) id (sql_save_cloud_move_operation r db)"
| "postgres_call (Get_Cloud_Move_Operation k c) db = (An_Operation (sql_get_cloud_move_operation k c db), db)"
| "postgres_call List_Unresolved_Cloud_Moves db = (Operations (sql_list_unresolved_cloud_moves db), db)"
| "postgres_call (Finalize_Cloud_Move r res) db = map_prod (answered (\<lambda>_. Nothing)) id (sql_finalize_cloud_move r res db)"

section \<open>What the callers keep to\<close>

text \<open>
  A plan is saved valid and under its unfinished moves, a job that is queued or running has no
  error, an apply job is valid, a job is not finished into a state that is not an end, and a
  plan that is not there is deleted only when no job names it.
\<close>

fun sane_call :: "fill_call \<Rightarrow> memory \<Rightarrow> bool" where
  "sane_call (Save_Plan p) m = plan_saveable p m"
| "sane_call (Delete_Plan k) m =
     (map_of (me_plans m) k \<noteq> None \<or> list_all (\<lambda>j. jb_plan_id j \<noteq> Some k) (dict_values (me_jobs m)))"
| "sane_call (Save_Job j) m = job_saveable j m"
| "sane_call (Enqueue_Job j n) m = (job_active j \<longrightarrow> jb_error_code j = None)"
| "sane_call (Enqueue_Apply_Job a n) m = (apply_valid a \<and> (job_active (aj_job a) \<longrightarrow> jb_error_code (aj_job a) = None))"
| "sane_call (Finish_Owned_Job k w st ec now p res) m = (st \<noteq> JQUEUED \<and> st \<noteq> JRUNNING)"
| "sane_call _ m = True"

text \<open>
  The same answer: equal, but for the order of a plan's candidates and for which of several
  errors a finalized move raises.
\<close>

fun same_answer :: "fill_call \<Rightarrow> fill_answer \<Rightarrow> fill_answer \<Rightarrow> bool" where
  "same_answer (Get_Plan k) a b = (case b of A_Plan p \<Rightarrow> a = A_Plan (map_option sorted_plan p) | _ \<Rightarrow> False)"
| "same_answer (Finalize_Cloud_Move r res) a b =
     (case b of Raised e \<Rightarrow> (case a of Raised e' \<Rightarrow> True | _ \<Rightarrow> False) | _ \<Rightarrow> a = b)"
| "same_answer _ a b = (a = b)"

section \<open>Simulations\<close>

text \<open>
  Two stores that take the same calls: \<open>rel\<close> relates a state of the concrete one to a state of
  the abstract one, \<open>sane\<close> says when a call may be made and \<open>agree\<close> when two answers are the same.
\<close>

fun run_calls :: "('c \<Rightarrow> 's \<Rightarrow> 'a \<times> 's) \<Rightarrow> 'c list \<Rightarrow> 's \<Rightarrow> 'a list \<times> 's" where
  "run_calls call [] s = ([], s)"
| "run_calls call (c # cs) s = (let (a, s') = call c s in map_prod (Cons a) id (run_calls call cs s'))"

fun sane_run :: "('c \<Rightarrow> 's \<Rightarrow> 'a \<times> 's) \<Rightarrow> ('c \<Rightarrow> 's \<Rightarrow> bool) \<Rightarrow> 'c list \<Rightarrow> 's \<Rightarrow> bool" where
  "sane_run call sane [] s = True"
| "sane_run call sane (c # cs) s = (sane c s \<and> sane_run call sane cs (snd (call c s)))"

fun agree_run :: "('c \<Rightarrow> 'a \<Rightarrow> 'b \<Rightarrow> bool) \<Rightarrow> 'c list \<Rightarrow> 'a list \<Rightarrow> 'b list \<Rightarrow> bool" where
  "agree_run agree [] [] [] = True"
| "agree_run agree (c # cs) (a # as) (b # bs) = (agree c a b \<and> agree_run agree cs as bs)"
| "agree_run agree _ _ _ = False"

lemma run_calls_append [simp]: "snd (run_calls call (cs @ ds) s) = snd (run_calls call ds (snd (run_calls call cs s)))"
  by (induction cs arbitrary: s) (simp_all add: Let_def case_prod_beta)

locale simulation =
  fixes concrete :: "'c \<Rightarrow> 's \<Rightarrow> 'a \<times> 's"
    and abstract :: "'c \<Rightarrow> 't \<Rightarrow> 'b \<times> 't"
    and rel :: "'s \<Rightarrow> 't \<Rightarrow> bool"
    and sane :: "'c \<Rightarrow> 't \<Rightarrow> bool"
    and agree :: "'c \<Rightarrow> 'a \<Rightarrow> 'b \<Rightarrow> bool"
  assumes call_agrees: "rel s t \<Longrightarrow> sane c t \<Longrightarrow> agree c (fst (concrete c s)) (fst (abstract c t))"
    and call_related: "rel s t \<Longrightarrow> sane c t \<Longrightarrow> rel (snd (concrete c s)) (snd (abstract c t))"
begin

lemma run_simulates:
  "rel s t \<Longrightarrow> sane_run abstract sane cs t \<Longrightarrow>
     agree_run agree cs (fst (run_calls concrete cs s)) (fst (run_calls abstract cs t))
     \<and> rel (snd (run_calls concrete cs s)) (snd (run_calls abstract cs t))"
proof (induction cs arbitrary: s t)
  case Nil
  then show ?case by simp
next
  case (Cons c cs)
  with call_agrees [of s t c] call_related [of s t c] Cons.IH [of "snd (concrete c s)" "snd (abstract c t)"]
  show ?case by (simp add: Let_def case_prod_beta)
qed

end

text \<open>The laws, for the calls grouped as the methods are.\<close>

lemma postgres_call_mirrors:
  assumes rel: "refines db m" and sane: "sane_call c m"
  shows "same_answer c (fst (postgres_call c db)) (fst (memory_call c m))
    \<and> refines (snd (postgres_call c db)) (snd (memory_call c m))"
proof (cases c)
  case (Save_Plan p)
  then show ?thesis using save_plan_mirrors [OF rel] sane by simp
next
  case (Get_Plan k)
  then show ?thesis using get_plan_mirrors [OF rel, of k] rel by (simp add: answered_def)
next
  case (Get_Candidate k d)
  then show ?thesis using get_candidate_mirrors [OF rel, of k d] rel by (simp add: answered_def)
next
  case (Delete_Plan k)
  then show ?thesis using delete_mirrors [OF rel, of k] sane by (simp add: answered_def list_all_iff)
next
  case (Purge_Expired_Plans now)
  then show ?thesis using purge_mirrors [OF rel, of now] by (simp add: answered_def)
next
  case (Save_Move_Result k r)
  then show ?thesis using save_result_mirrors [OF rel, of k r] by simp
next
  case (Save_Job j)
  then show ?thesis using save_job_mirrors [OF rel] sane by simp
next
  case (Enqueue_Job j n)
  then show ?thesis using enqueue_mirrors [OF rel, of j n] sane by simp
next
  case (Enqueue_Apply_Job a n)
  then show ?thesis using enqueue_apply_mirrors [OF rel, of a n] sane by simp
next
  case (Claim_Next_Job w now lease)
  then show ?thesis using claim_mirrors [OF rel, of w now lease] by simp
next
  case (Renew_Owned_Job_Lease k w now lease)
  then show ?thesis using renew_mirrors [OF rel, of k w now lease] by simp
next
  case (Update_Owned_Job_Progress k w p now)
  then show ?thesis using progress_mirrors [OF rel, of k w p now] by simp
next
  case (Finish_Owned_Job k w st ec now p res)
  then show ?thesis using finish_mirrors [OF rel, of st k w ec now p res] sane by simp
next
  case (Cancel_Job k now)
  then show ?thesis using cancel_mirrors [OF rel, of k now] by (simp add: answered_def)
next
  case (Fail_Expired_Jobs now ec)
  then show ?thesis using expired_mirrors [OF rel, of now ec] by simp
next
  case (Save_Move_Journal r)
  then show ?thesis using save_journal_mirrors [OF rel, of r] by simp
next
  case (Save_Cloud_Move_Operation r)
  then show ?thesis using save_operation_mirrors [OF rel, of r] by simp
next
  case (Finalize_Cloud_Move r res)
  then show ?thesis using finalize_mirrors [OF rel, of r res] by (auto simp: answered_def split: sum.splits)
qed (use rel in \<open>simp_all add: get_result_mirrors list_results_mirrors get_apply_mirrors get_job_mirrors
      list_jobs_mirrors get_journal_mirrors list_journal_mirrors get_operation_mirrors list_operations_mirrors\<close>)

interpretation storage: simulation postgres_call memory_call refines sane_call same_answer
  by unfold_locales (simp_all add: postgres_call_mirrors)

end
