(* ===== verification/Fill_Storage.thy ===== *)
theory Fill_Storage
  imports Fill_Calls
begin

text \<open>
  The storage of the fill actor: the PostgreSQL repository answers every sequence of calls as
  its specification does, but for one.
\<close>

section \<open>Sample records\<close>

definition demo_job :: "string \<Rightarrow> job_operation \<Rightarrow> string option \<Rightarrow> job_record" where
  "demo_job k operation plan_id =
     \<lparr>jb_job_id = k, jb_operation = operation, jb_state = JQUEUED, jb_created_at = 1, jb_updated_at = 1,
      jb_plan_id = plan_id, jb_error_code = None, jb_owner_id = None, jb_lease_expires_at = None, jb_actor_ids = [''7''],
      jb_progress = first_progress [''7''] 1 1\<rparr>"

definition demo_candidate :: "string \<Rightarrow> candidate_record" where
  "demo_candidate c =
     \<lparr>cr_candidate_id = c, cr_video_id = ''A-1'', cr_source = ''/s/A-1.strm'', cr_source_root = ''/s'',
      cr_destination = ''/d/A-1.strm'',
      cr_fingerprint = \<lparr>fg_device = 1, fg_inode = 2, fg_size = 3, fg_mtime_ns = 4, fg_ctime_ns = 5\<rparr>,
      cr_kind = CLOUD_STRM, cr_mapping_sha256 = Some (replicate 64 CHR ''0''), cr_cloud_source_path = Some ''/c/A-1'',
      cr_cloud_destination_dir = Some ''/e'',
      cr_cloud_file = Some \<lparr>cf_path = ''/c/A-1'', cf_file_id = ''f'', cf_name = ''A-1'', cf_size = 1, cf_write_time = 1,
        cf_hashes = []\<rparr>\<rparr>"

definition demo_public :: "string list \<Rightarrow> fill_plan" where
  "demo_public cs =
     \<lparr>fp_plan_id = ''p'', fp_revision = ''r'', fp_created_at = 1, fp_expires_at = 90, fp_actors = [],
      fp_videos = [\<lparr>vpl_video_id = ''A-1'', vpl_actor_ids = [''7''], vpl_state = ADDITIONAL_FOUND,
        vpl_release_date = None, vpl_existing_files = [],
        vpl_move_candidates = map (\<lambda>c. \<lparr>mc_candidate_id = c, mc_video_id = ''A-1'', mc_file_name = ''A-1.strm'',
          mc_source_label = ''s'', mc_destination_conflict = False\<rparr>) cs,
        vpl_warnings = []\<rparr>]\<rparr>"

definition demo_plan :: "string list \<Rightarrow> plan_record" where
  "demo_plan cs = \<lparr>pl_public = demo_public cs, pl_candidates = map demo_candidate cs, pl_config_version = 1\<rparr>"

definition demo_operation :: "string \<Rightarrow> cloud_move_state \<Rightarrow> cloud_operation" where
  "demo_operation c s =
     \<lparr>op_plan_id = ''p'', op_candidate_id = c, op_attempt_id = ''t'', op_source_path = ''/c/A-1'',
      op_destination_dir = ''/e'', op_state = s, op_updated_at = 3, op_error_code = None\<rparr>"

definition demo_calls :: "fill_call list" where
  "demo_calls =
     [Save_Plan (demo_plan [''c'', ''b'']), Enqueue_Job (demo_job ''j'' CREATE_PLAN None) 2, Claim_Next_Job ''w'' 2 9,
      Save_Cloud_Move_Operation (demo_operation ''b'' CPREPARED), Save_Cloud_Move_Operation (demo_operation ''c'' CPREPARED),
      Delete_Plan ''p'', Get_Plan ''p'', Cancel_Job ''j'' 4, Save_Plan (demo_plan [''c'']), Delete_Plan ''p'']"

section \<open>The refinement\<close>

text \<open>
  C35: the PostgreSQL repository refines its specification. Any sequence of the calls of the
  repository protocol, started on empty stores, that keeps to what the callers keep to
  (\<open>sane_call\<close>), gets the same answers from the tables as from the dicts: equal records,
  flags, counts and errors, but for the order of a plan's candidates, and for which of two
  errors is raised when a move is finalized that has both; and what is stored afterwards is
  the same again.
\<close>

theorem postgres_refines_memory:
  assumes "sane_run memory_call sane_call cs empty_memory"
  shows "agree_run same_answer cs (fst (run_calls postgres_call cs empty_tables)) (fst (run_calls memory_call cs empty_memory))
    \<and> mirrors (snd (run_calls postgres_call cs empty_tables)) (snd (run_calls memory_call cs empty_memory))"
  using storage.run_simulates [OF refines_empty assms] by (simp add: refines_def)

theorem postgres_refines_memory_witness:
  "agree_run same_answer demo_calls (fst (run_calls postgres_call demo_calls empty_tables))
     (fst (run_calls memory_call demo_calls empty_memory))"
proof -
  have "sane_run memory_call sane_call demo_calls empty_memory" by code_simp
  then show ?thesis using postgres_refines_memory by blast
qed

text \<open>
  C36: where it does not: deleting a plan that is not there. Both answer that nothing was
  deleted, and the dicts stay as they are, but the PostgreSQL repository has by then cleared
  the plan from every job that names it.
  It takes a plan that no queued or running apply job, no open journal entry and no unended move
  uses.
\<close>

theorem delete_missing_plan_differs:
  assumes "refines db m" and "mem_get_plan k m = None" and "\<not> plan_in_use k m" and "mem_get_job i m = Some j"
  shows "mem_delete_plan k m = (Inr False, m) \<and> fst (sql_delete_plan k db) = False
    \<and> sql_get_job i (snd (sql_delete_plan k db)) = Some (if jb_plan_id j = Some k then without_plan j else j)"
proof -
  have none: "map_of (me_plans m) k = None" using assms(2) by (simp add: mem_get_plan_def)
  then have "k \<notin> pw_plan_id ` set (sq_plans db)"
    using refines_plans(1) [OF assms(1)] by (metis list.set_map map_of_eq_None_iff)
  then have "count_where (\<lambda>r. pw_plan_id r = k) (sq_plans db) = 0"
    by (auto simp: count_where_def filter_empty_conv)
  moreover have "sql_get_job i (delete_plans [k] db) = map_option (forgotten k) (mem_get_job i m)"
  proof -
    have "sql_get_job i (delete_plans [k] db) = map_of (dict_of jw_job_id job_of_row (unplanned [k] (sq_jobs db))) i"
      by (simp add: sql_get_job_def delete_plans_eq map_of_dict_of)
    also have "\<dots> = map_option (forgotten k) (map_of (me_jobs m) i)"
      unfolding jobs_forgotten refinesD(1) [OF assms(1), symmetric] forget_plan_eq by (simp add: map_of_map)
    finally show ?thesis by (simp add: mem_get_job_def)
  qed
  ultimately show ?thesis
    using assms(3,4) none by (simp add: mem_delete_plan_def sql_delete_plan_def in_use_mirrors [OF assms(1)] forgotten_def)
qed

definition demo_lost_plan :: "fill_call list" where
  "demo_lost_plan = [Enqueue_Job (demo_job ''j'' CREATE_PLAN (Some ''p'')) 2]"

theorem delete_missing_plan_differs_witness:
  "(\<exists>j. sql_get_job ''j'' (snd (sql_delete_plan ''p'' (snd (run_calls postgres_call demo_lost_plan empty_tables)))) = Some j
      \<and> jb_plan_id j = None)
   \<and> (\<exists>j. mem_get_job ''j'' (snd (mem_delete_plan ''p'' (snd (run_calls memory_call demo_lost_plan empty_memory)))) = Some j
      \<and> jb_plan_id j = Some ''p'')"
proof -
  let ?db = "snd (run_calls postgres_call demo_lost_plan empty_tables)"
  let ?m = "snd (run_calls memory_call demo_lost_plan empty_memory)"
  have "sane_run memory_call sane_call demo_lost_plan empty_memory" by code_simp
  then have "refines ?db ?m" using storage.run_simulates [OF refines_empty] by blast
  moreover have "mem_get_plan ''p'' ?m = None" "\<not> plan_in_use ''p'' ?m" by code_simp+
  moreover have "mem_get_job ''j'' ?m = Some (demo_job ''j'' CREATE_PLAN (Some ''p''))" by code_simp
  moreover have "jb_plan_id (demo_job ''j'' CREATE_PLAN (Some ''p'')) = Some ''p''" by (simp add: demo_job_def)
  ultimately show ?thesis
    using delete_missing_plan_differs [of ?db ?m "''p''" "''j''"] by (auto simp: without_plan_def)
qed

end
