(* ===== verification/Fill_Leases.thy ===== *)
theory Fill_Leases
  imports Fill_Storage
begin

text \<open>
  What the job table promises the workers: the only ways a job's state, owner and lease move,
  as an inductive relation; a store whose calls move every job along it, as a locale that
  both repositories interpret; and what a worker may rely on.
\<close>

section \<open>How a job moves\<close>

definition hold :: "job_record \<Rightarrow> job_state \<times> string option \<times> datetime option" where
  "hold j = (jb_state j, jb_owner_id j, jb_lease_expires_at j)"

definition job_final :: "job_state \<Rightarrow> bool" where
  "job_final s \<longleftrightarrow> s \<noteq> JQUEUED \<and> s \<noteq> JRUNNING"

inductive job_move :: "string \<Rightarrow> fill_call \<Rightarrow> job_record \<Rightarrow> job_record \<Rightarrow> bool" for k where
  stays: "hold j' = hold j \<Longrightarrow> job_move k c j j'"
| claims: "jb_state j = JQUEUED \<Longrightarrow> hold j' = (JRUNNING, Some w, Some lease) \<Longrightarrow> job_move k (Claim_Next_Job w now lease) j j'"
| renews: "owned_at (Some j) w now \<Longrightarrow> hold j' = (JRUNNING, Some w, Some lease) \<Longrightarrow> job_move k (Renew_Owned_Job_Lease k w now lease) j j'"
| finishes: "owned_at (Some j) w now \<Longrightarrow> job_final st \<Longrightarrow> hold j' = (st, None, None) \<Longrightarrow> job_move k (Finish_Owned_Job k w st ec now p res) j j'"
| cancels: "job_active j \<Longrightarrow> jb_operation j = CREATE_PLAN \<Longrightarrow> hold j' = (JFAILED, None, None) \<Longrightarrow> job_move k (Cancel_Job k now) j j'"
| expires: "job_expired now j \<Longrightarrow> hold j' = (JFAILED, None, None) \<Longrightarrow> job_move k (Fail_Expired_Jobs now ec) j j'"
| overwrites: "jb_job_id j' = k \<Longrightarrow> job_move k (Save_Job j') j j'"

inductive_cases job_moveE: "job_move k c j j'"

text \<open>What another party may do while a worker holds a lease until \<open>t\<close>.\<close>

fun foreign :: "string \<Rightarrow> string \<Rightarrow> datetime \<Rightarrow> fill_call \<Rightarrow> bool" where
  "foreign k w t (Renew_Owned_Job_Lease i v now lease) = (i \<noteq> k \<or> v \<noteq> w)"
| "foreign k w t (Finish_Owned_Job i v st ec now p res) = (i \<noteq> k \<or> v \<noteq> w)"
| "foreign k w t (Cancel_Job i now) = (i \<noteq> k)"
| "foreign k w t (Fail_Expired_Jobs now ec) = (now < t)"
| "foreign k w t (Save_Job j) = (jb_job_id j \<noteq> k)"
| "foreign k w t _ = True"

fun overwrites_job :: "string \<Rightarrow> fill_call \<Rightarrow> bool" where
  "overwrites_job k (Save_Job j) = (jb_job_id j = k)"
| "overwrites_job k _ = False"

lemma move_foreign:
  assumes "job_move k c j j'" and "hold j = (JRUNNING, Some w, Some t)" and "foreign k w t c"
  shows "hold j' = hold j"
  using assms by (cases rule: job_move.cases) (auto simp: hold_def owned_at_def job_expired_def)

lemma move_final:
  assumes "job_move k c j j'" and "job_final (jb_state j)" and "\<not> overwrites_job k c"
  shows "hold j' = hold j"
  using assms by (cases rule: job_move.cases) (auto simp: hold_def owned_at_def job_expired_def job_final_def job_active_def)

text \<open>How far a job has come.\<close>

fun job_rank :: "job_state \<Rightarrow> nat" where
  "job_rank JQUEUED = 0"
| "job_rank JRUNNING = 1"
| "job_rank _ = 2"

lemma move_rank:
  assumes "job_move k c j j'" and "\<not> overwrites_job k c"
  shows "job_rank (jb_state j) \<le> job_rank (jb_state j')"
  using assms
proof (cases rule: job_move.cases)
  case (finishes w now st ec p res)
  then show ?thesis by (cases st) (auto simp: hold_def owned_at_def job_final_def split: option.splits)
next
  case cancels
  then show ?thesis by (cases "jb_state j") (auto simp: hold_def)
next
  case expires
  then show ?thesis by (auto simp: hold_def job_expired_def)
qed (auto simp: hold_def owned_at_def)

section \<open>A store of jobs\<close>

locale job_store =
  fixes call :: "fill_call \<Rightarrow> 's \<Rightarrow> fill_answer \<times> 's"
    and job :: "string \<Rightarrow> 's \<Rightarrow> job_record option"
    and sane :: "fill_call \<Rightarrow> 's \<Rightarrow> bool"
    and ok :: "'s \<Rightarrow> bool"
  assumes call_ok: "ok s \<Longrightarrow> sane c s \<Longrightarrow> ok (snd (call c s))"
    and call_moves: "ok s \<Longrightarrow> sane c s \<Longrightarrow> job k s = Some j \<Longrightarrow> \<exists>j'. job k (snd (call c s)) = Some j' \<and> job_move k c j j'"
    and claim_answer: "ok s \<Longrightarrow> fst (call (Claim_Next_Job w now lease) s) = A_Job (Some j) \<Longrightarrow>
      \<exists>q j'. job (jb_job_id j) s = Some q \<and> jb_state q = JQUEUED
        \<and> job (jb_job_id j) (snd (call (Claim_Next_Job w now lease) s)) = Some j' \<and> hold j' = (JRUNNING, Some w, Some lease)"
begin

lemma lease_kept:
  assumes "ok s" and "sane_run call sane cs s" and "job k s = Some j" and "hold j = (JRUNNING, Some w, Some t)"
    and "list_all (foreign k w t) cs"
  shows "\<exists>j'. job k (snd (run_calls call cs s)) = Some j' \<and> hold j' = hold j"
  using assms
proof (induction cs arbitrary: s j)
  case Nil
  then show ?case by simp
next
  case (Cons c cs)
  then obtain j1 where j1: "job k (snd (call c s)) = Some j1" "job_move k c j j1"
    using call_moves [of s c k j] by auto
  with Cons.prems have "hold j1 = hold j" using move_foreign [of k c j j1 w t] by simp
  with Cons.IH [of "snd (call c s)" j1] Cons.prems j1 call_ok [of s c] show ?case
    by (simp add: Let_def case_prod_beta)
qed

end

text \<open>A claim hands a job out once.\<close>

definition claimed_job :: "string \<Rightarrow> fill_call \<times> fill_answer \<Rightarrow> bool" where
  "claimed_job k e = (case e of (Claim_Next_Job w now lease, A_Job (Some j)) \<Rightarrow> jb_job_id j = k | _ \<Rightarrow> False)"

definition times_claimed :: "string \<Rightarrow> fill_call list \<Rightarrow> fill_answer list \<Rightarrow> nat" where
  "times_claimed k cs as = length (filter (claimed_job k) (zip cs as))"

lemma times_claimed_Cons:
  "times_claimed k (c # cs) (a # as) = (if claimed_job k (c, a) then Suc (times_claimed k cs as) else times_claimed k cs as)"
  by (simp add: times_claimed_def)

context job_store
begin

lemma started_not_claimed:
  assumes "ok s" and "sane_run call sane cs s" and "job k s = Some j" and "1 \<le> job_rank (jb_state j)"
    and "list_all (\<lambda>c. \<not> overwrites_job k c) cs"
  shows "times_claimed k cs (fst (run_calls call cs s)) = 0"
  using assms
proof (induction cs arbitrary: s j)
  case Nil
  then show ?case by (simp add: times_claimed_def)
next
  case (Cons c cs)
  then obtain j1 where j1: "job k (snd (call c s)) = Some j1" "job_move k c j j1"
    using call_moves [of s c k j] by auto
  with Cons.prems have "1 \<le> job_rank (jb_state j1)" using move_rank [of k c j j1] by simp
  with Cons.IH [of "snd (call c s)" j1] Cons.prems j1(1) call_ok [of s c]
  have "times_claimed k cs (fst (run_calls call cs (snd (call c s)))) = 0" by simp
  moreover have "\<not> claimed_job k (c, fst (call c s))"
  proof
    assume "claimed_job k (c, fst (call c s))"
    then obtain w now lease q where "c = Claim_Next_Job w now lease" "fst (call c s) = A_Job (Some q)" "jb_job_id q = k"
      by (auto simp: claimed_job_def split: fill_call.splits fill_answer.splits option.splits)
    with Cons.prems(1,3,4) claim_answer [of s w now lease q] show False by auto
  qed
  ultimately show ?case by (simp add: Let_def case_prod_beta times_claimed_Cons)
qed

lemma claimed_once:
  assumes "ok s" and "sane_run call sane cs s" and "list_all (\<lambda>c. \<not> overwrites_job k c) cs"
  shows "times_claimed k cs (fst (run_calls call cs s)) \<le> 1"
  using assms
proof (induction cs arbitrary: s)
  case Nil
  then show ?case by (simp add: times_claimed_def)
next
  case (Cons c cs)
  let ?s = "snd (call c s)"
  have ok: "ok ?s" "sane_run call sane cs ?s" "list_all (\<lambda>c. \<not> overwrites_job k c) cs"
    using Cons.prems call_ok [of s c] by simp_all
  show ?case
  proof (cases "claimed_job k (c, fst (call c s))")
    case True
    then obtain w now lease q where "c = Claim_Next_Job w now lease" "fst (call c s) = A_Job (Some q)" "jb_job_id q = k"
      by (auto simp: claimed_job_def split: fill_call.splits fill_answer.splits option.splits)
    with Cons.prems(1) claim_answer [of s w now lease q] obtain j' where "job k ?s = Some j'" "jb_state j' = JRUNNING"
      by (auto simp: hold_def)
    with started_not_claimed [OF ok(1,2) _ _ ok(3)] have "times_claimed k cs (fst (run_calls call cs ?s)) = 0"
      by simp
    with True show ?thesis by (simp add: Let_def case_prod_beta times_claimed_Cons)
  next
    case False
    with Cons.IH [OF ok] show ?thesis by (simp add: Let_def case_prod_beta times_claimed_Cons)
  qed
qed

end

section \<open>Both repositories are such stores\<close>

lemma row_of_upsert:
  "(\<And>q. key q = key r \<Longrightarrow> key (merge q r) = key r) \<Longrightarrow>
     row_of key k (upsert key merge r rs)
       = (if k = key r then (case row_of key k rs of None \<Rightarrow> Some r | Some q \<Rightarrow> Some (merge q r)) else row_of key k rs)"
  by (induction rs) (auto simp: row_of_Cons)

definition row_hold :: "job_row \<Rightarrow> job_state \<times> string option \<times> datetime option" where
  "row_hold r = (jw_state r, jw_owner_id r, jw_lease_expires_at r)"

lemma hold_of_row [simp]: "hold (job_of_row r) = row_hold r"
  by (simp add: hold_def row_hold_def)

lemma set_progress_hold [simp]: "row_hold (set_progress p r) = row_hold r" "jw_job_id (set_progress p r) = jw_job_id r"
  by (simp_all add: set_progress_def row_hold_def)

lemma finished_row_hold [simp]:
  "row_hold (finished_row st ec now p r) = (st, None, None)" "jw_job_id (finished_row st ec now p r) = jw_job_id r"
  by (simp_all add: finished_row_def) (simp add: row_hold_def)

lemma sql_jobs_frame:
  "sql_get_job k (db\<lparr>sq_apply_jobs := x\<rparr>) = sql_get_job k db"
  "sql_get_job k (delete_candidates p db) = sql_get_job k db"
  "sql_get_job k (sql_save_plan pl db) = sql_get_job k db"
  by (simp_all add: sql_get_job_def delete_candidates_def sql_save_plan_def Let_def)

lemma transact_jobs:
  assumes "\<And>db'. r = Inr db' \<Longrightarrow> sq_jobs db' = sq_jobs db"
  shows "sql_get_job k (snd (transact db r)) = sql_get_job k db"
  using assms by (cases r) (simp_all add: transact_def sql_get_job_def)

lemma result_jobs: "insert_move_result p r db = Inr db' \<Longrightarrow> sq_jobs db' = sq_jobs db"
  by (auto simp: insert_move_result_def split: option.splits if_splits)

lemma operation_jobs: "execute_save_operation r db = Inr db' \<Longrightarrow> sq_jobs db' = sq_jobs db"
  by (auto simp: execute_save_operation_def Let_def split: option.splits if_splits sum.splits)

lemma journal_jobs: "sql_get_job k (snd (sql_save_move_journal r db)) = sql_get_job k db"
  unfolding sql_save_move_journal_def by (rule transact_jobs) (auto split: option.splits sum.splits)

lemma save_job_jobs:
  "sql_get_job k (sql_save_job j db) = (if k = jb_job_id j then Some j else sql_get_job k db)"
  by (simp add: sql_get_job_def sql_save_job_def row_of_upsert whole_row_def split: option.split)

lemma owned_jobs:
  assumes "\<And>r. jw_job_id (f r) = jw_job_id r"
  shows "sql_get_job k (snd (update_owned i w now f db))
    = map_option (\<lambda>r. job_of_row (if jw_job_id r = i \<and> owned_row w now r then f r else r)) (row_of jw_job_id k (sq_jobs db))"
  using assms by (simp add: sql_get_job_def update_owned_def Let_def row_of_update_where option.map_comp comp_def)

lemma delete_jobs:
  "sql_get_job k (delete_plans ids db)
     = map_option (\<lambda>j. if jb_plan_id j \<in> Some ` set ids then without_plan j else j) (sql_get_job k db)"
  by (simp add: sql_get_job_def delete_plans_eq unplanned_def row_of_update_where option.map_comp comp_def)
    (auto intro!: option.map_cong simp: job_of_row_def without_plan_def progress_of_row_def)

lemma hold_without_plan [simp]: "hold (without_plan j) = hold j"
  by (simp add: hold_def without_plan_def)

text \<open>The law for the tables, call by call.\<close>

lemma claim_cases:
  assumes "unique_key jw_job_id (sq_jobs db)"
  shows "(fst (sql_claim_next_job {} w now lease db) = None \<and> snd (sql_claim_next_job {} w now lease db) = db)
    \<or> (\<exists>r j'. row_of jw_job_id (jw_job_id r) (sq_jobs db) = Some r \<and> jw_state r = JQUEUED
        \<and> fst (sql_claim_next_job {} w now lease db) = Some j' \<and> jb_job_id j' = jw_job_id r \<and> hold j' = (JRUNNING, Some w, Some lease)
        \<and> (\<forall>k. sql_get_job k (snd (sql_claim_next_job {} w now lease db))
             = (if k = jw_job_id r then Some j' else sql_get_job k db)))"
proof (cases "sort_key row_queue_key (filter (\<lambda>r. jw_state r = JQUEUED \<and> jw_job_id r \<notin> {}) (sq_jobs db))")
  case Nil
  then show ?thesis by (simp add: sql_claim_next_job_def)
next
  case (Cons r rs)
  let ?j = "(job_of_row r)\<lparr>jb_state := JRUNNING, jb_updated_at := now, jb_owner_id := Some w, jb_lease_expires_at := Some lease\<rparr>"
  let ?f = "\<lambda>r. r\<lparr>jw_state := JRUNNING, jw_updated_at := now, jw_owner_id := Some w, jw_lease_expires_at := Some lease\<rparr>"
  have "r \<in> set (sort_key row_queue_key (filter (\<lambda>r. jw_state r = JQUEUED \<and> jw_job_id r \<notin> {}) (sq_jobs db)))"
    unfolding Cons by simp
  then have "r \<in> set (sq_jobs db)" and "jw_state r = JQUEUED" by simp_all
  then have r: "row_of jw_job_id (jw_job_id r) (sq_jobs db) = Some r" "jw_state r = JQUEUED"
    using row_of_in [OF assms] by simp_all
  have f: "job_of_row (?f r) = ?j" by (simp add: job_of_row_def progress_of_row_def)
  have "sql_get_job k (snd (sql_claim_next_job {} w now lease db)) = (if k = jw_job_id r then Some ?j else sql_get_job k db)" for k
  proof -
    have "sql_get_job k (snd (sql_claim_next_job {} w now lease db))
        = map_option (\<lambda>q. job_of_row (if jw_job_id q = jw_job_id r \<and> jw_state q = JQUEUED then ?f q else q))
            (row_of jw_job_id k (sq_jobs db))"
      using Cons by (simp add: sql_claim_next_job_def sql_get_job_def row_of_update_where option.map_comp comp_def)
    then show ?thesis
      using r f by (cases "row_of jw_job_id k (sq_jobs db)") (auto simp: sql_get_job_def dest: row_of_Some)
  qed
  moreover have "fst (sql_claim_next_job {} w now lease db) = Some ?j" using Cons by (simp add: sql_claim_next_job_def)
  ultimately show ?thesis using r by (intro disjI2 exI [of _ r] exI [of _ ?j]) (simp add: hold_def)
qed

lemma owned_moves:
  assumes f: "\<And>r. jw_job_id (f r) = jw_job_id r" and hold: "\<And>r. row_hold (f r) = g (row_hold r)"
    and move: "\<And>r j'. owned_row w now r \<Longrightarrow> hold j' = g (row_hold r) \<Longrightarrow> job_move i c (job_of_row r) j'"
    and job: "sql_get_job k db = Some j"
  shows "\<exists>j'. sql_get_job k (snd (update_owned i w now f db)) = Some j' \<and> job_move k c j j'"
proof -
  obtain r where r: "row_of jw_job_id k (sq_jobs db) = Some r" "j = job_of_row r" "jw_job_id r = k"
    using job by (auto simp: sql_get_job_def dest: row_of_Some)
  show ?thesis
  proof (cases "k = i \<and> owned_row w now r")
    case True
    with r move [of r "job_of_row (f r)"] hold show ?thesis by (simp add: owned_jobs [OF f])
  next
    case False
    with r show ?thesis by (auto simp: owned_jobs [OF f] intro: stays)
  qed
qed

lemma finish_moves:
  assumes "job_final st" and "sql_get_job k db = Some j"
  shows "\<exists>j'. sql_get_job k (snd (sql_finish_owned_job i w st ec now p res db)) = Some j'
    \<and> job_move k (Finish_Owned_Job i w st ec now p res) j j'"
proof -
  let ?c = "Finish_Owned_Job i w st ec now p res" and ?f = "finished_row st ec now p"
  have move: "job_move i ?c (job_of_row r) j'" if "owned_row w now r" and "hold j' = (st, None, None)" for r j'
    using that assms(1) by (intro finishes) (simp_all only: owned_same)
  have "\<exists>j'. sql_get_job k (snd (update_owned i w now ?f db)) = Some j' \<and> job_move k ?c j j'"
    by (rule owned_moves [OF _ _ _ assms(2), where g = "\<lambda>_. (st, None, None)"]) (simp_all add: move)
  moreover have "sql_get_job k (snd (sql_finish_owned_job i w st ec now p res db))
      \<in> {sql_get_job k db, sql_get_job k (snd (update_owned i w now ?f db))}"
    by (simp add: sql_finish_owned_job_def case_prod_beta Let_def sql_get_job_def split: option.splits sum.splits)
  ultimately show ?thesis using assms(2) stays [of j j k ?c] by auto
qed

lemma cancel_moves:
  assumes "sql_get_job k db = Some j"
  shows "\<exists>j'. sql_get_job k (snd (sql_cancel_job i now db)) = Some j' \<and> job_move k (Cancel_Job i now) j j'"
proof (cases "snd (sql_cancel_job i now db) = db")
  case True
  with assms show ?thesis by (auto intro: stays)
next
  case False
  then obtain row where row: "row_of jw_job_id i (sq_jobs db) = Some row" "jw_operation row \<noteq> APPLY" "job_active (job_of_row row)"
      "snd (sql_cancel_job i now db) = db\<lparr>sq_jobs := update_where (\<lambda>r. jw_job_id r = i \<and> jw_state r \<in> {JQUEUED, JRUNNING})
         (finished_row JFAILED (Some JOB_CANCELLED_ERROR_CODE) now (sql_terminal_progress (job_of_row row) now)) (sq_jobs db)\<rparr>"
    by (auto simp: sql_cancel_job_def Let_def split: option.splits if_splits)
  obtain r where r: "row_of jw_job_id k (sq_jobs db) = Some r" "j = job_of_row r" "jw_job_id r = k"
    using assms by (auto simp: sql_get_job_def dest: row_of_Some)
  show ?thesis
  proof (cases "k = i")
    case True
    with row r show ?thesis
      by (auto simp: sql_get_job_def row_of_update_where job_active_def intro!: cancels)
        (metis job_operation.exhaust)+
  next
    case False
    with row r show ?thesis by (auto simp: sql_get_job_def row_of_update_where intro: stays)
  qed
qed

end
