(* ===== verification/Fill_Workers.thy ===== *)
theory Fill_Workers
  imports Fill_Leases
begin

text \<open>
  Both repositories are stores of jobs in the sense of the lease interface: the tables by the
  effect of each statement on the row of a job, the dicts because the tables mirror them.
\<close>

section \<open>The tables\<close>

lemma renew_moves:
  assumes "sql_get_job k db = Some j"
  shows "\<exists>j'. sql_get_job k (snd (sql_renew_owned_job_lease i w now lease db)) = Some j'
    \<and> job_move k (Renew_Owned_Job_Lease i w now lease) j j'"
proof -
  let ?c = "Renew_Owned_Job_Lease i w now lease"
  have move: "job_move i ?c (job_of_row r) j'"
    if "owned_row w now r" and "hold j' = (fst (row_hold r), fst (snd (row_hold r)), Some lease)" for r j'
    using that by (intro renews) (simp_all only: owned_same, simp add: owned_row_def row_hold_def)
  show ?thesis
    unfolding sql_renew_owned_job_lease_def
    by (rule owned_moves [OF _ _ _ assms, where g = "\<lambda>h. (fst h, fst (snd h), Some lease)"]) (simp_all add: move, simp add: row_hold_def)
qed

lemma progress_moves:
  assumes "sql_get_job k db = Some j"
  shows "\<exists>j'. sql_get_job k (snd (sql_update_owned_job_progress i w p now db)) = Some j'
    \<and> job_move k (Update_Owned_Job_Progress i w p now) j j'"
  unfolding sql_update_owned_job_progress_def
  by (rule owned_moves [OF _ _ _ assms, where g = "\<lambda>h. h"]) (simp_all add: stays)

lemma expired_moves:
  assumes "sql_get_job k db = Some j"
  shows "\<exists>j'. sql_get_job k (snd (sql_fail_expired_jobs now ec db)) = Some j' \<and> job_move k (Fail_Expired_Jobs now ec) j j'"
proof -
  obtain r where r: "row_of jw_job_id k (sq_jobs db) = Some r" "j = job_of_row r"
    using assms by (auto simp: sql_get_job_def)
  show ?thesis
  proof (cases "expired_row now r")
    case True
    then have "job_expired now (job_of_row r)" by (simp add: job_expired_def expired_row_def)
    with True r show ?thesis
      by (auto simp: sql_fail_expired_jobs_def sql_get_job_def row_of_update_where row_hold_def intro!: expires)
  next
    case False
    with r show ?thesis
      by (auto simp: sql_fail_expired_jobs_def sql_get_job_def row_of_update_where intro: stays)
  qed
qed

lemma enqueue_moves:
  assumes "sql_get_job k db = Some j"
  shows "sql_get_job k (snd (sql_enqueue_job q n db)) = Some j"
    and "sql_get_job k (snd (sql_enqueue_apply_job a n db)) = Some j"
proof -
  have fresh: "k \<noteq> i" if "row_of jw_job_id i (sq_jobs db) = None" for i
    using that assms by (auto simp: sql_get_job_def)
  show "sql_get_job k (snd (sql_enqueue_job q n db)) = Some j"
    using fresh [of "jb_job_id q"] assms by (auto simp: sql_enqueue_job_def save_job_jobs)
  show "sql_get_job k (snd (sql_enqueue_apply_job a n db)) = Some j"
    using fresh [of "jb_job_id (aj_job a)"] assms
    by (auto simp: sql_enqueue_apply_job_def sql_jobs_frame save_job_jobs split: option.splits sum.splits)
qed

lemma forget_moves:
  assumes "sql_get_job k db = Some j"
  shows "\<exists>j'. sql_get_job k (delete_plans ids db) = Some j' \<and> job_move k c j j'"
  using assms by (auto simp: delete_jobs intro: stays)

lemma finalize_jobs: "sql_get_job k (snd (sql_finalize_cloud_move r res db)) = sql_get_job k db"
  unfolding sql_finalize_cloud_move_def
  by (auto intro!: transact_jobs split: sum.splits dest!: operation_jobs result_jobs)

text \<open>The calls that end a job name an end.\<close>

fun ends_job :: "fill_call \<Rightarrow> bool" where
  "ends_job (Finish_Owned_Job k w st ec now p res) = job_final st"
| "ends_job _ = True"

lemma sane_ends: "sane_call c m \<Longrightarrow> ends_job c"
  by (cases c) (simp_all add: job_final_def)

lemma postgres_moves:
  assumes u: "unique_key jw_job_id (sq_jobs db)" and "ends_job c" and j: "sql_get_job k db = Some j"
  shows "\<exists>j'. sql_get_job k (snd (postgres_call c db)) = Some j' \<and> job_move k c j j'"
proof (cases c)
  case (Save_Plan p)
  then show ?thesis using j by (auto simp: sql_jobs_frame intro: stays)
next
  case (Delete_Plan i)
  then show ?thesis
    using j forget_moves [OF j, of "[i]" c] by (auto simp: sql_delete_plan_def intro: stays)
next
  case (Purge_Expired_Plans now)
  then show ?thesis
    using j forget_moves [OF j] by (auto simp: sql_purge_expired_plans_def Let_def intro: stays)
next
  case (Save_Move_Result i r)
  then show ?thesis
    using j by (auto simp: sql_save_move_result_def transact_jobs result_jobs intro: stays)
next
  case (Save_Job q)
  then show ?thesis using j by (auto simp: save_job_jobs intro: stays overwrites)
next
  case (Enqueue_Job q n)
  then show ?thesis using enqueue_moves(1) [OF j] by (auto intro: stays)
next
  case (Enqueue_Apply_Job a n)
  then show ?thesis using enqueue_moves(2) [OF j] by (auto intro: stays)
next
  case (Claim_Next_Job w now lease)
  show ?thesis
    using claim_cases [OF u, of w now lease]
  proof
    assume "fst (sql_claim_next_job {} w now lease db) = None \<and> snd (sql_claim_next_job {} w now lease db) = db"
    with Claim_Next_Job j show ?thesis by (auto intro: stays)
  next
    assume "\<exists>r j'. row_of jw_job_id (jw_job_id r) (sq_jobs db) = Some r \<and> jw_state r = JQUEUED
        \<and> fst (sql_claim_next_job {} w now lease db) = Some j' \<and> jb_job_id j' = jw_job_id r \<and> hold j' = (JRUNNING, Some w, Some lease)
        \<and> (\<forall>k. sql_get_job k (snd (sql_claim_next_job {} w now lease db)) = (if k = jw_job_id r then Some j' else sql_get_job k db))"
    then obtain r j' where r: "row_of jw_job_id (jw_job_id r) (sq_jobs db) = Some r" "jw_state r = JQUEUED"
        "hold j' = (JRUNNING, Some w, Some lease)"
        "sql_get_job k (snd (sql_claim_next_job {} w now lease db)) = (if k = jw_job_id r then Some j' else sql_get_job k db)"
      by blast
    show ?thesis
    proof (cases "k = jw_job_id r")
      case True
      with j r(1,2) have "jb_state j = JQUEUED" by (auto simp: sql_get_job_def)
      with True r Claim_Next_Job show ?thesis by (auto intro: claims)
    next
      case False
      with r j Claim_Next_Job show ?thesis by (auto intro: stays)
    qed
  qed
next
  case (Renew_Owned_Job_Lease i w now lease)
  then show ?thesis using renew_moves [OF j] by simp
next
  case (Update_Owned_Job_Progress i w p now)
  then show ?thesis using progress_moves [OF j] by simp
next
  case (Finish_Owned_Job i w st ec now p res)
  then show ?thesis using finish_moves [OF _ j] assms(2) by simp
next
  case (Cancel_Job i now)
  then show ?thesis using cancel_moves [OF j] by simp
next
  case (Fail_Expired_Jobs now ec)
  then show ?thesis using expired_moves [OF j] by simp
next
  case (Save_Move_Journal r)
  then show ?thesis using j by (auto simp: journal_jobs intro: stays)
next
  case (Save_Cloud_Move_Operation r)
  then show ?thesis
    using j by (auto simp: sql_save_cloud_move_operation_def transact_jobs operation_jobs intro: stays)
next
  case (Finalize_Cloud_Move r res)
  then show ?thesis using j by (auto simp: finalize_jobs intro: stays)
qed (use j in \<open>auto intro: stays\<close>)

lemma postgres_claims:
  assumes u: "unique_key jw_job_id (sq_jobs db)"
    and "fst (postgres_call (Claim_Next_Job w now lease) db) = A_Job (Some j)"
  shows "\<exists>q j'. sql_get_job (jb_job_id j) db = Some q \<and> jb_state q = JQUEUED
    \<and> sql_get_job (jb_job_id j) (snd (postgres_call (Claim_Next_Job w now lease) db)) = Some j'
    \<and> hold j' = (JRUNNING, Some w, Some lease)"
proof -
  obtain r j' where r: "row_of jw_job_id (jw_job_id r) (sq_jobs db) = Some r" "jw_state r = JQUEUED"
      "fst (sql_claim_next_job {} w now lease db) = Some j'" "jb_job_id j' = jw_job_id r" "hold j' = (JRUNNING, Some w, Some lease)"
      "sql_get_job (jw_job_id r) (snd (sql_claim_next_job {} w now lease db)) = Some j'"
    using claim_cases [OF u, of w now lease] assms(2) by auto
  with assms(2) have "j = j'" by simp
  with r show ?thesis by (auto simp: sql_get_job_def)
qed

section \<open>The interface interpreted\<close>

definition postgres_ok :: "fill_tables \<Rightarrow> bool" where
  "postgres_ok db \<longleftrightarrow> (\<exists>m. refines db m)"

definition postgres_sane :: "fill_call \<Rightarrow> fill_tables \<Rightarrow> bool" where
  "postgres_sane c db \<longleftrightarrow> (\<exists>m. refines db m \<and> sane_call c m)"

definition memory_reachable :: "memory \<Rightarrow> bool" where
  "memory_reachable m \<longleftrightarrow> (\<exists>db. refines db m)"

interpretation pg: job_store postgres_call sql_get_job postgres_sane postgres_ok
proof
  fix db c
  assume "postgres_sane c db"
  then obtain m where m: "refines db m" "sane_call c m" by (auto simp: postgres_sane_def)
  then show "postgres_ok (snd (postgres_call c db))"
    unfolding postgres_ok_def using postgres_call_mirrors by blast
  fix k j assume "sql_get_job k db = Some j"
  then show "\<exists>j'. sql_get_job k (snd (postgres_call c db)) = Some j' \<and> job_move k c j j'"
    using m postgres_moves refinesD(5) sane_ends by blast
next
  fix db w now lease j
  assume "postgres_ok db" and "fst (postgres_call (Claim_Next_Job w now lease) db) = A_Job (Some j)"
  then show "\<exists>q j'. sql_get_job (jb_job_id j) db = Some q \<and> jb_state q = JQUEUED
      \<and> sql_get_job (jb_job_id j) (snd (postgres_call (Claim_Next_Job w now lease) db)) = Some j'
      \<and> hold j' = (JRUNNING, Some w, Some lease)"
    unfolding postgres_ok_def using postgres_claims refinesD(5) by blast
qed

interpretation me: job_store memory_call mem_get_job sane_call memory_reachable
proof
  fix m c
  assume "memory_reachable m" and sane: "sane_call c m"
  then obtain db where db: "refines db m" by (auto simp: memory_reachable_def)
  have next_state: "refines (snd (postgres_call c db)) (snd (memory_call c m))"
    using postgres_call_mirrors [OF db sane] by blast
  then show "memory_reachable (snd (memory_call c m))" by (auto simp: memory_reachable_def)
  fix k j assume "mem_get_job k m = Some j"
  then have "sql_get_job k db = Some j" by (simp add: get_job_mirrors [OF db])
  then show "\<exists>j'. mem_get_job k (snd (memory_call c m)) = Some j' \<and> job_move k c j j'"
    using postgres_moves [OF refinesD(5) [OF db] sane_ends [OF sane]] by (simp add: get_job_mirrors [OF next_state])
next
  fix m w now lease j
  assume "memory_reachable m" and claim: "fst (memory_call (Claim_Next_Job w now lease) m) = A_Job (Some j)"
  then obtain db where db: "refines db m" by (auto simp: memory_reachable_def)
  let ?c = "Claim_Next_Job w now lease"
  have mirror: "same_answer ?c (fst (postgres_call ?c db)) (fst (memory_call ?c m))"
      "refines (snd (postgres_call ?c db)) (snd (memory_call ?c m))"
    using postgres_call_mirrors [OF db, of ?c] by simp_all
  with claim have "fst (postgres_call ?c db) = A_Job (Some j)" by simp
  then show "\<exists>q j'. mem_get_job (jb_job_id j) m = Some q \<and> jb_state q = JQUEUED
      \<and> mem_get_job (jb_job_id j) (snd (memory_call ?c m)) = Some j' \<and> hold j' = (JRUNNING, Some w, Some lease)"
    using postgres_claims [OF refinesD(5) [OF db]]
    unfolding get_job_mirrors [OF db, symmetric] get_job_mirrors [OF mirror(2), symmetric] by blast
qed

end
