(* ===== verification/Fill_Props.thy ===== *)
theory Fill_Props
  imports Fill_Workers
begin

text \<open>
  What the fill actor's workers and movers rely on: a lease is safe from everybody else, a job
  is handed out once, and the journal of a CloudDrive move only moves forward until it ends.
\<close>

section \<open>Leases\<close>

lemma postgres_sane_run:
  "refines db m \<Longrightarrow> sane_run memory_call sane_call cs m \<Longrightarrow> sane_run postgres_call postgres_sane cs db"
proof (induction cs arbitrary: db m)
  case Nil
  then show ?case by simp
next
  case (Cons c cs)
  then have "refines (snd (postgres_call c db)) (snd (memory_call c m))"
    using postgres_call_mirrors [of db m c] by simp
  with Cons show ?case by (auto simp: postgres_sane_def)
qed

text \<open>
  C37: a worker's lease is safe. While a worker holds a job under a lease until \<open>t\<close>, no sequence
  of calls by others changes the job's state, owner or lease: claims, enqueues, renewals and
  finishes by other workers, moves, plans saved, deleted and purged, and sweeps of expired
  leases before \<open>t\<close>. Only a cancel of the job, the worker itself, and a record written over
  the job could.
\<close>

theorem lease_protects_job:
  assumes "refines db m" and "sane_run memory_call sane_call cs m"
    and "sql_get_job k db = Some j" and "hold j = (JRUNNING, Some w, Some t)" and "list_all (foreign k w t) cs"
  shows "\<exists>j'. sql_get_job k (snd (run_calls postgres_call cs db)) = Some j' \<and> hold j' = (JRUNNING, Some w, Some t)"
  using pg.lease_kept [of db cs k j w t] assms postgres_sane_run [OF assms(1,2)]
  by (auto simp: postgres_ok_def)

definition demo_claim :: "fill_call list" where
  "demo_claim = [Enqueue_Job (demo_job ''j'' CREATE_PLAN None) 2, Claim_Next_Job ''w'' 2 9]"

definition demo_others :: "fill_call list" where
  "demo_others =
     [Claim_Next_Job ''v'' 3 9, Fail_Expired_Jobs 8 ''lease_expired'', Renew_Owned_Job_Lease ''j'' ''v'' 8 20,
      Finish_Owned_Job ''j'' ''v'' JFAILED (Some ''x'') 8 (first_progress [] 1 1) None,
      Enqueue_Job (demo_job ''j'' CREATE_PLAN None) 2]"

theorem lease_protects_job_witness:
  "\<exists>j. sql_get_job ''j'' (snd (run_calls postgres_call demo_others (snd (run_calls postgres_call demo_claim empty_tables)))) = Some j
     \<and> hold j = (JRUNNING, Some ''w'', Some 9)"
proof -
  let ?db = "snd (run_calls postgres_call demo_claim empty_tables)"
  let ?m = "snd (run_calls memory_call demo_claim empty_memory)"
  have "sane_run memory_call sane_call demo_claim empty_memory" by code_simp
  then have "refines ?db ?m" using storage.run_simulates [OF refines_empty] by blast
  moreover have "sane_run memory_call sane_call demo_others ?m" by code_simp
  moreover have "map_option hold (sql_get_job ''j'' ?db) = Some (JRUNNING, Some ''w'', Some 9)" by code_simp
  moreover have "list_all (foreign ''j'' ''w'' 9) demo_others" by code_simp
  ultimately show ?thesis using lease_protects_job [of ?db ?m demo_others "''j''" _ "''w''" 9] by blast
qed

text \<open>
  C38: a job is handed out once. In any sequence of calls on either repository in which no
  record is written over the job, however workers claim, renew, finish, lose their leases or
  cancel, at most one claim answers with the job.
  The calls keep to what the callers keep to (\<open>sane_call\<close>): none finishes a job into the queue. Each
  call is one step, as its row locks make it.
\<close>

theorem job_claimed_once:
  assumes "sane_run memory_call sane_call cs empty_memory" and "list_all (\<lambda>c. \<not> overwrites_job k c) cs"
  shows "times_claimed k cs (fst (run_calls postgres_call cs empty_tables)) \<le> 1
    \<and> times_claimed k cs (fst (run_calls memory_call cs empty_memory)) \<le> 1"
proof
  have ok: "postgres_ok empty_tables" "memory_reachable empty_memory"
    using refines_empty by (auto simp: postgres_ok_def memory_reachable_def)
  show "times_claimed k cs (fst (run_calls postgres_call cs empty_tables)) \<le> 1"
    using pg.claimed_once [OF ok(1) postgres_sane_run [OF refines_empty assms(1)] assms(2)] .
  show "times_claimed k cs (fst (run_calls memory_call cs empty_memory)) \<le> 1"
    using me.claimed_once [OF ok(2) assms] .
qed

theorem job_claimed_once_witness:
  "times_claimed ''j'' (demo_claim @ demo_others) (fst (run_calls postgres_call (demo_claim @ demo_others) empty_tables)) \<le> 1
   \<and> times_claimed ''j'' demo_claim (fst (run_calls postgres_call demo_claim empty_tables)) = 1"
proof -
  have "sane_run memory_call sane_call (demo_claim @ demo_others) empty_memory"
    "list_all (\<lambda>c. \<not> overwrites_job ''j'' c) (demo_claim @ demo_others)"
    "times_claimed ''j'' demo_claim (fst (run_calls postgres_call demo_claim empty_tables)) = 1"
    by code_simp+
  then show ?thesis using job_claimed_once by blast
qed

section \<open>CloudDrive moves\<close>

text \<open>What a call does to the operation of a candidate.\<close>

definition same_move :: "cloud_operation \<Rightarrow> cloud_operation \<Rightarrow> bool" where
  "same_move q r \<longleftrightarrow> op_attempt_id r = op_attempt_id q \<and> op_source_path r = op_source_path q
     \<and> op_destination_dir r = op_destination_dir q"

lemma same_move_refl [simp]: "same_move q q"
  by (simp add: same_move_def)

lemma cloud_edge_refl [simp]: "cloud_edge s s"
  by (cases s) (simp_all add: cloud_edge_def)

definition plan_absent :: "string \<Rightarrow> fill_tables \<Rightarrow> bool" where
  "plan_absent k db \<longleftrightarrow> k \<notin> pw_plan_id ` set (sq_plans db)"

fun replans :: "string \<Rightarrow> fill_call \<Rightarrow> bool" where
  "replans k (Save_Plan p) = (fp_plan_id (pl_public p) = k)"
| "replans k _ = False"

lemma execute_operation_step:
  assumes "sql_get_cloud_move_operation k c db = Some q" and "execute_save_operation r db = Inr db'"
  shows "\<exists>q'. sql_get_cloud_move_operation k c db' = Some q' \<and> same_move q q' \<and> cloud_edge (op_state q) (op_state q')"
proof -
  let ?merge = "\<lambda>q r. q\<lparr>op_state := op_state r, op_updated_at := op_updated_at r, op_error_code := op_error_code r\<rparr>"
  have db': "sq_operations db' = upsert operation_id ?merge r (sq_operations db)"
    and valid: "op_state r \<in> set (cloud_transitions (map_option op_state (row_of operation_id (operation_id r) (sq_operations db))))"
    using assms(2) by (auto simp: execute_save_operation_def operation_id_def validate_cloud_move_transition_def Let_def
        split: option.splits if_splits sum.splits)
  have up: "row_of operation_id (k, c) (sq_operations db')
      = (if (k, c) = operation_id r then (case row_of operation_id (k, c) (sq_operations db) of None \<Rightarrow> Some r | Some q \<Rightarrow> Some (?merge q r))
         else row_of operation_id (k, c) (sq_operations db))"
    unfolding db' by (rule row_of_upsert) (simp add: operation_id_def)
  have q: "row_of operation_id (k, c) (sq_operations db) = Some q" using assms(1) by (simp add: sql_get_cloud_move_operation_def)
  show ?thesis
  proof (cases "(k, c) = operation_id r")
    case True
    with valid q have "cloud_edge (op_state q) (op_state r)" by (simp add: cloud_edge_def)
    with True q show ?thesis unfolding sql_get_cloud_move_operation_def up by (simp add: same_move_def)
  next
    case False
    with q show ?thesis unfolding sql_get_cloud_move_operation_def up by simp
  qed
qed

lemma row_of_filter_key: "row_of key k (filter (\<lambda>r. p (key r)) rs) = (if p k then row_of key k rs else None)"
  by (induction rs) (auto simp: row_of_Cons)

lemma delete_operations:
  assumes rel: "refines db m" and q: "sql_get_cloud_move_operation k c db = Some q"
  shows "sql_get_cloud_move_operation k c (delete_plans ids db) = (if k \<in> set ids then None else Some q)"
proof -
  let ?gone = "candidate_key ` {r \<in> set (sq_candidates db). cw_plan_id r \<in> set ids \<inter> pw_plan_id ` set (sq_plans db)}"
  have ops: "sq_operations (delete_plans ids db) = filter (\<lambda>r. operation_id r \<notin> ?gone) (sq_operations db)"
    by (simp add: delete_plans_eq delete_candidates_def Let_def)
  have "q \<in> set (sq_operations db)" "operation_id q = (k, c)"
    using q by (auto simp: sql_get_cloud_move_operation_def dest: row_of_Some)
  then obtain r where r: "r \<in> set (sq_candidates db)" "candidate_key r = (k, c)"
    using refers_to_candidate(3) [OF rel, of q] by (auto dest: row_of_Some)
  then have "cw_plan_id r = k" and "k \<in> pw_plan_id ` set (sq_plans db)"
    using refinesD(11) [OF rel] by (auto simp: tables_ok_def candidate_key_def)
  then have "(k, c) \<in> ?gone \<longleftrightarrow> k \<in> set ids"
    using r by (auto simp: candidate_key_def)
  moreover have "row_of operation_id (k, c) (sq_operations (delete_plans ids db))
      = (if (k, c) \<notin> ?gone then row_of operation_id (k, c) (sq_operations db) else None)"
    unfolding ops by (rule row_of_filter_key)
  ultimately show ?thesis
    using q by (simp only: sql_get_cloud_move_operation_def) simp
qed

lemma open_move_in_use:
  assumes "sql_get_cloud_move_operation k c db = Some q" and "\<not> cloud_terminal (op_state q)"
  shows "sql_plan_in_use k db"
proof -
  have "q \<in> set (sq_operations db)" "op_plan_id q = k"
    using assms(1) by (auto simp: sql_get_cloud_move_operation_def operation_id_def dest: row_of_Some)
  with assms(2) show ?thesis
    unfolding sql_plan_in_use_def cloud_active_states list_ex_iff by blast
qed

lemma save_plan_operations:
  assumes "fp_plan_id (pl_public p) \<noteq> k"
  shows "sql_get_cloud_move_operation k c (sql_save_plan p db) = sql_get_cloud_move_operation k c db"
proof -
  let ?gone = "candidate_key ` {r \<in> set (sq_candidates db). cw_plan_id r = fp_plan_id (pl_public p)
      \<and> cw_candidate_id r \<notin> set (map cr_candidate_id (pl_candidates p))}"
  have ops: "sq_operations (sql_save_plan p db) = filter (\<lambda>r. operation_id r \<notin> ?gone) (sq_operations db)"
    by (simp add: sql_save_plan_def delete_candidates_def Let_def)
  have "(k, c) \<notin> ?gone" using assms by (auto simp: candidate_key_def)
  moreover have "row_of operation_id (k, c) (sq_operations (sql_save_plan p db))
      = (if (k, c) \<notin> ?gone then row_of operation_id (k, c) (sq_operations db) else None)"
    unfolding ops by (rule row_of_filter_key)
  ultimately show ?thesis unfolding sql_get_cloud_move_operation_def by simp
qed

lemma transact_operation:
  assumes "sql_get_cloud_move_operation k c db = Some q"
    and "\<And>db'. r = Inr db' \<Longrightarrow> \<exists>q'. sql_get_cloud_move_operation k c db' = Some q' \<and> same_move q q' \<and> cloud_edge (op_state q) (op_state q')"
  shows "\<exists>q'. sql_get_cloud_move_operation k c (snd (transact db r)) = Some q' \<and> same_move q q' \<and> cloud_edge (op_state q) (op_state q')"
  using assms by (cases r) (simp_all add: transact_def)

lemma result_operations: "insert_move_result p r db = Inr db' \<Longrightarrow> sq_operations db' = sq_operations db"
  by (auto simp: insert_move_result_def split: option.splits if_splits)

lemma finalize_operation:
  assumes "sql_get_cloud_move_operation k c db = Some q"
  shows "\<exists>q'. sql_get_cloud_move_operation k c (snd (sql_finalize_cloud_move r res db)) = Some q' \<and> same_move q q'
    \<and> cloud_edge (op_state q) (op_state q')"
proof -
  have "\<exists>q'. sql_get_cloud_move_operation k c db' = Some q' \<and> same_move q q' \<and> cloud_edge (op_state q) (op_state q')"
    if saved: "(case execute_save_operation r db of Inl e \<Rightarrow> Inl e | Inr db1 \<Rightarrow> insert_move_result (op_plan_id r) res db1) = Inr db'" for db'
  proof -
    obtain db1 where "execute_save_operation r db = Inr db1" and "sq_operations db' = sq_operations db1"
      using saved by (auto dest: result_operations split: sum.splits)
    with execute_operation_step [OF assms] show ?thesis by (simp add: sql_get_cloud_move_operation_def)
  qed
  with assms show ?thesis by (auto simp: sql_finalize_cloud_move_def intro: transact_operation)
qed

lemma owned_operations:
  "sq_operations (snd (update_owned i w now f db)) = sq_operations db"
  "sq_operations (snd (sql_finish_owned_job i w st ec now p res db)) = sq_operations db"
  "sq_operations (snd (sql_cancel_job i now db)) = sq_operations db"
  "sq_operations (snd (sql_enqueue_apply_job a n db)) = sq_operations db"
  "sq_operations (snd (sql_save_move_journal jr db)) = sq_operations db"
  "sq_operations (snd (sql_save_move_result i r db)) = sq_operations db"
  "sq_operations (snd (sql_claim_next_job l w now lease db)) = sq_operations db"
  by (auto simp: update_owned_def Let_def sql_finish_owned_job_def sql_cancel_job_def sql_enqueue_apply_job_def
      sql_save_job_def sql_save_move_journal_def transact_def sql_save_move_result_def insert_move_result_def
      sql_claim_next_job_def case_prod_beta split: option.splits sum.splits if_splits list.splits)

lemma owned_plans:
  "sq_plans (snd (update_owned i w now f db)) = sq_plans db"
  "sq_plans (snd (sql_finish_owned_job i w st ec now p res db)) = sq_plans db"
  "sq_plans (snd (sql_cancel_job i now db)) = sq_plans db"
  "sq_plans (snd (sql_enqueue_apply_job a n db)) = sq_plans db"
  "sq_plans (snd (sql_save_move_journal jr db)) = sq_plans db"
  "sq_plans (snd (sql_save_move_result i r db)) = sq_plans db"
  "sq_plans (snd (sql_claim_next_job l w now lease db)) = sq_plans db"
  by (auto simp: update_owned_def Let_def sql_finish_owned_job_def sql_cancel_job_def sql_enqueue_apply_job_def
      sql_save_job_def sql_save_move_journal_def transact_def sql_save_move_result_def insert_move_result_def
      sql_claim_next_job_def case_prod_beta split: option.splits sum.splits if_splits list.splits)

lemma deleted_absent: "plan_absent k db \<or> k \<in> set ids \<Longrightarrow> plan_absent k (delete_plans ids db)"
  by (auto simp: plan_absent_def delete_plans_eq)

definition course_step :: "cloud_operation \<Rightarrow> string \<Rightarrow> string \<Rightarrow> fill_tables \<Rightarrow> bool" where
  "course_step q k c db \<longleftrightarrow>
     (\<exists>q'. sql_get_cloud_move_operation k c db = Some q' \<and> same_move q q' \<and> cloud_edge (op_state q) (op_state q'))
     \<or> cloud_terminal (op_state q) \<and> plan_absent k db"

lemma course_kept: "sql_get_cloud_move_operation k c db = Some q \<Longrightarrow> course_step q k c db"
  by (simp add: course_step_def)

lemma course_deleted:
  assumes rel: "refines db m" and q: "sql_get_cloud_move_operation k c db = Some q"
    and "\<And>i. i \<in> set ids \<Longrightarrow> \<not> sql_plan_in_use i db"
  shows "course_step q k c (delete_plans ids db)"
proof (cases "k \<in> set ids")
  case True
  with assms(3) open_move_in_use [OF q] have "cloud_terminal (op_state q)" by blast
  with True show ?thesis by (simp add: course_step_def deleted_absent)
next
  case False
  with delete_operations [OF rel q] show ?thesis by (simp add: course_kept)
qed

lemma call_course:
  assumes rel: "refines db m" and q: "sql_get_cloud_move_operation k c db = Some q" and "\<not> replans k call"
  shows "course_step q k c (snd (postgres_call call db))"
proof (cases call)
  case (Save_Plan p)
  with assms(3) q show ?thesis by (simp add: course_kept save_plan_operations)
next
  case (Delete_Plan i)
  then show ?thesis
    using course_deleted [OF rel q, of "[i]"] course_kept [OF q] by (simp add: sql_delete_plan_def)
next
  case (Purge_Expired_Plans now)
  have "course_step q k c (delete_plans
      (map pw_plan_id (filter (\<lambda>r. pw_expires_at r \<le> now \<and> \<not> sql_plan_in_use (pw_plan_id r) db) (sq_plans db))) db)"
    by (rule course_deleted [OF rel q]) auto
  with Purge_Expired_Plans course_kept [OF q] show ?thesis by (simp add: sql_purge_expired_plans_def Let_def)
next
  case (Save_Cloud_Move_Operation r)
  have "\<exists>q'. sql_get_cloud_move_operation k c (snd (transact db (execute_save_operation r db))) = Some q' \<and> same_move q q'
      \<and> cloud_edge (op_state q) (op_state q')"
    by (rule transact_operation [OF q]) (rule execute_operation_step [OF q])
  with Save_Cloud_Move_Operation q show ?thesis
    by (simp add: sql_save_cloud_move_operation_def course_step_def)
next
  case (Finalize_Cloud_Move r res)
  with finalize_operation [OF q] show ?thesis by (simp add: course_step_def)
qed (use q in \<open>auto intro!: course_kept simp: sql_get_cloud_move_operation_def owned_operations sql_save_job_def
      sql_enqueue_job_def sql_renew_owned_job_lease_def sql_update_owned_job_progress_def sql_fail_expired_jobs_def\<close>)

lemma execute_plans: "execute_save_operation r db = Inr db' \<Longrightarrow> sq_plans db' = sq_plans db"
  by (auto simp: execute_save_operation_def Let_def split: option.splits if_splits sum.splits)

lemma result_plans: "insert_move_result p r db = Inr db' \<Longrightarrow> sq_plans db' = sq_plans db"
  by (auto simp: insert_move_result_def split: option.splits if_splits)

lemma call_absent:
  assumes "plan_absent k db" and "\<not> replans k call"
  shows "plan_absent k (snd (postgres_call call db))"
proof (cases call)
  case (Save_Plan p)
  have up: "k \<notin> pw_plan_id ` set (upsert pw_plan_id whole_row r rs)" if "k \<noteq> pw_plan_id r" and "k \<notin> pw_plan_id ` set rs" for r rs
    using that by (induction rs) (auto simp: whole_row_def)
  have "k \<notin> pw_plan_id ` set (sq_plans (sql_save_plan p db))"
    using assms Save_Plan unfolding plan_absent_def sql_save_plan_def delete_candidates_def Let_def
    by simp (rule up, auto)
  then show ?thesis using Save_Plan by (simp add: plan_absent_def)
next
  case (Delete_Plan i)
  with assms show ?thesis by (simp add: sql_delete_plan_def deleted_absent)
next
  case (Purge_Expired_Plans now)
  with assms show ?thesis by (simp add: sql_purge_expired_plans_def Let_def deleted_absent)
next
  case (Save_Cloud_Move_Operation r)
  have "sq_plans (snd (sql_save_cloud_move_operation r db)) = sq_plans db"
    by (auto simp: sql_save_cloud_move_operation_def transact_def dest: execute_plans split: sum.splits)
  with Save_Cloud_Move_Operation assms show ?thesis by (simp add: plan_absent_def)
next
  case (Finalize_Cloud_Move r res)
  have "sq_plans (snd (sql_finalize_cloud_move r res db)) = sq_plans db"
    by (auto simp: sql_finalize_cloud_move_def transact_def dest!: execute_plans result_plans split: sum.splits)
  with Finalize_Cloud_Move assms show ?thesis by (simp add: plan_absent_def)
qed (use assms in \<open>simp_all add: plan_absent_def owned_plans sql_save_job_def sql_enqueue_job_def
      sql_renew_owned_job_lease_def sql_update_owned_job_progress_def sql_fail_expired_jobs_def\<close>)

lemma absent_no_move:
  assumes "refines db m" and "plan_absent k db"
  shows "sql_get_cloud_move_operation k c db = None"
proof (rule ccontr)
  assume "sql_get_cloud_move_operation k c db \<noteq> None"
  then obtain q where "sql_get_cloud_move_operation k c db = Some q" by blast
  then have "q \<in> set (sq_operations db)" "operation_id q = (k, c)"
    by (auto simp: sql_get_cloud_move_operation_def dest: row_of_Some)
  with refers_to_candidate(3) [OF assms(1), of q] obtain r where "r \<in> set (sq_candidates db)" "cw_plan_id r = k"
    by (auto simp: candidate_key_def dest: row_of_Some)
  with assms show False using refinesD(11) [OF assms(1)] by (auto simp: tables_ok_def plan_absent_def)
qed

text \<open>A run of calls from a state in which the operation is there.\<close>

definition ended_in :: "cloud_operation \<Rightarrow> string \<Rightarrow> string \<Rightarrow> fill_call list \<Rightarrow> fill_tables \<Rightarrow> bool" where
  "ended_in q k c cs db \<longleftrightarrow>
     (\<exists>ds es q'. cs = ds @ es \<and> sql_get_cloud_move_operation k c (snd (run_calls postgres_call ds db)) = Some q'
        \<and> same_move q q' \<and> cloud_edge\<^sup>*\<^sup>* (op_state q) (op_state q') \<and> cloud_terminal (op_state q'))"

lemma absent_run:
  assumes "plan_absent k db" and "list_all (\<lambda>call. \<not> replans k call) cs"
  shows "plan_absent k (snd (run_calls postgres_call cs db))"
  using assms
proof (induction cs arbitrary: db)
  case (Cons c cs)
  with call_absent [of k db c] show ?case by (simp add: Let_def case_prod_beta)
qed simp

lemma same_move_trans: "same_move q r \<Longrightarrow> same_move r s \<Longrightarrow> same_move q s"
  by (simp add: same_move_def)

lemma ended_later:
  assumes "ended_in q1 k c cs (snd (postgres_call call db))" and "same_move q q1" and "cloud_edge (op_state q) (op_state q1)"
  shows "ended_in q k c (call # cs) db"
proof -
  obtain ds es q' where "cs = ds @ es" "same_move q1 q'" "cloud_edge\<^sup>*\<^sup>* (op_state q1) (op_state q')" "cloud_terminal (op_state q')"
      "sql_get_cloud_move_operation k c (snd (run_calls postgres_call ds (snd (postgres_call call db)))) = Some q'"
    using assms(1) by (auto simp: ended_in_def)
  with assms(2,3) show ?thesis
    unfolding ended_in_def
    by (intro exI [of _ "call # ds"] exI [of _ es] exI [of _ q'])
      (auto simp: Let_def case_prod_beta intro: same_move_trans converse_rtranclp_into_rtranclp)
qed

lemma run_course:
  assumes "refines db m" and "sane_run memory_call sane_call cs m"
    and "sql_get_cloud_move_operation k c db = Some q" and "list_all (\<lambda>call. \<not> replans k call) cs"
  shows "case sql_get_cloud_move_operation k c (snd (run_calls postgres_call cs db)) of
           Some q' \<Rightarrow> same_move q q' \<and> cloud_edge\<^sup>*\<^sup>* (op_state q) (op_state q')
         | None \<Rightarrow> ended_in q k c cs db"
  using assms
proof (induction cs arbitrary: db m q)
  case Nil
  then show ?case by simp
next
  case (Cons call cs)
  let ?db = "snd (postgres_call call db)" and ?m = "snd (memory_call call m)"
  have rel: "refines ?db ?m" and sane: "sane_run memory_call sane_call cs ?m" and plain: "list_all (\<lambda>call. \<not> replans k call) cs"
    using Cons.prems postgres_call_mirrors [of db m call] by simp_all
  have "course_step q k c ?db" using call_course [OF Cons.prems(1,3)] Cons.prems(4) by simp
  then consider q1 where "sql_get_cloud_move_operation k c ?db = Some q1" "same_move q q1" "cloud_edge (op_state q) (op_state q1)"
    | "cloud_terminal (op_state q)" "plan_absent k ?db"
    by (auto simp: course_step_def)
  then show ?case
  proof cases
    case 1
    with Cons.IH [OF rel sane 1(1) plain] show ?thesis
      by (auto simp: Let_def case_prod_beta intro: same_move_trans converse_rtranclp_into_rtranclp ended_later split: option.splits)
  next
    case 2
    have "refines (snd (run_calls postgres_call cs ?db)) (snd (run_calls memory_call cs ?m))"
      using storage.run_simulates [OF rel sane] by blast
    then have "sql_get_cloud_move_operation k c (snd (run_calls postgres_call cs ?db)) = None"
      using absent_no_move absent_run [OF 2(2) plain] by blast
    moreover have "ended_in q k c (call # cs) db"
      using 2(1) Cons.prems(3) unfolding ended_in_def by (intro exI [of _ "[]"] exI [of _ "call # cs"] exI [of _ q]) simp
    ultimately show ?thesis by (simp add: Let_def case_prod_beta)
  qed
qed

lemma unresolved_sources:
  assumes "refines db m"
  shows "distinct (map op_source_path (sql_list_unresolved_cloud_moves db))"
proof -
  have "active_sources_ok (sq_operations db)"
    using refinesD(10) [OF assms] by (simp add: memory_ok_def refinesD(4) [OF assms])
  then have "unique_key op_source_path (filter (\<lambda>r. \<not> cloud_terminal (op_state r)) (sq_operations db))"
    unfolding active_sources_ok_def cloud_active_states unique_key_def .
  then show ?thesis
    unfolding sql_list_unresolved_cloud_moves_def filter_active_sources unique_key_def [symmetric] by simp
qed

text \<open>
  C39: the journal of a CloudDrive move only moves forward. Whatever calls follow, unless its
  plan is saved anew, an operation keeps its attempt, its source and its destination, and its
  state only follows the transition table; it can disappear only with its plan, and only
  after it ended. And never do two unresolved operations have the same source.
\<close>

theorem cloud_moves_safe:
  assumes "refines db m" and "sane_run memory_call sane_call cs m"
    and "sql_get_cloud_move_operation k c db = Some q" and "list_all (\<lambda>call. \<not> replans k call) cs"
  shows "(case sql_get_cloud_move_operation k c (snd (run_calls postgres_call cs db)) of
            Some q' \<Rightarrow> same_move q q' \<and> cloud_edge\<^sup>*\<^sup>* (op_state q) (op_state q')
          | None \<Rightarrow> ended_in q k c cs db)
    \<and> distinct (map op_source_path (sql_list_unresolved_cloud_moves (snd (run_calls postgres_call cs db))))"
  using run_course [OF assms] unresolved_sources storage.run_simulates [OF assms(1,2)] by blast

definition demo_move :: "fill_call list" where
  "demo_move = [Save_Plan (demo_plan [''c'', ''b'']), Save_Cloud_Move_Operation (demo_operation ''b'' CPREPARED)]"

definition demo_course :: "fill_call list" where
  "demo_course =
     [Delete_Plan ''p'', Save_Cloud_Move_Operation (demo_operation ''c'' CPREPARED),
      Save_Cloud_Move_Operation (demo_operation ''b'' CVERIFYING),
      Save_Cloud_Move_Operation (demo_operation ''b'' CSUBMITTING),
      Save_Cloud_Move_Operation (demo_operation ''b'' CPREPARED)]"

theorem cloud_moves_safe_witness:
  "\<exists>q'. sql_get_cloud_move_operation ''p'' ''b'' (snd (run_calls postgres_call demo_course
          (snd (run_calls postgres_call demo_move empty_tables)))) = Some q'
     \<and> op_state q' = CSUBMITTING \<and> cloud_edge\<^sup>*\<^sup>* CPREPARED (op_state q')"
proof -
  let ?db = "snd (run_calls postgres_call demo_move empty_tables)"
  let ?m = "snd (run_calls memory_call demo_move empty_memory)"
  have "sane_run memory_call sane_call demo_move empty_memory" by code_simp
  then have rel: "refines ?db ?m" using storage.run_simulates [OF refines_empty] by blast
  have sane: "sane_run memory_call sane_call demo_course ?m" by code_simp
  have plain: "list_all (\<lambda>call. \<not> replans ''p'' call) demo_course" by code_simp
  have q: "sql_get_cloud_move_operation ''p'' ''b'' ?db = Some (demo_operation ''b'' CPREPARED)" by code_simp
  have q': "sql_get_cloud_move_operation ''p'' ''b'' (snd (run_calls postgres_call demo_course ?db))
      = Some (demo_operation ''b'' CSUBMITTING)" by code_simp
  have "cloud_edge\<^sup>*\<^sup>* (op_state (demo_operation ''b'' CPREPARED)) (op_state (demo_operation ''b'' CSUBMITTING))"
    using cloud_moves_safe [OF rel sane q plain] unfolding q' by simp
  then show ?thesis unfolding q' by (simp add: demo_operation_def)
qed

end
