(* ===== verification/Fill_World.thy ===== *)
theory Fill_World
  imports Fill_Calls Coroutines Paths
begin

text \<open>
  The world of the fill actor's moves: the repository, as the dicts of its specification, the
  local file system, a tick that advances at every await and every system call, and the log
  of what was sent to CloudDrive. What the process does not decide itself is a field of
  \<open>fill_services\<close>, free to differ at every tick: the clock, the settings, what CloudDrive
  answers, which system calls fail, what other requests and replicas call on the repository,
  what other processes do to the files, and whether the process is still alive. A process
  that dies stops: nothing catches it, and no cleanup runs.
\<close>

section \<open>Files\<close>

text \<open>
  A name holds a regular file or a directory, by its device and inode numbers, or a symbolic
  link, by what it leads to. Hard links are two names of one inode. What \<^verbatim>\<open>stat\<close> tells of
  an inode beyond its numbers is its size, its modification and its change time.
\<close>

type_synonym inode = "int \<times> int"

datatype entry = Regular inode | Directory inode

datatype fnode = Node entry | Symlink "entry option"

record file_attr =
  fa_size :: int
  fa_mtime_ns :: int
  fa_ctime_ns :: int

record fsys =
  fs_node :: "string \<Rightarrow> fnode option"
  fs_attr :: "inode \<Rightarrow> file_attr"

fun followed :: "fnode option \<Rightarrow> entry option" where
  "followed None = None"
| "followed (Some (Node e)) = Some e"
| "followed (Some (Symlink e)) = e"

fun entry_inode :: "entry \<Rightarrow> inode" where
  "entry_inode (Regular i) = i"
| "entry_inode (Directory i) = i"

definition fs_exists :: "string \<Rightarrow> fsys \<Rightarrow> bool" where
  "fs_exists p fs \<longleftrightarrow> followed (fs_node fs p) \<noteq> None"

definition fs_is_file :: "string \<Rightarrow> fsys \<Rightarrow> bool" where
  "fs_is_file p fs \<longleftrightarrow> (case followed (fs_node fs p) of Some (Regular _) \<Rightarrow> True | _ \<Rightarrow> False)"

definition fs_is_dir :: "string \<Rightarrow> fsys \<Rightarrow> bool" where
  "fs_is_dir p fs \<longleftrightarrow> (case followed (fs_node fs p) of Some (Directory _) \<Rightarrow> True | _ \<Rightarrow> False)"

definition fs_is_symlink :: "string \<Rightarrow> fsys \<Rightarrow> bool" where
  "fs_is_symlink p fs \<longleftrightarrow> (case fs_node fs p of Some (Symlink _) \<Rightarrow> True | _ \<Rightarrow> False)"

definition fingerprint_of :: "inode \<Rightarrow> fsys \<Rightarrow> fingerprint" where
  "fingerprint_of i fs =
     \<lparr>fg_device = fst i, fg_inode = snd i, fg_size = fa_size (fs_attr fs i), fg_mtime_ns = fa_mtime_ns (fs_attr fs i),
      fg_ctime_ns = fa_ctime_ns (fs_attr fs i)\<rparr>"

definition fs_stat :: "string \<Rightarrow> fsys \<Rightarrow> fingerprint option" where
  "fs_stat p fs = map_option (\<lambda>e. fingerprint_of (entry_inode e) fs) (followed (fs_node fs p))"

section \<open>What is outside\<close>

datatype errno = EEXIST | ENOENT | EXDEV | EPERM | EINVAL | ENOSYS | EOPNOTSUPP | EIO

text \<open>
  The exceptions: those of the repository, a missing remote directory, anything else of
  CloudDrive, an error of the file system, an incomplete configuration, and the refusals of
  \<^verbatim>\<open>fill_actor/errors.py\<close> a move can meet.
\<close>

datatype fill_exn =
  StoreError fill_error
  | RemoteMissing
  | RemoteError
  | OsError errno
  | NotConfigured
  | MoveDisabled
  | LegacyPlan
  | UnknownPlan string
  | ExpiredPlan string
  | RevisionMismatch string
  | UnknownCandidate string
  | InvalidRecord string

record move_response =
  mp_success :: bool
  mp_error_message :: "string option"
  mp_result_paths :: "string list"

record cloud_paths =
  cp_strm_mount_prefix :: string
  cp_source_api_roots :: "string list"
  cp_move_in_api_root :: string

record fill_paths =
  fi_actor_brand_path :: string
  fi_additional_brand_paths :: "string list"
  fi_move_in_path :: string

record fill_runtime =
  rt_version :: int
  rt_paths :: "fill_paths option"
  rt_root_sentinel :: "string option"
  rt_move_in_by_brand :: bool
  rt_apply_enabled :: bool
  rt_cloud_move_paths :: "cloud_paths option"

text \<open>
  A move sent to CloudDrive is logged with the operation it was sent for; the call itself
  passes only the two paths.
\<close>

datatype fill_effect =
  EnsureFolder string string
  | SentMove cloud_operation string string
  | Reported nat nat "string option"
  | NotifiedMoved

record fill_services =
  fv_alive :: "nat \<Rightarrow> bool"
  fv_others :: "nat \<Rightarrow> fill_call list"
  fv_files :: "nat \<Rightarrow> fsys \<Rightarrow> fsys"
  fv_clock :: "nat \<Rightarrow> datetime"
  fv_token :: "nat \<Rightarrow> string"
  fv_runtime :: "nat \<Rightarrow> fill_runtime"
  fv_mover :: bool
  fv_list :: "nat \<Rightarrow> string \<Rightarrow> fill_exn + cloud_file list"
  fv_ensure :: "nat \<Rightarrow> string \<Rightarrow> string \<Rightarrow> fill_exn + bool"
  fv_move :: "nat \<Rightarrow> string \<Rightarrow> string \<Rightarrow> fill_exn + move_response"
  fv_brand :: "string \<Rightarrow> string option"
  fv_sha256 :: "string \<Rightarrow> string"
  fv_utf8 :: "string \<Rightarrow> bool"
  fv_resolve :: "nat \<Rightarrow> string \<Rightarrow> string"
  fv_read :: "nat \<Rightarrow> string \<Rightarrow> string option"
  fv_fails :: "nat \<Rightarrow> errno option"
  fv_noreplace :: "errno option"
  fv_ctime :: "nat \<Rightarrow> int"
  fv_new_inode :: "nat \<Rightarrow> inode"
  fv_progress :: "nat \<Rightarrow> fill_exn option"
  fv_stopped :: "nat \<Rightarrow> bool"
  fv_notify :: "nat \<Rightarrow> fill_exn option"

section \<open>The world and its statements\<close>

record fworld =
  fw_store :: memory
  fw_fs :: fsys
  fw_tick :: nat
  fw_log :: "fill_effect list"

type_synonym 'a fio = "(fworld, fill_exn, 'a) prog"

text \<open>One await or system call: a dead process gets no further.\<close>

definition f_alive :: "fill_services \<Rightarrow> 'a fio \<Rightarrow> 'a fio" where
  "f_alive sv m w = (if fv_alive sv (fw_tick w) then m w else (Stuck, w))"

definition f_ask :: "fill_services \<Rightarrow> (nat \<Rightarrow> 'a) \<Rightarrow> 'a fio" where
  "f_ask sv q = f_alive sv (\<lambda>w. (Value (q (fw_tick w)), w\<lparr>fw_tick := Suc (fw_tick w)\<rparr>))"

definition f_value :: "fill_exn + 'a \<Rightarrow> 'a fio" where
  "f_value r = (case r of Inl e \<Rightarrow> raise_io e | Inr a \<Rightarrow> ret a)"

definition f_log :: "fill_effect \<Rightarrow> unit fio" where
  "f_log e w = (Value (), w\<lparr>fw_log := fw_log w @ [e]\<rparr>)"

text \<open>A question to CloudDrive, and an order, which is logged when it is sent.\<close>

definition f_query :: "fill_services \<Rightarrow> (nat \<Rightarrow> fill_exn + 'a) \<Rightarrow> 'a fio" where
  "f_query sv q = bind_io (f_ask sv q) f_value"

definition f_order :: "fill_services \<Rightarrow> fill_effect \<Rightarrow> (nat \<Rightarrow> fill_exn + 'a) \<Rightarrow> 'a fio" where
  "f_order sv e q = f_alive sv (\<lambda>w. bind_io (f_log e) (\<lambda>_. f_query sv q) w)"

text \<open>A call on the repository, after what the others called meanwhile.\<close>

definition others_called :: "fill_services \<Rightarrow> fworld \<Rightarrow> memory" where
  "others_called sv w = snd (run_calls memory_call (fv_others sv (fw_tick w)) (fw_store w))"

definition f_store :: "fill_services \<Rightarrow> (memory \<Rightarrow> (fill_error + 'a) \<times> memory) \<Rightarrow> 'a fio" where
  "f_store sv f =
     f_alive sv (\<lambda>w.
       case f (others_called sv w) of
         (Inl e, m) \<Rightarrow> (Raised (StoreError e), w\<lparr>fw_store := m, fw_tick := Suc (fw_tick w)\<rparr>)
       | (Inr a, m) \<Rightarrow> (Value a, w\<lparr>fw_store := m, fw_tick := Suc (fw_tick w)\<rparr>))"

definition f_read_store :: "fill_services \<Rightarrow> (memory \<Rightarrow> 'a) \<Rightarrow> 'a fio" where
  "f_read_store sv f = f_store sv (\<lambda>m. (Inr (f m), m))"

text \<open>A system call, after what other processes did to the files.\<close>

definition f_fs :: "fill_services \<Rightarrow> (nat \<Rightarrow> fsys \<Rightarrow> (errno + 'a) \<times> fsys) \<Rightarrow> 'a fio" where
  "f_fs sv f =
     f_alive sv (\<lambda>w.
       case f (fw_tick w) (fv_files sv (fw_tick w) (fw_fs w)) of
         (Inl e, fs) \<Rightarrow> (Raised (OsError e), w\<lparr>fw_fs := fs, fw_tick := Suc (fw_tick w)\<rparr>)
       | (Inr a, fs) \<Rightarrow> (Value a, w\<lparr>fw_fs := fs, fw_tick := Suc (fw_tick w)\<rparr>))"

text \<open>\<^verbatim>\<open>exists\<close>, \<^verbatim>\<open>is_dir\<close> and their like: an error other than a missing name is raised.\<close>

definition f_look :: "fill_services \<Rightarrow> (fsys \<Rightarrow> 'a) \<Rightarrow> 'a fio" where
  "f_look sv f =
     f_fs sv (\<lambda>n fs. (case fv_fails sv n of
                       Some e \<Rightarrow> if e = EIO \<or> e = EPERM then (Inl e, fs) else (Inr (f fs), fs)
                     | None \<Rightarrow> (Inr (f fs), fs)))"

definition f_now :: "fill_services \<Rightarrow> datetime fio" where
  "f_now sv = f_ask sv (fv_clock sv)"

section \<open>System calls\<close>

text \<open>A rename or a link changes the change time of the inode.\<close>

definition touched :: "int \<Rightarrow> fnode \<Rightarrow> (inode \<Rightarrow> file_attr) \<Rightarrow> inode \<Rightarrow> file_attr" where
  "touched ct n attr =
     (case n of Node e \<Rightarrow> attr(entry_inode e := attr (entry_inode e)\<lparr>fa_ctime_ns := ct\<rparr>) | Symlink _ \<Rightarrow> attr)"

definition fs_move :: "int \<Rightarrow> string \<Rightarrow> string \<Rightarrow> fnode \<Rightarrow> fsys \<Rightarrow> fsys" where
  "fs_move ct p q n fs = fs\<lparr>fs_node := (fs_node fs)(p := None, q := Some n), fs_attr := touched ct n (fs_attr fs)\<rparr>"

text \<open>
  \<^verbatim>\<open>_rename_no_replace\<close>: \<^verbatim>\<open>renameat2\<close> with \<^verbatim>\<open>RENAME_NOREPLACE\<close>, which some file systems
  refuse with an error of theirs.
\<close>

definition sys_rename_no_replace ::
  "fill_services \<Rightarrow> string \<Rightarrow> string \<Rightarrow> nat \<Rightarrow> fsys \<Rightarrow> (errno + unit) \<times> fsys" where
  "sys_rename_no_replace sv p q n fs =
     (case fv_fails sv n of
        Some e \<Rightarrow> (Inl e, fs)
      | None \<Rightarrow>
          (case fs_node fs p of
             None \<Rightarrow> (Inl ENOENT, fs)
           | Some x \<Rightarrow>
               (if fs_node fs q \<noteq> None then (Inl EEXIST, fs)
                else case fv_noreplace sv of
                       Some e \<Rightarrow> (Inl e, fs)
                     | None \<Rightarrow> (Inr (), fs_move (fv_ctime sv n) p q x fs))))"

text \<open>\<^verbatim>\<open>Path.rename\<close>, which replaces a file at the target; two names of one inode stay.\<close>

definition sys_rename ::
  "fill_services \<Rightarrow> string \<Rightarrow> string \<Rightarrow> nat \<Rightarrow> fsys \<Rightarrow> (errno + unit) \<times> fsys" where
  "sys_rename sv p q n fs =
     (case fv_fails sv n of
        Some e \<Rightarrow> (Inl e, fs)
      | None \<Rightarrow>
          (case fs_node fs p of
             None \<Rightarrow> (Inl ENOENT, fs)
           | Some x \<Rightarrow> (if fs_node fs q = Some x then (Inr (), fs) else (Inr (), fs_move (fv_ctime sv n) p q x fs))))"

text \<open>\<^verbatim>\<open>os.link\<close> with \<^verbatim>\<open>follow_symlinks=False\<close>.\<close>

definition sys_link ::
  "fill_services \<Rightarrow> string \<Rightarrow> string \<Rightarrow> nat \<Rightarrow> fsys \<Rightarrow> (errno + unit) \<times> fsys" where
  "sys_link sv p q n fs =
     (case fv_fails sv n of
        Some e \<Rightarrow> (Inl e, fs)
      | None \<Rightarrow>
          (case fs_node fs p of
             None \<Rightarrow> (Inl ENOENT, fs)
           | Some x \<Rightarrow>
               (if fs_node fs q \<noteq> None then (Inl EEXIST, fs)
                else (Inr (), fs\<lparr>fs_node := (fs_node fs)(q := Some x), fs_attr := touched (fv_ctime sv n) x (fs_attr fs)\<rparr>))))"

definition sys_unlink :: "fill_services \<Rightarrow> string \<Rightarrow> nat \<Rightarrow> fsys \<Rightarrow> (errno + unit) \<times> fsys" where
  "sys_unlink sv p n fs =
     (case fv_fails sv n of
        Some e \<Rightarrow> (Inl e, fs)
      | None \<Rightarrow>
          (case fs_node fs p of
             None \<Rightarrow> (Inl ENOENT, fs)
           | Some x \<Rightarrow> (Inr (), fs\<lparr>fs_node := (fs_node fs)(p := None), fs_attr := touched (fv_ctime sv n) x (fs_attr fs)\<rparr>)))"

text \<open>\<^verbatim>\<open>Path.mkdir(exist_ok=True)\<close>.\<close>

definition sys_mkdir :: "fill_services \<Rightarrow> string \<Rightarrow> nat \<Rightarrow> fsys \<Rightarrow> (errno + unit) \<times> fsys" where
  "sys_mkdir sv p n fs =
     (case fv_fails sv n of
        Some e \<Rightarrow> (Inl e, fs)
      | None \<Rightarrow>
          (case fs_node fs p of
             None \<Rightarrow> (Inr (), fs\<lparr>fs_node := (fs_node fs)(p := Some (Node (Directory (fv_new_inode sv n))))\<rparr>)
           | Some _ \<Rightarrow> (if fs_is_dir p fs then (Inr (), fs) else (Inl EEXIST, fs))))"

definition sys_stat :: "fill_services \<Rightarrow> string \<Rightarrow> nat \<Rightarrow> fsys \<Rightarrow> (errno + fingerprint) \<times> fsys" where
  "sys_stat sv p n fs =
     (case fv_fails sv n of
        Some e \<Rightarrow> (Inl e, fs)
      | None \<Rightarrow> (case fs_stat p fs of None \<Rightarrow> (Inl ENOENT, fs) | Some st \<Rightarrow> (Inr st, fs)))"

section \<open>Settings\<close>

definition f_runtime :: "fill_services \<Rightarrow> fill_runtime fio" where
  "f_runtime sv = f_ask sv (fv_runtime sv)"

text \<open>\<^verbatim>\<open>_paths\<close> and \<^verbatim>\<open>_cloud_mode\<close>.\<close>

definition f_paths :: "fill_services \<Rightarrow> fill_paths fio" where
  "f_paths sv =
     bind_io (f_runtime sv) (\<lambda>rt. case rt_paths rt of None \<Rightarrow> raise_io NotConfigured | Some p \<Rightarrow> ret p)"

definition cloud_mode :: "fill_services \<Rightarrow> bool fio" where
  "cloud_mode sv = bind_io (f_runtime sv) (\<lambda>rt. ret (fv_mover sv \<and> rt_cloud_move_paths rt \<noteq> None))"

end
