(* ===== verification/Fill_Cloud.thy ===== *)
theory Fill_Cloud
  imports Fill_World
begin

text \<open>
  The move of one CloudDrive file: \<^verbatim>\<open>_run_cloud_move\<close>, \<^verbatim>\<open>_recover_cloud_move\<close> and
  \<^verbatim>\<open>_observe_cloud_move\<close> of \<^verbatim>\<open>fill_actor/service.py\<close> with what they call, the reading of a
  .strm mapping of \<^verbatim>\<open>fill_actor/cloud_moves.py\<close>, and the checks of the local roots. A text
  is the bytes of its UTF-8 form.
\<close>

section \<open>Mappings\<close>

definition MAX_STRM_BYTES :: nat where
  "MAX_STRM_BYTES = 4096"

definition STRM_VIDEO_SUFFIXES :: "string list" where
  "STRM_VIDEO_SUFFIXES = [''.mp4'', ''.mkv'', ''.avi'', ''.wmv'', ''.mov'', ''.flv'', ''.m4v'', ''.ts'', ''.rmvb'']"

text \<open>\<^verbatim>\<open>_absolute_cloud_path\<close>; None is the ValueError.\<close>

definition absolute_cloud_path :: "string \<Rightarrow> string option" where
  "absolute_cloud_path v =
     (if v = [] \<or> CHR 0x00 \<in> set v \<or> contains ''://'' v \<or> CHR 0x5C \<in> set v then None
      else if \<not> is_absolute v \<or> list_ex (\<lambda>n. n = ''..'') (path_names v)
        \<or> path_norm v \<noteq> rev (dropWhile (\<lambda>c. c = slash) (rev v)) then None
      else Some (path_norm v))"

text \<open>\<^verbatim>\<open>from_values\<close> checks the configured paths once.\<close>

definition cloud_paths_of :: "string \<Rightarrow> string list \<Rightarrow> string \<Rightarrow> cloud_paths option" where
  "cloud_paths_of prefix roots move_in =
     (if roots = [] then None
      else case absolute_cloud_path prefix of
             None \<Rightarrow> None
           | Some prefix' \<Rightarrow>
               (if list_ex (\<lambda>r. absolute_cloud_path r = None) roots then None
                else case absolute_cloud_path move_in of
                       None \<Rightarrow> None
                     | Some move_in' \<Rightarrow>
                         Some \<lparr>cp_strm_mount_prefix = prefix', cp_source_api_roots = map (\<lambda>r. the (absolute_cloud_path r)) roots,
                               cp_move_in_api_root = move_in'\<rparr>))"

record strm_target =
  sg_mapping_sha256 :: string
  sg_mounted_path :: string
  sg_api_path :: string

text \<open>
  \<^verbatim>\<open>str.splitlines\<close>: the breaks are those of ASCII, and in UTF-8 the bytes of U+0085, U+2028
  and U+2029. A break at the end begins no further line.
\<close>

fun split_lines :: "string \<Rightarrow> string \<Rightarrow> string list" where
  "split_lines acc [] = (if acc = [] then [] else [rev acc])"
| "split_lines acc (c # s) =
     (if c = CHR 0x0D \<and> take 1 s = [CHR 0x0A] then rev acc # split_lines [] (drop 1 s)
      else if c = CHR 0x0D then rev acc # split_lines [] s
      else if code_of c \<in> {10, 11, 12, 28, 29, 30} then rev acc # split_lines [] s
      else if code_of c = 194 \<and> take 1 s = [CHR 0x85] then rev acc # split_lines [] (drop 1 s)
      else if code_of c = 226 \<and> (take 2 s = [CHR 0x80, CHR 0xA8] \<or> take 2 s = [CHR 0x80, CHR 0xA9])
        then rev acc # split_lines [] (drop 2 s)
      else split_lines (c # acc) s)"

text \<open>
  \<^verbatim>\<open>parse_mapping\<close> on the bytes of the file; None is an \<^verbatim>\<open>InvalidStrmTargetError\<close> or another
  ValueError. Whether the bytes are UTF-8, and whether the line begins or ends with a space
  that is not ASCII, is asked of Python.
\<close>

definition parse_mapping ::
  "(string \<Rightarrow> string) \<Rightarrow> (string \<Rightarrow> bool) \<Rightarrow> cloud_paths \<Rightarrow> nat \<Rightarrow> string option \<Rightarrow> strm_target option" where
  "parse_mapping sha256 utf8_stripped cp source_index payload =
     (if length (cp_source_api_roots cp) \<le> source_index then None
      else case payload of
             None \<Rightarrow> None
           | Some bytes \<Rightarrow>
               (if bytes = [] \<or> MAX_STRM_BYTES < length bytes \<or> CHR 0x00 \<in> set bytes then None
                else if \<not> utf8_stripped bytes then None
                else case split_lines [] bytes of
                       [line] \<Rightarrow>
                         (if line = [] \<or> line \<noteq> strip line then None
                          else case absolute_cloud_path line of
                                 None \<Rightarrow> None
                               | Some mounted \<Rightarrow>
                                   (if lower (path_suffix mounted) \<notin> set STRM_VIDEO_SUFFIXES then None
                                    else case relative_parts mounted (cp_strm_mount_prefix cp) of
                                           None \<Rightarrow> None
                                         | Some names \<Rightarrow>
                                             (let api = path_str ''/'' names
                                              in if relative_parts api (cp_source_api_roots cp ! source_index) = None then None
                                                 else Some \<lparr>sg_mapping_sha256 = sha256 bytes, sg_mounted_path = mounted,
                                                            sg_api_path = api\<rparr>)))
                     | _ \<Rightarrow> None))"

text \<open>\<^verbatim>\<open>destination_directory\<close>.\<close>

definition brand_unsafe :: "string \<Rightarrow> bool" where
  "brand_unsafe b \<longleftrightarrow> b = [] \<or> b = ''.'' \<or> b = ''..'' \<or> slash \<in> set b \<or> CHR 0x5C \<in> set b \<or> CHR 0x00 \<in> set b"

definition destination_directory :: "cloud_paths \<Rightarrow> string \<Rightarrow> string option" where
  "destination_directory cp b = (if brand_unsafe b then None else Some (path_join (cp_move_in_api_root cp) b))"

text \<open>\<^verbatim>\<open>_is_safe_segment\<close>.\<close>

definition is_safe_segment :: "string \<Rightarrow> bool" where
  "is_safe_segment v \<longleftrightarrow> \<not> brand_unsafe v \<and> \<not> is_absolute v \<and> path_name v = v"

section \<open>Local checks\<close>

text \<open>\<^verbatim>\<open>_has_symlink_component\<close>: the names below the root, one by one.\<close>

fun symlink_below :: "fill_services \<Rightarrow> string \<Rightarrow> string list \<Rightarrow> bool fio" where
  "symlink_below sv p [] = ret False"
| "symlink_below sv p (n # ns) =
     bind_io (f_look sv (fs_is_symlink (path_join p n))) (\<lambda>yes.
       if yes then ret True else symlink_below sv (path_join p n) ns)"

definition has_symlink_component :: "fill_services \<Rightarrow> string \<Rightarrow> string \<Rightarrow> bool fio" where
  "has_symlink_component sv p root =
     (case relative_parts p root of
        None \<Rightarrow> ret True
      | Some ns \<Rightarrow>
          bind_io (f_look sv (fs_is_symlink root)) (\<lambda>yes. if yes then ret True else symlink_below sv root ns))"

text \<open>\<^verbatim>\<open>_is_within\<close>: what a path resolves to is asked of the system.\<close>

definition is_within :: "fill_services \<Rightarrow> string \<Rightarrow> string \<Rightarrow> bool fio" where
  "is_within sv p root =
     bind_io (f_ask sv (\<lambda>n. (fv_resolve sv n p, fv_resolve sv n root))) (\<lambda>(p', root').
     bind_io (f_look sv (fs_exists root)) (\<lambda>there.
       ret (there \<and> relative_parts p' root' \<noteq> None)))"

definition f_stat :: "fill_services \<Rightarrow> string \<Rightarrow> fingerprint fio" where
  "f_stat sv p = f_fs sv (sys_stat sv p)"

text \<open>\<^verbatim>\<open>roots_ready\<close>.\<close>

fun all_roots :: "fill_services \<Rightarrow> (string \<Rightarrow> bool fio) \<Rightarrow> string list \<Rightarrow> bool fio" where
  "all_roots sv f [] = ret True"
| "all_roots sv f (r # rs) = bind_io (f r) (\<lambda>ok. if ok then all_roots sv f rs else ret False)"

definition root_is_dir :: "fill_services \<Rightarrow> string \<Rightarrow> bool fio" where
  "root_is_dir sv r =
     bind_io (f_look sv (fs_is_dir r)) (\<lambda>dir.
       if \<not> dir then ret False else bind_io (f_look sv (fs_is_symlink r)) (\<lambda>link. ret (\<not> link)))"

definition has_sentinel :: "fill_services \<Rightarrow> string \<Rightarrow> string \<Rightarrow> bool fio" where
  "has_sentinel sv s r =
     bind_io (f_look sv (fs_is_file (path_join r s))) (\<lambda>there.
       if \<not> there then ret False else bind_io (f_look sv (fs_is_symlink (path_join r s))) (\<lambda>link. ret (\<not> link)))"

definition on_device :: "fill_services \<Rightarrow> int \<Rightarrow> string \<Rightarrow> bool fio" where
  "on_device sv dev r = bind_io (f_stat sv r) (\<lambda>st. ret (fg_device st = dev))"

definition os_error_is :: "'a \<Rightarrow> 'a fio \<Rightarrow> 'a fio" where
  "os_error_is v m = catch_io m (\<lambda>e. case e of OsError _ \<Rightarrow> ret v | _ \<Rightarrow> raise_io e)"

definition roots_ready :: "fill_services \<Rightarrow> bool fio" where
  "roots_ready sv =
     bind_io (f_runtime sv) (\<lambda>rt.
       case rt_paths rt of
         None \<Rightarrow> ret False
       | Some p \<Rightarrow>
           (let roots = fi_actor_brand_path p # fi_additional_brand_paths p @ [fi_move_in_path p]
            in bind_io (all_roots sv (root_is_dir sv) roots) (\<lambda>dirs.
                 if \<not> dirs then ret False
                 else bind_io (case rt_root_sentinel rt of None \<Rightarrow> ret True | Some s \<Rightarrow> all_roots sv (has_sentinel sv s) roots) (\<lambda>marked.
                        if \<not> marked then ret False
                        else os_error_is False
                               (bind_io (f_stat sv (fi_move_in_path p)) (\<lambda>dest.
                                 all_roots sv (on_device sv (fg_device dest)) (fi_additional_brand_paths p)))))))"

section \<open>Asking CloudDrive\<close>

definition CLOUD_VERIFY_ATTEMPTS :: nat where
  "CLOUD_VERIFY_ATTEMPTS = 5"

definition CLOUD_MOVE_OBSERVATION_GRACE :: timedelta where
  "CLOUD_MOVE_OBSERVATION_GRACE = 15 * 60 * 1000000"

definition matches_identity :: "cloud_file \<Rightarrow> cloud_file \<Rightarrow> bool" where
  "matches_identity f g \<longleftrightarrow>
     cf_file_id f = cf_file_id g \<and> cf_name f = cf_name g \<and> cf_size f = cf_size g
     \<and> cf_write_time f = cf_write_time g \<and> cf_hashes f = cf_hashes g"

definition find_cloud_file :: "string \<Rightarrow> cloud_file list option \<Rightarrow> cloud_file option" where
  "find_cloud_file p listing = (case listing of None \<Rightarrow> None | Some fs \<Rightarrow> find (\<lambda>f. cf_path f = p) fs)"

definition list_cloud_directory :: "fill_services \<Rightarrow> string option \<Rightarrow> cloud_file list option fio" where
  "list_cloud_directory sv d =
     (case d of
        None \<Rightarrow> ret None
      | Some dir \<Rightarrow>
          (if \<not> fv_mover sv then ret None
           else catch_io (bind_io (f_query sv (\<lambda>n. fv_list sv n dir)) (\<lambda>fs. ret (Some fs)))
                  (\<lambda>e. if e = RemoteMissing then ret None else raise_io e)))"

definition stat_cloud_file :: "fill_services \<Rightarrow> string option \<Rightarrow> cloud_file option fio" where
  "stat_cloud_file sv p =
     (case p of
        None \<Rightarrow> ret None
      | Some path \<Rightarrow>
          bind_io (list_cloud_directory sv (Some (path_parent path))) (\<lambda>listing. ret (find_cloud_file path listing)))"

text \<open>\<^verbatim>\<open>_cloud_result_base\<close> with the state and the error of the result.\<close>

definition cloud_result :: "candidate_record \<Rightarrow> move_state \<Rightarrow> string option \<Rightarrow> move_result" where
  "cloud_result c state error_code =
     \<lparr>res_candidate_id = cr_candidate_id c, res_video_id = cr_video_id c,
      res_file_name = (case cr_cloud_file c of Some f \<Rightarrow> cf_name f | None \<Rightarrow> path_name (cr_source c)),
      res_state = state, res_error_code = error_code\<rparr>"

definition save_result :: "fill_services \<Rightarrow> string \<Rightarrow> move_result \<Rightarrow> move_result fio" where
  "save_result sv plan_id r = bind_io (f_store sv (mem_save_move_result plan_id r)) (\<lambda>_. ret r)"

text \<open>\<^verbatim>\<open>_cloud_destination_components\<close>.\<close>

definition cloud_destination_components ::
  "fill_services \<Rightarrow> candidate_record \<Rightarrow> (string \<times> string \<times> string) option fio" where
  "cloud_destination_components sv c =
     bind_io (f_runtime sv) (\<lambda>rt. ret
       (case (rt_cloud_move_paths rt, cr_cloud_destination_dir c, fv_brand sv (cr_video_id c)) of
          (Some cp, Some dir, Some brand) \<Rightarrow>
            (if is_safe_segment brand \<and> destination_directory cp brand = Some dir
             then Some (cp_move_in_api_root cp, brand, dir) else None)
        | _ \<Rightarrow> None))"

text \<open>The index of the root in the configured ones; None is \<^verbatim>\<open>index\<close>'s ValueError.\<close>

fun index_of :: "string \<Rightarrow> string list \<Rightarrow> nat option" where
  "index_of x [] = None"
| "index_of x (y # ys) = (if x = y then Some 0 else map_option Suc (index_of x ys))"

text \<open>\<^verbatim>\<open>_validate_cloud_mapping\<close>: None is a mapping that still says what the plan says.\<close>

definition read_mapping :: "fill_services \<Rightarrow> candidate_record \<Rightarrow> strm_target option option fio" where
  "read_mapping sv c =
     os_error_is (Some None)
       (bind_io (f_stat sv (cr_source c)) (\<lambda>st.
        if st \<noteq> cr_fingerprint c then ret None
        else
          bind_io (f_paths sv) (\<lambda>paths.
          case index_of (cr_source_root c) (fi_additional_brand_paths paths) of
            None \<Rightarrow> ret (Some None)
          | Some i \<Rightarrow>
              bind_io (f_runtime sv) (\<lambda>rt.
              case rt_cloud_move_paths rt of
                None \<Rightarrow> raise_io (InvalidRecord ''AttributeError'')
              | Some cp \<Rightarrow>
                  bind_io (f_ask sv (\<lambda>n. fv_read sv n (cr_source c))) (\<lambda>payload.
                  ret (Some (parse_mapping (fv_sha256 sv) (fv_utf8 sv) cp i payload)))))))"

definition validate_cloud_mapping :: "fill_services \<Rightarrow> candidate_record \<Rightarrow> string option fio" where
  "validate_cloud_mapping sv c =
     bind_io (f_runtime sv) (\<lambda>rt.
     if rt_cloud_move_paths rt = None \<or> cr_mapping_sha256 c = None \<or> cr_cloud_source_path c = None
     then ret (Some ''cloud_candidate_incomplete'')
     else
       bind_io (has_symlink_component sv (cr_source c) (cr_source_root c)) (\<lambda>link.
       if link then ret (Some ''source_symlink'')
       else
         bind_io (is_within sv (cr_source c) (cr_source_root c)) (\<lambda>within.
         bind_io (if within then f_look sv (fs_is_file (cr_source c)) else ret False) (\<lambda>there.
         if \<not> there then ret (Some ''source_missing'')
         else
           bind_io (read_mapping sv c) (\<lambda>read.
           case read of
             None \<Rightarrow> ret (Some ''source_changed'')
           | Some None \<Rightarrow> ret (Some ''invalid_strm_target'')
           | Some (Some g) \<Rightarrow>
               (if Some (sg_mapping_sha256 g) \<noteq> cr_mapping_sha256 c \<or> Some (sg_api_path g) \<noteq> cr_cloud_source_path c
                then ret (Some ''strm_target_changed'')
                else
                  bind_io (cloud_destination_components sv c) (\<lambda>dest.
                  ret (if dest = None then Some ''cloud_destination_changed'' else None))))))))"

section \<open>Moving the operation on\<close>

text \<open>A record is checked when it is built.\<close>

definition built_operation :: "cloud_operation \<Rightarrow> cloud_operation fio" where
  "built_operation r = (if operation_valid r then ret r else raise_io (StoreError (ValueError ''invalid CloudDrive operation'')))"

definition save_operation :: "fill_services \<Rightarrow> cloud_operation \<Rightarrow> cloud_operation fio" where
  "save_operation sv r = bind_io (f_store sv (mem_save_cloud_move_operation r)) (\<lambda>_. ret r)"

definition advance_cloud_operation ::
  "fill_services \<Rightarrow> cloud_operation \<Rightarrow> cloud_move_state \<Rightarrow> string option \<Rightarrow> cloud_operation fio" where
  "advance_cloud_operation sv r state error_code =
     bind_io (f_now sv) (\<lambda>now.
     bind_io (built_operation (r\<lparr>op_state := state, op_updated_at := now, op_error_code := error_code\<rparr>)) (save_operation sv))"

definition complete_cloud_move ::
  "fill_services \<Rightarrow> string \<Rightarrow> candidate_record \<Rightarrow> cloud_operation \<Rightarrow> cloud_move_state \<Rightarrow> move_state \<Rightarrow> string option
     \<Rightarrow> move_result fio" where
  "complete_cloud_move sv plan_id c r operation_state state error_code =
     (if op_plan_id r \<noteq> plan_id then raise_io (StoreError (ValueError ''CloudDrive operation plan mismatch''))
      else
        bind_io (f_now sv) (\<lambda>now.
        bind_io (built_operation (r\<lparr>op_state := operation_state, op_updated_at := now,
            op_error_code := (if operation_state = CSUCCEEDED then None else error_code)\<rparr>)) (\<lambda>r'.
        let result = cloud_result c state error_code
        in bind_io (f_store sv (mem_finalize_cloud_move r' result)) (\<lambda>_. ret result))))"

text \<open>The end of an observation that settles nothing.\<close>

definition leave_unknown ::
  "fill_services \<Rightarrow> candidate_record \<Rightarrow> cloud_operation \<Rightarrow> string \<Rightarrow> move_result fio" where
  "leave_unknown sv c r error_code =
     bind_io (if op_state r \<noteq> CUNKNOWN then advance_cloud_operation sv r CUNKNOWN (Some error_code) else ret r) (\<lambda>_.
     ret (cloud_result c MOVE_FAILED (Some ''cloud_move_status_unknown'')))"

text \<open>
  What an observation concludes of what it saw of source and destination: a terminal state
  with the result's state and error, or nothing.
\<close>

definition concludes ::
  "cloud_file \<Rightarrow> move_response option \<Rightarrow> cloud_file option \<Rightarrow> cloud_file option
     \<Rightarrow> (cloud_move_state \<times> move_state \<times> string option) option" where
  "concludes f response source dest =
     (let source_matches = (case source of None \<Rightarrow> False | Some g \<Rightarrow> matches_identity f g);
          dest_matches = (case dest of None \<Rightarrow> False | Some g \<Rightarrow> matches_identity f g)
      in if source = None \<and> dest_matches then Some (CSUCCEEDED, MOVED, None)
         else if source_matches \<and> dest \<noteq> None \<and> \<not> dest_matches
           then Some (CCONFLICT, MOVE_CONFLICT, Some ''cloud_destination_exists'')
         else if source \<noteq> None \<and> \<not> source_matches then Some (CFAILED, STALE, Some ''cloud_source_changed'')
         else if (case response of None \<Rightarrow> False | Some p \<Rightarrow> \<not> mp_success p) \<and> source_matches \<and> dest = None
           then Some (CFAILED, MOVE_FAILED, Some ''cloud_move_rejected'')
         else None)"

definition untouched_source :: "cloud_file \<Rightarrow> cloud_file option \<Rightarrow> cloud_file option \<Rightarrow> bool" where
  "untouched_source f source dest \<longleftrightarrow>
     (case source of None \<Rightarrow> False | Some g \<Rightarrow> matches_identity f g) \<and> dest = None"

definition observe_cloud_move ::
  "fill_services \<Rightarrow> string \<Rightarrow> candidate_record \<Rightarrow> cloud_operation \<Rightarrow> move_response option \<Rightarrow> bool \<Rightarrow> move_result fio" where
  "observe_cloud_move sv plan_id c r response final =
     (case cr_cloud_file c of
        None \<Rightarrow> ret (cloud_result c MOVE_FAILED (Some ''cloud_candidate_incomplete''))
      | Some f \<Rightarrow>
          bind_io
            (catch_io
              (bind_io (stat_cloud_file sv (Some (op_source_path r))) (\<lambda>source.
               bind_io (stat_cloud_file sv (Some (path_join (op_destination_dir r) (cf_name f)))) (\<lambda>dest.
               ret (Some (source, dest)))))
              (\<lambda>_. ret None))
            (\<lambda>seen.
              case seen of
                None \<Rightarrow> leave_unknown sv c r ''cloud_observation_failed''
              | Some (source, dest) \<Rightarrow>
                  (case concludes f response source dest of
                     Some (ost, st, ec) \<Rightarrow> complete_cloud_move sv plan_id c r ost st ec
                   | None \<Rightarrow>
                       bind_io
                         (if final \<and> response = None \<and> untouched_source f source dest
                          then bind_io (f_now sv) (\<lambda>now. ret (CLOUD_MOVE_OBSERVATION_GRACE \<le> now - op_updated_at r))
                          else ret False)
                         (\<lambda>never.
                           if never then complete_cloud_move sv plan_id c r CFAILED MOVE_FAILED (Some ''cloud_move_not_observed'')
                           else if \<not> final then ret (cloud_result c MOVE_FAILED (Some ''cloud_move_verifying''))
                           else leave_unknown sv c r ''cloud_move_status_unknown''))))"

definition terminal_cloud_result :: "candidate_record \<Rightarrow> cloud_operation \<Rightarrow> move_result" where
  "terminal_cloud_result c r =
     (case op_state r of
        CSUCCEEDED \<Rightarrow> cloud_result c MOVED None
      | CCONFLICT \<Rightarrow> cloud_result c MOVE_CONFLICT (op_error_code r)
      | _ \<Rightarrow> cloud_result c MOVE_FAILED (op_error_code r))"

definition recover_cloud_move ::
  "fill_services \<Rightarrow> string \<Rightarrow> candidate_record \<Rightarrow> cloud_operation \<Rightarrow> move_result fio" where
  "recover_cloud_move sv plan_id c r =
     (if cloud_terminal (op_state r)
      then (let result = terminal_cloud_result c r
            in bind_io (f_store sv (mem_finalize_cloud_move r result)) (\<lambda>_. ret result))
      else if op_state r = CPREPARED
        then complete_cloud_move sv plan_id c r CFAILED MOVE_FAILED (Some ''cloud_move_not_submitted'')
      else
        bind_io (if op_state r = CSUBMITTING then advance_cloud_operation sv r CUNKNOWN (Some ''cloud_move_interrupted'')
                 else ret r) (\<lambda>r'.
        observe_cloud_move sv plan_id c r' None True))"

section \<open>One move\<close>

text \<open>\<^verbatim>\<open>except Exception\<close> around two questions, as None.\<close>

definition or_none :: "'a fio \<Rightarrow> 'a option fio" where
  "or_none m = catch_io (bind_io m (\<lambda>a. ret (Some a))) (\<lambda>_. ret None)"

text \<open>The listing of the destination, made first when it is not there.\<close>

definition ensured_listing :: "fill_services \<Rightarrow> string \<Rightarrow> string \<Rightarrow> string option \<Rightarrow> cloud_file list option fio" where
  "ensured_listing sv parent brand dir =
     bind_io (or_none
       (bind_io (f_order sv (EnsureFolder parent brand) (\<lambda>n. fv_ensure sv n parent brand)) (\<lambda>ensured.
        if ensured then list_cloud_directory sv dir else ret None))) (\<lambda>r.
     ret (case r of None \<Rightarrow> None | Some l \<Rightarrow> l))"

text \<open>
  What stands in the way of a move, found out before anything is sent: an answer that ends
  the move, or nothing.
\<close>

definition cloud_preflight :: "fill_services \<Rightarrow> string \<Rightarrow> candidate_record \<Rightarrow> cloud_file \<Rightarrow> move_result option fio" where
  "cloud_preflight sv plan_id c f =
     (let stale = (\<lambda>e. bind_io (save_result sv plan_id (cloud_result c STALE (Some e))) (\<lambda>r. ret (Some r)));
          conflict = bind_io (save_result sv plan_id (cloud_result c MOVE_CONFLICT (Some ''cloud_destination_exists'')))
                       (\<lambda>r. ret (Some r));
          invalid = (\<lambda>e. bind_io (save_result sv plan_id (cloud_result c INVALID_PATH (Some e))) (\<lambda>r. ret (Some r)));
          failed = (\<lambda>e. ret (Some (cloud_result c MOVE_FAILED (Some e))));
          dir = cr_cloud_destination_dir c;
          dest_path = (case dir of None \<Rightarrow> None | Some d \<Rightarrow> Some (path_join d (cf_name f)));
          changed = (\<lambda>s. case s of None \<Rightarrow> True | Some g \<Rightarrow> \<not> matches_identity f g);
          free_listing = (\<lambda>l.
            if (case dest_path of None \<Rightarrow> False | Some p \<Rightarrow> find_cloud_file p (Some l) \<noteq> None) then conflict
            else
              bind_io (or_none
                (bind_io (stat_cloud_file sv (cr_cloud_source_path c)) (\<lambda>source.
                 bind_io (stat_cloud_file sv dest_path) (\<lambda>dest. ret (source, dest))))) (\<lambda>again.
              case again of
                None \<Rightarrow> failed ''cloud_preflight_failed''
              | Some (source, dest) \<Rightarrow>
                  (if changed source then stale ''cloud_source_changed''
                   else if dest \<noteq> None then conflict else ret None)))
      in bind_io (validate_cloud_mapping sv c) (\<lambda>mapping_error.
         case mapping_error of
           Some e \<Rightarrow> stale e
         | None \<Rightarrow>
             bind_io (or_none
               (bind_io (stat_cloud_file sv (cr_cloud_source_path c)) (\<lambda>source.
                bind_io (list_cloud_directory sv dir) (\<lambda>listing. ret (source, listing))))) (\<lambda>seen.
             case seen of
               None \<Rightarrow> failed ''cloud_preflight_failed''
             | Some (None, _) \<Rightarrow> stale ''cloud_source_missing''
             | Some (Some source, listing) \<Rightarrow>
                 (if \<not> matches_identity f source then stale ''cloud_source_changed''
                  else case listing of
                         Some l \<Rightarrow> free_listing l
                       | None \<Rightarrow>
                           bind_io (cloud_destination_components sv c) (\<lambda>dest.
                           case dest of
                             None \<Rightarrow> invalid ''cloud_destination_changed''
                           | Some (parent, brand, _) \<Rightarrow>
                               bind_io (ensured_listing sv parent brand dir) (\<lambda>made.
                               case made of
                                 None \<Rightarrow> invalid ''cloud_destination_missing''
                               | Some l \<Rightarrow> free_listing l))))))"

primrec verify_cloud_move ::
  "fill_services \<Rightarrow> nat \<Rightarrow> string \<Rightarrow> candidate_record \<Rightarrow> cloud_operation \<Rightarrow> move_response \<Rightarrow> move_result fio" where
  "verify_cloud_move sv 0 plan_id c r response = ret (cloud_result c MOVE_FAILED (Some ''cloud_move_status_unknown''))"
| "verify_cloud_move sv (Suc n) plan_id c r response =
     bind_io (observe_cloud_move sv plan_id c r (Some response) (n = 0)) (\<lambda>result.
     if res_error_code result \<noteq> Some ''cloud_move_verifying'' then ret result
     else bind_io (f_ask sv (\<lambda>_. ())) (\<lambda>_. verify_cloud_move sv n plan_id c r response))"

definition is_value_error :: "fill_exn \<Rightarrow> bool" where
  "is_value_error e \<longleftrightarrow> (case e of StoreError (KeyError _ _) \<Rightarrow> False | StoreError _ \<Rightarrow> True | _ \<Rightarrow> False)"

text \<open>The journal is written ahead: prepared, then submitting, and only then is the move sent.\<close>

definition submit_cloud_move ::
  "fill_services \<Rightarrow> string \<Rightarrow> candidate_record \<Rightarrow> string \<Rightarrow> string \<Rightarrow> move_result fio" where
  "submit_cloud_move sv plan_id c source dir =
     bind_io (f_ask sv (fv_token sv)) (\<lambda>token.
     bind_io (f_now sv) (\<lambda>now.
     bind_io (built_operation
       \<lparr>op_plan_id = plan_id, op_candidate_id = cr_candidate_id c, op_attempt_id = token, op_source_path = source,
        op_destination_dir = dir, op_state = CPREPARED, op_updated_at = now, op_error_code = None\<rparr>) (\<lambda>r.
     bind_io (catch_io (bind_io (save_operation sv r) (\<lambda>_. ret True))
       (\<lambda>e. if is_value_error e then ret False else raise_io e)) (\<lambda>saved.
     if \<not> saved then ret (cloud_result c MOVE_FAILED (Some ''cloud_move_in_progress''))
     else
       bind_io (advance_cloud_operation sv r CSUBMITTING None) (\<lambda>r1.
       bind_io (or_none (f_order sv (SentMove r1 source dir) (\<lambda>n. fv_move sv n source dir))) (\<lambda>response.
       case response of
         None \<Rightarrow>
           bind_io (advance_cloud_operation sv r1 CUNKNOWN (Some ''cloud_move_transport_unknown'')) (\<lambda>r2.
           observe_cloud_move sv plan_id c r2 None True)
       | Some response \<Rightarrow>
           bind_io (advance_cloud_operation sv r1 CVERIFYING None) (\<lambda>r2.
           verify_cloud_move sv CLOUD_VERIFY_ATTEMPTS plan_id c r2 response)))))))"

definition run_cloud_move :: "fill_services \<Rightarrow> string \<Rightarrow> candidate_record \<Rightarrow> move_result fio" where
  "run_cloud_move sv plan_id c =
     bind_io (f_runtime sv) (\<lambda>rt.
     if \<not> fv_mover sv \<or> rt_cloud_move_paths rt = None \<or> cr_cloud_file c = None
     then ret (cloud_result c MOVE_FAILED (Some ''cloud_move_not_configured''))
     else
       bind_io (roots_ready sv) (\<lambda>ready.
       if \<not> ready then ret (cloud_result c MOVE_FAILED (Some ''root_unavailable''))
       else
         bind_io (f_ask sv (\<lambda>_. ())) (\<lambda>_.
         bind_io (f_read_store sv (mem_get_move_result plan_id (cr_candidate_id c))) (\<lambda>cached.
         case cached of
           Some r \<Rightarrow> ret r
         | None \<Rightarrow>
             bind_io (f_read_store sv (mem_get_cloud_move_operation plan_id (cr_candidate_id c))) (\<lambda>operation.
             case operation of
               Some r \<Rightarrow> recover_cloud_move sv plan_id c r
             | None \<Rightarrow>
                 bind_io (cloud_preflight sv plan_id c (the (cr_cloud_file c))) (\<lambda>ended.
                 case (ended, cr_cloud_source_path c, cr_cloud_destination_dir c) of
                   (Some r, _, _) \<Rightarrow> ret r
                 | (None, Some source, Some dir) \<Rightarrow> submit_cloud_move sv plan_id c source dir
                 | (None, _, _) \<Rightarrow> raise_io (InvalidRecord ''TypeError'')))))))"

section \<open>Unresolved moves\<close>

text \<open>\<^verbatim>\<open>reconcile_moves\<close> in the mode that moves through CloudDrive.\<close>

fun reconcile_cloud :: "fill_services \<Rightarrow> cloud_operation list \<Rightarrow> move_result list fio" where
  "reconcile_cloud sv [] = ret []"
| "reconcile_cloud sv (r # rs) =
     bind_io (f_read_store sv (mem_get_candidate (op_plan_id r) (op_candidate_id r))) (\<lambda>record.
     case record of
       None \<Rightarrow> reconcile_cloud sv rs
     | Some c \<Rightarrow>
         (if cr_kind c \<noteq> CLOUD_STRM then reconcile_cloud sv rs
          else
            bind_io (f_ask sv (\<lambda>_. ())) (\<lambda>_.
            bind_io (f_read_store sv (mem_get_cloud_move_operation (op_plan_id r) (op_candidate_id r))) (\<lambda>current.
            case current of
              None \<Rightarrow> reconcile_cloud sv rs
            | Some q \<Rightarrow>
                (if cloud_terminal (op_state q) then reconcile_cloud sv rs
                 else
                   bind_io (recover_cloud_move sv (op_plan_id r) c q) (\<lambda>result.
                   bind_io (reconcile_cloud sv rs) (\<lambda>results. ret (result # results))))))))"

definition reconcile_cloud_moves :: "fill_services \<Rightarrow> move_result list fio" where
  "reconcile_cloud_moves sv =
     bind_io (f_read_store sv mem_list_unresolved_cloud_moves) (reconcile_cloud sv)"

end
