(* ===== verification/Fill_Moves.thy ===== *)
theory Fill_Moves
  imports Fill_Cloud
begin

text \<open>
  The moves of local files of \<^verbatim>\<open>fill_actor/service.py\<close>: one file is renamed into the move-in
  tree, or, where the file system refuses a rename that must not replace, linked there and its
  old name put aside into a quarantine name and removed. The journal of the repository is
  written around it, and a later run finishes what a process left behind. Names are flat here:
  that no directory above a name is a symbolic link is what \<^verbatim>\<open>_has_symlink_component\<close> checks.
\<close>

section \<open>What a move looks at\<close>

definition rename_unsupported :: "errno set" where
  "rename_unsupported = {EINVAL, ENOSYS, EOPNOTSUPP}"

definition local_result :: "candidate_record \<Rightarrow> move_state \<Rightarrow> string option \<Rightarrow> move_result" where
  "local_result c state error_code =
     \<lparr>res_candidate_id = cr_candidate_id c, res_video_id = cr_video_id c, res_file_name = path_name (cr_source c),
      res_state = state, res_error_code = error_code\<rparr>"

text \<open>\<^verbatim>\<open>except OSError as exc\<close>, with the error handed on.\<close>

definition tried :: "'a fio \<Rightarrow> (errno + 'a) fio" where
  "tried m = catch_io (bind_io m (\<lambda>a. ret (Inr a))) (\<lambda>e. case e of OsError x \<Rightarrow> ret (Inl x) | _ \<Rightarrow> raise_io e)"

text \<open>\<^verbatim>\<open>_matches_linked_identity\<close>: a new name changes only the change time.\<close>

definition linked_identity :: "fingerprint \<Rightarrow> fingerprint \<Rightarrow> bool" where
  "linked_identity st fg \<longleftrightarrow>
     fg_device st = fg_device fg \<and> fg_inode st = fg_inode fg \<and> fg_size st = fg_size fg \<and> fg_mtime_ns st = fg_mtime_ns fg"

definition matches_if_present :: "fill_services \<Rightarrow> (fingerprint \<Rightarrow> bool) \<Rightarrow> string \<Rightarrow> bool fio" where
  "matches_if_present sv f p =
     os_error_is False
       (bind_io (f_look sv (fs_is_symlink p)) (\<lambda>link.
        if link then ret False else bind_io (f_stat sv p) (\<lambda>st. ret (f st))))"

definition matches_fingerprint :: "fill_services \<Rightarrow> string \<Rightarrow> fingerprint \<Rightarrow> bool fio" where
  "matches_fingerprint sv p fg = matches_if_present sv (\<lambda>st. st = fg) p"

definition matches_linked :: "fill_services \<Rightarrow> string \<Rightarrow> fingerprint \<Rightarrow> bool fio" where
  "matches_linked sv p fg = matches_if_present sv (\<lambda>st. linked_identity st fg) p"

definition same_inode :: "fill_services \<Rightarrow> string \<Rightarrow> string \<Rightarrow> bool fio" where
  "same_inode sv p q =
     os_error_is False
       (bind_io (f_stat sv p) (\<lambda>st. bind_io (f_stat sv q) (\<lambda>st'.
        ret (fg_device st = fg_device st' \<and> fg_inode st = fg_inode st'))))"

definition quarantine_name :: "string \<Rightarrow> string" where
  "quarantine_name digest = ''.embyx-reconcile-'' @ digest"

definition quarantine_path :: "fill_services \<Rightarrow> candidate_record \<Rightarrow> string fio" where
  "quarantine_path sv c =
     bind_io (f_paths sv) (\<lambda>paths.
     ret (path_join (fi_move_in_path paths) (quarantine_name (fv_sha256 sv (cr_candidate_id c)))))"

section \<open>The quarantine\<close>

definition move_to_quarantine :: "fill_services \<Rightarrow> string \<Rightarrow> string \<Rightarrow> unit fio" where
  "move_to_quarantine sv source quarantine =
     bind_io (tried (f_fs sv (sys_rename_no_replace sv source quarantine))) (\<lambda>r.
     case r of
       Inr _ \<Rightarrow> ret ()
     | Inl e \<Rightarrow>
         (if e \<notin> rename_unsupported then raise_io (OsError e)
          else
            bind_io (f_look sv (fs_exists quarantine)) (\<lambda>there.
            if there then raise_io (OsError EEXIST) else f_fs sv (sys_rename sv source quarantine))))"

definition restore_quarantine :: "fill_services \<Rightarrow> string \<Rightarrow> string \<Rightarrow> unit fio" where
  "restore_quarantine sv quarantine dest =
     bind_io (f_look sv (fs_exists dest)) (\<lambda>there.
     if there then
       bind_io (same_inode sv quarantine dest) (\<lambda>same.
       if same then f_fs sv (sys_unlink sv quarantine) else raise_io (OsError EEXIST))
     else
       bind_io (tried (f_fs sv (sys_rename_no_replace sv quarantine dest))) (\<lambda>r.
       case r of
         Inr _ \<Rightarrow> ret ()
       | Inl e \<Rightarrow>
           (if e \<notin> rename_unsupported then raise_io (OsError e)
            else
              bind_io (f_fs sv (sys_link sv quarantine dest)) (\<lambda>_.
              bind_io (same_inode sv quarantine dest) (\<lambda>same.
              if \<not> same then raise_io (OsError EIO) else f_fs sv (sys_unlink sv quarantine))))))"

text \<open>\<^verbatim>\<open>_finish_quarantined_reconcile\<close>.\<close>

definition finish_quarantined :: "fill_services \<Rightarrow> candidate_record \<Rightarrow> string \<Rightarrow> move_result fio" where
  "finish_quarantined sv c quarantine =
     bind_io (matches_linked sv quarantine (cr_fingerprint c)) (\<lambda>quarantine_matches.
     bind_io (matches_linked sv (cr_destination c) (cr_fingerprint c)) (\<lambda>destination_matches.
     if \<not> quarantine_matches then
       (if \<not> destination_matches then ret (local_result c MOVE_FAILED (Some ''reconcile_quarantine_conflict''))
        else
          bind_io (tried (restore_quarantine sv quarantine (cr_source c))) (\<lambda>r.
          case r of
            Inl _ \<Rightarrow> ret (local_result c MOVE_FAILED (Some ''reconcile_quarantine_conflict''))
          | Inr _ \<Rightarrow> ret (local_result c MOVED None)))
     else
       bind_io (if destination_matches then same_inode sv quarantine (cr_destination c) else ret False) (\<lambda>same.
       if same then
         bind_io (tried (f_fs sv (sys_unlink sv quarantine))) (\<lambda>r.
         case r of
           Inl _ \<Rightarrow> ret (local_result c MOVE_FAILED (Some ''reconcile_quarantine_cleanup_failed''))
         | Inr _ \<Rightarrow> ret (local_result c MOVED None))
       else
         bind_io (tried (restore_quarantine sv quarantine (cr_source c))) (\<lambda>r.
         case r of
           Inl _ \<Rightarrow> ret (local_result c MOVE_FAILED (Some ''reconcile_quarantine_conflict''))
         | Inr _ \<Rightarrow> ret (local_result c STALE (Some ''source_changed_during_reconcile''))))))"

section \<open>One move\<close>

definition rollback_unexpected_link :: "fill_services \<Rightarrow> candidate_record \<Rightarrow> string \<Rightarrow> move_result fio" where
  "rollback_unexpected_link sv c quarantine =
     bind_io (tried (move_to_quarantine sv (cr_destination c) quarantine)) (\<lambda>r.
     case r of
       Inl _ \<Rightarrow> ret (local_result c MOVE_FAILED (Some ''move_rollback_failed''))
     | Inr _ \<Rightarrow>
         bind_io (f_look sv (fs_exists (cr_source c))) (\<lambda>there.
         bind_io (if there then same_inode sv quarantine (cr_source c) else ret False) (\<lambda>same.
         if same then
           bind_io (tried (f_fs sv (sys_unlink sv quarantine))) (\<lambda>r.
           case r of
             Inl _ \<Rightarrow> ret (local_result c MOVE_FAILED (Some ''move_rollback_failed''))
           | Inr _ \<Rightarrow> ret (local_result c STALE (Some ''source_changed_during_move'')))
         else
           bind_io (tried (restore_quarantine sv quarantine (cr_destination c))) (\<lambda>r.
           case r of
             Inl _ \<Rightarrow> ret (local_result c MOVE_FAILED (Some ''move_rollback_failed''))
           | Inr _ \<Rightarrow> ret (local_result c MOVE_CONFLICT (Some ''destination_changed_during_move''))))))"

definition link_error :: "errno \<Rightarrow> string" where
  "link_error e =
     (if e = EXDEV then ''cross_device_move'' else if e \<in> {EPERM, EOPNOTSUPP, ENOSYS} then ''move_unsupported''
      else ''move_failed'')"

definition apply_hardlink_fallback :: "fill_services \<Rightarrow> candidate_record \<Rightarrow> move_result fio" where
  "apply_hardlink_fallback sv c =
     bind_io (quarantine_path sv c) (\<lambda>quarantine.
     bind_io (f_look sv (fs_exists quarantine)) (\<lambda>left_over.
     if left_over then ret (local_result c MOVE_FAILED (Some ''move_rollback_failed''))
     else
       bind_io (tried (f_fs sv (sys_link sv (cr_source c) (cr_destination c)))) (\<lambda>r.
       case r of
         Inl e \<Rightarrow>
           ret (if e = EEXIST then local_result c MOVE_CONFLICT (Some ''destination_exists'')
                else local_result c MOVE_FAILED (Some (link_error e)))
       | Inr _ \<Rightarrow>
           bind_io (matches_linked sv (cr_destination c) (cr_fingerprint c)) (\<lambda>destination_matches.
           bind_io (matches_linked sv (cr_source c) (cr_fingerprint c)) (\<lambda>source_matches.
           if \<not> destination_matches then rollback_unexpected_link sv c quarantine
           else
             bind_io (f_look sv (fs_exists (cr_source c))) (\<lambda>there.
             if \<not> there \<or> \<not> source_matches then ret (local_result c MOVED None)
             else
               bind_io (tried (move_to_quarantine sv (cr_source c) quarantine)) (\<lambda>r.
               case r of
                 Inl _ \<Rightarrow> ret (local_result c MOVE_FAILED (Some ''move_rollback_failed''))
               | Inr _ \<Rightarrow> finish_quarantined sv c quarantine)))))))"

definition prepare_destination_parent :: "fill_services \<Rightarrow> string \<Rightarrow> bool fio" where
  "prepare_destination_parent sv dest =
     bind_io (f_paths sv) (\<lambda>paths.
     if path_parent dest = fi_move_in_path paths then ret True
     else
       bind_io (f_paths sv) (\<lambda>paths.
       bind_io (is_within sv (path_parent dest) (fi_move_in_path paths)) (\<lambda>within.
       bind_io (if within then f_paths sv else ret paths) (\<lambda>paths.
       if \<not> within \<or> path_parent (path_parent dest) \<noteq> fi_move_in_path paths then ret False
       else
         bind_io (tried (f_fs sv (sys_mkdir sv (path_parent dest)))) (\<lambda>r.
         case r of
           Inl _ \<Rightarrow> ret False
         | Inr _ \<Rightarrow>
             bind_io (f_look sv (fs_is_dir (path_parent dest))) (\<lambda>dir.
             if \<not> dir then ret False
             else bind_io (f_look sv (fs_is_symlink (path_parent dest))) (\<lambda>link. ret (\<not> link))))))))"

text \<open>What \<^verbatim>\<open>_apply_one\<close> does once nothing stands in the way.\<close>

definition rename_source :: "fill_services \<Rightarrow> candidate_record \<Rightarrow> move_result fio" where
  "rename_source sv c =
     bind_io (tried (f_fs sv (sys_rename_no_replace sv (cr_source c) (cr_destination c)))) (\<lambda>r.
     case r of
       Inl e \<Rightarrow>
         (if e = EEXIST then ret (local_result c MOVE_CONFLICT (Some ''destination_exists''))
          else if e \<in> rename_unsupported then apply_hardlink_fallback sv c
          else ret (local_result c MOVE_FAILED (Some (if e = EXDEV then ''cross_device_move'' else ''move_failed''))))
     | Inr _ \<Rightarrow>
         bind_io (matches_linked sv (cr_destination c) (cr_fingerprint c)) (\<lambda>destination_matches.
         if destination_matches then ret (local_result c MOVED None)
         else
           bind_io (tried (f_fs sv (sys_rename_no_replace sv (cr_destination c) (cr_source c)))) (\<lambda>r.
           case r of
             Inl _ \<Rightarrow> ret (local_result c MOVE_FAILED (Some ''move_rollback_failed''))
           | Inr _ \<Rightarrow> ret (local_result c STALE (Some ''source_changed_during_move'')))))"

text \<open>A check before the move: an answer that ends it, or the next check.\<close>

definition unless :: "bool fio \<Rightarrow> move_result \<Rightarrow> move_result fio \<Rightarrow> move_result fio" where
  "unless m r k = bind_io m (\<lambda>stop. if stop then ret r else k)"

definition not_io :: "bool fio \<Rightarrow> bool fio" where
  "not_io m = bind_io m (\<lambda>b. ret (\<not> b))"

definition in_move_in :: "fill_services \<Rightarrow> (string \<Rightarrow> 'a fio) \<Rightarrow> 'a fio" where
  "in_move_in sv f = bind_io (f_paths sv) (\<lambda>paths. f (fi_move_in_path paths))"

definition outside_roots :: "fill_services \<Rightarrow> candidate_record \<Rightarrow> bool fio" where
  "outside_roots sv c =
     bind_io (is_within sv (cr_source c) (cr_source_root c)) (\<lambda>within.
     if \<not> within then ret True else not_io (in_move_in sv (is_within sv (cr_destination c))))"

definition apply_one :: "fill_services \<Rightarrow> candidate_record \<Rightarrow> move_result fio" where
  "apply_one sv c =
     unless (has_symlink_component sv (cr_source c) (cr_source_root c)) (local_result c INVALID_PATH (Some ''source_symlink''))
    (unless (in_move_in sv (has_symlink_component sv (cr_destination c))) (local_result c INVALID_PATH (Some ''destination_symlink''))
    (unless (not_io (in_move_in sv (\<lambda>root. f_look sv (fs_is_dir root)))) (local_result c INVALID_PATH (Some ''destination_root_missing''))
    (unless (outside_roots sv c) (local_result c INVALID_PATH (Some ''path_outside_root''))
    (unless (not_io (f_look sv (fs_is_file (cr_source c)))) (local_result c STALE (Some ''source_missing''))
    (unless (bind_io (f_stat sv (cr_source c)) (\<lambda>st. ret (st \<noteq> cr_fingerprint c))) (local_result c STALE (Some ''source_changed''))
    (unless (f_look sv (fs_exists (cr_destination c))) (local_result c MOVE_CONFLICT (Some ''destination_exists''))
    (unless (not_io (prepare_destination_parent sv (cr_destination c)))
       (local_result c INVALID_PATH (Some ''destination_parent_unavailable''))
    (unless (in_move_in sv (has_symlink_component sv (cr_destination c))) (local_result c INVALID_PATH (Some ''destination_symlink''))
    (rename_source sv c)))))))))"

section \<open>What a dead process left\<close>

text \<open>What is done by what the names show, with nothing in quarantine.\<close>

definition settle_names ::
  "fill_services \<Rightarrow> candidate_record \<Rightarrow> journal_state \<Rightarrow> string \<Rightarrow> bool \<Rightarrow> bool \<Rightarrow> bool \<Rightarrow> bool \<Rightarrow> bool \<Rightarrow> move_result fio" where
  "settle_names sv c state quarantine source_matches source_matches_linked destination_matches source_exists destination_exists =
     bind_io (if source_matches_linked \<and> destination_matches then same_inode sv (cr_source c) (cr_destination c) else ret False) (\<lambda>same.
     if same then
       bind_io (tried (move_to_quarantine sv (cr_source c) quarantine)) (\<lambda>r.
       case r of
         Inl _ \<Rightarrow> ret (local_result c MOVE_FAILED (Some ''reconcile_quarantine_failed''))
       | Inr _ \<Rightarrow> finish_quarantined sv c quarantine)
     else if destination_matches \<and> (\<not> source_exists \<or> \<not> source_matches_linked) then ret (local_result c MOVED None)
     else if source_matches \<and> \<not> destination_exists \<and> state = JPREPARED then apply_one sv c
     else if state = JPREPARED \<and> destination_exists \<and> \<not> destination_matches then
       (if source_exists then ret (local_result c MOVE_FAILED (Some ''reconcile_rollback_conflict''))
        else
          bind_io (tried (f_fs sv (sys_rename_no_replace sv (cr_destination c) (cr_source c)))) (\<lambda>r.
          case r of
            Inl e \<Rightarrow>
              ret (local_result c MOVE_FAILED
                (Some (if e = EEXIST then ''reconcile_rollback_conflict'' else ''reconcile_rollback_failed'')))
          | Inr _ \<Rightarrow> ret (local_result c STALE (Some ''source_changed_during_move''))))
     else if source_exists \<and> \<not> source_matches_linked then ret (local_result c STALE (Some ''source_changed''))
     else if destination_exists then ret (local_result c MOVE_CONFLICT (Some ''reconcile_destination_conflict''))
     else if state \<in> {LINKED, SOURCE_REMOVED} then ret (local_result c MOVE_FAILED (Some ''reconcile_destination_missing''))
     else ret (local_result c STALE (Some ''source_missing'')))"

definition reconcile_filesystem :: "fill_services \<Rightarrow> candidate_record \<Rightarrow> journal_state \<Rightarrow> move_result fio" where
  "reconcile_filesystem sv c state =
     unless (bind_io (has_symlink_component sv (cr_source c) (cr_source_root c)) (\<lambda>link.
               if link then ret True else in_move_in sv (has_symlink_component sv (cr_destination c))))
       (local_result c INVALID_PATH (Some ''reconcile_symlink''))
    (unless (outside_roots sv c) (local_result c INVALID_PATH (Some ''path_outside_root''))
    (bind_io (matches_fingerprint sv (cr_source c) (cr_fingerprint c)) (\<lambda>source_matches.
     bind_io (matches_linked sv (cr_source c) (cr_fingerprint c)) (\<lambda>source_matches_linked.
     bind_io (matches_linked sv (cr_destination c) (cr_fingerprint c)) (\<lambda>destination_matches.
     bind_io (f_look sv (fs_exists (cr_source c))) (\<lambda>source_exists.
     bind_io (f_look sv (fs_exists (cr_destination c))) (\<lambda>destination_exists.
     bind_io (quarantine_path sv c) (\<lambda>quarantine.
     bind_io (f_look sv (fs_exists quarantine)) (\<lambda>left_over.
     if left_over then finish_quarantined sv c quarantine
     else settle_names sv c state quarantine source_matches source_matches_linked destination_matches source_exists destination_exists)))))))))"

section \<open>The journal\<close>

definition save_journal :: "fill_services \<Rightarrow> string \<Rightarrow> string \<Rightarrow> journal_state \<Rightarrow> unit fio" where
  "save_journal sv plan_id candidate_id state =
     bind_io (f_now sv) (\<lambda>now.
     f_store sv (mem_save_move_journal
       \<lparr>jo_plan_id = plan_id, jo_candidate_id = candidate_id, jo_state = state, jo_updated_at = now\<rparr>))"

definition persist_move_completion ::
  "fill_services \<Rightarrow> string \<Rightarrow> candidate_record \<Rightarrow> move_result \<Rightarrow> journal_state \<Rightarrow> unit fio" where
  "persist_move_completion sv plan_id c result state =
     bind_io
       (if res_state result = MOVED then
          bind_io (if state = JPREPARED then bind_io (save_journal sv plan_id (cr_candidate_id c) LINKED) (\<lambda>_. ret LINKED)
                   else ret state) (\<lambda>state.
          if state = LINKED then save_journal sv plan_id (cr_candidate_id c) SOURCE_REMOVED else ret ())
        else ret ()) (\<lambda>_.
     bind_io (f_store sv (mem_save_move_result plan_id result)) (\<lambda>_.
     save_journal sv plan_id (cr_candidate_id c) RECONCILED))"

definition sentinel_at :: "fill_services \<Rightarrow> (string \<Rightarrow> bool fio) \<Rightarrow> bool fio" where
  "sentinel_at sv f =
     bind_io (f_runtime sv) (\<lambda>rt.
     case rt_root_sentinel rt of None \<Rightarrow> raise_io (InvalidRecord ''TypeError'') | Some name \<Rightarrow> f name)"

text \<open>\<^verbatim>\<open>_candidate_roots_ready\<close>: \<^verbatim>\<open>all_io\<close> is \<^verbatim>\<open>and\<close>, from left to right.\<close>

fun all_io :: "bool fio list \<Rightarrow> bool fio" where
  "all_io [] = ret True"
| "all_io (m # ms) = bind_io m (\<lambda>ok. if ok then all_io ms else ret False)"

definition candidate_roots_ready :: "fill_services \<Rightarrow> candidate_record \<Rightarrow> bool fio" where
  "candidate_roots_ready sv c =
     bind_io (os_error_is None
       (bind_io (f_stat sv (cr_source_root c)) (\<lambda>s. bind_io (in_move_in sv (f_stat sv)) (\<lambda>d. ret (Some (s, d)))))) (\<lambda>stats.
     case stats of
       None \<Rightarrow> ret False
     | Some (s, d) \<Rightarrow>
         all_io
           [f_look sv (fs_is_dir (cr_source_root c)), not_io (f_look sv (fs_is_symlink (cr_source_root c))),
            in_move_in sv (\<lambda>root. f_look sv (fs_is_dir root)), not_io (in_move_in sv (\<lambda>root. f_look sv (fs_is_symlink root))),
            bind_io (f_runtime sv) (\<lambda>rt.
              if rt_root_sentinel rt = None then ret True
              else
                all_io
                  [sentinel_at sv (\<lambda>name. f_look sv (fs_is_file (path_join (cr_source_root c) name))),
                   not_io (sentinel_at sv (\<lambda>name. f_look sv (fs_is_symlink (path_join (cr_source_root c) name)))),
                   in_move_in sv (\<lambda>root. sentinel_at sv (\<lambda>name. f_look sv (fs_is_file (path_join root name)))),
                   not_io (in_move_in sv (\<lambda>root. sentinel_at sv (\<lambda>name. f_look sv (fs_is_symlink (path_join root name)))))]),
            ret (fg_device s = fg_device (cr_fingerprint c)), ret (fg_device d = fg_device (cr_fingerprint c))])"

definition left_open :: "move_result \<Rightarrow> bool" where
  "left_open r \<longleftrightarrow>
     (case res_error_code r of None \<Rightarrow> False | Some e \<Rightarrow> take 21 e = ''reconcile_quarantine_'')"

definition reconcile_candidate :: "fill_services \<Rightarrow> string \<Rightarrow> candidate_record \<Rightarrow> journal_record \<Rightarrow> move_result fio" where
  "reconcile_candidate sv plan_id c journal =
     unless (not_io (candidate_roots_ready sv c)) (local_result c MOVE_FAILED (Some ''roots_unavailable''))
    (bind_io (f_read_store sv (mem_get_move_result plan_id (cr_candidate_id c))) (\<lambda>cached.
     case cached of
       Some r \<Rightarrow> bind_io (save_journal sv plan_id (cr_candidate_id c) RECONCILED) (\<lambda>_. ret r)
     | None \<Rightarrow>
         bind_io (reconcile_filesystem sv c (jo_state journal)) (\<lambda>result.
         unless (if res_state result \<noteq> MOVED then not_io (candidate_roots_ready sv c) else ret False) result
           (if res_error_code result \<in> {Some ''reconcile_rollback_conflict'', Some ''reconcile_rollback_failed''} \<or> left_open result
            then ret result
            else bind_io (persist_move_completion sv plan_id c result (jo_state journal)) (\<lambda>_. ret result)))))"

text \<open>The first attempt at a move: prepared in the journal, done, and concluded there.\<close>

definition first_move :: "fill_services \<Rightarrow> string \<Rightarrow> candidate_record \<Rightarrow> move_result fio" where
  "first_move sv plan_id c =
     bind_io (save_journal sv plan_id (cr_candidate_id c) JPREPARED) (\<lambda>_.
     bind_io (apply_one sv c) (\<lambda>result.
     unless (if res_state result \<noteq> MOVED then not_io (candidate_roots_ready sv c) else ret False) result
       (if res_error_code result = Some ''move_rollback_failed'' \<or> left_open result then ret result
        else bind_io (persist_move_completion sv plan_id c result JPREPARED) (\<lambda>_. ret result))))"

definition run_local_move :: "fill_services \<Rightarrow> string \<Rightarrow> candidate_record \<Rightarrow> move_result fio" where
  "run_local_move sv plan_id c =
     unless (not_io (candidate_roots_ready sv c)) (local_result c MOVE_FAILED (Some ''roots_unavailable''))
       (catch_io
         (bind_io (f_ask sv (\<lambda>_. ())) (\<lambda>_.
          unless (not_io (candidate_roots_ready sv c)) (local_result c MOVE_FAILED (Some ''roots_unavailable''))
         (bind_io (f_read_store sv (mem_get_move_result plan_id (cr_candidate_id c))) (\<lambda>cached.
          case cached of
            Some r \<Rightarrow> ret r
          | None \<Rightarrow>
              bind_io (f_read_store sv (mem_get_move_journal plan_id (cr_candidate_id c))) (\<lambda>journal.
              case journal of
                Some j \<Rightarrow>
                  (if jo_state j \<noteq> RECONCILED then reconcile_candidate sv plan_id c j else first_move sv plan_id c)
              | None \<Rightarrow> first_move sv plan_id c)))))
         (\<lambda>_. ret (local_result c MOVE_FAILED (Some ''move_failed''))))"

definition run_move :: "fill_services \<Rightarrow> string \<Rightarrow> candidate_record \<Rightarrow> move_result fio" where
  "run_move sv plan_id c =
     (case cr_kind c of CLOUD_STRM \<Rightarrow> run_cloud_move sv plan_id c | LOCAL_FILE \<Rightarrow> run_local_move sv plan_id c)"

section \<open>Moving what a plan found\<close>

definition stored_plan :: "fill_services \<Rightarrow> string \<Rightarrow> string option \<Rightarrow> plan_record fio" where
  "stored_plan sv plan_id revision =
     bind_io (f_read_store sv (mem_get_plan plan_id)) (\<lambda>stored.
     case stored of
       None \<Rightarrow> raise_io (UnknownPlan plan_id)
     | Some p \<Rightarrow>
         (if revision \<noteq> None \<and> revision \<noteq> Some (fp_revision (pl_public p)) then raise_io (RevisionMismatch (the revision))
          else
            bind_io (f_runtime sv) (\<lambda>rt.
            if pl_config_version p \<noteq> rt_version rt then raise_io LegacyPlan
            else
              bind_io (f_now sv) (\<lambda>now.
              if fp_expires_at (pl_public p) \<le> now then raise_io (ExpiredPlan plan_id) else ret p))))"

definition apply_state_of :: "move_result list \<Rightarrow> apply_state" where
  "apply_state_of rs =
     (if list_all (\<lambda>r. res_state r = MOVED) rs then APPLY_SUCCEEDED
      else if list_ex (\<lambda>r. res_state r = MOVED) rs then APPLY_PARTIAL_FAILED else APPLY_FAILED)"

definition candidate_file_name :: "candidate_record \<Rightarrow> string" where
  "candidate_file_name c =
     (case cr_cloud_file c of
        Some f \<Rightarrow> path_name (map (\<lambda>x. if x = CHR 0x5C then slash else x) (cf_name f))
      | None \<Rightarrow> path_name (cr_source c))"

text \<open>The candidates selected, one by one; \<open>n\<close> are done of \<open>whole\<close>.\<close>

definition report_progress :: "fill_services \<Rightarrow> bool \<Rightarrow> nat \<Rightarrow> nat \<Rightarrow> candidate_record list \<Rightarrow> unit fio" where
  "report_progress sv wanted n whole rest =
     (if \<not> wanted then ret ()
      else f_order sv (Reported n whole (case rest of [] \<Rightarrow> None | c # _ \<Rightarrow> Some (candidate_file_name c)))
             (\<lambda>t. case fv_progress sv t of None \<Rightarrow> Inr () | Some e \<Rightarrow> Inl e))"

fun apply_selected ::
  "fill_services \<Rightarrow> bool \<Rightarrow> string \<Rightarrow> nat \<Rightarrow> nat \<Rightarrow> candidate_record list \<Rightarrow> move_result list fio" where
  "apply_selected sv wanted plan_id n whole [] = ret []"
| "apply_selected sv wanted plan_id n whole (c # cs) =
     bind_io (f_ask sv (fv_stopped sv)) (\<lambda>stop.
     if stop then ret []
     else
       bind_io (f_read_store sv (mem_get_move_result plan_id (cr_candidate_id c))) (\<lambda>cached.
       bind_io (case cached of Some r \<Rightarrow> ret r | None \<Rightarrow> run_move sv plan_id c) (\<lambda>result.
       bind_io (report_progress sv wanted (Suc n) whole cs) (\<lambda>_.
       bind_io (apply_selected sv wanted plan_id (Suc n) whole cs) (\<lambda>results.
       ret (result # results))))))"

definition apply_moves ::
  "fill_services \<Rightarrow> bool \<Rightarrow> string \<Rightarrow> string \<Rightarrow> string list \<Rightarrow> apply_result fio" where
  "apply_moves sv wanted plan_id revision ids =
     bind_io (f_runtime sv) (\<lambda>rt.
     if \<not> rt_apply_enabled rt then raise_io MoveDisabled
     else
       bind_io (f_ask sv (\<lambda>_. ())) (\<lambda>_.
       bind_io (stored_plan sv plan_id (Some revision)) (\<lambda>stored.
       let selected = dedup ids;
           found = map_of (rev (map (\<lambda>c. (cr_candidate_id c, c)) (pl_candidates stored)))
       in (case filter (\<lambda>k. found k = None) selected of
             k # _ \<Rightarrow> raise_io (UnknownCandidate k)
           | [] \<Rightarrow>
               (let cs = map (\<lambda>k. the (found k)) selected
                in bind_io (cloud_mode sv) (\<lambda>cloud.
                   if cloud \<and> list_ex (\<lambda>c. cr_kind c \<noteq> CLOUD_STRM) cs then raise_io LegacyPlan
                   else
                     bind_io (report_progress sv wanted 0 (length cs) cs) (\<lambda>_.
                     bind_io (apply_selected sv wanted plan_id 0 (length cs) cs) (\<lambda>results.
                     bind_io
                       (if list_ex (\<lambda>r. res_state r = MOVED) results
                        then bind_io (or_none (f_order sv NotifiedMoved
                               (\<lambda>t. case fv_notify sv t of None \<Rightarrow> Inr () | Some e \<Rightarrow> Inl e))) (\<lambda>_. ret ())
                        else ret ()) (\<lambda>_.
                     ret \<lparr>ar_plan_id = plan_id, ar_revision = revision, ar_state = apply_state_of results,
                          ar_results = results\<rparr>)))))))))"

section \<open>Unresolved moves\<close>

fun reconcile_local :: "fill_services \<Rightarrow> journal_record list \<Rightarrow> move_result list fio" where
  "reconcile_local sv [] = ret []"
| "reconcile_local sv (j # js) =
     bind_io (f_read_store sv (mem_get_candidate (jo_plan_id j) (jo_candidate_id j))) (\<lambda>record.
     case record of
       None \<Rightarrow> reconcile_local sv js
     | Some c \<Rightarrow>
         bind_io (f_ask sv (\<lambda>_. ())) (\<lambda>_.
         bind_io (f_read_store sv (mem_get_move_journal (jo_plan_id j) (jo_candidate_id j))) (\<lambda>current.
         case current of
           None \<Rightarrow> reconcile_local sv js
         | Some q \<Rightarrow>
             (if jo_state q = RECONCILED then reconcile_local sv js
              else
                bind_io (reconcile_candidate sv (jo_plan_id j) c q) (\<lambda>result.
                bind_io (reconcile_local sv js) (\<lambda>results. ret (result # results)))))))"

definition reconcile_moves :: "fill_services \<Rightarrow> move_result list fio" where
  "reconcile_moves sv =
     bind_io (f_runtime sv) (\<lambda>rt.
     if \<not> rt_apply_enabled rt then ret []
     else
       bind_io (roots_ready sv) (\<lambda>ready.
       if \<not> ready then ret []
       else
         bind_io (cloud_mode sv) (\<lambda>cloud.
         if cloud then reconcile_cloud_moves sv
         else bind_io (f_read_store sv mem_list_unreconciled_moves) (reconcile_local sv))))"

end
