(* ===== verification/Fill_Course.thy ===== *)
theory Fill_Course
  imports Fill_Cloud Fill_Storage
begin

text \<open>
  A move is sent to CloudDrive at most once: the journal is written ahead of it, an operation
  that was sent never goes back to prepared, and no run sends anything for an operation that
  is already there. It holds whatever CloudDrive answers, whichever calls the others make in
  between, and wherever the process dies.
\<close>

section \<open>The journal under any call\<close>

text \<open>What the journal says once a move was sent for the attempt.\<close>

definition sent_course :: "string \<times> string \<Rightarrow> string \<Rightarrow> memory \<Rightarrow> bool" where
  "sent_course key attempt m \<longleftrightarrow>
     (case map_of (me_operations m) key of
        Some q \<Rightarrow> op_attempt_id q = attempt \<and> op_state q \<noteq> CPREPARED
      | None \<Rightarrow> map_of (me_plans m) (fst key) = None)"

fun resaves :: "string \<Rightarrow> fill_call \<Rightarrow> bool" where
  "resaves k (Save_Plan p) = (fp_plan_id (pl_public p) = k)"
| "resaves k _ = False"

lemma map_of_keep:
  "fst key \<noteq> plan_id \<Longrightarrow> map_of (keep_candidates plan_id ids d) key = map_of d key"
  by (induction d) (auto simp: keep_candidates_def)

lemma map_of_drop_key: "map_of (filter (\<lambda>(key, _). fst key \<noteq> k) d) key = (if fst key = k then None else map_of d key)"
  by (induction d) auto

lemma drop_plan_fields:
  "me_plans (snd (drop_plan k m)) = AList.delete k (me_plans m)"
  "me_operations (snd (drop_plan k m)) = filter (\<lambda>(key, _). fst key \<noteq> k) (me_operations m)"
  unfolding drop_plan_def delete_plan_dependents_def Let_def by (simp_all split: sum.split)

lemma drop_plan_course:
  assumes "sent_course key a m"
  shows "sent_course key a (snd (drop_plan k m))"
  using assms by (auto simp: sent_course_def drop_plan_fields map_of_drop_key delete_conv' split: option.splits)

lemma drop_plans_course: "sent_course key a m \<Longrightarrow> sent_course key a (snd (drop_plans ks m))"
proof (induction ks arbitrary: m)
  case Nil
  then show ?case by simp
next
  case (Cons k ks)
  obtain r m' where r: "drop_plan k m = (r, m')" by fastforce
  then have "sent_course key a m'" using drop_plan_course [OF Cons.prems, of k] by simp
  with Cons.IH [of m'] r show ?case by (cases r) simp_all
qed

lemma transitions_not_back: "s \<noteq> CPREPARED \<Longrightarrow> CPREPARED \<notin> set (cloud_transitions (Some s))"
  by (cases s) simp_all

lemma locked_cases:
  "(\<exists>e. save_operation_locked r m = (Inl e, m))
   \<or> save_operation_locked r m = (Inr (), m\<lparr>me_operations := AList.update (operation_id r) r (me_operations m)\<rparr>)
     \<and> map_of (me_plans m) (op_plan_id r) \<noteq> None
     \<and> op_state r \<in> set (cloud_transitions (map_option op_state (map_of (me_operations m) (operation_id r))))
     \<and> (\<forall>q. map_of (me_operations m) (operation_id r) = Some q \<longrightarrow> op_attempt_id q = op_attempt_id r)"
proof (cases "mem_get_candidate (op_plan_id r) (op_candidate_id r) m")
  case None
  then show ?thesis by (simp add: save_operation_locked_def require_candidate_def)
next
  case (Some c)
  then have "map_of (me_plans m) (op_plan_id r) \<noteq> None" by (auto simp: mem_get_candidate_def split: option.splits)
  with Some show ?thesis
    by (cases "map_of (me_operations m) (operation_id r)")
      (simp_all add: save_operation_locked_def require_candidate_def validate_cloud_move_transition_def Let_def operation_id_def)
qed

lemma locked_course:
  assumes "sent_course key a m"
  shows "sent_course key a (snd (save_operation_locked r m))"
  using locked_cases [of r m]
proof
  assume "\<exists>e. save_operation_locked r m = (Inl e, m)"
  with assms show ?thesis by auto
next
  assume saved: "save_operation_locked r m = (Inr (), m\<lparr>me_operations := AList.update (operation_id r) r (me_operations m)\<rparr>)
     \<and> map_of (me_plans m) (op_plan_id r) \<noteq> None
     \<and> op_state r \<in> set (cloud_transitions (map_option op_state (map_of (me_operations m) (operation_id r))))
     \<and> (\<forall>q. map_of (me_operations m) (operation_id r) = Some q \<longrightarrow> op_attempt_id q = op_attempt_id r)"
  then have new: "snd (save_operation_locked r m) = m\<lparr>me_operations := AList.update (operation_id r) r (me_operations m)\<rparr>"
    by simp
  have plan: "map_of (me_plans m) (op_plan_id r) \<noteq> None" using saved by (elim conjE)
  have edge: "op_state r \<in> set (cloud_transitions (map_option op_state (map_of (me_operations m) (operation_id r))))"
    using saved by (elim conjE)
  have same: "\<forall>q. map_of (me_operations m) (operation_id r) = Some q \<longrightarrow> op_attempt_id q = op_attempt_id r"
    using saved by (elim conjE)
  show ?thesis
  proof (cases "key = operation_id r")
    case False
    with assms show ?thesis unfolding new by (simp add: sent_course_def update_conv' cong: option.case_cong)
  next
    case True
    show ?thesis
    proof (cases "map_of (me_operations m) (operation_id r)")
      case None
      with assms plan show ?thesis unfolding True by (simp add: sent_course_def operation_id_def)
    next
      case (Some q)
      then have "op_attempt_id q = a" and "op_state q \<noteq> CPREPARED"
        using assms unfolding True by (simp_all add: sent_course_def)
      moreover have "op_state r \<in> set (cloud_transitions (Some (op_state q)))" using edge unfolding Some by simp
      moreover have "op_attempt_id q = op_attempt_id r" using same Some by simp
      ultimately have "op_attempt_id r = a" and "op_state r \<noteq> CPREPARED"
        using transitions_not_back [of "op_state q"] by metis+
      then show ?thesis unfolding new True by (simp add: sent_course_def update_conv')
    qed
  qed
qed

lemma result_fields:
  "me_operations (snd (mem_save_move_result k r m)) = me_operations m" "me_plans (snd (mem_save_move_result k r m)) = me_plans m"
  by (simp_all add: mem_save_move_result_def put_result_def split: sum.split)

lemma save_operation_course: "sent_course key a m \<Longrightarrow> sent_course key a (snd (mem_save_cloud_move_operation r m))"
  by (simp add: mem_save_cloud_move_operation_def locked_course)

lemma finalize_course:
  assumes "sent_course key a m"
  shows "sent_course key a (snd (mem_finalize_cloud_move r result m))"
proof (cases "snd (mem_finalize_cloud_move r result m) = m")
  case True
  with assms show ?thesis by simp
next
  case False
  have "sent_course key a (put_result k c res m') = sent_course key a m'" for k c res m'
    by (simp add: sent_course_def put_result_def split: option.split)
  with False locked_course [OF assms, of r] show ?thesis
    by (auto simp: mem_finalize_cloud_move_def split: sum.splits prod.splits if_splits)
qed

lemma course_same:
  assumes "me_operations m' = me_operations m" and "me_plans m' = me_plans m" and "sent_course key a m"
  shows "sent_course key a m'"
  using assms by (simp add: sent_course_def split: option.splits)

text \<open>The calls on jobs and on local moves leave plans and operations alone.\<close>

lemma mem_enqueue_job_frame: "me_operations (snd (mem_enqueue_job j n m)) = me_operations m" "me_plans (snd (mem_enqueue_job j n m)) = me_plans m"
  by (simp_all add: mem_enqueue_job_def mem_save_job_def)

lemma mem_enqueue_apply_job_frame: "me_operations (snd (mem_enqueue_apply_job ap n m)) = me_operations m" "me_plans (snd (mem_enqueue_apply_job ap n m)) = me_plans m"
  by (simp_all add: mem_enqueue_apply_job_def mem_save_job_def split: option.split sum.split)

lemma mem_claim_next_job_frame: "me_operations (snd (mem_claim_next_job w now lease m)) = me_operations m" "me_plans (snd (mem_claim_next_job w now lease m)) = me_plans m"
  by (simp_all add: mem_claim_next_job_def Let_def split: list.split)

lemma mem_renew_owned_job_lease_frame: "me_operations (snd (mem_renew_owned_job_lease k w now lease m)) = me_operations m" "me_plans (snd (mem_renew_owned_job_lease k w now lease m)) = me_plans m"
  by (simp_all add: mem_renew_owned_job_lease_def split: option.split)

lemma mem_update_owned_job_progress_frame: "me_operations (snd (mem_update_owned_job_progress k w p now m)) = me_operations m" "me_plans (snd (mem_update_owned_job_progress k w p now m)) = me_plans m"
  by (simp_all add: mem_update_owned_job_progress_def split: option.split)

lemma mem_finish_owned_job_frame: "me_operations (snd (mem_finish_owned_job k w st ec now p res m)) = me_operations m" "me_plans (snd (mem_finish_owned_job k w st ec now p res m)) = me_plans m"
  by (simp_all add: mem_finish_owned_job_def Let_def split: option.split sum.split)

lemma mem_cancel_job_frame: "me_operations (snd (mem_cancel_job k now m)) = me_operations m" "me_plans (snd (mem_cancel_job k now m)) = me_plans m"
  by (simp_all add: mem_cancel_job_def Let_def split: option.split)

lemma mem_fail_expired_jobs_frame: "me_operations (snd (mem_fail_expired_jobs now code m)) = me_operations m" "me_plans (snd (mem_fail_expired_jobs now code m)) = me_plans m"
  by (simp_all add: mem_fail_expired_jobs_def Let_def)

lemma mem_save_move_journal_frame: "me_operations (snd (mem_save_move_journal jr m)) = me_operations m" "me_plans (snd (mem_save_move_journal jr m)) = me_plans m"
  by (simp_all add: mem_save_move_journal_def Let_def split: option.split sum.split)

lemmas job_calls_frame = mem_enqueue_job_frame mem_enqueue_apply_job_frame mem_claim_next_job_frame mem_renew_owned_job_lease_frame
  mem_update_owned_job_progress_frame mem_finish_owned_job_frame mem_cancel_job_frame
  mem_fail_expired_jobs_frame mem_save_move_journal_frame

lemma call_keeps_course:
  assumes "sent_course key a m" and "\<not> resaves (fst key) call"
  shows "sent_course key a (snd (memory_call call m))"
proof (cases call)
  case (Save_Plan p)
  with assms show ?thesis
    by (auto simp: sent_course_def mem_save_plan_def Let_def map_of_keep update_conv' split: option.splits)
next
  case (Delete_Plan k)
  with assms drop_plan_course [OF assms(1), of k] show ?thesis
    by (auto simp: mem_delete_plan_def split: prod.splits sum.splits)
next
  case (Purge_Expired_Plans now)
  with drop_plans_course [OF assms(1), of "mem_expired_plans now m"] show ?thesis
    by (auto simp: mem_purge_expired_plans_def Let_def split: prod.splits sum.splits)
next
  case (Save_Cloud_Move_Operation r)
  with assms show ?thesis by (simp add: save_operation_course)
next
  case (Finalize_Cloud_Move r result)
  with assms show ?thesis by (simp add: finalize_course)
next
  case (Save_Move_Result k r)
  show ?thesis by (rule course_same [OF _ _ assms(1)]) (simp_all add: Save_Move_Result result_fields)
qed ((rule course_same [OF _ _ assms(1)], simp_all add: job_calls_frame mem_save_job_def)+)

lemma calls_keep_course:
  "sent_course key a m \<Longrightarrow> list_all (\<lambda>call. \<not> resaves (fst key) call) cs \<Longrightarrow> sent_course key a (snd (run_calls memory_call cs m))"
proof (induction cs arbitrary: m)
  case (Cons c cs)
  then show ?case by (simp add: Let_def case_prod_beta call_keeps_course)
qed simp

section \<open>The journal under a run\<close>

definition sent_for :: "string \<times> string \<Rightarrow> fill_effect \<Rightarrow> bool" where
  "sent_for key e \<longleftrightarrow> (case e of SentMove r _ _ \<Rightarrow> operation_id r = key | _ \<Rightarrow> False)"

definition sent :: "string \<times> string \<Rightarrow> fworld \<Rightarrow> fill_effect list" where
  "sent key w = filter (sent_for key) (fw_log w)"

definition sent_once :: "string \<times> string \<Rightarrow> fworld \<Rightarrow> bool" where
  "sent_once key w \<longleftrightarrow>
     sent key w = [] \<or> (\<exists>r a b. sent key w = [SentMove r a b] \<and> sent_course key (op_attempt_id r) (fw_store w))"

definition once_kept :: "string \<times> string \<Rightarrow> fworld \<Rightarrow> fworld \<Rightarrow> bool" where
  "once_kept key w w' \<longleftrightarrow> (sent_once key w \<longrightarrow> sent_once key w')"

text \<open>Nobody else saves the plan anew.\<close>

definition no_resave :: "string \<Rightarrow> fill_services \<Rightarrow> bool" where
  "no_resave k sv \<longleftrightarrow> (\<forall>n. list_all (\<lambda>call. \<not> resaves k call) (fv_others sv n))"

interpretation oc: io_relation "once_kept key" for key
  by unfold_locales (auto simp: once_kept_def)

lemma alive_keeps: "oc.keeps key m \<Longrightarrow> oc.keeps key (f_alive sv m)"
  by (auto simp: oc.keeps_def f_alive_def once_kept_def)

lemma ask_keeps: "oc.keeps key (f_ask sv q)"
  unfolding f_ask_def by (rule alive_keeps) (simp add: oc.keeps_def once_kept_def sent_once_def sent_def)

lemma value_keeps: "oc.keeps key (f_value r)"
  by (simp add: f_value_def oc.keeps_ret oc.keeps_raise split: sum.split)

lemma query_keeps: "oc.keeps key (f_query sv q)"
  unfolding f_query_def by (intro oc.keeps_bind ask_keeps value_keeps)

lemma fs_keeps: "oc.keeps key (f_fs sv f)"
  unfolding f_fs_def
  by (rule alive_keeps) (auto simp: oc.keeps_def once_kept_def sent_once_def sent_def split: prod.split sum.split)

lemma store_keeps:
  assumes "no_resave (fst key) sv" and "\<And>a m. sent_course key a m \<Longrightarrow> sent_course key a (snd (f m))"
  shows "oc.keeps key (f_store sv f)"
  unfolding f_store_def
proof (rule alive_keeps)
  have others: "sent_course key a (others_called sv w)" if "sent_course key a (fw_store w)" for a w
    unfolding others_called_def using that assms(1) by (intro calls_keep_course) (simp_all add: no_resave_def)
  show "oc.keeps key (\<lambda>w. case f (others_called sv w) of
      (Inl e, m) \<Rightarrow> (Raised (StoreError e), w\<lparr>fw_store := m, fw_tick := Suc (fw_tick w)\<rparr>)
    | (Inr a, m) \<Rightarrow> (Value a, w\<lparr>fw_store := m, fw_tick := Suc (fw_tick w)\<rparr>))"
    using assms(2) others
    by (fastforce simp: oc.keeps_def once_kept_def sent_once_def sent_def split: prod.split sum.split)
qed

lemma read_store_keeps: "no_resave (fst key) sv \<Longrightarrow> oc.keeps key (f_read_store sv f)"
  unfolding f_read_store_def by (rule store_keeps) simp_all

lemma order_keeps:
  assumes "\<not> sent_for key e"
  shows "oc.keeps key (f_order sv e q)"
proof -
  have "oc.keeps key (f_log e)"
    using assms by (simp add: oc.keeps_def f_log_def once_kept_def sent_once_def sent_def)
  then show ?thesis unfolding f_order_def by (intro alive_keeps oc.keeps_bind query_keeps) 
qed

lemmas course_flow = oc.keeps_ret oc.keeps_raise oc.keeps_bind oc.keeps_catch oc.keeps_if oc.keeps_option oc.keeps_prod
  oc.keeps_let ask_keeps value_keeps query_keeps fs_keeps

lemma look_keeps: "oc.keeps key (f_look sv f)"
  unfolding f_look_def by (rule fs_keeps)

lemma stat_keeps: "oc.keeps key (f_stat sv p)"
  unfolding f_stat_def by (rule fs_keeps)

lemma now_keeps: "oc.keeps key (f_now sv)"
  unfolding f_now_def by (rule ask_keeps)

lemma runtime_keeps: "oc.keeps key (f_runtime sv)"
  unfolding f_runtime_def by (rule ask_keeps)

lemma paths_keeps: "oc.keeps key (f_paths sv)"
  unfolding f_paths_def by (intro course_flow runtime_keeps)

lemma os_error_keeps: "oc.keeps key m \<Longrightarrow> oc.keeps key (os_error_is v m)"
  unfolding os_error_is_def by (rule oc.keeps_catch) (auto simp: oc.keeps_ret oc.keeps_raise split: fill_exn.split)

lemma or_none_keeps: "oc.keeps key m \<Longrightarrow> oc.keeps key (or_none m)"
  unfolding or_none_def by (intro course_flow)

lemmas probe_flow = course_flow look_keeps stat_keeps now_keeps runtime_keeps paths_keeps os_error_keeps or_none_keeps

lemma symlink_below_keeps: "oc.keeps key (symlink_below sv p ns)"
  by (induction ns arbitrary: p) (simp_all only: symlink_below.simps, (intro probe_flow | simp)+)

lemma has_symlink_keeps: "oc.keeps key (has_symlink_component sv p root)"
  unfolding has_symlink_component_def by (intro probe_flow symlink_below_keeps)

lemma is_within_keeps: "oc.keeps key (is_within sv p root)"
  unfolding is_within_def by (intro probe_flow)

lemma all_roots_keeps: "(\<And>r. oc.keeps key (f r)) \<Longrightarrow> oc.keeps key (all_roots sv f rs)"
  by (induction rs) (simp_all only: all_roots.simps, (intro probe_flow | simp)+)

lemma roots_ready_keeps: "oc.keeps key (roots_ready sv)"
  unfolding roots_ready_def root_is_dir_def has_sentinel_def on_device_def
  by (intro probe_flow all_roots_keeps)

lemma list_cloud_keeps: "oc.keeps key (list_cloud_directory sv d)"
  unfolding list_cloud_directory_def by (intro probe_flow)

lemma stat_cloud_keeps: "oc.keeps key (stat_cloud_file sv p)"
  unfolding stat_cloud_file_def by (intro probe_flow list_cloud_keeps)

lemma destination_keeps: "oc.keeps key (cloud_destination_components sv c)"
  unfolding cloud_destination_components_def by (intro probe_flow)

lemma read_mapping_keeps: "oc.keeps key (read_mapping sv c)"
  unfolding read_mapping_def by (intro probe_flow)

lemma validate_keeps: "oc.keeps key (validate_cloud_mapping sv c)"
  unfolding validate_cloud_mapping_def
  by (intro probe_flow has_symlink_keeps is_within_keeps read_mapping_keeps destination_keeps)

lemma built_keeps: "oc.keeps key (built_operation r)"
  unfolding built_operation_def by (intro probe_flow)

lemma ensured_keeps: "oc.keeps key (ensured_listing sv parent brand dir)"
proof -
  have "\<not> sent_for key (EnsureFolder parent brand)" by (simp add: sent_for_def)
  then show ?thesis unfolding ensured_listing_def by (intro probe_flow list_cloud_keeps order_keeps)
qed

lemmas cloud_flow = probe_flow has_symlink_keeps is_within_keeps roots_ready_keeps list_cloud_keeps stat_cloud_keeps
  destination_keeps validate_keeps built_keeps ensured_keeps

text \<open>The writes of a run, none of which sends anything.\<close>

lemma save_result_keeps:
  assumes "no_resave (fst key) sv"
  shows "oc.keeps key (save_result sv k r)"
proof -
  have "sent_course key a (snd (mem_save_move_result k r m))" if "sent_course key a m" for a m
    by (rule course_same [OF _ _ that]) (simp_all add: result_fields)
  with assms show ?thesis unfolding save_result_def by (intro cloud_flow store_keeps)
qed

lemma save_operation_keeps: "no_resave (fst key) sv \<Longrightarrow> oc.keeps key (save_operation sv r)"
  unfolding save_operation_def by (intro cloud_flow store_keeps save_operation_course)

lemma advance_keeps: "no_resave (fst key) sv \<Longrightarrow> oc.keeps key (advance_cloud_operation sv r s ec)"
  unfolding advance_cloud_operation_def by (intro cloud_flow save_operation_keeps)

lemma complete_keeps: "no_resave (fst key) sv \<Longrightarrow> oc.keeps key (complete_cloud_move sv k c r ost st ec)"
  unfolding complete_cloud_move_def by (intro cloud_flow store_keeps finalize_course)

lemma leave_unknown_keeps: "no_resave (fst key) sv \<Longrightarrow> oc.keeps key (leave_unknown sv c r ec)"
  unfolding leave_unknown_def by (intro cloud_flow advance_keeps)

lemma observe_keeps: "no_resave (fst key) sv \<Longrightarrow> oc.keeps key (observe_cloud_move sv k c r response final)"
  unfolding observe_cloud_move_def by (intro cloud_flow complete_keeps leave_unknown_keeps)

lemma recover_keeps: "no_resave (fst key) sv \<Longrightarrow> oc.keeps key (recover_cloud_move sv k c r)"
  unfolding recover_cloud_move_def
  by (intro cloud_flow store_keeps finalize_course complete_keeps advance_keeps observe_keeps)

lemma preflight_keeps: "no_resave (fst key) sv \<Longrightarrow> oc.keeps key (cloud_preflight sv k c f)"
  unfolding cloud_preflight_def Let_def by (intro cloud_flow save_result_keeps)

lemma verify_keeps: "no_resave (fst key) sv \<Longrightarrow> oc.keeps key (verify_cloud_move sv n k c r response)"
  by (induction n) (simp_all only: verify_cloud_move.simps, (intro cloud_flow observe_keeps | simp)+)

lemma reconcile_cloud_keeps: "no_resave (fst key) sv \<Longrightarrow> oc.keeps key (reconcile_cloud sv rs)"
  by (induction rs) (simp_all only: reconcile_cloud.simps, (intro cloud_flow read_store_keeps recover_keeps | simp)+)

lemma reconcile_keeps: "no_resave (fst key) sv \<Longrightarrow> oc.keeps key (reconcile_cloud_moves sv)"
  unfolding reconcile_cloud_moves_def by (intro cloud_flow read_store_keeps reconcile_cloud_keeps)

section \<open>Sending\<close>

lemma or_none_world: "snd (or_none m w) = snd (m w)"
  by (cases "m w"; cases "fst (m w)") (auto simp: or_none_def catch_io_def bind_io_def ret_def)

lemma order_world:
  "fw_store (snd (f_order sv e q w)) = fw_store w"
  "fw_log (snd (f_order sv e q w)) = fw_log w \<or> fw_log (snd (f_order sv e q w)) = fw_log w @ [e]"
proof -
  have handed: "snd (f_value r w') = w'" for r w'
    by (cases r) (simp_all add: f_value_def raise_io_def ret_def)
  show "fw_store (snd (f_order sv e q w)) = fw_store w"
    and "fw_log (snd (f_order sv e q w)) = fw_log w \<or> fw_log (snd (f_order sv e q w)) = fw_log w @ [e]"
    by (simp_all add: f_order_def f_alive_def f_log_def f_query_def f_ask_def bind_io_def handed)
qed

lemma send_keeps:
  assumes "sent_once key w \<Longrightarrow> key = operation_id r \<Longrightarrow>
    sent key w = [] \<and> map_of (me_operations (fw_store w)) key = Some r \<and> op_state r \<noteq> CPREPARED"
  shows "once_kept key w (snd (f_order sv (SentMove r a b) q w))"
  unfolding once_kept_def
proof
  assume once: "sent_once key w"
  let ?w = "snd (f_order sv (SentMove r a b) q w)"
  note world = order_world [of sv "SentMove r a b" q w]
  show "sent_once key ?w"
  proof (cases "fw_log ?w = fw_log w \<or> operation_id r \<noteq> key")
    case True
    then have "sent key ?w = sent key w" using world(2) by (auto simp: sent_def sent_for_def)
    with once world(1) show ?thesis by (simp add: sent_once_def)
  next
    case False
    with assms [OF once] have pre: "sent key w = []" "map_of (me_operations (fw_store w)) key = Some r" "op_state r \<noteq> CPREPARED"
      by auto
    from False world(2) have "sent key ?w = sent key w @ [SentMove r a b]" by (auto simp: sent_def sent_for_def)
    moreover have "sent_course key (op_attempt_id r) (fw_store ?w)" using pre(2,3) world(1) by (simp add: sent_course_def)
    ultimately show ?thesis using pre(1) by (simp add: sent_once_def)
  qed
qed

lemma f_store_Value:
  assumes "f_store sv f w = (Value a, w')"
  shows "f (others_called sv w) = (Inr a, fw_store w')" and "fw_log w' = fw_log w" and "fw_fs w' = fw_fs w"
    and "fw_tick w' = Suc (fw_tick w)"
proof -
  have alive: "fv_alive sv (fw_tick w)" using assms by (simp add: f_store_def f_alive_def split: if_splits)
  obtain x m where x: "f (others_called sv w) = (x, m)" by fastforce
  have "x = Inr a \<and> w' = w\<lparr>fw_store := m, fw_tick := Suc (fw_tick w)\<rparr>"
    using assms alive x by (cases x) (simp_all add: f_store_def f_alive_def)
  with x show "f (others_called sv w) = (Inr a, fw_store w')" and "fw_log w' = fw_log w" and "fw_fs w' = fw_fs w"
    and "fw_tick w' = Suc (fw_tick w)" by simp_all
qed

lemma save_operation_world:
  assumes "save_operation sv r w = (Value r', w')"
  shows "r' = r" and "map_of (me_operations (fw_store w')) (operation_id r) = Some r" and "fw_log w' = fw_log w"
proof -
  let ?m = "others_called sv w"
  obtain u w1 where u: "f_store sv (mem_save_cloud_move_operation r) w = (Value u, w1)" and "(ret r :: cloud_operation fio) w1 = (Value r', w')"
    using assms unfolding save_operation_def bind_io_Value_iff by blast
  then have r': "r' = r" and "w1 = w'" by (simp_all add: ret_def)
  with u have store: "f_store sv (mem_save_cloud_move_operation r) w = (Value u, w')" by simp
  have saved: "mem_save_cloud_move_operation r ?m = (Inr (), fw_store w')" and log: "fw_log w' = fw_log w"
    using f_store_Value [OF store] by simp_all
  show "r' = r" by (rule r')
  show "fw_log w' = fw_log w" by (rule log)
  have "save_operation_locked r ?m = (Inr (), fw_store w')"
    using saved by (simp add: mem_save_cloud_move_operation_def split: if_splits)
  with locked_cases [of r ?m] have "fw_store w' = ?m\<lparr>me_operations := AList.update (operation_id r) r (me_operations ?m)\<rparr>"
    by (elim disjE exE conjE) simp_all
  then show "map_of (me_operations (fw_store w')) (operation_id r) = Some r" by (simp add: update_conv')
qed

lemma advance_world:
  assumes "advance_cloud_operation sv r s ec w = (Value r', w')"
  shows "operation_id r' = operation_id r" and "op_attempt_id r' = op_attempt_id r" and "op_state r' = s"
    and "map_of (me_operations (fw_store w')) (operation_id r) = Some r'" and "fw_log w' = fw_log w"
proof -
  obtain now w1 where now: "f_now sv w = (Value now, w1)"
      and rest: "bind_io (built_operation (r\<lparr>op_state := s, op_updated_at := now, op_error_code := ec\<rparr>)) (save_operation sv) w1 = (Value r', w')"
    using assms unfolding advance_cloud_operation_def bind_io_Value_iff [of "f_now sv"] by blast
  let ?r = "r\<lparr>op_state := s, op_updated_at := now, op_error_code := ec\<rparr>"
  from rest have save: "save_operation sv ?r w1 = (Value r', w')"
    by (cases "operation_valid ?r") (simp_all add: bind_io_def built_operation_def ret_def raise_io_def)
  note saved = save_operation_world [OF save]
  have "fw_log w1 = fw_log w" using now by (auto simp: f_now_def f_ask_def f_alive_def split: if_splits)
  with saved(3) show "fw_log w' = fw_log w" by simp
  have id: "operation_id ?r = operation_id r" by (simp add: operation_id_def)
  show "operation_id r' = operation_id r" "op_attempt_id r' = op_attempt_id r" "op_state r' = s"
    using saved(1) id by simp_all
  show "map_of (me_operations (fw_store w')) (operation_id r) = Some r'" using saved(1,2) id by simp
qed

lemma prepared_unsent:
  assumes "sent_once key w" and "map_of (me_operations (fw_store w)) key = Some r" and "op_state r = CPREPARED"
  shows "sent key w = []"
  using assms by (auto simp: sent_once_def sent_course_def)

lemma save_flag:
  assumes "catch_io (bind_io (save_operation sv r) (\<lambda>_. ret True)) (\<lambda>e. if is_value_error e then ret False else raise_io e) w
      = (Value saved, w')" and saved
  shows "map_of (me_operations (fw_store w')) (operation_id r) = Some r" and "fw_log w' = fw_log w"
proof -
  obtain x w1 where x: "save_operation sv r w = (x, w1)" by fastforce
  have "x = Value (case x of Value a \<Rightarrow> a | _ \<Rightarrow> r) \<and> w1 = w'"
    using assms x by (cases x) (auto simp: catch_io_def bind_io_def ret_def raise_io_def split: if_splits)
  then have "save_operation sv r w = (Value (case x of Value a \<Rightarrow> a | _ \<Rightarrow> r), w')" using x by simp
  from save_operation_world [OF this]
  show "map_of (me_operations (fw_store w')) (operation_id r) = Some r" and "fw_log w' = fw_log w" by simp_all
qed

lemma bind_once:
  assumes "sent_once key (snd (m w))" and "\<And>a w'. m w = (Value a, w') \<Longrightarrow> sent_once key w' \<Longrightarrow> sent_once key (snd (f a w'))"
  shows "sent_once key (snd (bind_io m f w))"
proof -
  obtain r w' where r: "m w = (r, w')" by fastforce
  then show ?thesis using assms by (cases r) (simp_all add: bind_io_def)
qed

lemma kept_once: "oc.keeps key m \<Longrightarrow> sent_once key w \<Longrightarrow> sent_once key (snd (m w))"
  by (simp add: oc.keeps_def once_kept_def)

lemma submit_keeps:
  assumes "no_resave (fst key) sv"
  shows "oc.keeps key (submit_cloud_move sv k c source dir)"
proof -
  note writes = advance_keeps [OF assms] observe_keeps [OF assms] verify_keeps [OF assms] save_operation_keeps [OF assms]
  have "sent_once key (snd (submit_cloud_move sv k c source dir w))" if once: "sent_once key w" for w
    unfolding submit_cloud_move_def
  proof (rule bind_once, rule kept_once [OF ask_keeps once], rule bind_once, erule kept_once [OF now_keeps],
      rule bind_once, erule kept_once [OF built_keeps])
    fix token now r wa wb wc
    assume built: "built_operation
       \<lparr>op_plan_id = k, op_candidate_id = cr_candidate_id c, op_attempt_id = token, op_source_path = source,
        op_destination_dir = dir, op_state = CPREPARED, op_updated_at = now, op_error_code = None\<rparr> wb = (Value r, wc)"
      and once: "sent_once key wc"
    from built have state: "op_state r = CPREPARED"
      by (auto simp: built_operation_def ret_def raise_io_def split: if_splits)
    let ?save = "catch_io (bind_io (save_operation sv r) (\<lambda>_. ret True)) (\<lambda>e. if is_value_error e then ret False else raise_io e)"
    show "sent_once key (snd (bind_io ?save (\<lambda>saved.
     if \<not> saved then ret (cloud_result c MOVE_FAILED (Some ''cloud_move_in_progress''))
     else
       bind_io (advance_cloud_operation sv r CSUBMITTING None) (\<lambda>r1.
       bind_io (or_none (f_order sv (SentMove r1 source dir) (\<lambda>n. fv_move sv n source dir))) (\<lambda>response.
       case response of
         None \<Rightarrow>
           bind_io (advance_cloud_operation sv r1 CUNKNOWN (Some ''cloud_move_transport_unknown'')) (\<lambda>r2.
           observe_cloud_move sv k c r2 None True)
       | Some response \<Rightarrow>
           bind_io (advance_cloud_operation sv r1 CVERIFYING None) (\<lambda>r2.
           verify_cloud_move sv CLOUD_VERIFY_ATTEMPTS k c r2 response)))) wc))"
    proof (rule bind_once)
      show "sent_once key (snd (?save wc))"
        by (rule kept_once [OF _ once]) (intro cloud_flow writes)
    next
      fix saved wd
      assume save: "?save wc = (Value saved, wd)" and once_d: "sent_once key wd"
      show "sent_once key (snd ((if \<not> saved then ret (cloud_result c MOVE_FAILED (Some ''cloud_move_in_progress''))
     else
       bind_io (advance_cloud_operation sv r CSUBMITTING None) (\<lambda>r1.
       bind_io (or_none (f_order sv (SentMove r1 source dir) (\<lambda>n. fv_move sv n source dir))) (\<lambda>response.
       case response of
         None \<Rightarrow>
           bind_io (advance_cloud_operation sv r1 CUNKNOWN (Some ''cloud_move_transport_unknown'')) (\<lambda>r2.
           observe_cloud_move sv k c r2 None True)
       | Some response \<Rightarrow>
           bind_io (advance_cloud_operation sv r1 CVERIFYING None) (\<lambda>r2.
           verify_cloud_move sv CLOUD_VERIFY_ATTEMPTS k c r2 response)))) wd))"
      proof (cases saved)
        case False
        with once_d show ?thesis by (simp add: ret_def)
      next
        case True
        have stored: "map_of (me_operations (fw_store wd)) (operation_id r) = Some r"
          using save_flag [OF save True] by simp
        have "sent_once key (snd (bind_io (advance_cloud_operation sv r CSUBMITTING None) (\<lambda>r1.
            bind_io (or_none (f_order sv (SentMove r1 source dir) (\<lambda>n. fv_move sv n source dir))) (\<lambda>response.
            case response of
              None \<Rightarrow>
                bind_io (advance_cloud_operation sv r1 CUNKNOWN (Some ''cloud_move_transport_unknown'')) (\<lambda>r2.
                observe_cloud_move sv k c r2 None True)
            | Some response \<Rightarrow>
                bind_io (advance_cloud_operation sv r1 CVERIFYING None) (\<lambda>r2.
                verify_cloud_move sv CLOUD_VERIFY_ATTEMPTS k c r2 response))) wd))"
        proof (rule bind_once, rule kept_once [OF writes(1) once_d], rule bind_once)
          fix r1 we
          assume advance: "advance_cloud_operation sv r CSUBMITTING None wd = (Value r1, we)" and once_e: "sent_once key we"
          note a = advance_world [OF advance]
          show "sent_once key (snd (or_none (f_order sv (SentMove r1 source dir) (\<lambda>n. fv_move sv n source dir)) we))"
            unfolding or_none_world
          proof (rule send_keeps [unfolded once_kept_def, rule_format, OF _ once_e])
            assume key: "key = operation_id r1"
            then have "sent key wd = []"
              using once_d stored state a(1) prepared_unsent [of key wd r] by simp
            then show "sent key we = [] \<and> map_of (me_operations (fw_store we)) key = Some r1 \<and> op_state r1 \<noteq> CPREPARED"
              using key a by (simp add: sent_def)
          qed
        next
          fix r1 we response wf
          assume "sent_once key wf"
          then show "sent_once key (snd ((case response of
              None \<Rightarrow>
                bind_io (advance_cloud_operation sv r1 CUNKNOWN (Some ''cloud_move_transport_unknown'')) (\<lambda>r2.
                observe_cloud_move sv k c r2 None True)
            | Some response \<Rightarrow>
                bind_io (advance_cloud_operation sv r1 CVERIFYING None) (\<lambda>r2.
                verify_cloud_move sv CLOUD_VERIFY_ATTEMPTS k c r2 response)) wf))"
            by (rule kept_once [rotated]) (intro cloud_flow writes)
        qed
        with True show ?thesis by simp
      qed
    qed
  qed
  then show ?thesis by (simp add: oc.keeps_def once_kept_def)
qed

lemma run_cloud_keeps:
  assumes "no_resave (fst key) sv"
  shows "oc.keeps key (run_cloud_move sv k c)"
  unfolding run_cloud_move_def
  by (intro cloud_flow read_store_keeps recover_keeps preflight_keeps submit_keeps assms)

section \<open>Any history of runs\<close>

text \<open>
  What processes do with the same repository over time: a move is run, or the unresolved ones
  are gone through. Each run has its own process, which may die in it.
\<close>

datatype move_action = Run_Move string candidate_record | Reconcile_Moves

fun move_action_in :: "fill_services \<Rightarrow> move_action \<Rightarrow> fworld \<Rightarrow> fworld" where
  "move_action_in sv (Run_Move k c) w = snd (run_cloud_move sv k c w)"
| "move_action_in sv Reconcile_Moves w = snd (reconcile_cloud_moves sv w)"

fun move_history :: "(fill_services \<times> move_action) list \<Rightarrow> fworld \<Rightarrow> fworld" where
  "move_history [] w = w"
| "move_history ((sv, a) # h) w = move_history h (move_action_in sv a w)"

lemma history_once:
  "sent_once key w \<Longrightarrow> list_all (\<lambda>(sv, a). no_resave (fst key) sv) h \<Longrightarrow> sent_once key (move_history h w)"
proof (induction h arbitrary: w)
  case (Cons e h)
  obtain sv a where e: "e = (sv, a)" by fastforce
  with Cons.prems(2) have sv: "no_resave (fst key) sv" by simp
  have "sent_once key (move_action_in sv a w)"
    using kept_once [OF run_cloud_keeps [OF sv] Cons.prems(1)] kept_once [OF reconcile_keeps [OF sv] Cons.prems(1)]
    by (cases a) simp_all
  with Cons e show ?case by simp
qed simp

section \<open>A run that dies after sending\<close>

definition demo_cloud_file :: cloud_file where
  "demo_cloud_file = \<lparr>cf_path = ''/c/A-1.mp4'', cf_file_id = ''f'', cf_name = ''A-1.mp4'', cf_size = 1, cf_write_time = 1, cf_hashes = []\<rparr>"

definition demo_moved :: candidate_record where
  "demo_moved = (demo_candidate ''c'')\<lparr>cr_cloud_source_path := Some ''/c/A-1.mp4'', cr_cloud_destination_dir := Some ''/e/A'',
     cr_cloud_file := Some demo_cloud_file\<rparr>"

definition demo_fs :: fsys where
  "demo_fs = \<lparr>fs_node = (\<lambda>p. if p \<in> {''/a'', ''/s'', ''/m''} then Some (Node (Directory (1, 9)))
      else if p = ''/s/A-1.strm'' then Some (Node (Regular (1, 2))) else None),
     fs_attr = (\<lambda>_. \<lparr>fa_size = 3, fa_mtime_ns = 4, fa_ctime_ns = 5\<rparr>)\<rparr>"

definition demo_runtime :: fill_runtime where
  "demo_runtime = \<lparr>rt_version = 1, rt_paths = Some \<lparr>fi_actor_brand_path = ''/a'', fi_additional_brand_paths = [''/s''], fi_move_in_path = ''/m''\<rparr>,
     rt_root_sentinel = None, rt_move_in_by_brand = True, rt_apply_enabled = True,
     rt_cloud_move_paths = Some \<lparr>cp_strm_mount_prefix = ''/mnt'', cp_source_api_roots = [''/c''], cp_move_in_api_root = ''/e''\<rparr>\<rparr>"

definition demo_fill :: "nat \<Rightarrow> nat \<Rightarrow> fill_services" where
  "demo_fill sent_at dies_at =
     \<lparr>fv_alive = (\<lambda>n. n < dies_at), fv_others = (\<lambda>_. []), fv_files = (\<lambda>_ fs. fs), fv_clock = int, fv_token = (\<lambda>_. ''t''),
      fv_runtime = (\<lambda>_. demo_runtime), fv_mover = True,
      fv_list = (\<lambda>n d. if d = ''/c'' then Inr (if n \<le> sent_at then [demo_cloud_file] else [])
          else if d = ''/e/A'' then Inr (if n \<le> sent_at then [] else [demo_cloud_file\<lparr>cf_path := ''/e/A/A-1.mp4''\<rparr>]) else Inl RemoteMissing),
      fv_ensure = (\<lambda>_ _ _. Inr True), fv_move = (\<lambda>_ _ _. Inr \<lparr>mp_success = True, mp_error_message = None, mp_result_paths = []\<rparr>),
      fv_brand = (\<lambda>_. Some ''A''), fv_sha256 = (\<lambda>_. replicate 64 CHR ''0''), fv_utf8 = (\<lambda>_. True), fv_resolve = (\<lambda>_ p. p),
      fv_read = (\<lambda>_ _. Some ''/mnt/c/A-1.mp4''), fv_fails = (\<lambda>_. None), fv_noreplace = None, fv_ctime = (\<lambda>_. 5), fv_new_inode = (\<lambda>n. (1, 100 + int n)),
      fv_progress = (\<lambda>_. None), fv_stopped = (\<lambda>_. False), fv_notify = (\<lambda>_. None)\<rparr>"

definition demo_moves :: fworld where
  "demo_moves = \<lparr>fw_store = mem_save_plan \<lparr>pl_public = demo_public [''c''], pl_candidates = [demo_moved], pl_config_version = 1\<rparr> empty_memory,
     fw_fs = demo_fs, fw_tick = 0, fw_log = []\<rparr>"

text \<open>A process dies right after sending, the next goes through the unresolved moves, a third runs it again.\<close>

definition demo_history :: "(fill_services \<times> move_action) list" where
  "demo_history = [(demo_fill 33 34, Run_Move ''p'' demo_moved), (demo_fill 33 1000, Reconcile_Moves),
     (demo_fill 33 1000, Run_Move ''p'' demo_moved)]"

text \<open>
  C5: a move is sent to CloudDrive at most once, and not at all while the journal has it only
  as prepared. It holds of any sequence of runs and reconciliations by processes that may each
  die at any await, whatever CloudDrive answers and the settings become, and whatever the other
  replicas and requests call on the repository in between, as long as no one saves the plan
  anew under its id.
\<close>

theorem move_sent_once:
  assumes "sent key w = []" and "list_all (\<lambda>(sv, a). no_resave (fst key) sv) h"
  shows "length (sent key (move_history h w)) \<le> 1
    \<and> (\<forall>r. map_of (me_operations (fw_store (move_history h w))) key = Some r \<and> op_state r = CPREPARED
         \<longrightarrow> sent key (move_history h w) = [])"
proof -
  have once: "sent_once key (move_history h w)" using assms by (intro history_once) (simp_all add: sent_once_def)
  then have "length (sent key (move_history h w)) \<le> 1" unfolding sent_once_def by (elim disjE exE conjE) simp_all
  then show ?thesis using prepared_unsent [OF once] by blast
qed

theorem move_sent_once_witness:
  "length (sent (''p'', ''c'') (move_history demo_history demo_moves)) \<le> 1
   \<and> length (sent (''p'', ''c'') (snd (run_cloud_move (demo_fill 33 34) ''p'' demo_moved demo_moves))) = 1"
proof
  have "sent (''p'', ''c'') demo_moves = []" by (simp add: sent_def demo_moves_def)
  moreover have "list_all (\<lambda>(sv, a). no_resave (fst (''p'', ''c'')) sv) demo_history"
    by (simp add: demo_history_def no_resave_def demo_fill_def)
  ultimately show "length (sent (''p'', ''c'') (move_history demo_history demo_moves)) \<le> 1"
    using move_sent_once [of "(''p'', ''c'')" demo_moves demo_history] by blast
  show "length (sent (''p'', ''c'') (snd (run_cloud_move (demo_fill 33 34) ''p'' demo_moved demo_moves))) = 1" by code_simp
qed

end
