(* ===== verification/Fill_Files.thy ===== *)
theory Fill_Files
  imports Fill_Moves Fill_Course
begin

text \<open>
  No local file is lost: whatever fails, wherever the process dies and whatever other
  processes add meanwhile, an inode that had a name keeps one.
\<close>

section \<open>Names\<close>

definition named :: "inode \<Rightarrow> fsys \<Rightarrow> bool" where
  "named i fs \<longleftrightarrow> (\<exists>p e. fs_node fs p = Some (Node e) \<and> entry_inode e = i)"

text \<open>The names put aside: nobody else uses them.\<close>

definition is_quarantine :: "string \<Rightarrow> bool" where
  "is_quarantine p \<longleftrightarrow> contains ''.embyx-reconcile-'' p"

text \<open>What other processes do: they add files and directories, under other names.\<close>

definition adds :: "fsys \<Rightarrow> fsys \<Rightarrow> bool" where
  "adds fs fs' \<longleftrightarrow>
     (\<forall>p. fs_node fs' p = fs_node fs p
        \<or> fs_node fs p = None \<and> \<not> is_quarantine p \<and> (\<exists>e. fs_node fs' p = Some (Node e)))"

definition only_adds :: "fill_services \<Rightarrow> bool" where
  "only_adds sv \<longleftrightarrow> (\<forall>n fs. adds fs (fv_files sv n fs))"

text \<open>The names a move touches are no symbolic links.\<close>

definition plain :: "string set \<Rightarrow> fsys \<Rightarrow> bool" where
  "plain P fs \<longleftrightarrow> (\<forall>p x. p \<in> P \<or> is_quarantine p \<longrightarrow> fs_node fs p \<noteq> Some (Symlink x))"

definition files_kept :: "string set \<Rightarrow> fworld \<Rightarrow> fworld \<Rightarrow> bool" where
  "files_kept P w w' \<longleftrightarrow>
     (plain P (fw_fs w) \<longrightarrow> plain P (fw_fs w') \<and> (\<forall>i. named i (fw_fs w) \<longrightarrow> named i (fw_fs w')))"

text \<open>The names of a candidate are touched ones, and no quarantine.\<close>

definition movable :: "string set \<Rightarrow> candidate_record \<Rightarrow> bool" where
  "movable P c \<longleftrightarrow>
     cr_source c \<in> P \<and> cr_destination c \<in> P \<and> \<not> is_quarantine (cr_source c) \<and> \<not> is_quarantine (cr_destination c)"

lemma split_slash_prefix:
  "slash \<notin> set n \<Longrightarrow> \<exists>x xs. split_slash acc (n @ s) = (rev acc @ n @ x) # xs"
proof (induction n arbitrary: acc)
  case Nil
  show ?case
  proof (induction s arbitrary: acc)
    case (Cons c s)
    from Cons [of "c # acc"] show ?case by auto
  qed simp
next
  case (Cons c n)
  then show ?case using Cons.IH [of "c # acc"] by auto
qed

lemma contains_append: "contains p s \<Longrightarrow> contains p (r @ s)"
  by (induction r) auto

lemma starts_contains: "starts_with p s \<Longrightarrow> contains p s"
  by (cases s) (auto simp: starts_with_def)

lemma starts_with_append: "starts_with p (p @ s)"
  by (simp add: starts_with_def)

lemma join_slash_append: "ns \<noteq> [] \<Longrightarrow> \<exists>r. join_slash (ms @ ns) = r @ join_slash ns"
proof (induction ms rule: join_slash.induct)
  case (2 n)
  then show ?case by (cases ns) auto
next
  case (3 n m ms)
  then obtain r where r: "join_slash ((m # ms) @ ns) = r @ join_slash ns" by blast
  have "join_slash ((n # m # ms) @ ns) = (n @ slash # r) @ join_slash ns" using r by simp
  then show ?case by blast
qed auto

lemma join_slash_starts: "\<exists>s. join_slash ((n @ x) # ns) = n @ s"
  by (cases ns) auto

lemma quarantine_is: "is_quarantine (path_join root (quarantine_name d))"
proof -
  let ?n = "''.embyx-reconcile-''"
  obtain x xs where split: "split_slash [] (?n @ d) = (?n @ x) # xs"
    using split_slash_prefix [of ?n "[]" d] by auto
  have names: "path_names (?n @ d) = (?n @ x) # filter (\<lambda>c. c \<noteq> [] \<and> c \<noteq> ''.'') xs"
    unfolding path_names_def split by simp
  obtain r where r: "join_slash (path_names root @ path_names (?n @ d)) = r @ join_slash (path_names (?n @ d))"
    using join_slash_append [of "path_names (?n @ d)" "path_names root"] names by auto
  obtain s where s: "join_slash (path_names (?n @ d)) = ?n @ s"
    unfolding names using join_slash_starts [of ?n x] by blast
  have relative: "\<not> is_absolute (quarantine_name d)"
    by (simp add: is_absolute_def path_root_def quarantine_name_def)
  have some: "path_names root @ path_names (?n @ d) \<noteq> []" using names by simp
  have "path_join root (quarantine_name d) = path_str (path_root root) (path_names root @ path_names (?n @ d))"
    unfolding path_join_def quarantine_name_def [symmetric] using relative by (simp only: if_False)
  also have "\<dots> = (path_root root @ r) @ (?n @ s)" unfolding path_str_def r s using some by (simp only: append_assoc if_False simp_thms)
  finally have join: "path_join root (quarantine_name d) = (path_root root @ r) @ (?n @ s)" .
  show ?thesis
    unfolding is_quarantine_def join by (intro contains_append starts_contains starts_with_append)
qed

section \<open>Files under any statement\<close>

interpretation fk: io_relation "files_kept P" for P
  by unfold_locales (auto simp: files_kept_def)

lemma fk_alive: "fk.keeps P m \<Longrightarrow> fk.keeps P (f_alive sv m)"
  by (auto simp: fk.keeps_def f_alive_def files_kept_def)

lemma fk_still: "(\<And>w. fw_fs (snd (m w)) = fw_fs w) \<Longrightarrow> fk.keeps P m"
  by (simp add: fk.keeps_def files_kept_def)

lemma fk_ask: "fk.keeps P (f_ask sv q)"
  unfolding f_ask_def by (intro fk_alive fk_still) simp

lemma fk_query: "fk.keeps P (f_query sv q)"
  unfolding f_query_def f_value_def by (intro fk.keeps_flow fk_ask)

lemma fk_order: "fk.keeps P (f_order sv e q)"
  unfolding f_order_def by (intro fk_alive fk.keeps_bind fk_query fk_still) (simp add: f_log_def)

lemma fk_store: "fk.keeps P (f_store sv f)"
  unfolding f_store_def by (intro fk_alive fk_still) (simp split: prod.split sum.split)

lemma adds_plain: "adds fs fs' \<Longrightarrow> plain P fs \<Longrightarrow> plain P fs'"
  unfolding plain_def adds_def by (metis fnode.distinct(1) option.inject)

lemma adds_named: "adds fs fs' \<Longrightarrow> named i fs \<Longrightarrow> named i fs'"
  unfolding named_def adds_def by (metis option.distinct(1))

lemma adds_node: "adds fs fs' \<Longrightarrow> fs_node fs p = Some x \<Longrightarrow> fs_node fs' p = Some x"
  unfolding adds_def by (metis option.distinct(1))

lemma adds_quarantine: "adds fs fs' \<Longrightarrow> is_quarantine q \<Longrightarrow> fs_node fs' q = fs_node fs q"
  unfolding adds_def by metis

text \<open>A system call leaves what the others' steps and its own leave.\<close>

lemma fk_fs_at:
  assumes "only_adds sv"
    and "\<And>n fs. adds (fw_fs w) fs \<Longrightarrow> plain P fs \<Longrightarrow> plain P (snd (f n fs)) \<and> (\<forall>i. named i fs \<longrightarrow> named i (snd (f n fs)))"
  shows "files_kept P w (snd (f_fs sv f w))"
proof -
  let ?fs = "fv_files sv (fw_tick w) (fw_fs w)"
  have others: "adds (fw_fs w) ?fs" using assms(1) by (simp add: only_adds_def)
  have new: "fw_fs (snd (f_fs sv f w)) = (if fv_alive sv (fw_tick w) then snd (f (fw_tick w) ?fs) else fw_fs w)"
    by (simp add: f_fs_def f_alive_def split: prod.split sum.split)
  show ?thesis
    unfolding files_kept_def new
    using adds_plain [OF others] adds_named [OF others] assms(2) [OF others] by auto
qed

lemma fk_fs:
  assumes "only_adds sv" and "\<And>n fs. plain P fs \<Longrightarrow> plain P (snd (f n fs)) \<and> (\<forall>i. named i fs \<longrightarrow> named i (snd (f n fs)))"
  shows "fk.keeps P (f_fs sv f)"
  unfolding fk.keeps_def by (intro allI fk_fs_at [OF assms(1)] assms(2))

lemma fk_look: "only_adds sv \<Longrightarrow> fk.keeps P (f_look sv f)"
  unfolding f_look_def by (rule fk_fs) (auto split: option.split)

lemma fk_stat: "only_adds sv \<Longrightarrow> fk.keeps P (f_stat sv p)"
  unfolding f_stat_def by (rule fk_fs) (simp_all add: sys_stat_def split: option.split)

lemma new_name_kept:
  assumes "fs_node fs p = None" and "plain P fs" and "\<And>x. n = Symlink x \<Longrightarrow> \<not> (p \<in> P \<or> is_quarantine p)"
    and "fs_node fs' = (fs_node fs)(p := Some n)"
  shows "plain P fs' \<and> (\<forall>i. named i fs \<longrightarrow> named i fs')"
proof
  show "plain P fs'" using assms by (auto simp: plain_def)
  show "\<forall>i. named i fs \<longrightarrow> named i fs'"
  proof (intro allI impI)
    fix i assume "named i fs"
    then obtain r e where r: "fs_node fs r = Some (Node e)" "entry_inode e = i" unfolding named_def by blast
    then have "fs_node fs' r = Some (Node e)" using assms(1,4) by auto
    with r(2) show "named i fs'" unfolding named_def by blast
  qed
qed

lemma fk_mkdir:
  assumes "only_adds sv"
  shows "fk.keeps P (f_fs sv (sys_mkdir sv p))"
proof (rule fk_fs [OF assms])
  fix n fs assume p: "plain P fs"
  show "plain P (snd (sys_mkdir sv p n fs)) \<and> (\<forall>i. named i fs \<longrightarrow> named i (snd (sys_mkdir sv p n fs)))"
  proof (cases "fv_fails sv n = None \<and> fs_node fs p = None")
    case True
    then show ?thesis using p
      by (intro new_name_kept [of fs p _ "Node (Directory (fv_new_inode sv n))"]) (simp_all add: sys_mkdir_def)
  next
    case False
    with p show ?thesis by (auto simp: sys_mkdir_def split: option.splits)
  qed
qed

lemma move_kept:
  assumes "plain P fs" and "fs_node fs p = Some x" and "fs_node fs q = None" and "p \<in> P \<or> is_quarantine p"
  shows "plain P (fs_move ct p q x fs) \<and> (\<forall>i. named i fs \<longrightarrow> named i (fs_move ct p q x fs))"
proof
  show "plain P (fs_move ct p q x fs)" using assms by (auto simp: plain_def fs_move_def)
  show "\<forall>i. named i fs \<longrightarrow> named i (fs_move ct p q x fs)"
  proof (intro allI impI)
    fix i assume "named i fs"
    then obtain r e where r: "fs_node fs r = Some (Node e)" "entry_inode e = i" by (auto simp: named_def)
    show "named i (fs_move ct p q x fs)"
    proof (cases "r = p")
      case True
      then have "fs_node (fs_move ct p q x fs) q = Some (Node e)" using r assms(2) by (simp add: fs_move_def)
      with r(2) show ?thesis unfolding named_def by blast
    next
      case False
      moreover have "r \<noteq> q" using r(1) assms(3) by auto
      ultimately have "fs_node (fs_move ct p q x fs) r = Some (Node e)" using r(1) by (simp add: fs_move_def)
      with r(2) show ?thesis unfolding named_def by blast
    qed
  qed
qed

lemma fk_rename_no_replace:
  assumes "only_adds sv" and "p \<in> P \<or> is_quarantine p"
  shows "fk.keeps P (f_fs sv (sys_rename_no_replace sv p q))"
  using assms move_kept by (intro fk_fs) (auto simp: sys_rename_no_replace_def split: option.split)

lemma fk_link:
  assumes "only_adds sv" and "p \<in> P \<or> is_quarantine p"
  shows "fk.keeps P (f_fs sv (sys_link sv p q))"
proof (rule fk_fs [OF assms(1)])
  fix n fs assume p: "plain P fs"
  show "plain P (snd (sys_link sv p q n fs)) \<and> (\<forall>i. named i fs \<longrightarrow> named i (snd (sys_link sv p q n fs)))"
  proof (cases "fv_fails sv n = None \<and> fs_node fs q = None")
    case True
    show ?thesis
    proof (cases "fs_node fs p")
      case None
      with p True show ?thesis by (simp add: sys_link_def)
    next
      case (Some x)
      have "\<nexists>y. x = Symlink y" using p assms(2) Some unfolding plain_def by metis
      with True Some p show ?thesis by (intro new_name_kept [of fs q _ x]) (simp_all add: sys_link_def)
    qed
  next
    case False
    with p show ?thesis by (auto simp: sys_link_def split: option.splits)
  qed
qed

lemma fk_os_error_is: "fk.keeps P m \<Longrightarrow> fk.keeps P (os_error_is v m)"
  unfolding os_error_is_def by (intro fk.keeps_catch) (auto intro: fk.keeps_flow split: fill_exn.split)

lemma tried_world: "snd (tried m w) = snd (m w)"
  by (cases "m w"; cases "fst (m w)")
    (auto simp: tried_def catch_io_def bind_io_def ret_def raise_io_def split: fill_exn.split)

lemma fk_tried: "fk.keeps P m \<Longrightarrow> fk.keeps P (tried m)"
  by (simp add: fk.keeps_def tried_world)

lemma fk_now: "fk.keeps P (f_now sv)"
  unfolding f_now_def by (rule fk_ask)

lemma fk_runtime: "fk.keeps P (f_runtime sv)"
  unfolding f_runtime_def by (rule fk_ask)

lemma fk_paths: "fk.keeps P (f_paths sv)"
  unfolding f_paths_def by (intro fk.keeps_flow fk_runtime)

lemma fk_read_store: "fk.keeps P (f_read_store sv f)"
  unfolding f_read_store_def by (rule fk_store)

lemma fk_or_none: "fk.keeps P m \<Longrightarrow> fk.keeps P (or_none m)"
  unfolding or_none_def by (intro fk.keeps_flow)

lemmas fk_flow = fk.keeps_flow fk_ask fk_query fk_order fk_store fk_read_store fk_now fk_runtime fk_paths fk_os_error_is
  fk_tried fk_or_none

lemmas fk_reads = fk_look fk_stat fk_mkdir

lemma fk_all_roots: "(\<And>r. fk.keeps P (f r)) \<Longrightarrow> fk.keeps P (all_roots sv f rs)"
  by (induction rs) (simp_all add: fk.keeps_ret fk.keeps_bind)

lemma fk_symlink_below: "only_adds sv \<Longrightarrow> fk.keeps P (symlink_below sv p ns)"
  by (induction ns arbitrary: p) (auto intro!: fk_flow fk_reads)

lemma fk_symlink: "only_adds sv \<Longrightarrow> fk.keeps P (has_symlink_component sv p root)"
  unfolding has_symlink_component_def by (intro fk_flow fk_reads fk_symlink_below)

lemma fk_within: "only_adds sv \<Longrightarrow> fk.keeps P (is_within sv p root)"
  unfolding is_within_def by (intro fk_flow fk_reads)

lemma fk_roots_ready: "only_adds sv \<Longrightarrow> fk.keeps P (roots_ready sv)"
  unfolding roots_ready_def root_is_dir_def has_sentinel_def on_device_def
  by (intro fk_flow fk_reads fk_all_roots)

lemma fk_matches: "only_adds sv \<Longrightarrow> fk.keeps P (matches_if_present sv f p)"
  unfolding matches_if_present_def by (intro fk_flow fk_reads)

lemma fk_same: "only_adds sv \<Longrightarrow> fk.keeps P (same_inode sv p q)"
  unfolding same_inode_def by (intro fk_flow fk_reads)

lemma fk_in_move_in: "(\<And>root. fk.keeps P (f root)) \<Longrightarrow> fk.keeps P (in_move_in sv f)"
  unfolding in_move_in_def by (intro fk_flow)

lemma fk_not: "fk.keeps P m \<Longrightarrow> fk.keeps P (not_io m)"
  unfolding not_io_def by (intro fk_flow)

lemma fk_unless: "fk.keeps P m \<Longrightarrow> fk.keeps P k \<Longrightarrow> fk.keeps P (unless m r k)"
  unfolding unless_def by (intro fk_flow)

lemma fk_outside: "only_adds sv \<Longrightarrow> fk.keeps P (outside_roots sv c)"
  unfolding outside_roots_def by (intro fk_flow fk_within fk_not fk_in_move_in)

lemma fk_all: "list_all (fk.keeps P) ms \<Longrightarrow> fk.keeps P (all_io ms)"
  by (induction ms) (auto intro!: fk_flow)

lemma fk_candidate_roots: "only_adds sv \<Longrightarrow> fk.keeps P (candidate_roots_ready sv c)"
  unfolding candidate_roots_ready_def sentinel_at_def
  by (intro fk_flow fk_reads fk_not fk_in_move_in fk_all) (auto intro!: fk_flow fk_reads fk_not fk_in_move_in fk_all)

lemma fk_parent: "only_adds sv \<Longrightarrow> fk.keeps P (prepare_destination_parent sv p)"
  unfolding prepare_destination_parent_def by (intro fk_flow fk_reads fk_within)

section \<open>The quarantine\<close>

text \<open>A name found free is free, for a name that is no symbolic link.\<close>

lemma look_Value:
  assumes "f_look sv g w = (Value a, w')"
  shows "a = g (fw_fs w')" and "fw_fs w' = fv_files sv (fw_tick w) (fw_fs w)"
  using assms by (auto simp: f_look_def f_fs_def f_alive_def split: if_splits option.splits)

lemma stat_Value:
  assumes "f_stat sv p w = (Value st, w')"
  shows "fs_stat p (fw_fs w') = Some st" and "fw_fs w' = fv_files sv (fw_tick w) (fw_fs w)"
  using assms by (auto simp: f_stat_def f_fs_def f_alive_def sys_stat_def split: if_splits option.splits)

lemma vacant:
  assumes "f_look sv (fs_exists q) w = (Value False, w')" and "plain P (fw_fs w')" and "is_quarantine q"
  shows "fs_node (fw_fs w') q = None"
proof (cases "fs_node (fw_fs w') q")
  case (Some n)
  with look_Value [OF assms(1)] assms(2,3) show ?thesis by (cases n) (auto simp: fs_exists_def plain_def)
qed simp

lemma fk_move_to_quarantine:
  assumes "only_adds sv" and "p \<in> P" and "is_quarantine q"
  shows "fk.keeps P (move_to_quarantine sv p q)"
proof -
  have rename: "files_kept P w (snd (f_fs sv (sys_rename sv p q) w))"
    if free: "plain P (fw_fs w) \<longrightarrow> fs_node (fw_fs w) q = None" for w
  proof (cases "plain P (fw_fs w)")
    case True
    show ?thesis
    proof (rule fk_fs_at [OF assms(1)])
      fix n fs assume others: "adds (fw_fs w) fs" and plain: "plain P fs"
      have "fs_node fs q = None" using adds_quarantine [OF others assms(3)] free True by simp
      then show "plain P (snd (sys_rename sv p q n fs)) \<and> (\<forall>i. named i fs \<longrightarrow> named i (snd (sys_rename sv p q n fs)))"
        using plain assms(2) move_kept [OF plain] by (auto simp: sys_rename_def split: option.split)
    qed
  qed (simp add: files_kept_def)
  have "files_kept P w (snd (bind_io (f_look sv (fs_exists q)) (\<lambda>there.
          if there then raise_io (OsError EEXIST) else f_fs sv (sys_rename sv p q)) w))" for w
  proof (rule fk.bind_run [OF fk.keeps_run [OF fk_look [OF assms(1)]]])
    fix there w' assume look: "f_look sv (fs_exists q) w = (Value there, w')"
    show "files_kept P w' (snd ((if there then raise_io (OsError EEXIST) else f_fs sv (sys_rename sv p q)) w'))"
      using rename [of w'] vacant [of sv q w w' P] look assms(3)
      by (cases there) (simp_all add: fk.keeps_run [OF fk.keeps_raise])
  qed
  then have checked: "fk.keeps P (bind_io (f_look sv (fs_exists q)) (\<lambda>there.
          if there then raise_io (OsError EEXIST) else f_fs sv (sys_rename sv p q)))"
    by (simp add: fk.keeps_def)
  have "fk.keeps P (tried (f_fs sv (sys_rename_no_replace sv p q)))"
    using assms by (intro fk_tried fk_rename_no_replace) simp_all
  then show ?thesis
    unfolding move_to_quarantine_def
    by (rule fk.keeps_bind) (rule fk.keeps_sum, rule fk.keeps_if, rule fk.keeps_raise, rule checked, rule fk.keeps_ret)
qed

text \<open>A quarantine found to be a second name of the file another touched name has.\<close>

definition twin :: "string \<Rightarrow> string \<Rightarrow> fsys \<Rightarrow> bool" where
  "twin q p fs \<longleftrightarrow>
     (\<exists>e e'. fs_node fs q = Some (Node e) \<and> fs_node fs p = Some (Node e') \<and> entry_inode e = entry_inode e')"

lemma stat_plain:
  assumes "fs_stat p fs = Some st" and "plain P fs" and "p \<in> P \<or> is_quarantine p"
  shows "\<exists>e. fs_node fs p = Some (Node e) \<and> fg_device st = fst (entry_inode e) \<and> fg_inode st = snd (entry_inode e)"
proof (cases "fs_node fs p")
  case (Some n)
  with assms show ?thesis by (cases n) (auto simp: fs_stat_def fingerprint_of_def plain_def)
qed (use assms(1) in \<open>simp add: fs_stat_def\<close>)

lemma same_inode_twin:
  assumes "only_adds sv" and "same_inode sv q p w = (Value True, w')" and "plain P (fw_fs w')"
    and "is_quarantine q" and "p \<in> P"
  shows "twin q p (fw_fs w')"
proof -
  obtain x w1 where x: "f_stat sv q w = (x, w1)" by fastforce
  obtain y w2 where y: "f_stat sv p w1 = (y, w2)" by fastforce
  obtain a where a: "x = Value a" using assms(2) x
    by (cases x) (auto simp: same_inode_def os_error_is_def catch_io_def bind_io_def ret_def raise_io_def split: fill_exn.splits)
  obtain b where b: "y = Value b" using assms(2) x y a
    by (cases y) (auto simp: same_inode_def os_error_is_def catch_io_def bind_io_def ret_def raise_io_def split: fill_exn.splits)
  have w': "w2 = w'" and eq: "fg_device a = fg_device b" "fg_inode a = fg_inode b"
    using assms(2) x y a b
    by (auto simp: same_inode_def os_error_is_def catch_io_def bind_io_def ret_def)
  have sa: "fs_stat q (fw_fs w1) = Some a" using stat_Value(1) x a by blast
  have sb: "fs_stat p (fw_fs w') = Some b" using stat_Value(1) y b w' by blast
  have "adds (fw_fs w1) (fw_fs w')"
    using stat_Value(2) [of sv p w1 b w'] y b w' assms(1) by (simp add: only_adds_def)
  then have same: "fs_node (fw_fs w1) q = fs_node (fw_fs w') q" using adds_quarantine [OF _ assms(4)] by simp
  obtain n where n: "fs_node (fw_fs w') q = Some n" using sa same by (auto simp: fs_stat_def split: option.splits) (metis followed.simps(1) option.distinct(1) option.exhaust)
  then obtain e where e: "fs_node (fw_fs w') q = Some (Node e)" using assms(3,4) by (cases n) (auto simp: plain_def)
  then have "fg_device a = fst (entry_inode e)" "fg_inode a = snd (entry_inode e)"
    using sa same by (auto simp: fs_stat_def fingerprint_of_def)
  moreover obtain e' where "fs_node (fw_fs w') p = Some (Node e')" "fg_device b = fst (entry_inode e')" "fg_inode b = snd (entry_inode e')"
    using stat_plain [OF sb assms(3)] assms(5) by blast
  ultimately show ?thesis using e eq unfolding twin_def by (metis prod_eqI)
qed

lemma unlink_twin:
  assumes "only_adds sv" and "plain P (fw_fs w) \<longrightarrow> twin q p (fw_fs w)" and "p \<noteq> q"
  shows "files_kept P w (snd (f_fs sv (sys_unlink sv q) w))"
proof (cases "plain P (fw_fs w)")
  case True
  then obtain e e' where twins: "fs_node (fw_fs w) q = Some (Node e)" "fs_node (fw_fs w) p = Some (Node e')" "entry_inode e = entry_inode e'"
    using assms(2) by (auto simp: twin_def)
  show ?thesis
  proof (rule fk_fs_at [OF assms(1)])
    fix n fs assume others: "adds (fw_fs w) fs" and plain: "plain P fs"
    have q: "fs_node fs q = Some (Node e)" and p: "fs_node fs p = Some (Node e')"
      using adds_node [OF others] twins by simp_all
    have "named i (snd (sys_unlink sv q n fs))" if named: "named i fs" for i
    proof (cases "fv_fails sv n")
      case None
      obtain r x where r: "fs_node fs r = Some (Node x)" "entry_inode x = i" using named unfolding named_def by blast
      have new: "fs_node (snd (sys_unlink sv q n fs)) = (fs_node fs)(q := None)" using None q by (simp add: sys_unlink_def)
      show ?thesis
      proof (cases "r = q")
        case True
        then have "entry_inode e' = i" using r q twins(3) by simp
        with p assms(3) new show ?thesis unfolding named_def by (metis fun_upd_other)
      next
        case False
        with r new show ?thesis unfolding named_def by (metis fun_upd_other)
      qed
    qed (use named in \<open>simp add: sys_unlink_def\<close>)
    moreover have "plain P (snd (sys_unlink sv q n fs))"
      using plain by (auto simp: sys_unlink_def plain_def split: option.split)
    ultimately show "plain P (snd (sys_unlink sv q n fs)) \<and> (\<forall>i. named i fs \<longrightarrow> named i (snd (sys_unlink sv q n fs)))"
      by blast
  qed
qed (simp add: files_kept_def)

text \<open>The quarantine is removed only where it was just found to be a second name.\<close>

lemma fk_removes_twin:
  assumes "only_adds sv" and "is_quarantine q" and "p \<in> P" and "\<not> is_quarantine p" and "fk.keeps P k"
    and "\<And>w. files_kept P w (snd (f_fs sv (sys_unlink sv q) w)) \<Longrightarrow> files_kept P w (snd (u w))"
  shows "fk.keeps P (bind_io (if b then same_inode sv q p else ret False) (\<lambda>same. if same then u else k))"
  unfolding fk.keeps_def
proof (intro allI, rule fk.bind_run)
  fix w
  show "files_kept P w (snd ((if b then same_inode sv q p else ret False) w))"
    using fk.keeps_run [OF fk_same [OF assms(1)]] fk.keeps_run [OF fk.keeps_ret] by (cases b) simp_all
next
  fix w same w' assume yields: "(if b then same_inode sv q p else ret False) w = (Value same, w')"
  show "files_kept P w' (snd ((if same then u else k) w'))"
  proof (cases same)
    case False
    with assms(5) show ?thesis by (simp add: fk.keeps_run)
  next
    case True
    with yields have "same_inode sv q p w = (Value True, w')" by (cases b) (simp_all add: ret_def)
    then have "plain P (fw_fs w') \<longrightarrow> twin q p (fw_fs w')" using same_inode_twin assms(1-3) by blast
    then have "files_kept P w' (snd (f_fs sv (sys_unlink sv q) w'))"
      using assms(1,2,4) by (intro unlink_twin) auto
    with assms(6) True show ?thesis by simp
  qed
qed

lemma then_unlinked:
  assumes "files_kept P w (snd (f_fs sv (sys_unlink sv q) w))" and "\<And>r. fk.keeps P (f r)"
  shows "files_kept P w (snd (bind_io (tried (f_fs sv (sys_unlink sv q))) f w))"
  using assms by (intro fk.bind_run) (simp_all add: tried_world fk.keeps_run)

lemma fk_restore:
  assumes "only_adds sv" and "is_quarantine q" and "p \<in> P" and "\<not> is_quarantine p"
  shows "fk.keeps P (restore_quarantine sv q p)"
proof -
  note twin = fk_removes_twin [OF assms, of _ _ True, simplified]
  have other: "(if \<not> same then raise_io e else u) = (if same then u else raise_io e)" for same e and u :: "unit fio"
    by simp
  show ?thesis
    unfolding restore_quarantine_def other using assms
    by (intro fk_flow fk_reads twin fk_rename_no_replace fk_link) simp_all
qed

lemma fk_finish:
  assumes "only_adds sv" and "is_quarantine q" and "movable P c"
  shows "fk.keeps P (finish_quarantined sv c q)"
proof -
  have c: "cr_source c \<in> P" "cr_destination c \<in> P" "\<not> is_quarantine (cr_source c)" "\<not> is_quarantine (cr_destination c)"
    using assms(3) by (simp_all add: movable_def)
  show ?thesis
    unfolding finish_quarantined_def matches_linked_def
    by (intro fk_flow fk_matches fk_restore fk_removes_twin then_unlinked assms(1,2) c) 
qed

lemma fk_rollback:
  assumes "only_adds sv" and "is_quarantine q" and "movable P c"
  shows "fk.keeps P (rollback_unexpected_link sv c q)"
proof -
  have c: "cr_source c \<in> P" "cr_destination c \<in> P" "\<not> is_quarantine (cr_source c)" "\<not> is_quarantine (cr_destination c)"
    using assms(3) by (simp_all add: movable_def)
  show ?thesis
    unfolding rollback_unexpected_link_def
    by (intro fk_flow fk_reads fk_restore fk_removes_twin then_unlinked fk_move_to_quarantine assms(1,2) c)
qed

section \<open>A whole move\<close>

lemma fk_with_quarantine:
  assumes "\<And>q. is_quarantine q \<Longrightarrow> fk.keeps P (f q)"
  shows "fk.keeps P (bind_io (quarantine_path sv c) f)"
proof (rule fk.keeps_bind_yields)
  show "fk.keeps P (quarantine_path sv c)" unfolding quarantine_path_def by (intro fk_flow)
  show "is_quarantine q" if "quarantine_path sv c w = (Value q, w')" for q w w'
    using that quarantine_is by (auto simp: quarantine_path_def bind_io_Value_iff ret_def)
qed (rule assms)

lemma fk_fallback:
  assumes "only_adds sv" and "movable P c"
  shows "fk.keeps P (apply_hardlink_fallback sv c)"
proof -
  have c: "cr_source c \<in> P" "cr_source c \<in> P \<or> is_quarantine (cr_source c)" using assms(2) by (simp_all add: movable_def)
  show ?thesis
    unfolding apply_hardlink_fallback_def matches_linked_def
    by (intro fk_with_quarantine fk_flow fk_reads fk_matches fk_link fk_rollback fk_finish fk_move_to_quarantine assms c)
qed

lemma fk_apply_one:
  assumes "only_adds sv" and "movable P c"
  shows "fk.keeps P (apply_one sv c)"
proof -
  have c: "cr_source c \<in> P \<or> is_quarantine (cr_source c)" "cr_destination c \<in> P \<or> is_quarantine (cr_destination c)"
    using assms(2) by (simp_all add: movable_def)
  have "fk.keeps P (rename_source sv c)"
    unfolding rename_source_def matches_linked_def
    by (intro fk_flow fk_matches fk_rename_no_replace fk_fallback assms c)
  then show ?thesis
    unfolding apply_one_def
    by (intro fk_unless fk_not fk_in_move_in fk_flow fk_reads fk_symlink fk_within fk_outside fk_parent assms)
qed

lemma fk_reconcile_filesystem:
  assumes "only_adds sv" and "movable P c"
  shows "fk.keeps P (reconcile_filesystem sv c s)"
proof -
  have c: "cr_source c \<in> P" "cr_destination c \<in> P \<or> is_quarantine (cr_destination c)"
    using assms(2) by (simp_all add: movable_def)
  have "fk.keeps P (settle_names sv c s q sm sml dm se de)" if "is_quarantine q" for q sm sml dm se de
    unfolding settle_names_def
    by (intro fk_flow fk_same fk_finish fk_move_to_quarantine fk_rename_no_replace fk_apply_one assms c that)
  then show ?thesis
    unfolding reconcile_filesystem_def matches_linked_def matches_fingerprint_def
    by (intro fk_unless fk_with_quarantine fk_in_move_in fk_flow fk_reads fk_symlink fk_outside fk_matches
      fk_finish assms c)
qed

lemma fk_save_journal: "fk.keeps P (save_journal sv k i s)"
  unfolding save_journal_def by (intro fk_flow)

lemma fk_persist: "fk.keeps P (persist_move_completion sv k c r s)"
  unfolding persist_move_completion_def by (intro fk_flow fk_save_journal)

lemma fk_reconcile_candidate:
  "only_adds sv \<Longrightarrow> movable P c \<Longrightarrow> fk.keeps P (reconcile_candidate sv k c j)"
  unfolding reconcile_candidate_def
  by (intro fk_unless fk_not fk_flow fk_candidate_roots fk_save_journal fk_reconcile_filesystem fk_persist)

lemma fk_run_local:
  assumes "only_adds sv" and "movable P c"
  shows "fk.keeps P (run_local_move sv k c)"
proof -
  have "fk.keeps P (first_move sv k c)"
    unfolding first_move_def
    by (intro fk_unless fk_not fk_flow fk_candidate_roots fk_save_journal fk_apply_one fk_persist assms)
  then show ?thesis
    unfolding run_local_move_def by (intro fk_unless fk_not fk_flow fk_candidate_roots fk_reconcile_candidate assms)
qed

text \<open>The moves through CloudDrive only look at local files.\<close>

lemma fk_list_cloud: "fk.keeps P (list_cloud_directory sv d)"
  unfolding list_cloud_directory_def by (intro fk_flow)

lemma fk_stat_cloud: "fk.keeps P (stat_cloud_file sv p)"
  unfolding stat_cloud_file_def by (intro fk_flow fk_list_cloud)

lemma fk_validate: "only_adds sv \<Longrightarrow> fk.keeps P (validate_cloud_mapping sv c)"
  unfolding validate_cloud_mapping_def read_mapping_def cloud_destination_components_def
  by (intro fk_flow fk_reads fk_symlink fk_within)

lemma fk_preflight: "only_adds sv \<Longrightarrow> fk.keeps P (cloud_preflight sv k c f)"
  unfolding cloud_preflight_def Let_def save_result_def cloud_destination_components_def ensured_listing_def
  by (intro fk_flow fk_validate fk_list_cloud fk_stat_cloud)

lemma fk_save_operation: "fk.keeps P (save_operation sv r)"
  unfolding save_operation_def by (intro fk_flow)

lemma fk_advance: "fk.keeps P (advance_cloud_operation sv r s ec)"
  unfolding advance_cloud_operation_def built_operation_def by (intro fk_flow fk_save_operation)

lemma fk_observe: "fk.keeps P (observe_cloud_move sv k c r response final)"
  unfolding observe_cloud_move_def complete_cloud_move_def leave_unknown_def built_operation_def Let_def
  by (intro fk_flow fk_stat_cloud fk_advance)

lemma fk_recover: "fk.keeps P (recover_cloud_move sv k c r)"
  unfolding recover_cloud_move_def complete_cloud_move_def built_operation_def Let_def
  by (intro fk_flow fk_advance fk_observe)

lemma fk_verify: "fk.keeps P (verify_cloud_move sv n k c r response)"
  by (induction n) (simp_all only: verify_cloud_move.simps, (intro fk_flow fk_observe | simp)+)

lemma fk_run_cloud: "only_adds sv \<Longrightarrow> fk.keeps P (run_cloud_move sv k c)"
  unfolding run_cloud_move_def submit_cloud_move_def built_operation_def
  by (intro fk_flow fk_roots_ready fk_recover fk_preflight fk_save_operation fk_advance fk_observe fk_verify)

lemma fk_run_move:
  assumes "only_adds sv" and "movable P c"
  shows "fk.keeps P (run_move sv k c)"
  using fk_run_cloud [OF assms(1)] fk_run_local [OF assms] by (simp add: run_move_def split: candidate_kind.split)

section \<open>Any history\<close>

text \<open>
  What processes do with the files over time: a candidate is moved, or what an earlier process
  left of its move is taken up by its journal. Each has its own process, which may die in it.
\<close>

datatype file_action = Move string candidate_record | Take_Up string candidate_record journal_record

fun file_action_in :: "fill_services \<Rightarrow> file_action \<Rightarrow> fworld \<Rightarrow> fworld" where
  "file_action_in sv (Move k c) w = snd (run_move sv k c w)"
| "file_action_in sv (Take_Up k c j) w = snd (reconcile_candidate sv k c j w)"

fun action_candidate :: "file_action \<Rightarrow> candidate_record" where
  "action_candidate (Move _ c) = c"
| "action_candidate (Take_Up _ c _) = c"

fun file_history :: "(fill_services \<times> file_action) list \<Rightarrow> fworld \<Rightarrow> fworld" where
  "file_history [] w = w"
| "file_history ((sv, a) # h) w = file_history h (file_action_in sv a w)"

lemma history_files:
  "list_all (\<lambda>(sv, a). only_adds sv \<and> movable P (action_candidate a)) h \<Longrightarrow> files_kept P w (file_history h w)"
proof (induction h arbitrary: w)
  case (Cons e h)
  obtain sv a where e: "e = (sv, a)" by fastforce
  with Cons.prems have sv: "only_adds sv" and c: "movable P (action_candidate a)" by simp_all
  have "files_kept P w (file_action_in sv a w)"
    using fk.keeps_run [OF fk_run_move [OF sv]] fk.keeps_run [OF fk_reconcile_candidate [OF sv]] c by (cases a) simp_all
  moreover have "files_kept P (file_action_in sv a w) (file_history h (file_action_in sv a w))"
    using Cons.IH Cons.prems e by simp
  ultimately show ?case using fk.R_trans e by auto
qed (simp add: fk.R_refl)

definition demo_local :: candidate_record where
  "demo_local =
     \<lparr>cr_candidate_id = ''c'', cr_video_id = ''A-1'', cr_source = ''/s/A-1.mkv'', cr_source_root = ''/s'',
      cr_destination = ''/m/A/A-1.mkv'',
      cr_fingerprint = \<lparr>fg_device = 1, fg_inode = 2, fg_size = 3, fg_mtime_ns = 4, fg_ctime_ns = 5\<rparr>,
      cr_kind = LOCAL_FILE, cr_mapping_sha256 = None, cr_cloud_source_path = None, cr_cloud_destination_dir = None,
      cr_cloud_file = None\<rparr>"

definition demo_disk :: fworld where
  "demo_disk =
     \<lparr>fw_store = mem_save_plan \<lparr>pl_public = demo_public [''c''], pl_candidates = [demo_local], pl_config_version = 1\<rparr> empty_memory,
      fw_fs = demo_fs\<lparr>fs_node := (fs_node demo_fs)(''/s/A-1.mkv'' := Some (Node (Regular (1, 2))), ''/s/A-1.strm'' := None)\<rparr>,
      fw_tick = 0, fw_log = []\<rparr>"

text \<open>A file system that refuses a rename that must not replace, and a process that dies.\<close>

definition demo_linking :: "nat \<Rightarrow> fill_services" where
  "demo_linking dies_at = (demo_fill 0 dies_at)\<lparr>fv_noreplace := Some EINVAL\<rparr>"

text \<open>
  C4: no local file is ever lost. An inode that has a name keeps one through any sequence of
  moves and of recoveries of moves, by processes that may each die at any system call or await,
  whichever system calls fail and with whatever error, whether or not the file system supports
  a rename that must not replace, whatever the settings become and whatever the others call on
  the repository; as long as other processes only add files, none under a quarantine name, and
  the names the moves touch are no symbolic links.
\<close>

theorem no_file_lost:
  assumes "plain P (fw_fs w)" and "list_all (\<lambda>(sv, a). only_adds sv \<and> movable P (action_candidate a)) h"
    and "named i (fw_fs w)"
  shows "named i (fw_fs (file_history h w))"
  using history_files [OF assms(2), of w] assms(1,3) unfolding files_kept_def by blast

lemma demo_only_adds: "only_adds (demo_linking n)"
  by (simp add: only_adds_def adds_def demo_linking_def demo_fill_def)

theorem no_file_lost_witness:
  "named (1, 2) (fw_fs (file_history
     [(demo_linking 70, Move ''p'' demo_local),
      (demo_linking 99, Take_Up ''p'' demo_local \<lparr>jo_plan_id = ''p'', jo_candidate_id = ''c'', jo_state = JPREPARED, jo_updated_at = 30\<rparr>)]
     demo_disk))
   \<and> fs_node (fw_fs (snd (run_move (demo_linking 70) ''p'' demo_local demo_disk))) ''/s/A-1.mkv'' = None"
proof
  have plain: "plain {''/s/A-1.mkv'', ''/m/A/A-1.mkv''} (fw_fs demo_disk)"
    by (simp add: plain_def demo_disk_def demo_fs_def)
  have movable: "movable {''/s/A-1.mkv'', ''/m/A/A-1.mkv''} demo_local"
    by (simp add: movable_def demo_local_def is_quarantine_def starts_with_def)
  have "fs_node (fw_fs demo_disk) ''/s/A-1.mkv'' = Some (Node (Regular (1, 2)))"
    by (simp add: demo_disk_def)
  then have named: "named (1, 2) (fw_fs demo_disk)" unfolding named_def using entry_inode.simps(1) by blast
  show "named (1, 2) (fw_fs (file_history
     [(demo_linking 70, Move ''p'' demo_local),
      (demo_linking 99, Take_Up ''p'' demo_local \<lparr>jo_plan_id = ''p'', jo_candidate_id = ''c'', jo_state = JPREPARED, jo_updated_at = 30\<rparr>)]
     demo_disk))"
    by (rule no_file_lost [OF plain _ named]) (simp add: movable demo_only_adds)
  show "fs_node (fw_fs (snd (run_move (demo_linking 70) ''p'' demo_local demo_disk))) ''/s/A-1.mkv'' = None" by code_simp
qed

end
