(* ===== verification/Triples.thy ===== *)
theory Triples
  imports Coroutines
begin

text \<open>
  Triples over coroutines that may stop: an assertion before a run, and after it one for a
  value, one for an exception, and one for a run that stopped on the way, which is the same
  for the whole run because it may stop anywhere.
\<close>

section \<open>Triples\<close>

definition triple ::
  "('w \<Rightarrow> bool) \<Rightarrow> ('w \<Rightarrow> bool) \<Rightarrow> ('w, 'e, 'a) prog \<Rightarrow> ('a \<Rightarrow> 'w \<Rightarrow> bool) \<Rightarrow> ('e \<Rightarrow> 'w \<Rightarrow> bool) \<Rightarrow> bool" where
  "triple C P m Q E \<longleftrightarrow>
     (\<forall>w. P w \<longrightarrow> (case m w of (Value a, w') \<Rightarrow> Q a w' | (Raised e, w') \<Rightarrow> E e w' | (Stuck, w') \<Rightarrow> C w'))"

text \<open>A run that can only hand on one value, and leaves the assertion true.\<close>

definition sure :: "('w \<Rightarrow> bool) \<Rightarrow> ('w \<Rightarrow> bool) \<Rightarrow> ('w, 'e, 'a) prog \<Rightarrow> 'a \<Rightarrow> bool" where
  "sure C P m v \<longleftrightarrow> triple C P m (\<lambda>a w. a = v \<and> P w) (\<lambda>_ _. False)"

lemma triple_ret: "(\<And>w. P w \<Longrightarrow> Q a w) \<Longrightarrow> triple C P (ret a) Q E"
  by (simp add: triple_def ret_def)

lemma triple_raise: "(\<And>w. P w \<Longrightarrow> E e w) \<Longrightarrow> triple C P (raise_io e) Q E"
  by (simp add: triple_def raise_io_def)

lemma triple_bind:
  assumes "triple C P m R E" and "\<And>a. triple C (R a) (f a) Q E"
  shows "triple C P (bind_io m f) Q E"
  unfolding triple_def
proof (intro allI impI)
  fix w assume "P w"
  obtain r w' where r: "m w = (r, w')" by fastforce
  show "case bind_io m f w of (Value a, w') \<Rightarrow> Q a w' | (Raised e, w') \<Rightarrow> E e w' | (Stuck, w') \<Rightarrow> C w'"
    using assms \<open>P w\<close> r by (cases r) (fastforce simp: triple_def bind_io_def)+
qed

lemma triple_catch:
  assumes "triple C P m Q E'" and "\<And>e. triple C (E' e) (h e) Q E"
  shows "triple C P (catch_io m h) Q E"
  unfolding triple_def
proof (intro allI impI)
  fix w assume "P w"
  obtain r w' where r: "m w = (r, w')" by fastforce
  show "case catch_io m h w of (Value a, w') \<Rightarrow> Q a w' | (Raised e, w') \<Rightarrow> E e w' | (Stuck, w') \<Rightarrow> C w'"
    using assms \<open>P w\<close> r by (cases r) (fastforce simp: triple_def catch_io_def)+
qed

lemma triple_weaken:
  assumes "triple C P m Q E" and "\<And>w. P' w \<Longrightarrow> P w" and "\<And>a w. Q a w \<Longrightarrow> Q' a w" and "\<And>e w. E e w \<Longrightarrow> E' e w"
  shows "triple C P' m Q' E'"
  using assms unfolding triple_def by (fastforce split: prod.splits outcome.splits)

text \<open>The same with the one value the first part can hand on.\<close>

lemma triple_bind_value:
  assumes "triple C P m (\<lambda>b w. b = v \<and> R w) E" and "triple C R (f v) Q E"
  shows "triple C P (bind_io m f) Q E"
proof (rule triple_bind [OF assms(1)])
  show "triple C (\<lambda>w. a = v \<and> R w) (f a) Q E" for a
    using assms(2) by (cases "a = v") (simp_all add: triple_def)
qed

lemma triple_pre: "(\<And>w. P w \<Longrightarrow> triple C (\<lambda>w'. w' = w) m Q E) \<Longrightarrow> triple C P m Q E"
  by (simp add: triple_def)

lemma triple_run:
  assumes "triple C P m Q E" and "P w"
  shows "case m w of (Value a, w') \<Rightarrow> Q a w' | (Raised e, w') \<Rightarrow> E e w' | (Stuck, w') \<Rightarrow> C w'"
  using assms by (simp add: triple_def)

section \<open>Sure runs\<close>

lemma sure_ret: "sure C P (ret v) v"
  by (simp add: sure_def triple_ret)

lemma sure_bind: "sure C P m v \<Longrightarrow> triple C P (f v) Q E \<Longrightarrow> triple C P (bind_io m f) Q E"
  unfolding sure_def by (rule triple_bind_value, erule triple_weaken) simp_all

lemma sure_then: "sure C P m v \<Longrightarrow> sure C P (f v) u \<Longrightarrow> sure C P (bind_io m f) u"
  unfolding sure_def [of C P "bind_io m f"] by (rule sure_bind) (simp_all add: sure_def)

lemma sure_catch: "sure C P m v \<Longrightarrow> sure C P (catch_io m h) v"
  unfolding sure_def by (rule triple_catch) (auto simp: triple_def)

lemma sure_bind_value:
  assumes "triple C P m (\<lambda>a w. A a \<and> P w) (\<lambda>_ _. False)" and "\<And>a. A a \<Longrightarrow> sure C P (f a) v"
  shows "sure C P (bind_io m f) v"
  unfolding sure_def
proof (rule triple_bind)
  show "triple C P m (\<lambda>a w. A a \<and> P w) (\<lambda>_ _. False)" by (rule assms(1))
  show "triple C (\<lambda>w. A a \<and> P w) (f a) (\<lambda>u w. u = v \<and> P w) (\<lambda>_ _. False)" for a
    using assms(2) [of a] by (cases "A a") (auto simp: sure_def triple_def)
qed

end
