(* ===== verification/Fill_Recovery.thy ===== *)
theory Fill_Recovery
  imports Fill_Files Triples
begin

text \<open>
  What dies in the middle of a local move is finished by the next run: the course of the names
  of the file and of the journal, step by step, when no system call fails but a rename that
  must not replace, which the file system may refuse.
\<close>

section \<open>A move, its place and its names\<close>

record move_site =
  ms_plan :: string
  ms_candidate :: candidate_record
  ms_root :: string
  ms_quarantine :: string

abbreviation ms_source :: "move_site \<Rightarrow> string" where
  "ms_source x \<equiv> cr_source (ms_candidate x)"

abbreviation ms_destination :: "move_site \<Rightarrow> string" where
  "ms_destination x \<equiv> cr_destination (ms_candidate x)"

abbreviation ms_fingerprint :: "move_site \<Rightarrow> fingerprint" where
  "ms_fingerprint x \<equiv> cr_fingerprint (ms_candidate x)"

abbreviation ms_id :: "move_site \<Rightarrow> string" where
  "ms_id x \<equiv> cr_candidate_id (ms_candidate x)"

abbreviation ms_moved :: "move_site \<Rightarrow> move_result" where
  "ms_moved x \<equiv> local_result (ms_candidate x) MOVED None"

text \<open>
  A process at the place: nobody else writes, the settings stay, no system call fails; it may
  die at any tick.
\<close>

definition at_place :: "move_site \<Rightarrow> fill_services \<Rightarrow> bool" where
  "at_place x sv \<longleftrightarrow>
     (\<forall>n. fv_others sv n = [] \<and> fv_fails sv n = None \<and> fv_files sv n = (\<lambda>fs. fs) \<and> fv_resolve sv n = (\<lambda>p. p)
        \<and> map_option fi_move_in_path (rt_paths (fv_runtime sv n)) = Some (ms_root x) \<and> rt_root_sentinel (fv_runtime sv n) = None)
     \<and> (case fv_noreplace sv of None \<Rightarrow> True | Some e \<Rightarrow> e \<in> rename_unsupported)
     \<and> path_join (ms_root x) (quarantine_name (fv_sha256 sv (ms_id x))) = ms_quarantine x"

text \<open>Where the names lie.\<close>

definition laid_out :: "move_site \<Rightarrow> bool" where
  "laid_out x \<longleftrightarrow>
     cr_kind (ms_candidate x) = LOCAL_FILE
     \<and> relative_parts (ms_source x) (cr_source_root (ms_candidate x)) \<noteq> None
     \<and> relative_parts (ms_destination x) (ms_root x) \<noteq> None
     \<and> (path_parent (ms_destination x) = ms_root x
        \<or> path_parent (path_parent (ms_destination x)) = ms_root x \<and> relative_parts (path_parent (ms_destination x)) (ms_root x) \<noteq> None)
     \<and> distinct [ms_source x, ms_destination x, ms_quarantine x]
     \<and> set [cr_source_root (ms_candidate x), ms_root x, path_parent (ms_destination x)]
         \<inter> set [ms_source x, ms_destination x, ms_quarantine x] = {}"

text \<open>Which of its names the file has: untouched, moved, linked, or linked and put aside.\<close>

datatype names = Untouched | Arrived | Linked_Twice | Put_Aside

fun at_source :: "names \<Rightarrow> bool" where
  "at_source k = (k = Untouched \<or> k = Linked_Twice)"

definition ms_inode :: "move_site \<Rightarrow> inode" where
  "ms_inode x = (fg_device (ms_fingerprint x), fg_inode (ms_fingerprint x))"

definition placed :: "move_site \<Rightarrow> bool \<Rightarrow> fnode option" where
  "placed x there = (if there then Some (Node (Regular (ms_inode x))) else None)"

definition is_root :: "move_site \<Rightarrow> string \<Rightarrow> fsys \<Rightarrow> bool" where
  "is_root x p fs \<longleftrightarrow> (\<exists>i. fs_node fs p = Some (Node (Directory i)) \<and> fst i = fg_device (ms_fingerprint x))"

definition config :: "move_site \<Rightarrow> names \<Rightarrow> fsys \<Rightarrow> bool" where
  "config x k fs \<longleftrightarrow>
     (\<forall>p e. fs_node fs p \<noteq> Some (Symlink e))
     \<and> is_root x (cr_source_root (ms_candidate x)) fs \<and> is_root x (ms_root x) fs
     \<and> (fs_node fs (path_parent (ms_destination x)) = None \<or> fs_is_dir (path_parent (ms_destination x)) fs)
     \<and> fs_node fs (ms_source x) = placed x (at_source k)
     \<and> fs_node fs (ms_destination x) = placed x (k \<noteq> Untouched)
     \<and> fs_node fs (ms_quarantine x) = placed x (k = Put_Aside)
     \<and> linked_identity (fingerprint_of (ms_inode x) fs) (ms_fingerprint x)
     \<and> (k = Untouched \<longrightarrow> fingerprint_of (ms_inode x) fs = ms_fingerprint x)"

text \<open>What the repository holds of the move.\<close>

definition recorded :: "move_site \<Rightarrow> journal_state option \<Rightarrow> move_result option \<Rightarrow> memory \<Rightarrow> bool" where
  "recorded x j r m \<longleftrightarrow>
     mem_get_candidate (ms_plan x) (ms_id x) m = Some (ms_candidate x)
     \<and> map_option jo_state (mem_get_move_journal (ms_plan x) (ms_id x) m) = j
     \<and> mem_get_move_result (ms_plan x) (ms_id x) m = r"

definition stands :: "move_site \<Rightarrow> names \<Rightarrow> journal_state option \<Rightarrow> move_result option \<Rightarrow> fworld \<Rightarrow> bool" where
  "stands x k j r w \<longleftrightarrow> config x k (fw_fs w) \<and> recorded x j r (fw_store w)"

text \<open>Which names go with which journal.\<close>

definition coherent :: "move_site \<Rightarrow> names \<Rightarrow> journal_state option \<Rightarrow> move_result option \<Rightarrow> bool" where
  "coherent x k j r \<longleftrightarrow>
     (case j of
        None \<Rightarrow> k = Untouched \<and> r = None
      | Some JPREPARED \<Rightarrow> r = None
      | Some LINKED \<Rightarrow> k = Arrived \<and> r = None
      | Some SOURCE_REMOVED \<Rightarrow> k = Arrived \<and> (r = None \<or> r = Some (ms_moved x))
      | Some RECONCILED \<Rightarrow> k = Arrived \<and> r = Some (ms_moved x))"

definition on_course :: "move_site \<Rightarrow> fworld \<Rightarrow> bool" where
  "on_course x w \<longleftrightarrow> (\<exists>k j r. stands x k j r w \<and> coherent x k j r)"

text \<open>Where a run stops: where the process is found dead.\<close>

definition stopped :: "move_site \<Rightarrow> fill_services \<Rightarrow> fworld \<Rightarrow> bool" where
  "stopped x sv w \<longleftrightarrow> on_course x w \<and> \<not> fv_alive sv (fw_tick w)"

abbreviation goes ::
  "move_site \<Rightarrow> fill_services \<Rightarrow> (fworld \<Rightarrow> bool) \<Rightarrow> 'a fio \<Rightarrow> ('a \<Rightarrow> fworld \<Rightarrow> bool) \<Rightarrow> bool" where
  "goes x sv P m Q \<equiv> triple (stopped x sv) P m Q (\<lambda>_ _. False)"

abbreviation finds :: "move_site \<Rightarrow> fill_services \<Rightarrow> (fworld \<Rightarrow> bool) \<Rightarrow> 'a fio \<Rightarrow> 'a \<Rightarrow> bool" where
  "finds x sv P m v \<equiv> sure (stopped x sv) P m v"

lemma stands_course: "stands x k j r w \<Longrightarrow> coherent x k j r \<Longrightarrow> on_course x w"
  unfolding on_course_def by blast

section \<open>Statements that only look\<close>

lemma ask_goes:
  assumes "coherent x k j r"
  shows "goes x sv (stands x k j r) (f_ask sv q) (\<lambda>a w. (\<exists>n. a = q n) \<and> stands x k j r w)"
  using stands_course [OF _ assms] by (auto simp: triple_def f_ask_def f_alive_def stopped_def stands_def)

lemma ask_finds:
  assumes "coherent x k j r" and "\<And>n. q n = v"
  shows "finds x sv (stands x k j r) (f_ask sv q) v"
  unfolding sure_def by (rule triple_weaken [OF ask_goes [OF assms(1)]]) (use assms(2) in auto)

lemma look_finds:
  assumes "coherent x k j r" and "at_place x sv" and "\<And>fs. config x k fs \<Longrightarrow> g fs = v"
  shows "finds x sv (stands x k j r) (f_look sv g) v"
  using stands_course [OF _ assms(1)] assms(2,3)
  by (auto simp: sure_def triple_def f_look_def f_fs_def f_alive_def stopped_def stands_def at_place_def)

lemma stat_goes:
  assumes "coherent x k j r" and "at_place x sv"
    and "\<And>fs. config x k fs \<Longrightarrow> \<exists>st. fs_stat p fs = Some st \<and> A st"
  shows "goes x sv (stands x k j r) (f_stat sv p) (\<lambda>st w. A st \<and> stands x k j r w)"
  unfolding triple_def
proof (intro allI impI)
  fix w assume w: "stands x k j r w"
  then obtain st where st: "fs_stat p (fw_fs w) = Some st" "A st" using assms(3) by (auto simp: stands_def)
  show "case f_stat sv p w of (Value a, w') \<Rightarrow> A a \<and> stands x k j r w' | (Raised e, w') \<Rightarrow> False | (Stuck, w') \<Rightarrow> stopped x sv w'"
    using st w assms(2) stands_course [OF w assms(1)]
    by (simp add: f_stat_def f_fs_def f_alive_def stopped_def sys_stat_def at_place_def stands_def)
qed

lemma stat_missing:
  assumes "coherent x k j r" and "at_place x sv" and "\<And>fs. config x k fs \<Longrightarrow> fs_stat p fs = None"
  shows "triple (stopped x sv) (stands x k j r) (f_stat sv p) (\<lambda>_ _. False) (\<lambda>e w. e = OsError ENOENT \<and> stands x k j r w)"
  unfolding triple_def
proof (intro allI impI)
  fix w assume w: "stands x k j r w"
  then have "fs_stat p (fw_fs w) = None" using assms(3) by (simp add: stands_def)
  then show "case f_stat sv p w of (Value a, w') \<Rightarrow> False | (Raised e, w') \<Rightarrow> e = OsError ENOENT \<and> stands x k j r w' | (Stuck, w') \<Rightarrow> stopped x sv w'"
    using w assms(2) stands_course [OF w assms(1)]
    by (simp add: f_stat_def f_fs_def f_alive_def stopped_def sys_stat_def at_place_def stands_def)
qed

text \<open>What the names and the roots look like.\<close>

lemma config_names:
  assumes "config x k fs"
  shows "fs_exists (ms_source x) fs = at_source k" "fs_exists (ms_destination x) fs = (k \<noteq> Untouched)"
    "fs_exists (ms_quarantine x) fs = (k = Put_Aside)" "fs_is_file (ms_source x) fs = at_source k"
    "fs_is_symlink p fs = False"
  using assms by (auto simp: config_def placed_def fs_exists_def fs_is_file_def fs_is_symlink_def split: fnode.split option.split)

lemma config_roots:
  assumes "config x k fs" and "p = ms_root x \<or> p = cr_source_root (ms_candidate x)"
  shows "fs_is_dir p fs" "fs_exists p fs" "\<exists>st. fs_stat p fs = Some st \<and> fg_device st = fg_device (ms_fingerprint x)"
  using assms by (auto simp: config_def is_root_def fs_is_dir_def fs_exists_def fs_stat_def fingerprint_of_def)

text \<open>Whether a name of the file is there.\<close>

definition name_there :: "move_site \<Rightarrow> names \<Rightarrow> string \<Rightarrow> bool option" where
  "name_there x k p =
     (if p = ms_source x then Some (at_source k) else if p = ms_destination x then Some (k \<noteq> Untouched)
      else if p = ms_quarantine x then Some (k = Put_Aside) else None)"

lemma name_there_names:
  assumes "laid_out x"
  shows "name_there x k (ms_source x) = Some (at_source k)" "name_there x k (ms_destination x) = Some (k \<noteq> Untouched)"
    "name_there x k (ms_quarantine x) = Some (k = Put_Aside)"
  using assms by (auto simp: name_there_def laid_out_def)

lemma config_node:
  assumes "config x k fs" and "name_there x k p = Some b"
  shows "fs_node fs p = placed x b"
  using assms by (auto simp: config_def name_there_def split: if_splits)

lemma config_stat:
  assumes "config x k fs" and "name_there x k p = Some b"
  shows "fs_stat p fs = (if b then Some (fingerprint_of (ms_inode x) fs) else None)"
  using config_node [OF assms] by (simp add: fs_stat_def placed_def)

text \<open>The fingerprint of the file as a name shows it.\<close>

definition as_linked :: "move_site \<Rightarrow> names \<Rightarrow> fingerprint \<Rightarrow> bool" where
  "as_linked x k st \<longleftrightarrow> linked_identity st (ms_fingerprint x) \<and> (k = Untouched \<longrightarrow> st = ms_fingerprint x)"

lemma config_linked: "config x k fs \<Longrightarrow> as_linked x k (fingerprint_of (ms_inode x) fs)"
  by (simp add: config_def as_linked_def)

lemma matches_finds:
  assumes "coherent x k j r" and "at_place x sv" and "name_there x k p = Some b" and "\<And>st. b \<Longrightarrow> as_linked x k st \<Longrightarrow> f st"
  shows "finds x sv (stands x k j r) (matches_if_present sv f p) b"
proof (cases b)
  case True
  have "goes x sv (stands x k j r) (f_stat sv p) (\<lambda>st w. as_linked x k st \<and> stands x k j r w)"
    using config_stat [OF _ assms(3)] config_linked True by (intro stat_goes [OF assms(1,2)]) simp
  then have "finds x sv (stands x k j r) (bind_io (f_stat sv p) (\<lambda>st. ret (f st))) b"
    using assms(4) True by (intro sure_bind_value [where A = "as_linked x k"]) (simp_all add: sure_ret)
  then show ?thesis
    unfolding matches_if_present_def os_error_is_def
    by (intro sure_catch sure_then [OF look_finds [OF assms(1,2), of _ False]]) (simp_all add: config_names)
next
  case False
  have "triple (stopped x sv) (stands x k j r)
      (bind_io (f_look sv (fs_is_symlink p)) (\<lambda>link. if link then ret False else bind_io (f_stat sv p) (\<lambda>st. ret (f st))))
      (\<lambda>a w. a = b \<and> stands x k j r w) (\<lambda>e w. e = OsError ENOENT \<and> stands x k j r w)"
  proof (rule sure_bind [OF look_finds [OF assms(1,2), of _ False]])
    show "triple (stopped x sv) (stands x k j r) (if False then ret False else bind_io (f_stat sv p) (\<lambda>st. ret (f st)))
      (\<lambda>a w. a = b \<and> stands x k j r w) (\<lambda>e w. e = OsError ENOENT \<and> stands x k j r w)"
      using stat_missing [OF assms(1,2), of p] config_stat [OF _ assms(3)] False
      by (simp, intro triple_bind) (auto simp: triple_def)
  qed (simp add: config_names)
  then show ?thesis
    unfolding matches_if_present_def os_error_is_def sure_def
    by (rule triple_catch) (use False in \<open>auto simp: triple_def ret_def raise_io_def split: fill_exn.split\<close>)
qed

lemma same_finds:
  assumes "coherent x k j r" and "at_place x sv" and "name_there x k p = Some True" and "name_there x k q = Some True"
  shows "finds x sv (stands x k j r) (same_inode sv p q) True"
proof -
  have st: "goes x sv (stands x k j r) (f_stat sv p') (\<lambda>st w. as_linked x k st \<and> stands x k j r w)"
    if "name_there x k p' = Some True" for p'
    using config_stat [OF _ that] config_linked by (intro stat_goes [OF assms(1,2)]) simp
  show ?thesis
    unfolding same_inode_def os_error_is_def
    by (intro sure_catch sure_bind_value [OF st [OF assms(3)]] sure_bind_value [OF st [OF assms(4)]])
      (simp add: as_linked_def linked_identity_def sure_def triple_ret)
qed

lemma matches_goes:
  assumes "coherent x k j r" and "at_place x sv" and "name_there x k p = Some True"
  shows "goes x sv (stands x k j r) (matches_if_present sv f p) (\<lambda>_. stands x k j r)"
proof -
  have st: "goes x sv (stands x k j r) (f_stat sv p) (\<lambda>st w. True \<and> stands x k j r w)"
    using config_stat [OF _ assms(3)] by (intro stat_goes [OF assms(1,2)]) simp
  have "goes x sv (stands x k j r) (bind_io (f_look sv (fs_is_symlink p)) (\<lambda>link.
      if link then ret False else bind_io (f_stat sv p) (\<lambda>st. ret (f st)))) (\<lambda>_. stands x k j r)"
    by (rule sure_bind [OF look_finds [OF assms(1,2), of _ False]], simp add: config_names, simp only: if_False,
      rule triple_bind [OF st], rule triple_ret) simp
  then show ?thesis
    unfolding matches_if_present_def os_error_is_def by (rule triple_catch) (simp add: triple_def)
qed

lemma paths_find:
  assumes "coherent x k j r" and "at_place x sv" and "\<And>root. root = ms_root x \<Longrightarrow> finds x sv (stands x k j r) (f root) v"
  shows "finds x sv (stands x k j r) (in_move_in sv f) v"
proof -
  have rt: "goes x sv (stands x k j r) (f_runtime sv) (\<lambda>rt w. map_option fi_move_in_path (rt_paths rt) = Some (ms_root x) \<and> stands x k j r w)"
    unfolding f_runtime_def
    by (rule triple_weaken [OF ask_goes [OF assms(1)]]) (use assms(2) in \<open>auto simp: at_place_def\<close>)
  have paths: "goes x sv (stands x k j r) (f_paths sv) (\<lambda>pp w. fi_move_in_path pp = ms_root x \<and> stands x k j r w)"
    unfolding f_paths_def by (rule triple_bind [OF rt]) (auto simp: triple_def ret_def raise_io_def split: option.split)
  show ?thesis unfolding in_move_in_def by (rule sure_bind_value [OF paths]) (rule assms(3))
qed

lemma paths_goes:
  assumes "coherent x k j r" and "at_place x sv"
  shows "goes x sv (stands x k j r) (f_paths sv) (\<lambda>pp w. fi_move_in_path pp = ms_root x \<and> stands x k j r w)"
proof -
  have rt: "goes x sv (stands x k j r) (f_runtime sv) (\<lambda>rt w. map_option fi_move_in_path (rt_paths rt) = Some (ms_root x) \<and> stands x k j r w)"
    unfolding f_runtime_def
    by (rule triple_weaken [OF ask_goes [OF assms(1)]]) (use assms(2) in \<open>auto simp: at_place_def\<close>)
  then show ?thesis
    unfolding f_paths_def by (rule triple_bind) (auto simp: triple_def ret_def raise_io_def split: option.split)
qed

lemma quarantine_finds:
  assumes "coherent x k j r" and "at_place x sv"
  shows "finds x sv (stands x k j r) (quarantine_path sv (ms_candidate x)) (ms_quarantine x)"
  unfolding quarantine_path_def
  by (rule sure_bind_value [OF paths_goes [OF assms]]) (use assms(2) in \<open>simp add: at_place_def sure_def triple_ret\<close>)

section \<open>System calls that change the names\<close>

lemma op_goes:
  assumes "coherent x k j r" and "at_place x sv"
    and "\<And>n fs. config x k fs \<Longrightarrow> fst (f n fs) = Inr a \<and> config x k' (snd (f n fs))"
  shows "goes x sv (stands x k j r) (f_fs sv f) (\<lambda>b w. b = a \<and> stands x k' j r w)"
  unfolding triple_def
proof (intro allI impI)
  fix w assume w: "stands x k j r w"
  then have "fst (f (fw_tick w) (fw_fs w)) = Inr a \<and> config x k' (snd (f (fw_tick w) (fw_fs w)))"
    using assms(3) by (simp add: stands_def)
  then show "case f_fs sv f w of (Value b, w') \<Rightarrow> b = a \<and> stands x k' j r w' | (Raised e, w') \<Rightarrow> False | (Stuck, w') \<Rightarrow> stopped x sv w'"
    using w assms(2) stands_course [OF w assms(1)]
    by (cases "f (fw_tick w) (fw_fs w)") (simp add: f_fs_def f_alive_def stopped_def at_place_def stands_def)
qed

lemma op_refused:
  assumes "coherent x k j r" and "at_place x sv" and "\<And>n fs. config x k fs \<Longrightarrow> f n fs = (Inl e, fs)"
  shows "finds x sv (stands x k j r) (tried (f_fs sv f)) (Inl e)"
  unfolding sure_def triple_def
proof (intro allI impI)
  fix w assume w: "stands x k j r w"
  then have "f (fw_tick w) (fw_fs w) = (Inl e, fw_fs w)" using assms(3) by (simp add: stands_def)
  then show "case tried (f_fs sv f) w of (Value b, w') \<Rightarrow> b = Inl e \<and> stands x k j r w' | (Raised e, w') \<Rightarrow> False | (Stuck, w') \<Rightarrow> stopped x sv w'"
    using w assms(2) stands_course [OF w assms(1)]
    by (simp add: tried_def catch_io_def bind_io_def ret_def f_fs_def f_alive_def stopped_def at_place_def stands_def)
qed

lemma tried_goes:
  assumes "goes x sv P m (\<lambda>b w. b = a \<and> Q w)"
  shows "goes x sv P (tried m) (\<lambda>b w. b = Inr a \<and> Q w)"
  unfolding tried_def
proof (rule triple_catch)
  show "goes x sv P (bind_io m (\<lambda>a. ret (Inr a))) (\<lambda>b w. b = Inr a \<and> Q w)"
    by (rule triple_bind [OF assms]) (auto intro: triple_ret)
qed (simp add: triple_def)

lemma touched_fingerprint:
  "linked_identity (fingerprint_of i (fs\<lparr>fs_node := g, fs_attr := touched ct n (fs_attr fs)\<rparr>)) fg
    = linked_identity (fingerprint_of i fs) fg"
  by (auto simp: linked_identity_def fingerprint_of_def touched_def split: fnode.split)

lemma config_step:
  assumes "laid_out x" and "config x k fs" and "k' \<noteq> Untouched"
    and "\<And>p. name_there x k p = None \<Longrightarrow> g p = fs_node fs p"
    and "g (ms_source x) = placed x (at_source k')" and "g (ms_destination x) = placed x True"
    and "g (ms_quarantine x) = placed x (k' = Put_Aside)"
  shows "config x k' (fs\<lparr>fs_node := g, fs_attr := touched ct n (fs_attr fs)\<rparr>)"
proof -
  have others: "name_there x k p = None" if "p \<in> {cr_source_root (ms_candidate x), ms_root x, path_parent (ms_destination x)}" for p
    using assms(1) that by (auto simp: name_there_def laid_out_def)
  have links: "g p \<noteq> Some (Symlink e)" for p e
  proof (cases "name_there x k p")
    case None
    with assms(2,4) show ?thesis by (simp add: config_def)
  next
    case (Some b)
    then have "p = ms_source x \<or> p = ms_destination x \<or> p = ms_quarantine x" by (simp add: name_there_def split: if_splits)
    with assms(5-7) show ?thesis by (auto simp: placed_def split: if_splits)
  qed
  let ?fs = "fs\<lparr>fs_node := g, fs_attr := touched ct n (fs_attr fs)\<rparr>"
  have roots: "is_root x (cr_source_root (ms_candidate x)) ?fs" "is_root x (ms_root x) ?fs"
    using assms(2,4) others by (simp_all add: config_def is_root_def)
  have parent: "fs_node ?fs (path_parent (ms_destination x)) = None \<or> fs_is_dir (path_parent (ms_destination x)) ?fs"
    using assms(2,4) others by (simp add: config_def fs_is_dir_def)
  have linked: "linked_identity (fingerprint_of (ms_inode x) ?fs) (ms_fingerprint x)"
    using assms(2) by (simp add: touched_fingerprint config_def)
  show ?thesis
    unfolding config_def using links roots parent linked assms(3,5-7) by simp
qed

lemma config_moved:
  assumes "laid_out x" and "config x k fs" and "k' \<noteq> Untouched"
    and "\<And>q. (name_there x k q = None \<longrightarrow> name_there x k' q = None) "
    and "name_there x k p = Some True" and "name_there x k q = Some False"
    and "\<And>a b. name_there x k a = Some b \<Longrightarrow> name_there x k' a = Some (if a = q then True else if a = p then False else b)"
  shows "config x k' (fs_move ct p q (Node (Regular (ms_inode x))) fs)"
proof -
  let ?g = "(fs_node fs)(p := None, q := Some (Node (Regular (ms_inode x))))"
  have at: "?g a = placed x b" if a: "name_there x k' a = Some b" for a b
  proof -
    obtain b' where b': "name_there x k a = Some b'" using a assms(4) [of a] by (cases "name_there x k a") auto
    then have "b = (if a = q then True else if a = p then False else b')" using assms(7) [OF b'] a by simp
    then show ?thesis using config_node [OF assms(2) b'] by (auto simp: placed_def)
  qed
  have "config x k' (fs\<lparr>fs_node := ?g, fs_attr := touched ct (Node (Regular (ms_inode x))) (fs_attr fs)\<rparr>)"
  proof (rule config_step [OF assms(1-3)])
    show "?g a = fs_node fs a" if "name_there x k a = None" for a using that assms(5,6) by auto
    show "?g (ms_source x) = placed x (at_source k')" "?g (ms_destination x) = placed x True" "?g (ms_quarantine x) = placed x (k' = Put_Aside)"
      using at name_there_names [OF assms(1), of k'] assms(3) by simp_all
  qed
  then show ?thesis by (simp add: fs_move_def)
qed

lemma nodes_at:
  assumes "config x k fs" and "laid_out x"
  shows "fs_node fs (ms_source x) = placed x (at_source k)" "fs_node fs (ms_destination x) = placed x (k \<noteq> Untouched)"
    "fs_node fs (ms_quarantine x) = placed x (k = Put_Aside)"
    "ms_source x \<noteq> ms_destination x" "ms_source x \<noteq> ms_quarantine x" "ms_destination x \<noteq> ms_quarantine x"
  using assms by (auto simp: config_def laid_out_def)

lemma rename_goes:
  assumes "coherent x Untouched j r" and "at_place x sv" and "laid_out x" and "fv_noreplace sv = None"
  shows "goes x sv (stands x Untouched j r) (tried (f_fs sv (sys_rename_no_replace sv (ms_source x) (ms_destination x))))
    (\<lambda>b w. b = Inr () \<and> stands x Arrived j r w)"
proof (intro tried_goes op_goes assms(1,2))
  fix n fs assume c: "config x Untouched fs"
  note nodes = nodes_at [OF c assms(3)]
  have "config x Arrived (fs_move (fv_ctime sv n) (ms_source x) (ms_destination x) (Node (Regular (ms_inode x))) fs)"
    by (rule config_moved [OF assms(3) c]) (use assms(3) in \<open>auto simp: name_there_def laid_out_def split: if_splits\<close>)
  then show "fst (sys_rename_no_replace sv (ms_source x) (ms_destination x) n fs) = Inr ()
      \<and> config x Arrived (snd (sys_rename_no_replace sv (ms_source x) (ms_destination x) n fs))"
    using nodes assms(2,4) by (simp add: sys_rename_no_replace_def placed_def at_place_def)
qed

lemma rename_refused:
  assumes "coherent x k j r" and "at_place x sv" and "laid_out x" and "fv_noreplace sv = Some e"
    and "name_there x k p = Some True" and "name_there x k q = Some False"
  shows "finds x sv (stands x k j r) (tried (f_fs sv (sys_rename_no_replace sv p q))) (Inl e)"
  by (rule op_refused [OF assms(1,2)])
    (use assms(2,4) in \<open>simp add: sys_rename_no_replace_def config_node [OF _ assms(5)] config_node [OF _ assms(6)] placed_def at_place_def\<close>)

lemma link_goes:
  assumes "coherent x Untouched j r" and "at_place x sv" and "laid_out x"
  shows "goes x sv (stands x Untouched j r) (tried (f_fs sv (sys_link sv (ms_source x) (ms_destination x))))
    (\<lambda>b w. b = Inr () \<and> stands x Linked_Twice j r w)"
proof (intro tried_goes op_goes assms(1,2))
  fix n fs assume c: "config x Untouched fs"
  note nodes = nodes_at [OF c assms(3)]
  let ?g = "(fs_node fs)(ms_destination x := Some (Node (Regular (ms_inode x))))"
  have "config x Linked_Twice (fs\<lparr>fs_node := ?g, fs_attr := touched (fv_ctime sv n) (Node (Regular (ms_inode x))) (fs_attr fs)\<rparr>)"
    by (rule config_step [OF assms(3) c]) (use nodes in \<open>auto simp: placed_def name_there_def split: if_splits\<close>)
  then show "fst (sys_link sv (ms_source x) (ms_destination x) n fs) = Inr ()
      \<and> config x Linked_Twice (snd (sys_link sv (ms_source x) (ms_destination x) n fs))"
    using nodes assms(2) by (simp add: sys_link_def placed_def at_place_def)
qed

lemma unlink_goes:
  assumes "coherent x Put_Aside j r" and "at_place x sv" and "laid_out x"
  shows "goes x sv (stands x Put_Aside j r) (tried (f_fs sv (sys_unlink sv (ms_quarantine x))))
    (\<lambda>b w. b = Inr () \<and> stands x Arrived j r w)"
proof (intro tried_goes op_goes assms(1,2))
  fix n fs assume c: "config x Put_Aside fs"
  note nodes = nodes_at [OF c assms(3)]
  let ?g = "(fs_node fs)(ms_quarantine x := None)"
  have "config x Arrived (fs\<lparr>fs_node := ?g, fs_attr := touched (fv_ctime sv n) (Node (Regular (ms_inode x))) (fs_attr fs)\<rparr>)"
    by (rule config_step [OF assms(3) c]) (use nodes in \<open>auto simp: placed_def name_there_def split: if_splits\<close>)
  then show "fst (sys_unlink sv (ms_quarantine x) n fs) = Inr () \<and> config x Arrived (snd (sys_unlink sv (ms_quarantine x) n fs))"
    using nodes assms(2) by (simp add: sys_unlink_def placed_def at_place_def)
qed

lemma aside_config:
  assumes "laid_out x" and "config x Linked_Twice fs"
  shows "config x Put_Aside (fs_move ct (ms_source x) (ms_quarantine x) (Node (Regular (ms_inode x))) fs)"
  by (rule config_moved [OF assms]) (use assms(1) in \<open>auto simp: name_there_def laid_out_def split: if_splits\<close>)

lemma aside_goes:
  assumes "coherent x Linked_Twice j r" and "at_place x sv" and "laid_out x"
  shows "goes x sv (stands x Linked_Twice j r) (tried (move_to_quarantine sv (ms_source x) (ms_quarantine x)))
    (\<lambda>b w. b = Inr () \<and> stands x Put_Aside j r w)"
proof (rule tried_goes, cases "fv_noreplace sv")
  case None
  have "goes x sv (stands x Linked_Twice j r) (tried (f_fs sv (sys_rename_no_replace sv (ms_source x) (ms_quarantine x))))
      (\<lambda>b w. b = Inr () \<and> stands x Put_Aside j r w)"
  proof (intro tried_goes op_goes assms(1,2))
    fix n fs assume c: "config x Linked_Twice fs"
    show "fst (sys_rename_no_replace sv (ms_source x) (ms_quarantine x) n fs) = Inr ()
        \<and> config x Put_Aside (snd (sys_rename_no_replace sv (ms_source x) (ms_quarantine x) n fs))"
      using nodes_at [OF c assms(3)] aside_config [OF assms(3) c] assms(2) None
      by (simp add: sys_rename_no_replace_def placed_def at_place_def)
  qed
  then show "goes x sv (stands x Linked_Twice j r) (move_to_quarantine sv (ms_source x) (ms_quarantine x)) (\<lambda>b w. b = () \<and> stands x Put_Aside j r w)"
    unfolding move_to_quarantine_def by (rule triple_bind) (auto simp: triple_def ret_def)
next
  case (Some e)
  then have e: "e \<in> rename_unsupported" using assms(2) by (simp add: at_place_def)
  have "goes x sv (stands x Linked_Twice j r) (f_fs sv (sys_rename sv (ms_source x) (ms_quarantine x))) (\<lambda>b w. b = () \<and> stands x Put_Aside j r w)"
  proof (intro op_goes assms(1,2))
    fix n fs assume c: "config x Linked_Twice fs"
    show "fst (sys_rename sv (ms_source x) (ms_quarantine x) n fs) = Inr ()
        \<and> config x Put_Aside (snd (sys_rename sv (ms_source x) (ms_quarantine x) n fs))"
      using nodes_at [OF c assms(3)] aside_config [OF assms(3) c] assms(2)
      by (simp add: sys_rename_def placed_def at_place_def)
  qed
  then have rest: "goes x sv (stands x Linked_Twice j r)
      (bind_io (f_look sv (fs_exists (ms_quarantine x))) (\<lambda>there.
        if there then raise_io (OsError EEXIST) else f_fs sv (sys_rename sv (ms_source x) (ms_quarantine x))))
      (\<lambda>b w. b = () \<and> stands x Put_Aside j r w)"
    by (intro sure_bind [OF look_finds [OF assms(1,2), of _ False]]) (simp_all add: config_names)
  note there = name_there_names [OF assms(3), of Linked_Twice]
  have "finds x sv (stands x Linked_Twice j r) (tried (f_fs sv (sys_rename_no_replace sv (ms_source x) (ms_quarantine x)))) (Inl e)"
    by (rule rename_refused [OF assms Some]) (simp_all add: there)
  then show "goes x sv (stands x Linked_Twice j r) (move_to_quarantine sv (ms_source x) (ms_quarantine x)) (\<lambda>b w. b = () \<and> stands x Put_Aside j r w)"
    unfolding move_to_quarantine_def by (rule sure_bind) (use e rest in simp)
qed

section \<open>The parts of a move\<close>

text \<open>From anywhere, to the file arrived and the move answered as done.\<close>

abbreviation arrives :: "move_site \<Rightarrow> fill_services \<Rightarrow> names \<Rightarrow> journal_state option \<Rightarrow> move_result option \<Rightarrow> move_result fio \<Rightarrow> bool" where
  "arrives x sv k j r m \<equiv> goes x sv (stands x k j r) m (\<lambda>a w. a = ms_moved x \<and> stands x Arrived j r w)"

lemma arrives_ret: "arrives x sv Arrived j r (ret (ms_moved x))"
  by (rule triple_ret) simp

lemma finish_arrives:
  assumes "coherent x Put_Aside j r" and "at_place x sv" and "laid_out x"
  shows "arrives x sv Put_Aside j r (finish_quarantined sv (ms_candidate x) (ms_quarantine x))"
proof -
  note there = name_there_names [OF assms(3), of Put_Aside]
  note linked = matches_finds [OF assms(1,2), where f = "\<lambda>st. linked_identity st (ms_fingerprint x)"]
  show ?thesis
    unfolding finish_quarantined_def matches_linked_def
    by (rule sure_bind [OF linked [OF there(3)]], simp add: as_linked_def,
      rule sure_bind [OF linked [OF there(2)]], simp add: as_linked_def,
      simp, rule sure_bind [OF same_finds [OF assms(1,2)]], use there in simp, use there in simp,
      simp, rule triple_bind_value [OF unlink_goes [OF assms]], simp add: arrives_ret)
qed

abbreviation prepared :: "move_site \<Rightarrow> names \<Rightarrow> fworld \<Rightarrow> bool" where
  "prepared x k \<equiv> stands x k (Some JPREPARED) None"

lemma prepared_coherent: "coherent x k (Some JPREPARED) None"
  by (simp add: coherent_def)

lemmas prepared_looks = look_finds [OF prepared_coherent]
lemmas prepared_matches = matches_finds [OF prepared_coherent]

lemma put_aside_arrives:
  assumes "at_place x sv" and "laid_out x"
  shows "arrives x sv Linked_Twice (Some JPREPARED) None
    (bind_io (tried (move_to_quarantine sv (ms_source x) (ms_quarantine x))) (\<lambda>q. case q of
        Inl _ \<Rightarrow> ret (local_result (ms_candidate x) MOVE_FAILED (Some e))
      | Inr _ \<Rightarrow> finish_quarantined sv (ms_candidate x) (ms_quarantine x)))"
  by (rule triple_bind_value [OF aside_goes [OF prepared_coherent assms]]) (simp add: finish_arrives [OF prepared_coherent assms])

lemma fallback_arrives:
  assumes "at_place x sv" and "laid_out x"
  shows "arrives x sv Untouched (Some JPREPARED) None (apply_hardlink_fallback sv (ms_candidate x))"
proof -
  note c = prepared_coherent
  note there = name_there_names [OF assms(2), of Linked_Twice]
  note linked = prepared_matches [OF assms(1), where f = "\<lambda>st. linked_identity st (ms_fingerprint x)"]
  have linked_twice: "arrives x sv Linked_Twice (Some JPREPARED) None
      (bind_io (matches_linked sv (ms_destination x) (ms_fingerprint x)) (\<lambda>destination_matches.
       bind_io (matches_linked sv (ms_source x) (ms_fingerprint x)) (\<lambda>source_matches.
       if \<not> destination_matches then rollback_unexpected_link sv (ms_candidate x) (ms_quarantine x)
       else
         bind_io (f_look sv (fs_exists (ms_source x))) (\<lambda>there.
         if \<not> there \<or> \<not> source_matches then ret (local_result (ms_candidate x) MOVED None)
         else
           bind_io (tried (move_to_quarantine sv (ms_source x) (ms_quarantine x))) (\<lambda>q. case q of
             Inl _ \<Rightarrow> ret (local_result (ms_candidate x) MOVE_FAILED (Some ''move_rollback_failed''))
           | Inr _ \<Rightarrow> finish_quarantined sv (ms_candidate x) (ms_quarantine x))))))"
    unfolding matches_linked_def
    by (rule sure_bind [OF linked [OF there(2)]], simp add: as_linked_def,
      rule sure_bind [OF linked [OF there(1)]], simp add: as_linked_def,
      simp, rule sure_bind [OF prepared_looks [OF assms(1), of _ _ True]], simp add: config_names, simp add: put_aside_arrives [OF assms])
  show ?thesis
    unfolding apply_hardlink_fallback_def
    by (rule sure_bind [OF quarantine_finds [OF c assms(1)]],
      rule sure_bind [OF prepared_looks [OF assms(1), of _ _ False]], simp add: config_names,
      simp only: if_False, rule triple_bind_value [OF link_goes [OF c assms]], simp add: linked_twice)
qed

lemma rename_source_arrives:
  assumes "at_place x sv" and "laid_out x"
  shows "arrives x sv Untouched (Some JPREPARED) None (rename_source sv (ms_candidate x))"
proof (cases "fv_noreplace sv")
  case None
  note there = name_there_names [OF assms(2), of Arrived]
  note linked = prepared_matches [OF assms(1), where f = "\<lambda>st. linked_identity st (ms_fingerprint x)"]
  have "arrives x sv Arrived (Some JPREPARED) None
      (bind_io (matches_linked sv (ms_destination x) (ms_fingerprint x)) (\<lambda>destination_matches.
         if destination_matches then ret (local_result (ms_candidate x) MOVED None)
         else
           bind_io (tried (f_fs sv (sys_rename_no_replace sv (ms_destination x) (ms_source x)))) (\<lambda>r.
           case r of
             Inl _ \<Rightarrow> ret (local_result (ms_candidate x) MOVE_FAILED (Some ''move_rollback_failed''))
           | Inr _ \<Rightarrow> ret (local_result (ms_candidate x) STALE (Some ''source_changed_during_move'')))))"
    unfolding matches_linked_def
    by (rule sure_bind [OF linked [OF there(2)]], simp add: as_linked_def, simp add: arrives_ret)
  then show ?thesis
    unfolding rename_source_def
    by (intro triple_bind_value [OF rename_goes [OF prepared_coherent assms None]]) simp
next
  case (Some e)
  then have e: "e \<in> rename_unsupported" "e \<noteq> EEXIST" using assms(1) by (auto simp: at_place_def rename_unsupported_def)
  note there = name_there_names [OF assms(2), of Untouched]
  have "finds x sv (prepared x Untouched) (tried (f_fs sv (sys_rename_no_replace sv (ms_source x) (ms_destination x)))) (Inl e)"
    by (rule rename_refused [OF prepared_coherent assms Some]) (simp_all add: there)
  then show ?thesis
    unfolding rename_source_def by (rule sure_bind) (use e fallback_arrives [OF assms] in simp)
qed

text \<open>The checks find nothing in the way.\<close>

lemma symlink_finds:
  assumes "coherent x k j r" and "at_place x sv" and "relative_parts p root \<noteq> None"
  shows "finds x sv (stands x k j r) (has_symlink_component sv p root) False"
proof -
  have below: "finds x sv (stands x k j r) (symlink_below sv q ns) False" for q ns
  proof (induction ns arbitrary: q)
    case (Cons n ns)
    show ?case
      unfolding symlink_below.simps
      by (rule sure_then [OF look_finds [OF assms(1,2), of _ False]], simp add: config_names, simp add: Cons.IH)
  qed (simp add: sure_ret)
  from assms(3) obtain ns where "relative_parts p root = Some ns" by auto
  then show ?thesis
    unfolding has_symlink_component_def
    by (simp, intro sure_then [OF look_finds [OF assms(1,2), of _ False]]) (simp_all add: config_names below)
qed

lemma within_finds:
  assumes "coherent x k j r" and "at_place x sv" and "relative_parts p root \<noteq> None"
    and "root = ms_root x \<or> root = cr_source_root (ms_candidate x)"
  shows "finds x sv (stands x k j r) (is_within sv p root) True"
  unfolding is_within_def
proof (rule sure_then [OF ask_finds [OF assms(1)]])
  show "(fv_resolve sv n p, fv_resolve sv n root) = (p, root)" for n using assms(2) by (simp add: at_place_def)
  show "finds x sv (stands x k j r) (case (p, root) of (p', root') \<Rightarrow>
      bind_io (f_look sv (fs_exists root)) (\<lambda>there. ret (there \<and> relative_parts p' root' \<noteq> None))) True"
    using assms(3) config_roots(2) [OF _ assms(4)]
    by (simp, intro sure_then [OF look_finds [OF assms(1,2), of _ True]]) (simp_all add: sure_ret)
qed

lemma not_finds: "finds x sv P m b \<Longrightarrow> finds x sv P (not_io m) (\<not> b)"
  unfolding not_io_def by (rule sure_then, assumption, rule sure_ret)

lemma outside_finds:
  assumes "coherent x k j r" and "at_place x sv" and "laid_out x"
  shows "finds x sv (stands x k j r) (outside_roots sv (ms_candidate x)) False"
  unfolding outside_roots_def
  by (rule sure_then [OF within_finds [OF assms(1,2)]], use assms(3) in \<open>simp add: laid_out_def\<close>, simp,
    simp, rule not_finds [of _ _ _ _ True, simplified],
    intro paths_find [OF assms(1,2)] within_finds [OF assms(1,2)], use assms(3) in \<open>auto simp: laid_out_def\<close>)

lemma made_goes:
  assumes "coherent x k j r" and "at_place x sv" and "\<And>n fs. config x k fs \<Longrightarrow>
      fst (f n fs) = Inr () \<and> config x k (snd (f n fs)) \<and> fs_is_dir p (snd (f n fs))"
  shows "goes x sv (stands x k j r) (tried (f_fs sv f)) (\<lambda>b w. b = Inr () \<and> stands x k j r w \<and> fs_is_dir p (fw_fs w))"
proof (rule tried_goes)
  show "goes x sv (stands x k j r) (f_fs sv f) (\<lambda>b w. b = () \<and> stands x k j r w \<and> fs_is_dir p (fw_fs w))"
    unfolding triple_def
  proof (intro allI impI)
    fix w assume w: "stands x k j r w"
    then have "fst (f (fw_tick w) (fw_fs w)) = Inr () \<and> config x k (snd (f (fw_tick w) (fw_fs w)))
        \<and> fs_is_dir p (snd (f (fw_tick w) (fw_fs w)))"
      using assms(3) by (simp add: stands_def)
    then show "case f_fs sv f w of (Value b, w') \<Rightarrow> b = () \<and> stands x k j r w' \<and> fs_is_dir p (fw_fs w')
        | (Raised e, w') \<Rightarrow> False | (Stuck, w') \<Rightarrow> stopped x sv w'"
      using w assms(2) stands_course [OF w assms(1)]
      by (cases "f (fw_tick w) (fw_fs w)") (simp add: f_fs_def f_alive_def stopped_def at_place_def stands_def)
  qed
qed

lemma made_looks:
  assumes "coherent x k j r" and "at_place x sv" and "\<And>fs. config x k fs \<Longrightarrow> fs_is_dir p fs \<Longrightarrow> g fs = v"
  shows "finds x sv (\<lambda>w. stands x k j r w \<and> fs_is_dir p (fw_fs w)) (f_look sv g) v"
  using stands_course [OF _ assms(1)] assms(2,3)
  by (auto simp: sure_def triple_def f_look_def f_fs_def f_alive_def stopped_def stands_def at_place_def)

lemma parent_finds:
  assumes "coherent x k j r" and "at_place x sv" and "laid_out x"
  shows "finds x sv (stands x k j r) (prepare_destination_parent sv (ms_destination x)) True"
proof (cases "path_parent (ms_destination x) = ms_root x")
  case True
  then show ?thesis
    unfolding prepare_destination_parent_def
    by (intro sure_bind_value [OF paths_goes [OF assms(1,2)]]) (simp add: sure_ret)
next
  case False
  let ?p = "path_parent (ms_destination x)"
  have lay: "path_parent ?p = ms_root x" "relative_parts ?p (ms_root x) \<noteq> None"
    "name_there x k ?p = None" "?p \<noteq> cr_source_root (ms_candidate x) \<or> True"
    using assms(3) False by (auto simp: laid_out_def name_there_def)
  have made: "config x k (snd (sys_mkdir sv ?p n fs)) \<and> fs_is_dir ?p (snd (sys_mkdir sv ?p n fs)) \<and> fst (sys_mkdir sv ?p n fs) = Inr ()"
    if c: "config x k fs" for n fs
  proof (cases "fs_node fs ?p")
    case None
    have "?p \<noteq> cr_source_root (ms_candidate x)" "?p \<noteq> ms_root x" using c None by (auto simp: config_def is_root_def)
    moreover have "?p \<noteq> ms_source x" "?p \<noteq> ms_destination x" "?p \<noteq> ms_quarantine x"
      using assms(3) by (auto simp: laid_out_def)
    ultimately show ?thesis
      using c None assms(2)
      by (auto simp: sys_mkdir_def at_place_def config_def is_root_def fs_is_dir_def fingerprint_of_def)
  next
    case (Some e)
    then have "fs_is_dir ?p fs" using c by (simp add: config_def)
    with Some c assms(2) show ?thesis by (simp add: sys_mkdir_def at_place_def)
  qed
  have dir: "finds x sv (\<lambda>w. stands x k j r w \<and> fs_is_dir ?p (fw_fs w)) (f_look sv (fs_is_dir ?p)) True"
    by (rule made_looks [OF assms(1,2)]) simp
  have link: "finds x sv (\<lambda>w. stands x k j r w \<and> fs_is_dir ?p (fw_fs w)) (f_look sv (fs_is_symlink ?p)) False"
    by (rule made_looks [OF assms(1,2)]) (simp add: config_names)
  have looks: "finds x sv (\<lambda>w. stands x k j r w \<and> fs_is_dir ?p (fw_fs w))
      (bind_io (f_look sv (fs_is_dir ?p)) (\<lambda>dir.
        if \<not> dir then ret False else bind_io (f_look sv (fs_is_symlink ?p)) (\<lambda>link. ret (\<not> link)))) True"
    by (rule sure_then [OF dir], simp, rule sure_then [OF link], simp add: sure_ret)
  have "finds x sv (stands x k j r)
      (bind_io (tried (f_fs sv (sys_mkdir sv ?p))) (\<lambda>q. case q of
         Inl _ \<Rightarrow> ret False
       | Inr _ \<Rightarrow>
           bind_io (f_look sv (fs_is_dir ?p)) (\<lambda>dir.
             if \<not> dir then ret False else bind_io (f_look sv (fs_is_symlink ?p)) (\<lambda>link. ret (\<not> link))))) True"
    unfolding sure_def
    by (rule triple_bind_value [OF made_goes [OF assms(1,2)]], use made in blast, simp,
      rule triple_weaken [OF looks [unfolded sure_def]]) simp_all
  then show ?thesis
    using False lay
    unfolding prepare_destination_parent_def
    by (intro sure_bind_value [OF paths_goes [OF assms(1,2)]])
      (simp, intro sure_bind_value [OF paths_goes [OF assms(1,2)]] sure_then [OF within_finds [OF assms(1,2)]], simp_all,
        intro sure_bind_value [OF paths_goes [OF assms(1,2)]], simp)
qed

lemma unless_goes: "finds x sv P m False \<Longrightarrow> triple (stopped x sv) P k Q E \<Longrightarrow> triple (stopped x sv) P (unless m r k) Q E"
  unfolding unless_def by (rule sure_bind, assumption) simp

lemma not_true: "finds x sv P m True \<Longrightarrow> finds x sv P (not_io m) False"
  using not_finds [of x sv P m True] by simp

lemma root_dir_finds:
  assumes "coherent x k j r" and "at_place x sv"
  shows "finds x sv (stands x k j r) (in_move_in sv (\<lambda>root. f_look sv (fs_is_dir root))) True"
  by (intro paths_find [OF assms] look_finds [OF assms]) (simp add: config_roots)

lemma destination_link_finds:
  assumes "coherent x k j r" and "at_place x sv" and "laid_out x"
  shows "finds x sv (stands x k j r) (in_move_in sv (has_symlink_component sv (ms_destination x))) False"
  by (intro paths_find [OF assms(1,2)] symlink_finds [OF assms(1,2)]) (use assms(3) in \<open>simp add: laid_out_def\<close>)

lemma source_link_finds:
  assumes "coherent x k j r" and "at_place x sv" and "laid_out x"
  shows "finds x sv (stands x k j r) (has_symlink_component sv (ms_source x) (cr_source_root (ms_candidate x))) False"
  by (intro symlink_finds [OF assms(1,2)]) (use assms(3) in \<open>simp add: laid_out_def\<close>)

lemma apply_one_arrives:
  assumes "at_place x sv" and "laid_out x"
  shows "arrives x sv Untouched (Some JPREPARED) None (apply_one sv (ms_candidate x))"
proof -
  note c = prepared_coherent
  note there = name_there_names [OF assms(2), of Untouched]
  have stat: "goes x sv (prepared x Untouched) (f_stat sv (ms_source x)) (\<lambda>st w. as_linked x Untouched st \<and> prepared x Untouched w)"
    using config_stat [OF _ there(1)] config_linked by (intro stat_goes [OF c assms(1)]) simp
  have same: "finds x sv (prepared x Untouched)
      (bind_io (f_stat sv (ms_source x)) (\<lambda>st. ret (st \<noteq> cr_fingerprint (ms_candidate x)))) False"
    by (rule sure_bind_value [OF stat]) (simp add: as_linked_def sure_ret)
  show ?thesis
    unfolding apply_one_def
    by (intro unless_goes not_true source_link_finds [OF c assms] destination_link_finds [OF c assms]
      root_dir_finds [OF c assms(1)] outside_finds [OF c assms] parent_finds [OF c assms] same
      rename_source_arrives [OF assms] prepared_looks [OF assms(1)]) (simp_all add: config_names)
qed

section \<open>What was left\<close>

lemma sure_any: "finds x sv P m v \<Longrightarrow> goes x sv P m (\<lambda>_. P)"
  unfolding sure_def by (erule triple_weaken) simp_all

lemma bind_ret: "bind_io (ret a) f = f a"
  by (rule ext) (simp add: bind_io_def ret_def)

lemma source_matches_goes:
  assumes "at_place x sv" and "laid_out x" and "coherent x k j r"
  shows "goes x sv (stands x k j r) (matches_fingerprint sv (ms_source x) (ms_fingerprint x))
    (\<lambda>a w. (k = Untouched \<longrightarrow> a) \<and> stands x k j r w)"
proof -
  note there = name_there_names [OF assms(2), of k]
  consider "k = Untouched" | "k \<noteq> Untouched" "at_source k" | "\<not> at_source k" by auto
  then show ?thesis
  proof cases
    case 1
    then have "finds x sv (stands x k j r) (matches_fingerprint sv (ms_source x) (ms_fingerprint x)) True"
      unfolding matches_fingerprint_def
      using there(1) by (intro matches_finds [OF assms(3,1)]) (simp_all add: as_linked_def)
    then show ?thesis unfolding sure_def by (rule triple_weaken) simp_all
  next
    case 2
    then have "goes x sv (stands x k j r) (matches_fingerprint sv (ms_source x) (ms_fingerprint x)) (\<lambda>_. stands x k j r)"
      unfolding matches_fingerprint_def using there(1) by (intro matches_goes [OF assms(3,1)]) simp
    then show ?thesis by (rule triple_weaken) (use 2 in simp_all)
  next
    case 3
    then have "finds x sv (stands x k j r) (matches_fingerprint sv (ms_source x) (ms_fingerprint x)) False"
      unfolding matches_fingerprint_def using there(1) by (intro matches_finds [OF assms(3,1)]) simp_all
    then have "goes x sv (stands x k j r) (matches_fingerprint sv (ms_source x) (ms_fingerprint x)) (\<lambda>_. stands x k j r)"
      by (rule sure_any)
    then show ?thesis by (rule triple_weaken) (use 3 in auto)
  qed
qed

lemma settle_names_arrives:
  assumes "at_place x sv" and "laid_out x" and "k \<noteq> Arrived \<Longrightarrow> s = JPREPARED" and "k = Untouched \<Longrightarrow> sm" and "k \<noteq> Put_Aside"
  shows "arrives x sv k (Some s) None (settle_names sv (ms_candidate x) s (ms_quarantine x) sm (at_source k) (k \<noteq> Untouched) (at_source k) (k \<noteq> Untouched))"
proof (cases k)
  case Untouched
  with assms apply_one_arrives [OF assms(1,2)] show ?thesis by (simp add: settle_names_def bind_ret)
next
  case Arrived
  then show ?thesis by (simp add: settle_names_def bind_ret arrives_ret)
next
  case Linked_Twice
  note there = name_there_names [OF assms(2), of Linked_Twice]
  have s: "s = JPREPARED" using assms(3) Linked_Twice by simp
  have twins: "finds x sv (prepared x Linked_Twice) (same_inode sv (ms_source x) (ms_destination x)) True"
    by (rule same_finds [OF prepared_coherent assms(1)]) (simp_all add: there)
  show ?thesis
    unfolding settle_names_def Linked_Twice s
    by (simp, rule sure_bind [OF twins], simp add: put_aside_arrives [OF assms(1,2)])
qed (use assms(5) in simp)

lemma reconcile_filesystem_arrives:
  assumes "at_place x sv" and "laid_out x" and "coherent x k (Some s) None"
  shows "arrives x sv k (Some s) None (reconcile_filesystem sv (ms_candidate x) s)"
proof -
  note c = assms(3)
  note place = assms(1)
  note there = name_there_names [OF assms(2), of k]
  have prep: "k \<noteq> Arrived \<Longrightarrow> s = JPREPARED" using c by (cases s) (simp_all add: coherent_def)
  have linked: "finds x sv (stands x k (Some s) None) (matches_linked sv p (ms_fingerprint x)) b"
    if "name_there x k p = Some b" for p b
    unfolding matches_linked_def by (rule matches_finds [OF c place that]) (simp add: as_linked_def)
  have looks: "finds x sv (stands x k (Some s) None) (f_look sv g) v" if "\<And>fs. config x k fs \<Longrightarrow> g fs = v" for g and v :: bool
    using that by (rule look_finds [OF c place])
  have link: "finds x sv (stands x k (Some s) None)
      (bind_io (has_symlink_component sv (ms_source x) (cr_source_root (ms_candidate x))) (\<lambda>link.
        if link then ret True else in_move_in sv (has_symlink_component sv (ms_destination x)))) False"
    by (rule sure_then [OF source_link_finds [OF c place assms(2)]]) (simp add: destination_link_finds [OF c place assms(2)])
  have rest: "arrives x sv k (Some s) None
      (if k = Put_Aside then finish_quarantined sv (ms_candidate x) (ms_quarantine x)
       else settle_names sv (ms_candidate x) s (ms_quarantine x) sm (at_source k) (k \<noteq> Untouched) (at_source k) (k \<noteq> Untouched))"
    if "k = Untouched \<longrightarrow> sm" for sm
    using finish_arrives [OF prepared_coherent place assms(2)] settle_names_arrives [OF place assms(2), of k s sm] that prep
    by (cases "k = Put_Aside") simp_all
  show ?thesis
    unfolding reconcile_filesystem_def
  proof (rule unless_goes [OF link], rule unless_goes [OF outside_finds [OF c place assms(2)]],
      rule triple_bind [OF source_matches_goes [OF place assms(2) c]])
    fix sm
    show "triple (stopped x sv) (\<lambda>w. (k = Untouched \<longrightarrow> sm) \<and> stands x k (Some s) None w)
        (bind_io (matches_linked sv (ms_source x) (ms_fingerprint x)) (\<lambda>source_matches_linked.
         bind_io (matches_linked sv (ms_destination x) (ms_fingerprint x)) (\<lambda>destination_matches.
         bind_io (f_look sv (fs_exists (ms_source x))) (\<lambda>source_exists.
         bind_io (f_look sv (fs_exists (ms_destination x))) (\<lambda>destination_exists.
         bind_io (quarantine_path sv (ms_candidate x)) (\<lambda>quarantine.
         bind_io (f_look sv (fs_exists quarantine)) (\<lambda>left_over.
         if left_over then finish_quarantined sv (ms_candidate x) quarantine
         else settle_names sv (ms_candidate x) s quarantine sm source_matches_linked destination_matches source_exists destination_exists)))))))
        (\<lambda>a w. a = ms_moved x \<and> stands x Arrived (Some s) None w) (\<lambda>_ _. False)"
      (is "triple _ _ ?run _ _")
    proof (cases "k = Untouched \<longrightarrow> sm")
      case True
      have "arrives x sv k (Some s) None ?run"
        by (rule sure_bind [OF linked [OF there(1)]], rule sure_bind [OF linked [OF there(2)]],
          rule sure_bind [OF looks [OF config_names(1)]], assumption, rule sure_bind [OF looks [OF config_names(2)]], assumption,
          rule sure_bind [OF quarantine_finds [OF c place]], rule sure_bind [OF looks [OF config_names(3)]], assumption)
          (rule rest [OF True])
      with True show ?thesis by simp
    qed (simp add: triple_def)
  qed
qed

section \<open>The journal\<close>

lemma store_goes:
  assumes "coherent x k j r" and "at_place x sv"
    and "\<And>m. recorded x j r m \<Longrightarrow> fst (f m) = Inr a \<and> recorded x j' r' (snd (f m))"
  shows "goes x sv (stands x k j r) (f_store sv f) (\<lambda>b w. b = a \<and> stands x k j' r' w)"
  unfolding triple_def
proof (intro allI impI)
  fix w assume w: "stands x k j r w"
  then have "fst (f (fw_store w)) = Inr a \<and> recorded x j' r' (snd (f (fw_store w)))"
    using assms(3) by (simp add: stands_def)
  then show "case f_store sv f w of (Value b, w') \<Rightarrow> b = a \<and> stands x k j' r' w' | (Raised e, w') \<Rightarrow> False | (Stuck, w') \<Rightarrow> stopped x sv w'"
    using w assms(2) stands_course [OF w assms(1)]
    by (cases "f (fw_store w)") (simp add: f_store_def f_alive_def stopped_def others_called_def at_place_def stands_def)
qed

lemma read_finds:
  assumes "coherent x k j r" and "at_place x sv" and "\<And>m. recorded x j r m \<Longrightarrow> f m = v"
  shows "finds x sv (stands x k j r) (f_read_store sv f) v"
  unfolding sure_def f_read_store_def by (rule store_goes [OF assms(1,2)]) (use assms(3) in simp)

lemma journal_saved:
  assumes "recorded x j r m" and "s \<in> set (journal_transitions j)"
  shows "fst (mem_save_move_journal \<lparr>jo_plan_id = ms_plan x, jo_candidate_id = ms_id x, jo_state = s, jo_updated_at = t\<rparr> m) = Inr ()
    \<and> recorded x (Some s) r (snd (mem_save_move_journal \<lparr>jo_plan_id = ms_plan x, jo_candidate_id = ms_id x, jo_state = s, jo_updated_at = t\<rparr> m))"
  using assms
  by (auto simp: recorded_def mem_save_move_journal_def require_candidate_def validate_journal_transition_def mem_get_move_journal_def
      mem_get_candidate_def mem_get_move_result_def update_conv' Let_def)

lemma journal_goes:
  assumes "coherent x k j r" and "at_place x sv" and "s \<in> set (journal_transitions j)"
  shows "goes x sv (stands x k j r) (save_journal sv (ms_plan x) (ms_id x) s) (\<lambda>b w. b = () \<and> stands x k (Some s) r w)"
  unfolding save_journal_def f_now_def
proof (rule triple_bind [OF ask_goes [OF assms(1)]])
  fix now
  have "goes x sv (stands x k j r) (f_store sv (mem_save_move_journal
       \<lparr>jo_plan_id = ms_plan x, jo_candidate_id = ms_id x, jo_state = s, jo_updated_at = now\<rparr>)) (\<lambda>b w. b = () \<and> stands x k (Some s) r w)"
    by (rule store_goes [OF assms(1,2)]) (rule journal_saved [OF _ assms(3)])
  then show "goes x sv (\<lambda>w. (\<exists>n. now = fv_clock sv n) \<and> stands x k j r w) (f_store sv (mem_save_move_journal
       \<lparr>jo_plan_id = ms_plan x, jo_candidate_id = ms_id x, jo_state = s, jo_updated_at = now\<rparr>)) (\<lambda>b w. b = () \<and> stands x k (Some s) r w)"
    by (rule triple_weaken) simp_all
qed

lemma result_saved:
  assumes "recorded x j r m"
  shows "fst (mem_save_move_result (ms_plan x) (ms_moved x) m) = Inr ()
    \<and> recorded x j (Some (ms_moved x)) (snd (mem_save_move_result (ms_plan x) (ms_moved x) m))"
  using assms
  by (simp add: recorded_def mem_save_move_result_def require_matching_candidate_def require_candidate_def put_result_def local_result_def
      mem_get_move_journal_def mem_get_candidate_def mem_get_move_result_def update_conv')

text \<open>The conclusion of a move, from wherever the journal is.\<close>

abbreviation concluded :: "move_site \<Rightarrow> fworld \<Rightarrow> bool" where
  "concluded x \<equiv> stands x Arrived (Some RECONCILED) (Some (ms_moved x))"

lemma persist_goes:
  assumes "at_place x sv" and "s \<noteq> RECONCILED"
  shows "goes x sv (stands x Arrived (Some s) None) (persist_move_completion sv (ms_plan x) (ms_candidate x) (ms_moved x) s)
    (\<lambda>b w. b = () \<and> concluded x w)"
proof -
  have c: "coherent x Arrived (Some t) None" if "t \<noteq> RECONCILED" for t
    using that by (cases t) (simp_all add: coherent_def)
  have tail: "goes x sv (stands x Arrived (Some SOURCE_REMOVED) None)
      (bind_io (f_store sv (mem_save_move_result (ms_plan x) (ms_moved x))) (\<lambda>_. save_journal sv (ms_plan x) (ms_id x) RECONCILED))
      (\<lambda>b w. b = () \<and> concluded x w)"
    by (rule triple_bind_value [OF store_goes [OF c assms(1) result_saved]], simp, assumption,
      rule journal_goes [OF _ assms(1)]) (simp_all add: coherent_def)
  have removed: "goes x sv (stands x Arrived (Some LINKED) None) (save_journal sv (ms_plan x) (ms_id x) SOURCE_REMOVED)
      (\<lambda>b w. b = () \<and> stands x Arrived (Some SOURCE_REMOVED) None w)"
    by (rule journal_goes [OF c assms(1)]) simp_all
  have linked: "goes x sv (stands x Arrived (Some JPREPARED) None)
      (bind_io (save_journal sv (ms_plan x) (ms_id x) LINKED) (\<lambda>_. ret LINKED)) (\<lambda>b w. b = LINKED \<and> stands x Arrived (Some LINKED) None w)"
    by (rule triple_bind_value [OF journal_goes [OF c assms(1)]]) (simp_all add: triple_ret)
  have head: "goes x sv (stands x Arrived (Some s) None)
      (bind_io (if s = JPREPARED then bind_io (save_journal sv (ms_plan x) (ms_id x) LINKED) (\<lambda>_. ret LINKED) else ret s) (\<lambda>state.
         if state = LINKED then save_journal sv (ms_plan x) (ms_id x) SOURCE_REMOVED else ret ()))
      (\<lambda>b w. b = () \<and> stands x Arrived (Some SOURCE_REMOVED) None w)"
  proof (cases s)
    case JPREPARED
    have "goes x sv (stands x Arrived (Some JPREPARED) None)
        (bind_io (bind_io (save_journal sv (ms_plan x) (ms_id x) LINKED) (\<lambda>_. ret LINKED)) (\<lambda>state.
           if state = LINKED then save_journal sv (ms_plan x) (ms_id x) SOURCE_REMOVED else ret ()))
        (\<lambda>b w. b = () \<and> stands x Arrived (Some SOURCE_REMOVED) None w)"
      by (rule triple_bind_value [OF linked]) (use removed in simp)
    with JPREPARED show ?thesis by simp
  qed (use removed assms(2) in \<open>simp_all add: bind_ret triple_ret\<close>)
  show ?thesis
    unfolding persist_move_completion_def
    by (rule triple_bind_value [where v = "()" and R = "stands x Arrived (Some SOURCE_REMOVED) None"])
      (use head tail in \<open>simp_all add: local_result_def\<close>)
qed

lemma roots_find:
  assumes "coherent x k j r" and "at_place x sv"
  shows "finds x sv (stands x k j r) (candidate_roots_ready sv (ms_candidate x)) True"
proof -
  let ?root = "cr_source_root (ms_candidate x)"
  let ?dev = "\<lambda>st. fg_device st = fg_device (ms_fingerprint x)"
  have stat: "goes x sv (stands x k j r) (f_stat sv p) (\<lambda>st w. ?dev st \<and> stands x k j r w)" if "p = ms_root x \<or> p = ?root" for p
    using config_roots(3) that by (intro stat_goes [OF assms]) blast
  have link: "finds x sv (stands x k j r) (f_look sv (fs_is_symlink p)) False" for p
    by (rule look_finds [OF assms]) (simp add: config_names)
  have dir: "finds x sv (stands x k j r) (f_look sv (fs_is_dir p)) True" if "p = ms_root x \<or> p = ?root" for p
    by (rule look_finds [OF assms]) (use config_roots(1) that in blast)
  have sentinel: "finds x sv (stands x k j r) (bind_io (f_runtime sv) (\<lambda>rt. if rt_root_sentinel rt = None then ret True else g rt)) True" for g
  proof (rule sure_bind_value [where A = "\<lambda>rt. rt_root_sentinel rt = None"])
    show "goes x sv (stands x k j r) (f_runtime sv) (\<lambda>rt w. rt_root_sentinel rt = None \<and> stands x k j r w)"
      unfolding f_runtime_def
      by (rule triple_weaken [OF ask_goes [OF assms(1)]]) (use assms(2) in \<open>auto simp: at_place_def\<close>)
  qed (simp add: sure_ret)
  have all: "finds x sv (stands x k j r) (all_io ms) True" if "list_all (\<lambda>m. finds x sv (stands x k j r) m True) ms" for ms
    using that by (induction ms) (auto simp: sure_ret intro!: sure_then)
  have paths: "goes x sv (stands x k j r) (in_move_in sv (f_stat sv)) (\<lambda>st w. ?dev st \<and> stands x k j r w)"
    unfolding in_move_in_def
    by (rule triple_bind [OF paths_goes [OF assms]], rule triple_pre, rule triple_weaken [OF stat]) auto
  have stats: "goes x sv (stands x k j r)
      (os_error_is None (bind_io (f_stat sv ?root) (\<lambda>s. bind_io (in_move_in sv (f_stat sv)) (\<lambda>d. ret (Some (s, d))))))
      (\<lambda>st w. (\<exists>s d. st = Some (s, d) \<and> ?dev s \<and> ?dev d) \<and> stands x k j r w)"
    unfolding os_error_is_def
  proof (rule triple_catch)
    show "goes x sv (stands x k j r) (bind_io (f_stat sv ?root) (\<lambda>s. bind_io (in_move_in sv (f_stat sv)) (\<lambda>d. ret (Some (s, d)))))
        (\<lambda>st w. (\<exists>s d. st = Some (s, d) \<and> ?dev s \<and> ?dev d) \<and> stands x k j r w)"
    proof (rule triple_bind [OF stat])
      fix s
      show "goes x sv (\<lambda>w. ?dev s \<and> stands x k j r w) (bind_io (in_move_in sv (f_stat sv)) (\<lambda>d. ret (Some (s, d))))
          (\<lambda>st w. (\<exists>s d. st = Some (s, d) \<and> ?dev s \<and> ?dev d) \<and> stands x k j r w)"
      proof (cases "?dev s")
        case True
        then show ?thesis
          by simp (rule triple_bind [OF paths], rule triple_ret, use True in simp)
      qed (simp add: triple_def)
    qed simp
  qed (simp add: triple_def)
  show ?thesis
    unfolding candidate_roots_ready_def
  proof (rule sure_bind_value [OF stats])
    fix st assume "\<exists>s d. st = Some (s, d) \<and> ?dev s \<and> ?dev d"
    then obtain s d where st: "st = Some (s, d)" "?dev s" "?dev d" by blast
    show "finds x sv (stands x k j r) (case st of None \<Rightarrow> ret False
     | Some (s, d) \<Rightarrow>
         all_io
           [f_look sv (fs_is_dir ?root), not_io (f_look sv (fs_is_symlink ?root)),
            in_move_in sv (\<lambda>root. f_look sv (fs_is_dir root)), not_io (in_move_in sv (\<lambda>root. f_look sv (fs_is_symlink root))),
            bind_io (f_runtime sv) (\<lambda>rt.
              if rt_root_sentinel rt = None then ret True
              else
                all_io
                  [sentinel_at sv (\<lambda>name. f_look sv (fs_is_file (path_join ?root name))),
                   not_io (sentinel_at sv (\<lambda>name. f_look sv (fs_is_symlink (path_join ?root name)))),
                   in_move_in sv (\<lambda>root. sentinel_at sv (\<lambda>name. f_look sv (fs_is_file (path_join root name)))),
                   not_io (in_move_in sv (\<lambda>root. sentinel_at sv (\<lambda>name. f_look sv (fs_is_symlink (path_join root name)))))]),
            ret (fg_device s = fg_device (cr_fingerprint (ms_candidate x))), ret (fg_device d = fg_device (cr_fingerprint (ms_candidate x)))]) True"
      unfolding st(1) option.case prod.case
      by (rule all, unfold list.pred_inject, intro conjI TrueI dir paths_find [OF assms] sentinel
          not_finds [OF link, simplified] not_finds [OF paths_find [OF assms link], simplified])
        (use st(2,3) sure_ret [of "stopped x sv" "stands x k j r" True] in simp_all)
  qed
qed

section \<open>A run and a recovery\<close>

text \<open>The file is there, and the repository says so.\<close>

definition told :: "move_site \<Rightarrow> fworld \<Rightarrow> bool" where
  "told x w \<longleftrightarrow> (\<exists>j. stands x Arrived j (Some (ms_moved x)) w \<and> coherent x Arrived j (Some (ms_moved x)))"

lemma concluded_told: "concluded x w \<Longrightarrow> told x w"
  unfolding told_def by (rule exI [of _ "Some RECONCILED"]) (simp add: coherent_def)

lemma told_course: "told x w \<Longrightarrow> on_course x w"
  unfolding told_def on_course_def by blast

lemma roots_ready_on:
  assumes "coherent x k j r" and "at_place x sv"
  shows "finds x sv (stands x k j r) (not_io (candidate_roots_ready sv (ms_candidate x))) False"
  by (rule not_true [OF roots_find [OF assms]])

lemma moved_closes:
  assumes "coherent x Arrived (Some s) None" and "at_place x sv" and "s \<noteq> RECONCILED" and "\<not> P"
  shows "goes x sv (stands x Arrived (Some s) None)
    (unless (if res_state (ms_moved x) \<noteq> MOVED then not_io (candidate_roots_ready sv (ms_candidate x)) else ret False) (ms_moved x)
      (if P \<or> left_open (ms_moved x) then ret (ms_moved x)
       else bind_io (persist_move_completion sv (ms_plan x) (ms_candidate x) (ms_moved x) s) (\<lambda>_. ret (ms_moved x))))
    (\<lambda>a w. a = ms_moved x \<and> told x w)"
proof -
  have "goes x sv (stands x Arrived (Some s) None)
      (bind_io (persist_move_completion sv (ms_plan x) (ms_candidate x) (ms_moved x) s) (\<lambda>_. ret (ms_moved x))) (\<lambda>a w. a = ms_moved x \<and> told x w)"
    by (rule triple_bind_value [OF persist_goes [OF assms(2,3)]], rule triple_ret) (simp add: concluded_told)
  then show ?thesis
    using assms(4) by (simp add: unless_def bind_ret local_result_def left_open_def)
qed

lemma cached_told:
  assumes "coherent x k (Some s) (Some r)" and "at_place x sv"
  shows "goes x sv (stands x k (Some s) (Some r)) (bind_io (save_journal sv (ms_plan x) (ms_id x) RECONCILED) (\<lambda>_. ret r))
    (\<lambda>a w. a = ms_moved x \<and> told x w)"
proof -
  have "k = Arrived" "r = ms_moved x" "RECONCILED \<in> set (journal_transitions (Some s))"
    using assms(1) by (cases s; auto simp: coherent_def)+
  then show ?thesis
    using journal_goes [OF assms, of RECONCILED]
    by (intro triple_bind_value [OF journal_goes [OF assms]] triple_ret) (simp_all add: concluded_told)
qed

lemma reconcile_candidate_told:
  assumes "at_place x sv" and "laid_out x" and "coherent x k (Some s) r" and "s \<noteq> RECONCILED" and "jo_state j = s"
  shows "goes x sv (stands x k (Some s) r) (reconcile_candidate sv (ms_plan x) (ms_candidate x) j) (\<lambda>a w. a = ms_moved x \<and> told x w)"
  unfolding reconcile_candidate_def
proof (rule unless_goes [OF roots_ready_on [OF assms(3,1)]], rule sure_bind [OF read_finds [OF assms(3,1)]])
  show "mem_get_move_result (ms_plan x) (ms_id x) m = r" if "recorded x (Some s) r m" for m
    using that by (simp add: recorded_def)
  show "goes x sv (stands x k (Some s) r)
     (case r of Some r \<Rightarrow> bind_io (save_journal sv (ms_plan x) (ms_id x) RECONCILED) (\<lambda>_. ret r)
     | None \<Rightarrow>
         bind_io (reconcile_filesystem sv (ms_candidate x) (jo_state j)) (\<lambda>result.
         unless (if res_state result \<noteq> MOVED then not_io (candidate_roots_ready sv (ms_candidate x)) else ret False) result
           (if res_error_code result \<in> {Some ''reconcile_rollback_conflict'', Some ''reconcile_rollback_failed''} \<or> left_open result
            then ret result
            else bind_io (persist_move_completion sv (ms_plan x) (ms_candidate x) result (jo_state j)) (\<lambda>_. ret result))))
     (\<lambda>a w. a = ms_moved x \<and> told x w)"
  proof (cases r)
    case None
    have c: "coherent x Arrived (Some s) None" using assms(4) by (cases s) (simp_all add: coherent_def)
    have arrives: "arrives x sv k (Some s) None (reconcile_filesystem sv (ms_candidate x) s)"
      using reconcile_filesystem_arrives [OF assms(1,2)] assms(3) None by simp
    show ?thesis
      unfolding None assms(5) option.case
      by (rule triple_bind_value [OF arrives], rule moved_closes [OF c assms(1,4)]) (simp add: local_result_def)
  next
    case (Some q)
    show ?thesis unfolding Some option.case by (rule cached_told [OF assms(3) [unfolded Some] assms(1)])
  qed
qed

lemma first_move_told:
  assumes "at_place x sv" and "laid_out x"
  shows "goes x sv (stands x Untouched None None) (first_move sv (ms_plan x) (ms_candidate x)) (\<lambda>a w. a = ms_moved x \<and> told x w)"
proof -
  have c: "coherent x Untouched None None" by (simp add: coherent_def)
  show ?thesis
    unfolding first_move_def
    by (rule triple_bind_value [OF journal_goes [OF c assms(1)]], simp,
      rule triple_bind_value [OF apply_one_arrives [OF assms]],
      rule moved_closes [OF prepared_coherent assms(1)]) (simp_all add: local_result_def)
qed

lemma run_told:
  assumes "at_place x sv" and "laid_out x" and "coherent x k j r"
  shows "goes x sv (stands x k j r) (run_move sv (ms_plan x) (ms_candidate x)) (\<lambda>a w. a = ms_moved x \<and> told x w)"
proof -
  note c = assms(3)
  note place = assms(1)
  have cached: "goes x sv (stands x k j (Some q)) (ret q) (\<lambda>a w. a = ms_moved x \<and> told x w)" if "r = Some q" for q
  proof (rule triple_ret)
    fix w assume "stands x k j (Some q) w"
    moreover have "k = Arrived \<and> q = ms_moved x" using c that by (auto simp: coherent_def split: option.splits journal_state.splits)
    ultimately show "q = ms_moved x \<and> told x w" using c that unfolding told_def by blast
  qed
  have journal: "goes x sv (stands x k j r) (f_read_store sv (mem_get_move_journal (ms_plan x) (ms_id x)))
      (\<lambda>q w. map_option jo_state q = j \<and> stands x k j r w)"
    unfolding f_read_store_def triple_def
    using place stands_course [OF _ c]
    by (simp add: f_store_def f_alive_def stopped_def others_called_def at_place_def stands_def recorded_def)
  have go: "goes x sv (\<lambda>w. map_option jo_state q = j \<and> stands x k j None w)
      (case q of Some j \<Rightarrow>
            if jo_state j \<noteq> RECONCILED then reconcile_candidate sv (ms_plan x) (ms_candidate x) j
            else first_move sv (ms_plan x) (ms_candidate x)
        | None \<Rightarrow> first_move sv (ms_plan x) (ms_candidate x)) (\<lambda>a w. a = ms_moved x \<and> told x w)" if "r = None" for q
  proof (cases "map_option jo_state q = j")
    case True
    show ?thesis
    proof (cases q)
      case None
      then have "j = None" "k = Untouched" using True c by (auto simp: coherent_def)
      with None first_move_told [OF place assms(2)] show ?thesis by simp
    next
      case (Some i)
      then have "jo_state i \<noteq> RECONCILED" using True c that by (auto simp: coherent_def)
      with Some True reconcile_candidate_told [OF place assms(2), of k "jo_state i" None i] c that show ?thesis by simp
    qed
  qed (simp add: triple_def)
  have body: "goes x sv (stands x k j r)
     (bind_io (f_read_store sv (mem_get_move_result (ms_plan x) (ms_id x))) (\<lambda>cached.
          case cached of
            Some r \<Rightarrow> ret r
          | None \<Rightarrow>
              bind_io (f_read_store sv (mem_get_move_journal (ms_plan x) (ms_id x))) (\<lambda>journal.
              case journal of
                Some j \<Rightarrow>
                  (if jo_state j \<noteq> RECONCILED then reconcile_candidate sv (ms_plan x) (ms_candidate x) j
                   else first_move sv (ms_plan x) (ms_candidate x))
              | None \<Rightarrow> first_move sv (ms_plan x) (ms_candidate x)))) (\<lambda>a w. a = ms_moved x \<and> told x w)"
  proof (rule sure_bind [OF read_finds [OF c place]])
    show "mem_get_move_result (ms_plan x) (ms_id x) m = r" if "recorded x j r m" for m
      using that by (simp add: recorded_def)
  next
    show "goes x sv (stands x k j r) (case r of
            Some r \<Rightarrow> ret r
          | None \<Rightarrow>
              bind_io (f_read_store sv (mem_get_move_journal (ms_plan x) (ms_id x))) (\<lambda>journal.
              case journal of
                Some j \<Rightarrow>
                  (if jo_state j \<noteq> RECONCILED then reconcile_candidate sv (ms_plan x) (ms_candidate x) j
                   else first_move sv (ms_plan x) (ms_candidate x))
              | None \<Rightarrow> first_move sv (ms_plan x) (ms_candidate x))) (\<lambda>a w. a = ms_moved x \<and> told x w)"
    proof (cases r)
      case None
      show ?thesis unfolding None option.case by (rule triple_bind [OF journal [unfolded None]]) (rule go [OF None])
    qed (use cached in simp)
  qed
  have "run_move sv (ms_plan x) (ms_candidate x) = run_local_move sv (ms_plan x) (ms_candidate x)"
    using assms(2) by (simp add: run_move_def laid_out_def)
  then show ?thesis
    unfolding run_local_move_def
    by (simp, intro unless_goes [OF roots_ready_on [OF c place]] triple_catch [where E' = "\<lambda>_ _. False"]
        sure_bind [OF ask_finds [OF c]] body) (simp_all add: triple_def)
qed

section \<open>Any history of runs that die\<close>

lemma course_goes:
  assumes "\<And>k j r. coherent x k j r \<Longrightarrow> goes x sv (stands x k j r) m Q"
  shows "goes x sv (on_course x) m Q"
  unfolding triple_def
proof (intro allI impI)
  fix w assume "on_course x w"
  then obtain k j r where "stands x k j r w" and c: "coherent x k j r" unfolding on_course_def by blast
  then show "case m w of (Value a, w') \<Rightarrow> Q a w' | (Raised e, w') \<Rightarrow> False | (Stuck, w') \<Rightarrow> stopped x sv w'"
    by (intro triple_run [OF assms [OF c]])
qed

definition own_journals :: "move_site \<Rightarrow> journal_record list \<Rightarrow> bool" where
  "own_journals x js \<longleftrightarrow> list_all (\<lambda>j. jo_plan_id j = ms_plan x \<and> jo_candidate_id j = ms_id x) js"

lemma reconcile_local_course:
  assumes "at_place x sv" and "laid_out x"
  shows "own_journals x js \<Longrightarrow> goes x sv (on_course x) (reconcile_local sv js) (\<lambda>_. on_course x)"
proof (induction js)
  case Nil
  show ?case unfolding reconcile_local.simps by (rule triple_ret)
next
  case (Cons i js)
  then have i: "jo_plan_id i = ms_plan x" "jo_candidate_id i = ms_id x"
      and rest: "goes x sv (on_course x) (reconcile_local sv js) (\<lambda>_. on_course x)" by (simp_all add: own_journals_def)
  show ?case
  proof (rule course_goes)
    fix k j r assume c: "coherent x k j r"
    have after: "goes x sv (stands x k j r) (reconcile_local sv js) (\<lambda>_. on_course x)"
      using rest by (rule triple_weaken) (use stands_course [OF _ c] in simp_all)
    have journal: "goes x sv (stands x k j r) (f_read_store sv (mem_get_move_journal (ms_plan x) (ms_id x)))
        (\<lambda>q w. map_option jo_state q = j \<and> stands x k j r w)"
      unfolding f_read_store_def triple_def
      using assms(1) stands_course [OF _ c]
      by (simp add: f_store_def f_alive_def stopped_def others_called_def at_place_def stands_def recorded_def)
    have go: "goes x sv (\<lambda>w. map_option jo_state q = j \<and> stands x k j r w)
        (case q of
           None \<Rightarrow> reconcile_local sv js
         | Some q \<Rightarrow>
             (if jo_state q = RECONCILED then reconcile_local sv js
              else
                bind_io (reconcile_candidate sv (ms_plan x) (ms_candidate x) q) (\<lambda>result.
                bind_io (reconcile_local sv js) (\<lambda>results. ret (result # results))))) (\<lambda>_. on_course x)" for q
    proof (cases "map_option jo_state q = j")
      case True
      show ?thesis
      proof (cases q)
        case None
        with True after show ?thesis by simp
      next
        case (Some p)
        show ?thesis
        proof (cases "jo_state p = RECONCILED")
          case closed: True
          with True Some after show ?thesis by simp
        next
          case False
          have j: "j = Some (jo_state p)" using True Some by simp
          have taken: "goes x sv (stands x k (Some (jo_state p)) r) (reconcile_candidate sv (ms_plan x) (ms_candidate x) p)
              (\<lambda>a w. a = ms_moved x \<and> told x w)"
            by (rule reconcile_candidate_told [OF assms _ False refl]) (use c j in simp)
          have "goes x sv (told x) (bind_io (reconcile_local sv js) (\<lambda>results. ret (ms_moved x # results))) (\<lambda>_. on_course x)"
            by (rule triple_bind, rule triple_weaken [OF rest], erule told_course, assumption, assumption, rule triple_ret)
          then have "goes x sv (stands x k (Some (jo_state p)) r) (bind_io (reconcile_candidate sv (ms_plan x) (ms_candidate x) p) (\<lambda>result.
                bind_io (reconcile_local sv js) (\<lambda>results. ret (result # results)))) (\<lambda>_. on_course x)"
            by (rule triple_bind_value [OF taken])
          with Some False j show ?thesis by simp
        qed
      qed
    qed (simp add: triple_def)
    show "goes x sv (stands x k j r) (reconcile_local sv (i # js)) (\<lambda>_. on_course x)"
      unfolding reconcile_local.simps i
    proof (rule sure_bind [OF read_finds [OF c assms(1)]])
      show "mem_get_candidate (ms_plan x) (ms_id x) m = Some (ms_candidate x)" if "recorded x j r m" for m
        using that by (simp add: recorded_def)
      show "goes x sv (stands x k j r) (case Some (ms_candidate x) of
         None \<Rightarrow> reconcile_local sv js
       | Some c \<Rightarrow>
           bind_io (f_ask sv (\<lambda>_. ())) (\<lambda>_.
           bind_io (f_read_store sv (mem_get_move_journal (ms_plan x) (ms_id x))) (\<lambda>current.
           case current of
             None \<Rightarrow> reconcile_local sv js
           | Some q \<Rightarrow>
               (if jo_state q = RECONCILED then reconcile_local sv js
                else
                  bind_io (reconcile_candidate sv (ms_plan x) c q) (\<lambda>result.
                  bind_io (reconcile_local sv js) (\<lambda>results. ret (result # results))))))) (\<lambda>_. on_course x)"
        unfolding option.case
        by (rule sure_bind [OF ask_finds [OF c]], rule refl, rule triple_bind [OF journal], rule go)
    qed
  qed
qed

text \<open>
  A move is run, or the unfinished moves found open in the journal are gone through. Each has
  its own process, which may die in it.
\<close>

datatype recovery_action = Run_It | Take_It_Up "journal_record list"

fun recovery_in :: "move_site \<Rightarrow> fill_services \<Rightarrow> recovery_action \<Rightarrow> fworld \<Rightarrow> fworld" where
  "recovery_in x sv Run_It w = snd (run_move sv (ms_plan x) (ms_candidate x) w)"
| "recovery_in x sv (Take_It_Up js) w = snd (reconcile_local sv js w)"

fun recovery_history :: "move_site \<Rightarrow> (fill_services \<times> recovery_action) list \<Rightarrow> fworld \<Rightarrow> fworld" where
  "recovery_history x [] w = w"
| "recovery_history x ((sv, a) # h) w = recovery_history x h (recovery_in x sv a w)"

fun own_action :: "move_site \<Rightarrow> recovery_action \<Rightarrow> bool" where
  "own_action x Run_It = True"
| "own_action x (Take_It_Up js) = own_journals x js"

lemma goes_course:
  assumes "goes x sv (on_course x) m (\<lambda>_. on_course x)" and "on_course x w"
  shows "on_course x (snd (m w))"
  using triple_run [OF assms] by (cases "m w"; cases "fst (m w)") (auto simp: stopped_def)

lemma history_course:
  "laid_out x \<Longrightarrow> on_course x w \<Longrightarrow> list_all (\<lambda>(sv, a). at_place x sv \<and> own_action x a) h \<Longrightarrow> on_course x (recovery_history x h w)"
proof (induction h arbitrary: w)
  case (Cons e h)
  obtain sv a where e: "e = (sv, a)" by fastforce
  with Cons.prems have place: "at_place x sv" and own: "own_action x a" by simp_all
  have run: "goes x sv (on_course x) (run_move sv (ms_plan x) (ms_candidate x)) (\<lambda>_. on_course x)"
    by (rule course_goes, rule triple_weaken [OF run_told [OF place Cons.prems(1)]]) (auto intro: told_course)
  have "on_course x (recovery_in x sv a w)"
    using goes_course [OF run Cons.prems(2)] goes_course [OF reconcile_local_course [OF place Cons.prems(1)] Cons.prems(2)] own
    by (cases a) simp_all
  with Cons e show ?case by simp
qed simp

text \<open>
  C3: a move survives the death of its process at any system call, await or write. Start with
  the file at its source and nothing in the journal, and let any number of processes run the
  move or take up what the journal shows open, each dying wherever it likes: the next run that
  lives answers that the file was moved, the file has its destination as its only name among
  the three, and the answer is recorded. It holds on file systems with and without a rename
  that must not replace, as long as no other system call fails and no one else writes.
  The settings stay the same meanwhile, no root sentinel is configured, and the names are no
  symbolic links.
\<close>

theorem move_recovers:
  assumes "laid_out x" and "stands x Untouched None None w"
    and "list_all (\<lambda>(sv, a). at_place x sv \<and> own_action x a) h" and "at_place x sv" and "\<forall>n. fv_alive sv n"
  shows "\<exists>w'. run_move sv (ms_plan x) (ms_candidate x) (recovery_history x h w) = (Value (local_result (ms_candidate x) MOVED None), w')
    \<and> fs_node (fw_fs w') (ms_source x) = None
    \<and> fs_node (fw_fs w') (ms_destination x) = Some (Node (Regular (ms_inode x)))
    \<and> fs_node (fw_fs w') (ms_quarantine x) = None
    \<and> mem_get_move_result (ms_plan x) (ms_id x) (fw_store w') = Some (local_result (ms_candidate x) MOVED None)"
proof -
  have "on_course x w" by (rule stands_course [OF assms(2)]) (simp add: coherent_def)
  then have start: "on_course x (recovery_history x h w)" using history_course assms(1,3) by blast
  obtain r w' where run: "run_move sv (ms_plan x) (ms_candidate x) (recovery_history x h w) = (r, w')" by fastforce
  have "goes x sv (on_course x) (run_move sv (ms_plan x) (ms_candidate x)) (\<lambda>a w. a = ms_moved x \<and> told x w)"
    by (rule course_goes, rule run_told [OF assms(4,1)])
  from triple_run [OF this start] have "r = Value (ms_moved x)" and told: "told x w'"
    using run assms(5) by (cases r; simp add: stopped_def)+
  moreover obtain j where "stands x Arrived j (Some (ms_moved x)) w'" using told unfolding told_def by blast
  ultimately show ?thesis
    using run by (intro exI [of _ w']) (simp add: stands_def config_def recorded_def placed_def)
qed

definition demo_site :: move_site where
  "demo_site =
     \<lparr>ms_plan = ''p'', ms_candidate = demo_local, ms_root = ''/m'', ms_quarantine = ''/m/.embyx-reconcile-'' @ replicate 64 CHR ''0''\<rparr>"

lemma demo_placed: "at_place demo_site (demo_linking n)"
proof -
  have "path_join ''/m'' (quarantine_name (replicate 64 CHR ''0'')) = ''/m/.embyx-reconcile-'' @ replicate 64 CHR ''0''"
    by code_simp
  then show ?thesis
    by (simp add: at_place_def demo_site_def demo_linking_def demo_fill_def demo_runtime_def demo_local_def rename_unsupported_def)
qed

theorem move_recovers_witness:
  "\<exists>w'. run_move ((demo_linking 0)\<lparr>fv_alive := \<lambda>_. True\<rparr>) ''p'' demo_local
      (recovery_history demo_site [(demo_linking 70, Run_It), (demo_linking 71, Take_It_Up [])] demo_disk)
    = (Value (local_result demo_local MOVED None), w')
    \<and> fs_node (fw_fs w') ''/m/A/A-1.mkv'' = Some (Node (Regular (1, 2)))"
proof -
  have "laid_out demo_site" by code_simp
  moreover have "stands demo_site Untouched None None demo_disk"
    unfolding stands_def
  proof
    have "path_parent ''/m/A/A-1.mkv'' = ''/m/A''" by code_simp
    then show "config demo_site Untouched (fw_fs demo_disk)"
      by (simp add: config_def demo_site_def demo_disk_def demo_local_def demo_fs_def is_root_def placed_def ms_inode_def
          fingerprint_of_def linked_identity_def)
    show "recorded demo_site None None (fw_store demo_disk)" unfolding recorded_def by code_simp
  qed
  moreover have "at_place demo_site ((demo_linking 0)\<lparr>fv_alive := \<lambda>_. True\<rparr>)"
    using demo_placed [of 0] by (simp add: at_place_def)
  ultimately show ?thesis
    using move_recovers [of demo_site demo_disk "[(demo_linking 70, Run_It), (demo_linking 71, Take_It_Up [])]"
        "(demo_linking 0)\<lparr>fv_alive := \<lambda>_. True\<rparr>"] demo_placed
    by (auto simp: own_journals_def demo_site_def demo_local_def ms_inode_def)
qed

end
