(* ===== verification/Regex.thy ===== *)
theory Regex
  imports Texts "HOL-Library.Sublist"
begin

text \<open>
  Python's regular expressions, as far as the names of files and titles are read with them:
  classes of characters, sequences, ordered choice, greedy repetition, numbered groups, the
  anchors and the assertions about the character before and after. A match is tried like
  Python's matcher tries it: the ways an expression can match are listed in the order in which
  backtracking finds them, and the first is the match. Texts are ASCII.
\<close>

section \<open>Expressions\<close>

datatype rx =
  Eps
| Class "char \<Rightarrow> bool"
| Seq rx rx
| Alt rx rx
| Rep nat "nat option" rx
| Lazy nat "nat option" rx
| Group nat rx
| At_Start
| At_End
| Before "char \<Rightarrow> bool"
| Not_Next "char \<Rightarrow> bool"
| End_Or_Next "char \<Rightarrow> bool"

text \<open>Where a match stands: what was read, backwards, what is left, and the groups so far.\<close>

record rx_state =
  rs_read :: string
  rs_rest :: string
  rs_groups :: "(nat \<times> string) list"

text \<open>\<^verbatim>\<open>$\<close> is the end of the text, or just before a newline that ends it.\<close>

definition at_end :: "string \<Rightarrow> bool" where
  "at_end rest \<longleftrightarrow> rest = [] \<or> rest = [CHR 0x0A]"

text \<open>
  The repetition, the longest first or, lazily, the shortest. An iteration that reads nothing is
  not tried, so no more iterations than characters are left can succeed.
\<close>

fun repeated ::
  "bool \<Rightarrow> (rx_state \<Rightarrow> rx_state list) \<Rightarrow> nat \<Rightarrow> nat option \<Rightarrow> nat \<Rightarrow> rx_state \<Rightarrow> rx_state list" where
  "repeated greedy f lo hi 0 st = (if lo = 0 then [st] else [])"
| "repeated greedy f lo hi (Suc n) st =
     (let more = (if hi = Some 0 then []
                  else concat (map (repeated greedy f (lo - 1) (map_option (\<lambda>h. h - 1) hi) n)
                         (filter (\<lambda>s. length (rs_rest s) < length (rs_rest st)) (f st))));
          here = (if lo = 0 then [st] else [])
      in if greedy then more @ here else here @ more)"

primrec ways :: "rx \<Rightarrow> rx_state \<Rightarrow> rx_state list" where
  "ways Eps = (\<lambda>st. [st])"
| "ways (Class p) = (\<lambda>st.
     case rs_rest st of
       [] \<Rightarrow> []
     | c # s \<Rightarrow> (if p c then [st\<lparr>rs_read := c # rs_read st, rs_rest := s\<rparr>] else []))"
| "ways (Seq a b) = (\<lambda>st. concat (map (ways b) (ways a st)))"
| "ways (Alt a b) = (\<lambda>st. ways a st @ ways b st)"
| "ways (Rep lo hi r) = (\<lambda>st. repeated True (ways r) lo hi (length (rs_rest st)) st)"
| "ways (Lazy lo hi r) = (\<lambda>st. repeated False (ways r) lo hi (length (rs_rest st)) st)"
| "ways (Group k r) = (\<lambda>st.
     map (\<lambda>s. s\<lparr>rs_groups := (k, take (length (rs_rest st) - length (rs_rest s)) (rs_rest st)) # rs_groups s\<rparr>) (ways r st))"
| "ways At_Start = (\<lambda>st. if rs_read st = [] then [st] else [])"
| "ways At_End = (\<lambda>st. if at_end (rs_rest st) then [st] else [])"
| "ways (Before p) = (\<lambda>st. case rs_read st of [] \<Rightarrow> [] | c # _ \<Rightarrow> (if p c then [st] else []))"
| "ways (Not_Next p) = (\<lambda>st. case rs_rest st of [] \<Rightarrow> [st] | c # _ \<Rightarrow> (if p c then [] else [st]))"
| "ways (End_Or_Next p) = (\<lambda>st.
     if at_end (rs_rest st) then [st] else case rs_rest st of [] \<Rightarrow> [st] | c # _ \<Rightarrow> (if p c then [st] else []))"

section \<open>Python's functions\<close>

record rx_match =
  rm_before :: string
  rm_text :: string
  rm_after :: string
  rm_groups :: "(nat \<times> string) list"

definition group_of :: "rx_match \<Rightarrow> nat \<Rightarrow> string option" where
  "group_of m k = map_of (rm_groups m) k"

definition rx_match_at :: "rx \<Rightarrow> string \<Rightarrow> string \<Rightarrow> rx_match option" where
  "rx_match_at r read rest =
     (case ways r \<lparr>rs_read = read, rs_rest = rest, rs_groups = []\<rparr> of
        [] \<Rightarrow> None
      | st # _ \<Rightarrow>
          Some \<lparr>rm_before = rev read, rm_text = take (length rest - length (rs_rest st)) rest, rm_after = rs_rest st,
                rm_groups = rs_groups st\<rparr>)"

text \<open>\<^verbatim>\<open>re.search\<close>, from the place reached.\<close>

fun search_from :: "rx \<Rightarrow> string \<Rightarrow> string \<Rightarrow> rx_match option" where
  "search_from r read [] = rx_match_at r read []"
| "search_from r read (c # s) =
     (case rx_match_at r read (c # s) of
        Some m \<Rightarrow> Some m
      | None \<Rightarrow> search_from r (c # read) s)"

definition rx_search :: "rx \<Rightarrow> string \<Rightarrow> rx_match option" where
  "rx_search r s = search_from r [] s"

text \<open>\<^verbatim>\<open>re.match\<close>.\<close>

definition rx_match_start :: "rx \<Rightarrow> string \<Rightarrow> rx_match option" where
  "rx_match_start r s = rx_match_at r [] s"

text \<open>\<^verbatim>\<open>re.fullmatch\<close>.\<close>

definition rx_full :: "rx \<Rightarrow> string \<Rightarrow> rx_match option" where
  "rx_full r s =
     map_option (\<lambda>st. \<lparr>rm_before = [], rm_text = s, rm_after = [], rm_groups = rs_groups st\<rparr>)
       (find (\<lambda>st. rs_rest st = []) (ways r \<lparr>rs_read = [], rs_rest = s, rs_groups = []\<rparr>))"

text \<open>\<^verbatim>\<open>re.finditer\<close> and \<^verbatim>\<open>re.sub\<close>, for expressions that read at least one character.\<close>

fun sub_from :: "rx \<Rightarrow> (rx_match \<Rightarrow> string) \<Rightarrow> nat \<Rightarrow> string \<Rightarrow> string \<Rightarrow> string" where
  "sub_from r f 0 read s = s"
| "sub_from r f (Suc n) read [] = []"
| "sub_from r f (Suc n) read (c # s) =
     (case rx_match_at r read (c # s) of
        None \<Rightarrow> c # sub_from r f n (c # read) s
      | Some m \<Rightarrow>
          (if rm_text m = [] then c # sub_from r f n (c # read) s
           else f m @ sub_from r f n (rev (rm_text m) @ read) (rm_after m)))"

definition rx_sub :: "rx \<Rightarrow> (rx_match \<Rightarrow> string) \<Rightarrow> string \<Rightarrow> string" where
  "rx_sub r f s = sub_from r f (length s) [] s"

fun find_from :: "rx \<Rightarrow> nat \<Rightarrow> string \<Rightarrow> string \<Rightarrow> rx_match list" where
  "find_from r 0 read s = []"
| "find_from r (Suc n) read [] = []"
| "find_from r (Suc n) read (c # s) =
     (case rx_match_at r read (c # s) of
        None \<Rightarrow> find_from r n (c # read) s
      | Some m \<Rightarrow>
          (if rm_text m = [] then find_from r n (c # read) s
           else m # find_from r n (rev (rm_text m) @ read) (rm_after m)))"

definition rx_findall :: "rx \<Rightarrow> string \<Rightarrow> rx_match list" where
  "rx_findall r s = find_from r (length s) [] s"

section \<open>Writing expressions\<close>

fun seq :: "rx list \<Rightarrow> rx" where
  "seq [] = Eps"
| "seq [r] = r"
| "seq (r # r' # rs) = Seq r (seq (r' # rs))"

fun alts :: "rx list \<Rightarrow> rx" where
  "alts [] = Alt (Class (\<lambda>_. False)) (Class (\<lambda>_. False))"
| "alts [r] = r"
| "alts (r # r' # rs) = Alt r (alts (r' # rs))"

definition lit :: "string \<Rightarrow> rx" where
  "lit s = seq (map (\<lambda>c. Class (\<lambda>d. d = c)) s)"

text \<open>A literal under \<^verbatim>\<open>re.IGNORECASE\<close>, given in upper case.\<close>

definition liti :: "string \<Rightarrow> rx" where
  "liti s = seq (map (\<lambda>c. Class (\<lambda>d. upper_char d = c)) s)"

definition opt :: "rx \<Rightarrow> rx" where
  "opt r = Rep 0 (Some 1) r"

definition many :: "rx \<Rightarrow> rx" where
  "many r = Rep 0 None r"

definition plus :: "rx \<Rightarrow> rx" where
  "plus r = Rep 1 None r"

definition digit :: rx where
  "digit = Class is_digit_char"

definition digits_between :: "nat \<Rightarrow> nat \<Rightarrow> rx" where
  "digits_between lo hi = Rep lo (Some hi) digit"

definition one_of :: "string \<Rightarrow> rx" where
  "one_of cs = Class (\<lambda>c. c \<in> set cs)"

definition is_letter_char :: "char \<Rightarrow> bool" where
  "is_letter_char c \<longleftrightarrow> is_upper_char c \<or> is_lower_char c"

section \<open>What a match reads\<close>

text \<open>A way leads forward: what it read is what is no longer left.\<close>

definition forward :: "rx_state \<Rightarrow> rx_state \<Rightarrow> bool" where
  "forward s t \<longleftrightarrow> (\<exists>x. rs_rest s = x @ rs_rest t \<and> rs_read t = rev x @ rs_read s)"

lemma forward_refl: "forward s s"
  by (simp add: forward_def)

lemma forward_trans: "forward s t \<Longrightarrow> forward t u \<Longrightarrow> forward s u"
  unfolding forward_def by fastforce

lemma repeated_forward:
  assumes step: "\<And>s t. t \<in> set (f s) \<Longrightarrow> forward s t"
  shows "t \<in> set (repeated g f lo hi n s) \<Longrightarrow> forward s t"
proof (induction n arbitrary: lo hi s)
  case 0
  then show ?case by (auto simp: forward_refl split: if_splits)
next
  case (Suc n)
  then consider "t = s"
    | u where "u \<in> set (f s)" "t \<in> set (repeated g f (lo - 1) (map_option (\<lambda>h. h - 1) hi) n u)"
    by (auto simp: Let_def split: if_splits)
  then show ?case
  proof cases
    case 1
    then show ?thesis by (simp add: forward_refl)
  next
    case (2 u)
    then show ?thesis using step Suc.IH forward_trans by blast
  qed
qed

lemma ways_forward: "t \<in> set (ways r s) \<Longrightarrow> forward s t"
proof (induction r arbitrary: s t)
  case (Seq a b)
  from Seq.prems obtain u where "u \<in> set (ways a s)" "t \<in> set (ways b u)" by auto
  then show ?case using Seq.IH forward_trans by blast
next
  case (Alt a b)
  then show ?case by auto
next
  case (Rep lo hi r)
  then show ?case using repeated_forward [of "ways r"] by simp
next
  case (Lazy lo hi r)
  then show ?case using repeated_forward [of "ways r"] by simp
next
  case (Group k r)
  from Group.prems obtain u where "u \<in> set (ways r s)" "rs_read t = rs_read u" "rs_rest t = rs_rest u" by auto
  with Group.IH [of u s] show ?case by (simp add: forward_def)
qed (auto simp: forward_def split: list.splits if_splits)

lemma match_at_parts:
  assumes "rx_match_at r read rest = Some m"
  shows "rest = rm_text m @ rm_after m"
proof -
  obtain st sts where w: "ways r \<lparr>rs_read = read, rs_rest = rest, rs_groups = []\<rparr> = st # sts"
    using assms by (auto simp: rx_match_at_def split: list.splits)
  then have "forward \<lparr>rs_read = read, rs_rest = rest, rs_groups = []\<rparr> st" by (intro ways_forward [of _ r]) simp
  then obtain x where "rest = x @ rs_rest st" by (auto simp: forward_def)
  with w assms show ?thesis by (auto simp: rx_match_at_def)
qed

text \<open>A substitution by nothing longer than what it replaces makes nothing longer.\<close>

lemma sub_from_length:
  assumes shorter: "\<And>read rest m. rx_match_at r read rest = Some m \<Longrightarrow> length (f m) \<le> length (rm_text m)"
  shows "length (sub_from r f n read s) \<le> length s"
proof (induction n arbitrary: read s)
  case (Suc n)
  show ?case
  proof (cases s)
    case (Cons c cs)
    show ?thesis
    proof (cases "rx_match_at r read s")
      case None
      then show ?thesis using Cons Suc.IH [of "c # read" cs] by simp
    next
      case (Some m)
      have "length s = length (rm_text m) + length (rm_after m)" using match_at_parts [OF Some] by simp
      then show ?thesis
        using Some Cons Suc.IH [of "c # read" cs] Suc.IH [of "rev (rm_text m) @ read" "rm_after m"] shorter [OF Some]
        by (auto simp: Let_def)
    qed
  qed simp
qed simp

lemma rx_sub_length:
  "(\<And>read rest m. rx_match_at r read rest = Some m \<Longrightarrow> length (f m) \<le> length (rm_text m))
     \<Longrightarrow> length (rx_sub r f s) \<le> length s"
  unfolding rx_sub_def by (rule sub_from_length)

lemma forward_shorter: "forward s t \<Longrightarrow> length (rs_rest t) \<le> length (rs_rest s)"
  by (auto simp: forward_def)

text \<open>What was read on the way, and that a group holds a part of it.\<close>

definition consumed :: "rx_state \<Rightarrow> rx_state \<Rightarrow> string" where
  "consumed s t = take (length (rs_rest s) - length (rs_rest t)) (rs_rest s)"

definition groups_from :: "rx_state \<Rightarrow> rx_state \<Rightarrow> bool" where
  "groups_from s t \<longleftrightarrow>
     (\<forall>(k, x) \<in> set (rs_groups t). (k, x) \<in> set (rs_groups s) \<or> sublist x (consumed s t))"

lemma groups_from_refl: "groups_from s s"
  by (auto simp: groups_from_def)

lemma consumed_trans: "forward s u \<Longrightarrow> forward u t \<Longrightarrow> consumed s t = consumed s u @ consumed u t"
  by (auto simp: forward_def consumed_def)

lemma groups_from_trans:
  assumes "groups_from s u" "groups_from u t" "forward s u" "forward u t"
  shows "groups_from s t"
proof -
  have "sublist (consumed s u) (consumed s t)" "sublist (consumed u t) (consumed s t)"
    using consumed_trans [OF assms(3,4)] by simp_all
  with assms(1,2) show ?thesis unfolding groups_from_def using sublist_order.order_trans by fastforce
qed

text \<open>The step of a repetition taken apart.\<close>

lemma repeated_Suc:
  "t \<in> set (repeated g f lo hi (Suc n) s) \<longleftrightarrow>
     lo = 0 \<and> t = s
     \<or> hi \<noteq> Some 0 \<and> (\<exists>u. u \<in> set (f s) \<and> length (rs_rest u) < length (rs_rest s)
         \<and> t \<in> set (repeated g f (lo - 1) (map_option (\<lambda>h. h - 1) hi) n u))"
  by (auto simp: Let_def)

declare repeated.simps(2) [simp del]

lemma repeated_groups:
  assumes step: "\<And>s t. t \<in> set (f s) \<Longrightarrow> forward s t \<and> groups_from s t"
  shows "t \<in> set (repeated g f lo hi n s) \<Longrightarrow> groups_from s t"
proof (induction n arbitrary: lo hi s)
  case 0
  then show ?case by (auto simp: groups_from_refl split: if_splits)
next
  case (Suc n)
  from Suc.prems consider "t = s"
    | u where "u \<in> set (f s)" "t \<in> set (repeated g f (lo - 1) (map_option (\<lambda>h. h - 1) hi) n u)"
    unfolding repeated_Suc by blast
  then show ?case
  proof cases
    case 1
    then show ?thesis by (simp add: groups_from_refl)
  next
    case (2 u)
    then have "forward u t" using step repeated_forward by blast
    with 2 show ?thesis using step Suc.IH groups_from_trans by blast
  qed
qed

lemma ways_groups: "t \<in> set (ways r s) \<Longrightarrow> groups_from s t"
proof (induction r arbitrary: s t)
  case (Seq a b)
  from Seq.prems obtain u where "u \<in> set (ways a s)" "t \<in> set (ways b u)" by auto
  then show ?case using Seq.IH ways_forward groups_from_trans by blast
next
  case (Alt a b)
  then show ?case by auto
next
  case (Rep lo hi r)
  then show ?case using repeated_groups [of "ways r"] ways_forward by simp
next
  case (Lazy lo hi r)
  then show ?case using repeated_groups [of "ways r"] ways_forward by simp
next
  case (Group k r)
  from Group.prems obtain u where u: "u \<in> set (ways r s)" "rs_rest t = rs_rest u"
      "rs_groups t = (k, consumed s u) # rs_groups u" by (auto simp: consumed_def)
  then have "consumed s t = consumed s u" by (simp add: consumed_def)
  with u Group.IH [of u s] show ?case by (auto simp: groups_from_def)
qed (auto simp: groups_from_def split: list.splits if_splits)

text \<open>The groups every match of an expression sets.\<close>

primrec sure_groups :: "rx \<Rightarrow> nat set" where
  "sure_groups Eps = {}"
| "sure_groups (Class p) = {}"
| "sure_groups (Seq a b) = sure_groups a \<union> sure_groups b"
| "sure_groups (Alt a b) = sure_groups a \<inter> sure_groups b"
| "sure_groups (Rep lo hi r) = (if lo = 0 then {} else sure_groups r)"
| "sure_groups (Lazy lo hi r) = (if lo = 0 then {} else sure_groups r)"
| "sure_groups (Group k r) = insert k (sure_groups r)"
| "sure_groups At_Start = {}"
| "sure_groups At_End = {}"
| "sure_groups (Before p) = {}"
| "sure_groups (Not_Next p) = {}"
| "sure_groups (End_Or_Next p) = {}"

definition groups_set :: "rx_state \<Rightarrow> nat set" where
  "groups_set s = fst ` set (rs_groups s)"

lemma repeated_sure:
  assumes step: "\<And>s t. t \<in> set (f s) \<Longrightarrow> groups_set s \<union> G \<subseteq> groups_set t"
  shows "t \<in> set (repeated g f lo hi n s) \<Longrightarrow> groups_set s \<union> (if lo = 0 then {} else G) \<subseteq> groups_set t"
proof (induction n arbitrary: lo hi s)
  case 0
  then show ?case by (auto split: if_splits)
next
  case (Suc n)
  from Suc.prems consider "lo = 0" "t = s"
    | u where "u \<in> set (f s)" "t \<in> set (repeated g f (lo - 1) (map_option (\<lambda>h. h - 1) hi) n u)"
    unfolding repeated_Suc by blast
  then show ?case
  proof cases
    case (2 u)
    then show ?thesis using step [of u s] Suc.IH [of "lo - 1" _ u] by (fastforce split: if_splits)
  qed simp
qed

lemma ways_sure: "t \<in> set (ways r s) \<Longrightarrow> groups_set s \<union> sure_groups r \<subseteq> groups_set t"
proof (induction r arbitrary: s t)
  case (Seq a b)
  from Seq.prems obtain u where u: "u \<in> set (ways a s)" "t \<in> set (ways b u)" by auto
  show ?case using Seq.IH(1) [OF u(1)] Seq.IH(2) [OF u(2)] by auto
next
  case (Alt a b)
  then show ?case by fastforce
next
  case (Rep lo hi r)
  then show ?case using repeated_sure [of "ways r" "sure_groups r"] by simp
next
  case (Lazy lo hi r)
  then show ?case using repeated_sure [of "ways r" "sure_groups r"] by simp
next
  case (Group k r)
  from Group.prems obtain u x where u: "u \<in> set (ways r s)" "rs_groups t = (k, x) # rs_groups u" by auto
  with Group.IH [OF u(1)] show ?case by (auto simp: groups_set_def)
qed (auto simp: groups_set_def split: list.splits if_splits)

text \<open>The groups a match can set at all.\<close>

primrec may_groups :: "rx \<Rightarrow> nat set" where
  "may_groups Eps = {}"
| "may_groups (Class p) = {}"
| "may_groups (Seq a b) = may_groups a \<union> may_groups b"
| "may_groups (Alt a b) = may_groups a \<union> may_groups b"
| "may_groups (Rep lo hi r) = may_groups r"
| "may_groups (Lazy lo hi r) = may_groups r"
| "may_groups (Group k r) = insert k (may_groups r)"
| "may_groups At_Start = {}"
| "may_groups At_End = {}"
| "may_groups (Before p) = {}"
| "may_groups (Not_Next p) = {}"
| "may_groups (End_Or_Next p) = {}"

lemma repeated_may:
  assumes step: "\<And>s t. t \<in> set (f s) \<Longrightarrow> groups_set t \<subseteq> groups_set s \<union> G"
  shows "t \<in> set (repeated g f lo hi n s) \<Longrightarrow> groups_set t \<subseteq> groups_set s \<union> G"
proof (induction n arbitrary: lo hi s)
  case 0
  then show ?case by (auto split: if_splits)
next
  case (Suc n)
  from Suc.prems consider "t = s"
    | u where "u \<in> set (f s)" "t \<in> set (repeated g f (lo - 1) (map_option (\<lambda>h. h - 1) hi) n u)"
    unfolding repeated_Suc by blast
  then show ?case
  proof cases
    case (2 u)
    then show ?thesis using step [of u s] Suc.IH [of "lo - 1" _ u] by blast
  qed simp
qed

lemma ways_may: "t \<in> set (ways r s) \<Longrightarrow> groups_set t \<subseteq> groups_set s \<union> may_groups r"
proof (induction r arbitrary: s t)
  case (Seq a b)
  from Seq.prems obtain u where u: "u \<in> set (ways a s)" "t \<in> set (ways b u)" by auto
  show ?case using Seq.IH(1) [OF u(1)] Seq.IH(2) [OF u(2)] by auto
next
  case (Alt a b)
  then show ?case by fastforce
next
  case (Rep lo hi r)
  then show ?case using repeated_may [of "ways r" "may_groups r"] by simp
next
  case (Lazy lo hi r)
  then show ?case using repeated_may [of "ways r" "may_groups r"] by simp
next
  case (Group k r)
  from Group.prems obtain u x where u: "u \<in> set (ways r s)" "rs_groups t = (k, x) # rs_groups u" by auto
  with Group.IH [OF u(1)] show ?case by (auto simp: groups_set_def)
qed (auto simp: groups_set_def split: list.splits if_splits)

text \<open>What a match of Python's functions says of its groups.\<close>

definition start_at :: "string \<Rightarrow> string \<Rightarrow> rx_state" where
  "start_at read rest = \<lparr>rs_read = read, rs_rest = rest, rs_groups = []\<rparr>"

lemma match_at_state:
  assumes "rx_match_at r read rest = Some m"
  shows "\<exists>st. st \<in> set (ways r (start_at read rest)) \<and> rm_groups m = rs_groups st
    \<and> rm_text m = consumed (start_at read rest) st"
  using assms by (auto simp: rx_match_at_def start_at_def consumed_def split: list.splits)

lemma group_of_sublist:
  assumes "rx_match_at r read rest = Some m" and "group_of m k = Some x"
  shows "sublist x (rm_text m)"
proof -
  obtain st where st: "st \<in> set (ways r (start_at read rest))" "rm_groups m = rs_groups st"
      "rm_text m = consumed (start_at read rest) st"
    using match_at_state [OF assms(1)] by blast
  have "(k, x) \<in> set (rs_groups st)" using assms(2) st(2) by (auto simp: group_of_def dest: map_of_SomeD)
  with ways_groups [OF st(1)] st(3) show ?thesis by (auto simp: groups_from_def start_at_def)
qed

lemma group_of_length:
  "rx_match_at r read rest = Some m \<Longrightarrow> group_of m k = Some x \<Longrightarrow> length x \<le> length (rm_text m)"
  using group_of_sublist sublist_length_le by blast

lemma sure_group_of:
  assumes "rx_match_at r read rest = Some m" and "k \<in> sure_groups r"
  shows "\<exists>x. group_of m k = Some x"
proof -
  obtain st where st: "st \<in> set (ways r (start_at read rest))" "rm_groups m = rs_groups st"
    using match_at_state [OF assms(1)] by blast
  have "k \<in> fst ` set (rm_groups m)" using ways_sure [OF st(1)] assms(2) st(2) by (auto simp: groups_set_def)
  then show ?thesis unfolding group_of_def by (metis map_of_eq_None_iff not_Some_eq)
qed

lemma may_group_of:
  assumes "rx_match_at r read rest = Some m" and "k \<notin> may_groups r"
  shows "group_of m k = None"
proof -
  obtain st where st: "st \<in> set (ways r (start_at read rest))" "rm_groups m = rs_groups st"
    using match_at_state [OF assms(1)] by blast
  then have "k \<notin> fst ` set (rm_groups m)"
    using ways_may [OF st(1)] assms(2) by (auto simp: groups_set_def start_at_def)
  then show ?thesis unfolding group_of_def by (simp add: map_of_eq_None_iff)
qed

lemma match_at_Alt:
  "rx_match_at (Alt a b) read rest = Some m \<Longrightarrow>
     rx_match_at a read rest = Some m \<or> rx_match_at b read rest = Some m"
  by (auto simp: rx_match_at_def append_eq_Cons_conv split: list.splits)

lemma match_text_chars: "rx_match_at r read rest = Some m \<Longrightarrow> set (rm_text m) \<subseteq> set rest"
  using match_at_parts by fastforce

lemma search_from_at:
  "search_from r read s = Some m \<Longrightarrow> \<exists>read' rest. rx_match_at r read' rest = Some m \<and> set rest \<subseteq> set s"
proof (induction r read s rule: search_from.induct)
  case (2 r read c s)
  then show ?case by (fastforce split: option.splits)
qed auto

lemma rx_search_at: "rx_search r s = Some m \<Longrightarrow> \<exists>read rest. rx_match_at r read rest = Some m \<and> set rest \<subseteq> set s"
  unfolding rx_search_def by (rule search_from_at)

text \<open>The characters a substitution leaves.\<close>

lemma sub_from_chars:
  assumes new: "\<And>read rest m. rx_match_at r read rest = Some m \<Longrightarrow> set (f m) \<subseteq> set (rm_text m) \<union> C"
  shows "set (sub_from r f n read s) \<subseteq> set s \<union> C"
proof (induction n arbitrary: read s)
  case (Suc n)
  show ?case
  proof (cases s)
    case (Cons c cs)
    show ?thesis
    proof (cases "rx_match_at r read s")
      case None
      then show ?thesis using Cons Suc.IH [of "c # read" cs] by auto
    next
      case (Some m)
      have "set s = set (rm_text m) \<union> set (rm_after m)" using match_at_parts [OF Some] by (metis set_append)
      then show ?thesis
        using Some Cons Suc.IH [of "c # read" cs] Suc.IH [of "rev (rm_text m) @ read" "rm_after m"] new [OF Some]
        by auto
    qed
  qed simp
qed auto

lemma rx_sub_chars:
  "(\<And>read rest m. rx_match_at r read rest = Some m \<Longrightarrow> set (f m) \<subseteq> set (rm_text m) \<union> C)
     \<Longrightarrow> set (rx_sub r f s) \<subseteq> set s \<union> C"
  unfolding rx_sub_def by (rule sub_from_chars)

text \<open>The characters an expression can read at all.\<close>

primrec can_read :: "rx \<Rightarrow> char \<Rightarrow> bool" where
  "can_read Eps c = False"
| "can_read (Class p) c = p c"
| "can_read (Seq a b) c = (can_read a c \<or> can_read b c)"
| "can_read (Alt a b) c = (can_read a c \<or> can_read b c)"
| "can_read (Rep lo hi r) c = can_read r c"
| "can_read (Lazy lo hi r) c = can_read r c"
| "can_read (Group k r) c = can_read r c"
| "can_read At_Start c = False"
| "can_read At_End c = False"
| "can_read (Before p) c = False"
| "can_read (Not_Next p) c = False"
| "can_read (End_Or_Next p) c = False"

lemma repeated_reads:
  assumes step: "\<And>s t. t \<in> set (f s) \<Longrightarrow> forward s t \<and> (\<forall>c \<in> set (consumed s t). R c)"
  shows "t \<in> set (repeated g f lo hi n s) \<Longrightarrow> \<forall>c \<in> set (consumed s t). R c"
proof (induction n arbitrary: lo hi s)
  case 0
  then show ?case by (auto simp: consumed_def split: if_splits)
next
  case (Suc n)
  from Suc.prems consider "t = s"
    | u where "u \<in> set (f s)" "t \<in> set (repeated g f (lo - 1) (map_option (\<lambda>h. h - 1) hi) n u)"
    unfolding repeated_Suc by blast
  then show ?case
  proof cases
    case 1
    then show ?thesis by (simp add: consumed_def)
  next
    case (2 u)
    then have "forward u t" using step repeated_forward by blast
    with 2 show ?thesis using step [OF 2(1)] Suc.IH [OF 2(2)] consumed_trans by (metis Un_iff set_append)
  qed
qed

lemma ways_read: "t \<in> set (ways r s) \<Longrightarrow> \<forall>c \<in> set (consumed s t). can_read r c"
proof (induction r arbitrary: s t)
  case (Class p)
  then show ?case by (cases "rs_rest s") (auto simp: consumed_def split: if_splits)
next
  case (Seq a b)
  from Seq.prems obtain u where u: "u \<in> set (ways a s)" "t \<in> set (ways b u)" by auto
  then show ?case
    using Seq.IH consumed_trans [OF ways_forward [OF u(1)] ways_forward [OF u(2)]] by fastforce
next
  case (Alt a b)
  then show ?case by fastforce
next
  case (Rep lo hi r)
  then show ?case using repeated_reads [of "ways r" "can_read r"] ways_forward by simp
next
  case (Lazy lo hi r)
  then show ?case using repeated_reads [of "ways r" "can_read r"] ways_forward by simp
next
  case (Group k r)
  from Group.prems obtain u where "u \<in> set (ways r s)" "rs_rest t = rs_rest u" by auto
  with Group.IH [of u s] show ?case by (simp add: consumed_def)
qed (auto simp: consumed_def split: list.splits if_splits)

lemma rx_full_reads:
  assumes "rx_full r s = Some m" and "c \<in> set s"
  shows "can_read r c"
proof -
  obtain st where st: "st \<in> set (ways r (start_at [] s))" "rs_rest st = []"
    using assms(1) found_in by (fastforce simp: rx_full_def start_at_def)
  then have "consumed (start_at [] s) st = s" by (simp add: consumed_def start_at_def)
  with ways_read [OF st(1)] assms(2) show ?thesis by simp
qed

end
