(* ===== verification/Avid.thy ===== *)
theory Avid
  imports Regex Merge_Detect
begin

text \<open>
  \<^verbatim>\<open>core/avid.py\<close>: reading the id of a video out of a title or a file name. Every
  pattern is the source's, written with the combinators of Regex; the order of the branches
  is the source's. The operator's own patterns (\<^verbatim>\<open>ignored_id_patterns\<close>) are not
  code of the repository: removing what they match is a function of the configuration, and
  that it makes no text longer is the hypothesis of the termination theorem. Titles are ASCII.
\<close>

section \<open>Patterns\<close>

definition any_char :: "char \<Rightarrow> bool" where
  "any_char c \<longleftrightarrow> c \<noteq> newline"

definition not_alnum :: "char \<Rightarrow> bool" where
  "not_alnum c \<longleftrightarrow> \<not> is_alnum_char c"

definition word_char :: "char \<Rightarrow> bool" where
  "word_char c \<longleftrightarrow> is_alnum_char c \<or> c = CHR ''_''"

text \<open>\<^verbatim>\<open>[A-Z]\<close> under \<^verbatim>\<open>re.IGNORECASE\<close>, and without it.\<close>

definition letters :: "nat \<Rightarrow> nat option \<Rightarrow> rx" where
  "letters lo hi = Rep lo hi (Class is_letter_char)"

definition capitals :: "nat \<Rightarrow> nat option \<Rightarrow> rx" where
  "capitals lo hi = Rep lo hi (Class is_upper_char)"

definition digits :: "nat \<Rightarrow> nat option \<Rightarrow> rx" where
  "digits lo hi = Rep lo hi digit"

text \<open>The separators \<^verbatim>\<open>[-_]\<close>.\<close>

definition dash :: rx where
  "dash = one_of ''-_''"

definition DOMAIN_RE :: rx where
  "DOMAIN_RE = seq [Rep 3 (Some 10) (Class word_char), lit ''.'', alts [liti ''COM'', liti ''NET'', liti ''APP'', liti ''XYZ'']]"

definition TAG_ALTERNATIVES :: rx where
  "TAG_ALTERNATIVES = alts
     [liti ''DVD'', liti ''ISO'', liti ''MKV'', liti ''MP4'', Seq (opt (liti ''C'')) (liti ''AVI''),
      Seq (many digit) (liti ''FPS''), liti ''WHOLE'',
      seq [opt (Alt (liti ''F'') (liti ''HHB'')), liti ''HD'', many digit],
      Seq (liti ''SD'') (many digit), liti ''LT'',
      Seq (alts [lit ''144'', lit ''240'', lit ''360'', lit ''480'', lit ''720'', lit ''1080'', lit ''2160''])
          (Alt (liti ''P'') (liti ''I'')),
      liti ''X1080X'', liti ''UHD'', liti ''HQ'', liti ''UNCENSORED'', liti ''LEAK'',
      seq [one_of ''2468'', liti ''K'', opt (liti ''S'')],
      seq [Alt (liti ''X'') (liti ''H''), lit ''26'', one_of ''45'']]"

definition after_boundary :: rx where
  "after_boundary = Alt At_Start (Before not_alnum)"

definition TAG_RE :: rx where
  "TAG_RE = seq [after_boundary, plus TAG_ALTERNATIVES, End_Or_Next not_alnum]"

definition SINGLE_TAG_RE :: rx where
  "SINGLE_TAG_RE = Group 1 TAG_ALTERNATIVES"

definition REPEATED_SEPARATOR_RE :: rx where
  "REPEATED_SEPARATOR_RE = Rep 2 None (one_of ''-_. '')"

definition QUALITY_PREFIX_RE :: rx where
  "QUALITY_PREFIX_RE = seq [At_Start, Alt (Seq (opt (liti ''F'')) (liti ''HD'')) (liti ''SD''), dash]"

definition SUFFIX_RE :: rx where
  "SUFFIX_RE = seq
     [alts [Seq dash (alts [liti ''C'', liti ''UC'', liti ''CH'', Seq (liti ''CD'') (digits_between 1 2)]),
            Seq (liti ''HHB'') (many digit), liti ''CH''],
      many (Class is_space), At_End]"

text \<open>The group \<^verbatim>\<open>kept\<close> is number 1.\<close>

definition STUDIO_RE :: rx where
  "STUDIO_RE = seq
     [after_boundary,
      alts [seq [liti ''CARIB'', opt (seq [opt (liti ''B''), liti ''EAN'']), opt (liti ''COM''), opt (liti ''PR'')],
            seq [opt (lit ''1''), liti ''PON'', opt (liti ''D''), opt (liti ''O'')],
            seq [lit ''10'', liti ''MU'', opt (liti ''SUME'')],
            seq [liti ''PACO'', opt (liti ''PACO''), opt (liti ''MAMA'')],
            seq [liti ''MURA'', opt (liti ''MURA'')],
            seq [liti ''TOKYO'', opt (Class (\<lambda>c. c \<in> set ''-_'' \<or> is_space c)), liti ''HOT'']],
      Alt (Seq (plus (Class (\<lambda>c. c \<in> set ''-_'' \<or> is_space c)))
             (Group 1 (Alt (seq [digits 4 None, dash, digits 2 None])
                           (Seq (letters 1 (Some 4)) (digits_between 2 4)))))
          At_End]"

definition HIGH_RESOLUTION_TAGS :: "string set" where
  "HIGH_RESOLUTION_TAGS = {''2K'', ''4K'', ''6K'', ''8K'', ''2160P'', ''2160I'', ''UHD''}"

definition MAX_EXTENSION_LENGTH :: nat where
  "MAX_EXTENSION_LENGTH = 7"

definition MIN_BRAND_LENGTH :: nat where
  "MIN_BRAND_LENGTH = 2"

section \<open>Noise\<close>

definition domain_variants :: "string \<Rightarrow> string \<times> string" where
  "domain_variants norm =
     (case rx_search DOMAIN_RE norm of
        None \<Rightarrow> (norm, norm)
      | Some domain \<Rightarrow>
          (let no_domain = rx_sub DOMAIN_RE (\<lambda>_. []) norm
           in (no_domain, if list_ex is_alnum_char (rm_after domain) then no_domain else norm)))"

definition strip_extension :: "string \<Rightarrow> string" where
  "strip_extension name =
     (let suffix = path_suffix name
      in if 0 < length suffix \<and> length suffix < MAX_EXTENSION_LENGTH
         then take (length name - length suffix) name else name)"

definition strip_variant_tags :: "string \<Rightarrow> string" where
  "strip_variant_tags name = rx_sub TAG_RE (\<lambda>_. []) (strip_extension name)"

definition variant_tags :: "string \<Rightarrow> string set" where
  "variant_tags name =
     set (concat (map (\<lambda>run. map (\<lambda>tag. upper (the (group_of tag 1))) (rx_findall SINGLE_TAG_RE (rm_text run)))
       (rx_findall TAG_RE (strip_extension name))))"

text \<open>The trailing markers, taken off until none is left.\<close>

lemma sub_nothing_shorter:
  "sub_from r (\<lambda>_. []) n read s = s \<or> length (sub_from r (\<lambda>_. []) n read s) < length s"
proof (induction n arbitrary: read s)
  case (Suc n)
  show ?case
  proof (cases s)
    case (Cons c cs)
    show ?thesis
    proof (cases "rx_match_at r read s")
      case None
      then show ?thesis using Cons Suc.IH [of "c # read" cs] by auto
    next
      case (Some m)
      have "length s = length (rm_text m) + length (rm_after m)" using match_at_parts [OF Some] by simp
      moreover have "length (sub_from r (\<lambda>_. []) n (rev (rm_text m) @ read) (rm_after m)) \<le> length (rm_after m)"
            by (rule sub_from_length) simp
      ultimately show ?thesis
        using Some Cons Suc.IH [of "c # read" cs] by (cases "rm_text m") auto
    qed
  qed simp
qed simp

lemma rx_sub_nothing_shorter: "rx_sub r (\<lambda>_. []) s \<noteq> s \<Longrightarrow> length (rx_sub r (\<lambda>_. []) s) < length s"
  using sub_nothing_shorter unfolding rx_sub_def by blast

function strip_suffixes :: "string \<Rightarrow> string" where
  "strip_suffixes stem =
     (let trimmed = rx_sub SUFFIX_RE (\<lambda>_. []) stem
      in if trimmed = stem then stem else strip_suffixes trimmed)"
  by auto
termination
  by (relation "measure length") (auto simp: rx_sub_nothing_shorter)

declare strip_suffixes.simps [simp del]

definition strip_release_noise :: "string \<Rightarrow> string" where
  "strip_release_noise stem =
     (let stem = rx_sub QUALITY_PREFIX_RE (\<lambda>_. []) stem;
          stem = rx_sub TAG_RE (\<lambda>_. []) stem;
          stem = rx_sub STUDIO_RE (\<lambda>m. case group_of m 1 of Some k \<Rightarrow> k | None \<Rightarrow> []) stem;
          stem = strip_suffixes stem
      in strip (rx_sub REPEATED_SEPARATOR_RE (\<lambda>_. ''-'') stem))"

section \<open>Numbers\<close>

text \<open>A group of a match that took part in it.\<close>

definition grp :: "rx_match \<Rightarrow> nat \<Rightarrow> string" where
  "grp m k = the (group_of m k)"

definition replace_char :: "char \<Rightarrow> char \<Rightarrow> string \<Rightarrow> string" where
  "replace_char a b s = map (\<lambda>c. if c = a then b else c) s"

text \<open>A list of patterns, each with what its match reads as: the first that is found counts.\<close>

fun first_read :: "(rx \<times> (rx_match \<Rightarrow> string)) list \<Rightarrow> string \<Rightarrow> string option" where
  "first_read [] norm = None"
| "first_read ((r, f) # rules) norm =
     (case rx_search r norm of
        Some m \<Rightarrow> Some (f m)
      | None \<Rightarrow> first_read rules norm)"

definition odd_rules :: "(rx \<times> (rx_match \<Rightarrow> string)) list" where
  "odd_rules =
     [(Alt (seq [Alt At_Start (Before (\<lambda>c. \<not> (is_upper_char c \<or> is_digit_char c))),
                 Group 1 (seq [lit ''T'', dash, digits 5 (Some 5)]), Not_Next is_digit_char])
           (Group 2 (seq [lit ''T'', one_of ''23'', lit ''8'', dash, digits 3 (Some 3)])),
       \<lambda>m. if group_of m 1 \<noteq> None then replace_char (CHR ''_'') (CHR ''-'') (grp m 1) else grp m 2),
      (seq [Group 1 (Alt (liti ''N'') (liti ''K'')), opt dash, Group 2 (digits 4 (Some 4))],
       \<lambda>m. grp m 1 @ grp m 2),
      (Group 1 (seq [digits 6 (Some 6), dash, digits_between 2 3]), \<lambda>m. grp m 1),
      (seq [Group 1 (capitals 2 (Some 10)), dash, Group 2 (Seq (Class is_upper_char) (digits_between 2 5))],
       \<lambda>m. grp m 1 @ ''-'' @ grp m 2),
      (Group 1 (seq [digits 4 (Some 4), dash, digits 3 (Some 3)]), \<lambda>m. grp m 1)]"

definition match_odd_numbering :: "string \<Rightarrow> string" where
  "match_odd_numbering norm = (case first_read odd_rules norm of Some s \<Rightarrow> s | None \<Rightarrow> [])"

definition dashed :: "nat \<Rightarrow> nat \<Rightarrow> rx_match \<Rightarrow> string" where
  "dashed i j m = grp m i @ ''-'' @ grp m j"

text \<open>The branches of the brands that name themselves in the text.\<close>

definition fc2_rules :: "(rx \<times> (rx_match \<Rightarrow> string)) list" where
  "fc2_rules =
     [(seq [liti ''FC2'', Rep 0 (Some 5) (Class not_alnum), opt (Group 1 (Seq (liti ''PPV'') (Rep 0 (Some 5) (Class not_alnum)))),
            Group 2 (digits_between 5 7)],
       \<lambda>m. ''FC2-'' @ grp m 2)]"

definition heydouga_rules :: "(rx \<times> (rx_match \<Rightarrow> string)) list" where
  "heydouga_rules =
     [(seq [Group 1 (liti ''HEYDOUGA''), many dash, Group 2 (digits 4 (Some 4)), dash, opt (lit ''0''), Group 3 (digits_between 3 5)],
       \<lambda>m. join_with ''-'' [grp m 1, grp m 2, grp m 3])]"

definition getchu_rules :: "(rx \<times> (rx_match \<Rightarrow> string)) list" where
  "getchu_rules = [(seq [liti ''GETCHU'', many dash, Group 1 (plus digit)], \<lambda>m. ''GETCHU-'' @ grp m 1)]"

definition gyutto_rules :: "(rx \<times> (rx_match \<Rightarrow> string)) list" where
  "gyutto_rules = [(seq [liti ''GYUTTO'', lit ''-'', Group 1 (plus digit)], \<lambda>m. ''GYUTTO-'' @ grp m 1)]"

definition luxu_rules :: "(rx \<times> (rx_match \<Rightarrow> string)) list" where
  "luxu_rules = [(seq [lit ''259'', liti ''LUXU'', lit ''-'', Group 1 (plus digit)], \<lambda>m. ''259LUXU-'' @ grp m 1)]"

text \<open>And of every other text, in the order in which they are tried.\<close>

definition plain_rules :: "(rx \<times> (rx_match \<Rightarrow> string)) list" where
  "plain_rules =
     [(seq [liti ''HEY'', many dash, Group 1 (digits 4 (Some 4)), dash, opt (lit ''0''), Group 2 (digits_between 3 5)],
       \<lambda>m. ''heydouga-'' @ join_with ''-'' [grp m 1, grp m 2]),
      (Alt (seq [Group 1 (seq [liti ''MK'', opt (liti ''B''), liti ''D'']), many dash, Group 2 (Seq (liti ''S'') (digits_between 2 3))])
           (seq [Group 3 (Alt (seq [liti ''S'', lit ''2'', liti ''M'']) (seq [liti ''S'', lit ''2'', liti ''MBD''])), many dash,
                 Group 4 (digits_between 2 3)]),
       \<lambda>m. if group_of m 1 \<noteq> None then dashed 1 2 m else dashed 3 4 m),
      (seq [Group 1 (seq [letters 2 (Some 4), lit ''3'', liti ''D'', lit ''2'', opt (liti ''D''), liti ''BD'']), many dash,
            Group 2 (digits_between 2 3)], dashed 1 2),
      (seq [Group 1 (liti ''IBW''), dash, Group 2 (Seq (digits_between 2 5) (liti ''Z''))], dashed 1 2),
      (seq [Group 1 (Seq (digits_between 2 3) (liti ''ID'')), dash, Group 2 (digits_between 2 5)], dashed 1 2),
      (seq [Group 1 (letters 2 (Some 10)), dash, Group 2 (digits_between 2 5)], dashed 1 2),
      (Group 1 (alts [seq [liti ''RED'', one_of ''01'', digit, digit], seq [liti ''SKY'', one_of ''0123'', digit, digit],
                      seq [liti ''EX'', lit ''00'', one_of ''01'', digit]]), \<lambda>m. grp m 1),
      (Seq (Group 1 (letters 2 None)) (Group 2 (digits_between 2 5)), dashed 1 2)]"

section \<open>The parser\<close>

text \<open>\<^verbatim>\<open>AvidConfig\<close>: the ids returned as they are, and what the operator's patterns take out.\<close>

record avid_config =
  avc_exceptions :: "string list"
  avc_ignore :: "string \<Rightarrow> string"

fun close_open_to_dash :: "string \<Rightarrow> string" where
  "close_open_to_dash (a # b # s) =
     (if a = CHR '')'' \<and> b = CHR ''('' then CHR ''-'' # close_open_to_dash s
      else a # close_open_to_dash (b # s))"
| "close_open_to_dash s = s"

text \<open>
  \<^verbatim>\<open>get_avid\<close> and \<^verbatim>\<open>get_id\<close> call each other on shorter and shorter texts; the fuel
  counts the calls.
\<close>

definition keep_or :: "string option \<Rightarrow> string option \<Rightarrow> string option" where
  "keep_or first rest = (case first of None \<Rightarrow> None | Some a \<Rightarrow> if a \<noteq> [] then Some a else rest)"

definition id_tail :: "(string \<Rightarrow> string option) \<Rightarrow> string \<Rightarrow> string \<Rightarrow> string option" where
  "id_tail again path norm =
     (let fallback = match_odd_numbering norm
      in if fallback \<noteq> [] then Some fallback
         else keep_or (if contains '')('' norm then again (close_open_to_dash norm) else Some [])
                (if path_name (path_parent path) \<noteq> [] then again (path_name (path_parent path)) else Some []))"

definition id_of :: "(string \<Rightarrow> string option) \<Rightarrow> (string \<Rightarrow> string) \<Rightarrow> string \<Rightarrow> string option" where
  "id_of again ignore path =
     (let norm = upper (ignore (strip_release_noise (strip_extension (path_name path))));
          named = (\<lambda>rules. case first_read rules norm of Some i \<Rightarrow> Some i | None \<Rightarrow> id_tail again path norm)
      in if contains ''FC2'' norm then named fc2_rules
         else if contains ''HEYDOUGA'' norm then named heydouga_rules
         else if contains ''GETCHU'' norm then named getchu_rules
         else if contains ''GYUTTO'' norm then named gyutto_rules
         else if contains ''259LUXU'' norm then named luxu_rules
         else
           (case domain_variants norm of
              (no_domain, fallback_norm) \<Rightarrow>
                (let plain = (\<lambda>t. case first_read plain_rules t of Some i \<Rightarrow> Some i | None \<Rightarrow> id_tail again path t)
                 in if no_domain \<noteq> norm then keep_or (again no_domain) (plain fallback_norm) else plain norm)))"

fun avid_within :: "avid_config \<Rightarrow> nat \<Rightarrow> string \<Rightarrow> string option" where
  "avid_within cfg 0 title = None"
| "avid_within cfg (Suc n) title =
     (let title = filter (\<lambda>c. c \<noteq> slash) title
      in case find (\<lambda>e. contains e (upper title)) (avc_exceptions cfg) of
           Some e \<Rightarrow> Some e
         | None \<Rightarrow>
             map_option (\<lambda>i. normalize_number (upper i)) (id_of (avid_within cfg n) (avc_ignore cfg) title))"

definition get_avid :: "avid_config \<Rightarrow> string \<Rightarrow> string option" where
  "get_avid cfg title = avid_within cfg (Suc (length title)) title"

definition get_brand :: "string \<Rightarrow> string option" where
  "get_brand avid =
     (if CHR ''-'' \<notin> set avid then None
      else
        (let brand = takeWhile (\<lambda>c. c \<noteq> CHR ''-'') avid
         in Some (if rx_match_start (seq [At_Start, plus digit, At_End]) brand \<noteq> None
                    \<and> MIN_BRAND_LENGTH \<le> length brand
                  then take MIN_BRAND_LENGTH brand else brand)))"

definition get_cd :: "string \<Rightarrow> string option" where
  "get_cd title =
     (case rx_search (seq [lit ''CD'', Group 1 (plus digit), Class any_char]) title of
        Some result \<Rightarrow> group_of result 1
      | None \<Rightarrow> None)"

end
