(* ===== verification/Avid_Laws.thy ===== *)
theory Avid_Laws
  imports Avid
begin

text \<open>
  What every id read out of a title satisfies: the parser ends on every title, its texts only
  get shorter, the number of an id is in its normal form, and an id has no slash, so that it
  names a file and a directory.
\<close>

section \<open>Every title is read\<close>

lemma split_slash_length: "x \<in> set (split_slash acc s) \<Longrightarrow> length x \<le> length acc + length s"
proof (induction s arbitrary: acc)
  case (Cons a s)
  then show ?case using Cons.IH [of "[]"] Cons.IH [of "a # acc"] by (fastforce split: if_splits)
qed simp

lemma path_name_length: "length (path_name p) \<le> length p"
proof (cases "path_names p = []")
  case False
  then have "last (path_names p) \<in> set (split_slash [] p)"
    using last_in_set [OF False] by (auto simp: path_names_def)
  with False show ?thesis using split_slash_length by (fastforce simp: path_name_def)
qed (simp add: path_name_def)

lemma strip_extension_length: "length (strip_extension s) \<le> length s"
  by (auto simp: strip_extension_def Let_def)

lemma strip_suffixes_length: "length (strip_suffixes s) \<le> length s"
proof (induction s rule: strip_suffixes.induct)
  case (1 s)
  then show ?case
    using rx_sub_nothing_shorter [of SUFFIX_RE s]
    by (subst strip_suffixes.simps) (fastforce simp: Let_def)
qed

lemma strip_length: "length (strip s) \<le> length s"
  unfolding strip_def using le_trans [OF length_dropWhile_le length_dropWhile_le]
  by (metis length_dropWhile_le length_rev order_trans)

text \<open>What starts with something that reads a character reads one.\<close>

lemma plus_reads:
  assumes "rx_match_at (Rep (Suc lo) None r) read rest = Some m"
  shows "rm_text m \<noteq> []"
proof -
  let ?s = "\<lparr>rs_read = read, rs_rest = rest, rs_groups = []\<rparr>"
  obtain st sts where w: "ways (Rep (Suc lo) None r) ?s = st # sts"
    using assms by (auto simp: rx_match_at_def split: list.splits)
  then have "st \<in> set (repeated True (ways r) (Suc lo) None (length rest) ?s)" by simp
  then obtain u n where u: "length (rs_rest u) < length rest" "st \<in> set (repeated True (ways r) lo None n u)"
    by (cases rest) (auto simp: repeated_Suc)
  then have "length (rs_rest st) < length rest"
    using forward_shorter [OF repeated_forward [of "ways r"]] ways_forward by (meson le_less_trans)
  with w assms show ?thesis by (auto simp: rx_match_at_def)
qed

lemma strip_release_noise_length: "length (strip_release_noise s) \<le> length s"
proof -
  have quality: "length (rx_sub QUALITY_PREFIX_RE (\<lambda>_. []) t) \<le> length t" for t by (rule rx_sub_length) simp
  have tags: "length (rx_sub TAG_RE (\<lambda>_. []) t) \<le> length t" for t by (rule rx_sub_length) simp
  have studio: "length (rx_sub STUDIO_RE (\<lambda>m. case group_of m 1 of Some k \<Rightarrow> k | None \<Rightarrow> []) t) \<le> length t" for t
    by (rule rx_sub_length) (auto split: option.splits dest: group_of_length)
  have seps: "length (rx_sub REPEATED_SEPARATOR_RE (\<lambda>_. ''-'') t) \<le> length t" for t
  proof (rule rx_sub_length)
    fix read rest m
    assume "rx_match_at REPEATED_SEPARATOR_RE read rest = Some m"
    then have "rm_text m \<noteq> []" by (auto simp: REPEATED_SEPARATOR_RE_def numeral_2_eq_2 dest: plus_reads)
    then show "length ''-'' \<le> length (rm_text m)" by (cases "rm_text m") simp_all
  qed
  show ?thesis
    unfolding strip_release_noise_def Let_def
    by (intro order_trans [OF strip_length] order_trans [OF seps] order_trans [OF strip_suffixes_length]
          order_trans [OF studio] order_trans [OF tags] quality)
qed

lemma close_open_shorter:
  "length (close_open_to_dash s) \<le> length s"
  "contains '')('' s \<Longrightarrow> length (close_open_to_dash s) < length s"
proof (induction s rule: close_open_to_dash.induct)
  case (1 a b s)
  {
    case 1
    show ?case using "1.IH" by (auto)
  next
    case 2
    then show ?case using "1.IH" by (auto simp: starts_with_def less_Suc_eq_le)
  }
qed (auto simp: starts_with_def)

lemma no_slash_no_folder: "slash \<notin> set p \<Longrightarrow> path_name (path_parent p) = []"
proof -
  assume none: "slash \<notin> set p"
  have "path_names p = [] \<or> path_names p = [p]"
    using split_slash_no_slash [OF none, of "[]"] by (auto simp: path_names_def)
  moreover have "path_root p = []" using none by (cases p) (auto simp: path_root_def)
  ultimately show ?thesis by (auto simp: path_parent_def path_str_def path_name_def path_names_def)
qed

lemma keep_or_some: "a \<noteq> None \<Longrightarrow> b \<noteq> None \<Longrightarrow> keep_or a b \<noteq> None"
  by (auto simp: keep_or_def)

lemma id_tail_some:
  assumes "\<And>t. length t < k \<Longrightarrow> again t \<noteq> None" and "length norm \<le> k" and "slash \<notin> set path"
  shows "id_tail again path norm \<noteq> None"
proof -
  have "contains '')('' norm \<Longrightarrow> again (close_open_to_dash norm) \<noteq> None"
    using assms(1,2) close_open_shorter(2) by (meson le_trans less_le_trans)
  with no_slash_no_folder [OF assms(3)] show ?thesis
    unfolding id_tail_def Let_def by (auto simp: keep_or_def)
qed

lemma domain_variants_length:
  "domain_variants norm = (a, b) \<Longrightarrow> length a \<le> length norm \<and> length b \<le> length norm \<and> (a \<noteq> norm \<longrightarrow> length a < length norm)"
  using rx_sub_nothing_shorter [of DOMAIN_RE norm]
  by (fastforce simp: domain_variants_def Let_def split: option.splits if_splits)

lemma id_of_some:
  assumes again: "\<And>t. length t < length path \<Longrightarrow> again t \<noteq> None"
    and ignore: "\<And>t. length (ignore t) \<le> length t" and flat: "slash \<notin> set path"
  shows "id_of again ignore path \<noteq> None"
proof -
  define norm where "norm = upper (ignore (strip_release_noise (strip_extension (path_name path))))"
  have short: "length norm \<le> length path"
    unfolding norm_def upper_def length_map
    by (intro order_trans [OF ignore] order_trans [OF strip_release_noise_length]
          order_trans [OF strip_extension_length] path_name_length)
  obtain a b where ab: "domain_variants norm = (a, b)" by fastforce
  note lens = domain_variants_length [OF ab]
  have tail: "id_tail again path t \<noteq> None" if "length t \<le> length path" for t
    using id_tail_some [of "length path" again t path] again that flat by blast
  have named: "(case first_read rules t of Some i \<Rightarrow> Some i | None \<Rightarrow> id_tail again path t) \<noteq> None"
    if "length t \<le> length path" for rules t
    using tail [OF that] by (auto split: option.splits)
  have plain: "a \<noteq> norm \<Longrightarrow> again a \<noteq> None" using again lens short by (meson less_le_trans)
  have b: "length b \<le> length path" using lens short by simp
  show ?thesis
    unfolding id_of_def norm_def [symmetric] Let_def ab case_prod_conv
    using named [OF short] named [OF b] plain keep_or_some by presburger
qed

lemma avid_within_some:
  assumes "\<And>t. length (avc_ignore cfg t) \<le> length t"
  shows "length title < n \<Longrightarrow> avid_within cfg n title \<noteq> None"
proof (induction n arbitrary: title)
  case (Suc n)
  let ?t = "filter (\<lambda>c. c \<noteq> slash) title"
  have "id_of (avid_within cfg n) (avc_ignore cfg) ?t \<noteq> None"
  proof (rule id_of_some)
    fix t :: string
    assume "length t < length ?t"
    then have "length t < n" using Suc.prems length_filter_le [of "\<lambda>c. c \<noteq> slash" title] by linarith
    then show "avid_within cfg n t \<noteq> None" by (rule Suc.IH)
  qed (use assms in auto)
  then show ?case by (auto simp: Let_def split: option.splits)
qed simp

section \<open>One spelling per id\<close>

lemma upper_char_digit: "is_digit_char c \<Longrightarrow> upper_char c = c"
  by (auto simp: upper_char_def is_digit_char_def is_lower_char_def)

lemma number_of_leading_zeros: "number_of_digits (replicate k (CHR ''0'') @ ds) = number_of_digits ds"
  by (induction k) (simp_all add: number_of_digits_def digit_of_def code_of_def)

lemma pad3_digits: "list_all is_digit_char (pad3 n)" "pad3 n \<noteq> []" "number_of_digits (pad3 n) = n"
proof -
  show "list_all is_digit_char (pad3 n)"
    using digits_of_digits [of n] by (auto simp: pad3_def list_all_iff is_digit_char_def code_of_def)
  have "digits_of n \<noteq> []" by (subst digits_of.simps) simp
  then show "pad3 n \<noteq> []" by (simp add: pad3_def)
  show "number_of_digits (pad3 n) = n" by (simp add: pad3_def number_of_leading_zeros number_of_digits_of)
qed

text \<open>The two ways a number comes out of its normal form.\<close>

lemma normalize_number_cases:
  "normalize_number avid = avid \<or>
     (\<exists>brand n. normalize_number avid = brand @ ''-'' @ pad3 n
        \<and> list_all (\<lambda>c. is_upper_char c \<or> is_digit_char c) brand
        \<and> list_ex is_upper_char brand \<and> brand \<notin> NON_CID_BRANDS)"
proof -
  define brand where "brand = takeWhile (\<lambda>c. c \<noteq> CHR ''-'') (chop_newline avid)"
  define rest where "rest = drop (Suc (length brand)) (chop_newline avid)"
  show ?thesis
    unfolding normalize_number_def Let_def brand_def [symmetric] rest_def [symmetric] by (simp split: if_split) blast
qed

lemma chop_digits: "list_all is_digit_char ds \<Longrightarrow> ds \<noteq> [] \<Longrightarrow> chop_newline (s @ ds) = s @ ds"
  by (cases ds rule: rev_cases) (auto simp: chop_newline_def newline_def is_digit_char_def code_of_def)

lemma normalize_number_form:
  assumes "list_all (\<lambda>c. is_upper_char c \<or> is_digit_char c) brand" "list_ex is_upper_char brand"
    "brand \<notin> NON_CID_BRANDS"
  shows "normalize_number (brand @ ''-'' @ pad3 n) = brand @ ''-'' @ pad3 n"
proof -
  have chop: "chop_newline (brand @ ''-'' @ pad3 n) = brand @ ''-'' @ pad3 n"
    using chop_digits [of "pad3 n" "brand @ ''-''"] pad3_digits by simp
  have "takeWhile (\<lambda>c. c \<noteq> CHR ''-'') (brand @ ''-'' @ pad3 n) = brand"
    using assms(1)
    by (subst takeWhile_append2) (auto simp: list_all_iff is_upper_char_def is_digit_char_def code_of_def)
  with assms pad3_digits [of n] show ?thesis
    unfolding normalize_number_def chop Let_def by simp
qed

lemma normalize_number_idem: "normalize_number (normalize_number avid) = normalize_number avid"
  using normalize_number_cases [of avid] normalize_number_form by fastforce

lemma upper_normalize_number:
  assumes "upper avid = avid"
  shows "upper (normalize_number avid) = normalize_number avid"
proof -
  have form: "upper (brand @ ''-'' @ pad3 n) = brand @ ''-'' @ pad3 n"
    if brand: "list_all (\<lambda>c. is_upper_char c \<or> is_digit_char c) brand" for brand n
  proof -
    have "upper_char c = c" if "c \<in> set (brand @ ''-'' @ pad3 n)" for c
      using that brand pad3_digits(1) [of n]
      by (auto simp: list_all_iff upper_char_def is_upper_char_def is_digit_char_def is_lower_char_def code_of_def)
    then show ?thesis unfolding upper_def by (simp add: map_idI)
  qed
  from normalize_number_cases [of avid] show ?thesis
  proof (elim disjE exE conjE)
    assume "normalize_number avid = avid"
    with assms show ?thesis by simp
  next
    fix brand n
    assume "normalize_number avid = brand @ ''-'' @ pad3 n" "list_all (\<lambda>c. is_upper_char c \<or> is_digit_char c) brand"
    with form show ?thesis by presburger
  qed
qed

section \<open>An id is a proper name\<close>

lemma grp_clean:
  assumes "rx_match_at r read rest = Some m" and "slash \<notin> set rest"
    and "k \<in> sure_groups r \<or> group_of m k \<noteq> None"
  shows "slash \<notin> set (grp m k)"
proof -
  obtain x where x: "group_of m k = Some x" using assms sure_group_of by blast
  then have "set x \<subseteq> set rest"
    using group_of_sublist [OF assms(1)] set_mono_sublist match_text_chars [OF assms(1)] by fast
  with assms(2) x show ?thesis by (auto simp: grp_def)
qed

definition clean_rule :: "rx \<times> (rx_match \<Rightarrow> string) \<Rightarrow> bool" where
  "clean_rule rule \<longleftrightarrow>
     (\<forall>read rest m. rx_match_at (fst rule) read rest = Some m \<longrightarrow> slash \<notin> set rest \<longrightarrow> slash \<notin> set (snd rule m))"

lemma clean_ruleI:
  assumes "\<And>m. \<forall>k \<in> sure_groups r. slash \<notin> set (grp m k) \<Longrightarrow> slash \<notin> set (f m)"
  shows "clean_rule (r, f)"
  using assms grp_clean unfolding clean_rule_def by (metis fst_conv snd_conv)

lemma first_read_clean:
  "list_all clean_rule rules \<Longrightarrow> first_read rules norm = Some x \<Longrightarrow> slash \<notin> set norm \<Longrightarrow> slash \<notin> set x"
proof (induction rules)
  case (Cons rule rules)
  obtain r f where rule: "rule = (r, f)" by fastforce
  show ?case
  proof (cases "rx_search r norm")
    case None
    with Cons rule show ?thesis by simp
  next
    case (Some m)
    then obtain read rest where "rx_match_at r read rest = Some m" "set rest \<subseteq> set norm"
      using rx_search_at by blast
    with Some Cons.prems rule show ?thesis by (auto simp: clean_rule_def)
  qed
qed simp

lemma clean_brands:
  "list_all clean_rule fc2_rules" "list_all clean_rule heydouga_rules" "list_all clean_rule getchu_rules"
  "list_all clean_rule gyutto_rules" "list_all clean_rule luxu_rules"
  by (auto simp: fc2_rules_def heydouga_rules_def getchu_rules_def gyutto_rules_def luxu_rules_def intro!: clean_ruleI)

text \<open>Two rules read one of two groups, whichever took part.\<close>

lemma clean_either:
  assumes "clean_rule (a, f)" and "clean_rule (b, f)"
  shows "clean_rule (Alt a b, f)"
  using assms match_at_Alt unfolding clean_rule_def by fastforce

lemma clean_group_there:
  assumes "i \<in> sure_groups r" and "clean_rule (r, f)"
  shows "clean_rule (r, \<lambda>m. if group_of m i \<noteq> None then f m else g m)"
  using assms sure_group_of unfolding clean_rule_def by fastforce

lemma clean_group_absent:
  assumes "i \<notin> may_groups r" and "clean_rule (r, g)"
  shows "clean_rule (r, \<lambda>m. if group_of m i \<noteq> None then f m else g m)"
  using assms may_group_of unfolding clean_rule_def by fastforce

lemma may_groups_lit: "may_groups (liti s) = {}" "may_groups (lit s) = {}"
proof -
  have "may_groups (seq (map (\<lambda>c. Class (P c)) s)) = {}" for P
    by (induction s rule: induct_list012) auto
  then show "may_groups (liti s) = {}" "may_groups (lit s) = {}" by (simp_all add: liti_def lit_def)
qed

lemmas group_simps = may_groups_lit digits_between_def digits_def letters_def capitals_def many_def opt_def
  digit_def dash_def one_of_def plus_def

lemma clean_dashed: "i \<in> sure_groups r \<Longrightarrow> j \<in> sure_groups r \<Longrightarrow> clean_rule (r, dashed i j)"
  by (rule clean_ruleI) (auto simp: dashed_def)

lemma clean_plain: "list_all clean_rule plain_rules"
proof -
  have mugen: "clean_rule (Alt a b, \<lambda>m. if group_of m 1 \<noteq> None then dashed 1 2 m else dashed 3 4 m)"
    if "1 \<in> sure_groups a" "2 \<in> sure_groups a" "3 \<in> sure_groups b" "4 \<in> sure_groups b" "1 \<notin> may_groups b" for a b
    using that by (intro clean_either clean_group_there clean_group_absent clean_dashed)
  show ?thesis
    unfolding plain_rules_def list.pred_inject
    by (intro conjI TrueI mugen) (auto intro!: clean_ruleI simp: group_simps dashed_def)
qed

lemma clean_odd: "list_all clean_rule odd_rules"
proof -
  have t_series: "clean_rule (Alt a b, \<lambda>m. if group_of m 1 \<noteq> None then replace_char (CHR ''_'') (CHR ''-'') (grp m 1) else grp m 2)"
    if "1 \<in> sure_groups a" "2 \<in> sure_groups b" "1 \<notin> may_groups b" for a b
    using that by (intro clean_either clean_group_there clean_group_absent clean_ruleI) (auto simp: replace_char_def)
  show ?thesis
    unfolding odd_rules_def list.pred_inject
    by (intro conjI TrueI t_series) (auto intro!: clean_ruleI simp: group_simps)
qed


lemma strip_subset: "set (strip s) \<subseteq> set s"
  unfolding strip_def by (metis set_dropWhileD set_rev subsetI)

lemma sub_nothing_chars: "set (rx_sub r (\<lambda>_. []) s) \<subseteq> set s"
  using rx_sub_chars [of r "\<lambda>_. []" "{}" s] by simp

lemma strip_suffixes_chars: "set (strip_suffixes s) \<subseteq> set s"
proof (induction s rule: strip_suffixes.induct)
  case (1 s)
  then show ?case
    using sub_nothing_chars [of SUFFIX_RE s] by (subst strip_suffixes.simps) (auto simp: Let_def)
qed

lemma strip_release_noise_chars: "set (strip_release_noise s) \<subseteq> set s \<union> {CHR ''-''}"
proof -
  have studio: "set (rx_sub STUDIO_RE (\<lambda>m. case group_of m 1 of Some k \<Rightarrow> k | None \<Rightarrow> []) t) \<subseteq> set t" for t
  proof -
    have "set (case group_of m 1 of Some k \<Rightarrow> k | None \<Rightarrow> []) \<subseteq> set (rm_text m)"
      if "rx_match_at STUDIO_RE read rest = Some m" for read rest m
      using group_of_sublist [OF that, of 1] set_mono_sublist by (cases "group_of m 1") fastforce+
    then show ?thesis using rx_sub_chars [where C = "{}"] by (metis sup_bot_right)
  qed
  have seps: "set (rx_sub REPEATED_SEPARATOR_RE (\<lambda>_. ''-'') t) \<subseteq> set t \<union> {CHR ''-''}" for t
    by (rule rx_sub_chars) auto
  have "set (strip_suffixes (rx_sub STUDIO_RE (\<lambda>m. case group_of m 1 of Some k \<Rightarrow> k | None \<Rightarrow> [])
          (rx_sub TAG_RE (\<lambda>_. []) (rx_sub QUALITY_PREFIX_RE (\<lambda>_. []) s)))) \<subseteq> set s"
    by (intro subset_trans [OF strip_suffixes_chars] subset_trans [OF studio]
          subset_trans [OF sub_nothing_chars] sub_nothing_chars)
  then show ?thesis unfolding strip_release_noise_def Let_def
    using strip_subset seps by (meson order_trans sup.mono order_refl)
qed

lemma path_name_chars: "set (path_name p) \<subseteq> set p" if "slash \<notin> set p"
  using split_slash_no_slash [OF that, of "[]"] by (auto simp: path_name_def path_names_def)

lemma strip_extension_chars: "set (strip_extension s) \<subseteq> set s"
  by (auto simp: strip_extension_def Let_def dest: in_set_takeD)

lemma upper_char_slash: "upper_char c = slash \<Longrightarrow> c = slash"
proof (cases "is_lower_char c")
  case True
  assume "upper_char c = slash"
  then have "code_of (upper_char c) = 47" by (simp add: code_of_def)
  with True have "(of_char c - 32) mod 256 = (47 :: nat)" "97 \<le> (of_char c :: nat)" "of_char c \<le> (122 :: nat)"
    by (simp_all add: upper_char_def is_lower_char_def code_of_def)
  then show ?thesis by (simp add: mod_less)
qed (simp add: upper_char_def)

lemma upper_clean: "slash \<notin> set s \<Longrightarrow> slash \<notin> set (upper s)"
  using upper_char_slash by (fastforce simp: upper_def)

lemma close_open_chars: "set (close_open_to_dash s) \<subseteq> set s \<union> {CHR ''-''}"
  by (induction s rule: close_open_to_dash.induct) auto

lemma domain_variants_chars: "domain_variants norm = (a, b) \<Longrightarrow> set a \<subseteq> set norm \<and> set b \<subseteq> set norm"
  using sub_nothing_chars [of DOMAIN_RE norm]
  by (fastforce simp: domain_variants_def Let_def split: option.splits if_splits)

lemma normalize_number_clean: "slash \<notin> set s \<Longrightarrow> slash \<notin> set (normalize_number s)"
proof -
  assume clean: "slash \<notin> set s"
  have "slash \<notin> set (brand @ ''-'' @ pad3 n)"
    if "list_all (\<lambda>c. is_upper_char c \<or> is_digit_char c) brand" for brand n
    using that pad3_digits(1) [of n]
    by (auto simp: list_all_iff is_upper_char_def is_digit_char_def code_of_def)
  with clean normalize_number_cases [of s] show ?thesis by metis
qed

text \<open>A reading that has no slash, from one that has none.\<close>

definition clean :: "string option \<Rightarrow> bool" where
  "clean r \<longleftrightarrow> (\<forall>x. r = Some x \<longrightarrow> slash \<notin> set x)"

lemma clean_keep_or: "clean a \<Longrightarrow> clean b \<Longrightarrow> clean (keep_or a b)"
  by (auto simp: clean_def keep_or_def split: option.splits if_splits)

lemma clean_id_tail:
  assumes again: "\<And>t. clean (again t)" and norm: "slash \<notin> set norm"
  shows "clean (id_tail again path norm)"
proof -
  have odd: "slash \<notin> set (match_odd_numbering norm)"
    using first_read_clean [OF clean_odd _ norm] by (auto simp: match_odd_numbering_def split: option.splits)
  have "clean (Some [])" by (simp add: clean_def)
  then have "clean (keep_or (if contains '')('' norm then again (close_open_to_dash norm) else Some [])
        (if path_name (path_parent path) \<noteq> [] then again (path_name (path_parent path)) else Some []))"
    using again by (intro clean_keep_or) auto
  with odd show ?thesis by (simp add: id_tail_def Let_def clean_def)
qed

lemma clean_named:
  assumes "list_all clean_rule rules" and "\<And>t. clean (again t)" and "slash \<notin> set t"
  shows "clean (case first_read rules t of Some i \<Rightarrow> Some i | None \<Rightarrow> id_tail again path t)"
  using first_read_clean [OF assms(1) _ assms(3)] clean_id_tail [OF assms(2,3)]
  by (auto simp: clean_def split: option.splits)

lemma clean_id_of:
  assumes again: "\<And>t. clean (again t)" and ignore: "\<And>t. set (ignore t) \<subseteq> set t" and flat: "slash \<notin> set path"
  shows "clean (id_of again ignore path)"
proof -
  define norm where "norm = upper (ignore (strip_release_noise (strip_extension (path_name path))))"
  have "set (ignore (strip_release_noise (strip_extension (path_name path)))) \<subseteq> set path \<union> {CHR ''-''}"
    using ignore strip_release_noise_chars [of "strip_extension (path_name path)"]
      strip_extension_chars [of "path_name path"] path_name_chars [OF flat] by blast
  then have norm: "slash \<notin> set norm" unfolding norm_def using flat by (intro upper_clean) auto
  obtain a b where ab: "domain_variants norm = (a, b)" by fastforce
  then have b: "slash \<notin> set b" using domain_variants_chars norm by blast
  show ?thesis
    unfolding id_of_def norm_def [symmetric] Let_def ab case_prod_conv
    using clean_named [OF _ again norm] clean_named [OF clean_plain again b] again clean_brands clean_plain
    by (simp add: clean_keep_or)
qed

lemma contains_chars: "contains p s \<Longrightarrow> set p \<subseteq> set s"
proof (induction s)
  case (Cons c s)
  then show ?case by (auto simp: starts_with_def) (metis in_set_takeD set_ConsD)
qed simp

lemma avid_within_clean:
  assumes "\<And>t. set (avc_ignore cfg t) \<subseteq> set t"
  shows "clean (avid_within cfg n title)"
proof (induction n arbitrary: title)
  case (Suc n)
  let ?t = "filter (\<lambda>c. c \<noteq> slash) title"
  have "slash \<notin> set (upper ?t)" by (rule upper_clean) simp
  then have exception: "slash \<notin> set e" if "contains e (upper ?t)" for e
    using contains_chars [OF that] by blast
  have "clean (id_of (avid_within cfg n) (avc_ignore cfg) ?t)"
    using assms by (intro clean_id_of Suc.IH) auto
  then show ?case
    using exception normalize_number_clean upper_clean
    by (auto simp: clean_def Let_def find_Some_iff split: option.splits)
qed (simp add: clean_def)



definition demo_parser :: avid_config where
  "demo_parser = \<lparr>avc_exceptions = [], avc_ignore = filter (\<lambda>c. c \<noteq> CHR ''#'')\<rparr>"


end
