(* ===== verification/Archive_Names.thy ===== *)
theory Archive_Names
  imports Avid_Laws
begin

text \<open>
  What \<^verbatim>\<open>monitor/archive.py\<close> reads off the names of the videos of one folder: whether
  they are the parts of one video, which are cuts of the same video, which is the phone-sized
  rip that comes with a release, and whether two ids differ by a padding zero only.
  A path is the list of its names below the root; the archive's directories are absolute.
\<close>

section \<open>Paths\<close>

type_synonym place = "string list"

definition place_name :: "place \<Rightarrow> string" where
  "place_name p = (if p = [] then [] else last p)"

definition place_stem :: "place \<Rightarrow> string" where
  "place_stem p = path_stem (place_name p)"

definition place_suffix :: "place \<Rightarrow> string" where
  "place_suffix p = path_suffix (place_name p)"

text \<open>\<^verbatim>\<open>base / s\<close>: an absolute text replaces the base.\<close>

definition join_place :: "place \<Rightarrow> string \<Rightarrow> place" where
  "join_place base s = (if is_absolute s then path_names s else base @ path_names s)"

text \<open>Strictly below a directory, and at it or below.\<close>

definition at_or_below :: "place \<Rightarrow> place \<Rightarrow> bool" where
  "at_or_below d p \<longleftrightarrow> take (length d) p = d"

definition below :: "place \<Rightarrow> place \<Rightarrow> bool" where
  "below d p \<longleftrightarrow> at_or_below d p \<and> length d < length p"

text \<open>\<^verbatim>\<open>str(_display(path, base))\<close>.\<close>

definition display :: "place \<Rightarrow> place \<Rightarrow> string" where
  "display p base = (if at_or_below base p then path_str [] (drop (length base) p) else path_str ''/'' p)"

definition has_video_suffix :: "place \<Rightarrow> bool" where
  "has_video_suffix p \<longleftrightarrow> lower (place_suffix p) \<in> VIDEO_SUFFIXES"

section \<open>The parts of one video\<close>

definition MIN_MULTI_PART_VIDEOS :: nat where
  "MIN_MULTI_PART_VIDEOS = 2"

definition all_same :: "'a list \<Rightarrow> bool" where
  "all_same xs \<longleftrightarrow> length (remdups xs) = 1"

definition multi_part_video_check :: "place list \<Rightarrow> bool" where
  "multi_part_video_check videos =
     (if length videos < MIN_MULTI_PART_VIDEOS then False
      else if all_same (map (\<lambda>v. rx_sub (plus digit) (\<lambda>_. []) (place_name v)) videos) then True
      else all_same (map (\<lambda>v. rx_sub (Seq (lit ''-'') (Class is_upper_char)) (\<lambda>_. []) (place_name v)) videos))"

definition is_4k_video :: "place \<Rightarrow> bool" where
  "is_4k_video video \<longleftrightarrow> variant_tags (place_name video) \<inter> HIGH_RESOLUTION_TAGS \<noteq> {}"

definition SEPARATOR_RUN_RE :: rx where
  "SEPARATOR_RUN_RE = Rep 2 None (one_of ''-_. '')"

definition strip_chars :: "string \<Rightarrow> string \<Rightarrow> string" where
  "strip_chars cs s = rev (dropWhile (\<lambda>c. c \<in> set cs) (rev (dropWhile (\<lambda>c. c \<in> set cs) s)))"

definition variant_base :: "string \<Rightarrow> string" where
  "variant_base name =
     lower (strip_chars ''-_. '' (rx_sub SEPARATOR_RUN_RE (\<lambda>_. ''-'') (strip_variant_tags name)))"

definition base_of :: "place \<Rightarrow> string" where
  "base_of video = variant_base (place_name video)"

definition TRAILING_INDEX_RE :: rx where
  "TRAILING_INDEX_RE =
     seq [At_Start, Group 1 (Lazy 1 None (Class any_char)), one_of ''-_ '', Group 2 (digits_between 1 2), At_End]"

definition TRAILING_LETTER_RE :: rx where
  "TRAILING_LETTER_RE =
     seq [At_Start, Group 1 (plus (Class any_char)), Group 2 (Class is_lower_char), At_End]"

definition PHONE_RIP_RE :: rx where
  "PHONE_RIP_RE = seq [At_Start, Group 1 (plus (Class any_char)), one_of ''-_'', lit ''5'', At_End]"

text \<open>The base and the index, and the base and the letter, of a name.\<close>

definition trailing_index :: "place \<Rightarrow> (string \<times> nat) option" where
  "trailing_index video =
     map_option (\<lambda>m. (grp m 1, number_of_digits (grp m 2))) (rx_match_start TRAILING_INDEX_RE (base_of video))"

definition trailing_letter :: "place \<Rightarrow> (string \<times> string) option" where
  "trailing_letter video =
     map_option (\<lambda>m. (grp m 1, grp m 2)) (rx_match_start TRAILING_LETTER_RE (base_of video))"

definition indexed_run :: "place list \<Rightarrow> place list option" where
  "indexed_run videos =
     (if list_ex (\<lambda>v. trailing_index v = None) videos then None
      else if \<not> all_same (map (\<lambda>v. fst (the (trailing_index v))) videos) then None
      else
        (let index = (\<lambda>v. snd (the (trailing_index v)));
             ordered = sort_key index videos
         in if map index ordered \<noteq> [1 ..< Suc (length videos)] then None else Some ordered))"

text \<open>The index of a video among the siblings of a leading one.\<close>

definition sibling_index :: "place \<Rightarrow> place \<Rightarrow> nat option" where
  "sibling_index lead video =
     map_option (\<lambda>m. number_of_digits (grp m 1))
       (rx_match_start (seq [lit (base_of lead), one_of ''-_ '', Group 1 (digits_between 1 2), At_End]) (base_of video))"

definition led_by :: "place list \<Rightarrow> place \<Rightarrow> place list option" where
  "led_by videos lead =
     (let others = filter (\<lambda>v. v \<noteq> lead) videos
      in if list_ex (\<lambda>v. sibling_index lead v = None) others then None
         else
           (let index = (\<lambda>v. the (sibling_index lead v));
                ordered = sort_key index others
            in if map index ordered = [2 ..< Suc (length videos)] then Some (lead # ordered) else None))"

fun first_some :: "('a \<Rightarrow> 'b option) \<Rightarrow> 'a list \<Rightarrow> 'b option" where
  "first_some f [] = None"
| "first_some f (x # xs) = (case f x of Some y \<Rightarrow> Some y | None \<Rightarrow> first_some f xs)"

definition unindexed_first :: "place list \<Rightarrow> place list option" where
  "unindexed_first videos = first_some (led_by videos) videos"

definition letter_run :: "place list \<Rightarrow> place list option" where
  "letter_run videos =
     (if list_ex (\<lambda>v. trailing_letter v = None) videos then None
      else if \<not> all_same (map (\<lambda>v. fst (the (trailing_letter v))) videos) then None
      else
        (let letter = (\<lambda>v. snd (the (trailing_letter v)));
             ordered = sort_key letter videos
         in if map letter ordered \<noteq> map (\<lambda>k. [char_of (97 + k)]) [0 ..< length videos] then None
            else Some ordered))"

definition order_as_parts :: "place list \<Rightarrow> place list option" where
  "order_as_parts videos =
     (case indexed_run videos of
        Some vs \<Rightarrow> Some vs
      | None \<Rightarrow>
          (case unindexed_first videos of
             Some vs \<Rightarrow> Some vs
           | None \<Rightarrow> letter_run videos))"

section \<open>Copies, cuts and rips\<close>

definition COPY_SUFFIX_RE :: rx where
  "COPY_SUFFIX_RE = seq [many (Class is_space), lit ''('', plus digit, lit '')'', At_End]"

definition normalize_copy_suffix :: "string \<Rightarrow> string" where
  "normalize_copy_suffix stem = rx_sub COPY_SUFFIX_RE (\<lambda>_. []) stem"

definition SINGLE_ZERO_PADDED_AVID_RE :: rx where
  "SINGLE_ZERO_PADDED_AVID_RE =
     seq [At_Start, Group 1 (capitals 2 (Some 10)), lit ''-0'', Group 2 (digits 4 (Some 4)), At_End]"

definition pads :: "string \<Rightarrow> string \<Rightarrow> bool" where
  "pads padded unpadded \<longleftrightarrow>
     (case rx_full SINGLE_ZERO_PADDED_AVID_RE padded of
        None \<Rightarrow> False
      | Some m \<Rightarrow> unpadded = grp m 1 @ ''-'' @ grp m 2)"

definition avids_are_padding_equivalent :: "string \<Rightarrow> string \<Rightarrow> bool" where
  "avids_are_padding_equivalent first second \<longleftrightarrow> first = second \<or> pads first second \<or> pads second first"

text \<open>\<^verbatim>\<open>avid_of\<close>; every title is read, see \<open>every_title_is_read\<close> of Avid.\<close>

definition avid_of :: "avid_config \<Rightarrow> string \<Rightarrow> string" where
  "avid_of parser name = (case get_avid parser name of Some a \<Rightarrow> a | None \<Rightarrow> [])"

text \<open>Whether a name is that of a phone rip of an id.\<close>

definition names_phone_rip :: "avid_config \<Rightarrow> string \<Rightarrow> place \<Rightarrow> bool" where
  "names_phone_rip parser avid rip \<longleftrightarrow>
     (case rx_match_start PHONE_RIP_RE (base_of rip) of
        None \<Rightarrow> False
      | Some m \<Rightarrow> avids_are_padding_equivalent (avid_of parser (grp m 1)) avid)"

section \<open>Orders rearrange\<close>

lemma first_some_Some: "first_some f xs = Some y \<Longrightarrow> \<exists>x \<in> set xs. f x = Some y"
  by (induction xs) (auto split: option.splits)

text \<open>The same videos, each once if it was there once.\<close>

definition rearranges :: "'a list \<Rightarrow> 'a list \<Rightarrow> bool" where
  "rearranges vs videos \<longleftrightarrow> set vs = set videos \<and> (distinct videos \<longrightarrow> distinct vs)"

lemma rearranges_sort_key: "rearranges (sort_key f videos) videos"
  by (simp add: rearranges_def)

lemma rearranges_led: "lead \<in> set videos \<Longrightarrow> rearranges (lead # sort_key f (filter (\<lambda>v. v \<noteq> lead) videos)) videos"
  by (auto simp: rearranges_def)

lemma indexed_run_rearranges: "indexed_run videos = Some vs \<Longrightarrow> rearranges vs videos"
  unfolding indexed_run_def Let_def
  by (simp only: split: if_splits) (simp_all only: option.distinct option.inject, metis rearranges_sort_key)

lemma letter_run_rearranges: "letter_run videos = Some vs \<Longrightarrow> rearranges vs videos"
  unfolding letter_run_def Let_def
  by (simp only: split: if_splits) (simp_all only: option.distinct option.inject, metis rearranges_sort_key)

lemma led_by_rearranges: "led_by videos lead = Some vs \<Longrightarrow> lead \<in> set videos \<Longrightarrow> rearranges vs videos"
  unfolding led_by_def Let_def
  by (simp only: split: if_splits) (simp_all only: option.distinct option.inject, metis rearranges_led)

lemma order_as_parts_rearranges: "order_as_parts videos = Some vs \<Longrightarrow> rearranges vs videos"
  unfolding order_as_parts_def unindexed_first_def
  by (auto dest: indexed_run_rearranges letter_run_rearranges led_by_rearranges first_some_Some split: option.splits)

lemma at_or_below_prefix: "at_or_below d p \<longleftrightarrow> (\<exists>q. p = d @ q)"
  by (auto simp: at_or_below_def) (metis append_take_drop_id)

lemma at_or_below_append [simp]: "at_or_below d (d @ q)"
  by (simp add: at_or_below_def)

lemma at_or_below_trans: "at_or_below c d \<Longrightarrow> at_or_below d p \<Longrightarrow> at_or_below c p"
  by (auto simp: at_or_below_prefix)

lemma at_or_below_comparable: "at_or_below c p \<Longrightarrow> at_or_below d p \<Longrightarrow> at_or_below c d \<or> at_or_below d c"
  by (auto simp: at_or_below_prefix append_eq_append_conv2)

lemma below_at_or_below: "below d p \<Longrightarrow> at_or_below d p"
  by (simp add: below_def)

end
