(* ===== verification/Archive.thy ===== *)
theory Archive
  imports Archive_Names Effects
begin

text \<open>
  \<^verbatim>\<open>ArchivePipeline\<close> of \<^verbatim>\<open>monitor/archive.py\<close> on a mount that can refuse any
  single call: choosing the videos of a downloaded folder, naming them after their id, moving
  them into the library, promoting a copy into a priority route, and discarding the folder.
  The mount is a tree of directories and files that only this process changes; a call that
  fails may have happened all the same, a failed removal of a tree leaves whatever it left,
  and the listing of a directory that is refused within \<^verbatim>\<open>rglob\<close> is passed over in
  silence, as the library does since Python 3.13. Paths are lists of names, and a name is never
resolved: there are no symbolic links, and a parent directory \<^verbatim>\<open>..\<close> is refused by the
validation of the configuration. Log lines are not modelled.
\<close>

section \<open>The mount\<close>

text \<open>A file has an identity that a move keeps, and a size.\<close>

datatype node = Folder | Plain nat int

type_synonym nodes = "(place \<times> node) list"

datatype answer = Works | Refuses | Works_then_raises

record mount_behaviour =
  mb_answer :: "nat \<Rightarrow> answer"
  mb_hidden :: "nat \<Rightarrow> place \<Rightarrow> bool"
  mb_left :: "nat \<Rightarrow> place \<Rightarrow> bool"
  mb_stop :: "nat \<Rightarrow> bool"
  mb_text :: "failure \<Rightarrow> string"

record archive_world =
  aw_nodes :: nodes
  aw_tick :: nat
  aw_stats :: "string \<Rightarrow> int"

type_synonym 'a arc = "(archive_world, failure, 'a) prog"

abbreviation os_error :: failure where
  "os_error \<equiv> ServiceError TransportError"

definition node_at :: "nodes \<Rightarrow> place \<Rightarrow> node option" where
  "node_at ns p = (if p = [] then Some Folder else map_of ns p)"

definition put_node :: "place \<Rightarrow> node \<Rightarrow> nodes \<Rightarrow> nodes" where
  "put_node p n ns = (p, n) # filter (\<lambda>e. fst e \<noteq> p) ns"

definition take_away :: "(place \<Rightarrow> bool) \<Rightarrow> nodes \<Rightarrow> nodes" where
  "take_away gone ns = filter (\<lambda>e. \<not> gone (fst e)) ns"

text \<open>A question, which answers truly or raises.\<close>

definition probe :: "mount_behaviour \<Rightarrow> (nodes \<Rightarrow> 'a) \<Rightarrow> 'a arc" where
  "probe bh f w =
     (if mb_answer bh (aw_tick w) = Works then Value (f (aw_nodes w)) else Raised os_error,
      w\<lparr>aw_tick := Suc (aw_tick w)\<rparr>)"

text \<open>A change, where None is what the file system itself refuses.\<close>

definition change :: "mount_behaviour \<Rightarrow> (nodes \<Rightarrow> nodes option) \<Rightarrow> unit arc" where
  "change bh f w =
     (let w' = w\<lparr>aw_tick := Suc (aw_tick w)\<rparr>
      in case f (aw_nodes w) of
           None \<Rightarrow> (Raised os_error, w')
         | Some ns \<Rightarrow>
             (case mb_answer bh (aw_tick w) of
                Works \<Rightarrow> (Value (), w'\<lparr>aw_nodes := ns\<rparr>)
              | Refuses \<Rightarrow> (Raised os_error, w')
              | Works_then_raises \<Rightarrow> (Raised os_error, w'\<lparr>aw_nodes := ns\<rparr>)))"

definition is_dir :: "mount_behaviour \<Rightarrow> place \<Rightarrow> bool arc" where
  "is_dir bh p = probe bh (\<lambda>ns. node_at ns p = Some Folder)"

definition is_file :: "mount_behaviour \<Rightarrow> place \<Rightarrow> bool arc" where
  "is_file bh p = probe bh (\<lambda>ns. case node_at ns p of Some (Plain _ _) \<Rightarrow> True | _ \<Rightarrow> False)"

definition path_exists :: "mount_behaviour \<Rightarrow> place \<Rightarrow> bool arc" where
  "path_exists bh p = probe bh (\<lambda>ns. node_at ns p \<noteq> None)"

definition size_of :: "nodes \<Rightarrow> place \<Rightarrow> int option" where
  "size_of ns p = (case node_at ns p of Some (Plain _ s) \<Rightarrow> Some s | Some Folder \<Rightarrow> Some 0 | None \<Rightarrow> None)"

definition stat_size :: "mount_behaviour \<Rightarrow> place \<Rightarrow> int arc" where
  "stat_size bh p =
     bind_io (probe bh (\<lambda>ns. size_of ns p)) (\<lambda>s. case s of Some n \<Rightarrow> ret n | None \<Rightarrow> raise_io os_error)"

text \<open>\<^verbatim>\<open>iterdir\<close>, sorted as every caller sorts it.\<close>

definition children :: "nodes \<Rightarrow> place \<Rightarrow> place list" where
  "children ns d = sort (remdups (filter (\<lambda>p. p \<noteq> [] \<and> butlast p = d) (map fst ns)))"

definition iterdir :: "mount_behaviour \<Rightarrow> place \<Rightarrow> place list arc" where
  "iterdir bh d =
     bind_io (probe bh (\<lambda>ns. if node_at ns d = Some Folder then Some (children ns d) else None))
       (\<lambda>cs. case cs of Some ps \<Rightarrow> ret ps | None \<Rightarrow> raise_io os_error)"

text \<open>\<^verbatim>\<open>sorted(folder.rglob('*'))\<close>: what is below, but for what a directory whose listing was refused hides.\<close>

definition hidden_by :: "(place \<Rightarrow> bool) \<Rightarrow> place \<Rightarrow> place \<Rightarrow> bool" where
  "hidden_by hides folder p \<longleftrightarrow> list_ex (\<lambda>k. hides (take k p)) [length folder ..< length p]"

definition descendants :: "(place \<Rightarrow> bool) \<Rightarrow> nodes \<Rightarrow> place \<Rightarrow> place list" where
  "descendants hides ns folder =
     sort (remdups (filter (\<lambda>p. below folder p \<and> \<not> hidden_by hides folder p) (map fst ns)))"

definition rglob :: "mount_behaviour \<Rightarrow> place \<Rightarrow> place list arc" where
  "rglob bh folder w =
     (Value (descendants (mb_hidden bh (aw_tick w)) (aw_nodes w) folder), w\<lparr>aw_tick := Suc (aw_tick w)\<rparr>)"

definition unlinked :: "place \<Rightarrow> nodes \<Rightarrow> nodes option" where
  "unlinked p ns = (case node_at ns p of Some (Plain _ _) \<Rightarrow> Some (take_away (\<lambda>q. q = p) ns) | _ \<Rightarrow> None)"

definition unlink :: "mount_behaviour \<Rightarrow> place \<Rightarrow> unit arc" where
  "unlink bh p = change bh (unlinked p)"

text \<open>\<^verbatim>\<open>rename\<close> of a file, which replaces a file at its target.\<close>

definition renamed :: "place \<Rightarrow> place \<Rightarrow> nodes \<Rightarrow> nodes option" where
  "renamed p q ns =
     (case node_at ns p of
        Some (Plain i s) \<Rightarrow>
          (if node_at ns (butlast q) = Some Folder \<and> node_at ns q \<noteq> Some Folder
           then Some (put_node q (Plain i s) (take_away (\<lambda>r. r = p) ns)) else None)
      | _ \<Rightarrow> None)"

definition rename_file :: "mount_behaviour \<Rightarrow> place \<Rightarrow> place \<Rightarrow> unit arc" where
  "rename_file bh p q = change bh (renamed p q)"

text \<open>\<^verbatim>\<open>mkdir(parents=True, exist_ok=True)\<close>.\<close>

definition made :: "place \<Rightarrow> nodes \<Rightarrow> nodes option" where
  "made d ns =
     (let chain = map (\<lambda>k. take k d) [1 ..< Suc (length d)]
      in if list_ex (\<lambda>q. node_at ns q \<noteq> None \<and> node_at ns q \<noteq> Some Folder) chain then None
         else Some (map (\<lambda>q. (q, Folder)) (filter (\<lambda>q. node_at ns q = None) chain) @ ns))"

definition make_dirs :: "mount_behaviour \<Rightarrow> place \<Rightarrow> unit arc" where
  "make_dirs bh d = change bh (made d)"

text \<open>\<^verbatim>\<open>shutil.rmtree\<close>.\<close>

definition rmtree :: "mount_behaviour \<Rightarrow> place \<Rightarrow> unit arc" where
  "rmtree bh d w =
     (let w' = w\<lparr>aw_tick := Suc (aw_tick w)\<rparr>
      in if node_at (aw_nodes w) d \<noteq> Some Folder then (Raised os_error, w')
         else if mb_answer bh (aw_tick w) = Works
              then (Value (), w'\<lparr>aw_nodes := take_away (at_or_below d) (aw_nodes w)\<rparr>)
              else (Raised os_error,
                    w'\<lparr>aw_nodes := take_away (\<lambda>p. at_or_below d p \<and> \<not> mb_left bh (aw_tick w) p) (aw_nodes w)\<rparr>))"

text \<open>The counters and the token of the run (\<^verbatim>\<open>RunContext\<close>).\<close>

definition count :: "string \<Rightarrow> int \<Rightarrow> unit arc" where
  "count counter amount w =
     (Value (), w\<lparr>aw_stats := (aw_stats w)(counter := aw_stats w counter + amount)\<rparr>)"

definition stop_check :: "mount_behaviour \<Rightarrow> unit arc" where
  "stop_check bh w =
     (if mb_stop bh (aw_tick w) then Raised RunCancelled else Value (), w\<lparr>aw_tick := Suc (aw_tick w)\<rparr>)"

text \<open>\<^verbatim>\<open>_isolate\<close>: a failure is counted and contained, the operator's stop is not.\<close>

definition isolate :: "'a arc \<Rightarrow> (failure \<Rightarrow> 'a arc) \<Rightarrow> 'a arc" where
  "isolate m h =
     catch_io m (\<lambda>e. if e = RunCancelled then raise_io e else bind_io (count ''items_failed'' 1) (\<lambda>_. h e))"

primrec map_io :: "('a \<Rightarrow> ('w, 'e, 'b) prog) \<Rightarrow> 'a list \<Rightarrow> ('w, 'e, 'b list) prog" where
  "map_io f [] = ret []"
| "map_io f (x # xs) = bind_io (f x) (\<lambda>y. bind_io (map_io f xs) (\<lambda>ys. ret (y # ys)))"

primrec filter_io :: "('a \<Rightarrow> ('w, 'e, bool) prog) \<Rightarrow> 'a list \<Rightarrow> ('w, 'e, 'a list) prog" where
  "filter_io f [] = ret []"
| "filter_io f (x # xs) = bind_io (f x) (\<lambda>b. bind_io (filter_io f xs) (\<lambda>ys. ret (if b then x # ys else ys)))"

text \<open>\<^verbatim>\<open>is_video\<close> of \<^verbatim>\<open>core/media.py\<close>.\<close>

definition is_video :: "mount_behaviour \<Rightarrow> place \<Rightarrow> bool arc" where
  "is_video bh p = bind_io (is_file bh p) (\<lambda>f. ret (f \<and> has_video_suffix p))"

section \<open>Destinations\<close>

record archive_config = archive_routes +
  ag_dst_dir :: string
  ag_min_size_mb :: int
  ag_brand_mapping :: "(string \<times> string list) list"
  ag_parser :: avid_config

definition src_place :: "archive_config \<Rightarrow> place" where
  "src_place cfg = path_names (rt_src_dir cfg)"

definition dst_place :: "archive_config \<Rightarrow> place" where
  "dst_place cfg = path_names (ag_dst_dir cfg)"

definition route_root :: "archive_config \<Rightarrow> string \<Rightarrow> place" where
  "route_root cfg source = join_place (src_place cfg) source"

definition route_roots :: "archive_config \<Rightarrow> place list" where
  "route_roots cfg = map (\<lambda>e. route_root cfg (fst e)) (rt_priority_mapping cfg @ rt_mapping cfg)"

definition covers_other_route :: "archive_config \<Rightarrow> place \<Rightarrow> place \<Rightarrow> bool" where
  "covers_other_route cfg folder root \<longleftrightarrow> list_ex (\<lambda>other. other \<noteq> root \<and> at_or_below folder other) (route_roots cfg)"

definition find_dst_dir :: "archive_config \<Rightarrow> string \<Rightarrow> place \<Rightarrow> place option" where
  "find_dst_dir cfg avid dst_dir =
     (case get_brand avid of
        None \<Rightarrow> None
      | Some brand \<Rightarrow>
          (if brand = [] then None
           else
             (case find (\<lambda>e. brand \<in> set (snd e)) (ag_brand_mapping cfg) of
                Some e \<Rightarrow> Some (join_place (join_place (dst_place cfg) (fst e)) brand)
              | None \<Rightarrow> Some (join_place dst_dir brand))))"

definition brand_routed :: "archive_config \<Rightarrow> string \<Rightarrow> bool" where
  "brand_routed cfg brand \<longleftrightarrow> list_ex (\<lambda>e. brand \<in> set (snd e)) (ag_brand_mapping cfg)"

definition belongs_to :: "string \<Rightarrow> place \<Rightarrow> bool" where
  "belongs_to avid p \<longleftrightarrow> place_stem p = avid \<or> starts_with (avid @ ''-'') (place_stem p)"

definition matching_archived :: "mount_behaviour \<Rightarrow> string \<Rightarrow> place \<Rightarrow> place list arc" where
  "matching_archived bh avid brand_dir =
     bind_io (is_dir bh brand_dir) (\<lambda>d.
       if \<not> d then ret []
       else bind_io (iterdir bh brand_dir) (\<lambda>entries.
              filter_io (\<lambda>f. bind_io (is_video bh f) (\<lambda>v. ret (v \<and> belongs_to avid f))) entries))"

definition normal_dsts :: "archive_config \<Rightarrow> string list" where
  "normal_dsts cfg = dedup (map snd (rt_mapping cfg))"

definition priority_dsts :: "archive_config \<Rightarrow> string list" where
  "priority_dsts cfg = dedup (map snd (rt_priority_mapping cfg))"

definition promote_one :: "mount_behaviour \<Rightarrow> place \<Rightarrow> place \<Rightarrow> unit arc" where
  "promote_one bh target_dir archived =
     (let target = target_dir @ [place_name archived]
      in bind_io (path_exists bh target) (\<lambda>there.
           if there then ret ()
           else bind_io (make_dirs bh target_dir) (\<lambda>_.
                bind_io (rename_file bh archived target) (\<lambda>_.
                  count ''duplicates_promoted'' 1))))"

definition promote_from_normal :: "mount_behaviour \<Rightarrow> archive_config \<Rightarrow> string \<Rightarrow> string \<Rightarrow> place \<Rightarrow> unit arc" where
  "promote_from_normal bh cfg avid brand target_dir =
     each_io (\<lambda>normal_dst.
       let source_dir = join_place (join_place (dst_place cfg) normal_dst) brand
       in if source_dir = target_dir then ret ()
          else bind_io (matching_archived bh avid source_dir) (\<lambda>found. each_io (promote_one bh target_dir) found))
       (normal_dsts cfg)"

primrec held_in :: "mount_behaviour \<Rightarrow> archive_config \<Rightarrow> string \<Rightarrow> string \<Rightarrow> place \<Rightarrow> string list \<Rightarrow> bool arc" where
  "held_in bh cfg avid brand own_dir [] = ret False"
| "held_in bh cfg avid brand own_dir (d # ds) =
     (let holder_dir = join_place (join_place (dst_place cfg) d) brand
      in if holder_dir = own_dir then held_in bh cfg avid brand own_dir ds
         else bind_io (matching_archived bh avid holder_dir) (\<lambda>found.
                if found \<noteq> [] then bind_io (count ''skipped_priority'' 1) (\<lambda>_. ret True)
                else held_in bh cfg avid brand own_dir ds))"

definition held_by_priority :: "mount_behaviour \<Rightarrow> archive_config \<Rightarrow> string \<Rightarrow> string \<Rightarrow> place \<Rightarrow> bool arc" where
  "held_by_priority bh cfg avid brand own_dir = held_in bh cfg avid brand own_dir (priority_dsts cfg)"

text \<open>\<^verbatim>\<open>library_holdings\<close>.\<close>

definition library_holdings :: "mount_behaviour \<Rightarrow> archive_config \<Rightarrow> string \<Rightarrow> string option \<Rightarrow> string list arc" where
  "library_holdings bh cfg avid task_dir =
     (case get_brand avid of
        None \<Rightarrow> ret []
      | Some brand \<Rightarrow>
          (if brand = [] then ret []
           else
             bind_io
               (case Option.bind task_dir (route_for_task_dir (archive_routes.truncate cfg)) of
                  Some (dst, True) \<Rightarrow>
                    (if brand_routed cfg brand then ret ()
                     else case find_dst_dir cfg avid (join_place (dst_place cfg) dst) of
                            Some target_dir \<Rightarrow> promote_from_normal bh cfg avid brand target_dir
                          | None \<Rightarrow> ret ())
                | _ \<Rightarrow> ret ())
               (\<lambda>_. bind_io
                 (map_io (\<lambda>dst.
                    case find_dst_dir cfg avid (join_place (dst_place cfg) dst) of
                      None \<Rightarrow> ret []
                    | Some brand_dir \<Rightarrow> matching_archived bh avid brand_dir)
                    (dedup (map snd (rt_priority_mapping cfg) @ map snd (rt_mapping cfg))))
                 (\<lambda>founds. ret (dedup (map (\<lambda>p. display p (dst_place cfg)) (concat founds)))))))"

text \<open>\<^verbatim>\<open>replaced_copies\<close>: only what is still one of the id's videos inside the library.\<close>

primrec replaced_copies_from ::
  "mount_behaviour \<Rightarrow> archive_config \<Rightarrow> string \<Rightarrow> place list \<Rightarrow> string list \<Rightarrow> place list arc" where
  "replaced_copies_from bh cfg avid found [] = ret found"
| "replaced_copies_from bh cfg avid found (relative # rest) =
     (if is_absolute relative \<or> ''..'' \<in> set (path_names relative) then replaced_copies_from bh cfg avid found rest
      else
        (let path = join_place (dst_place cfg) relative
         in if path \<in> set found then replaced_copies_from bh cfg avid found rest
            else bind_io (matching_archived bh avid (butlast path)) (\<lambda>there.
                   replaced_copies_from bh cfg avid (if path \<in> set there then found @ [path] else found) rest)))"

definition replaced_copies :: "mount_behaviour \<Rightarrow> archive_config \<Rightarrow> string \<Rightarrow> string list \<Rightarrow> place list arc" where
  "replaced_copies bh cfg avid library_paths = replaced_copies_from bh cfg avid [] library_paths"

end
