(* ===== verification/Archive_Pipeline.thy ===== *)
theory Archive_Pipeline
  imports Archive
begin

text \<open>
  \<^verbatim>\<open>archive_folder\<close> of \<^verbatim>\<open>monitor/archive.py\<close> and the scan of the routes:
  which files of a folder are its video (\<open>select_videos\<close>), under what names they go into the
  library (\<open>move_into_library\<close>), when the folder is discarded (\<open>file_selection\<close>), and the walk
  over the configured routes (\<open>archive_run\<close>).
\<close>

section \<open>Selection\<close>

text \<open>The videos of one folder worth archiving, in cd order (\<^verbatim>\<open>_VideoSet\<close>).\<close>

type_synonym selection = "string \<times> place list"

definition needs_attention :: "string \<Rightarrow> string \<Rightarrow> archive_result" where
  "needs_attention avid reason = \<lparr>ar_outcome = ONeedsAttention, ar_avid = avid, ar_paths = [], ar_reason = reason\<rparr>"

definition archive_failed :: "string \<Rightarrow> string \<Rightarrow> archive_result" where
  "archive_failed avid reason = \<lparr>ar_outcome = OFailed, ar_avid = avid, ar_paths = [], ar_reason = reason\<rparr>"

type_synonym copy_key = "string \<times> string \<times> int"

definition copy_key_of :: "place \<Rightarrow> int \<Rightarrow> copy_key" where
  "copy_key_of video bytes = (normalize_copy_suffix (place_stem video), lower (place_suffix video), bytes)"

definition is_base :: "place \<times> copy_key \<Rightarrow> bool" where
  "is_base e \<longleftrightarrow> place_stem (fst e) = fst (snd e)"

text \<open>The copies by key, in the order met, of the keys that have an original.\<close>

definition copies_to_drop :: "(place \<times> copy_key) list \<Rightarrow> place list" where
  "copies_to_drop keyed =
     (let bases = map snd (filter is_base keyed);
          groups = fold (\<lambda>e gs. add_to_group (snd e) (fst e) gs) (filter (\<lambda>e. \<not> is_base e) keyed) []
      in concat (map snd (filter (\<lambda>g. fst g \<in> set bases) groups)))"

definition drop_copy :: "mount_behaviour \<Rightarrow> place \<Rightarrow> unit arc" where
  "drop_copy bh copy =
     catch_io (bind_io (unlink bh copy) (\<lambda>_. count ''duplicate_copies_deleted'' 1)) (\<lambda>_. ret ())"

definition drop_duplicate_copies :: "mount_behaviour \<Rightarrow> place list \<Rightarrow> place list arc" where
  "drop_duplicate_copies bh videos =
     bind_io (map_io (\<lambda>v. bind_io (stat_size bh v) (\<lambda>s. ret (v, copy_key_of v s))) videos) (\<lambda>keyed.
       let dropped = copies_to_drop keyed
       in bind_io (each_io (drop_copy bh) dropped) (\<lambda>_.
            ret (filter (\<lambda>v. v \<notin> set dropped) videos)))"

text \<open>\<^verbatim>\<open>_identify_avid\<close>; sorted and joined for the reason.\<close>

definition comma_list :: "string list \<Rightarrow> string" where
  "comma_list xs = join_with '', '' (sort xs)"

definition identify_avid :: "archive_config \<Rightarrow> place \<Rightarrow> place list \<Rightarrow> string \<Rightarrow> archive_result + string" where
  "identify_avid cfg folder videos expected =
     (let avids = remdups (map (\<lambda>v. avid_of (ag_parser cfg) (place_name v)) videos);
          settle = (\<lambda>avid.
            let avid = (if avid = [] then avid_of (ag_parser cfg) (place_name folder) else avid)
            in if avid = [] then Inl (needs_attention [] ''no avid could be read'')
               else if expected \<noteq> [] \<and> avid \<noteq> expected
               then (if avids_are_padding_equivalent expected avid then Inr expected
                     else Inl (needs_attention avid (''expected '' @ expected @ '' but found '' @ avid)))
               else Inr avid)
      in if 1 < length avids
         then (if expected \<noteq> [] \<and> list_all (avids_are_padding_equivalent expected) avids then settle expected
               else Inl (needs_attention [] (''multiple avids in one folder: '' @ comma_list avids)))
         else settle (hd avids))"

text \<open>\<^verbatim>\<open>_collapse_resolution_variants\<close>.\<close>

definition best_cut :: "place list \<Rightarrow> place option" where
  "best_cut videos =
     (if length videos = 1 then Some (hd videos)
      else
        (let high_resolution = filter is_4k_video videos
         in if length high_resolution \<noteq> 1 then None else Some (hd high_resolution)))"

definition cuts_of :: "place list \<Rightarrow> place list list" where
  "cuts_of videos = map snd (fold (\<lambda>v gs. add_to_group (base_of v) v gs) videos [])"

definition collapse_resolution_variants :: "place list \<Rightarrow> place list option" where
  "collapse_resolution_variants videos =
     (let kept = map best_cut (cuts_of videos)
      in if None \<in> set kept then None else Some (sort_key place_name (map the kept)))"

text \<open>\<^verbatim>\<open>_drop_phone_rips\<close>: the largest video, the first of several, if all the others are rips of it.\<close>

fun largest :: "(place \<times> int) list \<Rightarrow> (place \<times> int) option" where
  "largest [] = None"
| "largest (e # es) =
     (case largest es of
        None \<Rightarrow> Some e
      | Some m \<Rightarrow> if snd e < snd m then Some m else Some e)"

primrec all_rips :: "mount_behaviour \<Rightarrow> archive_config \<Rightarrow> string \<Rightarrow> int \<Rightarrow> place list \<Rightarrow> bool arc" where
  "all_rips bh cfg avid dominant_size [] = ret True"
| "all_rips bh cfg avid dominant_size (rip # rips) =
     (if \<not> names_phone_rip (ag_parser cfg) avid rip then ret False
      else bind_io (stat_size bh rip) (\<lambda>s.
             if dominant_size < 2 * s then ret False else all_rips bh cfg avid dominant_size rips))"

definition drop_phone_rips :: "mount_behaviour \<Rightarrow> archive_config \<Rightarrow> place list \<Rightarrow> string \<Rightarrow> place list option arc" where
  "drop_phone_rips bh cfg videos avid =
     bind_io (map_io (\<lambda>v. bind_io (stat_size bh v) (\<lambda>s. ret (v, s))) videos) (\<lambda>sized.
       let dominant = fst (the (largest sized))
       in bind_io (stat_size bh dominant) (\<lambda>dominant_size.
          bind_io (all_rips bh cfg avid dominant_size (filter (\<lambda>v. v \<noteq> dominant) videos)) (\<lambda>all.
            ret (if all then Some [dominant] else None))))"

definition arrange_videos :: "mount_behaviour \<Rightarrow> archive_config \<Rightarrow> place list \<Rightarrow> string \<Rightarrow> place list option arc" where
  "arrange_videos bh cfg videos avid =
     (if multi_part_video_check videos then ret (Some (sort_key place_name videos))
      else
        (case collapse_resolution_variants videos of
           None \<Rightarrow> ret None
         | Some collapsed \<Rightarrow>
             (if length collapsed = 1 then ret (Some collapsed)
              else
                (case order_as_parts collapsed of
                   Some ordered \<Rightarrow> ret (Some ordered)
                 | None \<Rightarrow> drop_phone_rips bh cfg collapsed avid))))"

definition min_size_bytes :: "archive_config \<Rightarrow> int" where
  "min_size_bytes cfg = ag_min_size_mb cfg * 1024 * 1024"

definition worth_keeping :: "mount_behaviour \<Rightarrow> archive_config \<Rightarrow> place \<Rightarrow> bool arc" where
  "worth_keeping bh cfg candidate =
     bind_io (is_video bh candidate) (\<lambda>v.
       if v then bind_io (stat_size bh candidate) (\<lambda>s. ret (min_size_bytes cfg < s)) else ret False)"

text \<open>\<^verbatim>\<open>_select_videos\<close>: its last step, from the videos that are no copies; then from the large ones.\<close>

definition settle_selection ::
  "mount_behaviour \<Rightarrow> archive_config \<Rightarrow> place \<Rightarrow> string \<Rightarrow> place list \<Rightarrow> (archive_result + selection) arc" where
  "settle_selection bh cfg folder expected videos =
     (case identify_avid cfg folder videos expected of
        Inl result \<Rightarrow> ret (Inl result)
      | Inr avid \<Rightarrow>
          (if 1 < length videos
           then bind_io (arrange_videos bh cfg videos avid) (\<lambda>arranged.
                  case arranged of
                    None \<Rightarrow> ret (Inl (needs_attention avid ''several unrelated videos in one folder''))
                  | Some vs \<Rightarrow> ret (Inr (avid, vs)))
           else ret (Inr (avid, videos))))"

definition select_from ::
  "mount_behaviour \<Rightarrow> archive_config \<Rightarrow> place \<Rightarrow> string \<Rightarrow> place list \<Rightarrow> (archive_result + selection) arc" where
  "select_from bh cfg folder expected videos =
     (if videos = []
      then ret (Inl \<lparr>ar_outcome = OJunk, ar_avid = [], ar_paths = [], ar_reason = ''no video above the size threshold''\<rparr>)
      else bind_io (drop_duplicate_copies bh videos) (settle_selection bh cfg folder expected))"

definition select_videos ::
  "mount_behaviour \<Rightarrow> archive_config \<Rightarrow> place \<Rightarrow> string \<Rightarrow> (archive_result + selection) arc" where
  "select_videos bh cfg folder expected =
     bind_io (is_dir bh folder) (\<lambda>d.
       if \<not> d then ret (Inl (archive_failed [] (path_str ''/'' folder @ '' is not a directory'')))
       else bind_io (rglob bh folder) (\<lambda>candidates.
            bind_io (filter_io (worth_keeping bh cfg) candidates) (select_from bh cfg folder expected)))"

definition inspect_folder ::
  "mount_behaviour \<Rightarrow> archive_config \<Rightarrow> place \<Rightarrow> string \<Rightarrow> (archive_result + selection) arc" where
  "inspect_folder bh cfg folder expected =
     isolate (select_videos bh cfg folder expected) (\<lambda>e. ret (Inl (archive_failed [] (mb_text bh e))))"

section \<open>Moving\<close>

text \<open>The places in the library, in cd order.\<close>

definition part_name :: "string \<Rightarrow> bool \<Rightarrow> nat \<Rightarrow> place \<Rightarrow> string" where
  "part_name avid multi_part index video =
     avid @ (if multi_part then ''-cd'' @ digits_of (index + 1) else []) @ place_suffix video"

definition targets_of :: "string \<Rightarrow> place \<Rightarrow> place list \<Rightarrow> (place \<times> place) list" where
  "targets_of avid brand_dir videos =
     map (\<lambda>(index, video). (video, join_place brand_dir (part_name avid (1 < length videos) index video)))
       (enumerate 0 videos)"

text \<open>Whether none of the targets exists; the first that does ends the question.\<close>

primrec all_free :: "mount_behaviour \<Rightarrow> (place \<times> place) list \<Rightarrow> bool arc" where
  "all_free bh [] = ret True"
| "all_free bh (t # ts) = bind_io (path_exists bh (snd t)) (\<lambda>there. if there then ret False else all_free bh ts)"

definition guarded :: "mount_behaviour \<Rightarrow> archive_config \<Rightarrow> string \<Rightarrow> place \<Rightarrow> bool \<Rightarrow> bool arc" where
  "guarded bh cfg avid brand_dir priority =
     (case get_brand avid of
        None \<Rightarrow> ret False
      | Some brand \<Rightarrow>
          (if brand = [] \<or> brand_routed cfg brand then ret False
           else if priority then bind_io (promote_from_normal bh cfg avid brand brand_dir) (\<lambda>_. ret False)
           else held_by_priority bh cfg avid brand brand_dir))"

definition move_into_library ::
  "mount_behaviour \<Rightarrow> archive_config \<Rightarrow> selection \<Rightarrow> string \<Rightarrow> bool \<Rightarrow> string list arc" where
  "move_into_library bh cfg sel dst_subdir priority =
     (case sel of
        (avid, videos) \<Rightarrow>
          (case find_dst_dir cfg avid (join_place (dst_place cfg) dst_subdir) of
             None \<Rightarrow> ret []
           | Some brand_dir \<Rightarrow>
               bind_io (guarded bh cfg avid brand_dir priority) (\<lambda>held.
                 if held then ret []
                 else
                   (let targets = targets_of avid brand_dir videos
                    in bind_io (all_free bh targets) (\<lambda>free.
                         if \<not> free then ret []
                         else
                           bind_io (make_dirs bh brand_dir) (\<lambda>_.
                           bind_io (each_io (\<lambda>(video, target). rename_file bh video target) targets) (\<lambda>_.
                             ret (map (\<lambda>(_, target). display target (dst_place cfg)) targets))))))))"

definition discard :: "mount_behaviour \<Rightarrow> place \<Rightarrow> unit arc" where
  "discard bh folder =
     catch_io (bind_io (rmtree bh folder) (\<lambda>_. count ''folders_discarded'' 1)) (\<lambda>_. ret ())"

definition file_selection ::
  "mount_behaviour \<Rightarrow> archive_config \<Rightarrow> place \<Rightarrow> selection \<Rightarrow> string \<Rightarrow> bool \<Rightarrow> archive_result arc" where
  "file_selection bh cfg folder sel dst_subdir priority =
     bind_io
       (isolate (bind_io (move_into_library bh cfg sel dst_subdir priority) (\<lambda>archived. ret (Inr archived)))
          (\<lambda>e. ret (Inl (archive_failed (fst sel) (mb_text bh e)))))
       (\<lambda>r. case r of
          Inl result \<Rightarrow> ret result
        | Inr archived \<Rightarrow>
            (if archived = [] then ret (needs_attention (fst sel) ''destination already holds this avid'')
             else
               bind_io (discard bh folder) (\<lambda>_.
               bind_io (count ''videos_archived'' (int (length archived))) (\<lambda>_.
                 ret \<lparr>ar_outcome = OArchived, ar_avid = fst sel, ar_paths = archived, ar_reason = []\<rparr>))))"

definition archive_folder ::
  "mount_behaviour \<Rightarrow> archive_config \<Rightarrow> place \<Rightarrow> string \<Rightarrow> bool \<Rightarrow> string \<Rightarrow> archive_result arc" where
  "archive_folder bh cfg folder dst_subdir priority expected =
     bind_io (inspect_folder bh cfg folder expected) (\<lambda>selection.
       case selection of
         Inl result \<Rightarrow> ret result
       | Inr sel \<Rightarrow> file_selection bh cfg folder sel dst_subdir priority)"

section \<open>The scan\<close>

text \<open>Videos with no folder of their own: there is nothing to delete.\<close>

definition archive_loose_group ::
  "mount_behaviour \<Rightarrow> archive_config \<Rightarrow> string \<Rightarrow> place list \<Rightarrow> string \<Rightarrow> bool \<Rightarrow> archive_result arc" where
  "archive_loose_group bh cfg avid videos dst_subdir priority =
     bind_io (move_into_library bh cfg (avid, sort_key place_name videos) dst_subdir priority) (\<lambda>archived.
       if archived = [] then ret (needs_attention avid ''destination already holds this avid'')
       else
         bind_io (count ''videos_archived'' (int (length archived))) (\<lambda>_.
           ret \<lparr>ar_outcome = OArchived, ar_avid = avid, ar_paths = archived, ar_reason = []\<rparr>))"

definition loose_groups :: "archive_config \<Rightarrow> place list \<Rightarrow> (string \<times> place list) list" where
  "loose_groups cfg videos =
     fold (\<lambda>(avid, v) gs. add_to_group avid v gs)
       (filter (\<lambda>(avid, v). avid \<noteq> []) (map (\<lambda>v. (avid_of (ag_parser cfg) (place_name v), v)) videos)) []"

definition archive_loose_videos ::
  "mount_behaviour \<Rightarrow> archive_config \<Rightarrow> place list \<Rightarrow> string \<Rightarrow> bool \<Rightarrow> unit arc" where
  "archive_loose_videos bh cfg videos dst_subdir priority =
     each_io (\<lambda>(avid, videos).
       bind_io (stop_check bh) (\<lambda>_.
         isolate (bind_io (archive_loose_group bh cfg avid videos dst_subdir priority) (\<lambda>_. ret ())) (\<lambda>_. ret ())))
       (loose_groups cfg videos)"

definition scan_entry ::
  "mount_behaviour \<Rightarrow> archive_config \<Rightarrow> place \<Rightarrow> string \<Rightarrow> bool \<Rightarrow> place \<Rightarrow> unit arc" where
  "scan_entry bh cfg root dst_subdir priority folder =
     bind_io (stop_check bh) (\<lambda>_.
     bind_io (is_dir bh folder) (\<lambda>d.
       if \<not> d \<or> covers_other_route cfg folder root then ret ()
       else bind_io (archive_folder bh cfg folder dst_subdir priority []) (\<lambda>_. ret ())))"

definition scan_route :: "mount_behaviour \<Rightarrow> archive_config \<Rightarrow> place \<Rightarrow> string \<Rightarrow> bool \<Rightarrow> unit arc" where
  "scan_route bh cfg root dst_subdir priority =
     bind_io (iterdir bh root) (\<lambda>entries.
     bind_io (each_io (scan_entry bh cfg root dst_subdir priority) entries) (\<lambda>_.
     bind_io (filter_io (is_video bh) entries) (\<lambda>loose.
       if loose = [] then ret () else archive_loose_videos bh cfg loose dst_subdir priority)))"

definition scan_configured :: "mount_behaviour \<Rightarrow> archive_config \<Rightarrow> (string \<times> string) \<times> bool \<Rightarrow> unit arc" where
  "scan_configured bh cfg route =
     (case route of
        ((source, dst), priority) \<Rightarrow>
          bind_io (stop_check bh) (\<lambda>_.
          bind_io (is_dir bh (route_root cfg source)) (\<lambda>d.
            if d then scan_route bh cfg (route_root cfg source) dst priority else ret ())))"

text \<open>\<^verbatim>\<open>run\<close>: the priority routes first.\<close>

definition archive_run :: "mount_behaviour \<Rightarrow> archive_config \<Rightarrow> unit arc" where
  "archive_run bh cfg =
     each_io (scan_configured bh cfg)
       (map (\<lambda>e. (e, True)) (rt_priority_mapping cfg) @ map (\<lambda>e. (e, False)) (rt_mapping cfg))"

end
