(* ===== verification/Archive_Laws.thy ===== *)
theory Archive_Laws
  imports Archive_Pipeline
begin

text \<open>
  The library under the archive pipeline: whatever calls the mount refuses and wherever the
  operator stops a scan, no file of the library is overwritten or lost. A relation between
  the nodes before and after carries this over every coroutine of the pipeline: the files of
  a region are still in the region, under the same name.
\<close>

section \<open>Nodes\<close>

lemma map_of_filter_key: "map_of (filter (\<lambda>e. P (fst e)) ns) p = (if P p then map_of ns p else None)"
  by (induction ns) auto

lemma node_at_take_away: "node_at (take_away g ns) p = (if p \<noteq> [] \<and> g p then None else node_at ns p)"
  using map_of_filter_key [of "\<lambda>q. \<not> g q" ns p] by (simp add: node_at_def take_away_def)

lemma node_at_put: "node_at (put_node q n ns) p = (if p = q \<and> p \<noteq> [] then Some n else node_at ns p)"
  using map_of_filter_key [of "\<lambda>e. e \<noteq> q" ns p] by (auto simp: node_at_def put_node_def)

lemma map_of_folders: "map_of (map (\<lambda>q. (q, Folder)) qs @ ns) p = (if p \<in> set qs then Some Folder else map_of ns p)"
  by (induction qs) auto

lemma ancestors_iff: "(\<exists>k. 1 \<le> k \<and> k < Suc (length d) \<and> p = take k d) \<longleftrightarrow> p \<noteq> [] \<and> at_or_below p d"
proof
  assume "p \<noteq> [] \<and> at_or_below p d"
  then obtain q where "p \<noteq> []" "d = p @ q" by (auto simp: at_or_below_prefix)
  then show "\<exists>k. 1 \<le> k \<and> k < Suc (length d) \<and> p = take k d"
    by (intro exI [of _ "length p"]) (cases p, simp_all)
qed (auto simp: at_or_below_def min_def)

lemma node_at_made:
  assumes "made d ns = Some ns'"
  shows "node_at ns' p = (if node_at ns p = None \<and> at_or_below p d then Some Folder else node_at ns p)"
proof -
  define chain where "chain = map (\<lambda>k. take k d) [1 ..< Suc (length d)]"
  define qs where "qs = filter (\<lambda>q. node_at ns q = None) chain"
  have ns': "ns' = map (\<lambda>q. (q, Folder)) qs @ ns"
    using assms by (auto simp: made_def Let_def qs_def chain_def split: if_splits)
  have "p \<in> set chain \<longleftrightarrow> p \<noteq> [] \<and> at_or_below p d"
    unfolding ancestors_iff [symmetric] by (auto simp: chain_def image_iff)
  then have qs: "p \<in> set qs \<longleftrightarrow> node_at ns p = None \<and> p \<noteq> [] \<and> at_or_below p d" by (auto simp: qs_def)
  show ?thesis
  proof (cases "p = []")
    case False
    then have "node_at ns' p = (if p \<in> set qs then Some Folder else node_at ns p)"
      unfolding node_at_def ns' by (simp only: map_of_folders if_False)
    with False qs show ?thesis by simp
  qed (simp add: node_at_def)
qed

section \<open>What a region keeps\<close>

definition keeps_files :: "(place \<Rightarrow> bool) \<Rightarrow> nodes \<Rightarrow> nodes \<Rightarrow> bool" where
  "keeps_files A ns ns' \<longleftrightarrow>
     (\<forall>p i s. A p \<longrightarrow> node_at ns p = Some (Plain i s) \<longrightarrow>
        (\<exists>q. A q \<and> node_at ns' q = Some (Plain i s) \<and> place_name q = place_name p))"

definition keeps_region :: "(place \<Rightarrow> bool) \<Rightarrow> archive_world \<Rightarrow> archive_world \<Rightarrow> bool" where
  "keeps_region A w w' \<longleftrightarrow> keeps_files A (aw_nodes w) (aw_nodes w')"

lemma kept_refl: "keeps_files A ns ns"
  by (auto simp: keeps_files_def)

lemma kept_trans: "keeps_files A ns ns' \<Longrightarrow> keeps_files A ns' ns'' \<Longrightarrow> keeps_files A ns ns''"
  unfolding keeps_files_def by metis

interpretation kr: io_relation "keeps_region A" for A
  by unfold_locales (auto simp: keeps_region_def kept_refl intro: kept_trans)

lemma kr_same: "(\<And>w. aw_nodes (snd (m w)) = aw_nodes w) \<Longrightarrow> kr.keeps A m"
  by (simp add: kr.keeps_def keeps_region_def kept_refl)

lemma change_run:
  "aw_nodes (snd (change bh f w)) = aw_nodes w \<or> f (aw_nodes w) = Some (aw_nodes (snd (change bh f w)))"
  by (auto simp: change_def Let_def split: option.splits answer.splits)

lemma change_value: "change bh f w = (Value (), w') \<Longrightarrow> f (aw_nodes w) = Some (aw_nodes w')"
  by (auto simp: change_def Let_def split: option.splits answer.splits)

lemma kr_change: "(\<And>ns ns'. f ns = Some ns' \<Longrightarrow> keeps_files A ns ns') \<Longrightarrow> kr.keeps A (change bh f)"
  unfolding kr.keeps_def keeps_region_def using change_run kept_refl by metis

lemma kr_probe: "kr.keeps A (probe bh f)"
  by (rule kr_same) (simp add: probe_def)

lemma kr_count: "kr.keeps A (count c n)"
  by (rule kr_same) (simp add: count_def)

lemma kr_stop: "kr.keeps A (stop_check bh)"
  by (rule kr_same) (simp add: stop_check_def)

lemma kr_rglob: "kr.keeps A (rglob bh folder)"
  by (rule kr_same) (simp add: rglob_def)

lemma kept_made: "made d ns = Some ns' \<Longrightarrow> keeps_files A ns ns'"
  by (auto simp: keeps_files_def node_at_made)

lemma kr_make_dirs: "kr.keeps A (make_dirs bh d)"
  unfolding make_dirs_def by (rule kr_change) (rule kept_made)

lemma kr_unlink: "\<not> A p \<Longrightarrow> kr.keeps A (unlink bh p)"
  unfolding unlink_def
  by (rule kr_change) (auto simp: unlinked_def keeps_files_def node_at_take_away split: option.splits node.splits)

lemma kr_rmtree:
  assumes "\<And>p. at_or_below d p \<Longrightarrow> \<not> A p"
  shows "kr.keeps A (rmtree bh d)"
  using assms by (auto simp: kr.keeps_def keeps_region_def rmtree_def Let_def keeps_files_def node_at_take_away)

lemma kr_isolate: "kr.keeps A m \<Longrightarrow> (\<And>e. kr.keeps A (h e)) \<Longrightarrow> kr.keeps A (isolate m h)"
  unfolding isolate_def by (intro kr.keeps_catch kr.keeps_if kr.keeps_bind kr.keeps_raise kr_count)

lemma kr_map: "(\<And>x. kr.keeps A (f x)) \<Longrightarrow> kr.keeps A (map_io f xs)"
  by (induction xs) (simp_all add: kr.keeps_ret kr.keeps_bind)

lemma kr_filter: "(\<And>x. kr.keeps A (f x)) \<Longrightarrow> kr.keeps A (filter_io f xs)"
  by (induction xs) (simp_all add: kr.keeps_ret kr.keeps_bind)

lemmas kr_steps = kr.keeps_flow kr_probe kr_count kr_stop kr_rglob kr_make_dirs kr_isolate kr_map kr_filter

lemma kr_questions:
  "kr.keeps A (is_dir bh p)" "kr.keeps A (is_file bh p)" "kr.keeps A (path_exists bh p)" "kr.keeps A (stat_size bh p)"
  "kr.keeps A (iterdir bh p)" "kr.keeps A (is_video bh p)"
  unfolding is_dir_def is_file_def path_exists_def stat_size_def iterdir_def is_video_def by (intro kr_steps)+

lemma kr_matching: "kr.keeps A (matching_archived bh avid d)"
  unfolding matching_archived_def by (intro kr_steps kr_questions)

text \<open>A move to a free place of the region, out of it or under the same name.\<close>

definition may_move :: "(place \<Rightarrow> bool) \<Rightarrow> place \<Rightarrow> place \<Rightarrow> bool" where
  "may_move A p q \<longleftrightarrow> (A p \<longrightarrow> A q \<and> place_name q = place_name p)"

lemma renamed_Some:
  assumes "renamed p q ns = Some ns'"
  obtains i s where "node_at ns p = Some (Plain i s)" "ns' = put_node q (Plain i s) (take_away (\<lambda>r. r = p) ns)"
  using assms by (auto simp: renamed_def split: option.splits node.splits if_splits)

lemma node_at_renamed:
  assumes "renamed p q ns = Some ns'" and "q \<noteq> []"
  shows "node_at ns' r = (if r = q then node_at ns p else if r = p then None else node_at ns r)"
proof -
  obtain i s where "node_at ns p = Some (Plain i s)"
      "ns' = put_node q (Plain i s) (take_away (\<lambda>r. r = p) ns)"
    using assms(1) by (rule renamed_Some)
  moreover from this have "p \<noteq> []" by (auto simp: node_at_def)
  ultimately show ?thesis using assms(2) by (simp add: node_at_put node_at_take_away)
qed

lemma kept_rename:
  assumes move: "renamed p q ns = Some ns'" and free: "node_at ns q = None" and may: "may_move A p q"
  shows "keeps_files A ns ns'"
  unfolding keeps_files_def
proof (intro allI impI)
  fix r i s assume "A r" "node_at ns r = Some (Plain i s)"
  have "q \<noteq> []" using free by (auto simp: node_at_def)
  note after = node_at_renamed [OF move this]
  show "\<exists>q. A q \<and> node_at ns' q = Some (Plain i s) \<and> place_name q = place_name r"
  proof (cases "r = p")
    case True
    with \<open>A r\<close> may \<open>node_at ns r = _\<close> after [of q] show ?thesis by (auto simp: may_move_def)
  next
    case False
    with \<open>A r\<close> \<open>node_at ns r = _\<close> free after [of r] show ?thesis by fastforce
  qed
qed

lemma kr_rename:
  assumes "node_at (aw_nodes w) q = None" and "may_move A p q"
  shows "keeps_region A w (snd (rename_file bh p q w))"
  using change_run [of bh "renamed p q" w] kept_rename [OF _ assms]
  by (auto simp: keeps_region_def rename_file_def kept_refl)


section \<open>Promotions and moves\<close>

text \<open>What a value of a question says, and that nothing changes by asking.\<close>

lemma probe_value: "probe bh f w = (Value a, w') \<Longrightarrow> a = f (aw_nodes w) \<and> aw_nodes w' = aw_nodes w"
  by (auto simp: probe_def split: if_splits)

lemma path_exists_value:
  "path_exists bh p w = (Value a, w') \<Longrightarrow> a = (node_at (aw_nodes w) p \<noteq> None) \<and> aw_nodes w' = aw_nodes w"
  unfolding path_exists_def by (rule probe_value)

lemma make_dirs_free:
  assumes "make_dirs bh d w = (r, w')" and "\<not> at_or_below p d" and "node_at (aw_nodes w) p = None"
  shows "node_at (aw_nodes w') p = None"
  using change_run [of bh "made d" w] assms by (auto simp: make_dirs_def node_at_made)

lemma kr_promote_one:
  assumes "A archived \<Longrightarrow> A (target_dir @ [place_name archived])"
  shows "kr.keeps A (promote_one bh target_dir archived)"
proof -
  let ?q = "target_dir @ [place_name archived]"
  have may: "may_move A archived ?q" using assms by (simp add: may_move_def place_name_def)
  have "keeps_region A w (snd (promote_one bh target_dir archived w))" for w
    unfolding promote_one_def Let_def
  proof (rule kr.bind_run)
    show "keeps_region A w (snd (path_exists bh ?q w))" by (rule kr.keeps_run [OF kr_questions(3)])
    fix there w' assume there: "path_exists bh ?q w = (Value there, w')"
    show "keeps_region A w' (snd ((if there then ret ()
          else bind_io (make_dirs bh target_dir) (\<lambda>_. bind_io (rename_file bh archived ?q)
                 (\<lambda>_. count ''duplicates_promoted'' 1))) w'))"
    proof (cases there)
      case False
      then have free: "node_at (aw_nodes w') ?q = None" using path_exists_value [OF there] by simp
      have "keeps_region A w' (snd (bind_io (make_dirs bh target_dir) (\<lambda>_. bind_io (rename_file bh archived ?q)
              (\<lambda>_. count ''duplicates_promoted'' 1)) w'))"
      proof (rule kr.bind_run)
        show "keeps_region A w' (snd (make_dirs bh target_dir w'))" by (rule kr.keeps_run [OF kr_make_dirs])
        fix u w'' assume "make_dirs bh target_dir w' = (Value u, w'')"
        from make_dirs_free [OF this _ free] have "node_at (aw_nodes w'') ?q = None" by (simp add: at_or_below_def)
        from kr_rename [OF this may]
        show "keeps_region A w'' (snd (bind_io (rename_file bh archived ?q) (\<lambda>_. count ''duplicates_promoted'' 1) w''))"
          by (rule kr.bind_run) (rule kr.keeps_run [OF kr_count])
      qed
      with False show ?thesis by simp
    qed (simp add: kr.keeps_run [OF kr.keeps_ret])
  qed
  then show ?thesis by (simp add: kr.keeps_def)
qed

lemma kr_promote:
  assumes "\<And>p. A p \<Longrightarrow> A (target_dir @ [place_name p])"
  shows "kr.keeps A (promote_from_normal bh cfg avid brand target_dir)"
  unfolding promote_from_normal_def
  by (intro kr_steps kr_matching kr_promote_one assms) 

lemma kr_held_in: "kr.keeps A (held_in bh cfg avid brand own_dir ds)"
  by (induction ds) (auto intro!: kr_steps kr_matching simp: Let_def)

lemma kr_guarded:
  assumes "\<And>p. A p \<Longrightarrow> A (brand_dir @ [place_name p])"
  shows "kr.keeps A (guarded bh cfg avid brand_dir priority)"
  unfolding guarded_def held_by_priority_def by (intro kr_steps kr_promote kr_held_in assms)

lemma all_free_value:
  "all_free bh ts w = (Value a, w') \<Longrightarrow>
     aw_nodes w' = aw_nodes w \<and> (a \<longrightarrow> (\<forall>t \<in> set ts. node_at (aw_nodes w) (snd t) = None))"
proof (induction ts arbitrary: w)
  case Nil
  then show ?case by (simp add: ret_def)
next
  case (Cons t ts)
  then obtain there w1 where there: "path_exists bh (snd t) w = (Value there, w1)"
      "(if there then ret False else all_free bh ts) w1 = (Value a, w')"
    by (auto simp: bind_io_Value_iff)
  from path_exists_value [OF there(1)] there(2) Cons.IH [of w1] show ?case
    by (cases there) (auto simp: ret_def)
qed

lemma kr_all_free: "kr.keeps A (all_free bh ts)"
  by (induction ts) (auto intro!: kr_steps kr_questions)

lemma rename_others:
  assumes "rename_file bh p q w = (r, w')" and "node_at (aw_nodes w) q = None" and "x \<noteq> p" "x \<noteq> q"
  shows "node_at (aw_nodes w') x = node_at (aw_nodes w) x"
proof -
  have "q \<noteq> []" using assms(2) by (auto simp: node_at_def)
  with assms change_run [of bh "renamed p q" w] show ?thesis
    by (auto simp: rename_file_def node_at_renamed)
qed

text \<open>Moves to free places one after the other.\<close>

definition move_each :: "mount_behaviour \<Rightarrow> (place \<times> place) list \<Rightarrow> unit arc" where
  "move_each bh ts = each_io (\<lambda>(video, target). rename_file bh video target) ts"

lemma kr_move_each:
  assumes "distinct (map snd ts)" and "\<And>v t. (v, t) \<in> set ts \<Longrightarrow> may_move A v t"
    and "\<And>v t. (v, t) \<in> set ts \<Longrightarrow> node_at (aw_nodes w) t = None"
    and "fst ` set ts \<inter> snd ` set ts = {}"
  shows "keeps_region A w (snd (move_each bh ts w))"
  using assms
proof (induction ts arbitrary: w)
  case Nil
  then show ?case by (simp add: move_each_def ret_def keeps_region_def kept_refl)
next
  case (Cons e ts)
  obtain v t where e: "e = (v, t)" by fastforce
  have here: "keeps_region A w (snd (rename_file bh v t w))" using Cons.prems e by (intro kr_rename) auto
  show ?case
    unfolding move_each_def e each_io.simps case_prod_conv
  proof (rule kr.bind_run)
    show "keeps_region A w (snd (rename_file bh v t w))" by (rule here)
    fix u w' assume run: "rename_file bh v t w = (Value u, w')"
    have free: "node_at (aw_nodes w') t' = None" if "(v', t') \<in> set ts" for v' t'
    proof -
      have "node_at (aw_nodes w) t' = None" using that by (intro Cons.prems(3) [of v']) simp
      moreover have "t' \<noteq> t" using that Cons.prems(1) unfolding e by (auto simp: image_iff simp del: not_None_eq)
      moreover have "t' \<noteq> v" using that Cons.prems(4) unfolding e by (auto simp: image_iff simp del: not_None_eq)
      moreover have "node_at (aw_nodes w) t = None" using Cons.prems e by auto
      ultimately show ?thesis using rename_others [OF run] by simp
    qed
    have "keeps_region A w' (snd (move_each bh ts w'))"
    proof (rule Cons.IH)
      show "distinct (map snd ts)" using Cons.prems(1) by simp
      show "may_move A v t" if "(v, t) \<in> set ts" for v t using that by (intro Cons.prems(2)) simp
      show "node_at (aw_nodes w') t = None" if "(v, t) \<in> set ts" for v t using that by (rule free)
      show "fst ` set ts \<inter> snd ` set ts = {}" using Cons.prems(4) by auto
    qed
    then show "keeps_region A w' (snd (each_io (\<lambda>(video, target). rename_file bh video target) ts w'))"
      by (simp only: move_each_def)
  qed
qed


section \<open>Names in the library\<close>

lemma path_name_clean: "slash \<notin> set (path_name p)"
  using path_names_proper [of p] by (auto simp: path_name_def proper_name_def list_all_iff)

lemma last_dot:
  assumes "c \<in> set xs"
  shows "drop (length xs - Suc (length (takeWhile (\<lambda>d. d \<noteq> c) (rev xs)))) xs = c # rev (takeWhile (\<lambda>d. d \<noteq> c) (rev xs))"
proof -
  define front where "front = takeWhile (\<lambda>d. d \<noteq> c) (rev xs)"
  define rear where "rear = dropWhile (\<lambda>d. d \<noteq> c) (rev xs)"
  have "rear \<noteq> []" using assms by (auto simp: rear_def dropWhile_eq_Nil_conv)
  moreover from this have "hd rear = c" unfolding rear_def using hd_dropWhile [of "\<lambda>d. d \<noteq> c" "rev xs"] by simp
  ultimately obtain more where rear: "rear = c # more" by (cases rear) auto
  have "rev xs = front @ rear" by (simp add: front_def rear_def)
  then have "rev xs = front @ c # more" by (simp only: rear)
  then have "xs = rev more @ c # rev front" by (metis append.assoc append_Cons append_Nil rev.simps(2) rev_append rev_rev_ident)
  then show ?thesis unfolding front_def [symmetric] by simp
qed

lemma path_suffix_dot: "path_suffix p = [] \<or> (\<exists>ext. path_suffix p = CHR ''.'' # ext)"
  using last_dot [of "CHR ''.''" "path_name p"] by (auto simp: path_suffix_def Let_def)

lemma place_suffix_clean: "slash \<notin> set (place_suffix v)"
  using path_name_clean [of "place_name v"] by (auto simp: place_suffix_def path_suffix_def Let_def dest: in_set_dropD)

lemma proper_join: "proper_name n \<Longrightarrow> join_place d n = d @ [n]"
proof -
  assume proper: "proper_name n"
  then have "path_root n = []" by (cases n) (auto simp: proper_name_def path_root_def)
  with proper split_slash_no_slash [of n "[]"] show ?thesis
    by (auto simp: join_place_def is_absolute_def path_names_def proper_name_def)
qed

lemma part_name_proper:
  assumes "slash \<notin> set avid" and "CHR ''-'' \<in> set avid"
  shows "proper_name (part_name avid multi i v)"
proof -
  define n where "n = part_name avid multi i v"
  have "CHR ''-'' \<in> set n" using assms(2) by (simp add: n_def part_name_def)
  then have "n \<noteq> []" "n \<noteq> ''.''" by auto
  moreover have "slash \<notin> set (digits_of (i + 1))"
    using digits_of_digits [of "i + 1"] by (auto simp: list_all_iff is_digit_char_def code_of_def)
  then have "slash \<notin> set n" using assms(1) place_suffix_clean [of v] by (simp add: n_def part_name_def)
  ultimately show ?thesis by (simp add: proper_name_def n_def)
qed

lemma digits_then_suffix:
  assumes "digits_of m @ place_suffix v = digits_of n @ place_suffix u"
  shows "m = n"
proof -
  have front: "takeWhile is_digit_char (digits_of k @ place_suffix x) = digits_of k" for k x
  proof -
    have "takeWhile is_digit_char (place_suffix x) = []"
      using path_suffix_dot [of "place_name x"] by (auto simp: place_suffix_def is_digit_char_def code_of_def)
    then show ?thesis using digits_of_digits [of k] by (simp add: list_all_iff)
  qed
  have "digits_of m = digits_of n" using front [of m v] front [of n u] assms by simp
  then show ?thesis using number_of_digits_of by metis
qed

text \<open>The targets of a selection: one place of the brand's directory each.\<close>

lemma targets_of_places:
  assumes "slash \<notin> set avid" and "CHR ''-'' \<in> set avid"
  shows "targets_of avid bd videos =
    map (\<lambda>(i, v). (v, bd @ [part_name avid (1 < length videos) i v])) (enumerate 0 videos)"
  unfolding targets_of_def using proper_join [OF part_name_proper [OF assms]] by simp

lemma map_fst_targets: "map fst (targets_of avid bd videos) = videos"
proof -
  have "map fst (targets_of avid bd videos) = map snd (enumerate 0 videos)"
    unfolding targets_of_def map_map by (rule map_cong) auto
  then show ?thesis by (simp only: map_snd_enumerate)
qed

lemma targets_distinct:
  assumes "slash \<notin> set avid" and "CHR ''-'' \<in> set avid"
  shows "distinct (map snd (targets_of avid bd videos))"
proof -
  let ?f = "\<lambda>(i, v). bd @ [part_name avid (1 < length videos) i v]"
  have "inj_on ?f (set (enumerate 0 videos))"
  proof (rule inj_onI)
    fix e e' assume in_e: "e \<in> set (enumerate 0 videos)" "e' \<in> set (enumerate 0 videos)" and eq: "?f e = ?f e'"
    obtain i v i' v' where e: "e = (i, v)" "e' = (i', v')" by fastforce
    have nth: "i < length videos" "v = videos ! i" "i' < length videos" "v' = videos ! i'"
      using in_e e by (auto simp: in_set_enumerate_eq)
    have "i = i'"
    proof (cases "1 < length videos")
      case True
      have "part_name avid (1 < length videos) i v = part_name avid (1 < length videos) i' v'"
        using eq unfolding e by simp
      then have "digits_of (i + 1) @ place_suffix v = digits_of (i' + 1) @ place_suffix v'"
        unfolding part_name_def using True by (simp only: if_True append.assoc same_append_eq)
      then have "i + 1 = i' + 1" by (rule digits_then_suffix)
      then show ?thesis by simp
    qed (use nth in simp)
    with nth e show "e = e'" by simp
  qed
  then have "distinct (map ?f (enumerate 0 videos))" by (simp add: distinct_map distinct_enumerate)
  moreover have "map snd (targets_of avid bd videos) = map ?f (enumerate 0 videos)"
    unfolding targets_of_places [OF assms] by auto
  ultimately show ?thesis by simp
qed

text \<open>Destinations lie in the library.\<close>

definition relative_config :: "archive_config \<Rightarrow> bool" where
  "relative_config cfg \<longleftrightarrow>
     (\<forall>e \<in> set (rt_mapping cfg) \<union> set (rt_priority_mapping cfg). \<not> is_absolute (fst e) \<and> \<not> is_absolute (snd e))
     \<and> (\<forall>e \<in> set (ag_brand_mapping cfg). \<not> is_absolute (fst e))"

lemma join_relative: "\<not> is_absolute s \<Longrightarrow> at_or_below d (join_place d s)"
  by (simp add: join_place_def)

lemma clean_relative: "slash \<notin> set s \<Longrightarrow> \<not> is_absolute s"
  by (cases s) (auto simp: is_absolute_def path_root_def)

lemma get_brand_clean: "get_brand avid = Some brand \<Longrightarrow> slash \<notin> set avid \<Longrightarrow> slash \<notin> set brand"
  by (auto simp: get_brand_def Let_def dest!: in_set_takeD set_takeWhileD split: if_splits)

lemma get_brand_dash: "get_brand avid = Some brand \<Longrightarrow> CHR ''-'' \<in> set avid"
  by (simp add: get_brand_def split: if_splits)

lemma find_dst_dir_in:
  assumes found: "find_dst_dir cfg avid (join_place (dst_place cfg) dst) = Some bd"
    and "relative_config cfg" and "\<not> is_absolute dst" and "slash \<notin> set avid"
  shows "at_or_below (dst_place cfg) bd \<and> CHR ''-'' \<in> set avid"
proof -
  obtain brand where brand: "get_brand avid = Some brand" "brand \<noteq> []"
    using found by (auto simp: find_dst_dir_def split: option.splits if_splits)
  have rel: "\<not> is_absolute brand" by (rule clean_relative [OF get_brand_clean [OF brand(1) assms(4)]])
  have at: "at_or_below (dst_place cfg) (join_place (join_place (dst_place cfg) s) brand)" if "\<not> is_absolute s" for s
    using at_or_below_trans [OF join_relative [OF that] join_relative [OF rel]] .
  have "\<not> is_absolute (fst e)" if "find (\<lambda>e. brand \<in> set (snd e)) (ag_brand_mapping cfg) = Some e" for e
    using found_in [OF that] assms(2) by (auto simp: relative_config_def)
  then have "at_or_below (dst_place cfg) bd"
    using found brand at assms(3) by (auto simp: find_dst_dir_def split: option.splits)
  with get_brand_dash [OF brand(1)] show ?thesis by simp
qed

lemma kr_move_into_library:
  assumes lib: "\<And>p. at_or_below (dst_place cfg) p \<Longrightarrow> A p" and out: "\<And>v. v \<in> set videos \<Longrightarrow> \<not> A v"
    and cfg: "relative_config cfg" "\<not> is_absolute dst" and avid: "slash \<notin> set avid"
  shows "kr.keeps A (move_into_library bh cfg (avid, videos) dst priority)"
proof (cases "find_dst_dir cfg avid (join_place (dst_place cfg) dst)")
  case None
  then show ?thesis by (simp add: move_into_library_def kr.keeps_ret)
next
  case (Some bd)
  let ?ts = "targets_of avid bd videos"
  note bd = find_dst_dir_in [OF Some cfg avid]
  have below_bd: "A (bd @ q)" for q using bd lib by (auto simp: at_or_below_prefix)
  have targets: "A t" if "(v, t) \<in> set ?ts" for v t
    using that below_bd unfolding targets_of_places [OF avid conjunct2 [OF bd]] by auto
  have sources: "v \<in> set videos" if "(v, t) \<in> set ?ts" for v t
    using imageI [OF that, of fst] map_fst_targets [of avid bd videos] by (simp flip: set_map)
  let ?move = "bind_io (make_dirs bh bd) (\<lambda>_. bind_io (move_each bh ?ts)
      (\<lambda>_. ret (map (\<lambda>(_, target). display target (dst_place cfg)) ?ts)))"
  have move: "keeps_region A w (snd (?move w))"
    if free: "\<And>t. t \<in> set ?ts \<Longrightarrow> node_at (aw_nodes w) (snd t) = None" for w
  proof (rule kr.bind_run)
    show "keeps_region A w (snd (make_dirs bh bd w))" by (rule kr.keeps_run [OF kr_make_dirs])
    fix u w' assume dirs: "make_dirs bh bd w = (Value u, w')"
    have still: "node_at (aw_nodes w') t = None" if "(v, t) \<in> set ?ts" for v t
    proof (rule make_dirs_free [OF dirs])
      show "\<not> at_or_below t bd"
        using that unfolding targets_of_places [OF avid conjunct2 [OF bd]] by (auto simp: at_or_below_def)
      show "node_at (aw_nodes w) t = None" using free [OF that] by simp
    qed
    have "keeps_region A w' (snd (move_each bh ?ts w'))"
    proof (rule kr_move_each)
      show "distinct (map snd ?ts)" by (rule targets_distinct [OF avid conjunct2 [OF bd]])
      show "may_move A v t" if "(v, t) \<in> set ?ts" for v t using sources [OF that] out by (simp add: may_move_def)
      show "node_at (aw_nodes w') t = None" if "(v, t) \<in> set ?ts" for v t using that by (rule still)
      show "fst ` set ?ts \<inter> snd ` set ?ts = {}" using sources targets out by fastforce
    qed
    then show "keeps_region A w' (snd (bind_io (move_each bh ?ts)
        (\<lambda>_. ret (map (\<lambda>(_, target). display target (dst_place cfg)) ?ts)) w'))"
      by (rule kr.bind_run) (rule kr.keeps_run [OF kr.keeps_ret])
  qed
  have checked: "kr.keeps A (bind_io (all_free bh ?ts) (\<lambda>free. if \<not> free then ret [] else ?move))"
    unfolding kr.keeps_def
  proof
    fix w show "keeps_region A w (snd (bind_io (all_free bh ?ts) (\<lambda>free. if \<not> free then ret [] else ?move) w))"
    proof (rule kr.bind_run)
      show "keeps_region A w (snd (all_free bh ?ts w))" by (rule kr.keeps_run [OF kr_all_free])
      fix free w' assume run: "all_free bh ?ts w = (Value free, w')"
      show "keeps_region A w' (snd ((if \<not> free then ret [] else ?move) w'))"
        using all_free_value [OF run] move [of w'] kr.R_refl by (simp add: ret_def)
    qed
  qed
  show ?thesis
    unfolding move_into_library_def case_prod_conv Some option.case Let_def move_each_def [symmetric]
    by (intro kr.keeps_bind kr.keeps_if kr.keeps_ret kr_guarded checked below_bd)
qed


section \<open>Ids of a folder\<close>

definition only_removes :: "archive_config \<Rightarrow> bool" where
  "only_removes cfg \<longleftrightarrow> (\<forall>t. subseq (avc_ignore (ag_parser cfg) t) t)"

lemma avid_of_clean:
  assumes "only_removes cfg"
  shows "slash \<notin> set (avid_of (ag_parser cfg) name)"
proof -
  have "set (avc_ignore (ag_parser cfg) t) \<subseteq> set t" for t
    using assms unfolding only_removes_def by (auto elim: list_emb_set)
  then show ?thesis
    using avid_within_clean [of "ag_parser cfg" "Suc (length name)" name]
    by (auto simp: avid_of_def get_avid_def clean_def split: option.splits)
qed

lemma pads_clean:
  assumes "pads a b"
  shows "slash \<notin> set a \<and> slash \<notin> set b"
proof -
  obtain m where m: "rx_full SINGLE_ZERO_PADDED_AVID_RE a = Some m" "b = grp m 1 @ ''-'' @ grp m 2"
    using assms by (auto simp: pads_def split: option.splits)
  have "\<not> can_read SINGLE_ZERO_PADDED_AVID_RE slash"
    by (simp add: SINGLE_ZERO_PADDED_AVID_RE_def group_simps lit_def is_upper_char_def is_digit_char_def code_of_def)
  then have a: "slash \<notin> set a" using rx_full_reads [OF m(1)] by blast
  obtain st where st: "st \<in> set (ways SINGLE_ZERO_PADDED_AVID_RE (start_at [] a))" "rm_groups m = rs_groups st"
    using m(1) found_in by (fastforce simp: rx_full_def start_at_def)
  have "slash \<notin> set (grp m k)" if "k \<in> {1, 2}" for k
  proof -
    have "k \<in> sure_groups SINGLE_ZERO_PADDED_AVID_RE"
      using that by (auto simp: SINGLE_ZERO_PADDED_AVID_RE_def)
    then have "k \<in> fst ` set (rm_groups m)" using ways_sure [OF st(1)] st(2) by (auto simp: groups_set_def)
    then obtain x where x: "group_of m k = Some x"
      unfolding group_of_def by (metis map_of_eq_None_iff not_Some_eq)
    then have "(k, x) \<in> set (rs_groups st)" using st(2) by (auto simp: group_of_def dest: map_of_SomeD)
    then have "sublist x (consumed (start_at [] a) st)"
      using ways_groups [OF st(1)] by (auto simp: groups_from_def start_at_def)
    then have "set x \<subseteq> set a"
      using set_mono_sublist by (fastforce simp: consumed_def start_at_def dest: in_set_takeD)
    with a x show ?thesis by (auto simp: grp_def)
  qed
  with a m(2) show ?thesis by auto
qed

lemma equivalent_clean: "avids_are_padding_equivalent a b \<Longrightarrow> slash \<notin> set b \<Longrightarrow> slash \<notin> set a"
  using pads_clean by (auto simp: avids_are_padding_equivalent_def)

text \<open>The id of a folder is one its names read as, or what the caller expected instead of one.\<close>

lemma identify_avid_from:
  assumes "identify_avid cfg folder videos expected = Inr avid" and "videos \<noteq> []"
  shows "\<exists>name. avid = avid_of (ag_parser cfg) name
    \<or> avid = expected \<and> avids_are_padding_equivalent expected (avid_of (ag_parser cfg) name)"
proof -
  define avids where "avids = remdups (map (\<lambda>v. avid_of (ag_parser cfg) (place_name v)) videos)"
  have ne: "avids \<noteq> []" using assms(2) by (simp add: avids_def)
  have read: "\<exists>name. a = avid_of (ag_parser cfg) name" if "a \<in> set avids" for a
    using that by (auto simp: avids_def)
  show ?thesis
  proof (cases "1 < length avids")
    case True
    then have "expected \<noteq> []" "list_all (avids_are_padding_equivalent expected) avids" "avid = expected"
      using assms(1) by (auto simp: identify_avid_def avids_def [symmetric] Let_def split: if_splits)
    then show ?thesis using read [of "hd avids"] ne by (auto simp: list_all_iff) (metis hd_in_set)
  next
    case False
    obtain name where name: "hd avids = avid_of (ag_parser cfg) name" using read [of "hd avids"] ne by auto
    define a where "a = (if hd avids = [] then avid_of (ag_parser cfg) (place_name folder) else hd avids)"
    obtain name' where name': "a = avid_of (ag_parser cfg) name'" using name unfolding a_def by metis
    have "avid = a \<or> avid = expected \<and> avids_are_padding_equivalent expected a"
      using assms(1) False
      unfolding identify_avid_def avids_def [symmetric] Let_def a_def [symmetric] by (auto split: if_splits)
    with name' show ?thesis by blast
  qed
qed

lemma identify_avid_clean:
  assumes "identify_avid cfg folder videos expected = Inr avid" and "videos \<noteq> []" and "only_removes cfg"
  shows "slash \<notin> set avid"
  using identify_avid_from [OF assms(1,2)] avid_of_clean [OF assms(3)] equivalent_clean by metis

end
