(* ===== verification/Archive_Select.thy ===== *)
theory Archive_Select
  imports Archive_Laws
begin

text \<open>
  What the selection of a folder finds: its steps that only ask are functions of the nodes,
  the copies it deletes are copies of a video it keeps, and every large video of the folder is
  represented by one that was selected: itself, the original it copies, the better cut, or
  the video it is a phone rip of.
\<close>

section \<open>Questions as functions\<close>

definition asks :: "'a arc \<Rightarrow> (nodes \<Rightarrow> 'a) \<Rightarrow> bool" where
  "asks m f \<longleftrightarrow>
     (\<forall>w. aw_nodes (snd (m w)) = aw_nodes w \<and> (\<forall>a. fst (m w) = Value a \<longrightarrow> a = f (aw_nodes w)))"

lemma asksD: "asks m f \<Longrightarrow> m w = (r, w') \<Longrightarrow> aw_nodes w' = aw_nodes w \<and> (\<forall>a. r = Value a \<longrightarrow> a = f (aw_nodes w))"
  unfolding asks_def by (metis fst_conv snd_conv)

lemma asks_ret: "asks (ret a) (\<lambda>_. a)"
  by (simp add: asks_def ret_def)

lemma asks_raise: "asks (raise_io e) f"
  by (simp add: asks_def raise_io_def)

lemma asks_bind:
  assumes m: "asks m f" and g: "\<And>a. asks (g a) (h a)"
  shows "asks (bind_io m g) (\<lambda>ns. h (f ns) ns)"
  unfolding asks_def
proof
  fix w
  obtain r w1 where r: "m w = (r, w1)" by fastforce
  note first = asksD [OF m r]
  show "aw_nodes (snd (bind_io m g w)) = aw_nodes w
      \<and> (\<forall>a. fst (bind_io m g w) = Value a \<longrightarrow> a = h (f (aw_nodes w)) (aw_nodes w))"
  proof (cases r)
    case (Value a)
    obtain s w2 where s: "g a w1 = (s, w2)" by fastforce
    from asksD [OF g s] first Value r s show ?thesis by (simp add: bind_io_def)
  qed (use first r in \<open>simp_all add: bind_io_def\<close>)
qed

lemma asks_if: "asks m f \<Longrightarrow> asks k g \<Longrightarrow> asks (if c then m else k) (\<lambda>ns. if c then f ns else g ns)"
  by simp

lemma asks_probe: "asks (probe bh f) f"
  by (simp add: asks_def probe_def)

lemma asks_cong: "asks m f \<Longrightarrow> (\<And>ns. f ns = g ns) \<Longrightarrow> asks m g"
  by (simp add: asks_def)

lemma asks_map:
  assumes "\<And>x. asks (f x) (g x)"
  shows "asks (map_io f xs) (\<lambda>ns. map (\<lambda>x. g x ns) xs)"
proof (induction xs)
  case Nil
  then show ?case by (simp add: asks_ret)
next
  case (Cons x xs)
  have "asks (map_io f (x # xs)) (\<lambda>ns. (\<lambda>y. y # map (\<lambda>x. g x ns) xs) (g x ns))"
    unfolding map_io.simps
    by (intro asks_bind assms asks_cong [OF asks_bind [OF Cons.IH asks_ret]]) simp
  then show ?case by (simp add: asks_cong)
qed

lemma asks_filter:
  assumes "\<And>x. asks (f x) (g x)"
  shows "asks (filter_io f xs) (\<lambda>ns. filter (\<lambda>x. g x ns) xs)"
proof (induction xs)
  case Nil
  then show ?case by (simp add: asks_ret)
next
  case (Cons x xs)
  have "asks (filter_io f (x # xs)) (\<lambda>ns. (\<lambda>b. if b then x # filter (\<lambda>x. g x ns) xs else filter (\<lambda>x. g x ns) xs) (g x ns))"
    unfolding filter_io.simps
    by (intro asks_bind assms asks_cong [OF asks_bind [OF Cons.IH asks_ret]]) simp
  then show ?case by (rule asks_cong) simp
qed

definition bytes_of :: "nodes \<Rightarrow> place \<Rightarrow> int" where
  "bytes_of ns p = the (size_of ns p)"

lemma asks_stat: "asks (stat_size bh p) (\<lambda>ns. bytes_of ns p)"
  unfolding stat_size_def bytes_of_def
  by (rule asks_cong [OF asks_bind [OF asks_probe, where h = "\<lambda>s _. the s"]])
     (auto simp: asks_def ret_def raise_io_def split: option.splits)

definition plain_at :: "nodes \<Rightarrow> place \<Rightarrow> bool" where
  "plain_at ns p \<longleftrightarrow> (\<exists>i s. node_at ns p = Some (Plain i s))"

lemma plain_at_code [code]: "plain_at ns p \<longleftrightarrow> (case node_at ns p of Some (Plain i s) \<Rightarrow> True | _ \<Rightarrow> False)"
  by (auto simp: plain_at_def split: option.splits node.splits)

lemma asks_is_video: "asks (is_video bh p) (\<lambda>ns. plain_at ns p \<and> has_video_suffix p)"
  unfolding is_video_def is_file_def
  by (rule asks_cong [OF asks_bind [OF asks_probe asks_ret]])
     (auto simp: plain_at_def split: option.splits node.splits)

text \<open>A video above the size threshold.\<close>

definition large_video :: "archive_config \<Rightarrow> nodes \<Rightarrow> place \<Rightarrow> bool" where
  "large_video cfg ns p \<longleftrightarrow> plain_at ns p \<and> has_video_suffix p \<and> min_size_bytes cfg < bytes_of ns p"

lemma asks_worth: "asks (worth_keeping bh cfg p) (\<lambda>ns. large_video cfg ns p)"
  unfolding worth_keeping_def
  by (rule asks_cong [OF asks_bind [OF asks_is_video asks_if [OF asks_bind [OF asks_stat asks_ret] asks_ret]]])
     (auto simp: large_video_def)

section \<open>Groups\<close>

lemma add_to_group_map:
  "distinct (map fst gs) \<Longrightarrow>
     distinct (map fst (add_to_group k v gs))
     \<and> map_of (add_to_group k v gs) = (map_of gs)(k \<mapsto> (case map_of gs k of Some vs \<Rightarrow> vs @ [v] | None \<Rightarrow> [v]))
     \<and> fst ` set (add_to_group k v gs) = insert k (fst ` set gs)"
proof (induction gs)
  case (Cons g gs)
  then show ?case by (cases g) (auto simp: fun_eq_iff split: option.splits)
qed simp

text \<open>Grouping by a key: the groups are the elements of each key, in order.\<close>

definition grouped :: "('a \<Rightarrow> 'k) \<Rightarrow> ('a \<Rightarrow> 'v) \<Rightarrow> 'a list \<Rightarrow> ('k \<times> 'v list) list" where
  "grouped key val xs = fold (\<lambda>x gs. add_to_group (key x) (val x) gs) xs []"

lemma grouped_snoc: "grouped key val (xs @ [x]) = add_to_group (key x) (val x) (grouped key val xs)"
  by (simp add: grouped_def)

lemma grouped_spec:
  "distinct (map fst (grouped key val xs))
   \<and> fst ` set (grouped key val xs) = key ` set xs
   \<and> (\<forall>(k, vs) \<in> set (grouped key val xs). vs = map val (filter (\<lambda>x. key x = k) xs))"
proof (induction xs rule: rev_induct)
  case Nil
  then show ?case by (simp add: grouped_def)
next
  case (snoc x xs)
  let ?gs = "grouped key val xs"
  note add = add_to_group_map [of ?gs "key x" "val x"]
  have dist: "distinct (map fst ?gs)" and keys: "fst ` set ?gs = key ` set xs"
    and groups: "\<And>k vs. (k, vs) \<in> set ?gs \<Longrightarrow> vs = map val (filter (\<lambda>x. key x = k) xs)"
    using snoc by auto
  have "vs = map val (filter (\<lambda>y. key y = k) (xs @ [x]))"
    if "(k, vs) \<in> set (add_to_group (key x) (val x) ?gs)" for k vs
  proof -
    have mem: "map_of (add_to_group (key x) (val x) ?gs) k = Some vs"
      using that add dist by (metis map_of_is_SomeI)
    show ?thesis
    proof (cases "k = key x")
      case False
      then have "map_of ?gs k = Some vs" using mem add dist by simp
      then show ?thesis using groups [of k vs] False by (auto dest: map_of_SomeD)
    next
      case True
      show ?thesis
      proof (cases "map_of ?gs k")
        case None
        then have "k \<notin> key ` set xs" using keys by (simp add: map_of_eq_None_iff)
        then have "filter (\<lambda>y. key y = k) xs = []" by (auto simp: filter_empty_conv)
        then show ?thesis using None mem add dist True by simp
      next
        case (Some us)
        then show ?thesis using groups [of k us] mem add dist True by (auto dest: map_of_SomeD)
      qed
    qed
  qed
  then show ?case unfolding grouped_snoc using add dist keys by auto
qed

section \<open>Copies\<close>

definition keyed_videos :: "nodes \<Rightarrow> place list \<Rightarrow> (place \<times> copy_key) list" where
  "keyed_videos ns videos = map (\<lambda>v. (v, copy_key_of v (bytes_of ns v))) videos"

definition dropped_copies :: "nodes \<Rightarrow> place list \<Rightarrow> place list" where
  "dropped_copies ns videos = copies_to_drop (keyed_videos ns videos)"

text \<open>A video that is by its name and size a copy of another.\<close>

definition copy_of :: "nodes \<Rightarrow> place \<Rightarrow> place \<Rightarrow> bool" where
  "copy_of ns v u \<longleftrightarrow>
     normalize_copy_suffix (place_stem v) = place_stem u \<and> place_stem v \<noteq> place_stem u
     \<and> lower (place_suffix v) = lower (place_suffix u) \<and> bytes_of ns v = bytes_of ns u"

lemma set_concat_groups:
  "set (concat (map snd (filter (\<lambda>g. fst g \<in> B) gs))) = {v. \<exists>k vs. (k, vs) \<in> set gs \<and> k \<in> B \<and> v \<in> set vs}"
  by force

lemma copies_to_drop_iff:
  "v \<in> set (copies_to_drop keyed) \<longleftrightarrow>
     (\<exists>k. (v, k) \<in> set keyed \<and> \<not> is_base (v, k) \<and> k \<in> snd ` {e \<in> set keyed. is_base e})"
proof -
  define copies where "copies = filter (\<lambda>e. \<not> is_base e) keyed"
  define gs where "gs = grouped snd fst copies"
  have drop: "set (copies_to_drop keyed) = {v. \<exists>k vs. (k, vs) \<in> set gs \<and> k \<in> snd ` {e \<in> set keyed. is_base e} \<and> v \<in> set vs}"
    unfolding copies_to_drop_def Let_def copies_def [symmetric] grouped_def [of snd fst, symmetric]
      gs_def [symmetric] set_concat_groups set_map set_filter ..
  have spec: "fst ` set gs = snd ` set copies" "\<And>k vs. (k, vs) \<in> set gs \<Longrightarrow> vs = map fst (filter (\<lambda>x. snd x = k) copies)"
    using grouped_spec [of snd fst copies] unfolding gs_def by auto
  have "(\<exists>vs. (k, vs) \<in> set gs \<and> v \<in> set vs) \<longleftrightarrow> (v, k) \<in> set copies" for k
  proof
    assume "(v, k) \<in> set copies"
    then obtain vs where vs: "(k, vs) \<in> set gs" using spec(1) by (metis (no_types, lifting) imageE image_eqI prod.collapse snd_conv)
    moreover have "v \<in> set vs" using spec(2) [OF vs] \<open>(v, k) \<in> set copies\<close> by force
    ultimately show "\<exists>vs. (k, vs) \<in> set gs \<and> v \<in> set vs" by blast
  next
    assume "\<exists>vs. (k, vs) \<in> set gs \<and> v \<in> set vs"
    then obtain vs where "(k, vs) \<in> set gs" "v \<in> set vs" by blast
    then have "v \<in> set (map fst (filter (\<lambda>x. snd x = k) copies))" using spec(2) by metis
    then show "(v, k) \<in> set copies" by force
  qed
  moreover have "(v, k) \<in> set copies \<longleftrightarrow> (v, k) \<in> set keyed \<and> \<not> is_base (v, k)" for k by (simp add: copies_def)
  ultimately show ?thesis unfolding drop by blast
qed

lemma dropped_copies_iff:
  "v \<in> set (dropped_copies ns videos) \<longleftrightarrow> v \<in> set videos \<and> (\<exists>u \<in> set videos. copy_of ns v u
     \<and> normalize_copy_suffix (place_stem u) = place_stem u)"
  unfolding dropped_copies_def copies_to_drop_iff
  by (auto simp: keyed_videos_def is_base_def copy_key_of_def copy_of_def image_iff)

lemma dropped_has_original:
  assumes "v \<in> set (dropped_copies ns videos)"
  shows "\<exists>u. u \<in> set videos \<and> u \<notin> set (dropped_copies ns videos) \<and> copy_of ns v u"
proof -
  obtain u where "u \<in> set videos" "copy_of ns v u" "normalize_copy_suffix (place_stem u) = place_stem u"
    using assms dropped_copies_iff by blast
  moreover from this(3) have "u \<notin> set (dropped_copies ns videos)"
    unfolding dropped_copies_iff copy_of_def by auto
  ultimately show ?thesis by blast
qed

text \<open>What a deletion of some places leaves.\<close>

definition loses :: "place set \<Rightarrow> nodes \<Rightarrow> nodes \<Rightarrow> bool" where
  "loses D ns ns' \<longleftrightarrow> (\<forall>p. node_at ns' p = node_at ns p \<or> p \<in> D \<and> node_at ns' p = None)"

lemma loses_refl: "loses D ns ns"
  by (simp add: loses_def)

lemma loses_trans: "loses D ns ns' \<Longrightarrow> loses D ns' ns'' \<Longrightarrow> loses D ns ns''"
  unfolding loses_def by metis

interpretation lo: io_relation "\<lambda>w w'. loses D (aw_nodes w) (aw_nodes w')" for D
  by unfold_locales (auto simp: loses_refl intro: loses_trans)

lemma loses_unlinked: "unlinked v ns = Some ns' \<Longrightarrow> v \<in> D \<Longrightarrow> loses D ns ns'"
  by (auto simp: unlinked_def loses_def node_at_take_away split: option.splits node.splits if_splits)

lemma lo_drop_copy: "v \<in> D \<Longrightarrow> lo.keeps D (drop_copy bh v)"
proof -
  assume v: "v \<in> D"
  have "lo.keeps D (unlink bh v)"
  proof -
    have "loses D (aw_nodes w) (aw_nodes (snd (unlink bh v w)))" for w
      using change_run [of bh "unlinked v" w] loses_unlinked [OF _ v] loses_refl unfolding unlink_def by metis
    then show ?thesis by (simp add: lo.keeps_def)
  qed
  moreover have "lo.keeps D (count c n)" for c n by (simp add: lo.keeps_def count_def loses_refl)
  ultimately show ?thesis unfolding drop_copy_def by (intro lo.keeps_flow)
qed

lemma drop_copies_value:
  assumes "drop_duplicate_copies bh videos w = (Value vs, w')"
  shows "vs = filter (\<lambda>v. v \<notin> set (dropped_copies (aw_nodes w) videos)) videos
    \<and> loses (set (dropped_copies (aw_nodes w) videos)) (aw_nodes w) (aw_nodes w')"
proof -
  have asks: "asks (map_io (\<lambda>v. bind_io (stat_size bh v) (\<lambda>s. ret (v, copy_key_of v s))) videos)
      (\<lambda>ns. keyed_videos ns videos)"
    unfolding keyed_videos_def by (intro asks_map asks_bind asks_stat asks_ret)
  obtain keyed w1 w2 where k: "map_io (\<lambda>v. bind_io (stat_size bh v) (\<lambda>s. ret (v, copy_key_of v s))) videos w = (Value keyed, w1)"
      and each: "each_io (drop_copy bh) (copies_to_drop keyed) w1 = (Value (), w2)"
      and last: "vs = filter (\<lambda>v. v \<notin> set (copies_to_drop keyed)) videos" "w' = w2"
    using assms by (auto simp: drop_duplicate_copies_def bind_io_Value_iff Let_def ret_def)
  have keyed: "keyed = keyed_videos (aw_nodes w) videos" "aw_nodes w1 = aw_nodes w" using asksD [OF asks k] by auto
  have "lo.keeps (set (copies_to_drop keyed)) (each_io (drop_copy bh) (copies_to_drop keyed))"
    by (intro lo.keeps_each_in lo_drop_copy)
  from lo.keeps_run [OF this, of w1] each have "loses (set (copies_to_drop keyed)) (aw_nodes w1) (aw_nodes w2)" by simp
  with keyed last show ?thesis by (simp add: dropped_copies_def)
qed


section \<open>Cuts and rips\<close>

text \<open>A lower-resolution cut of the same video, and the phone rip of one.\<close>

definition lesser_cut :: "place \<Rightarrow> place \<Rightarrow> bool" where
  "lesser_cut v u \<longleftrightarrow> base_of v = base_of u \<and> is_4k_video u \<and> \<not> is_4k_video v"

definition phone_rip :: "archive_config \<Rightarrow> nodes \<Rightarrow> string \<Rightarrow> place \<Rightarrow> place \<Rightarrow> bool" where
  "phone_rip cfg ns avid v u \<longleftrightarrow> names_phone_rip (ag_parser cfg) avid v \<and> 2 * bytes_of ns v \<le> bytes_of ns u"

definition stands_for :: "archive_config \<Rightarrow> nodes \<Rightarrow> string \<Rightarrow> place \<Rightarrow> place \<Rightarrow> bool" where
  "stands_for cfg ns avid v u \<longleftrightarrow> copy_of ns v u \<or> lesser_cut v u \<or> phone_rip cfg ns avid v u"

lemma best_cut_Some:
  assumes "best_cut vs = Some u" and "v \<in> set vs" and same: "\<And>x. x \<in> set vs \<Longrightarrow> base_of x = b"
  shows "u \<in> set vs \<and> (v = u \<or> lesser_cut v u)"
proof (cases "length vs = 1")
  case True
  with assms(1,2) show ?thesis by (cases vs) (auto simp: best_cut_def)
next
  case False
  then have "length (filter is_4k_video vs) = 1" "u = hd (filter is_4k_video vs)"
    using assms(1) by (auto simp: best_cut_def Let_def split: if_splits)
  then have only: "filter is_4k_video vs = [u]" by (cases "filter is_4k_video vs") auto
  then have iff: "x \<in> set vs \<and> is_4k_video x \<longleftrightarrow> x = u" for x
    using set_filter [of is_4k_video vs] by (metis (mono_tags, lifting) list.set(1) list.simps(15) mem_Collect_eq singleton_iff)
  then have "u \<in> set vs" "is_4k_video u" by blast+
  moreover have "is_4k_video v \<Longrightarrow> v = u" using assms(2) iff by blast
  ultimately show ?thesis using same [of u] same [of v] assms(2) by (auto simp: lesser_cut_def)
qed

lemma cuts_of_groups: "cuts_of videos = map snd (grouped base_of (\<lambda>v. v) videos)"
  by (simp add: cuts_of_def grouped_def)

lemma collapse_stands:
  assumes "collapse_resolution_variants videos = Some kept"
  shows "set kept \<subseteq> set videos" and "distinct kept"
    and "v \<in> set videos \<Longrightarrow> \<exists>u \<in> set kept. v = u \<or> lesser_cut v u"
proof -
  let ?gs = "grouped base_of (\<lambda>v. v) videos"
  have all: "best_cut (snd g) \<noteq> None" if "g \<in> set ?gs" for g
    using assms that by (force simp: collapse_resolution_variants_def cuts_of_groups Let_def split: if_splits)
  have kept: "kept = sort_key place_name (map (\<lambda>g. the (best_cut (snd g))) ?gs)"
    using assms by (auto simp: collapse_resolution_variants_def cuts_of_groups Let_def comp_def split: if_splits)
  have group: "vs = filter (\<lambda>x. base_of x = k) videos" if "(k, vs) \<in> set ?gs" for k vs
    using grouped_spec [of base_of "\<lambda>v. v" videos] that by fastforce
  have keys: "fst ` set ?gs = base_of ` set videos" and dist: "distinct (map fst ?gs)"
    using grouped_spec [of base_of "\<lambda>v. v" videos] by auto
  have winner: "the (best_cut vs) \<in> set videos \<and> base_of (the (best_cut vs)) = k
      \<and> (v \<in> set vs \<longrightarrow> v = the (best_cut vs) \<or> lesser_cut v (the (best_cut vs)))"
    if "(k, vs) \<in> set ?gs" for k vs v
  proof -
    have vs: "vs = filter (\<lambda>x. base_of x = k) videos" by (rule group [OF that])
    from all [OF that] obtain u where u: "best_cut vs = Some u" by auto
    have "k \<in> base_of ` set videos" using keys imageI [OF that, of fst] by simp
    then obtain x where "x \<in> set videos" "base_of x = k" by blast
    then have "x \<in> set vs" by (simp add: vs)
    then have "u \<in> set vs" using best_cut_Some [OF u] vs by fastforce
    then have "the (best_cut vs) \<in> set videos" "base_of (the (best_cut vs)) = k" using u vs by auto
    moreover have "v = u \<or> lesser_cut v u" if "v \<in> set vs" using best_cut_Some [OF u that, of k] vs by simp
    ultimately show ?thesis using u by simp
  qed
  show "set kept \<subseteq> set videos" unfolding kept using winner by fastforce
  have "inj_on (\<lambda>g. the (best_cut (snd g))) (set ?gs)"
  proof (rule inj_onI)
    fix g h assume gh: "g \<in> set ?gs" "h \<in> set ?gs" "the (best_cut (snd g)) = the (best_cut (snd h))"
    then have "fst g = fst h" using winner [of "fst g" "snd g"] winner [of "fst h" "snd h"] by simp
    then show "g = h" using gh dist by (metis eq_key_imp_eq_value prod.collapse)
  qed
  moreover have "distinct ?gs" using dist by (simp add: distinct_map)
  ultimately show "distinct kept" unfolding kept by (simp add: distinct_map)
  show "\<exists>u \<in> set kept. v = u \<or> lesser_cut v u" if v: "v \<in> set videos"
  proof -
    have "base_of v \<in> fst ` set ?gs" using keys v by simp
    then obtain vs where vs: "(base_of v, vs) \<in> set ?gs" by force
    then have "v \<in> set vs" using group [OF vs] v by simp
    with winner [OF vs, of v] vs show ?thesis unfolding kept by force
  qed
qed

lemma largest_in: "es \<noteq> [] \<Longrightarrow> \<exists>e. largest es = Some e \<and> e \<in> set es"
proof (induction es)
  case (Cons e es)
  show ?case
  proof (cases "es = []")
    case False
    then obtain m where "largest es = Some m" "m \<in> set es" using Cons.IH by blast
    then show ?thesis by (cases "snd e < snd m") simp_all
  qed simp
qed simp

text \<open>The arrangement as a function of the nodes.\<close>

definition rips_dropped :: "archive_config \<Rightarrow> nodes \<Rightarrow> string \<Rightarrow> place list \<Rightarrow> place list option" where
  "rips_dropped cfg ns avid videos =
     (let dominant = fst (the (largest (map (\<lambda>v. (v, bytes_of ns v)) videos)))
      in if list_all (\<lambda>v. phone_rip cfg ns avid v dominant) (filter (\<lambda>v. v \<noteq> dominant) videos)
         then Some [dominant] else None)"

definition arranged :: "archive_config \<Rightarrow> nodes \<Rightarrow> string \<Rightarrow> place list \<Rightarrow> place list option" where
  "arranged cfg ns avid videos =
     (if multi_part_video_check videos then Some (sort_key place_name videos)
      else
        (case collapse_resolution_variants videos of
           None \<Rightarrow> None
         | Some collapsed \<Rightarrow>
             (if length collapsed = 1 then Some collapsed
              else
                (case order_as_parts collapsed of
                   Some ordered \<Rightarrow> Some ordered
                 | None \<Rightarrow> rips_dropped cfg ns avid collapsed))))"

lemma asks_all_rips:
  "asks (all_rips bh cfg avid bytes rips)
     (\<lambda>ns. list_all (\<lambda>v. names_phone_rip (ag_parser cfg) avid v \<and> 2 * bytes_of ns v \<le> bytes) rips)"
proof (induction rips)
  case Nil
  then show ?case by (simp add: asks_ret)
next
  case (Cons r rips)
  show ?case
  proof (cases "names_phone_rip (ag_parser cfg) avid r")
    case True
    then show ?thesis
      by (simp add: True)
         (rule asks_cong [OF asks_bind [OF asks_stat asks_if [OF asks_ret Cons.IH]]], simp add: not_le)
  qed (simp add: asks_ret)
qed

lemma asks_drop_rips: "asks (drop_phone_rips bh cfg videos avid) (\<lambda>ns. rips_dropped cfg ns avid videos)"
  unfolding drop_phone_rips_def Let_def
  by (rule asks_cong [OF asks_bind [OF asks_map [OF asks_bind [OF asks_stat asks_ret]]
        asks_bind [OF asks_stat asks_bind [OF asks_all_rips asks_ret]]]])
     (simp add: rips_dropped_def Let_def phone_rip_def)

lemma asks_arrange: "asks (arrange_videos bh cfg videos avid) (\<lambda>ns. arranged cfg ns avid videos)"
  unfolding arrange_videos_def arranged_def
  by (auto simp: asks_ret intro: asks_drop_rips split: option.split)

lemma arranged_stands:
  assumes "arranged cfg ns avid videos = Some vs" and "distinct videos" and "videos \<noteq> []"
  shows "set vs \<subseteq> set videos \<and> distinct vs
    \<and> (\<forall>v \<in> set videos. \<exists>u \<in> set vs. (stands_for cfg ns avid)\<^sup>*\<^sup>* v u)"
proof (cases "multi_part_video_check videos")
  case True
  with assms show ?thesis by (auto simp: arranged_def)
next
  case False
  then obtain kept where kept: "collapse_resolution_variants videos = Some kept"
    using assms(1) by (auto simp: arranged_def split: option.splits)
  note cut = collapse_stands [OF kept]
  have step: "\<exists>u \<in> set kept. (stands_for cfg ns avid)\<^sup>*\<^sup>* v u" if "v \<in> set videos" for v
  proof -
    from cut(3) [OF that] obtain u where u: "u \<in> set kept" "v = u \<or> lesser_cut v u" by blast
    then have "(stands_for cfg ns avid)\<^sup>*\<^sup>* v u" by (auto simp: stands_for_def)
    with u(1) show ?thesis by blast
  qed
  have rest: "set vs \<subseteq> set kept \<and> distinct vs \<and> (\<forall>v \<in> set kept. \<exists>u \<in> set vs. (stands_for cfg ns avid)\<^sup>*\<^sup>* v u)"
  proof -
    have "(if length kept = 1 then Some kept
        else case order_as_parts kept of Some ordered \<Rightarrow> Some ordered | None \<Rightarrow> rips_dropped cfg ns avid kept) = Some vs"
      using assms(1) False kept by (simp add: arranged_def)
    then consider "vs = kept" | "order_as_parts kept = Some vs" | "rips_dropped cfg ns avid kept = Some vs"
      by (cases "length kept = 1"; cases "order_as_parts kept") auto
    then show ?thesis
    proof cases
      case 1
      with cut(2) show ?thesis by auto
    next
      case 2
      from order_as_parts_rearranges [OF 2] cut(2) show ?thesis by (auto simp: rearranges_def)
    next
      case 3
      from step [OF hd_in_set [OF assms(3)]] obtain x where "x \<in> set kept" by blast
      then have "kept \<noteq> []" by auto
      then have "map (\<lambda>v. (v, bytes_of ns v)) kept \<noteq> []" by simp
      from largest_in [OF this] obtain e where "largest (map (\<lambda>v. (v, bytes_of ns v)) kept) = Some e"
          "e \<in> set (map (\<lambda>v. (v, bytes_of ns v)) kept)" by blast
      then have vs: "vs = [fst e]" "fst e \<in> set kept"
          "list_all (\<lambda>v. phone_rip cfg ns avid v (fst e)) (filter (\<lambda>v. v \<noteq> fst e) kept)"
        using 3 by (auto simp: rips_dropped_def Let_def split: if_splits)
      have "(stands_for cfg ns avid)\<^sup>*\<^sup>* v (fst e)" if "v \<in> set kept" for v
        using vs(3) that by (cases "v = fst e") (auto simp: list_all_iff stands_for_def)
      with vs show ?thesis by simp
    qed
  qed
  show ?thesis
  proof (intro conjI ballI)
    show "set vs \<subseteq> set videos" using rest cut(1) by blast
    show "distinct vs" using rest by blast
    fix v assume "v \<in> set videos"
    then obtain x where "x \<in> set kept" "(stands_for cfg ns avid)\<^sup>*\<^sup>* v x" using step by blast
    moreover from this obtain u where "u \<in> set vs" "(stands_for cfg ns avid)\<^sup>*\<^sup>* x u" using rest by blast
    ultimately show "\<exists>u \<in> set vs. (stands_for cfg ns avid)\<^sup>*\<^sup>* v u" by (meson rtranclp_trans)
  qed
qed


section \<open>The selection\<close>

text \<open>The large videos of a folder, as the listing showed them.\<close>

definition large_in :: "archive_config \<Rightarrow> (place \<Rightarrow> bool) \<Rightarrow> nodes \<Rightarrow> place \<Rightarrow> place list" where
  "large_in cfg hides ns folder = filter (large_video cfg ns) (descendants hides ns folder)"

lemma large_in_below: "v \<in> set (large_in cfg hides ns folder) \<Longrightarrow> below folder v \<and> large_video cfg ns v"
  by (simp add: large_in_def descendants_def)

lemma large_in_distinct: "distinct (large_in cfg hides ns folder)"
  by (simp add: large_in_def descendants_def)

lemma large_in_all:
  "below folder v \<Longrightarrow> large_video cfg ns v \<Longrightarrow> \<not> hidden_by hides folder v \<Longrightarrow> v \<in> set (large_in cfg hides ns folder)"
  by (force simp: large_in_def descendants_def large_video_def plain_at_def node_at_def
      split: if_splits dest: map_of_SomeD)

lemma bytes_of_same: "node_at ns' p = node_at ns p \<Longrightarrow> bytes_of ns' p = bytes_of ns p"
  by (simp add: bytes_of_def size_of_def)

text \<open>The arrangement looks at the sizes of its own videos only.\<close>

lemma rips_dropped_same:
  assumes "\<And>v. v \<in> set videos \<Longrightarrow> bytes_of ns' v = bytes_of ns v"
  shows "rips_dropped cfg ns' avid videos = rips_dropped cfg ns avid videos"
proof (cases "videos = []")
  case False
  have sized: "map (\<lambda>v. (v, bytes_of ns' v)) videos = map (\<lambda>v. (v, bytes_of ns v)) videos" using assms by simp
  define dominant where "dominant = fst (the (largest (map (\<lambda>v. (v, bytes_of ns v)) videos)))"
  have "dominant \<in> set videos"
    using largest_in [of "map (\<lambda>v. (v, bytes_of ns v)) videos"] False by (auto simp: dominant_def)
  then have "list_all (\<lambda>v. phone_rip cfg ns' avid v dominant) (filter (\<lambda>v. v \<noteq> dominant) videos)
      = list_all (\<lambda>v. phone_rip cfg ns avid v dominant) (filter (\<lambda>v. v \<noteq> dominant) videos)"
    using assms by (intro list_all_cong refl) (simp add: phone_rip_def)
  then show ?thesis unfolding rips_dropped_def Let_def sized dominant_def [symmetric] by simp
qed (simp add: rips_dropped_def)

lemma arranged_same:
  assumes "\<And>v. v \<in> set videos \<Longrightarrow> bytes_of ns' v = bytes_of ns v"
  shows "arranged cfg ns' avid videos = arranged cfg ns avid videos"
proof (cases "collapse_resolution_variants videos")
  case (Some kept)
  have "rips_dropped cfg ns' avid kept = rips_dropped cfg ns avid kept"
    using assms collapse_stands(1) [OF Some] by (intro rips_dropped_same) blast
  with Some show ?thesis unfolding arranged_def by (simp cong: option.case_cong)
qed (simp add: arranged_def)

text \<open>What a selection guarantees of the nodes before and after it.\<close>

definition selected ::
  "archive_config \<Rightarrow> place list \<Rightarrow> nodes \<Rightarrow> string \<Rightarrow> place list \<Rightarrow> nodes \<Rightarrow> bool" where
  "selected cfg large ns avid vs ns' \<longleftrightarrow>
     set vs \<subseteq> set large \<and> distinct vs \<and> vs \<noteq> []
     \<and> (\<exists>D. D \<subseteq> set large \<and> D \<inter> set vs = {} \<and> loses D ns ns')
     \<and> (\<forall>v \<in> set large. \<exists>u \<in> set vs. (stands_for cfg ns avid)\<^sup>*\<^sup>* v u)"


lemma settle_selection_value:
  assumes run: "settle_selection bh cfg folder expected kept w = (Value (Inr (avid, vs)), w')"
    and kept: "kept \<noteq> []" "distinct kept" and bytes: "\<And>v. v \<in> set kept \<Longrightarrow> bytes_of (aw_nodes w) v = bytes_of ns v"
  shows "identify_avid cfg folder kept expected = Inr avid \<and> aw_nodes w' = aw_nodes w
    \<and> set vs \<subseteq> set kept \<and> distinct vs \<and> vs \<noteq> []
    \<and> (\<forall>v \<in> set kept. \<exists>u \<in> set vs. (stands_for cfg ns avid)\<^sup>*\<^sup>* v u)"
proof -
  obtain found where ident: "identify_avid cfg folder kept expected = Inr found"
    using run by (cases "identify_avid cfg folder kept expected") (auto simp: settle_selection_def ret_def)
  show ?thesis
  proof (cases "1 < length kept")
    case False
    then have "found = avid" "vs = kept" "w' = w" using run ident by (auto simp: settle_selection_def ret_def)
    with ident kept show ?thesis by auto
  next
    case True
    then obtain a w5 where a: "arrange_videos bh cfg kept found w = (Value a, w5)"
        and "a = Some vs" "found = avid" "w' = w5"
      using run ident by (auto simp: settle_selection_def bind_io_Value_iff ret_def split: option.splits)
    moreover have "aw_nodes w5 = aw_nodes w" "a = arranged cfg (aw_nodes w) found kept"
      using asksD [OF asks_arrange a] by auto
    ultimately have arr: "arranged cfg ns avid kept = Some vs" "aw_nodes w' = aw_nodes w" "found = avid"
      using arranged_same [of kept "aw_nodes w" ns] bytes by auto
    note stands = arranged_stands [OF arr(1) kept(2,1)]
    moreover have "vs \<noteq> []" using stands hd_in_set [OF kept(1)] by auto
    ultimately show ?thesis using ident arr by simp
  qed
qed

lemma select_from_value:
  assumes run: "select_from bh cfg folder expected large w = (Value (Inr (avid, vs)), w')" and dist: "distinct large"
  shows "selected cfg large (aw_nodes w) avid vs (aw_nodes w')
    \<and> (\<exists>name. avid = avid_of (ag_parser cfg) name
       \<or> avid = expected \<and> avids_are_padding_equivalent expected (avid_of (ag_parser cfg) name))"
proof -
  let ?ns = "aw_nodes w"
  have "large \<noteq> []" using run by (cases "large = []") (simp_all add: select_from_def ret_def)
  then obtain kept w4 where copies: "drop_duplicate_copies bh large w = (Value kept, w4)"
      and settle: "settle_selection bh cfg folder expected kept w4 = (Value (Inr (avid, vs)), w')"
    using run by (auto simp: select_from_def bind_io_Value_iff)
  define D where "D = set (dropped_copies ?ns large)"
  have kept: "kept = filter (\<lambda>v. v \<notin> D) large" "loses D ?ns (aw_nodes w4)"
    using drop_copies_value [OF copies] by (auto simp: D_def)
  have original: "\<exists>u \<in> set kept. v = u \<or> copy_of ?ns v u" if "v \<in> set large" for v
  proof (cases "v \<in> D")
    case True
    then obtain u where "u \<in> set large" "u \<notin> D" "copy_of ?ns v u"
      using dropped_has_original [of v ?ns large] by (auto simp: D_def)
    then show ?thesis using kept(1) by auto
  qed (use that kept(1) in auto)
  have ne: "kept \<noteq> []" using original [OF hd_in_set [OF \<open>large \<noteq> []\<close>]] by auto
  have D: "D \<subseteq> set large" unfolding D_def using dropped_copies_iff by blast
  have bytes: "bytes_of (aw_nodes w4) v = bytes_of ?ns v" if "v \<in> set kept" for v
    using that kept by (intro bytes_of_same) (auto simp: loses_def)
  have "distinct kept" using kept(1) dist by simp
  note final = settle_selection_value [OF settle ne this bytes]
  have reached: "\<exists>u \<in> set vs. (stands_for cfg ?ns avid)\<^sup>*\<^sup>* v u" if "v \<in> set large" for v
  proof -
    from original [OF that] obtain x where x: "x \<in> set kept" "v = x \<or> copy_of ?ns v x" by blast
    then have "(stands_for cfg ?ns avid)\<^sup>*\<^sup>* v x" by (auto simp: stands_for_def)
    moreover obtain u where "u \<in> set vs" "(stands_for cfg ?ns avid)\<^sup>*\<^sup>* x u" using final x(1) by blast
    ultimately show ?thesis by (meson rtranclp_trans)
  qed
  have "set vs \<subseteq> set large" "D \<inter> set vs = {}" using final kept(1) by auto
  then have "selected cfg large ?ns avid vs (aw_nodes w')"
    using final kept(2) D reached unfolding selected_def by auto
  moreover have "identify_avid cfg folder kept expected = Inr avid" using final by blast
  ultimately show ?thesis using identify_avid_from ne by blast
qed

lemma select_videos_value:
  assumes run: "select_videos bh cfg folder expected w = (Value (Inr (avid, vs)), w')"
  shows "\<exists>n. selected cfg (large_in cfg (mb_hidden bh n) (aw_nodes w) folder) (aw_nodes w) avid vs (aw_nodes w')"
    and "\<exists>name. avid = avid_of (ag_parser cfg) name
       \<or> avid = expected \<and> avids_are_padding_equivalent expected (avid_of (ag_parser cfg) name)"
proof -
  let ?ns = "aw_nodes w"
  obtain d w1 where d: "is_dir bh folder w = (Value d, w1)"
    using run unfolding select_videos_def bind_io_Value_iff by blast
  have ns1: "aw_nodes w1 = ?ns" using probe_value [OF d [unfolded is_dir_def]] by simp
  define n where "n = aw_tick w1"
  obtain videos w2 w3 where videos: "filter_io (worth_keeping bh cfg) (descendants (mb_hidden bh n) ?ns folder) w2 = (Value videos, w3)"
      and ns2: "aw_nodes w2 = ?ns"
      and run3: "select_from bh cfg folder expected videos w3 = (Value (Inr (avid, vs)), w')"
  proof -
    have "d" using run d by (cases d) (auto simp: select_videos_def bind_io_Value_iff ret_def)
    then have "bind_io (rglob bh folder) (\<lambda>candidates.
        bind_io (filter_io (worth_keeping bh cfg) candidates) (select_from bh cfg folder expected)) w1 = (Value (Inr (avid, vs)), w')"
      using run unfolding select_videos_def bind_io_run [where m = "is_dir bh folder" and w = w, OF d] by simp
    moreover define w2 where "w2 = w1\<lparr>aw_tick := Suc (aw_tick w1)\<rparr>"
    moreover have "rglob bh folder w1 = (Value (descendants (mb_hidden bh n) ?ns folder), w2)"
      by (simp add: rglob_def n_def ns1 w2_def)
    ultimately have "bind_io (filter_io (worth_keeping bh cfg) (descendants (mb_hidden bh n) ?ns folder))
        (select_from bh cfg folder expected) w2 = (Value (Inr (avid, vs)), w')"
      by (simp only: bind_io_run)
    moreover have "aw_nodes w2 = ?ns" by (simp add: w2_def ns1)
    ultimately show ?thesis using that unfolding bind_io_Value_iff by blast
  qed
  have large: "videos = large_in cfg (mb_hidden bh n) ?ns folder" "aw_nodes w3 = ?ns"
    using asksD [OF asks_filter [OF asks_worth] videos] ns2 by (auto simp: large_in_def)
  have "distinct videos" using large(1) large_in_distinct by metis
  note found = select_from_value [OF run3 this]
  show "\<exists>n. selected cfg (large_in cfg (mb_hidden bh n) ?ns folder) ?ns avid vs (aw_nodes w')"
    using conjunct1 [OF found] unfolding large by metis
  show "\<exists>name. avid = avid_of (ag_parser cfg) name
       \<or> avid = expected \<and> avids_are_padding_equivalent expected (avid_of (ag_parser cfg) name)"
    using conjunct2 [OF found] .
qed

end
