(* ===== verification/Archive_Safety.thy ===== *)
theory Archive_Safety
  imports Archive_Select
begin

text \<open>
  The two promises of the archive pipeline. A whole scan of the routes keeps every file of
  the library, whatever the mount refuses and wherever the operator stops it; and a folder
  that was archived is accounted for: every large video it held is in the library now, or one
  that stands for it is.
\<close>

section \<open>A scan keeps the library\<close>

lemma kr_asks: "asks m f \<Longrightarrow> kr.keeps A m"
  by (rule kr_same) (metis asksD prod.collapse)

lemma kr_drop_copies:
  assumes "\<And>v. v \<in> set videos \<Longrightarrow> \<not> A v"
  shows "kr.keeps A (drop_duplicate_copies bh videos)"
  unfolding drop_duplicate_copies_def Let_def
proof (rule kr.keeps_bind_yields)
  let ?stats = "map_io (\<lambda>v. bind_io (stat_size bh v) (\<lambda>s. ret (v, copy_key_of v s))) videos"
  have asks: "asks ?stats (\<lambda>ns. keyed_videos ns videos)"
    unfolding keyed_videos_def by (intro asks_map asks_bind asks_stat asks_ret)
  show "kr.keeps A ?stats" by (rule kr_asks [OF asks])
  show "fst ` set keyed \<subseteq> set videos" if "?stats w = (Value keyed, w')" for keyed w w'
    using asksD [OF asks that] by (auto simp: keyed_videos_def)
  fix keyed :: "(place \<times> copy_key) list"
  assume within: "fst ` set keyed \<subseteq> set videos"
  have drop: "kr.keeps A (drop_copy bh v)" if "v \<in> set (copies_to_drop keyed)" for v
  proof -
    have "v \<in> set videos" using that within unfolding copies_to_drop_iff by force
    then have "\<not> A v" by (rule assms)
    then show ?thesis unfolding drop_copy_def by (intro kr_steps kr_unlink)
  qed
  show "kr.keeps A (bind_io (each_io (drop_copy bh) (copies_to_drop keyed))
      (\<lambda>_. ret (filter (\<lambda>v. v \<notin> set (copies_to_drop keyed)) videos)))"
    by (intro kr.keeps_bind kr.keeps_each_in kr.keeps_ret drop)
qed

lemma kr_select:
  assumes "\<And>p. at_or_below folder p \<Longrightarrow> \<not> A p"
  shows "kr.keeps A (select_videos bh cfg folder expected)"
proof -
  have settle: "kr.keeps A (settle_selection bh cfg folder expected videos)" for videos
    unfolding settle_selection_def by (intro kr_steps kr_asks [OF asks_arrange])
  have from_large: "kr.keeps A (select_from bh cfg folder expected videos)"
    if "\<forall>v \<in> set videos. below folder v" for videos
    unfolding select_from_def
    using that assms below_at_or_below by (intro kr_steps kr_drop_copies settle) blast
  have "kr.keeps A (bind_io (rglob bh folder) (\<lambda>candidates.
      bind_io (filter_io (worth_keeping bh cfg) candidates) (select_from bh cfg folder expected)))"
  proof (rule kr.keeps_bind_yields [where Q = "\<lambda>cs. \<forall>c \<in> set cs. below folder c"])
    show "\<forall>c \<in> set cs. below folder c" if "rglob bh folder w = (Value cs, w')" for cs w w'
      using that by (auto simp: rglob_def descendants_def)
    fix cs assume cs: "\<forall>c \<in> set cs. below folder c"
    show "kr.keeps A (bind_io (filter_io (worth_keeping bh cfg) cs) (select_from bh cfg folder expected))"
    proof (rule kr.keeps_bind_yields)
      show "kr.keeps A (filter_io (worth_keeping bh cfg) cs)" by (rule kr_asks [OF asks_filter [OF asks_worth]])
      show "\<forall>v \<in> set vs. below folder v" if "filter_io (worth_keeping bh cfg) cs w = (Value vs, w')" for vs w w'
        using asksD [OF asks_filter [OF asks_worth] that] cs by auto
    qed (rule from_large)
  qed (rule kr_rglob)
  then have "kr.keeps A (if \<not> d then ret (Inl (archive_failed [] (path_str ''/'' folder @ '' is not a directory'')))
      else bind_io (rglob bh folder) (\<lambda>candidates.
        bind_io (filter_io (worth_keeping bh cfg) candidates) (select_from bh cfg folder expected)))" for d
    by (cases d) (simp_all add: kr.keeps_ret)
  then show ?thesis unfolding select_videos_def by (rule kr.keeps_bind [OF kr_questions(1)])
qed

lemma isolate_value:
  assumes "isolate m h w = (Value a, w')"
  obtains "m w = (Value a, w')" | e w1 where "h e w1 = (Value a, w')"
  using assms unfolding isolate_def catch_io_def
  by (auto split: prod.splits outcome.splits if_splits simp: bind_io_Value_iff raise_io_def)

lemma inspect_value:
  "inspect_folder bh cfg folder expected w = (Value (Inr sel), w') \<Longrightarrow>
     select_videos bh cfg folder expected w = (Value (Inr sel), w')"
  unfolding inspect_folder_def by (erule isolate_value) (simp_all add: ret_def)

lemma select_clean:
  assumes "select_videos bh cfg folder expected w = (Value (Inr (avid, vs)), w')" and "only_removes cfg"
  shows "slash \<notin> set avid" and "\<And>v. v \<in> set vs \<Longrightarrow> below folder v"
proof -
  show "slash \<notin> set avid"
    using select_videos_value(2) [OF assms(1)] avid_of_clean [OF assms(2)] equivalent_clean by metis
  show "below folder v" if "v \<in> set vs" for v
    using select_videos_value(1) [OF assms(1)] that large_in_below unfolding selected_def by blast
qed

lemma kr_rest_of_filing:
  assumes "\<And>p. at_or_below folder p \<Longrightarrow> \<not> A p"
  shows "kr.keeps A (discard bh folder)"
  unfolding discard_def by (intro kr_steps kr_rmtree assms)

lemma kr_file_selection:
  assumes lib: "\<And>p. at_or_below (dst_place cfg) p \<Longrightarrow> A p" and out: "\<And>p. at_or_below folder p \<Longrightarrow> \<not> A p"
    and cfg: "relative_config cfg" "\<not> is_absolute dst" and avid: "slash \<notin> set avid"
    and vs: "\<And>v. v \<in> set vs \<Longrightarrow> below folder v"
  shows "kr.keeps A (file_selection bh cfg folder (avid, vs) dst priority)"
proof -
  have "kr.keeps A (move_into_library bh cfg (avid, vs) dst priority)"
    using lib out cfg avid vs below_at_or_below by (intro kr_move_into_library) blast+
  then show ?thesis
    unfolding file_selection_def by (intro kr_steps kr_rest_of_filing out)
qed

lemma kr_archive_folder:
  assumes lib: "\<And>p. at_or_below (dst_place cfg) p \<Longrightarrow> A p" and out: "\<And>p. at_or_below folder p \<Longrightarrow> \<not> A p"
    and cfg: "relative_config cfg" "\<not> is_absolute dst" "only_removes cfg"
  shows "kr.keeps A (archive_folder bh cfg folder dst priority expected)"
  unfolding archive_folder_def
proof (rule kr.keeps_bind_yields)
  let ?Q = "\<lambda>s :: archive_result + selection.
      \<forall>avid vs. s = Inr (avid, vs) \<longrightarrow> slash \<notin> set avid \<and> (\<forall>v \<in> set vs. below folder v)"
  show "kr.keeps A (inspect_folder bh cfg folder expected)"
    unfolding inspect_folder_def by (intro kr_steps kr_select out)
  show "?Q s" if "inspect_folder bh cfg folder expected w = (Value s, w')" for s w w'
    using that select_clean [OF inspect_value _ ] cfg(3) by blast
  fix s assume Q: "?Q s"
  show "kr.keeps A (case s of Inl result \<Rightarrow> ret result | Inr sel \<Rightarrow> file_selection bh cfg folder sel dst priority)"
  proof (cases s)
    case (Inr sel)
    obtain avid vs where "sel = (avid, vs)" by fastforce
    then have clean: "slash \<notin> set avid" "\<And>v. v \<in> set vs \<Longrightarrow> below folder v" using Inr Q by auto
    have "kr.keeps A (file_selection bh cfg folder (avid, vs) dst priority)"
      by (rule kr_file_selection) (fact lib out cfg clean)+
    then show ?thesis using Inr \<open>sel = (avid, vs)\<close> by simp
  qed (simp add: kr.keeps_ret)
qed

lemma children_of: "p \<in> set (children ns d) \<Longrightarrow> \<exists>x. p = d @ [x]"
proof -
  assume "p \<in> set (children ns d)"
  then have "p \<noteq> []" "butlast p = d" by (simp_all add: children_def)
  then show ?thesis using append_butlast_last_id [of p] by metis
qed

lemma iterdir_value: "iterdir bh d w = (Value cs, w') \<Longrightarrow> p \<in> set cs \<Longrightarrow> \<exists>x. p = d @ [x]"
  using children_of
  by (auto simp: iterdir_def bind_io_Value_iff probe_def ret_def raise_io_def split: if_splits option.splits)

lemma grouped_group:
  assumes "(k, vs) \<in> set (grouped key val xs)"
  shows "vs = map val (filter (\<lambda>x. key x = k) xs)" and "k \<in> key ` set xs"
proof -
  note spec = grouped_spec [of key val xs]
  show "vs = map val (filter (\<lambda>x. key x = k) xs)" using spec assms by blast
  have "k \<in> fst ` set (grouped key val xs)" using imageI [OF assms, of fst] by simp
  then show "k \<in> key ` set xs" using spec by simp
qed

lemma loose_groups_from:
  assumes "(avid, vs) \<in> set (loose_groups cfg videos)"
  shows "set vs \<subseteq> set videos \<and> (\<exists>name. avid = avid_of (ag_parser cfg) name)"
proof -
  define named where "named = filter (\<lambda>(avid, v). avid \<noteq> []) (map (\<lambda>v. (avid_of (ag_parser cfg) (place_name v), v)) videos)"
  have "loose_groups cfg videos = grouped fst snd named"
    by (simp only: loose_groups_def named_def grouped_def split_def)
  then have "(avid, vs) \<in> set (grouped fst snd named)" using assms by simp
  note group = grouped_group [OF this]
  have vs: "vs = map snd (filter (\<lambda>x. fst x = avid) named)" by (rule group(1))
  from group(2) obtain x where "x \<in> set named" "avid = fst x" by blast
  then have "\<exists>name. avid = avid_of (ag_parser cfg) name" by (auto simp: named_def)
  moreover have "set vs \<subseteq> set videos" unfolding vs named_def by auto
  ultimately show ?thesis by simp
qed

text \<open>Neither of two directories contains the other.\<close>

definition apart :: "place \<Rightarrow> place \<Rightarrow> bool" where
  "apart c d \<longleftrightarrow> \<not> at_or_below c d \<and> \<not> at_or_below d c"

lemma apart_below: "apart c d \<Longrightarrow> at_or_below d p \<Longrightarrow> \<not> at_or_below c p"
  using at_or_below_comparable by (auto simp: apart_def)

lemma apart_sub: "apart c d \<Longrightarrow> apart c (d @ q)"
  using apart_below [of c d "d @ q"] at_or_below_trans [of d "d @ q" c] by (auto simp: apart_def)

lemma apart_sym: "apart c d \<Longrightarrow> apart d c"
  by (simp add: apart_def)

lemma kr_scan_route:
  assumes cfg: "relative_config cfg" "\<not> is_absolute dst" "only_removes cfg" and away: "apart (dst_place cfg) root"
  shows "kr.keeps (at_or_below (dst_place cfg)) (scan_route bh cfg root dst priority)"
proof -
  let ?A = "at_or_below (dst_place cfg)"
  have child: "\<not> ?A p" if "at_or_below (root @ q) p" for p q
    by (rule apart_below [OF apart_sub [OF away] that])
  have folder: "kr.keeps ?A (scan_entry bh cfg root dst priority (root @ [x]))" for x
    unfolding scan_entry_def by (intro kr_steps kr_questions kr_archive_folder cfg child)
  have loose: "kr.keeps ?A (archive_loose_videos bh cfg videos dst priority)"
    if videos: "\<And>v. v \<in> set videos \<Longrightarrow> \<exists>x. v = root @ [x]" for videos
    unfolding archive_loose_videos_def
  proof (rule kr.keeps_each_in)
    fix g assume g: "g \<in> set (loose_groups cfg videos)"
    obtain avid vs where e: "g = (avid, vs)" by fastforce
    have vs: "set vs \<subseteq> set videos" and avid: "slash \<notin> set avid"
      using loose_groups_from [of avid vs cfg videos] g e avid_of_clean [OF cfg(3)] by auto
    have "kr.keeps ?A (move_into_library bh cfg (avid, sort_key place_name vs) dst priority)"
    proof (rule kr_move_into_library)
      show "\<not> ?A v" if v: "v \<in> set (sort_key place_name vs)" for v
      proof -
        obtain x where "v = root @ [x]" using videos v vs by auto
        then show ?thesis using child [of "[x]" v] by (simp add: at_or_below_def)
      qed
    qed (use cfg avid in auto)
    then show "kr.keeps ?A (case g of (avid, videos) \<Rightarrow> bind_io (stop_check bh) (\<lambda>_.
         isolate (bind_io (archive_loose_group bh cfg avid videos dst priority) (\<lambda>_. ret ())) (\<lambda>_. ret ())))"
      unfolding e case_prod_conv archive_loose_group_def by (intro kr_steps)
  qed
  show ?thesis
    unfolding scan_route_def
  proof (rule kr.keeps_bind_yields [where Q = "\<lambda>cs. \<forall>p \<in> set cs. \<exists>x. p = root @ [x]"])
    show "kr.keeps ?A (iterdir bh root)" by (rule kr_questions)
    show "\<forall>p \<in> set cs. \<exists>x. p = root @ [x]" if "iterdir bh root w = (Value cs, w')" for cs w w'
      using iterdir_value [OF that] by blast
    fix cs assume cs: "\<forall>p \<in> set cs. \<exists>x. p = root @ [x]"
    have rest: "kr.keeps ?A (bind_io (filter_io (is_video bh) cs) (\<lambda>loose. if loose = [] then ret ()
        else archive_loose_videos bh cfg loose dst priority))"
    proof (rule kr.keeps_bind_yields)
      show "kr.keeps ?A (filter_io (is_video bh) cs)" by (rule kr_asks [OF asks_filter [OF asks_is_video]])
      show "set vs \<subseteq> set cs" if "filter_io (is_video bh) cs w = (Value vs, w')" for vs w w'
        using asksD [OF asks_filter [OF asks_is_video] that] by auto
      show "kr.keeps ?A (if vs = [] then ret () else archive_loose_videos bh cfg vs dst priority)"
        if "set vs \<subseteq> set cs" for vs
        using that cs by (intro kr.keeps_if kr.keeps_ret loose) blast
    qed
    have "kr.keeps ?A (each_io (scan_entry bh cfg root dst priority) cs)"
      using cs folder by (intro kr.keeps_each_in) auto
    from this rest show "kr.keeps ?A (bind_io (each_io (scan_entry bh cfg root dst priority) cs)
        (\<lambda>_. bind_io (filter_io (is_video bh) cs) (\<lambda>loose. if loose = [] then ret ()
           else archive_loose_videos bh cfg loose dst priority)))"
      by (rule kr.keeps_bind)
  qed
qed


text \<open>
  C7: A scan of all routes, whatever calls the mount refuses and wherever the operator stops
  it, overwrites and loses no file of the library: each file the library held is still in it,
  under its name, where a promotion into a priority route may have moved it to another
  directory of the library. It holds if the routes' sources and the library lie apart, if the
  operator's patterns only take text out of a title, and if the configured subdirectories are
  relative, as their validation ensures.
\<close>

theorem library_survives_scan:
  assumes "relative_config cfg" and "only_removes cfg"
    and apart: "\<forall>root \<in> set (route_roots cfg). apart (dst_place cfg) root"
    and held: "at_or_below (dst_place cfg) p" "node_at (aw_nodes w) p = Some (Plain i s)"
  shows "\<exists>q. at_or_below (dst_place cfg) q
    \<and> node_at (aw_nodes (snd (archive_run bh cfg w))) q = Some (Plain i s) \<and> place_name q = place_name p"
proof -
  let ?A = "at_or_below (dst_place cfg)"
  let ?routes = "map (\<lambda>e. (e, True)) (rt_priority_mapping cfg) @ map (\<lambda>e. (e, False)) (rt_mapping cfg)"
  have "kr.keeps ?A (scan_configured bh cfg route)" if "route \<in> set ?routes" for route
  proof -
    obtain source dst priority where route: "route = ((source, dst), priority)" by (metis prod.collapse)
    then have "(source, dst) \<in> set (rt_mapping cfg) \<union> set (rt_priority_mapping cfg)" using that by auto
    then have "\<not> is_absolute dst" "apart (dst_place cfg) (route_root cfg source)"
      using assms(1) apart by (force simp: relative_config_def route_roots_def)+
    then show ?thesis
      unfolding route scan_configured_def case_prod_conv using assms(1,2)
      by (intro kr_steps kr_questions kr_scan_route)
  qed
  then have "kr.keeps ?A (archive_run bh cfg)" unfolding archive_run_def by (rule kr.keeps_each_in)
  then have "keeps_files ?A (aw_nodes w) (aw_nodes (snd (archive_run bh cfg w)))"
    by (simp add: kr.keeps_def keeps_region_def)
  with held show ?thesis unfolding keeps_files_def by blast
qed


section \<open>An archived folder is accounted for\<close>

text \<open>A place outside the library is not touched until its own file is moved.\<close>

lemma kept_at: "keeps_files (\<lambda>p. p = v) ns ns' \<Longrightarrow> node_at ns v = Some (Plain i s) \<Longrightarrow> node_at ns' v = Some (Plain i s)"
  by (simp add: keeps_files_def)

lemma kr_at:
  assumes "kr.keeps (\<lambda>p. p = v) m" and "m w = (r, w')" and "node_at (aw_nodes w) v = Some (Plain i s)"
  shows "node_at (aw_nodes w') v = Some (Plain i s)"
  using kr.keeps_run [OF assms(1), of w] assms(2,3) by (auto simp: keeps_region_def intro: kept_at)

lemma matching_value:
  assumes "matching_archived bh avid d w = (Value found, w')" and "p \<in> set found"
  shows "\<exists>x. p = d @ [x]"
proof -
  let ?wanted = "\<lambda>f. bind_io (is_video bh f) (\<lambda>v. ret (v \<and> belongs_to avid f))"
  obtain b w1 where b: "(if \<not> b then ret [] else bind_io (iterdir bh d) (filter_io ?wanted)) w1 = (Value found, w')"
    using assms(1) unfolding matching_archived_def bind_io_Value_iff by blast
  have "b" using b assms(2) by (cases b) (auto simp: ret_def)
  then obtain es w2 where es: "iterdir bh d w1 = (Value es, w2)" and found: "filter_io ?wanted es w2 = (Value found, w')"
    using b by (auto simp: bind_io_Value_iff)
  have "asks (?wanted f) (\<lambda>ns. (plain_at ns f \<and> has_video_suffix f) \<and> belongs_to avid f)" for f
    by (rule asks_bind [OF asks_is_video asks_ret])
  from asksD [OF asks_filter [OF this] found] have "set found \<subseteq> set es" by auto
  with es assms(2) show ?thesis using iterdir_value by blast
qed

lemma kr_promote_out:
  assumes lib: "\<And>p. at_or_below (dst_place cfg) p \<Longrightarrow> \<not> A p" and "relative_config cfg" and "slash \<notin> set brand"
  shows "kr.keeps A (promote_from_normal bh cfg avid brand target_dir)"
  unfolding promote_from_normal_def
proof (rule kr.keeps_each_in)
  fix dst assume "dst \<in> set (normal_dsts cfg)"
  then have "\<not> is_absolute dst" using assms(2) by (auto simp: normal_dsts_def relative_config_def dedup_def)
  then have at: "at_or_below (dst_place cfg) (join_place (join_place (dst_place cfg) dst) brand)" (is "at_or_below _ ?d")
    using at_or_below_trans [OF join_relative join_relative [OF clean_relative [OF assms(3)]]] by blast
  have "kr.keeps A (bind_io (matching_archived bh avid ?d) (\<lambda>found. each_io (promote_one bh target_dir) found))"
  proof (rule kr.keeps_bind_yields [where Q = "\<lambda>found. \<forall>p \<in> set found. \<exists>x. p = ?d @ [x]"])
    show "\<forall>p \<in> set found. \<exists>x. p = ?d @ [x]" if "matching_archived bh avid ?d w = (Value found, w')" for found w w'
      using matching_value [OF that] by blast
    fix found assume found: "\<forall>p \<in> set found. \<exists>x. p = ?d @ [x]"
    have "\<not> A p" if "p \<in> set found" for p
    proof -
      obtain x where "p = ?d @ [x]" using found \<open>p \<in> set found\<close> by blast
      then have "at_or_below (dst_place cfg) p" using at_or_below_trans [OF at, of p] by simp
      then show ?thesis by (rule lib)
    qed
    then show "kr.keeps A (each_io (promote_one bh target_dir) found)"
      by (intro kr.keeps_each_in kr_promote_one) blast
  qed (rule kr_matching)
  then show "kr.keeps A (let source_dir = ?d in if source_dir = target_dir then ret ()
      else bind_io (matching_archived bh avid source_dir) (\<lambda>found. each_io (promote_one bh target_dir) found))"
    by (simp add: Let_def kr.keeps_ret)
qed

lemma kr_guarded_out:
  assumes "\<And>p. at_or_below (dst_place cfg) p \<Longrightarrow> \<not> A p" and "relative_config cfg" and "slash \<notin> set avid"
  shows "kr.keeps A (guarded bh cfg avid brand_dir priority)"
proof (cases "get_brand avid")
  case (Some brand)
  have "slash \<notin> set brand" by (rule get_brand_clean [OF Some assms(3)])
  with Some show ?thesis
    unfolding guarded_def held_by_priority_def
    by (auto intro!: kr_steps kr_promote_out kr_held_in assms)
qed (simp add: guarded_def kr.keeps_ret)

text \<open>Moves to free places bring each file to its place.\<close>

lemma rename_value:
  assumes "rename_file bh p q w = (Value u, w')" and "q \<noteq> []"
  shows "node_at (aw_nodes w') r = (if r = q then node_at (aw_nodes w) p else if r = p then None else node_at (aw_nodes w) r)"
  using assms change_value [of bh "renamed p q" w w'] node_at_renamed [of p q] by (simp add: rename_file_def)

lemma move_each_value:
  assumes "move_each bh ts w = (Value u, w')" and "distinct (map snd ts)" "distinct (map fst ts)"
    and "fst ` set ts \<inter> snd ` set ts = {}" and "[] \<notin> snd ` set ts"
  shows "(\<forall>(v, t) \<in> set ts. node_at (aw_nodes w') t = node_at (aw_nodes w) v)
    \<and> (\<forall>r. r \<notin> fst ` set ts \<union> snd ` set ts \<longrightarrow> node_at (aw_nodes w') r = node_at (aw_nodes w) r)"
  using assms
proof (induction ts arbitrary: w)
  case Nil
  then show ?case by (simp add: move_each_def ret_def)
next
  case (Cons e ts)
  obtain v t where e: "e = (v, t)" by fastforce
  obtain w1 where first: "rename_file bh v t w = (Value (), w1)" and rest: "move_each bh ts w1 = (Value u, w')"
    using Cons.prems(1) unfolding move_each_def e by (auto simp: bind_io_Value_iff)
  note after = rename_value [OF first]
  have "t \<noteq> []" using Cons.prems(5) e by auto
  have IH: "(\<forall>(v, t) \<in> set ts. node_at (aw_nodes w') t = node_at (aw_nodes w1) v)
    \<and> (\<forall>r. r \<notin> fst ` set ts \<union> snd ` set ts \<longrightarrow> node_at (aw_nodes w') r = node_at (aw_nodes w1) r)"
    using Cons.prems rest by (intro Cons.IH) auto
  have t: "t \<notin> fst ` set ts \<union> snd ` set ts" using Cons.prems e by auto
  have "node_at (aw_nodes w') t = node_at (aw_nodes w1) t" using IH t by blast
  also have "\<dots> = node_at (aw_nodes w) v" using after [OF \<open>t \<noteq> []\<close>] by simp
  finally have here: "node_at (aw_nodes w') t = node_at (aw_nodes w) v" .
  have later: "node_at (aw_nodes w') t' = node_at (aw_nodes w) v'" if "(v', t') \<in> set ts" for v' t'
  proof -
    have "v' \<in> fst ` set ts" using imageI [OF that, of fst] by simp
    then have "v' \<noteq> t" "v' \<noteq> v" using t Cons.prems(3) e by auto
    then have "node_at (aw_nodes w1) v' = node_at (aw_nodes w) v'" using after [OF \<open>t \<noteq> []\<close>] by simp
    moreover have "node_at (aw_nodes w') t' = node_at (aw_nodes w1) v'" using IH that by blast
    ultimately show ?thesis by simp
  qed
  have "node_at (aw_nodes w') r = node_at (aw_nodes w) r" if "r \<notin> fst ` set (e # ts) \<union> snd ` set (e # ts)" for r
    using IH that after [OF \<open>t \<noteq> []\<close>, of r] e by auto
  with here later e show ?case by auto
qed


lemma find_dst_dir_proper:
  assumes "find_dst_dir cfg avid (join_place (dst_place cfg) dst) = Some bd" and "relative_config cfg" and "\<not> is_absolute dst"
    and "slash \<notin> set avid"
  shows "list_all proper_name bd"
proof -
  have join: "list_all proper_name (join_place p s)" if "list_all proper_name p" for p s
    using that path_names_proper by (simp add: join_place_def)
  have "list_all proper_name (dst_place cfg)" by (simp add: dst_place_def path_names_proper)
  then show ?thesis using assms(1) join by (auto simp: find_dst_dir_def split: option.splits if_splits)
qed

text \<open>The path told of a place in the library leads back to it.\<close>

lemma display_leads:
  assumes "at_or_below (dst_place cfg) t" and "list_all proper_name t" and "dst_place cfg \<noteq> t"
  shows "dst_place cfg @ path_names (display t (dst_place cfg)) = t"
proof -
  obtain q where q: "t = dst_place cfg @ q" using assms(1) by (auto simp: at_or_below_prefix)
  with assms have "list_all proper_name q" "q \<noteq> []" by auto
  then have "path_names (path_str [] q) = q" by (intro path_names_path_str) auto
  with q show ?thesis by (simp add: display_def)
qed

lemma move_into_library_value:
  assumes run: "move_into_library bh cfg (avid, vs) dst priority w = (Value archived, w')" "archived \<noteq> []"
    and cfg: "relative_config cfg" "\<not> is_absolute dst" and avid: "slash \<notin> set avid"
    and out: "\<And>u. u \<in> set vs \<Longrightarrow> \<not> at_or_below (dst_place cfg) u" and dist: "distinct vs"
    and v: "v \<in> set vs" "node_at (aw_nodes w) v = Some (Plain i s)"
  shows "\<exists>q \<in> set archived. at_or_below (dst_place cfg) (dst_place cfg @ path_names q)
    \<and> node_at (aw_nodes w') (dst_place cfg @ path_names q) = Some (Plain i s)"
proof -
  obtain bd where bd: "find_dst_dir cfg avid (join_place (dst_place cfg) dst) = Some bd"
    using run by (cases "find_dst_dir cfg avid (join_place (dst_place cfg) dst)") (auto simp: move_into_library_def ret_def)
  note lib = find_dst_dir_in [OF bd cfg avid]
  let ?ts = "targets_of avid bd vs"
  let ?told = "map (\<lambda>(_, target). display target (dst_place cfg)) ?ts"
  have "bind_io (guarded bh cfg avid bd priority) (\<lambda>held. if held then ret []
      else bind_io (all_free bh ?ts) (\<lambda>free. if \<not> free then ret []
        else bind_io (make_dirs bh bd) (\<lambda>_. bind_io (move_each bh ?ts) (\<lambda>_. ret ?told)))) w = (Value archived, w')"
    using run(1) by (simp only: move_into_library_def case_prod_conv bd option.case Let_def move_each_def)
  then obtain held w1 where g: "guarded bh cfg avid bd priority w = (Value held, w1)"
      and k1: "(if held then ret [] else bind_io (all_free bh ?ts) (\<lambda>free. if \<not> free then ret []
        else bind_io (make_dirs bh bd) (\<lambda>_. bind_io (move_each bh ?ts) (\<lambda>_. ret ?told)))) w1 = (Value archived, w')"
    unfolding bind_io_Value_iff by blast
  from k1 run(2) have "\<not> held" by (cases held) (auto simp: ret_def)
  with k1 obtain free w2 where f: "all_free bh ?ts w1 = (Value free, w2)"
      and k2: "(if \<not> free then ret [] else bind_io (make_dirs bh bd) (\<lambda>_. bind_io (move_each bh ?ts) (\<lambda>_. ret ?told))) w2 = (Value archived, w')"
    by (auto simp: bind_io_Value_iff)
  from k2 run(2) have "free" by (cases free) (auto simp: ret_def)
  with k2 obtain w3 where d: "make_dirs bh bd w2 = (Value (), w3)" and m: "move_each bh ?ts w3 = (Value (), w')" and told: "archived = ?told"
    by (auto simp: bind_io_Value_iff ret_def)
  let ?A = "\<lambda>p. p = v"
  have "\<not> ?A p" if "at_or_below (dst_place cfg) p" for p using out [OF v(1)] that by auto
  then have "kr.keeps ?A (guarded bh cfg avid bd priority)" by (intro kr_guarded_out cfg avid) auto
  from kr_at [OF this g v(2)] have "node_at (aw_nodes w2) v = Some (Plain i s)" using all_free_value [OF f] by simp
  from kr_at [OF kr_make_dirs d this] have at3: "node_at (aw_nodes w3) v = Some (Plain i s)" .
  note places = targets_of_places [OF avid conjunct2 [OF lib], of bd vs]
  have targets: "\<exists>n. proper_name n \<and> t = bd @ [n]" if "(u, t) \<in> set ?ts" for u t
    using that part_name_proper [OF avid conjunct2 [OF lib]] unfolding places by auto
  have inside: "at_or_below (dst_place cfg) t \<and> list_all proper_name t \<and> dst_place cfg \<noteq> t" if "(u, t) \<in> set ?ts" for u t
    using targets [OF that] lib find_dst_dir_proper [OF bd cfg avid] by (auto simp: at_or_below_prefix)
  have sources: "fst ` set ?ts = set vs" using map_fst_targets [of avid bd vs] by (metis set_map)
  have "fst ` set ?ts \<inter> snd ` set ?ts = {}" using sources out inside by fastforce
  moreover have "[] \<notin> snd ` set ?ts" using targets by fastforce
  moreover have "distinct (map fst ?ts)" using dist by (simp only: map_fst_targets)
  ultimately have moved: "node_at (aw_nodes w') t = node_at (aw_nodes w3) u" if "(u, t) \<in> set ?ts" for u t
    using move_each_value [OF m targets_distinct [OF avid conjunct2 [OF lib]]] that by blast
  obtain t where t: "(v, t) \<in> set ?ts" using v(1) sources by (metis imageE prod.collapse)
  have "dst_place cfg @ path_names (display t (dst_place cfg)) = t" using inside [OF t] by (intro display_leads) auto
  moreover have "display t (dst_place cfg) \<in> set archived" unfolding told using t by force
  ultimately show ?thesis
    using moved [OF t] at3 inside [OF t] by (intro bexI [of _ "display t (dst_place cfg)"]) simp_all
qed


text \<open>Only a move answers that a folder was archived.\<close>

lemma identify_not_archived: "identify_avid cfg folder videos expected = Inl r \<Longrightarrow> ar_outcome r = ONeedsAttention"
  by (auto simp: identify_avid_def Let_def needs_attention_def split: if_splits)

lemma settle_not_archived:
  assumes "settle_selection bh cfg folder expected videos w = (Value (Inl r), w')"
  shows "ar_outcome r = ONeedsAttention"
proof (cases "identify_avid cfg folder videos expected")
  case (Inl r')
  with assms identify_not_archived show ?thesis by (auto simp: settle_selection_def ret_def)
next
  case (Inr avid)
  with assms show ?thesis
    by (auto simp: settle_selection_def ret_def bind_io_Value_iff needs_attention_def split: if_splits option.splits)
qed

lemma select_not_archived:
  assumes "select_videos bh cfg folder expected w = (Value (Inl r), w')"
  shows "ar_outcome r \<noteq> OArchived"
proof -
  obtain d w1 where k: "(if \<not> d then ret (Inl (archive_failed [] (path_str ''/'' folder @ '' is not a directory'')))
      else bind_io (rglob bh folder) (\<lambda>cs. bind_io (filter_io (worth_keeping bh cfg) cs) (select_from bh cfg folder expected))) w1
        = (Value (Inl r), w')"
    using assms unfolding select_videos_def bind_io_Value_iff by blast
  show ?thesis
  proof (cases d)
    case True
    with k obtain videos w2 where "select_from bh cfg folder expected videos w2 = (Value (Inl r), w')"
      unfolding bind_io_Value_iff by (auto simp: bind_io_Value_iff)
    then show ?thesis
      by (auto simp: select_from_def bind_io_Value_iff ret_def dest: settle_not_archived split: if_splits)
  qed (use k in \<open>auto simp: ret_def archive_failed_def\<close>)
qed

lemma inspect_not_archived:
  assumes "inspect_folder bh cfg folder expected w = (Value (Inl r), w')"
  shows "ar_outcome r \<noteq> OArchived"
  using assms unfolding inspect_folder_def
  by (rule isolate_value) (auto simp: ret_def archive_failed_def dest: select_not_archived)

lemma archive_folder_value:
  assumes run: "archive_folder bh cfg folder dst priority expected w = (Value r, w')" and archived: "ar_outcome r = OArchived"
  obtains vs w1 w2 w3 where "select_videos bh cfg folder expected w = (Value (Inr (ar_avid r, vs)), w1)"
    and "move_into_library bh cfg (ar_avid r, vs) dst priority w1 = (Value (ar_paths r), w2)"
    and "ar_paths r \<noteq> []" and "discard bh folder w2 = (Value (), w3)" and "aw_nodes w' = aw_nodes w3"
proof -
  obtain sel w1 where sel: "inspect_folder bh cfg folder expected w = (Value sel, w1)"
      and k: "(case sel of Inl result \<Rightarrow> ret result | Inr sel \<Rightarrow> file_selection bh cfg folder sel dst priority) w1 = (Value r, w')"
    using run unfolding archive_folder_def bind_io_Value_iff by blast
  obtain avid vs where chosen: "sel = Inr (avid, vs)"
  proof (cases sel)
    case (Inl r')
    with k sel inspect_not_archived archived show ?thesis by (auto simp: ret_def)
  qed (use that in fastforce)
  let ?move = "bind_io (move_into_library bh cfg (avid, vs) dst priority) (\<lambda>archived. ret (Inr archived))
    :: (archive_result + string list) arc"
  let ?h = "\<lambda>e. ret (Inl (archive_failed avid (mb_text bh e))) :: (archive_result + string list) arc"
  obtain m w2 where m: "isolate ?move ?h w1 = (Value m, w2)"
      and k2: "(case m of Inl result \<Rightarrow> ret result
        | Inr archived \<Rightarrow> if archived = [] then ret (needs_attention avid ''destination already holds this avid'')
            else bind_io (discard bh folder) (\<lambda>_. bind_io (count ''videos_archived'' (int (length archived))) (\<lambda>_.
               ret \<lparr>ar_outcome = OArchived, ar_avid = avid, ar_paths = archived, ar_reason = []\<rparr>))) w2 = (Value r, w')"
    using k unfolding chosen sum.case file_selection_def bind_io_Value_iff fst_conv by blast
  from m have "?move w1 = (Value m, w2) \<or> (\<exists>e w. ?h e w = (Value m, w2))" by (rule isolate_value) blast+
  then obtain paths where paths: "m = Inr paths" "move_into_library bh cfg (avid, vs) dst priority w1 = (Value paths, w2)"
    using k2 archived by (auto simp: ret_def bind_io_Value_iff archive_failed_def)
  have "paths \<noteq> []" using k2 archived paths by (auto simp: ret_def needs_attention_def)
  then obtain w3 where w3: "discard bh folder w2 = (Value (), w3)" "aw_nodes w' = aw_nodes w3"
      and r: "r = \<lparr>ar_outcome = OArchived, ar_avid = avid, ar_paths = paths, ar_reason = []\<rparr>"
    using k2 paths by (auto simp: bind_io_Value_iff ret_def count_def)
  have "select_videos bh cfg folder expected w = (Value (Inr (avid, vs)), w1)"
    by (rule inspect_value) (use sel chosen in simp)
  with that [of vs w1 w2 w3] paths \<open>paths \<noteq> []\<close> w3 r show ?thesis by simp
qed

text \<open>
  C8: A folder is only reported as archived when its videos are in the library: each large
  video it held is in the library under one of the reported paths, or one that stands for it
  is, along a chain of the original of a copy of equal size, the high resolution cut of the
  same video, and the video it is a phone rip of, at most half the size. This holds whatever
  calls the mount refuses, if no directory listing within the folder was refused in
  silence; the folder lies apart from the library, the configured subdirectories are relative,
  and the operator's patterns only take text out of a title.
\<close>

theorem archived_folder_accounted:
  assumes run: "archive_folder bh cfg folder dst priority expected w = (Value r, w')" "ar_outcome r = OArchived"
    and cfg: "relative_config cfg" "\<not> is_absolute dst" "only_removes cfg" and away: "apart (dst_place cfg) folder"
    and seen: "\<And>n d. \<not> mb_hidden bh n d"
    and v: "below folder v" "large_video cfg (aw_nodes w) v"
  shows "\<exists>u i s q. (stands_for cfg (aw_nodes w) (ar_avid r))\<^sup>*\<^sup>* v u \<and> node_at (aw_nodes w) u = Some (Plain i s)
    \<and> q \<in> set (ar_paths r) \<and> node_at (aw_nodes w') (dst_place cfg @ path_names q) = Some (Plain i s)"
proof -
  obtain vs w1 w2 w3 where sel: "select_videos bh cfg folder expected w = (Value (Inr (ar_avid r, vs)), w1)"
      and move: "move_into_library bh cfg (ar_avid r, vs) dst priority w1 = (Value (ar_paths r), w2)" "ar_paths r \<noteq> []"
      and gone: "discard bh folder w2 = (Value (), w3)" "aw_nodes w' = aw_nodes w3"
    using run by (rule archive_folder_value)
  obtain n where n: "selected cfg (large_in cfg (mb_hidden bh n) (aw_nodes w) folder) (aw_nodes w) (ar_avid r) vs (aw_nodes w1)"
    using select_videos_value(1) [OF sel] by blast
  have "\<not> hidden_by (mb_hidden bh n) folder v" using seen by (simp add: hidden_by_def list_ex_iff)
  with v n obtain u where u: "u \<in> set vs" "(stands_for cfg (aw_nodes w) (ar_avid r))\<^sup>*\<^sup>* v u"
    using large_in_all unfolding selected_def by blast
  have large: "below folder u \<and> large_video cfg (aw_nodes w) u" if "u \<in> set vs" for u
    using n that large_in_below unfolding selected_def by blast
  from this [OF u(1)] obtain i s where at: "node_at (aw_nodes w) u = Some (Plain i s)"
    by (auto simp: large_video_def plain_at_def)
  have "distinct vs" using n by (simp add: selected_def)
  obtain D where "D \<inter> set vs = {}" "loses D (aw_nodes w) (aw_nodes w1)"
    using n unfolding selected_def by blast
  then have "node_at (aw_nodes w1) u = Some (Plain i s)" using u(1) at unfolding loses_def by force
  moreover have "\<not> at_or_below (dst_place cfg) u" if "u \<in> set vs" for u
    using large [OF that] apart_below [OF away below_at_or_below] by blast
  ultimately obtain q where q: "q \<in> set (ar_paths r)" "at_or_below (dst_place cfg) (dst_place cfg @ path_names q)"
      "node_at (aw_nodes w2) (dst_place cfg @ path_names q) = Some (Plain i s)"
    using move_into_library_value [OF move cfg(1,2) select_clean(1) [OF sel cfg(3)] _ \<open>distinct vs\<close> u(1)] by blast
  have "kr.keeps (\<lambda>p. p = dst_place cfg @ path_names q) (discard bh folder)"
    using apart_below [OF apart_sym [OF away] q(2)] by (intro kr_rest_of_filing) auto
  from kr_at [OF this gone(1) q(3)] gone(2) u(2) at q(1) show ?thesis by auto
qed


section \<open>A small mount\<close>

definition demo_archive :: archive_config where
  "demo_archive = \<lparr>rt_src_dir = ''/s'', rt_priority_mapping = [(''hot'', ''best'')], rt_mapping = [(''in'', ''out'')],
     ag_dst_dir = ''/d'', ag_min_size_mb = 0, ag_brand_mapping = [],
     ag_parser = \<lparr>avc_exceptions = [''A-1''], avc_ignore = (\<lambda>t. t)\<rparr>\<rparr>"

text \<open>The mount works but for the listings it hides.\<close>

definition demo_behaviour :: "place list \<Rightarrow> mount_behaviour" where
  "demo_behaviour hidden = \<lparr>mb_answer = (\<lambda>_. Works), mb_hidden = (\<lambda>_ d. d \<in> set hidden), mb_left = (\<lambda>_ _. False),
     mb_stop = (\<lambda>_. False), mb_text = (\<lambda>_. [])\<rparr>"

definition demo_mount :: "nodes \<Rightarrow> archive_world" where
  "demo_mount ns = \<lparr>aw_nodes = ns, aw_tick = 0, aw_stats = (\<lambda>_. 0)\<rparr>"

definition demo_folder :: nodes where
  "demo_folder = [([''s''], Folder), ([''s'', ''in''], Folder), ([''s'', ''in'', ''f''], Folder),
     ([''s'', ''in'', ''f'', ''A-1.mp4''], Plain 1 700), ([''s'', ''in'', ''f'', ''A-1(1).mp4''], Plain 2 700)]"

definition demo_library :: nodes where
  "demo_library = [([''d''], Folder), ([''d'', ''out''], Folder), ([''d'', ''out'', ''A''], Folder),
     ([''d'', ''out'', ''A'', ''A-1.mp4''], Plain 7 900),
     ([''s''], Folder), ([''s'', ''hot''], Folder), ([''s'', ''hot'', ''f''], Folder),
     ([''s'', ''hot'', ''f'', ''A-1.mp4''], Plain 1 700)]"


text \<open>A copy held by a normal route is promoted when its title comes by a priority route, and kept.\<close>

theorem library_survives_scan_witness:
  "\<exists>q. at_or_below [''d''] q \<and> place_name q = ''A-1.mp4''
    \<and> node_at (aw_nodes (snd (archive_run (demo_behaviour []) demo_archive (demo_mount demo_library)))) q
        = Some (Plain 7 900)"
proof -
  have "relative_config demo_archive" "dst_place demo_archive = [''d'']"
    "\<forall>root \<in> set (route_roots demo_archive). apart (dst_place demo_archive) root"
    by code_simp+
  moreover have "only_removes demo_archive" by (simp add: only_removes_def demo_archive_def)
  moreover have "node_at (aw_nodes (demo_mount demo_library)) [''d'', ''out'', ''A'', ''A-1.mp4''] = Some (Plain 7 900)"
    "at_or_below [''d''] [''d'', ''out'', ''A'', ''A-1.mp4'']" "place_name [''d'', ''out'', ''A'', ''A-1.mp4''] = ''A-1.mp4''"
    by code_simp+
  ultimately show ?thesis
    using library_survives_scan [of demo_archive "[''d'', ''out'', ''A'', ''A-1.mp4'']" "demo_mount demo_library" 7 900 "demo_behaviour []"]
    by auto
qed

text \<open>A folder with a copy of its video: the original is in the library, and stands for the copy.\<close>

definition demo_archived :: "archive_result \<times> nodes" where
  "demo_archived =
     (case archive_folder (demo_behaviour []) demo_archive [''s'', ''in'', ''f''] ''out'' False [] (demo_mount demo_folder) of
        (Value r, w) \<Rightarrow> (r, aw_nodes w)
      | (_, w) \<Rightarrow> (archive_failed [] [], aw_nodes w))"

theorem archived_folder_accounted_witness:
  "ar_paths (fst demo_archived) = [''out/A/A-1.mp4''] \<and>
   (\<exists>u i s q. (stands_for demo_archive demo_folder (ar_avid (fst demo_archived)))\<^sup>*\<^sup>* [''s'', ''in'', ''f'', ''A-1(1).mp4''] u
      \<and> node_at demo_folder u = Some (Plain i s) \<and> q \<in> set (ar_paths (fst demo_archived))
      \<and> node_at (snd demo_archived) ([''d''] @ path_names q) = Some (Plain i s))"
proof -
  have out: "ar_outcome (fst demo_archived) = OArchived" and paths: "ar_paths (fst demo_archived) = [''out/A/A-1.mp4'']" by code_simp+
  obtain o' w' where run: "archive_folder (demo_behaviour []) demo_archive [''s'', ''in'', ''f''] ''out'' False [] (demo_mount demo_folder)
      = (o', w')"
    by fastforce
  with out obtain r where r: "o' = Value r" by (cases o') (auto simp: demo_archived_def archive_failed_def)
  have "relative_config demo_archive" "\<not> is_absolute ''out''" "dst_place demo_archive = [''d'']"
      "apart (dst_place demo_archive) [''s'', ''in'', ''f'']" "below [''s'', ''in'', ''f''] [''s'', ''in'', ''f'', ''A-1(1).mp4'']"
      "large_video demo_archive demo_folder [''s'', ''in'', ''f'', ''A-1(1).mp4'']"
      "aw_nodes (demo_mount demo_folder) = demo_folder"
    by code_simp+
  moreover have "only_removes demo_archive" by (simp add: only_removes_def demo_archive_def)
  moreover have "\<not> mb_hidden (demo_behaviour []) n d" for n d by (simp add: demo_behaviour_def)
  moreover have told: "fst demo_archived = r" "snd demo_archived = aw_nodes w'" using run r by (simp_all add: demo_archived_def)
  ultimately have "\<exists>u i s q. (stands_for demo_archive demo_folder (ar_avid r))\<^sup>*\<^sup>* [''s'', ''in'', ''f'', ''A-1(1).mp4''] u
      \<and> node_at demo_folder u = Some (Plain i s) \<and> q \<in> set (ar_paths r)
      \<and> node_at (aw_nodes w') ([''d''] @ path_names q) = Some (Plain i s)"
    using archived_folder_accounted [of "demo_behaviour []" demo_archive "[''s'', ''in'', ''f'']" "''out''" False "[]"
        "demo_mount demo_folder" r w' "[''s'', ''in'', ''f'', ''A-1(1).mp4'']"] run r out by simp
  then show ?thesis using paths unfolding told by blast
qed

text \<open>
  Without the hypothesis on the listings it fails: a folder whose subdirectory could not be
  listed is archived by the one video that was seen, and removed with the other.
\<close>

definition demo_unseen :: nodes where
  "demo_unseen = [([''s''], Folder), ([''s'', ''in''], Folder), ([''s'', ''in'', ''f''], Folder),
     ([''s'', ''in'', ''f'', ''A-1.mp4''], Plain 1 700), ([''s'', ''in'', ''f'', ''b''], Folder),
     ([''s'', ''in'', ''f'', ''b'', ''A-1b.mp4''], Plain 2 800)]"

lemma unlisted_directory_is_lost:
  "let (r, w) = archive_folder (demo_behaviour [[''s'', ''in'', ''f'', ''b'']]) demo_archive [''s'', ''in'', ''f''] ''out'' False []
         (demo_mount demo_unseen)
   in (r, map snd (aw_nodes w)) =
     (Value \<lparr>ar_outcome = OArchived, ar_avid = ''A-1'', ar_paths = [''out/A/A-1.mp4''], ar_reason = []\<rparr>,
      [Plain 1 700, Folder, Folder, Folder, Folder, Folder])"
  by code_simp

end
